(* ===== verification/FD_Prelude.thy ===== *)
theory FD_Prelude
  imports Main "HOL-Library.Word" "HOL-Library.Code_Target_Nat"
begin

text \<open>
  Shared vocabulary of the development: the exact-width integer types of the C sources, the
  error codes and diagnostic field numbers of \<^verbatim>\<open>include/frontier_directorate/fd.h\<close>, the
  \<open>memcpy\<close>-style buffer update \<open>blit\<close>, and the list facts every component uses.
\<close>

unbundle bit_operations_syntax

type_synonym u8 = "8 word"
type_synonym u16 = "16 word"
type_synonym u32 = "32 word"
type_synonym u64 = "64 word"
type_synonym bytes = "u8 list"
type_synonym fd_result = u32
type_synonym fd_entity_id = u64

named_theorems fd_const \<open>numeric constants of the public header\<close>
named_theorems byte_simps \<open>reading back what was stored\<close>

section \<open>Constants of the public header\<close>

definition FD_OK :: fd_result where [fd_const]: "FD_OK = 0"
definition FD_ERR_INVALID_ARGUMENT :: fd_result where [fd_const]: "FD_ERR_INVALID_ARGUMENT = 1"
definition FD_ERR_INVALID_SIZE :: fd_result where [fd_const]: "FD_ERR_INVALID_SIZE = 2"
definition FD_ERR_OUT_OF_RANGE :: fd_result where [fd_const]: "FD_ERR_OUT_OF_RANGE = 3"
definition FD_ERR_CAPACITY :: fd_result where [fd_const]: "FD_ERR_CAPACITY = 4"
definition FD_ERR_OUT_OF_MEMORY :: fd_result where [fd_const]: "FD_ERR_OUT_OF_MEMORY = 5"
definition FD_ERR_GENERATION_EXHAUSTED :: fd_result where [fd_const]: "FD_ERR_GENERATION_EXHAUSTED = 6"
definition FD_ERR_INVALID_ACTION :: fd_result where [fd_const]: "FD_ERR_INVALID_ACTION = 7"
definition FD_ERR_BUFFER_TOO_SMALL :: fd_result where [fd_const]: "FD_ERR_BUFFER_TOO_SMALL = 8"
definition FD_ERR_FORMAT :: fd_result where [fd_const]: "FD_ERR_FORMAT = 9"
definition FD_ERR_VERSION :: fd_result where [fd_const]: "FD_ERR_VERSION = 10"
definition FD_ERR_CHECKSUM :: fd_result where [fd_const]: "FD_ERR_CHECKSUM = 11"
definition FD_ERR_STATE :: fd_result where [fd_const]: "FD_ERR_STATE = 12"
definition FD_ERR_BUSY :: fd_result where [fd_const]: "FD_ERR_BUSY = 13"
definition FD_ERR_INTERNAL :: fd_result where [fd_const]: "FD_ERR_INTERNAL = 14"

abbreviation (input) FD_FIELD_NONE :: u32 where "FD_FIELD_NONE \<equiv> 0"
abbreviation (input) FD_FIELD_STRUCT_SIZE :: u32 where "FD_FIELD_STRUCT_SIZE \<equiv> 1"
abbreviation (input) FD_FIELD_WIDTH :: u32 where "FD_FIELD_WIDTH \<equiv> 3"
abbreviation (input) FD_FIELD_HEIGHT :: u32 where "FD_FIELD_HEIGHT \<equiv> 4"
abbreviation (input) FD_FIELD_ATTEMPT_BUDGET :: u32 where "FD_FIELD_ATTEMPT_BUDGET \<equiv> 5"
abbreviation (input) FD_FIELD_TERRAIN_DENSITY :: u32 where "FD_FIELD_TERRAIN_DENSITY \<equiv> 6"
abbreviation (input) FD_FIELD_CONTENT :: u32 where "FD_FIELD_CONTENT \<equiv> 7"
abbreviation (input) FD_FIELD_COORDINATE :: u32 where "FD_FIELD_COORDINATE \<equiv> 8"
abbreviation (input) FD_FIELD_ENTITY_ID :: u32 where "FD_FIELD_ENTITY_ID \<equiv> 9"
abbreviation (input) FD_FIELD_ACTION :: u32 where "FD_FIELD_ACTION \<equiv> 10"
abbreviation (input) FD_FIELD_SEAT_COUNT :: u32 where "FD_FIELD_SEAT_COUNT \<equiv> 11"
abbreviation (input) FD_FIELD_BUFFER_CAPACITY :: u32 where "FD_FIELD_BUFFER_CAPACITY \<equiv> 12"
abbreviation (input) FD_FIELD_FILE_BYTES :: u32 where "FD_FIELD_FILE_BYTES \<equiv> 13"
abbreviation (input) FD_FIELD_FORMAT_VERSION :: u32 where "FD_FIELD_FORMAT_VERSION \<equiv> 14"
abbreviation (input) FD_FIELD_SECTION :: u32 where "FD_FIELD_SECTION \<equiv> 15"
abbreviation (input) FD_FIELD_TICK :: u32 where "FD_FIELD_TICK \<equiv> 16"
abbreviation (input) FD_FIELD_RESERVED :: u32 where "FD_FIELD_RESERVED \<equiv> 17"
abbreviation (input) FD_FIELD_ASCII_MESSAGE :: u32 where "FD_FIELD_ASCII_MESSAGE \<equiv> 19"

abbreviation (input) FD_ABI_VERSION :: u32 where "FD_ABI_VERSION \<equiv> 1"
abbreviation (input) FD_API_VERSION_MAJOR :: u16 where "FD_API_VERSION_MAJOR \<equiv> 0"
abbreviation (input) FD_API_VERSION_MINOR :: u16 where "FD_API_VERSION_MINOR \<equiv> 1"
abbreviation (input) FD_API_VERSION_PATCH :: u16 where "FD_API_VERSION_PATCH \<equiv> 0"
abbreviation (input) FD_SAVE_VERSION_MAJOR :: u16 where "FD_SAVE_VERSION_MAJOR \<equiv> 1"
abbreviation (input) FD_SAVE_VERSION_MINOR :: u16 where "FD_SAVE_VERSION_MINOR \<equiv> 0"
abbreviation (input) FD_REPLAY_VERSION_MAJOR :: u16 where "FD_REPLAY_VERSION_MAJOR \<equiv> 1"
abbreviation (input) FD_REPLAY_VERSION_MINOR :: u16 where "FD_REPLAY_VERSION_MINOR \<equiv> 0"
abbreviation (input) FD_GENERATOR_VERSION :: u32 where "FD_GENERATOR_VERSION \<equiv> 1"
abbreviation (input) FD_RULESET_VERSION :: u32 where "FD_RULESET_VERSION \<equiv> 1"
abbreviation (input) FD_RNG_REGISTRY_VERSION :: u32 where "FD_RNG_REGISTRY_VERSION \<equiv> 1"
abbreviation (input) FD_MAX_CONTENT_PACKS :: u32 where "FD_MAX_CONTENT_PACKS \<equiv> 16"
abbreviation (input) FD_MAX_GENERATION_ATTEMPTS :: u32 where "FD_MAX_GENERATION_ATTEMPTS \<equiv> 64"
abbreviation (input) FD_MAX_NAME_BYTES :: nat where "FD_MAX_NAME_BYTES \<equiv> 48"
abbreviation (input) FD_U01_SEAT_COUNT :: nat where "FD_U01_SEAT_COUNT \<equiv> 2"
abbreviation (input) FD_U01_ENTITY_COUNT :: nat where "FD_U01_ENTITY_COUNT \<equiv> 6"
abbreviation (input) FD_U01_PHASE_COUNT :: nat where "FD_U01_PHASE_COUNT \<equiv> 23"
abbreviation (input) FD_U01_PHASE_TRACE_COUNT :: nat where "FD_U01_PHASE_TRACE_COUNT \<equiv> 552"
abbreviation (input) FD_U01_ENTITY_TRACE_COUNT :: nat where "FD_U01_ENTITY_TRACE_COUNT \<equiv> 146"
abbreviation (input) FD_OPERATIONAL_TICKS :: u64 where "FD_OPERATIONAL_TICKS \<equiv> 24"
abbreviation (input) FD_MIN_WIDTH :: u32 where "FD_MIN_WIDTH \<equiv> 32"
abbreviation (input) FD_MAX_WIDTH :: u32 where "FD_MAX_WIDTH \<equiv> 256"
abbreviation (input) FD_MIN_HEIGHT :: u32 where "FD_MIN_HEIGHT \<equiv> 16"
abbreviation (input) FD_MAX_HEIGHT :: u32 where "FD_MAX_HEIGHT \<equiv> 128"
abbreviation (input) FD_MAX_TILES :: u64 where "FD_MAX_TILES \<equiv> 32768"

text \<open>Grid positions are counted in \<open>nat\<close>; \<open>UINT32_MAX\<close> is the C sentinel for "none".\<close>

abbreviation (input) UINT32_MAX :: nat where "UINT32_MAX \<equiv> 4294967295"

section \<open>Ranges of the exact-width types\<close>

lemma unat_lt_u8: "unat (w :: u8) < 256"
  using unsigned_less [of w] by simp

lemma unat_lt_u16: "unat (w :: u16) < 65536"
  using unsigned_less [of w] by simp

lemma unat_lt_u32: "unat (w :: u32) < 4294967296"
  using unsigned_less [of w] by simp

lemma unat_lt_u64: "unat (w :: u64) < 18446744073709551616"
  using unsigned_less [of w] by simp

lemma unat_of_nat_u32: "n < 4294967296 \<Longrightarrow> unat (of_nat n :: u32) = n"
  by (simp add: unsigned_of_nat take_bit_nat_eq_self)

lemma unat_of_nat_u64: "n < 18446744073709551616 \<Longrightarrow> unat (of_nat n :: u64) = n"
  by (simp add: unsigned_of_nat take_bit_nat_eq_self)

lemma unat_ucast_u64 [simp]: "unat (ucast (w :: u32) :: u64) = unat w"
  using unat_lt_u32 [of w] by (simp add: unsigned_ucast_eq take_bit_nat_eq_self)

section \<open>Buffers\<close>

text \<open>\<open>memcpy (dst + pos, src, length src)\<close> on a buffer held as a list.\<close>

definition blit :: "'a list \<Rightarrow> nat \<Rightarrow> 'a list \<Rightarrow> 'a list" where
  "blit dst pos src = take pos dst @ src @ drop (pos + length src) dst"

lemma length_blit [simp]:
  "pos + length src \<le> length dst \<Longrightarrow> length (blit dst pos src) = length dst"
  by (simp add: blit_def)

lemma take_blit_end:
  "pos \<le> length dst \<Longrightarrow> take (pos + length src) (blit dst pos src) = take pos dst @ src"
  by (simp add: blit_def)

lemma drop_blit_end:
  "pos + length src \<le> length dst \<Longrightarrow>
     drop (pos + length src) (blit dst pos src) = drop (pos + length src) dst"
  by (simp add: blit_def)

lemma blit_whole: "length src = length dst \<Longrightarrow> blit dst 0 src = src"
  by (simp add: blit_def)

lemma drop_append_ge: "length xs \<le> n \<Longrightarrow> drop n (xs @ ys) = drop (n - length xs) ys"
  by simp

lemma nth_append_ge: "length xs \<le> n \<Longrightarrow> (xs @ ys) ! n = ys ! (n - length xs)"
  by (simp add: nth_append)

end
