(* ===== verification/FD_Bytes.thy ===== *)
theory FD_Bytes
  imports FD_Prelude
begin

text \<open>
  The little-endian codecs and the checked 64-bit arithmetic of \<^verbatim>\<open>src/core/fd_core.c\<close>.
  A store is the list of bytes it writes at its pointer, a load reads the front of the list its
  pointer points to.  The locale \<open>codec\<close> is the contract of a fixed-width codec; the file
  formats use it for arrays of fields.
\<close>

unbundle bit_operations_syntax

definition fd_load_u16_le :: "bytes \<Rightarrow> u16" where
  "fd_load_u16_le b = ucast (b ! 0) OR push_bit 8 (ucast (b ! 1))"

definition fd_load_u32_le :: "bytes \<Rightarrow> u32" where
  "fd_load_u32_le b =
     ucast (b ! 0) OR push_bit 8 (ucast (b ! 1)) OR
     push_bit 16 (ucast (b ! 2)) OR push_bit 24 (ucast (b ! 3))"

definition fd_load_u64_le :: "bytes \<Rightarrow> u64" where
  "fd_load_u64_le b =
     ucast (fd_load_u32_le b) OR push_bit 32 (ucast (fd_load_u32_le (drop 4 b)))"

definition fd_store_u16_le :: "u16 \<Rightarrow> bytes" where
  "fd_store_u16_le v = [ucast v, ucast (drop_bit 8 v)]"

definition fd_store_u32_le :: "u32 \<Rightarrow> bytes" where
  "fd_store_u32_le v =
     [ucast v, ucast (drop_bit 8 v), ucast (drop_bit 16 v), ucast (drop_bit 24 v)]"

definition fd_store_u64_le :: "u64 \<Rightarrow> bytes" where
  "fd_store_u64_le v = fd_store_u32_le (ucast v) @ fd_store_u32_le (ucast (drop_bit 32 v))"

definition fd_u64_add :: "u64 \<Rightarrow> u64 \<Rightarrow> u64 option" where
  "fd_u64_add a b = (if (- 1) - a < b then None else Some (a + b))"

definition fd_u64_mul :: "u64 \<Rightarrow> u64 \<Rightarrow> u64 option" where
  "fd_u64_mul a b = (if b \<noteq> 0 \<and> a > (- 1) div b then None else Some (a * b))"

section \<open>Lengths and round trips\<close>

lemma length_store_u16 [simp]: "length (fd_store_u16_le v) = 2"
  by (simp add: fd_store_u16_le_def)

lemma length_store_u32 [simp]: "length (fd_store_u32_le v) = 4"
  by (simp add: fd_store_u32_le_def)

lemma length_store_u64 [simp]: "length (fd_store_u64_le v) = 8"
  by (simp add: fd_store_u64_le_def)

lemma load_store_u16 [byte_simps]: "fd_load_u16_le (fd_store_u16_le v @ r) = v"
  by (rule bit_word_eqI)
    (auto simp: fd_load_u16_le_def fd_store_u16_le_def bit_or_iff bit_push_bit_iff
      bit_ucast_iff bit_drop_bit_eq not_less)

lemma load_store_u32 [byte_simps]: "fd_load_u32_le (fd_store_u32_le v @ r) = v"
proof (rule bit_word_eqI)
  fix n assume "n < LENGTH(32)"
  then consider "n < 8" | "8 \<le> n" "n < 16" | "16 \<le> n" "n < 24" | "24 \<le> n" "n < 32"
    by fastforce
  then show "bit (fd_load_u32_le (fd_store_u32_le v @ r)) n = bit v n"
    by cases (auto simp: fd_load_u32_le_def fd_store_u32_le_def bit_or_iff bit_push_bit_iff
      bit_ucast_iff bit_drop_bit_eq)
qed

lemma load_store_u64 [byte_simps]: "fd_load_u64_le (fd_store_u64_le v @ r) = v"
proof -
  have "drop 4 (fd_store_u64_le v @ r) = fd_store_u32_le (ucast (drop_bit 32 v)) @ r"
    by (simp add: fd_store_u64_le_def)
  then have "fd_load_u64_le (fd_store_u64_le v @ r)
      = ucast (ucast v :: u32) OR push_bit 32 (ucast (ucast (drop_bit 32 v) :: u32))"
    by (simp add: fd_load_u64_le_def) (simp add: fd_store_u64_le_def load_store_u32)
  also have "\<dots> = v"
    by (rule bit_word_eqI)
      (auto simp: bit_or_iff bit_push_bit_iff bit_ucast_iff bit_drop_bit_eq not_less)
  finally show ?thesis .
qed

lemma load_store_u16_nil [byte_simps]: "fd_load_u16_le (fd_store_u16_le v) = v"
  using load_store_u16 [of v "[]"] by simp

lemma load_store_u32_nil [byte_simps]: "fd_load_u32_le (fd_store_u32_le v) = v"
  using load_store_u32 [of v "[]"] by simp

lemma load_store_u64_nil [byte_simps]: "fd_load_u64_le (fd_store_u64_le v) = v"
  using load_store_u64 [of v "[]"] by simp

section \<open>Checked arithmetic\<close>

lemma fd_u64_add_Some_iff:
  "fd_u64_add a b = Some c \<longleftrightarrow> unat a + unat b < 2 ^ 64 \<and> c = a + b"
proof -
  have "unat ((- 1 :: u64) - a) = 2 ^ 64 - 1 - unat a"
    by (simp add: unat_sub unsigned_minus_1_eq_mask mask_eq_exp_minus_1)
  moreover have "unat a < 2 ^ 64" using unsigned_less [of a] by simp
  ultimately have "((- 1) - a < b) = (\<not> unat a + unat b < 2 ^ 64)"
    by (auto simp: word_less_nat_alt)
  then show ?thesis by (auto simp: fd_u64_add_def)
qed

lemma fd_u64_add_unat:
  "fd_u64_add a b = Some c \<Longrightarrow> unat c = unat a + unat b"
  by (auto simp: fd_u64_add_Some_iff unat_word_ariths)

lemma fd_u64_mul_Some_iff:
  "fd_u64_mul a b = Some c \<longleftrightarrow> unat a * unat b < 2 ^ 64 \<and> c = a * b"
proof (cases "b = 0")
  case False
  then have pos: "0 < unat b" by (simp add: unat_gt_0)
  have "(a > (- 1) div b) = (unat a > (2 ^ 64 - 1) div unat b)"
    by (simp add: word_less_nat_alt unat_div_distrib unsigned_minus_1_eq_mask mask_eq_exp_minus_1)
  also have "\<dots> = (\<not> unat a * unat b < 2 ^ 64)"
    using pos by (simp add: div_less_iff_less_mult) linarith
  finally show ?thesis using False by (auto simp: fd_u64_mul_def)
qed (auto simp: fd_u64_mul_def)

lemma fd_u64_mul_unat:
  "fd_u64_mul a b = Some c \<Longrightarrow> unat c = unat a * unat b"
  by (auto simp: fd_u64_mul_Some_iff unat_word_ariths)

section \<open>Fixed-width codecs\<close>

locale codec =
  fixes enc :: "'v \<Rightarrow> bytes" and dec :: "bytes \<Rightarrow> 'v" and width :: nat and dom :: "'v \<Rightarrow> bool"
  assumes width_enc: "dom v \<Longrightarrow> length (enc v) = width"
    and dec_enc: "dom v \<Longrightarrow> dec (enc v @ r) = v"
begin

lemma dec_enc_nil: "dom v \<Longrightarrow> dec (enc v) = v"
  using dec_enc [of v "[]"] by simp

lemma drop_enc: "dom v \<Longrightarrow> drop width (enc v @ r) = r"
  by (simp add: width_enc)

lemma length_concat_enc:
  "(\<And>v. v \<in> set vs \<Longrightarrow> dom v) \<Longrightarrow> length (concat (map enc vs)) = length vs * width"
  by (induction vs) (auto simp: width_enc)

lemma drop_concat_enc:
  assumes "\<And>v. v \<in> set vs \<Longrightarrow> dom v" and "i \<le> length vs"
  shows "drop (i * width) (concat (map enc vs) @ r) = concat (map enc (drop i vs)) @ r"
  using assms
proof (induction vs arbitrary: i)
  case (Cons v vs)
  show ?case
  proof (cases i)
    case (Suc j)
    have "drop (i * width) (enc v @ concat (map enc vs) @ r)
        = drop (j * width) (concat (map enc vs) @ r)"
      using Cons.prems(1) [of v] Suc by (simp add: width_enc)
    also have "\<dots> = concat (map enc (drop j vs)) @ r"
      using Cons Suc by simp
    finally show ?thesis using Suc by simp
  qed simp
qed simp

text \<open>Element \<open>i\<close> of an array of encoded values is read at offset \<open>i * width\<close>.\<close>

lemma dec_nth:
  assumes "\<And>v. v \<in> set vs \<Longrightarrow> dom v" and "i < length vs"
  shows "dec (drop (i * width) (concat (map enc vs) @ r)) = vs ! i"
proof -
  have "drop i vs = vs ! i # drop (Suc i) vs" using assms(2) by (simp add: Cons_nth_drop_Suc)
  then show ?thesis
    using drop_concat_enc [of vs i r] assms dec_enc [of "vs ! i"] by simp
qed

lemma dec_array:
  assumes "\<And>v. v \<in> set vs \<Longrightarrow> dom v"
  shows "map (\<lambda>i. dec (drop (i * width) (concat (map enc vs) @ r))) [0..<length vs] = vs"
  using dec_nth [OF assms] by (intro nth_equalityI) auto

end

interpretation le16: codec fd_store_u16_le fd_load_u16_le 2 "\<lambda>_. True"
  by unfold_locales (simp_all add: byte_simps)

interpretation le32: codec fd_store_u32_le fd_load_u32_le 4 "\<lambda>_. True"
  by unfold_locales (simp_all add: byte_simps)

interpretation le64: codec fd_store_u64_le fd_load_u64_le 8 "\<lambda>_. True"
  by unfold_locales (simp_all add: byte_simps)

section \<open>The codec and arithmetic properties\<close>

text \<open>A little-endian load of what was stored, whatever follows it in the buffer, is the stored
  value, at all three widths.\<close>

theorem little_endian_roundtrip:
  "fd_load_u16_le (fd_store_u16_le a @ r) = a \<and> fd_load_u32_le (fd_store_u32_le b @ r) = b \<and>
   fd_load_u64_le (fd_store_u64_le c @ r) = c"
  by (simp add: byte_simps)

text \<open>Checked addition and multiplication succeed exactly when the mathematical result fits
  64 bits, and then return it.\<close>

theorem checked_arithmetic_exact:
  "fd_u64_add a b = (if unat a + unat b < 2 ^ 64 then Some (of_nat (unat a + unat b)) else None) \<and>
   fd_u64_mul a b = (if unat a * unat b < 2 ^ 64 then Some (of_nat (unat a * unat b)) else None)"
proof
  show "fd_u64_add a b = (if unat a + unat b < 2 ^ 64 then Some (of_nat (unat a + unat b)) else None)"
    using fd_u64_add_Some_iff [of a b] by (cases "fd_u64_add a b") auto
  show "fd_u64_mul a b = (if unat a * unat b < 2 ^ 64 then Some (of_nat (unat a * unat b)) else None)"
    using fd_u64_mul_Some_iff [of a b] by (cases "fd_u64_mul a b") auto
qed

end
