(* ===== verification/FD_Diag.thy ===== *)
theory FD_Diag
  imports FD_Bytes
begin

text \<open>
  Structured diagnostics and the struct-header checks of \<^verbatim>\<open>src/core/fd_core.c\<close>.
  A \<open>fd_diagnostic *\<close> parameter is an option (\<open>None\<close> is \<open>NULL\<close>); a call that writes through it
  returns the updated value.  C string literals are the byte lists \<open>str ''...''\<close>.
\<close>

definition str :: "string \<Rightarrow> bytes" where
  "str s = map of_char s"

lemma length_str [simp]: "length (str s) = length s"
  by (simp add: str_def)

definition strlen :: "bytes \<Rightarrow> nat" where
  "strlen s = length (takeWhile (\<lambda>c. c \<noteq> 0) s)"

lemma strlen_le: "strlen s \<le> length s"
  by (simp add: strlen_def length_takeWhile_le)

record fd_diagnostic =
  dg_struct_size :: u32
  dg_abi_version :: u32
  dg_code :: fd_result
  dg_field_id :: u32
  dg_item_index :: u32
  dg_message :: bytes

type_synonym diag = "fd_diagnostic option"

text \<open>\<open>sizeof (fd_diagnostic)\<close> is 180 and its message array holds 160 bytes.\<close>

definition diag_valid :: "fd_diagnostic \<Rightarrow> bool" where
  "diag_valid d \<longleftrightarrow> 180 \<le> dg_struct_size d \<and> dg_abi_version d = FD_ABI_VERSION"

definition fd_diag_set ::
    "diag \<Rightarrow> fd_result \<Rightarrow> u32 \<Rightarrow> u32 \<Rightarrow> bytes \<Rightarrow> fd_result \<times> diag" where
  "fd_diag_set diag code field_id item_index message =
     (code,
      case diag of
        None \<Rightarrow> None
      | Some d \<Rightarrow>
          if 180 \<le> dg_struct_size d \<and> dg_abi_version d = FD_ABI_VERSION then
            let length0 = strlen message;
                length1 = (if length0 \<ge> 160 then 159 else length0)
            in Some (d\<lparr>dg_code := code, dg_field_id := field_id, dg_item_index := item_index,
                       dg_message := take length1 message @ replicate (160 - length1) 0\<rparr>)
          else Some d)"

definition fd_diag_ok :: "diag \<Rightarrow> fd_result \<times> diag" where
  "fd_diag_ok diag = fd_diag_set diag FD_OK FD_FIELD_NONE 0 (str ''ok'')"

definition fd_diagnostic_init :: fd_diagnostic where
  "fd_diagnostic_init =
     \<lparr>dg_struct_size = 180, dg_abi_version = FD_ABI_VERSION, dg_code = FD_OK,
      dg_field_id = 0, dg_item_index = 0, dg_message = str ''ok'' @ replicate 158 0\<rparr>"

text \<open>
  The first two words of every public struct are its size and its ABI version; a pointer to
  one is the pair of them, \<open>None\<close> for \<open>NULL\<close>.
\<close>

definition fd_output_struct_valid :: "(u32 \<times> u32) option \<Rightarrow> u32 \<Rightarrow> bool" where
  "fd_output_struct_valid out struct_size =
     (case out of None \<Rightarrow> False
      | Some (hsize, abi) \<Rightarrow> struct_size \<le> hsize \<and> abi = FD_ABI_VERSION)"

definition fd_input_struct_valid :: "(u32 \<times> u32) option \<Rightarrow> u32 \<Rightarrow> bool" where
  "fd_input_struct_valid inp struct_size = fd_output_struct_valid inp struct_size"

definition fd_reserved_zero :: "u32 list \<Rightarrow> bool" where
  "fd_reserved_zero values = list_all (\<lambda>v. v = 0) values"

section \<open>Facts\<close>

lemma fst_diag_set [simp]: "fst (fd_diag_set d c f i m) = c"
  by (simp add: fd_diag_set_def)

lemma fst_diag_ok [simp]: "fst (fd_diag_ok d) = FD_OK"
  by (simp add: fd_diag_ok_def)

lemma fd_diag_set_None [simp]: "fd_diag_set None c f i m = (c, None)"
  by (simp add: fd_diag_set_def)

text \<open>A diagnostic that was acceptable stays acceptable and reports exactly the last call.\<close>

lemma fd_diag_set_valid:
  assumes "diag_valid d"
  obtains d' where "fd_diag_set (Some d) c f i m = (c, Some d')" and "diag_valid d'"
    and "dg_code d' = c" and "dg_field_id d' = f" and "dg_item_index d' = i"
    and "length (dg_message d') = 160"
proof
  let ?n = "if strlen m \<ge> 160 then 159 else strlen m"
  let ?d = "d\<lparr>dg_code := c, dg_field_id := f, dg_item_index := i,
              dg_message := take ?n m @ replicate (160 - ?n) 0\<rparr>"
  show "fd_diag_set (Some d) c f i m = (c, Some ?d)"
    using assms by (simp add: fd_diag_set_def diag_valid_def Let_def)
  have "?n \<le> length m" using strlen_le [of m] by simp
  then show "length (dg_message ?d) = 160" by auto
qed (use assms in \<open>simp_all add: diag_valid_def\<close>)

lemma fd_diag_set_invalid:
  "\<not> diag_valid d \<Longrightarrow> fd_diag_set (Some d) c f i m = (c, Some d)"
  by (auto simp: fd_diag_set_def diag_valid_def)

lemma diag_valid_init: "diag_valid fd_diagnostic_init"
  by (simp add: diag_valid_def fd_diagnostic_init_def)

lemma strlen_message:
  assumes "\<And>c. c \<in> set m \<Longrightarrow> c \<noteq> 0"
  shows "strlen (m @ replicate n 0) = length m"
proof -
  have "takeWhile (\<lambda>c. c \<noteq> 0) (m @ replicate n 0) = m"
    using assms by (cases n) simp_all
  then show ?thesis by (simp add: strlen_def)
qed

text \<open>
  Reading a chain of guards \<open>if bad then fd_diag_set ... else ...\<close>: the chain gives \<open>FD_OK\<close> when
  every guard is passed.
\<close>

named_theorems guard_simps \<open>outcomes of guard chains\<close>

lemma err_not_OK [simp]:
  "FD_ERR_INVALID_ARGUMENT \<noteq> FD_OK" "FD_ERR_INVALID_SIZE \<noteq> FD_OK" "FD_ERR_OUT_OF_RANGE \<noteq> FD_OK"
  "FD_ERR_CAPACITY \<noteq> FD_OK" "FD_ERR_OUT_OF_MEMORY \<noteq> FD_OK" "FD_ERR_GENERATION_EXHAUSTED \<noteq> FD_OK"
  "FD_ERR_INVALID_ACTION \<noteq> FD_OK" "FD_ERR_BUFFER_TOO_SMALL \<noteq> FD_OK" "FD_ERR_FORMAT \<noteq> FD_OK"
  "FD_ERR_VERSION \<noteq> FD_OK" "FD_ERR_CHECKSUM \<noteq> FD_OK" "FD_ERR_STATE \<noteq> FD_OK"
  "FD_ERR_BUSY \<noteq> FD_OK" "FD_ERR_INTERNAL \<noteq> FD_OK"
  by (simp_all add: fd_const)

lemmas OK_not_err [simp] = err_not_OK [symmetric]

lemma diag_set_eq_iff [simp]: "fd_diag_set d c f i m = (r, d') \<longleftrightarrow> c = r \<and> snd (fd_diag_set d c f i m) = d'"
  by (simp add: prod_eq_iff)

lemma diag_ok_fst: "fd_diag_ok d = (r, d') \<longleftrightarrow> r = FD_OK \<and> d' = snd (fd_diag_ok d)"
  by (auto simp: prod_eq_iff)

lemma guard_fst [guard_simps]:
  "e \<noteq> FD_OK \<Longrightarrow> fst (if c then fd_diag_set d e f i m else k) = FD_OK \<longleftrightarrow> \<not> c \<and> fst k = FD_OK"
  by simp

lemma guard_eq [guard_simps]:
  "e \<noteq> FD_OK \<Longrightarrow> (if c then fd_diag_set d e f i m else k) = (FD_OK, d') \<longleftrightarrow> \<not> c \<and> k = (FD_OK, d')"
  by simp

lemma guard_pair_fst [guard_simps]:
  "e \<noteq> FD_OK \<Longrightarrow> fst (fst (if c then (fd_diag_set d e f i m, x) else k)) = FD_OK \<longleftrightarrow>
     \<not> c \<and> fst (fst k) = FD_OK"
  by simp

lemma guard_pair_eq [guard_simps]:
  "e \<noteq> FD_OK \<Longrightarrow> (if c then (fd_diag_set d e f i m, x) else k) = ((FD_OK, d'), y) \<longleftrightarrow>
     \<not> c \<and> k = ((FD_OK, d'), y)"
  by simp

end
