(* ===== verification/FD_Digest.thy ===== *)
theory FD_Digest
  imports FD_Sha256
begin

text \<open>
  Correctness of the streaming digest.  The buffered copy loop absorbs the input byte by byte
  (\<open>sha_update_loop_absorb\<close>); after absorbing a message the context holds the compression of its
  full blocks and its tail (\<open>sha_inv\<close>); finishing produces the digest of the padded message
  (\<open>sha256_eq_spec\<close>).  The contract \<open>stream_digest\<close> is proved for the model and is what the
  canonical encoders of the other theories use.
\<close>

unbundle bit_operations_syntax

section \<open>The update loop absorbs bytes one at a time\<close>

definition sha_wf :: "fd_sha256_ctx \<Rightarrow> bool" where
  "sha_wf ctx \<longleftrightarrow> length (sha_block ctx) = 64 \<and> sha_block_size ctx < 64"

definition sha_absorb :: "u8 \<Rightarrow> fd_sha256_ctx \<Rightarrow> fd_sha256_ctx" where
  "sha_absorb b ctx =
     (let ctx1 = ctx\<lparr>sha_block := (sha_block ctx)[sha_block_size ctx := b],
                     sha_block_size := sha_block_size ctx + 1\<rparr>
      in if sha_block_size ctx1 = 64 then (fd_sha256_compress ctx1)\<lparr>sha_block_size := 0\<rparr>
         else ctx1)"

lemma sha_wf_init: "sha_wf fd_sha256_init_internal"
  by (simp add: sha_wf_def fd_sha256_init_internal_def)

lemma sha_wf_absorb: "sha_wf ctx \<Longrightarrow> sha_wf (sha_absorb b ctx)"
  by (auto simp: sha_wf_def sha_absorb_def fd_sha256_compress_def Let_def)

lemma sha_wf_fold_absorb: "sha_wf ctx \<Longrightarrow> sha_wf (fold sha_absorb xs ctx)"
  by (induction xs arbitrary: ctx) (auto intro: sha_wf_absorb)

lemma sha_absorb_total [simp]: "sha_total_size (sha_absorb b ctx) = sha_total_size ctx"
  by (simp add: sha_absorb_def fd_sha256_compress_def Let_def)

lemma fold_absorb_total [simp]: "sha_total_size (fold sha_absorb xs ctx) = sha_total_size ctx"
  by (induction xs arbitrary: ctx) auto

lemma sha_absorb_set_total:
  "sha_absorb b (ctx\<lparr>sha_total_size := t\<rparr>) = (sha_absorb b ctx)\<lparr>sha_total_size := t\<rparr>"
  by (simp add: sha_absorb_def fd_sha256_compress_def Let_def)

lemma fold_absorb_set_total:
  "fold sha_absorb xs (ctx\<lparr>sha_total_size := t\<rparr>) = (fold sha_absorb xs ctx)\<lparr>sha_total_size := t\<rparr>"
  by (induction xs arbitrary: ctx) (simp_all add: sha_absorb_set_total)

lemma blit_Cons:
  "pos < length dst \<Longrightarrow> blit (dst[pos := x]) (Suc pos) xs = blit dst pos (x # xs)"
  by (simp add: blit_def take_Suc_conv_app_nth)

lemma fold_absorb_partial:
  assumes "length (sha_block ctx) = 64" and "sha_block_size ctx + length xs < 64"
  shows "fold sha_absorb xs ctx =
           ctx\<lparr>sha_block := blit (sha_block ctx) (sha_block_size ctx) xs,
               sha_block_size := sha_block_size ctx + length xs\<rparr>"
  using assms
proof (induction xs arbitrary: ctx)
  case Nil
  then show ?case by (simp add: blit_def)
next
  case (Cons x xs)
  let ?c = "ctx\<lparr>sha_block := (sha_block ctx)[sha_block_size ctx := x],
                sha_block_size := sha_block_size ctx + 1\<rparr>"
  have "sha_absorb x ctx = ?c" using Cons.prems by (simp add: sha_absorb_def)
  moreover have "fold sha_absorb xs ?c =
      ?c\<lparr>sha_block := blit (sha_block ?c) (sha_block_size ?c) xs,
         sha_block_size := sha_block_size ?c + length xs\<rparr>"
    by (rule Cons.IH) (use Cons.prems in simp_all)
  ultimately show ?case using Cons.prems by (simp add: blit_Cons)
qed

lemma fold_absorb_full:
  assumes "length (sha_block ctx) = 64" and "sha_block_size ctx + length xs = 64" and "xs \<noteq> []"
  shows "fold sha_absorb xs ctx =
           (fd_sha256_compress (ctx\<lparr>sha_block := blit (sha_block ctx) (sha_block_size ctx) xs,
                                    sha_block_size := 64\<rparr>))\<lparr>sha_block_size := 0\<rparr>"
proof -
  obtain ys y where xs: "xs = ys @ [y]" using assms(3) by (metis rev_exhaust)
  have "length (drop 63 (sha_block ctx)) = 1" using assms(1) by simp
  then obtain z where "drop 63 (sha_block ctx) = [z]"
    unfolding One_nat_def length_Suc_conv by auto
  then have "(blit (sha_block ctx) (sha_block_size ctx) ys)[sha_block_size ctx + length ys := y]
      = blit (sha_block ctx) (sha_block_size ctx) xs"
    using assms(1,2) xs by (auto simp: blit_def list_update_append)
  then show ?thesis
    using assms(1,2) xs fold_absorb_partial [of ctx ys]
    by (simp add: sha_absorb_def)
qed

lemma sha_update_loop_absorb:
  "sha_wf ctx \<Longrightarrow> sha_update_loop ctx inp = fold sha_absorb inp ctx"
proof (induction ctx inp rule: sha_update_loop.induct)
  case (1 ctx inp)
  show ?case
  proof (cases "inp = []")
    case True
    then show ?thesis by (simp add: sha_update_loop.simps [of ctx "[]"])
  next
    case False
    define tk where "tk = min (length inp) (64 - sha_block_size ctx)"
    define ctx1 where "ctx1 = ctx\<lparr>sha_block := blit (sha_block ctx) (sha_block_size ctx) (take tk inp),
        sha_block_size := sha_block_size ctx + tk\<rparr>"
    define ctx2 where "ctx2 = (if sha_block_size ctx1 = 64
        then (fd_sha256_compress ctx1)\<lparr>sha_block_size := 0\<rparr> else ctx1)"
    have wf: "length (sha_block ctx) = 64" "sha_block_size ctx < 64"
      using "1.prems" by (auto simp: sha_wf_def)
    have tk: "0 < tk" "tk \<le> length inp" "sha_block_size ctx + tk \<le> 64"
      using False wf by (auto simp: tk_def)
    have step: "fold sha_absorb (take tk inp) ctx = ctx2"
    proof (cases "sha_block_size ctx + tk = 64")
      case True
      then show ?thesis using fold_absorb_full [of ctx "take tk inp"] wf tk False
        by (simp add: ctx2_def ctx1_def)
    next
      case False
      then show ?thesis using fold_absorb_partial [of ctx "take tk inp"] wf tk
        by (simp add: ctx2_def ctx1_def)
    qed
    have "sha_wf ctx2" using sha_wf_fold_absorb [OF "1.prems", of "take tk inp"] step by simp
    then have "sha_update_loop ctx2 (drop tk inp) = fold sha_absorb (drop tk inp) ctx2"
      using "1.IH" [of "64 - sha_block_size ctx" tk ctx1 ctx2] False tk
      by (simp add: tk_def ctx1_def ctx2_def)
    moreover have "sha_update_loop ctx inp = (if tk = 0 then ctx else sha_update_loop ctx2 (drop tk inp))"
      using False by (subst sha_update_loop.simps) (simp only: Let_def tk_def ctx1_def ctx2_def if_False)
    ultimately have "sha_update_loop ctx inp = fold sha_absorb (drop tk inp) ctx2"
      using tk by simp
    also have "\<dots> = fold sha_absorb (take tk inp @ drop tk inp) ctx"
      by (simp only: fold_append o_def step)
    finally show ?thesis by simp
  qed
qed

lemma fd_sha256_update_absorb:
  "sha_wf ctx \<Longrightarrow> fd_sha256_update_internal ctx inp =
     (fold sha_absorb inp ctx)\<lparr>sha_total_size := sha_total_size ctx + of_nat (length inp)\<rparr>"
  by (simp add: fd_sha256_update_internal_def sha_update_loop_absorb sha_wf_def
      fold_absorb_set_total)

section \<open>The contract of a streaming digest\<close>

locale stream_digest =
  fixes init :: 's and upd :: "'s \<Rightarrow> bytes \<Rightarrow> 's" and ok :: "'s \<Rightarrow> bool"
  assumes ok_init: "ok init"
    and ok_upd: "ok s \<Longrightarrow> ok (upd s xs)"
    and upd_append: "ok s \<Longrightarrow> upd (upd s xs) ys = upd s (xs @ ys)"
    and upd_nil: "ok s \<Longrightarrow> upd s [] = s"
begin

lemma ok_foldl: "ok s \<Longrightarrow> ok (foldl upd s xss)"
  by (induction xss arbitrary: s) (auto intro: ok_upd)

lemma foldl_upd: "ok s \<Longrightarrow> foldl upd s xss = upd s (concat xss)"
  by (induction xss arbitrary: s) (simp_all add: upd_nil ok_upd upd_append)

lemma fold_upd_map: "ok s \<Longrightarrow> fold (\<lambda>x s. upd s (f x)) xs s = upd s (concat (map f xs))"
  by (induction xs arbitrary: s) (simp_all add: upd_nil ok_upd upd_append)

text \<open>An encoder that only ever feeds the bytes of its argument can be run in one call.\<close>

lemma fold_step:
  assumes "\<And>x s. ok s \<Longrightarrow> g x s = upd s (f x)" and "ok s"
  shows "fold g xs s = upd s (concat (map f xs))"
  using assms(2) by (induction xs arbitrary: s) (simp_all add: assms(1) upd_nil ok_upd upd_append)

end

lemma sha_wf_update: "sha_wf s \<Longrightarrow> sha_wf (fd_sha256_update_internal s xs)"
  using sha_wf_fold_absorb [of s xs] by (simp add: fd_sha256_update_absorb sha_wf_def)

interpretation sha: stream_digest fd_sha256_init_internal fd_sha256_update_internal sha_wf
proof unfold_locales
  fix s xs ys assume wf: "sha_wf s"
  show "fd_sha256_update_internal (fd_sha256_update_internal s xs) ys
      = fd_sha256_update_internal s (xs @ ys)"
    using wf sha_wf_update [OF wf, of xs]
    by (simp add: fd_sha256_update_absorb fold_absorb_set_total add.assoc)
  show "fd_sha256_update_internal s [] = s"
    using wf by (simp add: fd_sha256_update_absorb)
qed (simp_all add: sha_wf_init sha_wf_update)

section \<open>The padded-message definition\<close>

function chunks64 :: "bytes \<Rightarrow> bytes list" where
  "chunks64 xs = (if length xs < 64 then [] else take 64 xs # chunks64 (drop 64 xs))"
  by pat_completeness auto
termination
  by (relation "measure length") auto

declare chunks64.simps [simp del]

definition sha_pad :: "bytes \<Rightarrow> bytes" where
  "sha_pad m = m @ [0x80] @ replicate ((119 - length m mod 64) mod 64) 0
                 @ be64_store (of_nat (8 * length m))"

definition sha256_spec :: "bytes \<Rightarrow> bytes" where
  "sha256_spec m = concat (map be32_store (foldl sha_compress sha_initial (chunks64 (sha_pad m))))"

lemma chunks64_Nil [simp]: "chunks64 [] = []"
  by (simp add: chunks64.simps)

lemma chunks64_block: "length b = 64 \<Longrightarrow> chunks64 (b @ xs) = b # chunks64 xs"
  by (simp add: chunks64.simps [of "b @ xs"])

lemma chunks64_append:
  "64 dvd length full \<Longrightarrow> chunks64 (full @ xs) = chunks64 full @ chunks64 xs"
proof (induction full rule: chunks64.induct)
  case (1 full)
  show ?case
  proof (cases "length full < 64")
    case True
    with "1.prems" have "full = []" by (auto dest: dvd_imp_le)
    then show ?thesis by simp
  next
    case False
    with "1.prems" have "64 dvd length (drop 64 full)" by simp
    with "1.IH" False have "chunks64 (drop 64 full @ xs) = chunks64 (drop 64 full) @ chunks64 xs"
      by simp
    with False show ?thesis
      by (simp add: chunks64.simps [of "full @ xs"] chunks64.simps [of full])
  qed
qed

text \<open>What the context holds after absorbing a message.\<close>

definition sha_inv :: "bytes \<Rightarrow> fd_sha256_ctx \<Rightarrow> bool" where
  "sha_inv m ctx \<longleftrightarrow> sha_wf ctx \<and>
     (\<exists>full rest. m = full @ rest \<and> 64 dvd length full \<and> length rest = sha_block_size ctx \<and>
        take (sha_block_size ctx) (sha_block ctx) = rest \<and>
        sha_state ctx = foldl sha_compress sha_initial (chunks64 full))"

lemma sha_inv_init: "sha_inv [] fd_sha256_init_internal"
  by (simp add: sha_inv_def sha_wf_init) (simp add: fd_sha256_init_internal_def)

lemma sha_inv_absorb:
  assumes "sha_inv m ctx" shows "sha_inv (m @ [b]) (sha_absorb b ctx)"
proof -
  from assms obtain full rest where m: "m = full @ rest" and dvd: "64 dvd length full"
    and len: "length rest = sha_block_size ctx"
    and tk: "take (sha_block_size ctx) (sha_block ctx) = rest"
    and st: "sha_state ctx = foldl sha_compress sha_initial (chunks64 full)" and wf: "sha_wf ctx"
    unfolding sha_inv_def by blast
  let ?bl = "(sha_block ctx)[sha_block_size ctx := b]"
  have tk': "take (Suc (sha_block_size ctx)) ?bl = rest @ [b]"
    using tk wf by (simp add: take_Suc_conv_app_nth sha_wf_def)
  show ?thesis
  proof (cases "sha_block_size ctx + 1 = 64")
    case True
    then have bl: "?bl = rest @ [b]" using tk' wf by (simp add: sha_wf_def)
    have "chunks64 ((full @ rest) @ [b]) = chunks64 full @ [rest @ [b]]"
      using chunks64_append [OF dvd, of "rest @ [b]"] chunks64_block [of "rest @ [b]" "[]"] True len
      by simp
    then have "sha_inv (m @ [b]) (sha_absorb b ctx) \<longleftrightarrow> True"
      using True wf sha_wf_absorb [OF wf, of b] m dvd len st bl
      by (auto simp: sha_inv_def sha_absorb_def fd_sha256_compress_def
          intro!: exI [of _ "m @ [b]"] exI [of _ "[]"])
    then show ?thesis by simp
  next
    case False
    then show ?thesis
      using wf sha_wf_absorb [OF wf, of b] m dvd len st tk'
      by (auto simp: sha_inv_def sha_absorb_def intro!: exI [of _ full] exI [of _ "rest @ [b]"])
  qed
qed

lemma sha_inv_fold: "sha_inv m ctx \<Longrightarrow> sha_inv (m @ xs) (fold sha_absorb xs ctx)"
proof (induction xs arbitrary: m ctx)
  case (Cons x xs)
  from Cons.IH [OF sha_inv_absorb [OF Cons.prems, of x]] show ?case by simp
qed simp

lemma sha_inv_update:
  "sha_inv m (fd_sha256_update_internal fd_sha256_init_internal m)"
proof -
  have "sha_inv m ctx \<Longrightarrow> sha_inv m (ctx\<lparr>sha_total_size := t\<rparr>)" for ctx t
    by (auto simp: sha_inv_def sha_wf_def)
  then show ?thesis
    using sha_inv_fold [OF sha_inv_init, of m] by (simp add: fd_sha256_update_absorb sha_wf_init)
qed

section \<open>Finishing\<close>

lemma length_be64 [simp]: "length (be64_store v) = 8"
  by (simp add: be64_store_def)

lemma length_be32 [simp]: "length (be32_store v) = 4"
  by (simp add: be32_store_def)

lemma length_sha_compress [simp]: "length (sha_compress st b) = 8"
  by (simp add: sha_compress_def split: prod.splits)

lemma length_foldl_compress: "length st = 8 \<Longrightarrow> length (foldl sha_compress st bs) = 8"
  by (induction bs arbitrary: st) auto

lemma length_sha256 [simp]: "length (sha256 m) = 32"
proof -
  have "length (concat (map be32_store ws)) = 4 * length ws" for ws
    by (induction ws) auto
  then show ?thesis
    by (simp add: sha256_def fd_sha256_final_internal_def fd_sha256_compress_def Let_def)
qed

lemma blit_blit:
  assumes "pos \<le> length dst"
  shows "blit (blit dst pos xs) (pos + length xs) ys = blit dst pos (xs @ ys)"
  using assms by (simp add: blit_def add.commute add.left_commute)

text \<open>The two shapes of the tail: length and terminator fit in the last block, or need one more.\<close>

lemma sha_pad_short:
  assumes "m = full @ rest" "64 dvd length full" "length rest \<le> 55"
  shows "chunks64 (sha_pad m) = chunks64 full @
     [rest @ [0x80] @ replicate (55 - length rest) 0 @ be64_store (of_nat (8 * length m))]"
proof -
  have "length m mod 64 = length rest" using assms by (auto simp: dvd_def)
  moreover have "(119 - length rest) mod 64 = 55 - length rest"
    using assms(3) by (simp add: mod_if)
  ultimately show ?thesis
    using assms chunks64_append [OF assms(2)]
      chunks64_block [of "rest @ [0x80] @ replicate (55 - length rest) 0 @ be64_store (of_nat (8 * length m))" "[]"]
    by (simp add: sha_pad_def)
qed

lemma sha_pad_long:
  assumes "m = full @ rest" "64 dvd length full" "55 < length rest" "length rest < 64"
  shows "chunks64 (sha_pad m) = chunks64 full @
     [rest @ [0x80] @ replicate (63 - length rest) 0,
      replicate 56 0 @ be64_store (of_nat (8 * length m))]"
proof -
  have "length m mod 64 = length rest" using assms by (auto simp: dvd_def)
  moreover have "(119 - length rest) mod 64 = (63 - length rest) + 56"
    using assms(3,4) by simp
  moreover have "replicate ((63 - length rest) + 56) (0 :: u8)
      = replicate (63 - length rest) 0 @ replicate 56 0"
    by (rule replicate_add)
  ultimately have pad: "sha_pad m = full @ (rest @ [0x80] @ replicate (63 - length rest) 0) @
      (replicate 56 0 @ be64_store (of_nat (8 * length m)))"
    using assms(1) by (simp only: sha_pad_def append_assoc)
  show ?thesis
    unfolding pad chunks64_append [OF assms(2)]
    using assms(4) chunks64_block [of "rest @ [0x80] @ replicate (63 - length rest) 0"
        "replicate 56 0 @ be64_store (of_nat (8 * length m))"]
      chunks64_block [of "replicate 56 0 @ be64_store (of_nat (8 * length m))" "[]"]
    by simp
qed

lemma blit_prefix:
  assumes "take p dst = rest" and "length dst = 64" and "p + length xs = 64"
  shows "blit dst p xs = rest @ xs"
  using assms by (simp add: blit_def)

lemma sha_final_inv:
  assumes inv: "sha_inv m ctx" and total: "sha_total_size ctx = of_nat (length m)"
  shows "fd_sha256_final_internal ctx = sha256_spec m"
proof -
  from inv obtain full rest where m: "m = full @ rest" and dvd: "64 dvd length full"
    and len: "length rest = sha_block_size ctx"
    and tk: "take (sha_block_size ctx) (sha_block ctx) = rest"
    and st: "sha_state ctx = foldl sha_compress sha_initial (chunks64 full)" and wf: "sha_wf ctx"
    unfolding sha_inv_def by blast
  have bl: "length (sha_block ctx) = 64" and bs: "length rest < 64"
    using wf len by (auto simp: sha_wf_def)
  have bits: "sha_total_size ctx * 8 = of_nat (8 * length m)" by (simp add: total mult.commute)
  show ?thesis
  proof (cases "length rest \<le> 55")
    case True
    have "blit (blit (blit (sha_block ctx) (length rest) [0x80]) (Suc (length rest))
            (replicate (55 - length rest) 0)) 56 (be64_store (of_nat (8 * length m)))
        = rest @ [0x80] @ replicate (55 - length rest) 0 @ be64_store (of_nat (8 * length m))"
      using True bl tk len
        blit_blit [of "length rest" "sha_block ctx" "[0x80]" "replicate (55 - length rest) 0"]
        blit_blit [of "length rest" "sha_block ctx" "[0x80] @ replicate (55 - length rest) 0"
          "be64_store (of_nat (8 * length m))"]
      by (simp add: blit_prefix)
    then show ?thesis
      using True len st
      by (simp add: fd_sha256_final_internal_def sha256_spec_def sha_pad_short [OF m dvd]
          fd_sha256_compress_def Let_def bits del: of_nat_mult)
  next
    case False
    then have big: "55 < length rest" by simp
    have b1: "blit (blit (sha_block ctx) (length rest) [0x80]) (Suc (length rest))
            (replicate (63 - length rest) 0) = rest @ [0x80] @ replicate (63 - length rest) 0"
      using bl tk len bs
        blit_blit [of "length rest" "sha_block ctx" "[0x80]" "replicate (63 - length rest) 0"]
      by (simp add: blit_prefix)
    have b2: "blit (blit (rest @ [0x80] @ replicate (63 - length rest) 0) 0 (replicate 56 0)) 56
          (be64_store (of_nat (8 * length m))) = replicate 56 0 @ be64_store (of_nat (8 * length m))"
      using bs by (simp add: blit_def)
    show ?thesis
      using big len st b1 b2
      by (simp add: fd_sha256_final_internal_def sha256_spec_def sha_pad_long [OF m dvd big bs]
          fd_sha256_compress_def Let_def bits del: of_nat_mult)
  qed
qed

lemma sha_total_update:
  "sha_total_size (fd_sha256_update_internal fd_sha256_init_internal m) = of_nat (length m)"
  by (simp add: fd_sha256_update_absorb sha_wf_init) (simp add: fd_sha256_init_internal_def)

lemma sha256_eq_spec: "sha256 m = sha256_spec m"
  unfolding sha256_def by (rule sha_final_inv [OF sha_inv_update sha_total_update])

lemma sha256_via_updates:
  "fd_sha256_final_internal (foldl fd_sha256_update_internal fd_sha256_init_internal xss)
     = sha256 (concat xss)"
  by (simp add: sha.foldl_upd [OF sha_wf_init] sha256_def)

lemma fd_sha256_Some:
  "fd_sha256 (Some b) n (Some out) = (FD_OK, Some (sha256 (take n b)))"
  by (auto simp: fd_sha256_def sha256_def sha.upd_nil [OF sha_wf_init])

text \<open>C39: however a message is cut into pieces for the streaming interface, the result is the
  SHA-256 of the standard's padded message: the compression function folded over its 64-byte blocks.\<close>

theorem sha256_streaming_spec:
  "fd_sha256_final_internal (foldl fd_sha256_update_internal fd_sha256_init_internal parts)
     = sha256_spec (concat parts)"
  by (simp only: sha256_via_updates sha256_eq_spec)

end
