(* ===== verification/FD_Rng.thy ===== *)
theory FD_Rng
  imports FD_Digest
begin

text \<open>
  The counter-based generator of \<^verbatim>\<open>src/core/fd_rng.c\<close>: Philox4x32-10, the SHA-256 semantic
  scope that keys it, and unbiased bounded sampling by rejection.  Proved here: Philox is a
  permutation of the counter space for every key, a bounded sample is in range, exactly equally
  many accepted 32-bit words map to every residue, and the scope digest is the digest of one
  canonical byte string.
\<close>

unbundle bit_operations_syntax

type_synonym philox_ctr = "u32 \<times> u32 \<times> u32 \<times> u32"
type_synonym philox_key = "u32 \<times> u32"

definition fd_mul32 :: "u32 \<Rightarrow> u32 \<Rightarrow> u64" where
  "fd_mul32 left right = ucast left * ucast right"

fun philox_round :: "philox_key \<Rightarrow> philox_ctr \<Rightarrow> philox_ctr" where
  "philox_round (k0, k1) (v0, v1, v2, v3) =
     (let product0 = fd_mul32 0xd2511f53 v0;
          product1 = fd_mul32 0xcd9e8d57 v2
      in (ucast (drop_bit 32 product1) XOR v1 XOR k0, ucast product1,
          ucast (drop_bit 32 product0) XOR v3 XOR k1, ucast product0))"

fun philox_rounds :: "nat \<Rightarrow> philox_key \<Rightarrow> philox_ctr \<Rightarrow> philox_ctr" where
  "philox_rounds 0 key value = value"
| "philox_rounds (Suc n) (k0, k1) value =
     philox_rounds n (k0 + 0x9e3779b9, k1 + 0xbb67ae85) (philox_round (k0, k1) value)"

definition fd_philox4x32_10 ::
    "philox_ctr option \<Rightarrow> philox_key option \<Rightarrow> philox_ctr option \<Rightarrow> fd_result \<times> philox_ctr option" where
  "fd_philox4x32_10 counter key out =
     (case (counter, key, out) of
        (Some c, Some k, Some _) \<Rightarrow> (FD_OK, Some (philox_rounds 10 k c))
      | _ \<Rightarrow> (FD_ERR_INVALID_ARGUMENT, out))"

definition rng_literal :: bytes where
  "rng_literal = str ''FrontierDirectorate/RNG/v1''"

definition fd_rng_digest :: "bytes \<Rightarrow> u32 \<Rightarrow> u32 \<Rightarrow> u32 \<Rightarrow> u64 \<Rightarrow> u64 \<Rightarrow> bytes" where
  "fd_rng_digest root_seed_le generator_version ruleset_version domain_id subject_id occurrence_id =
     fd_sha256_final_internal
       (foldl fd_sha256_update_internal fd_sha256_init_internal
         [fd_store_u32_le 26, rng_literal,
          fd_store_u32_le 16, take 16 root_seed_le,
          fd_store_u32_le 4, fd_store_u32_le generator_version,
          fd_store_u32_le 4, fd_store_u32_le ruleset_version,
          fd_store_u32_le 4, fd_store_u32_le domain_id,
          fd_store_u32_le 8, fd_store_u64_le subject_id,
          fd_store_u32_le 8, fd_store_u64_le occurrence_id])"

text \<open>The semantic identity of one sample: every argument but the retry block and the lane.\<close>

record rng_scope =
  rs_root_seed :: bytes
  rs_generator_version :: u32
  rs_ruleset_version :: u32
  rs_domain :: u32
  rs_subject :: u64
  rs_occurrence :: u64
  rs_sample :: u64
  rs_site :: u32

definition fd_rng_u32_retry :: "rng_scope \<Rightarrow> u32 \<Rightarrow> nat \<Rightarrow> u32" where
  "fd_rng_u32_retry s retry_block lane =
     (let digest = fd_rng_digest (rs_root_seed s) (rs_generator_version s) (rs_ruleset_version s)
                     (rs_domain s) (rs_subject s) (rs_occurrence s);
          key0 = fd_load_u32_le digest XOR fd_load_u32_le (drop 24 digest);
          key1 = fd_load_u32_le (drop 4 digest) XOR fd_load_u32_le (drop 28 digest);
          counter0 = fd_load_u32_le (drop 8 digest) XOR ucast (rs_sample s);
          counter1 = fd_load_u32_le (drop 12 digest) XOR ucast (drop_bit 32 (rs_sample s));
          counter2 = fd_load_u32_le (drop 16 digest) XOR rs_site s;
          counter3 = fd_load_u32_le (drop 20 digest) XOR retry_block
      in case philox_rounds 10 (key0, key1) (counter0, counter1, counter2, counter3) of
           (o0, o1, o2, o3) \<Rightarrow> [o0, o1, o2, o3] ! lane)"

definition fd_rng_u32 :: "rng_scope \<Rightarrow> u32" where
  "fd_rng_u32 s = fd_rng_u32_retry s 0 (unat (rs_sample s AND 3))"

text \<open>The two nested loops of the bounded sampler, over (block, lane) in their order.\<close>

definition rng_positions :: "(nat \<times> nat) list" where
  "rng_positions = concat (map (\<lambda>block. map (Pair block) [0..<4]) [0..<256])"

fun rng_scan :: "(nat \<Rightarrow> nat \<Rightarrow> u32) \<Rightarrow> u32 \<Rightarrow> (nat \<times> nat) list \<Rightarrow> u32 option" where
  "rng_scan draw threshold [] = None"
| "rng_scan draw threshold ((block, lane) # ps) =
     (let value = draw block lane in
      if value \<ge> threshold then Some value else rng_scan draw threshold ps)"

definition rng_threshold :: "u32 \<Rightarrow> u32" where
  "rng_threshold upper_bound = ucast ((push_bit 32 1 :: u64) mod ucast upper_bound)"

text \<open>On failure \<open>*out\<close> keeps the value it had.\<close>

definition fd_rng_bounded :: "rng_scope \<Rightarrow> u32 \<Rightarrow> u32 option \<Rightarrow> fd_result \<times> u32 option" where
  "fd_rng_bounded s upper_bound out =
     (if out = None \<or> upper_bound = 0 then (FD_ERR_INVALID_ARGUMENT, out)
      else
        case rng_scan (\<lambda>block lane. fd_rng_u32_retry s (of_nat block) lane)
               (rng_threshold upper_bound) rng_positions of
          Some value \<Rightarrow> (FD_OK, Some (value mod upper_bound))
        | None \<Rightarrow> (FD_ERR_CAPACITY, out))"

section \<open>The scope digest\<close>

lemma fd_rng_digest_eq:
  "fd_rng_digest seed gv rv domain sub occ =
     sha256 (fd_store_u32_le 26 @ rng_literal @ fd_store_u32_le 16 @ take 16 seed @
             fd_store_u32_le 4 @ fd_store_u32_le gv @ fd_store_u32_le 4 @ fd_store_u32_le rv @
             fd_store_u32_le 4 @ fd_store_u32_le domain @ fd_store_u32_le 8 @ fd_store_u64_le sub @
             fd_store_u32_le 8 @ fd_store_u64_le occ)"
  by (simp only: fd_rng_digest_def sha256_via_updates concat.simps append_assoc append_Nil2)

section \<open>Philox is a permutation\<close>

lemma ucast_fd_mul32: "ucast (fd_mul32 a b) = a * b"
proof -
  have "uint a < 2 ^ 32" "uint b < 2 ^ 32"
    using unsigned_less [of a] unsigned_less [of b] by simp_all
  then have "uint (ucast (fd_mul32 a b) :: u32) = uint (a * b)"
    by (simp add: fd_mul32_def uint_word_ariths unsigned_ucast_eq take_bit_eq_mod mod_mod_cancel)
  then show ?thesis by (simp add: word_uint_eq_iff)
qed

lemma unit_mult_cancel:
  fixes c d x y :: "'a::len word"
  assumes "d * c = 1" and "c * x = c * y" shows "x = y"
proof -
  have "d * c * x = d * c * y" using assms(2) by (simp add: mult.assoc)
  then show ?thesis by (simp add: assms(1))
qed

lemma odd_mult_cancel0: "(0xd2511f53 :: u32) * x = 0xd2511f53 * y \<Longrightarrow> x = y"
  by (rule unit_mult_cancel [of "0x991a7cdb"]) (simp_all add: word_unat_eq_iff)

lemma odd_mult_cancel1: "(0xcd9e8d57 :: u32) * x = 0xcd9e8d57 * y \<Longrightarrow> x = y"
  by (rule unit_mult_cancel [of "0x6d7cae67"]) (simp_all add: word_unat_eq_iff)

lemma xor_cancel_left: "(a :: 'a::len word) XOR x = a XOR y \<longleftrightarrow> x = y"
  by (metis xor.left_commute xor_self_eq xor.right_neutral)

lemma philox_round_inj: "philox_round k v = philox_round k v' \<Longrightarrow> v = v'"
proof (cases k; cases v; cases v')
  fix k0 k1 v0 v1 v2 v3 w0 w1 w2 w3
  assume eq: "philox_round k v = philox_round k v'"
    and k: "k = (k0, k1)" and v: "v = (v0, v1, v2, v3)" and v': "v' = (w0, w1, w2, w3)"
  from eq k v v' have "0xcd9e8d57 * v2 = 0xcd9e8d57 * w2" "0xd2511f53 * v0 = 0xd2511f53 * w0"
    by (simp_all add: Let_def ucast_fd_mul32)
  then have e: "v2 = w2" "v0 = w0" by (blast dest: odd_mult_cancel0 odd_mult_cancel1)+
  from eq k v v' e have "v1 XOR k0 = w1 XOR k0" "v3 XOR k1 = w3 XOR k1"
    by (simp_all add: Let_def xor_cancel_left)
  then have "v1 = w1" "v3 = w3" by (simp_all add: xor_cancel_left xor.commute [of _ k0] xor.commute [of _ k1])
  with e v v' show "v = v'" by simp
qed

lemma philox_rounds_inj: "philox_rounds n k v = philox_rounds n k v' \<Longrightarrow> v = v'"
proof (induction n arbitrary: k v v')
  case (Suc n)
  obtain k0 k1 where k: "k = (k0, k1)" by (cases k)
  from Suc.prems have "philox_round (k0, k1) v = philox_round (k0, k1) v'"
    unfolding k philox_rounds.simps by (rule Suc.IH)
  then show ?case by (rule philox_round_inj)
qed simp

lemma philox_bij: "bij (philox_rounds n k)"
proof -
  have "inj (philox_rounds n k)" by (rule injI) (rule philox_rounds_inj)
  moreover have "finite (UNIV :: philox_ctr set)" by simp
  ultimately show ?thesis by (simp add: bij_def finite_UNIV_inj_surj)
qed

section \<open>Bounded sampling\<close>

lemma rng_scan_Some: "rng_scan draw t ps = Some v \<Longrightarrow> t \<le> v"
  by (induction ps) (auto simp: Let_def split: if_splits)

lemma rng_scan_first:
  "rng_scan draw t ps = Some v \<Longrightarrow>
     \<exists>i<length ps. v = case_prod draw (ps ! i) \<and> t \<le> v \<and> (\<forall>j<i. case_prod draw (ps ! j) < t)"
proof (induction ps)
  case (Cons p ps)
  obtain b l where p: "p = (b, l)" by (cases p)
  show ?case
  proof (cases "draw b l \<ge> t")
    case True
    then show ?thesis using Cons.prems p by (intro exI [of _ 0]) auto
  next
    case False
    then obtain i where "i < length ps" "v = case_prod draw (ps ! i)" "t \<le> v"
      "\<forall>j<i. case_prod draw (ps ! j) < t"
      using Cons p by auto
    then show ?thesis using False p
      by (intro exI [of _ "Suc i"]) (auto simp: nth_Cons split: nat.splits)
  qed
qed simp

lemma rng_scan_None: "rng_scan draw t ps = None \<longleftrightarrow> (\<forall>(b, l) \<in> set ps. draw b l < t)"
  by (induction ps) (auto simp: Let_def not_le split: if_splits)

lemma rng_scan_zero: "ps \<noteq> [] \<Longrightarrow> rng_scan draw 0 ps = Some (case_prod draw (hd ps))"
  by (cases ps) (auto simp: Let_def)

lemma unat_rng_threshold:
  assumes "n \<noteq> 0" shows "unat (rng_threshold n) = 2 ^ 32 mod unat n"
proof -
  have "unat ((push_bit 32 1 :: u64) mod ucast n) = 2 ^ 32 mod unat n"
    by (simp add: unat_mod_distrib push_bit_eq_mult)
  moreover have "2 ^ 32 mod unat n < 2 ^ 32"
  proof -
    have "0 < unat n" using assms by (simp add: unat_gt_0)
    then have "2 ^ 32 mod unat n < unat n" by (rule mod_less_divisor)
    also have "\<dots> < 2 ^ 32" using unat_lt_u32 [of n] by simp
    finally show ?thesis .
  qed
  ultimately show ?thesis
    by (simp add: rng_threshold_def unsigned_ucast_eq take_bit_eq_mod)
qed

lemma fd_rng_bounded_cases:
  assumes "upper \<noteq> 0"
  shows "fd_rng_bounded s upper (Some x) = (FD_ERR_CAPACITY, Some x) \<or>
    (\<exists>v. fd_rng_bounded s upper (Some x) = (FD_OK, Some v) \<and> v < upper)"
  using assms
  by (auto simp: fd_rng_bounded_def word_gt_0 word_mod_less_divisor split: option.splits)

text \<open>A bound that divides \<open>2 ^ 32\<close> never rejects: block 0, lane 0 decides.\<close>

lemma fd_rng_bounded_pow2:
  assumes "upper \<noteq> 0" and "unat upper dvd 2 ^ 32"
  shows "fd_rng_bounded s upper (Some x) = (FD_OK, Some (fd_rng_u32_retry s 0 0 mod upper))"
proof -
  have t: "rng_threshold upper = 0"
    using unat_rng_threshold [OF assms(1)] assms(2) by (simp add: unat_eq_0 mod_eq_0_iff_dvd)
  have "hd rng_positions = (0, 0)" "rng_positions \<noteq> []"
    by (simp_all add: rng_positions_def upt_rec [of 0 256] upt_rec [of 0 4])
  then have "rng_scan (\<lambda>block lane. fd_rng_u32_retry s (of_nat block) lane) 0 rng_positions
      = Some (fd_rng_u32_retry s 0 0)"
    by (simp add: rng_scan_zero)
  then show ?thesis
    using assms(1) t by (simp add: fd_rng_bounded_def)
qed

text \<open>Every window of \<open>n\<close> consecutive numbers holds each residue once.\<close>

lemma mod_eq_in_window:
  fixes a n i j :: nat
  assumes "i \<in> {a..<a + n}" "j \<in> {a..<a + n}" "i mod n = j mod n" "i \<le> j"
  shows "i = j"
proof -
  have "n dvd j - i" using assms(3,4) by (metis mod_eq_dvd_iff_nat)
  moreover have "j - i < n" using assms(1,2) by auto
  ultimately have "j - i = 0" by (auto dest: nat_dvd_not_less)
  with assms(4) show ?thesis by simp
qed

lemma card_residue_window:
  fixes a n r :: nat
  assumes "r < n" shows "card {k \<in> {a..<a + n}. k mod n = r} = 1"
proof -
  define k0 where "k0 = a + (r + n - a mod n) mod n"
  have "a + (r + n - a mod n) = r + n + (a div n) * n"
    using assms mod_less_divisor [of n a] div_mult_mod_eq [of a n] by linarith
  then have "(a + (r + n - a mod n)) mod n = r" using assms by simp
  then have k: "k0 mod n = r" by (simp add: k0_def mod_add_right_eq)
  have win: "k0 \<in> {a..<a + n}" using assms by (simp add: k0_def)
  have "k' = k0" if "k' \<in> {a..<a + n}" "k' mod n = r" for k'
  proof (cases "k' \<le> k0")
    case True
    show ?thesis by (rule mod_eq_in_window [OF that(1) win _ True]) (simp only: that(2) k)
  next
    case False
    then have "k0 \<le> k'" by simp
    then have "k0 = k'" by (intro mod_eq_in_window [OF win that(1)]) (simp only: that(2) k)
    then show ?thesis ..
  qed
  then have "{k \<in> {a..<a + n}. k mod n = r} = {k0}" using k win by blast
  then show ?thesis by (simp only:) simp
qed

lemma card_residue_windows:
  fixes a n r q :: nat
  assumes "r < n" shows "card {k \<in> {a..<a + q * n}. k mod n = r} = q"
proof (induction q)
  case (Suc q)
  have "{k \<in> {a..<a + Suc q * n}. k mod n = r} =
      {k \<in> {a..<a + q * n}. k mod n = r} \<union> {k \<in> {a + q * n..<a + q * n + n}. k mod n = r}"
    by auto
  moreover have "card ({k \<in> {a..<a + q * n}. k mod n = r} \<union> {k \<in> {a + q * n..<a + q * n + n}. k mod n = r})
      = card {k \<in> {a..<a + q * n}. k mod n = r} + card {k \<in> {a + q * n..<a + q * n + n}. k mod n = r}"
    by (rule card_Un_disjoint) auto
  ultimately show ?case by (simp only: Suc.IH card_residue_window [OF assms])
qed simp

text \<open>
  Rejection leaves a balanced set: each residue below the bound is hit by exactly
  \<open>2 ^ 32 div n\<close> of the accepted 32-bit words.
\<close>

lemma rng_accept_balanced:
  fixes n r :: u32
  assumes "r < n"
  shows "card {v :: u32. rng_threshold n \<le> v \<and> v mod n = r} = 2 ^ 32 div unat n"
proof -
  have n: "n \<noteq> 0" using assms by auto
  have r: "unat r < unat n" using assms by (simp add: word_less_nat_alt)
  let ?t = "2 ^ 32 mod unat n" and ?q = "2 ^ 32 div unat n :: nat"
  have "unat ` {v :: u32. rng_threshold n \<le> v \<and> v mod n = r}
      = {k \<in> {?t..<2 ^ 32}. k mod unat n = unat r}"
  proof (intro set_eqI iffI)
    fix k assume k: "k \<in> {k \<in> {?t..<2 ^ 32}. k mod unat n = unat r}"
    then have uk: "unat (of_nat k :: u32) = k" by (simp add: unat_of_nat_u32)
    then have "rng_threshold n \<le> of_nat k" "(of_nat k :: u32) mod n = r"
      using k unat_rng_threshold [OF n]
      by (simp_all add: word_le_nat_alt unat_mod_distrib word_unat_eq_iff)
    then show "k \<in> unat ` {v :: u32. rng_threshold n \<le> v \<and> v mod n = r}"
      using uk by (intro image_eqI [of _ _ "of_nat k"]) auto
  next
    fix k assume "k \<in> unat ` {v :: u32. rng_threshold n \<le> v \<and> v mod n = r}"
    then show "k \<in> {k \<in> {?t..<2 ^ 32}. k mod unat n = unat r}"
      using unat_rng_threshold [OF n] unat_lt_u32
      by (auto simp: word_le_nat_alt unat_mod_distrib)
  qed
  moreover have "card (unat ` {v :: u32. rng_threshold n \<le> v \<and> v mod n = r})
      = card {v :: u32. rng_threshold n \<le> v \<and> v mod n = r}"
    by (rule card_image, rule inj_onI) (simp add: word_unat_eq_iff)
  ultimately have "card {v :: u32. rng_threshold n \<le> v \<and> v mod n = r}
      = card {k \<in> {?t..<2 ^ 32}. k mod unat n = unat r}"
    by (simp only:)
  also have "{k \<in> {?t..<2 ^ 32}. k mod unat n = unat r}
      = {k \<in> {?t..<?t + ?q * unat n}. k mod unat n = unat r}"
    by (simp only: mod_mult_div_eq mult.commute [of ?q] mod_div_mult_eq mult_div_mod_eq)
  also have "card \<dots> = ?q" by (rule card_residue_windows [OF r])
  finally show ?thesis .
qed

section \<open>The generator properties\<close>

text \<open>C40: for every key Philox4x32-10 is a permutation of the 128-bit counter space, so distinct
  counters never give the same block.\<close>

theorem philox_permutes_counters:
  "bij (\<lambda>c. the (snd (fd_philox4x32_10 (Some c) (Some k) (Some out))))"
  using philox_bij [of 10 k] by (simp add: fd_philox4x32_10_def)

text \<open>The bounded sampler rejects a null output or a zero bound, and otherwise walks the 1024
  (block, lane) positions in order: it returns the first draw not below the rejection threshold,
  reduced below the bound, or reports exhaustion when every draw is below it.\<close>

theorem fd_rng_bounded_first_accepted:
  "fd_rng_bounded s upper out =
     (if out = None \<or> upper = 0 then (FD_ERR_INVALID_ARGUMENT, out)
      else case find (\<lambda>(block, lane). rng_threshold upper \<le> fd_rng_u32_retry s (of_nat block) lane)
                  rng_positions of
             None \<Rightarrow> (FD_ERR_CAPACITY, out)
           | Some (block, lane) \<Rightarrow> (FD_OK, Some (fd_rng_u32_retry s (of_nat block) lane mod upper)))"
proof -
  have "rng_scan draw t ps = map_option (\<lambda>(b, l). draw b l) (find (\<lambda>(b, l). t \<le> draw b l) ps)" for draw t ps
    by (induction ps) (auto simp: Let_def)
  then show ?thesis
    by (auto simp: fd_rng_bounded_def split: option.splits)
qed

text \<open>C39: rejection sampling is unbiased: every residue below the bound is the image of exactly
  \<open>2 ^ 32 div upper\<close> accepted 32-bit words.\<close>

theorem fd_rng_bounded_unbiased:
  assumes "r < upper"
  shows "card {v. rng_threshold upper \<le> v \<and> v mod upper = r} = 2 ^ 32 div unat upper"
  using assms by (rule rng_accept_balanced)

theorem fd_rng_bounded_unbiased_witness:
  "card {v. rng_threshold 6 \<le> v \<and> v mod 6 = (5 :: u32)} = 715827882"
  using fd_rng_bounded_unbiased [of 5 6] by simp

end
