(* ===== verification/FD_Types.thy ===== *)
theory FD_Types
  imports FD_Rng
begin

text \<open>
  The data model of the core: the structs of \<^verbatim>\<open>include/frontier_directorate/fd.h\<close> and
  \<^verbatim>\<open>src/core/fd_internal.h\<close> as records with the fields in their order, arrays as lists, the
  terrain, overlay and entity constants, and the stable identifiers.  A signed 32-bit field is a
  \<open>u32\<close> read with \<open>sint\<close>.
\<close>

unbundle bit_operations_syntax

section \<open>Configuration and content\<close>

record fd_world_config =
  wc_struct_size :: u32
  wc_abi_version :: u32
  wc_width :: u32
  wc_height :: u32
  wc_attempt_budget :: u32
  wc_generator_version :: u32
  wc_ruleset_version :: u32
  wc_forest_density_ppm :: u32
  wc_hill_density_ppm :: u32
  wc_wetland_density_ppm :: u32
  wc_reference_mode :: u32
  wc_reserved :: "u32 list"

record fd_content_pack =
  cp_stable_id :: u64
  cp_sha256 :: bytes

record fd_content_manifest =
  cm_struct_size :: u32
  cm_abi_version :: u32
  cm_pack_count :: u32
  cm_reserved :: u32
  cm_packs :: "fd_content_pack list option"

section \<open>Tiles, entities, the region and the world\<close>

abbreviation (input) FD_TERRAIN_WATER :: u32 where "FD_TERRAIN_WATER \<equiv> 1"
abbreviation (input) FD_TERRAIN_GRASSLAND :: u32 where "FD_TERRAIN_GRASSLAND \<equiv> 2"
abbreviation (input) FD_TERRAIN_FOREST :: u32 where "FD_TERRAIN_FOREST \<equiv> 3"
abbreviation (input) FD_TERRAIN_HILLS :: u32 where "FD_TERRAIN_HILLS \<equiv> 4"
abbreviation (input) FD_TERRAIN_WETLANDS :: u32 where "FD_TERRAIN_WETLANDS \<equiv> 5"
abbreviation (input) FD_TERRAIN_SETTLEMENT :: u32 where "FD_TERRAIN_SETTLEMENT \<equiv> 6"

abbreviation (input) FD_TILE_OVERLAY_RIVER :: u32 where "FD_TILE_OVERLAY_RIVER \<equiv> 1"
abbreviation (input) FD_TILE_OVERLAY_ROAD_CANDIDATE :: u32 where "FD_TILE_OVERLAY_ROAD_CANDIDATE \<equiv> 2"
abbreviation (input) FD_TILE_RIVER_OUTLET :: u32 where "FD_TILE_RIVER_OUTLET \<equiv> 4"
abbreviation (input) FD_TILE_ROAD_CROSSING :: u32 where "FD_TILE_ROAD_CROSSING \<equiv> 8"

abbreviation (input) FD_ENTITY_REGION :: u32 where "FD_ENTITY_REGION \<equiv> 1"
abbreviation (input) FD_ENTITY_SETTLEMENT_COASTAL :: u32 where "FD_ENTITY_SETTLEMENT_COASTAL \<equiv> 2"
abbreviation (input) FD_ENTITY_SETTLEMENT_INLAND :: u32 where "FD_ENTITY_SETTLEMENT_INLAND \<equiv> 3"
abbreviation (input) FD_ENTITY_POLITY_LOCAL :: u32 where "FD_ENTITY_POLITY_LOCAL \<equiv> 4"
abbreviation (input) FD_ENTITY_FACTION_FOREIGN :: u32 where "FD_ENTITY_FACTION_FOREIGN \<equiv> 5"

record fd_tile =
  tl_elevation_cm :: u32
  tl_rainfall_mm :: u32
  tl_settlement_id :: fd_entity_id
  tl_terrain :: u32
  tl_overlays :: u32

record fd_entity =
  en_id :: fd_entity_id
  en_kind :: u32
  en_x :: u32
  en_y :: u32
  en_region_id :: fd_entity_id
  en_owner_id :: fd_entity_id
  en_name_length :: u32
  en_name :: bytes

record fd_region =
  rg_id :: fd_entity_id
  rg_political_owner_id :: fd_entity_id
  rg_settlement_ids :: "fd_entity_id list"
  rg_foreign_faction_ids :: "fd_entity_id list"
  rg_river_outlet_tile_id :: u64
  rg_road_start_tile_id :: u64
  rg_road_end_tile_id :: u64
  rg_river_tile_count :: u32
  rg_road_tile_count :: u32

text \<open>\<open>w_context\<close> is the address of the owning context handle.\<close>

record fd_world =
  w_context :: nat
  w_config :: fd_world_config
  w_root_seed_le :: bytes
  w_content_count :: u32
  w_content :: "fd_content_pack list"
  w_configuration_sha256 :: bytes
  w_content_sha256 :: bytes
  w_tick :: u64
  w_tile_count :: u32
  w_tiles :: "fd_tile list"
  w_entities :: "fd_entity list"
  w_region :: fd_region
  w_river_tile_count :: u32
  w_road_tile_count :: u32
  w_land_tile_count :: u32
  w_river_raised_tile_count :: u32
  w_river_min_carve_cm :: u32
  w_allocation_size :: u32
  w_state_sha256 :: bytes

text \<open>
  Grid geometry in \<open>nat\<close>.  Every world that exists has a width of at most 256 and a height of at
  most 128 (\<open>fd_validate_generation_inputs_internal\<close> and \<open>fd_decode_world\<close> reject anything else),
  so the 32-bit index arithmetic of the sources cannot wrap.
\<close>

abbreviation (input) grid_width :: "fd_world \<Rightarrow> nat" where
  "grid_width w \<equiv> unat (wc_width (w_config w))"

abbreviation (input) grid_height :: "fd_world \<Rightarrow> nat" where
  "grid_height w \<equiv> unat (wc_height (w_config w))"

abbreviation (input) tile_at :: "fd_world \<Rightarrow> nat \<Rightarrow> fd_tile" where
  "tile_at w i \<equiv> w_tiles w ! i"

section \<open>Stable identifiers\<close>

definition fd_make_entity_id :: "u32 \<Rightarrow> fd_entity_id" where
  "fd_make_entity_id slot = push_bit 32 1 OR ucast slot"

definition fd_tile_id_from_index :: "u32 \<Rightarrow> u64" where
  "fd_tile_id_from_index index = ucast index + 1"

definition fd_entity_index_from_id :: "fd_entity_id \<Rightarrow> u32 option" where
  "fd_entity_index_from_id i =
     (let generation = (ucast (drop_bit 32 i) :: u32); slot = (ucast i :: u32)
      in if generation \<noteq> 1 \<or> slot = 0 \<or> slot > 6 then None else Some (slot - 1))"

lemma bit_make_entity_id: "bit (fd_make_entity_id s) n \<longleftrightarrow> n = 32 \<or> bit s n"
  unfolding fd_make_entity_id_def bit_or_iff bit_push_bit_iff bit_1_iff bit_ucast_iff
  using bit_imp_le_length [of s n] by auto

lemma make_entity_id_parts:
  "(ucast (drop_bit 32 (fd_make_entity_id s)) :: u32) = 1" "(ucast (fd_make_entity_id s) :: u32) = s"
proof -
  show "(ucast (drop_bit 32 (fd_make_entity_id s)) :: u32) = 1"
    by (rule bit_word_eqI)
      (auto simp: bit_make_entity_id bit_ucast_iff bit_drop_bit_eq bit_1_iff dest: bit_imp_le_length)
  show "(ucast (fd_make_entity_id s) :: u32) = s"
    by (rule bit_word_eqI) (auto simp: bit_make_entity_id bit_ucast_iff)
qed

lemma make_entity_id_inj: "fd_make_entity_id a = fd_make_entity_id b \<longleftrightarrow> a = b"
  by (metis make_entity_id_parts(2))

lemma entity_index_of_make:
  "fd_entity_index_from_id (fd_make_entity_id s) = (if 1 \<le> s \<and> s \<le> 6 then Some (s - 1) else None)"
  by (auto simp: fd_entity_index_from_id_def make_entity_id_parts word_le_nat_alt word_less_nat_alt
      unat_eq_0 [symmetric] Let_def)

lemma make_of_entity_index:
  assumes "fd_entity_index_from_id i = Some k"
  shows "i = fd_make_entity_id (k + 1)" and "k < 6"
proof -
  from assms have g: "(ucast (drop_bit 32 i) :: u32) = 1" and s: "(ucast i :: u32) \<noteq> 0"
    "(ucast i :: u32) \<le> 6" and k: "k = ucast i - 1"
    by (auto simp: fd_entity_index_from_id_def Let_def split: if_splits)
  show "i = fd_make_entity_id (k + 1)"
  proof (rule bit_word_eqI)
    fix n assume n: "n < LENGTH(64)"
    have "bit i n = bit (ucast (drop_bit 32 i) :: u32) (n - 32)" if "32 \<le> n"
    proof -
      have "n - 32 < 32" using n by simp
      then show ?thesis using that n by (simp add: bit_ucast_iff bit_drop_bit_eq)
    qed
    moreover have "bit i n = bit (ucast i :: u32) n" if "n < 32"
      using that n by (simp add: bit_ucast_iff)
    ultimately show "bit i n = bit (fd_make_entity_id (k + 1)) n"
      using n g k by (cases "n < 32")
        (auto simp: bit_make_entity_id bit_1_iff dest: bit_imp_le_length)
  qed
  have "unat k = unat (ucast i :: u32) - 1" "unat (ucast i :: u32) \<noteq> 0"
    using s(1) k by (simp_all add: unat_minus_one unat_eq_0)
  moreover have "unat (ucast i :: u32) \<le> 6"
    using s(2) unfolding word_le_nat_alt by simp
  ultimately have "unat k < 6" by linarith
  then show "k < 6" unfolding word_less_nat_alt by simp
qed

section \<open>Small concrete worlds\<close>

text \<open>A world with a given grid and entities, every other field neutral, for concrete evaluations.\<close>

definition blank_entity :: fd_entity where
  "blank_entity = \<lparr>en_id = 0, en_kind = 0, en_x = 0, en_y = 0, en_region_id = 0, en_owner_id = 0,
     en_name_length = 0, en_name = replicate 48 0\<rparr>"

definition grid_tile :: "u32 \<Rightarrow> u32 \<Rightarrow> u32 \<Rightarrow> fd_tile" where
  "grid_tile terrain overlays elevation_cm =
     \<lparr>tl_elevation_cm = elevation_cm, tl_rainfall_mm = 0, tl_settlement_id = 0,
      tl_terrain = terrain, tl_overlays = overlays\<rparr>"

definition grid_world :: "u32 \<Rightarrow> u32 \<Rightarrow> fd_tile list \<Rightarrow> fd_entity list \<Rightarrow> fd_world" where
  "grid_world width height tiles entities =
     \<lparr>w_context = 1,
      w_config = \<lparr>wc_struct_size = 76, wc_abi_version = 1, wc_width = width, wc_height = height,
        wc_attempt_budget = 64, wc_generator_version = 1, wc_ruleset_version = 1,
        wc_forest_density_ppm = 0, wc_hill_density_ppm = 0, wc_wetland_density_ppm = 0,
        wc_reference_mode = 1, wc_reserved = replicate 8 0\<rparr>,
      w_root_seed_le = replicate 16 0, w_content_count = 0, w_content = [],
      w_configuration_sha256 = replicate 32 0, w_content_sha256 = replicate 32 0, w_tick = 0,
      w_tile_count = width * height, w_tiles = tiles, w_entities = entities,
      w_region = \<lparr>rg_id = 0, rg_political_owner_id = 0, rg_settlement_ids = [0, 0],
        rg_foreign_faction_ids = [0, 0], rg_river_outlet_tile_id = 0, rg_road_start_tile_id = 0,
        rg_road_end_tile_id = 0, rg_river_tile_count = 0, rg_road_tile_count = 0\<rparr>,
      w_river_tile_count = 0, w_road_tile_count = 0, w_land_tile_count = 0,
      w_river_raised_tile_count = 0, w_river_min_carve_cm = 0, w_allocation_size = 0,
      w_state_sha256 = replicate 32 0\<rparr>"

section \<open>Identifiers are stable handles\<close>

text \<open>The entity identifier of a slot decodes to the slot's index exactly for the six slots of a
  world, identifiers of different slots differ, and an accepted identifier is the one its slot makes.\<close>

theorem entity_id_roundtrip:
  "fd_entity_index_from_id i = Some k \<longleftrightarrow> k < 6 \<and> i = fd_make_entity_id (k + 1)"
proof
  assume "fd_entity_index_from_id i = Some k"
  then show "k < 6 \<and> i = fd_make_entity_id (k + 1)" using make_of_entity_index by blast
next
  assume k: "k < 6 \<and> i = fd_make_entity_id (k + 1)"
  then have "unat k < 6" by (simp add: word_less_nat_alt)
  then have "unat (k + 1) = unat k + 1" by (simp add: unat_word_ariths)
  then have "1 \<le> k + 1 \<and> k + 1 \<le> 6"
    using \<open>unat k < 6\<close> by (simp add: word_le_nat_alt)
  then show "fd_entity_index_from_id i = Some k" using k by (simp add: entity_index_of_make)
qed

end
