(* ===== verification/FD_Validate.thy ===== *)
theory FD_Validate
  imports FD_Types
begin

text \<open>
  The world validator of \<^verbatim>\<open>src/core/fd_validate.c\<close>, check by check.  A check with an early
  \<open>return false\<close> is an option-valued scan (\<open>None\<close> is the early return); the two path walks are
  recursions on the number of tiles still allowed.  What the checks mean is proved in
  \<^verbatim>\<open>FD_Coast\<close>, \<^verbatim>\<open>FD_River\<close> and \<^verbatim>\<open>FD_Road\<close>.
\<close>

unbundle bit_operations_syntax

record fd_validation_report =
  vr_struct_size :: u32
  vr_abi_version :: u32
  vr_passed_invariants :: u64
  vr_failed_invariants :: u64
  vr_land_tile_count :: u32
  vr_water_tile_count :: u32
  vr_river_tile_count :: u32
  vr_road_tile_count :: u32
  vr_road_river_crossings :: u32
  vr_first_failed_tile_index :: u32

abbreviation (input) FD_INVARIANT_BOUNDS :: u64 where "FD_INVARIANT_BOUNDS \<equiv> 0x001"
abbreviation (input) FD_INVARIANT_LAND_COAST :: u64 where "FD_INVARIANT_LAND_COAST \<equiv> 0x002"
abbreviation (input) FD_INVARIANT_TERRAIN_COVERAGE :: u64 where "FD_INVARIANT_TERRAIN_COVERAGE \<equiv> 0x004"
abbreviation (input) FD_INVARIANT_HYDROLOGY :: u64 where "FD_INVARIANT_HYDROLOGY \<equiv> 0x008"
abbreviation (input) FD_INVARIANT_SETTLEMENTS :: u64 where "FD_INVARIANT_SETTLEMENTS \<equiv> 0x010"
abbreviation (input) FD_INVARIANT_ROAD_CORRIDOR :: u64 where "FD_INVARIANT_ROAD_CORRIDOR \<equiv> 0x020"
abbreviation (input) FD_INVARIANT_OWNERSHIP :: u64 where "FD_INVARIANT_OWNERSHIP \<equiv> 0x040"
abbreviation (input) FD_INVARIANT_GRAPH_TILE_AGREEMENT :: u64 where "FD_INVARIANT_GRAPH_TILE_AGREEMENT \<equiv> 0x080"
abbreviation (input) FD_INVARIANT_OBJECTIVE_REACHABLE :: u64 where "FD_INVARIANT_OBJECTIVE_REACHABLE \<equiv> 0x100"
abbreviation (input) FD_INVARIANT_ALL :: u64 where "FD_INVARIANT_ALL \<equiv> 0x1ff"

section \<open>Grid helpers\<close>

definition fd_abs_diff_u32 :: "nat \<Rightarrow> nat \<Rightarrow> nat" where
  "fd_abs_diff_u32 l r = (if l \<ge> r then l - r else r - l)"

definition fd_manhattan :: "nat \<Rightarrow> nat \<Rightarrow> nat \<Rightarrow> nat \<Rightarrow> nat" where
  "fd_manhattan ax ay bx by = fd_abs_diff_u32 ax bx + fd_abs_diff_u32 ay by"

definition has_overlay :: "fd_world \<Rightarrow> u32 \<Rightarrow> nat \<Rightarrow> bool" where
  "has_overlay w overlay index \<longleftrightarrow> tl_overlays (tile_at w index) AND overlay \<noteq> 0"

definition terrain_at :: "fd_world \<Rightarrow> nat \<Rightarrow> u32" where
  "terrain_at w index = tl_terrain (tile_at w index)"

text \<open>One of the four guarded blocks: count the candidate and remember it in \<open>*next\<close>.\<close>

definition neighbor_block ::
    "fd_world \<Rightarrow> u32 \<Rightarrow> nat \<Rightarrow> bool \<Rightarrow> nat \<Rightarrow> nat \<times> nat \<Rightarrow> nat \<times> nat" where
  "neighbor_block w overlay previous guard candidate = (\<lambda>(count, nxt).
     if guard \<and> candidate \<noteq> previous \<and> has_overlay w overlay candidate
     then (count + 1, candidate) else (count, nxt))"

definition fd_neighbor_count_with_overlay ::
    "fd_world \<Rightarrow> nat \<Rightarrow> u32 \<Rightarrow> nat \<Rightarrow> nat \<Rightarrow> nat \<times> nat" where
  "fd_neighbor_count_with_overlay w index overlay previous nxt =
     (let width = grid_width w; height = grid_height w;
          x = index mod width; y = index div width;
          s1 = neighbor_block w overlay previous (x > 0) (index - 1) (0, nxt);
          s2 = neighbor_block w overlay previous (x + 1 < width) (index + 1) s1;
          s3 = neighbor_block w overlay previous (y > 0) (index - width) s2
      in neighbor_block w overlay previous (y + 1 < height) (index + width) s3)"

definition fd_adjacent_terrain :: "fd_world \<Rightarrow> nat \<Rightarrow> u32 \<Rightarrow> bool" where
  "fd_adjacent_terrain w index terrain =
     (let width = grid_width w; height = grid_height w;
          x = index mod width; y = index div width
      in if x > 0 \<and> terrain_at w (index - 1) = terrain then True
         else if x + 1 < width \<and> terrain_at w (index + 1) = terrain then True
         else if y > 0 \<and> terrain_at w (index - width) = terrain then True
         else y + 1 < height \<and> terrain_at w (index + width) = terrain)"

section \<open>Coast and land\<close>

record coast_row =
  cr_start :: nat
  cr_end :: nat
  cr_saw_land :: bool
  cr_gap_after_land :: bool

definition coast_cell :: "bool \<Rightarrow> nat \<Rightarrow> coast_row \<Rightarrow> coast_row option" where
  "coast_cell land x r =
     (if land then
        if cr_gap_after_land r then None
        else let r1 = (if \<not> cr_saw_land r then r\<lparr>cr_start := x, cr_saw_land := True\<rparr> else r)
             in Some (r1\<lparr>cr_end := x\<rparr>)
      else if cr_saw_land r then Some (r\<lparr>cr_gap_after_land := True\<rparr>)
      else Some r)"

fun coast_cells :: "(nat \<Rightarrow> bool) \<Rightarrow> nat list \<Rightarrow> coast_row \<Rightarrow> coast_row option" where
  "coast_cells land [] r = Some r"
| "coast_cells land (x # xs) r =
     (case coast_cell (land x) x r of None \<Rightarrow> None | Some r' \<Rightarrow> coast_cells land xs r')"

fun coast_rows :: "fd_world \<Rightarrow> nat list \<Rightarrow> nat \<Rightarrow> nat \<Rightarrow> bool" where
  "coast_rows w [] previous_start previous_end = True"
| "coast_rows w (y # ys) previous_start previous_end =
     (let width = grid_width w in
      case coast_cells (\<lambda>x. terrain_at w (y * width + x) \<noteq> FD_TERRAIN_WATER) [0..<width]
             \<lparr>cr_start = width, cr_end = 0, cr_saw_land = False, cr_gap_after_land = False\<rparr> of
        None \<Rightarrow> False
      | Some r \<Rightarrow>
          if \<not> cr_saw_land r then False
          else if y > 0 \<and> (cr_end r < previous_start \<or> cr_start r > previous_end) then False
          else coast_rows w ys (cr_start r) (cr_end r))"

definition fd_validate_coast_land :: "fd_world \<Rightarrow> nat \<Rightarrow> bool" where
  "fd_validate_coast_land w land_count =
     (let scaled = land_count * 100; total = unat (w_tile_count w) in
      if scaled < total * 55 \<or> scaled > total * 80 then False
      else coast_rows w [0..<grid_height w] 0 0)"

section \<open>River\<close>

record river_acc =
  ra_count :: nat
  ra_endpoints :: nat
  ra_outlet_count :: nat
  ra_outlet :: nat

definition river_tile :: "fd_world \<Rightarrow> nat \<Rightarrow> river_acc \<Rightarrow> river_acc option" where
  "river_tile w index a =
     (if has_overlay w FD_TILE_OVERLAY_RIVER index then
        let degree = fst (fd_neighbor_count_with_overlay w index FD_TILE_OVERLAY_RIVER
                            UINT32_MAX UINT32_MAX);
            a1 = a\<lparr>ra_count := ra_count a + 1\<rparr>;
            a2 = (if degree = 1 then a1\<lparr>ra_endpoints := ra_endpoints a1 + 1\<rparr> else a1)
        in if degree \<noteq> 1 \<and> degree \<noteq> 2 then None
           else if terrain_at w index = FD_TERRAIN_WATER \<or>
                   terrain_at w index = FD_TERRAIN_SETTLEMENT then None
           else if has_overlay w FD_TILE_RIVER_OUTLET index then
             if \<not> fd_adjacent_terrain w index FD_TERRAIN_WATER \<or> degree \<noteq> 1 then None
             else Some (a2\<lparr>ra_outlet_count := ra_outlet_count a2 + 1, ra_outlet := index\<rparr>)
           else Some a2
      else if has_overlay w FD_TILE_RIVER_OUTLET index then None
      else Some a)"

fun scan_tiles :: "(nat \<Rightarrow> 'a \<Rightarrow> 'a option) \<Rightarrow> nat list \<Rightarrow> 'a \<Rightarrow> 'a option" where
  "scan_tiles f [] a = Some a"
| "scan_tiles f (i # is) a = (case f i a of None \<Rightarrow> None | Some a' \<Rightarrow> scan_tiles f is a')"

text \<open>
  The walk from the outlet: \<open>None\<close> is \<open>return false\<close>, \<open>Some (visited, current)\<close> the values at
  \<open>break\<close>.  \<open>visited\<close> may not exceed \<open>count\<close>, so the walk stops.
\<close>

function river_walk :: "fd_world \<Rightarrow> nat \<Rightarrow> nat \<Rightarrow> nat \<Rightarrow> nat \<Rightarrow> (nat \<times> nat) option" where
  "river_walk w count visited previous current =
     (let (remaining, nxt) =
            fd_neighbor_count_with_overlay w current FD_TILE_OVERLAY_RIVER previous UINT32_MAX
      in if remaining = 0 then Some (visited, current)
         else if remaining \<noteq> 1 \<or>
                 sint (tl_elevation_cm (tile_at w nxt)) \<le> sint (tl_elevation_cm (tile_at w current))
         then None
         else if visited + 1 > count then None
         else river_walk w count (visited + 1) current nxt)"
  by pat_completeness auto
termination
  by (relation "measure (\<lambda>(w, count, visited, previous, current). count + 1 - visited)") auto

declare river_walk.simps [simp del]

definition minimum_water_distance :: "fd_world \<Rightarrow> nat \<Rightarrow> nat \<Rightarrow> nat" where
  "minimum_water_distance w sx sy =
     fold (\<lambda>i m. if terrain_at w i = FD_TERRAIN_WATER then
                   let distance = fd_manhattan sx sy (i mod grid_width w) (i div grid_width w)
                   in if distance < m then distance else m
                 else m) [0..<unat (w_tile_count w)] UINT32_MAX"

definition fd_validate_river :: "fd_world \<Rightarrow> (nat \<times> nat) option" where
  "fd_validate_river w =
     (case scan_tiles (river_tile w) [0..<unat (w_tile_count w)]
             \<lparr>ra_count = 0, ra_endpoints = 0, ra_outlet_count = 0, ra_outlet = UINT32_MAX\<rparr> of
        None \<Rightarrow> None
      | Some a \<Rightarrow>
          if ra_count a < 9 \<or> ra_endpoints a \<noteq> 2 \<or> ra_outlet_count a \<noteq> 1 then None
          else
            case river_walk w (ra_count a) 1 UINT32_MAX (ra_outlet a) of
              None \<Rightarrow> None
            | Some (visited, current) \<Rightarrow>
                if visited \<noteq> ra_count a then None
                else if terrain_at w current \<noteq> FD_TERRAIN_HILLS then None
                else if minimum_water_distance w (current mod grid_width w) (current div grid_width w) < 8
                then None
                else Some (ra_count a, ra_outlet a))"

section \<open>Settlements\<close>

definition settlement_tile :: "fd_world \<Rightarrow> nat \<Rightarrow> nat \<times> nat \<Rightarrow> (nat \<times> nat) option" where
  "settlement_tile w index = (\<lambda>(settlement_tiles, inland_sea_distance).
     let inland = w_entities w ! 2;
         ok = (terrain_at w index = FD_TERRAIN_SETTLEMENT \<or>
               tl_settlement_id (tile_at w index) = 0);
         settlement_tiles' = (if terrain_at w index = FD_TERRAIN_SETTLEMENT
                              then settlement_tiles + 1 else settlement_tiles);
         distance = fd_manhattan (unat (en_x inland)) (unat (en_y inland))
                      (index mod grid_width w) (index div grid_width w);
         sea' = (if terrain_at w index = FD_TERRAIN_WATER \<and> distance < inland_sea_distance
                 then distance else inland_sea_distance)
     in if \<not> ok then None else Some (settlement_tiles', sea'))"

definition fd_validate_settlements :: "fd_world \<Rightarrow> nat \<Rightarrow> bool" where
  "fd_validate_settlements w outlet =
     (let coastal = w_entities w ! 1; inland = w_entities w ! 2;
          width = grid_width w
      in if en_kind coastal \<noteq> FD_ENTITY_SETTLEMENT_COASTAL \<or>
            en_kind inland \<noteq> FD_ENTITY_SETTLEMENT_INLAND \<or>
            en_x coastal \<ge> wc_width (w_config w) \<or> en_y coastal \<ge> wc_height (w_config w) \<or>
            en_x inland \<ge> wc_width (w_config w) \<or> en_y inland \<ge> wc_height (w_config w)
         then False
         else
           let coastal_index = unat (en_y coastal) * width + unat (en_x coastal);
               inland_index = unat (en_y inland) * width + unat (en_x inland)
           in if terrain_at w coastal_index \<noteq> FD_TERRAIN_SETTLEMENT \<or>
                 tl_settlement_id (tile_at w coastal_index) \<noteq> en_id coastal \<or>
                 terrain_at w inland_index \<noteq> FD_TERRAIN_SETTLEMENT \<or>
                 tl_settlement_id (tile_at w inland_index) \<noteq> en_id inland \<or>
                 \<not> fd_adjacent_terrain w coastal_index FD_TERRAIN_WATER \<or>
                 fd_manhattan (unat (en_x coastal)) (unat (en_y coastal))
                   (outlet mod width) (outlet div width) \<noteq> 1 \<or>
                 fd_manhattan (unat (en_x coastal)) (unat (en_y coastal))
                   (unat (en_x inland)) (unat (en_y inland)) < 12
              then False
              else case scan_tiles (settlement_tile w) [0..<unat (w_tile_count w)] (0, UINT32_MAX) of
                     None \<Rightarrow> False
                   | Some (settlement_tiles, inland_sea_distance) \<Rightarrow>
                       settlement_tiles = 2 \<and> inland_sea_distance \<ge> 4)"

section \<open>Road\<close>

record road_acc =
  rd_count :: nat
  rd_endpoints :: nat
  rd_start :: nat
  rd_explicit_crossings :: nat
  rd_river_intersections :: nat

definition road_tile :: "fd_world \<Rightarrow> nat \<Rightarrow> road_acc \<Rightarrow> road_acc option" where
  "road_tile w index a =
     (if has_overlay w FD_TILE_OVERLAY_ROAD_CANDIDATE index then
        let degree = fst (fd_neighbor_count_with_overlay w index FD_TILE_OVERLAY_ROAD_CANDIDATE
                            UINT32_MAX UINT32_MAX);
            a1 = a\<lparr>rd_count := rd_count a + 1\<rparr>;
            a2 = (if degree = 1 then
                    (let a' = a1\<lparr>rd_endpoints := rd_endpoints a1 + 1\<rparr>
                     in if rd_start a' = UINT32_MAX then a'\<lparr>rd_start := index\<rparr> else a')
                  else a1);
            a3 = (if has_overlay w FD_TILE_ROAD_CROSSING index
                  then a2\<lparr>rd_explicit_crossings := rd_explicit_crossings a2 + 1\<rparr> else a2);
            a4 = (if has_overlay w FD_TILE_OVERLAY_RIVER index
                  then a3\<lparr>rd_river_intersections := rd_river_intersections a3 + 1\<rparr> else a3)
        in if terrain_at w index = FD_TERRAIN_WATER then None
           else if degree \<noteq> 1 \<and> degree \<noteq> 2 then None
           else if has_overlay w FD_TILE_ROAD_CROSSING index \<and>
                   \<not> has_overlay w FD_TILE_OVERLAY_RIVER index then None
           else Some a4
      else if has_overlay w FD_TILE_ROAD_CROSSING index then None
      else Some a)"

text \<open>The walk along the road: \<open>(visited, current, crossing_entries)\<close> at \<open>break\<close>.\<close>

function road_walk :: "fd_world \<Rightarrow> nat \<Rightarrow> nat \<Rightarrow> nat \<Rightarrow> nat \<Rightarrow> bool \<Rightarrow> nat \<Rightarrow> (nat \<times> nat \<times> nat) option" where
  "road_walk w count visited previous current previous_river crossing_entries =
     (let (remaining, nxt) =
            fd_neighbor_count_with_overlay w current FD_TILE_OVERLAY_ROAD_CANDIDATE previous UINT32_MAX
      in if remaining = 0 then Some (visited, current, crossing_entries)
         else if remaining \<noteq> 1 then None
         else
           let next_river = has_overlay w FD_TILE_OVERLAY_RIVER nxt;
               crossing_entries' = (if next_river \<and> \<not> previous_river
                                    then crossing_entries + 1 else crossing_entries)
           in if visited + 1 > count then None
              else road_walk w count (visited + 1) current nxt next_river crossing_entries')"
  by pat_completeness auto
termination
  by (relation "measure (\<lambda>(w, count, visited, previous, current, pr, ce). count + 1 - visited)") auto

declare road_walk.simps [simp del]

definition fd_validate_road :: "fd_world \<Rightarrow> (nat \<times> nat) option" where
  "fd_validate_road w =
     (let coastal = w_entities w ! 1; inland = w_entities w ! 2; width = grid_width w
      in if en_x coastal \<ge> wc_width (w_config w) \<or> en_y coastal \<ge> wc_height (w_config w) \<or>
            en_x inland \<ge> wc_width (w_config w) \<or> en_y inland \<ge> wc_height (w_config w)
         then None
         else
           let coastal_index = unat (en_y coastal) * width + unat (en_x coastal);
               inland_index = unat (en_y inland) * width + unat (en_x inland)
           in case scan_tiles (road_tile w) [0..<unat (w_tile_count w)]
                     \<lparr>rd_count = 0, rd_endpoints = 0, rd_start = UINT32_MAX,
                      rd_explicit_crossings = 0, rd_river_intersections = 0\<rparr> of
                None \<Rightarrow> None
              | Some a \<Rightarrow>
                  if rd_count a < 2 \<or> rd_endpoints a \<noteq> 2 \<or> rd_explicit_crossings a > 1 \<or>
                     rd_river_intersections a > 1 \<or>
                     \<not> has_overlay w FD_TILE_OVERLAY_ROAD_CANDIDATE coastal_index \<or>
                     \<not> has_overlay w FD_TILE_OVERLAY_ROAD_CANDIDATE inland_index
                  then None
                  else
                    case road_walk w (rd_count a) 1 UINT32_MAX (rd_start a)
                           (has_overlay w FD_TILE_OVERLAY_RIVER (rd_start a)) 0 of
                      None \<Rightarrow> None
                    | Some (visited, current, crossing_entries) \<Rightarrow>
                        if visited \<noteq> rd_count a \<or>
                           \<not> ((rd_start a = coastal_index \<and> current = inland_index) \<or>
                              (rd_start a = inland_index \<and> current = coastal_index))
                        then None
                        else if crossing_entries > 1 \<or>
                                rd_explicit_crossings a \<noteq> rd_river_intersections a \<or>
                                crossing_entries \<noteq> rd_river_intersections a
                        then None
                        else Some (rd_count a, crossing_entries))"

section \<open>Ownership and the region graph\<close>

definition fd_validate_ownership_graph :: "fd_world \<Rightarrow> nat \<Rightarrow> nat \<Rightarrow> nat \<Rightarrow> bool" where
  "fd_validate_ownership_graph w river_count road_count outlet =
     (let region = w_entities w ! 0; coastal = w_entities w ! 1; inland = w_entities w ! 2;
          polity = w_entities w ! 3; foreign0 = w_entities w ! 4; foreign1 = w_entities w ! 5;
          rg = w_region w; width = grid_width w
      in if \<not> list_all (\<lambda>i. en_id (w_entities w ! i) = fd_make_entity_id (of_nat i + 1) \<and>
                            unat (en_name_length (w_entities w ! i)) < FD_MAX_NAME_BYTES)
               [0..<FD_U01_ENTITY_COUNT]
         then False
         else if en_x coastal \<ge> wc_width (w_config w) \<or> en_y coastal \<ge> wc_height (w_config w) \<or>
                 en_x inland \<ge> wc_width (w_config w) \<or> en_y inland \<ge> wc_height (w_config w) \<or>
                 en_x region \<noteq> - 1 \<or> en_y region \<noteq> - 1 \<or>
                 en_x polity \<noteq> - 1 \<or> en_y polity \<noteq> - 1 \<or>
                 en_x foreign0 \<noteq> - 1 \<or> en_y foreign0 \<noteq> - 1 \<or>
                 en_x foreign1 \<noteq> - 1 \<or> en_y foreign1 \<noteq> - 1
         then False
         else
           let coastal_index = unat (en_y coastal) * width + unat (en_x coastal);
               inland_index = unat (en_y inland) * width + unat (en_x inland)
           in en_kind region = FD_ENTITY_REGION \<and> en_kind polity = FD_ENTITY_POLITY_LOCAL \<and>
              en_kind foreign0 = FD_ENTITY_FACTION_FOREIGN \<and>
              en_kind foreign1 = FD_ENTITY_FACTION_FOREIGN \<and>
              en_owner_id coastal = en_id polity \<and> en_owner_id inland = en_id polity \<and>
              en_owner_id region = en_id polity \<and> en_owner_id polity = en_id polity \<and>
              en_owner_id foreign0 = en_id foreign0 \<and> en_owner_id foreign1 = en_id foreign1 \<and>
              en_region_id region = en_id region \<and>
              en_region_id coastal = en_id region \<and> en_region_id inland = en_id region \<and>
              en_region_id polity = en_id region \<and> en_region_id foreign0 = en_id region \<and>
              en_region_id foreign1 = en_id region \<and> rg_id rg = en_id region \<and>
              rg_political_owner_id rg = en_id polity \<and>
              rg_settlement_ids rg ! 0 = en_id coastal \<and>
              rg_settlement_ids rg ! 1 = en_id inland \<and>
              rg_foreign_faction_ids rg ! 0 = en_id foreign0 \<and>
              rg_foreign_faction_ids rg ! 1 = en_id foreign1 \<and>
              rg_river_outlet_tile_id rg = fd_tile_id_from_index (of_nat outlet) \<and>
              rg_road_start_tile_id rg = fd_tile_id_from_index (of_nat coastal_index) \<and>
              rg_road_end_tile_id rg = fd_tile_id_from_index (of_nat inland_index) \<and>
              unat (rg_river_tile_count rg) = river_count \<and>
              unat (rg_road_tile_count rg) = road_count)"

section \<open>The whole validation\<close>

text \<open>The tile loop: first failed index, the terrain histogram (index 0 unused), land and water.\<close>

record tile_scan =
  ts_first_failed :: nat
  ts_terrain_counts :: "nat list"
  ts_land :: nat
  ts_water :: nat

definition validate_tile :: "fd_world \<Rightarrow> nat \<Rightarrow> tile_scan \<Rightarrow> tile_scan" where
  "validate_tile w index s =
     (let tile = tile_at w index; terrain = tl_terrain tile;
          s1 = (if tl_overlays tile AND
                   NOT (FD_TILE_OVERLAY_RIVER OR FD_TILE_OVERLAY_ROAD_CANDIDATE OR
                        FD_TILE_RIVER_OUTLET OR FD_TILE_ROAD_CROSSING) \<noteq> 0
                then s\<lparr>ts_first_failed := index\<rparr> else s);
          s2 = (if terrain \<ge> FD_TERRAIN_WATER \<and> terrain \<le> FD_TERRAIN_SETTLEMENT
                then s1\<lparr>ts_terrain_counts := (ts_terrain_counts s1)
                          [unat terrain := ts_terrain_counts s1 ! unat terrain + 1]\<rparr>
                else if ts_first_failed s1 = UINT32_MAX then s1\<lparr>ts_first_failed := index\<rparr>
                else s1);
          s3 = (if terrain = FD_TERRAIN_WATER then
                  (let s' = s2\<lparr>ts_water := ts_water s2 + 1\<rparr>
                   in if sint (tl_elevation_cm tile) \<noteq> 0 then s'\<lparr>ts_first_failed := index\<rparr> else s')
                else
                  (let s' = s2\<lparr>ts_land := ts_land s2 + 1\<rparr>
                   in if sint (tl_elevation_cm tile) \<le> 0 then s'\<lparr>ts_first_failed := index\<rparr> else s'));
          s4 = (if tl_rainfall_mm tile > 5000 then s3\<lparr>ts_first_failed := index\<rparr> else s3)
      in if terrain = FD_TERRAIN_WETLANDS \<and> \<not> fd_adjacent_terrain w index FD_TERRAIN_WATER \<and>
            \<not> has_overlay w FD_TILE_OVERLAY_RIVER index \<and>
            fst (fd_neighbor_count_with_overlay w index FD_TILE_OVERLAY_RIVER UINT32_MAX UINT32_MAX) = 0
         then s4\<lparr>ts_first_failed := index\<rparr> else s4)"

definition validate_tiles :: "fd_world \<Rightarrow> tile_scan" where
  "validate_tiles w =
     fold (validate_tile w) [0..<unat (w_tile_count w)]
       \<lparr>ts_first_failed = UINT32_MAX, ts_terrain_counts = [0, 0, 0, 0, 0, 0, 0],
        ts_land = 0, ts_water = 0\<rparr>"

definition bounds_ok :: "fd_world \<Rightarrow> bool" where
  "bounds_ok w \<longleftrightarrow>
     FD_MIN_WIDTH \<le> wc_width (w_config w) \<and> wc_width (w_config w) \<le> FD_MAX_WIDTH \<and>
     FD_MIN_HEIGHT \<le> wc_height (w_config w) \<and> wc_height (w_config w) \<le> FD_MAX_HEIGHT \<and>
     w_tile_count w = wc_width (w_config w) * wc_height (w_config w) \<and>
     w_tile_count w \<le> 32768"

definition coverage_ok :: "nat list \<Rightarrow> bool" where
  "coverage_ok counts \<longleftrightarrow>
     counts ! 1 > 0 \<and> counts ! 2 > 0 \<and> counts ! 3 > 0 \<and> counts ! 4 > 0 \<and> counts ! 5 > 0 \<and>
     counts ! 6 = 2"

text \<open>The \<open>passed |= ...\<close> sequence over the seven conditions.\<close>

definition passed_invariants :: "bool \<Rightarrow> bool \<Rightarrow> bool \<Rightarrow> bool \<Rightarrow> bool \<Rightarrow> bool \<Rightarrow> bool \<Rightarrow> u64" where
  "passed_invariants bounds coast coverage hydrology settlements road ownership =
     (let p0 = (if bounds then FD_INVARIANT_BOUNDS else 0);
          p1 = (if coast then p0 OR FD_INVARIANT_LAND_COAST else p0);
          p2 = (if coverage then p1 OR FD_INVARIANT_TERRAIN_COVERAGE else p1);
          p3 = (if hydrology then p2 OR FD_INVARIANT_HYDROLOGY else p2);
          p4 = (if settlements then p3 OR FD_INVARIANT_SETTLEMENTS else p3);
          p5 = (if road then (p4 OR FD_INVARIANT_ROAD_CORRIDOR) OR FD_INVARIANT_OBJECTIVE_REACHABLE else p4)
      in if ownership then (p5 OR FD_INVARIANT_OWNERSHIP) OR FD_INVARIANT_GRAPH_TILE_AGREEMENT else p5)"

definition fd_world_validate_internal ::
    "fd_world option \<Rightarrow> fd_validation_report option \<Rightarrow> diag
       \<Rightarrow> (fd_result \<times> diag) \<times> fd_validation_report option" where
  "fd_world_validate_internal world report diag =
     (case (world, report) of
        (Some w, Some rep) \<Rightarrow>
          let s = validate_tiles w;
              river = fd_validate_river w;
              (river_count, outlet) = (case river of None \<Rightarrow> (0, UINT32_MAX) | Some p \<Rightarrow> p);
              road = fd_validate_road w;
              (road_count, crossings) = (case road of None \<Rightarrow> (0, 0) | Some p \<Rightarrow> p);
              passed = passed_invariants
                (bounds_ok w)
                (ts_first_failed s = UINT32_MAX \<and> fd_validate_coast_land w (ts_land s))
                (coverage_ok (ts_terrain_counts s))
                (river \<noteq> None \<and> unat (w_river_tile_count w) = river_count)
                (outlet \<noteq> UINT32_MAX \<and> fd_validate_settlements w outlet)
                (road \<noteq> None \<and> unat (w_road_tile_count w) = road_count)
                (outlet \<noteq> UINT32_MAX \<and> fd_validate_ownership_graph w river_count road_count outlet);
              rep1 = rep\<lparr>vr_first_failed_tile_index := of_nat (ts_first_failed s),
                         vr_passed_invariants := passed,
                         vr_failed_invariants := FD_INVARIANT_ALL AND NOT passed,
                         vr_land_tile_count := of_nat (ts_land s),
                         vr_water_tile_count := of_nat (ts_water s),
                         vr_river_tile_count := of_nat river_count,
                         vr_road_tile_count := of_nat road_count,
                         vr_road_river_crossings := of_nat crossings\<rparr>;
              rep2 = (if unat (w_land_tile_count w) \<noteq> ts_land s
                      then rep1\<lparr>vr_failed_invariants := vr_failed_invariants rep1 OR FD_INVARIANT_LAND_COAST,
                                vr_passed_invariants := vr_passed_invariants rep1 AND NOT FD_INVARIANT_LAND_COAST\<rparr>
                      else rep1)
          in if vr_failed_invariants rep2 \<noteq> 0
             then (fd_diag_set diag FD_ERR_STATE FD_FIELD_NONE (vr_first_failed_tile_index rep2)
                     (str ''world invariant validation failed''), Some rep2)
             else (fd_diag_ok diag, Some rep2)
      | _ \<Rightarrow> (fd_diag_set diag FD_ERR_INVALID_ARGUMENT FD_FIELD_NONE 0
                (str ''world validation input is null''), report))"

definition fd_world_validate ::
    "fd_world option \<Rightarrow> fd_validation_report option \<Rightarrow> diag
       \<Rightarrow> (fd_result \<times> diag) \<times> fd_validation_report option" where
  "fd_world_validate world report diag =
     (if \<not> fd_output_struct_valid (map_option (\<lambda>r. (vr_struct_size r, vr_abi_version r)) report) 48
      then (fd_diag_set diag FD_ERR_INVALID_SIZE FD_FIELD_STRUCT_SIZE 0
              (str ''invalid validation report output''), report)
      else fd_world_validate_internal world report diag)"

section \<open>The verdict\<close>

text \<open>The conjunction of the checks, without the report.\<close>

definition world_valid :: "fd_world \<Rightarrow> bool" where
  "world_valid w \<longleftrightarrow>
     bounds_ok w \<and> ts_first_failed (validate_tiles w) = UINT32_MAX \<and>
     fd_validate_coast_land w (ts_land (validate_tiles w)) \<and>
     coverage_ok (ts_terrain_counts (validate_tiles w)) \<and>
     (\<exists>river_count outlet road_count crossings.
        fd_validate_river w = Some (river_count, outlet) \<and>
        unat (w_river_tile_count w) = river_count \<and> outlet \<noteq> UINT32_MAX \<and>
        fd_validate_settlements w outlet \<and>
        fd_validate_road w = Some (road_count, crossings) \<and>
        unat (w_road_tile_count w) = road_count \<and>
        fd_validate_ownership_graph w river_count road_count outlet) \<and>
     unat (w_land_tile_count w) = ts_land (validate_tiles w)"

lemma passed_all_iff:
  "FD_INVARIANT_ALL AND NOT (passed_invariants b0 b1 b2 b3 b4 b5 b6) = 0
     \<longleftrightarrow> b0 \<and> b1 \<and> b2 \<and> b3 \<and> b4 \<and> b5 \<and> b6"
  unfolding passed_invariants_def
  by (cases b0; cases b1; cases b2; cases b3; cases b4; cases b5; cases b6; simp)

lemma or_land_coast_nonzero: "x OR FD_INVARIANT_LAND_COAST \<noteq> 0"
proof
  assume "x OR FD_INVARIANT_LAND_COAST = 0"
  then have "\<not> bit (x OR 2) 1" by simp
  then show False by (simp add: bit_or_iff)
qed

lemma validate_OK_iff:
  "fst (fst (fd_world_validate_internal (Some w) (Some rep) diag)) = FD_OK \<longleftrightarrow> world_valid w"
proof -
  have ne: "FD_ERR_STATE \<noteq> FD_OK" by (simp add: fd_const)
  have verdict: "((if c then FD_OK else FD_ERR_STATE) = FD_OK) = c" for c
    by (simp add: ne)
  have fst_if: "fst (fst (if c then (a, x) else (b, y))) = (if c then fst a else fst b)"
    for c and a b :: "fd_result \<times> diag" and x y :: "fd_validation_report option" by simp
  obtain rc ol where r: "(case fd_validate_river w of None \<Rightarrow> (0, UINT32_MAX) | Some p \<Rightarrow> p) = (rc, ol)"
    by (cases "case fd_validate_river w of None \<Rightarrow> (0 :: nat, UINT32_MAX) | Some p \<Rightarrow> p") auto
  obtain dc cr where d: "(case fd_validate_road w of None \<Rightarrow> (0, 0) | Some p \<Rightarrow> p) = (dc, cr)"
    by (cases "case fd_validate_road w of None \<Rightarrow> (0 :: nat, 0 :: nat) | Some p \<Rightarrow> p") auto
  show ?thesis
  proof (cases "unat (w_land_tile_count w) = ts_land (validate_tiles w)")
    case False
    then have "\<not> world_valid w" by (simp add: world_valid_def)
    moreover have "fst (fst (fd_world_validate_internal (Some w) (Some rep) diag)) \<noteq> FD_OK"
      by (simp add: fd_world_validate_internal_def r d False ne or_land_coast_nonzero Let_def
          split del: if_split)
    ultimately show ?thesis by simp
  next
    case True
    have "fst (fst (fd_world_validate_internal (Some w) (Some rep) diag)) = FD_OK \<longleftrightarrow>
        bounds_ok w \<and>
        (ts_first_failed (validate_tiles w) = UINT32_MAX \<and> fd_validate_coast_land w (ts_land (validate_tiles w))) \<and>
        coverage_ok (ts_terrain_counts (validate_tiles w)) \<and>
        (fd_validate_river w \<noteq> None \<and> unat (w_river_tile_count w) = rc) \<and>
        (ol \<noteq> UINT32_MAX \<and> fd_validate_settlements w ol) \<and>
        (fd_validate_road w \<noteq> None \<and> unat (w_road_tile_count w) = dc) \<and>
        (ol \<noteq> UINT32_MAX \<and> fd_validate_ownership_graph w rc dc ol)"
      by (simp add: fd_world_validate_internal_def r d True Let_def ne passed_all_iff)
    also have "\<dots> \<longleftrightarrow> world_valid w"
      using r d True unfolding world_valid_def by (auto split: option.splits)
    finally show ?thesis .
  qed
qed

text \<open>C28: validation of a world with a well-formed report returns \<open>FD_OK\<close> exactly when every one of
  the nine invariants holds: bounds, land and coast, terrain coverage, hydrology, settlements, road
  corridor, reachability, ownership and the agreement of the region graph with the tiles.\<close>

theorem fd_world_validate_verdict:
  "fst (fst (fd_world_validate (Some w) (Some rep) diag)) =
     (if 48 \<le> vr_struct_size rep \<and> vr_abi_version rep = FD_ABI_VERSION
      then (if world_valid w then FD_OK else FD_ERR_STATE) else FD_ERR_INVALID_SIZE)"
proof -
  have "fst (fst (fd_world_validate_internal (Some w) (Some rep) diag)) \<in> {FD_OK, FD_ERR_STATE}"
    by (simp add: fd_world_validate_internal_def Let_def split: prod.splits)
  then have "fst (fst (fd_world_validate_internal (Some w) (Some rep) diag)) =
      (if world_valid w then FD_OK else FD_ERR_STATE)"
    using validate_OK_iff [of w rep diag] by auto
  then show ?thesis
    by (auto simp: fd_world_validate_def fd_output_struct_valid_def not_le)
qed

end
