(* ===== verification/FD_Coast.thy ===== *)
theory FD_Coast
  imports FD_Validate
begin

text \<open>
  What the tile scan and the coast check of the validator mean: every tile of an accepted world is
  well-formed, the counters are the true counts, and the land of an accepted coast is a single
  orthogonally connected region.
\<close>

unbundle bit_operations_syntax

section \<open>The tile scan\<close>

definition tile_ok :: "fd_world \<Rightarrow> nat \<Rightarrow> bool" where
  "tile_ok w i \<longleftrightarrow>
     tl_overlays (tile_at w i) AND
       NOT (FD_TILE_OVERLAY_RIVER OR FD_TILE_OVERLAY_ROAD_CANDIDATE OR
            FD_TILE_RIVER_OUTLET OR FD_TILE_ROAD_CROSSING) = 0 \<and>
     FD_TERRAIN_WATER \<le> terrain_at w i \<and> terrain_at w i \<le> FD_TERRAIN_SETTLEMENT \<and>
     (if terrain_at w i = FD_TERRAIN_WATER then sint (tl_elevation_cm (tile_at w i)) = 0
      else 0 < sint (tl_elevation_cm (tile_at w i))) \<and>
     tl_rainfall_mm (tile_at w i) \<le> 5000 \<and>
     (terrain_at w i = FD_TERRAIN_WETLANDS \<longrightarrow>
        fd_adjacent_terrain w i FD_TERRAIN_WATER \<or> has_overlay w FD_TILE_OVERLAY_RIVER i \<or>
        fst (fd_neighbor_count_with_overlay w i FD_TILE_OVERLAY_RIVER UINT32_MAX UINT32_MAX) \<noteq> 0)"

lemma validate_tile_first_failed:
  assumes "ts_first_failed (validate_tile w i s) = UINT32_MAX" and "i \<noteq> UINT32_MAX"
  shows "ts_first_failed s = UINT32_MAX" and "tile_ok w i"
proof -
  show "ts_first_failed s = UINT32_MAX"
    using assms by (auto simp: validate_tile_def Let_def split: if_splits)
  show "tile_ok w i"
    using assms unfolding tile_ok_def terrain_at_def
    by (auto simp: validate_tile_def Let_def not_less split: if_splits)
qed

lemma validate_tiles_ok:
  assumes "ts_first_failed (fold (validate_tile w) is s) = UINT32_MAX" and "UINT32_MAX \<notin> set is"
  shows "ts_first_failed s = UINT32_MAX \<and> (\<forall>i\<in>set is. tile_ok w i)"
  using assms
proof (induction "is" arbitrary: s)
  case (Cons i "is")
  then have "ts_first_failed (validate_tile w i s) = UINT32_MAX" "\<forall>j\<in>set is. tile_ok w j" by simp_all
  then show ?case using validate_tile_first_failed [of w i s] Cons.prems(2) by simp
qed simp

lemma validate_tile_land:
  "ts_land (validate_tile w i s) = ts_land s + (if terrain_at w i = FD_TERRAIN_WATER then 0 else 1)"
  by (simp add: validate_tile_def terrain_at_def Let_def)

lemma validate_tile_water:
  "ts_water (validate_tile w i s) = ts_water s + (if terrain_at w i = FD_TERRAIN_WATER then 1 else 0)"
  by (simp add: validate_tile_def terrain_at_def Let_def)

lemma validate_tile_counts:
  "ts_terrain_counts (validate_tile w i s) =
     (if FD_TERRAIN_WATER \<le> terrain_at w i \<and> terrain_at w i \<le> FD_TERRAIN_SETTLEMENT
      then (ts_terrain_counts s) [unat (terrain_at w i) := ts_terrain_counts s ! unat (terrain_at w i) + 1]
      else ts_terrain_counts s)"
  by (simp add: validate_tile_def terrain_at_def Let_def)

definition count_tiles :: "(nat \<Rightarrow> bool) \<Rightarrow> nat list \<Rightarrow> nat" where
  "count_tiles P is = length (filter P is)"

lemma count_tiles_simps [simp]:
  "count_tiles P [] = 0"
  "count_tiles P (i # is) = (if P i then 1 else 0) + count_tiles P is"
  by (simp_all add: count_tiles_def)

lemma count_tiles_card: "count_tiles P [0..<n] = card {i. i < n \<and> P i}"
proof -
  have "count_tiles P [0..<n] = card (set (filter P [0..<n]))"
    unfolding count_tiles_def by (rule distinct_card [symmetric]) simp
  also have "set (filter P [0..<n]) = {i. i < n \<and> P i}" by auto
  finally show ?thesis .
qed

lemma fold_validate_land:
  "ts_land (fold (validate_tile w) is s)
     = ts_land s + count_tiles (\<lambda>i. terrain_at w i \<noteq> FD_TERRAIN_WATER) is"
  by (induction "is" arbitrary: s) (simp_all add: validate_tile_land)

lemma fold_validate_water:
  "ts_water (fold (validate_tile w) is s)
     = ts_water s + count_tiles (\<lambda>i. terrain_at w i = FD_TERRAIN_WATER) is"
  by (induction "is" arbitrary: s) (simp_all add: validate_tile_water)

lemma fold_validate_counts:
  assumes "length (ts_terrain_counts s) = 7" and "t \<in> {1..6}"
  shows "ts_terrain_counts (fold (validate_tile w) is s) ! t
     = ts_terrain_counts s ! t + count_tiles (\<lambda>i. unat (terrain_at w i) = t) is"
  using assms(1)
proof (induction "is" arbitrary: s)
  case (Cons i "is")
  have "length (ts_terrain_counts (validate_tile w i s)) = 7"
    using Cons.prems by (simp add: validate_tile_counts)
  moreover have "(1 \<le> terrain_at w i \<and> terrain_at w i \<le> 6) = (unat (terrain_at w i) \<in> {1..6})"
    by (simp add: word_le_nat_alt)
  ultimately show ?case
    using Cons.IH [of "validate_tile w i s"] Cons.prems assms(2)
    by (auto simp: validate_tile_counts nth_list_update)
qed simp

lemma validate_tiles_land:
  "ts_land (validate_tiles w) = card {i. i < unat (w_tile_count w) \<and> terrain_at w i \<noteq> FD_TERRAIN_WATER}"
  by (simp add: validate_tiles_def fold_validate_land count_tiles_card)

lemma validate_tiles_counts:
  assumes "t \<in> {1..6}"
  shows "ts_terrain_counts (validate_tiles w) ! t
    = card {i. i < unat (w_tile_count w) \<and> unat (terrain_at w i) = t}"
proof -
  have "[0, 0, 0, 0, 0, 0, 0] ! t = (0 :: nat)"
    using assms by (auto simp: nth_Cons split: nat.splits)
  then show ?thesis
    using assms by (simp add: validate_tiles_def fold_validate_counts count_tiles_card)
qed

lemma validate_tiles_first_failed:
  assumes "ts_first_failed (validate_tiles w) = UINT32_MAX" and "i < unat (w_tile_count w)"
  shows "tile_ok w i"
proof -
  have "UINT32_MAX \<notin> set [0..<unat (w_tile_count w)]"
    using unat_lt_u32 [of "w_tile_count w"] by simp
  then show ?thesis
    using validate_tiles_ok [OF assms(1) [unfolded validate_tiles_def]] assms(2) by simp
qed

section \<open>Rows of the coast\<close>

lemma coast_cells_append:
  "coast_cells land (xs @ [x]) r =
     (case coast_cells land xs r of None \<Rightarrow> None | Some r' \<Rightarrow> coast_cell (land x) x r')"
  by (induction xs arbitrary: r) (auto split: option.splits)

definition row_inv :: "(nat \<Rightarrow> bool) \<Rightarrow> nat \<Rightarrow> coast_row \<Rightarrow> bool" where
  "row_inv land n r \<longleftrightarrow>
     (if cr_saw_land r
      then cr_start r \<le> cr_end r \<and> cr_end r < n \<and>
           (\<forall>x<n. land x \<longleftrightarrow> cr_start r \<le> x \<and> x \<le> cr_end r) \<and>
           (cr_gap_after_land r \<longleftrightarrow> cr_end r + 1 < n)
      else (\<forall>x<n. \<not> land x) \<and> \<not> cr_gap_after_land r)"

lemma row_inv_cell:
  assumes "row_inv land n r" and "coast_cell (land n) n r = Some r'"
  shows "row_inv land (Suc n) r'"
  using assms
  by (auto simp: row_inv_def coast_cell_def Let_def less_Suc_eq split: if_splits)

lemma coast_cells_row:
  assumes "coast_cells land [0..<n] r0 = Some r" and "row_inv land 0 r0"
  shows "row_inv land n r"
  using assms(1)
proof (induction n arbitrary: r)
  case 0
  then show ?case using assms(2) by simp
next
  case (Suc n)
  from Suc.prems obtain r1 where "coast_cells land [0..<n] r0 = Some r1"
    and "coast_cell (land n) n r1 = Some r"
    by (auto simp: coast_cells_append split: option.splits)
  then show ?case using Suc.IH row_inv_cell by blast
qed

text \<open>A row accepted by the check is one interval of land.\<close>

definition land_interval :: "(nat \<Rightarrow> bool) \<Rightarrow> nat \<Rightarrow> nat \<Rightarrow> nat \<Rightarrow> bool" where
  "land_interval land n s e \<longleftrightarrow> s \<le> e \<and> e < n \<and> (\<forall>x<n. land x \<longleftrightarrow> s \<le> x \<and> x \<le> e)"

definition row_land :: "fd_world \<Rightarrow> nat \<Rightarrow> nat \<Rightarrow> bool" where
  "row_land w y x \<longleftrightarrow> terrain_at w (y * grid_width w + x) \<noteq> FD_TERRAIN_WATER"

lemma coast_rows_intervals:
  assumes "coast_rows w [k..<h] ps pe"
  shows "\<exists>S E. (\<forall>y. k \<le> y \<and> y < h \<longrightarrow> land_interval (row_land w y) (grid_width w) (S y) (E y)) \<and>
     (\<forall>y. k < y \<and> y < h \<longrightarrow> S (y - 1) \<le> E y \<and> S y \<le> E (y - 1)) \<and>
     (0 < k \<and> k < h \<longrightarrow> ps \<le> E k \<and> S k \<le> pe)"
  using assms
proof (induction "h - k" arbitrary: k ps pe)
  case 0
  then have "h \<le> k" by simp
  then show ?case by (intro exI conjI allI impI) auto
next
  case (Suc d)
  then have kh: "k < h" and d: "d = h - Suc k" by simp_all
  let ?r0 = "\<lparr>cr_start = grid_width w, cr_end = 0, cr_saw_land = False, cr_gap_after_land = False\<rparr>"
  from Suc.prems kh obtain r where
    r: "coast_cells (row_land w k) [0..<grid_width w] ?r0 = Some r"
    and saw: "cr_saw_land r"
    and ov: "0 < k \<Longrightarrow> ps \<le> cr_end r \<and> cr_start r \<le> pe"
    and rest: "coast_rows w [Suc k..<h] (cr_start r) (cr_end r)"
    unfolding row_land_def [abs_def]
    by (auto simp: upt_rec [of k h] Let_def not_less split: option.splits if_splits)
  have "row_inv (row_land w k) (grid_width w) r"
    by (rule coast_cells_row [OF r]) (simp add: row_inv_def)
  then have int: "land_interval (row_land w k) (grid_width w) (cr_start r) (cr_end r)"
    using saw by (simp add: row_inv_def land_interval_def)
  from Suc.hyps(1) [OF d rest] obtain S E where
    SE: "\<forall>y. Suc k \<le> y \<and> y < h \<longrightarrow> land_interval (row_land w y) (grid_width w) (S y) (E y)"
    "\<forall>y. Suc k < y \<and> y < h \<longrightarrow> S (y - 1) \<le> E y \<and> S y \<le> E (y - 1)"
    "Suc k < h \<longrightarrow> cr_start r \<le> E (Suc k) \<and> S (Suc k) \<le> cr_end r" by auto
  show ?case
  proof (rule exI [of _ "S(k := cr_start r)"], rule exI [of _ "E(k := cr_end r)"],
      intro conjI allI impI)
    fix y assume "k \<le> y \<and> y < h"
    then show "land_interval (row_land w y) (grid_width w) ((S(k := cr_start r)) y) ((E(k := cr_end r)) y)"
      using SE(1) int by (cases "y = k") auto
  next
    fix y assume y: "k < y \<and> y < h"
    show "(S(k := cr_start r)) (y - 1) \<le> (E(k := cr_end r)) y"
      using SE(2,3) y by (cases "y = Suc k") auto
    show "(S(k := cr_start r)) y \<le> (E(k := cr_end r)) (y - 1)"
      using SE(2,3) y by (cases "y = Suc k") auto
  qed (use ov in auto)
qed

section \<open>Connectivity\<close>

definition land_step :: "fd_world \<Rightarrow> nat rel" where
  "land_step w = {(i, j). i < grid_width w * grid_height w \<and> j < grid_width w * grid_height w \<and>
     terrain_at w i \<noteq> FD_TERRAIN_WATER \<and> terrain_at w j \<noteq> FD_TERRAIN_WATER \<and>
     fd_manhattan (i mod grid_width w) (i div grid_width w)
                  (j mod grid_width w) (j div grid_width w) = 1}"

lemma grid_index:
  fixes x y W H :: nat
  assumes "x < W" and "y < H"
  shows "y * W + x < W * H" "(y * W + x) mod W = x" "(y * W + x) div W = y"
proof -
  have "y * W + x < Suc y * W" using assms(1) by simp
  also have "\<dots> \<le> H * W" using assms(2) by (intro mult_le_mono1) simp
  finally show "y * W + x < W * H" by (simp add: mult.commute)
qed (use assms in simp_all)

lemma grid_index_inv:
  fixes i W H :: nat
  assumes "i < W * H"
  shows "i mod W < W" "i div W < H" "i div W * W + i mod W = i"
  using assms by (auto simp: less_mult_imp_div_less mult.commute intro!: mod_less_divisor Nat.gr0I)

lemma fd_manhattan_unit:
  "fd_manhattan x y x (Suc y) = 1" "fd_manhattan x (Suc y) x y = 1"
  "fd_manhattan x y (Suc x) y = 1" "fd_manhattan (Suc x) y x y = 1"
  by (simp_all add: fd_manhattan_def fd_abs_diff_u32_def)

lemma land_step_sym: "(i, j) \<in> (land_step w)\<^sup>* \<Longrightarrow> (j, i) \<in> (land_step w)\<^sup>*"
proof -
  have "sym (land_step w)"
    by (auto simp: sym_def land_step_def fd_manhattan_def fd_abs_diff_u32_def)
  then have "sym ((land_step w)\<^sup>*)" by (rule sym_rtrancl)
  then show "(i, j) \<in> (land_step w)\<^sup>* \<Longrightarrow> (j, i) \<in> (land_step w)\<^sup>*" by (rule symD)
qed

lemma land_step_row:
  assumes int: "land_interval (row_land w y) (grid_width w) s e" and y: "y < grid_height w"
    and "s \<le> a" "a \<le> b" "b \<le> e"
  shows "(y * grid_width w + a, y * grid_width w + b) \<in> (land_step w)\<^sup>*"
  using assms(4,5)
proof (induction b rule: dec_induct)
  case (step b)
  have "row_land w y b" "row_land w y (Suc b)" and lt: "Suc b < grid_width w"
    using int step assms(3) by (auto simp: land_interval_def)
  then have "(y * grid_width w + b, y * grid_width w + Suc b) \<in> land_step w"
    using grid_index [of b "grid_width w" y "grid_height w"]
      grid_index [of "Suc b" "grid_width w" y "grid_height w"] y
    unfolding land_step_def row_land_def by (simp add: fd_manhattan_unit)
  then show ?case using step by (auto intro: rtrancl_into_rtrancl)
qed simp

lemma land_step_down:
  assumes "row_land w y x" "row_land w (Suc y) x" "x < grid_width w" "Suc y < grid_height w"
  shows "(y * grid_width w + x, Suc y * grid_width w + x) \<in> land_step w"
  using assms grid_index [of x "grid_width w" y "grid_height w"]
    grid_index [of x "grid_width w" "Suc y" "grid_height w"]
  unfolding land_step_def row_land_def by (simp add: fd_manhattan_unit)

lemma land_step_within:
  assumes "land_interval (row_land w y) (grid_width w) s e" "y < grid_height w"
    and "s \<le> a" "a \<le> e" "s \<le> b" "b \<le> e"
  shows "(y * grid_width w + a, y * grid_width w + b) \<in> (land_step w)\<^sup>*"
  using land_step_row [OF assms(1,2)] assms(3-) land_step_sym by (cases "a \<le> b") auto

lemma coast_land_connected_rows:
  assumes int: "\<And>y. y < grid_height w \<Longrightarrow> land_interval (row_land w y) (grid_width w) (S y) (E y)"
    and ov: "\<And>y. 0 < y \<Longrightarrow> y < grid_height w \<Longrightarrow> S (y - 1) \<le> E y \<and> S y \<le> E (y - 1)"
    and y: "y < grid_height w" "row_land w y x" "x < grid_width w"
  shows "(0 * grid_width w + S 0, y * grid_width w + x) \<in> (land_step w)\<^sup>*"
  using y
proof (induction y arbitrary: x)
  case 0
  from int [OF 0(1)] 0 show ?case
    by (intro land_step_within [OF int [OF 0(1)] 0(1)]) (auto simp: land_interval_def)
next
  case (Suc y)
  have iy: "land_interval (row_land w y) (grid_width w) (S y) (E y)"
    and iy': "land_interval (row_land w (Suc y)) (grid_width w) (S (Suc y)) (E (Suc y))"
    using int [of y] int [OF Suc.prems(1)] Suc.prems(1) by auto
  define m where "m = max (S y) (S (Suc y))"
  have m: "S y \<le> m" "m \<le> E y" "S (Suc y) \<le> m" "m \<le> E (Suc y)"
    using ov [OF _ Suc.prems(1)] iy iy' by (auto simp: m_def land_interval_def)
  then have l: "row_land w y m" "row_land w (Suc y) m" "m < grid_width w"
    using iy iy' by (auto simp: land_interval_def)
  have "(0 * grid_width w + S 0, y * grid_width w + m) \<in> (land_step w)\<^sup>*"
    using Suc.IH [OF _ l(1,3)] Suc.prems(1) by simp
  also have "(y * grid_width w + m, Suc y * grid_width w + m) \<in> (land_step w)\<^sup>*"
    using land_step_down [OF l(1,2,3) Suc.prems(1)] by blast
  also have "(Suc y * grid_width w + m, Suc y * grid_width w + x) \<in> (land_step w)\<^sup>*"
    using m Suc.prems iy' by (intro land_step_within [OF iy' Suc.prems(1)]) (auto simp: land_interval_def)
  finally (rtrancl_trans) show ?case .
qed

lemma coast_land_connected:
  assumes "fd_validate_coast_land w n"
    and i: "i < grid_width w * grid_height w" "terrain_at w i \<noteq> FD_TERRAIN_WATER"
    and j: "j < grid_width w * grid_height w" "terrain_at w j \<noteq> FD_TERRAIN_WATER"
  shows "(i, j) \<in> (land_step w)\<^sup>*"
proof -
  from assms(1) have "coast_rows w [0..<grid_height w] 0 0"
    by (simp add: fd_validate_coast_land_def Let_def split: if_splits)
  from coast_rows_intervals [OF this] obtain S E where
    SE: "\<And>y. y < grid_height w \<Longrightarrow> land_interval (row_land w y) (grid_width w) (S y) (E y)"
    "\<And>y. 0 < y \<Longrightarrow> y < grid_height w \<Longrightarrow> S (y - 1) \<le> E y \<and> S y \<le> E (y - 1)" by auto
  have "(S 0, k) \<in> (land_step w)\<^sup>*"
    if "k < grid_width w * grid_height w" "terrain_at w k \<noteq> FD_TERRAIN_WATER" for k
    using coast_land_connected_rows [OF SE, of "k div grid_width w" "k mod grid_width w"]
      grid_index_inv [OF that(1)] that(2) by (simp add: row_land_def)
  from this [OF i] this [OF j] show ?thesis
    by (blast intro: rtrancl_trans land_step_sym)
qed

section \<open>The coast property\<close>

lemma row_inv_interval:
  assumes "land_interval land n s e" "row_inv land k r" "k < n"
  shows "coast_cell (land k) k r \<noteq> None"
proof
  assume "coast_cell (land k) k r = None"
  then have k: "land k" and g: "cr_gap_after_land r"
    by (auto simp: coast_cell_def Let_def split: if_splits)
  then have saw: "cr_saw_land r" and re: "cr_start r \<le> cr_end r" "cr_end r + 1 < k"
    and L: "\<forall>x<k. land x \<longleftrightarrow> cr_start r \<le> x \<and> x \<le> cr_end r"
    using assms(2) by (auto simp: row_inv_def split: if_splits)
  have "land (cr_end r)" "\<not> land (cr_end r + 1)" using L re by auto
  then show False using assms(1,3) k re by (auto simp: land_interval_def)
qed

lemma coast_cells_interval:
  assumes int: "land_interval land n s e" and "k \<le> n" and "row_inv land 0 r0"
  shows "\<exists>r. coast_cells land [0..<k] r0 = Some r \<and> row_inv land k r"
  using assms(2)
proof (induction k)
  case (Suc k)
  then obtain r where r: "coast_cells land [0..<k] r0 = Some r" "row_inv land k r" by auto
  then obtain r' where "coast_cell (land k) k r = Some r'"
    using row_inv_interval [OF int r(2)] Suc.prems by (cases "coast_cell (land k) k r") auto
  then show ?case using r row_inv_cell [OF r(2)] by (simp add: coast_cells_append)
qed (use assms(3) in simp)

lemma row_inv_determines:
  assumes "land_interval land n s e" "row_inv land n r"
  shows "cr_saw_land r" "cr_start r = s" "cr_end r = e"
proof -
  have se: "s \<le> e" "e < n" and L: "\<And>x. x < n \<Longrightarrow> land x \<longleftrightarrow> s \<le> x \<and> x \<le> e"
    using assms(1) by (auto simp: land_interval_def)
  have "land s" using L [of s] se by simp
  then show saw: "cr_saw_land r"
    using assms(2) se by (auto simp: row_inv_def split: if_splits)
  then have R: "\<And>x. x < n \<Longrightarrow> land x \<longleftrightarrow> cr_start r \<le> x \<and> x \<le> cr_end r"
    and re: "cr_start r \<le> cr_end r" "cr_end r < n"
    using assms(2) by (auto simp: row_inv_def)
  show "cr_start r = s"
    using L [of s] R [of s] L [of "cr_start r"] R [of "cr_start r"] se re by auto
  show "cr_end r = e"
    using L [of e] R [of e] L [of "cr_end r"] R [of "cr_end r"] se re by auto
qed

lemma intervals_coast_rows:
  assumes "\<And>y. k \<le> y \<Longrightarrow> y < h \<Longrightarrow> land_interval (row_land w y) (grid_width w) (S y) (E y)"
    and "\<And>y. k < y \<Longrightarrow> y < h \<Longrightarrow> S (y - 1) \<le> E y \<and> S y \<le> E (y - 1)"
    and "0 < k \<Longrightarrow> k < h \<Longrightarrow> ps \<le> E k \<and> S k \<le> pe"
  shows "coast_rows w [k..<h] ps pe"
  using assms
proof (induction "h - k" arbitrary: k ps pe)
  case (Suc d)
  then have kh: "k < h" and d: "d = h - Suc k" by simp_all
  let ?r0 = "\<lparr>cr_start = grid_width w, cr_end = 0, cr_saw_land = False, cr_gap_after_land = False\<rparr>"
  have int: "land_interval (row_land w k) (grid_width w) (S k) (E k)" using Suc.prems(1) kh by simp
  have "row_inv (row_land w k) 0 ?r0" by (simp add: row_inv_def)
  from coast_cells_interval [OF int order_refl this]
  obtain r where r: "coast_cells (row_land w k) [0..<grid_width w] ?r0 = Some r"
    and inv: "row_inv (row_land w k) (grid_width w) r" by blast
  note rse = row_inv_determines [OF int inv]
  have "coast_rows w [Suc k..<h] (S k) (E k)"
  proof (rule Suc.hyps(1) [OF d])
    assume "Suc k < h"
    then show "S k \<le> E (Suc k) \<and> S (Suc k) \<le> E k" using Suc.prems(2) [of "Suc k"] by simp
  qed (use Suc.prems kh in auto)
  moreover have "k = 0 \<or> ps \<le> E k \<and> S k \<le> pe" using Suc.prems(3) kh by auto
  ultimately show ?case
    using r rse unfolding row_land_def [abs_def]
    by (simp add: upt_rec [of k h] kh Let_def not_less)
qed auto

text \<open>The coast check accepts exactly the worlds whose land share is between 55 and 80 percent
  and in which every row's land is one interval that overlaps the interval of the row above.\<close>

theorem fd_validate_coast_land_iff:
  "fd_validate_coast_land w n \<longleftrightarrow>
     unat (w_tile_count w) * 55 \<le> n * 100 \<and> n * 100 \<le> unat (w_tile_count w) * 80 \<and>
     (\<exists>S E. (\<forall>y. y < grid_height w \<longrightarrow> land_interval (row_land w y) (grid_width w) (S y) (E y)) \<and>
            (\<forall>y. 0 < y \<and> y < grid_height w \<longrightarrow> S (y - 1) \<le> E y \<and> S y \<le> E (y - 1)))"
    (is "_ \<longleftrightarrow> _ \<and> _ \<and> ?intervals")
proof -
  have "coast_rows w [0..<grid_height w] 0 0 \<longleftrightarrow> ?intervals"
  proof
    assume "coast_rows w [0..<grid_height w] 0 0"
    from coast_rows_intervals [OF this] show ?intervals by auto
  next
    assume ?intervals
    then obtain S E where "\<And>y. y < grid_height w \<Longrightarrow> land_interval (row_land w y) (grid_width w) (S y) (E y)"
      "\<And>y. 0 < y \<Longrightarrow> y < grid_height w \<Longrightarrow> S (y - 1) \<le> E y \<and> S y \<le> E (y - 1)" by blast
    then show "coast_rows w [0..<grid_height w] 0 0" by (intro intervals_coast_rows) auto
  qed
  then show ?thesis by (auto simp: fd_validate_coast_land_def Let_def)
qed

definition coast_sample :: fd_world where
  "coast_sample = grid_world 3 2
     [grid_tile 1 0 0, grid_tile 2 0 1, grid_tile 2 0 1,
      grid_tile 2 0 1, grid_tile 2 0 1, grid_tile 1 0 0] []"

theorem fd_validate_coast_land_iff_witness:
  "fd_validate_coast_land coast_sample 4 \<and>
   (\<exists>S E. (\<forall>y. y < grid_height coast_sample \<longrightarrow>
             land_interval (row_land coast_sample y) (grid_width coast_sample) (S y) (E y)) \<and>
          (\<forall>y. 0 < y \<and> y < grid_height coast_sample \<longrightarrow> S (y - 1) \<le> E y \<and> S y \<le> E (y - 1)))"
proof -
  have "fd_validate_coast_land coast_sample 4" by code_simp
  then show ?thesis using fd_validate_coast_land_iff [of coast_sample 4] by blast
qed

text \<open>C27: the land of an accepted coast is one region: any two land tiles are joined by a path of
  orthogonally adjacent land tiles.\<close>

theorem coast_land_one_region:
  assumes "fd_validate_coast_land w n"
    and "i < grid_width w * grid_height w" and "terrain_at w i \<noteq> FD_TERRAIN_WATER"
    and "j < grid_width w * grid_height w" and "terrain_at w j \<noteq> FD_TERRAIN_WATER"
  shows "(i, j) \<in> (land_step w)\<^sup>*"
  using assms by (rule coast_land_connected)

theorem coast_land_one_region_witness: "(2, 3) \<in> (land_step coast_sample)\<^sup>*"
proof (rule coast_land_one_region)
  show "fd_validate_coast_land coast_sample 4" by code_simp
qed code_simp+

end
