(* ===== verification/FD_Path.thy ===== *)
theory FD_Path
  imports FD_Coast
begin

text \<open>
  The geometry behind the path walks of \<^verbatim>\<open>src/core/fd_validate.c\<close>: the neighbour counter is the
  number of orthogonal grid neighbours with an overlay, and a walk that always finds exactly one
  neighbour other than the tile it came from traces a simple path.  The second fact is proved in the
  locale \<open>neighbor_graph\<close> and interpreted on the overlay graphs of a world.
\<close>

unbundle bit_operations_syntax

section \<open>Orthogonal neighbours\<close>

definition grid_cands :: "nat \<Rightarrow> nat \<Rightarrow> nat \<Rightarrow> nat list" where
  "grid_cands W H i =
     (if i mod W > 0 then [i - 1] else []) @ (if i mod W + 1 < W then [i + 1] else []) @
     (if i div W > 0 then [i - W] else []) @ (if i div W + 1 < H then [i + W] else [])"

definition grid_adjacent :: "nat \<Rightarrow> nat \<Rightarrow> nat \<Rightarrow> bool" where
  "grid_adjacent W i j \<longleftrightarrow> fd_manhattan (i mod W) (i div W) (j mod W) (j div W) = 1"

lemma grid_adjacent_sym: "grid_adjacent W i j \<longleftrightarrow> grid_adjacent W j i"
  by (auto simp: grid_adjacent_def fd_manhattan_def fd_abs_diff_u32_def)

lemma grid_adjacent_irrefl: "\<not> grid_adjacent W i i"
  by (simp add: grid_adjacent_def fd_manhattan_def fd_abs_diff_u32_def)

lemma distinct_grid_cands: "1 < W \<Longrightarrow> distinct (grid_cands W H i)"
  by (auto simp: grid_cands_def div_greater_zero_iff)

lemma manhattan_1_cases:
  assumes "fd_manhattan x y x' y' = 1"
  obtains "x' = x - 1" "0 < x" "y' = y" | "x' = x + 1" "y' = y"
    | "x' = x" "y' = y - 1" "0 < y" | "x' = x" "y' = y + 1"
proof -
  have "(x = x' \<and> (y' = y + 1 \<or> y = y' + 1)) \<or> (y = y' \<and> (x' = x + 1 \<or> x = x' + 1))"
    using assms by (auto simp: fd_manhattan_def fd_abs_diff_u32_def split: if_splits)
  then show ?thesis using that by auto
qed

lemma grid_cands_iff:
  assumes i: "i < W * H"
  shows "j \<in> set (grid_cands W H i) \<longleftrightarrow> j < W * H \<and> grid_adjacent W i j"
proof -
  define x y where "x = i mod W" and "y = i div W"
  have xy: "x < W" "y < H" "i = y * W + x"
    using grid_index_inv [OF i] by (simp_all add: x_def y_def)
  have pos: "(y * W + x) mod W = x" "(y * W + x) div W = y" using xy(1) by simp_all
  have up: "y * W + x - W = (y - 1) * W + x" if "0 < y"
    using that by (cases y) auto
  show ?thesis
  proof
    assume "j \<in> set (grid_cands W H i)"
    then consider "0 < x" "j = y * W + (x - 1)" | "x + 1 < W" "j = y * W + (x + 1)"
      | "0 < y" "j = (y - 1) * W + x" | "y + 1 < H" "j = (y + 1) * W + x"
      using xy(3) pos up by (auto simp: grid_cands_def split: if_splits)
    then show "j < W * H \<and> grid_adjacent W i j"
    proof cases
      case 1
      then show ?thesis using grid_index [of "x - 1" W y H] xy pos
        by (auto simp: grid_adjacent_def fd_manhattan_def fd_abs_diff_u32_def)
    next
      case 2
      then show ?thesis using grid_index [of "x + 1" W y H] xy pos
        by (auto simp: grid_adjacent_def fd_manhattan_def fd_abs_diff_u32_def)
    next
      case 3
      then show ?thesis using grid_index [of x W "y - 1" H] xy pos
        by (auto simp: grid_adjacent_def fd_manhattan_def fd_abs_diff_u32_def)
    next
      case 4
      then show ?thesis using grid_index [of x W "y + 1" H] xy pos
        by (auto simp: grid_adjacent_def fd_manhattan_def fd_abs_diff_u32_def)
    qed
  next
    assume j: "j < W * H \<and> grid_adjacent W i j"
    define x' y' where "x' = j mod W" and "y' = j div W"
    have xy': "x' < W" "y' < H" "j = y' * W + x'"
      using grid_index_inv [of j W H] j by (simp_all add: x'_def y'_def)
    have "fd_manhattan x y x' y' = 1"
      using j by (simp add: grid_adjacent_def x_def y_def x'_def y'_def)
    then show "j \<in> set (grid_cands W H i)"
      by (rule manhattan_1_cases) (use xy xy' pos up in \<open>auto simp: grid_cands_def\<close>)
  qed
qed

lemma neighbor_count_eq:
  fixes w i ov prev nxt
  defines "L \<equiv> filter (\<lambda>j. j \<noteq> prev \<and> has_overlay w ov j) (grid_cands (grid_width w) (grid_height w) i)"
  shows "fd_neighbor_count_with_overlay w i ov prev nxt = (length L, if L = [] then nxt else last L)"
proof -
  have block: "neighbor_block w ov prev g c (length M, if M = [] then nxt else last M) =
      (let M' = M @ filter (\<lambda>j. j \<noteq> prev \<and> has_overlay w ov j) (if g then [c] else [])
       in (length M', if M' = [] then nxt else last M'))" for g c M
    by (simp add: neighbor_block_def)
  show ?thesis
    using block [of _ _ "[]"] block
    unfolding L_def fd_neighbor_count_with_overlay_def grid_cands_def Let_def
    by (simp only: list.size if_True filter_append append_assoc append_Nil simp_thms)
qed

lemma adjacent_terrain_iff:
  assumes "i < grid_width w * grid_height w"
  shows "fd_adjacent_terrain w i t \<longleftrightarrow>
    (\<exists>j < grid_width w * grid_height w. grid_adjacent (grid_width w) i j \<and> terrain_at w j = t)"
proof -
  have "fd_adjacent_terrain w i t
      \<longleftrightarrow> (\<exists>j \<in> set (grid_cands (grid_width w) (grid_height w) i). terrain_at w j = t)"
    by (auto simp: fd_adjacent_terrain_def grid_cands_def Let_def)
  then show ?thesis using grid_cands_iff [OF assms] by blast
qed

section \<open>Walks in a graph of maximum degree two\<close>

locale neighbor_graph =
  fixes N :: "nat \<Rightarrow> nat set"
  assumes N_sym: "j \<in> N i \<Longrightarrow> i \<in> N j" and N_irrefl: "i \<notin> N i"
begin

text \<open>\<open>trail prev p\<close>: from \<open>hd p\<close> every tile has its successor as its only neighbour other than
  the tile before it, and the last tile has none.\<close>

fun trail :: "nat set \<Rightarrow> nat list \<Rightarrow> bool" where
  "trail prev [] = False"
| "trail prev [a] = (N a - prev = {})"
| "trail prev (a # b # p) = (N a - prev = {b} \<and> trail {a} (b # p))"

lemma trail_nth:
  assumes "trail prev p" and "Suc k < length p"
  shows "N (p ! k) - (if k = 0 then prev else {p ! (k - 1)}) = {p ! Suc k}"
  using assms
proof (induction prev p arbitrary: k rule: trail.induct)
  case (3 prev a b p)
  then show ?case
  proof (cases k)
    case (Suc m)
    have "N ((b # p) ! m) - (if m = 0 then {a} else {(b # p) ! (m - 1)}) = {(b # p) ! Suc m}"
      by (rule "3.IH") (use "3.prems" Suc in auto)
    then show ?thesis using Suc by (cases m) auto
  qed (use 3 in simp)
qed auto

lemma trail_step: "trail prev p \<Longrightarrow> Suc k < length p \<Longrightarrow> p ! Suc k \<in> N (p ! k)"
  using trail_nth [of prev p k] by auto

lemma trail_back_step: "trail prev p \<Longrightarrow> Suc k < length p \<Longrightarrow> p ! k \<in> N (p ! Suc k)"
  using trail_step N_sym by blast

lemma trail_skip:
  assumes "trail prev p" "Suc (Suc k) < length p" shows "p ! Suc (Suc k) \<noteq> p ! k"
  using trail_nth [OF assms(1,2)] by auto

lemma trail_neighbors:
  assumes "trail prev p" and "Suc k < length p"
  shows "N (p ! k) \<subseteq> (if k = 0 then prev else {p ! (k - 1)}) \<union> {p ! Suc k}"
  using trail_nth [OF assms] by blast

lemma trail_distinct:
  assumes t: "trail {} p"
  shows "distinct p"
proof -
  have "\<forall>i<j. p ! i \<noteq> p ! j" if "j < length p" for j
    using that
  proof (induction j rule: less_induct)
    case (less j)
    show ?case
    proof (intro allI impI notI)
      fix i assume ij: "i < j" and eq: "p ! i = p ! j"
      have earlier: "p ! a \<noteq> p ! b" if "a < b" "b < j" for a b
        using less that by auto
      obtain j' where j': "j = Suc j'" using ij by (cases j) auto
      have si: "Suc i < length p" using ij less.prems by simp
      have prior: "p ! j' \<in> N (p ! i)"
        using trail_back_step [OF t, of j'] less.prems j' eq by simp
      have "p ! j' \<noteq> p ! i" using prior N_irrefl by auto
      then have ij': "i < j'" using ij j' by (cases "i = j'") auto
      from prior trail_neighbors [OF t si]
      have "(0 < i \<and> p ! j' = p ! (i - 1)) \<or> p ! j' = p ! Suc i" by (auto split: if_splits)
      then show False
      proof
        assume "0 < i \<and> p ! j' = p ! (i - 1)"
        moreover have "i - 1 < j'" "j' < j" using ij' j' by simp_all
        ultimately show False using earlier [of "i - 1" j'] by simp
      next
        assume e: "p ! j' = p ! Suc i"
        then have "j' = Suc i" using earlier [of "Suc i" j'] ij' j' by (cases "Suc i < j'") auto
        then show False using trail_skip [OF t, of i] less.prems j' eq by auto
      qed
    qed
  qed
  then show ?thesis
    by (auto simp: distinct_conv_nth) (metis linorder_neqE_nat)
qed

lemma trail_subset:
  assumes "trail prev p" and "hd p \<in> V" and "\<And>a. a \<in> V \<Longrightarrow> N a \<subseteq> V"
  shows "set p \<subseteq> V"
  using assms
proof (induction prev p rule: trail.induct)
  case (3 prev a b p)
  then have "b \<in> V" by auto
  then show ?case using 3 by auto
qed auto

text \<open>A trail through as many vertices as there are visits all of them.\<close>

lemma trail_covers:
  assumes "trail {} p" "hd p \<in> V" "\<And>a. a \<in> V \<Longrightarrow> N a \<subseteq> V" "finite V" "length p = card V"
  shows "set p = V"
proof (rule card_subset_eq [OF assms(4) trail_subset [OF assms(1,2,3)]])
  show "card (set p) = card V"
    using trail_distinct [OF assms(1)] assms(5) by (simp add: distinct_card)
qed

end

section \<open>The overlay graphs of a world\<close>

definition overlay_tiles :: "fd_world \<Rightarrow> u32 \<Rightarrow> nat set" where
  "overlay_tiles w ov = {i. i < grid_width w * grid_height w \<and> has_overlay w ov i}"

definition overlay_nbrs :: "fd_world \<Rightarrow> u32 \<Rightarrow> nat \<Rightarrow> nat set" where
  "overlay_nbrs w ov i = (if i \<in> overlay_tiles w ov
     then {j \<in> overlay_tiles w ov. grid_adjacent (grid_width w) i j} else {})"

interpretation overlay: neighbor_graph "overlay_nbrs w ov" for w ov
  by unfold_locales (auto simp: overlay_nbrs_def grid_adjacent_irrefl grid_adjacent_sym split: if_splits)

lemma finite_overlay_tiles [simp]: "finite (overlay_tiles w ov)"
  by (simp add: overlay_tiles_def)

lemma overlay_nbrs_subset: "overlay_nbrs w ov a \<subseteq> overlay_tiles w ov"
  by (auto simp: overlay_nbrs_def)

lemma overlay_neighbor_count:
  assumes i: "i \<in> overlay_tiles w ov" and W: "1 < grid_width w"
    and n: "fd_neighbor_count_with_overlay w i ov prev nxt = (n, k)"
  shows "n = card (overlay_nbrs w ov i - {prev})"
    and "n = 1 \<Longrightarrow> overlay_nbrs w ov i - {prev} = {k}"
proof -
  let ?c = "grid_cands (grid_width w) (grid_height w) i"
  let ?L = "filter (\<lambda>j. j \<noteq> prev \<and> has_overlay w ov j) ?c"
  have S: "set ?L = overlay_nbrs w ov i - {prev}"
    using i grid_cands_iff [of i "grid_width w" "grid_height w"]
    by (auto simp: overlay_nbrs_def overlay_tiles_def)
  have D: "distinct ?L" using distinct_grid_cands [OF W] by simp
  have nk: "n = length ?L" "k = (if ?L = [] then nxt else last ?L)"
    using n by (simp_all add: neighbor_count_eq)
  show "n = card (overlay_nbrs w ov i - {prev})"
    using nk(1) distinct_card [OF D] S by simp
  assume "n = 1"
  then obtain a where "?L = [a]" using nk(1) by (cases ?L) auto
  then show "overlay_nbrs w ov i - {prev} = {k}" using S nk(2) by auto
qed

end
