(* ===== verification/FD_Routes.thy ===== *)
theory FD_Routes
  imports FD_Path
begin

text \<open>
  What the river and road checks of the validator establish.  An accepted river is one simple
  orthogonal path over all river tiles that climbs strictly from its outlet beside the sea to a
  source in the hills; an accepted road is one simple path over all road tiles between the two
  settlements, over land, that meets the river at most once.
\<close>

unbundle bit_operations_syntax

lemma scan_tiles_all:
  assumes "scan_tiles f is a = Some b" and "\<And>i a a'. f i a = Some a' \<Longrightarrow> P i"
  shows "\<forall>i\<in>set is. P i"
  using assms(1) by (induction "is" arbitrary: a) (auto split: option.splits dest: assms(2))

lemma scan_tiles_sum:
  assumes "scan_tiles f is a = Some b"
    and "\<And>i a a'. f i a = Some a' \<Longrightarrow> g a' = g a + (if P i then 1 else 0)"
  shows "g b = g a + count_tiles P is"
  using assms(1)
proof (induction "is" arbitrary: a)
  case (Cons i "is")
  then obtain a' where "f i a = Some a'" "scan_tiles f is a' = Some b"
    by (auto split: option.splits)
  then show ?case using Cons.IH [of a'] assms(2) [of i a a'] by simp
qed simp

lemma scan_tiles_pick:
  assumes "scan_tiles f is a = Some b"
    and "\<And>i a a'. f i a = Some a' \<Longrightarrow> g a' = g a \<or> (snd (g a') = i \<and> P i)"
  shows "g b = g a \<or> (snd (g b) \<in> set is \<and> P (snd (g b)))"
  using assms(1)
proof (induction "is" arbitrary: a)
  case (Cons i "is")
  then obtain a' where "f i a = Some a'" "scan_tiles f is a' = Some b"
    by (auto split: option.splits)
  then show ?case using Cons.IH [of a'] assms(2) [of i a a'] by auto
qed simp

text \<open>Consecutive members of a list are related.\<close>

fun linked :: "('a \<Rightarrow> 'a \<Rightarrow> bool) \<Rightarrow> 'a list \<Rightarrow> bool" where
  "linked R (a # b # p) = (R a b \<and> linked R (b # p))"
| "linked R p = True"

lemma linked_Cons: "linked R (a # p) \<longleftrightarrow> (p = [] \<or> (R a (hd p) \<and> linked R p))"
  by (cases p) auto

lemma linked_mono: "linked R p \<Longrightarrow> (\<And>a b. R a b \<Longrightarrow> S a b) \<Longrightarrow> linked S p"
  by (induction R p rule: linked.induct) auto

lemma trail_first:
  "overlay.trail w ov prev p \<Longrightarrow> prev \<inter> overlay_nbrs w ov (hd p) = {} \<Longrightarrow> overlay.trail w ov {} p"
  by (induction prev p rule: overlay.trail.induct) auto

lemma trail_linked:
  "overlay.trail w ov prev p \<Longrightarrow> linked (grid_adjacent (grid_width w)) p"
  by (induction prev p rule: overlay.trail.induct)
    (auto simp: overlay_nbrs_def split: if_splits)

definition grid_ok :: "fd_world \<Rightarrow> bool" where
  "grid_ok w \<longleftrightarrow> 1 < grid_width w \<and> unat (w_tile_count w) = grid_width w * grid_height w"

lemma overlay_tiles_scan:
  "grid_ok w \<Longrightarrow> count_tiles (has_overlay w ov) [0..<unat (w_tile_count w)] = card (overlay_tiles w ov)"
  by (simp add: grid_ok_def count_tiles_card overlay_tiles_def)

lemma sentinel_not_tile:
  assumes "grid_ok w" shows "UINT32_MAX \<notin> overlay_tiles w ov"
  using assms unat_lt_u32 [of "w_tile_count w"] by (auto simp: grid_ok_def overlay_tiles_def)

section \<open>The river\<close>

abbreviation river_tiles :: "fd_world \<Rightarrow> nat set" where
  "river_tiles w \<equiv> overlay_tiles w FD_TILE_OVERLAY_RIVER"

abbreviation elevation :: "fd_world \<Rightarrow> nat \<Rightarrow> int" where
  "elevation w i \<equiv> sint (tl_elevation_cm (tile_at w i))"

lemma river_walk_trail:
  assumes "grid_ok w" and "cur \<in> river_tiles w"
    and "river_walk w count visited prev cur = Some (v, c)"
  shows "\<exists>p. overlay.trail w FD_TILE_OVERLAY_RIVER {prev} p \<and> hd p = cur \<and> last p = c \<and> p \<noteq> [] \<and>
     v + 1 = visited + length p \<and> linked (\<lambda>a b. elevation w a < elevation w b) p"
  using assms
proof (induction w count visited prev cur rule: river_walk.induct)
  case (1 w count visited prev cur)
  obtain n k where nk: "fd_neighbor_count_with_overlay w cur FD_TILE_OVERLAY_RIVER prev UINT32_MAX = (n, k)"
    by (cases "fd_neighbor_count_with_overlay w cur FD_TILE_OVERLAY_RIVER prev UINT32_MAX") auto
  have W: "1 < grid_width w" using 1(2) by (simp add: grid_ok_def)
  note nbrs = overlay_neighbor_count [OF 1(3) W nk]
  show ?case
  proof (cases "n = 0")
    case True
    then have "overlay_nbrs w FD_TILE_OVERLAY_RIVER cur - {prev} = {}"
      using nbrs(1) finite_subset [OF overlay_nbrs_subset finite_overlay_tiles] by simp
    moreover have "v = visited" "c = cur" using 1(4) nk True by (auto simp: river_walk.simps)
    ultimately show ?thesis by (intro exI [of _ "[cur]"]) auto
  next
    case False
    with 1(4) nk have n1: "n = 1" and el: "elevation w cur < elevation w k"
      and le: "\<not> visited + 1 > count" and rest: "river_walk w count (visited + 1) cur k = Some (v, c)"
      by (simp_all add: river_walk.simps [of w count visited prev cur] not_le not_less split: if_splits)
    have k: "overlay_nbrs w FD_TILE_OVERLAY_RIVER cur - {prev} = {k}" using nbrs(2) n1 by simp
    then have kR: "k \<in> river_tiles w" using overlay_nbrs_subset by blast
    have "\<exists>p. overlay.trail w FD_TILE_OVERLAY_RIVER {cur} p \<and> hd p = k \<and> last p = c \<and> p \<noteq> [] \<and>
       v + 1 = (visited + 1) + length p \<and> linked (\<lambda>a b. elevation w a < elevation w b) p"
      using 1(1) [OF nk [symmetric] refl] False n1 el le 1(2) kR rest by simp
    then obtain p where p: "overlay.trail w FD_TILE_OVERLAY_RIVER {cur} p" "hd p = k" "last p = c"
      "p \<noteq> []" "v + 1 = (visited + 1) + length p" "linked (\<lambda>a b. elevation w a < elevation w b) p" by blast
    then obtain q where "p = k # q" by (cases p) auto
    with p k el show ?thesis by (intro exI [of _ "cur # p"]) auto
  qed
qed

definition river_tile_ok :: "fd_world \<Rightarrow> nat \<Rightarrow> bool" where
  "river_tile_ok w i \<longleftrightarrow>
     (has_overlay w FD_TILE_OVERLAY_RIVER i \<longrightarrow>
        terrain_at w i \<noteq> FD_TERRAIN_WATER \<and> terrain_at w i \<noteq> FD_TERRAIN_SETTLEMENT) \<and>
     (has_overlay w FD_TILE_RIVER_OUTLET i \<longrightarrow>
        has_overlay w FD_TILE_OVERLAY_RIVER i \<and> fd_adjacent_terrain w i FD_TERRAIN_WATER)"

lemma river_tile_facts:
  assumes "river_tile w i a = Some b"
  shows "river_tile_ok w i"
    and "ra_count b = ra_count a + (if has_overlay w FD_TILE_OVERLAY_RIVER i then 1 else 0)"
    and "ra_outlet_count b = ra_outlet_count a + (if has_overlay w FD_TILE_RIVER_OUTLET i then 1 else 0)"
    and "(ra_outlet_count b, ra_outlet b) = (ra_outlet_count a, ra_outlet a) \<or>
      (snd (ra_outlet_count b, ra_outlet b) = i \<and> has_overlay w FD_TILE_RIVER_OUTLET i)"
  using assms by (auto simp: river_tile_def river_tile_ok_def Let_def split: if_splits)

lemma minimum_water_distance_le:
  assumes "i < unat (w_tile_count w)" "terrain_at w i = FD_TERRAIN_WATER"
  shows "minimum_water_distance w x y \<le> fd_manhattan x y (i mod grid_width w) (i div grid_width w)"
proof -
  let ?d = "\<lambda>j. fd_manhattan x y (j mod grid_width w) (j div grid_width w)"
  let ?f = "\<lambda>j m. if terrain_at w j = FD_TERRAIN_WATER then
              let distance = ?d j in if distance < m then distance else m else m"
  have mono: "fold ?f js m \<le> m" for js m
    by (induction js arbitrary: m) (auto simp: Let_def intro: order_trans less_imp_le)
  have "fold ?f js m \<le> ?d i" if "i \<in> set js" for js m
    using that
  proof (induction js arbitrary: m)
    case (Cons j js)
    show ?case
    proof (cases "j = i")
      case True
      have "?f j m \<le> ?d i" using True assms(2) by (simp add: Let_def)
      with mono [of js "?f j m"] show ?thesis by (simp only: fold_Cons comp_apply)
    qed (use Cons in simp)
  qed simp
  then show ?thesis unfolding minimum_water_distance_def using assms(1) by simp
qed

text \<open>The contract of an accepted river: its tiles in order from the outlet to the source.\<close>

definition river_course :: "fd_world \<Rightarrow> nat \<Rightarrow> nat \<Rightarrow> nat list \<Rightarrow> bool" where
  "river_course w n outlet p \<longleftrightarrow>
     distinct p \<and> set p = river_tiles w \<and> length p = n \<and> 9 \<le> n \<and> hd p = outlet \<and>
     linked (grid_adjacent (grid_width w)) p \<and>
     linked (\<lambda>a b. elevation w a < elevation w b) p \<and>
     fd_adjacent_terrain w outlet FD_TERRAIN_WATER \<and> terrain_at w (last p) = FD_TERRAIN_HILLS \<and>
     (\<forall>i\<in>set p. terrain_at w i \<noteq> FD_TERRAIN_WATER \<and> terrain_at w i \<noteq> FD_TERRAIN_SETTLEMENT) \<and>
     overlay_tiles w FD_TILE_RIVER_OUTLET = {outlet} \<and>
     (\<forall>i < grid_width w * grid_height w. terrain_at w i = FD_TERRAIN_WATER \<longrightarrow>
        8 \<le> fd_manhattan (last p mod grid_width w) (last p div grid_width w)
               (i mod grid_width w) (i div grid_width w))"

lemma fd_validate_river_course:
  assumes g: "grid_ok w" and r: "fd_validate_river w = Some (n, outlet)"
  shows "\<exists>p. river_course w n outlet p"
proof -
  let ?is = "[0..<unat (w_tile_count w)]"
  let ?a0 = "\<lparr>ra_count = 0, ra_endpoints = 0, ra_outlet_count = 0, ra_outlet = UINT32_MAX\<rparr>"
  from r obtain a where scan: "scan_tiles (river_tile w) ?is ?a0 = Some a"
    by (cases "scan_tiles (river_tile w) ?is ?a0") (simp_all add: fd_validate_river_def)
  note r' = r [unfolded fd_validate_river_def scan option.case]
  from r' have a: "9 \<le> ra_count a" "ra_outlet_count a = 1"
    by (simp_all only: not_less if_split_eq1 split: if_splits) simp_all
  obtain v c where walk: "river_walk w (ra_count a) 1 UINT32_MAX (ra_outlet a) = Some (v, c)"
    using r' by (cases "river_walk w (ra_count a) 1 UINT32_MAX (ra_outlet a)") (auto split: if_splits)
  note r'' = r' [unfolded walk option.case prod.case]
  then have v: "v = ra_count a"
    and hills: "terrain_at w c = FD_TERRAIN_HILLS"
    and far: "8 \<le> minimum_water_distance w (c mod grid_width w) (c div grid_width w)"
    and out: "n = ra_count a" "outlet = ra_outlet a"
    by (simp_all add: not_less split: if_splits)
  have tiles: "i \<in> set ?is \<longleftrightarrow> i < grid_width w * grid_height w" for i
    using g by (simp add: grid_ok_def)
  have "\<forall>i\<in>set ?is. river_tile_ok w i"
    by (rule scan_tiles_all [OF scan]) (rule river_tile_facts(1))
  then have ok: "river_tile_ok w i" if "i < grid_width w * grid_height w" for i
    using that tiles by simp
  have "ra_count a = ra_count ?a0 + count_tiles (has_overlay w FD_TILE_OVERLAY_RIVER) ?is"
    by (rule scan_tiles_sum [OF scan]) (rule river_tile_facts(2))
  then have n: "n = card (river_tiles w)" using out by (simp add: overlay_tiles_scan [OF g])
  have "ra_outlet_count a = ra_outlet_count ?a0 + count_tiles (has_overlay w FD_TILE_RIVER_OUTLET) ?is"
    by (rule scan_tiles_sum [OF scan]) (rule river_tile_facts(3))
  then have one: "card (overlay_tiles w FD_TILE_RIVER_OUTLET) = 1"
    using a(2) by (simp add: overlay_tiles_scan [OF g])
  have "(ra_outlet_count a, ra_outlet a) = (ra_outlet_count ?a0, ra_outlet ?a0) \<or>
      (snd (ra_outlet_count a, ra_outlet a) \<in> set ?is \<and>
       has_overlay w FD_TILE_RIVER_OUTLET (snd (ra_outlet_count a, ra_outlet a)))"
    by (rule scan_tiles_pick [OF scan, of "\<lambda>a. (ra_outlet_count a, ra_outlet a)"]) (rule river_tile_facts(4))
  then have outlet: "outlet \<in> overlay_tiles w FD_TILE_RIVER_OUTLET"
    using tiles out a(2) by (simp add: overlay_tiles_def)
  then have oR: "outlet \<in> river_tiles w" and sea: "fd_adjacent_terrain w outlet FD_TERRAIN_WATER"
    using ok by (auto simp: overlay_tiles_def river_tile_ok_def)
  obtain p where p: "overlay.trail w FD_TILE_OVERLAY_RIVER {UINT32_MAX} p" "hd p = outlet" "last p = c"
    "length p = n" "p \<noteq> []" and rise: "linked (\<lambda>a b. elevation w a < elevation w b) p"
    using river_walk_trail [OF g _ walk] oR out v by auto
  have t: "overlay.trail w FD_TILE_OVERLAY_RIVER {} p"
    using trail_first [OF p(1)] sentinel_not_tile [OF g] overlay_nbrs_subset by blast
  have set: "set p = river_tiles w"
    by (rule overlay.trail_covers [OF t]) (use p oR n overlay_nbrs_subset in auto)
  have "river_course w n outlet p"
    unfolding river_course_def
  proof (intro conjI ballI allI impI)
    show "overlay_tiles w FD_TILE_RIVER_OUTLET = {outlet}"
      using one outlet by (auto simp: card_1_singleton_iff)
  next
    fix i assume i: "i < grid_width w * grid_height w" "terrain_at w i = FD_TERRAIN_WATER"
    have "i < unat (w_tile_count w)" using i(1) g by (simp add: grid_ok_def)
    from order_trans [OF far minimum_water_distance_le [OF this i(2)]]
    show "8 \<le> fd_manhattan (last p mod grid_width w) (last p div grid_width w)
               (i mod grid_width w) (i div grid_width w)"
      by (simp only: p(3))
  qed (use p rise set sea hills a out ok overlay.trail_distinct [OF t] trail_linked [OF t] in
    \<open>auto simp: overlay_tiles_def river_tile_ok_def\<close>)
  then show ?thesis ..
qed

section \<open>The road\<close>

abbreviation road_tiles :: "fd_world \<Rightarrow> nat set" where
  "road_tiles w \<equiv> overlay_tiles w FD_TILE_OVERLAY_ROAD_CANDIDATE"

abbreviation entity_tile :: "fd_world \<Rightarrow> nat \<Rightarrow> nat" where
  "entity_tile w k \<equiv> unat (en_y (w_entities w ! k)) * grid_width w + unat (en_x (w_entities w ! k))"

lemma road_walk_trail:
  assumes "grid_ok w" and "cur \<in> road_tiles w"
    and "road_walk w count visited prev cur pr ce = Some (v, c, e)"
  shows "\<exists>p. overlay.trail w FD_TILE_OVERLAY_ROAD_CANDIDATE {prev} p \<and> hd p = cur \<and> last p = c \<and>
     p \<noteq> [] \<and> v + 1 = visited + length p"
  using assms
proof (induction w count visited prev cur pr ce rule: road_walk.induct)
  case (1 w count visited prev cur pr ce)
  obtain n k where nk:
    "fd_neighbor_count_with_overlay w cur FD_TILE_OVERLAY_ROAD_CANDIDATE prev UINT32_MAX = (n, k)"
    by (cases "fd_neighbor_count_with_overlay w cur FD_TILE_OVERLAY_ROAD_CANDIDATE prev UINT32_MAX") auto
  have W: "1 < grid_width w" using 1(2) by (simp add: grid_ok_def)
  note nbrs = overlay_neighbor_count [OF 1(3) W nk]
  show ?case
  proof (cases "n = 0")
    case True
    then have "overlay_nbrs w FD_TILE_OVERLAY_ROAD_CANDIDATE cur - {prev} = {}"
      using nbrs(1) finite_subset [OF overlay_nbrs_subset finite_overlay_tiles] by simp
    moreover have "v = visited" "c = cur" using 1(4) nk True by (auto simp: road_walk.simps)
    ultimately show ?thesis by (intro exI [of _ "[cur]"]) auto
  next
    case False
    let ?nr = "has_overlay w FD_TILE_OVERLAY_RIVER k"
    let ?ce = "if ?nr \<and> \<not> pr then ce + 1 else ce"
    from False 1(4) nk have n1: "n = 1" and le: "\<not> visited + 1 > count"
      by (simp_all add: road_walk.simps [of w count visited prev cur] Let_def not_le not_less split: if_splits)
    with 1(4) nk have rest: "road_walk w count (visited + 1) cur k ?nr ?ce = Some (v, c, e)"
      by (simp add: road_walk.simps [of w count visited prev cur] Let_def)
    have k: "overlay_nbrs w FD_TILE_OVERLAY_ROAD_CANDIDATE cur - {prev} = {k}" using nbrs(2) n1 by simp
    then have kR: "k \<in> road_tiles w" using overlay_nbrs_subset by blast
    have "\<exists>p. overlay.trail w FD_TILE_OVERLAY_ROAD_CANDIDATE {cur} p \<and> hd p = k \<and> last p = c \<and>
       p \<noteq> [] \<and> v + 1 = (visited + 1) + length p"
      using 1(1) [OF nk [symmetric] refl _ _ refl refl] False n1 le 1(2) kR rest by simp
    then obtain p where p: "overlay.trail w FD_TILE_OVERLAY_ROAD_CANDIDATE {cur} p" "hd p = k"
      "last p = c" "p \<noteq> []" "v + 1 = (visited + 1) + length p" by blast
    then obtain q where "p = k # q" by (cases p) auto
    with p k show ?thesis by (intro exI [of _ "cur # p"]) auto
  qed
qed

definition road_tile_ok :: "fd_world \<Rightarrow> nat \<Rightarrow> bool" where
  "road_tile_ok w i \<longleftrightarrow>
     (has_overlay w FD_TILE_OVERLAY_ROAD_CANDIDATE i \<longrightarrow> terrain_at w i \<noteq> FD_TERRAIN_WATER) \<and>
     (has_overlay w FD_TILE_ROAD_CROSSING i \<longrightarrow>
        has_overlay w FD_TILE_OVERLAY_ROAD_CANDIDATE i \<and> has_overlay w FD_TILE_OVERLAY_RIVER i)"

lemma road_tile_facts:
  assumes "road_tile w i a = Some b"
  shows "road_tile_ok w i"
    and "rd_count b = rd_count a + (if has_overlay w FD_TILE_OVERLAY_ROAD_CANDIDATE i then 1 else 0)"
    and "rd_explicit_crossings b =
      rd_explicit_crossings a + (if has_overlay w FD_TILE_ROAD_CROSSING i then 1 else 0)"
    and "rd_river_intersections b = rd_river_intersections a +
      (if has_overlay w FD_TILE_OVERLAY_ROAD_CANDIDATE i \<and> has_overlay w FD_TILE_OVERLAY_RIVER i
       then 1 else 0)"
  using assms by (auto simp: road_tile_def road_tile_ok_def Let_def split: if_splits)

text \<open>The contract of an accepted road.\<close>

definition road_course :: "fd_world \<Rightarrow> nat \<Rightarrow> nat \<Rightarrow> nat list \<Rightarrow> bool" where
  "road_course w n crossings p \<longleftrightarrow>
     distinct p \<and> set p = road_tiles w \<and> length p = n \<and> 2 \<le> n \<and>
     linked (grid_adjacent (grid_width w)) p \<and>
     {hd p, last p} = {entity_tile w 1, entity_tile w 2} \<and>
     (\<forall>i\<in>set p. terrain_at w i \<noteq> FD_TERRAIN_WATER) \<and>
     card (road_tiles w \<inter> river_tiles w) = crossings \<and> crossings \<le> 1 \<and>
     overlay_tiles w FD_TILE_ROAD_CROSSING = road_tiles w \<inter> river_tiles w"

lemma fd_validate_road_course:
  assumes g: "grid_ok w" and r: "fd_validate_road w = Some (n, crossings)"
  shows "\<exists>p. road_course w n crossings p"
proof -
  let ?is = "[0..<unat (w_tile_count w)]"
  let ?a0 = "\<lparr>rd_count = 0, rd_endpoints = 0, rd_start = UINT32_MAX,
              rd_explicit_crossings = 0, rd_river_intersections = 0\<rparr>"
  have xy: "unat (en_x (w_entities w ! 1)) < grid_width w" "unat (en_y (w_entities w ! 1)) < grid_height w"
    "unat (en_x (w_entities w ! 2)) < grid_width w" "unat (en_y (w_entities w ! 2)) < grid_height w"
    using r by (simp_all add: fd_validate_road_def Let_def not_le word_less_nat_alt split: if_splits)
  from r xy obtain a where scan: "scan_tiles (road_tile w) ?is ?a0 = Some a"
    by (cases "scan_tiles (road_tile w) ?is ?a0")
      (simp_all add: fd_validate_road_def Let_def split: if_splits)
  have r': "fd_validate_road w =
      (if rd_count a < 2 \<or> rd_endpoints a \<noteq> 2 \<or> rd_explicit_crossings a > 1 \<or>
          rd_river_intersections a > 1 \<or>
          \<not> has_overlay w FD_TILE_OVERLAY_ROAD_CANDIDATE (entity_tile w 1) \<or>
          \<not> has_overlay w FD_TILE_OVERLAY_ROAD_CANDIDATE (entity_tile w 2) then None
       else case road_walk w (rd_count a) 1 UINT32_MAX (rd_start a)
               (has_overlay w FD_TILE_OVERLAY_RIVER (rd_start a)) 0 of
              None \<Rightarrow> None
            | Some (visited, current, crossing_entries) \<Rightarrow>
                if visited \<noteq> rd_count a \<or>
                   \<not> ((rd_start a = entity_tile w 1 \<and> current = entity_tile w 2) \<or>
                      (rd_start a = entity_tile w 2 \<and> current = entity_tile w 1)) then None
                else if crossing_entries > 1 \<or> rd_explicit_crossings a \<noteq> rd_river_intersections a \<or>
                        crossing_entries \<noteq> rd_river_intersections a then None
                else Some (rd_count a, crossing_entries))"
  proof -
    have "\<not> wc_width (w_config w) \<le> en_x (w_entities w ! 1)"
      "\<not> wc_height (w_config w) \<le> en_y (w_entities w ! 1)"
      "\<not> wc_width (w_config w) \<le> en_x (w_entities w ! 2)"
      "\<not> wc_height (w_config w) \<le> en_y (w_entities w ! 2)"
      using xy by (simp_all add: word_le_nat_alt)
    then show ?thesis
      by (simp only: fd_validate_road_def Let_def scan option.case simp_thms if_False)
  qed
  from r r' have a: "2 \<le> rd_count a" "rd_river_intersections a \<le> 1"
    and ends: "has_overlay w FD_TILE_OVERLAY_ROAD_CANDIDATE (entity_tile w 1)"
      "has_overlay w FD_TILE_OVERLAY_ROAD_CANDIDATE (entity_tile w 2)"
    by (simp_all add: not_less split: if_splits)
  obtain v c e where walk: "road_walk w (rd_count a) 1 UINT32_MAX (rd_start a)
      (has_overlay w FD_TILE_OVERLAY_RIVER (rd_start a)) 0 = Some (v, c, e)"
    using r r' by (cases "road_walk w (rd_count a) 1 UINT32_MAX (rd_start a)
      (has_overlay w FD_TILE_OVERLAY_RIVER (rd_start a)) 0") (auto split: if_splits)
  from r [unfolded r' walk option.case prod.case]
  have v: "v = rd_count a" "n = rd_count a" "crossings = e" "e = rd_river_intersections a"
      "rd_explicit_crossings a = rd_river_intersections a"
    and se: "(rd_start a = entity_tile w 1 \<and> c = entity_tile w 2) \<or>
             (rd_start a = entity_tile w 2 \<and> c = entity_tile w 1)"
    by (simp_all split: if_splits)
  have tiles: "i \<in> set ?is \<longleftrightarrow> i < grid_width w * grid_height w" for i
    using g by (simp add: grid_ok_def)
  have "\<forall>i\<in>set ?is. road_tile_ok w i"
    by (rule scan_tiles_all [OF scan]) (rule road_tile_facts(1))
  then have ok: "road_tile_ok w i" if "i < grid_width w * grid_height w" for i
    using that tiles by simp
  have "rd_count a = rd_count ?a0 + count_tiles (has_overlay w FD_TILE_OVERLAY_ROAD_CANDIDATE) ?is"
    by (rule scan_tiles_sum [OF scan]) (rule road_tile_facts(2))
  then have n: "n = card (road_tiles w)" using v by (simp add: overlay_tiles_scan [OF g])
  have "rd_explicit_crossings a =
      rd_explicit_crossings ?a0 + count_tiles (has_overlay w FD_TILE_ROAD_CROSSING) ?is"
    by (rule scan_tiles_sum [OF scan]) (rule road_tile_facts(3))
  then have ex: "card (overlay_tiles w FD_TILE_ROAD_CROSSING) = crossings"
    using v by (simp add: overlay_tiles_scan [OF g])
  have "rd_river_intersections a = rd_river_intersections ?a0 + count_tiles
      (\<lambda>i. has_overlay w FD_TILE_OVERLAY_ROAD_CANDIDATE i \<and> has_overlay w FD_TILE_OVERLAY_RIVER i) ?is"
    by (rule scan_tiles_sum [OF scan]) (rule road_tile_facts(4))
  moreover have "{i. i < unat (w_tile_count w) \<and> has_overlay w FD_TILE_OVERLAY_ROAD_CANDIDATE i \<and>
      has_overlay w FD_TILE_OVERLAY_RIVER i} = road_tiles w \<inter> river_tiles w"
    using g by (auto simp: overlay_tiles_def grid_ok_def)
  ultimately have isect: "card (road_tiles w \<inter> river_tiles w) = crossings"
    using v by (simp add: count_tiles_card)
  have sR: "rd_start a \<in> road_tiles w"
    using se ends grid_index [OF xy(1,2)] grid_index [OF xy(3,4)] by (auto simp: overlay_tiles_def)
  obtain p where p: "overlay.trail w FD_TILE_OVERLAY_ROAD_CANDIDATE {UINT32_MAX} p"
    "hd p = rd_start a" "last p = c" "length p = n" "p \<noteq> []"
    using road_walk_trail [OF g sR walk] v by auto
  have t: "overlay.trail w FD_TILE_OVERLAY_ROAD_CANDIDATE {} p"
    using trail_first [OF p(1)] sentinel_not_tile [OF g] overlay_nbrs_subset by blast
  have set: "set p = road_tiles w"
    by (rule overlay.trail_covers [OF t]) (use p sR n overlay_nbrs_subset in auto)
  have cross: "overlay_tiles w FD_TILE_ROAD_CROSSING = road_tiles w \<inter> river_tiles w"
    by (rule card_subset_eq) (use ok ex isect in \<open>auto simp: overlay_tiles_def road_tile_ok_def\<close>)
  have "{hd p, last p} = {entity_tile w 1, entity_tile w 2}"
    using se unfolding p(2,3) by (elim disjE conjE) (simp_all only: insert_commute)
  moreover have "\<forall>i\<in>set p. terrain_at w i \<noteq> FD_TERRAIN_WATER"
    using ok unfolding set by (simp add: overlay_tiles_def road_tile_ok_def)
  ultimately have "road_course w n crossings p"
    unfolding road_course_def
    using p(4) set a v isect cross overlay.trail_distinct [OF t] trail_linked [OF t] by simp
  then show ?thesis ..
qed

section \<open>The route properties\<close>

text \<open>C29: an accepted river is one simple orthogonal path through all river tiles: it starts at the
  only outlet, beside water, climbs strictly, ends in hills at least eight steps from any water and
  never enters water or a settlement.\<close>

theorem river_is_one_rising_path:
  assumes "grid_ok w" and "fd_validate_river w = Some (n, outlet)"
  shows "\<exists>p. river_course w n outlet p"
  using assms by (rule fd_validate_river_course)

definition river_sample :: fd_world where
  "river_sample = grid_world 10 1
     (grid_tile 1 0 0 # grid_tile 2 5 1 # map (\<lambda>k. grid_tile 2 1 (of_nat k)) [2..<9] @ [grid_tile 4 1 9]) []"

theorem river_is_one_rising_path_witness: "\<exists>p. river_course river_sample 9 1 p"
proof (rule river_is_one_rising_path)
  show "grid_ok river_sample" by code_simp
  show "fd_validate_river river_sample = Some (9, 1)" by code_simp
qed

text \<open>C30: an accepted road is one simple orthogonal path over land through all road tiles, from one
  settlement to the other; the tiles flagged as crossings are exactly those it shares with the river,
  and there is at most one.\<close>

theorem road_is_one_path_between_settlements:
  assumes "grid_ok w" and "fd_validate_road w = Some (n, crossings)"
  shows "\<exists>p. road_course w n crossings p"
  using assms by (rule fd_validate_road_course)

definition road_sample :: fd_world where
  "road_sample = grid_world 4 1
     [grid_tile 6 2 1, grid_tile 2 11 1, grid_tile 2 2 1, grid_tile 6 2 1]
     [blank_entity, blank_entity, blank_entity\<lparr>en_x := 3\<rparr>]"

theorem road_is_one_path_between_settlements_witness: "\<exists>p. road_course road_sample 4 1 p"
proof (rule road_is_one_path_between_settlements)
  show "grid_ok road_sample" by code_simp
  show "fd_validate_road road_sample = Some (4, 1)" by code_simp
qed

end
