(* ===== verification/FD_Context.thy ===== *)
theory FD_Context
  imports FD_Types "HOL-Library.Multiset"
begin

text \<open>
  Contexts of \<^verbatim>\<open>src/core/fd_core.c\<close>: configuration defaults, versions, creation and destruction,
  and the accounting allocator every handle is carved from.  The client's allocator callbacks are
  parameters: functions on the state \<open>'u\<close> behind the \<open>user\<close> pointer, returning whether the pointer
  they gave is not \<open>NULL\<close>.  A block of memory is the model's value itself, so a block is identified
  by its size.  The counters are the C atomics read and written by one thread at a time.
\<close>

record 'u fd_allocator =
  al_struct_size :: u32
  al_abi_version :: u32
  al_allocate :: "('u \<Rightarrow> u64 \<Rightarrow> bool \<times> 'u) option"
  al_deallocate :: "('u \<Rightarrow> u64 \<Rightarrow> 'u) option"
  al_user :: 'u

record 'u fd_context_config =
  cc_struct_size :: u32
  cc_abi_version :: u32
  cc_allocator :: "'u fd_allocator"
  cc_max_file_bytes :: u64
  cc_max_live_world_bytes :: u64
  cc_reserved :: "u32 list"

record fd_allocation_stats =
  as_struct_size :: u32
  as_abi_version :: u32
  as_allocation_calls :: u64
  as_deallocation_calls :: u64
  as_live_bytes :: u64
  as_peak_live_bytes :: u64

text \<open>\<open>cx_id\<close> is the address of the context; handles point to it.\<close>

record 'u fd_context =
  cx_id :: nat
  cx_allocate :: "'u \<Rightarrow> u64 \<Rightarrow> bool \<times> 'u"
  cx_deallocate :: "'u \<Rightarrow> u64 \<Rightarrow> 'u"
  cx_allocator_user :: 'u
  cx_max_file_bytes :: u64
  cx_max_live_world_bytes :: u64
  cx_allocation_calls :: u64
  cx_deallocation_calls :: u64
  cx_live_bytes :: u64
  cx_peak_live_bytes :: u64
  cx_live_handles :: u32

record fd_version =
  vn_struct_size :: u32
  vn_api_major :: u16
  vn_api_minor :: u16
  vn_api_patch :: u16
  vn_generator_major :: u16
  vn_generator_minor :: u16
  vn_save_major :: u16
  vn_save_minor :: u16
  vn_replay_major :: u16
  vn_replay_minor :: u16

section \<open>Defaults and versions\<close>

abbreviation (input) FD_DEFAULT_MAX_FILE_BYTES :: u64 where "FD_DEFAULT_MAX_FILE_BYTES \<equiv> 67108864"
abbreviation (input) FD_DEFAULT_MAX_LIVE_WORLD_BYTES :: u64 where
  "FD_DEFAULT_MAX_LIVE_WORLD_BYTES \<equiv> 4194304"

text \<open>\<open>null_user\<close> is the state behind the \<open>NULL\<close> user pointer that \<open>memset\<close> leaves.\<close>

definition fd_context_config_init ::
    "'u \<Rightarrow> 'u fd_context_config option \<Rightarrow> fd_result \<times> 'u fd_context_config option" where
  "fd_context_config_init null_user out =
     (case out of
        None \<Rightarrow> (FD_ERR_INVALID_ARGUMENT, None)
      | Some _ \<Rightarrow>
          (FD_OK, Some \<lparr>cc_struct_size = 88, cc_abi_version = FD_ABI_VERSION,
             cc_allocator = \<lparr>al_struct_size = 32, al_abi_version = FD_ABI_VERSION,
                al_allocate = None, al_deallocate = None, al_user = null_user\<rparr>,
             cc_max_file_bytes = FD_DEFAULT_MAX_FILE_BYTES,
             cc_max_live_world_bytes = FD_DEFAULT_MAX_LIVE_WORLD_BYTES,
             cc_reserved = replicate 8 0\<rparr>))"

definition fd_world_config_init :: "fd_world_config option \<Rightarrow> fd_result \<times> fd_world_config option" where
  "fd_world_config_init out =
     (case out of
        None \<Rightarrow> (FD_ERR_INVALID_ARGUMENT, None)
      | Some _ \<Rightarrow>
          (FD_OK, Some \<lparr>wc_struct_size = 76, wc_abi_version = FD_ABI_VERSION, wc_width = 48,
             wc_height = 24, wc_attempt_budget = FD_MAX_GENERATION_ATTEMPTS,
             wc_generator_version = FD_GENERATOR_VERSION, wc_ruleset_version = FD_RULESET_VERSION,
             wc_forest_density_ppm = 220000, wc_hill_density_ppm = 120000,
             wc_wetland_density_ppm = 80000, wc_reference_mode = 1, wc_reserved = replicate 8 0\<rparr>))"

definition fd_get_version :: "fd_version option \<Rightarrow> fd_result \<times> fd_version option" where
  "fd_get_version out =
     (case out of
        None \<Rightarrow> (FD_ERR_INVALID_SIZE, None)
      | Some v \<Rightarrow>
          if vn_struct_size v < 24 then (FD_ERR_INVALID_SIZE, Some v)
          else (FD_OK, Some (v\<lparr>vn_api_major := FD_API_VERSION_MAJOR,
                  vn_api_minor := FD_API_VERSION_MINOR, vn_api_patch := FD_API_VERSION_PATCH,
                  vn_generator_major := 1, vn_generator_minor := 0,
                  vn_save_major := FD_SAVE_VERSION_MAJOR, vn_save_minor := FD_SAVE_VERSION_MINOR,
                  vn_replay_major := FD_REPLAY_VERSION_MAJOR,
                  vn_replay_minor := FD_REPLAY_VERSION_MINOR\<rparr>)))"

section \<open>The accounting allocator\<close>

definition fd_context_alloc :: "'u fd_context \<Rightarrow> u64 \<Rightarrow> bool \<times> 'u fd_context" where
  "fd_context_alloc ctx n =
     (if n = 0 then (False, ctx)
      else case cx_allocate ctx (cx_allocator_user ctx) n of
        (False, u) \<Rightarrow> (False, ctx\<lparr>cx_allocator_user := u\<rparr>)
      | (True, u) \<Rightarrow>
          let live = cx_live_bytes ctx + n; peak = cx_peak_live_bytes ctx
          in (True, ctx\<lparr>cx_allocator_user := u,
                       cx_allocation_calls := cx_allocation_calls ctx + 1,
                       cx_live_bytes := live,
                       cx_peak_live_bytes := (if live > peak then live else peak)\<rparr>))"

definition fd_context_free :: "'u fd_context \<Rightarrow> u64 \<Rightarrow> 'u fd_context" where
  "fd_context_free ctx n =
     ctx\<lparr>cx_allocator_user := cx_deallocate ctx (cx_allocator_user ctx) n,
         cx_deallocation_calls := cx_deallocation_calls ctx + 1,
         cx_live_bytes := cx_live_bytes ctx - n\<rparr>"

definition handle_acquire :: "'u fd_context \<Rightarrow> 'u fd_context" where
  "handle_acquire ctx = ctx\<lparr>cx_live_handles := cx_live_handles ctx + 1\<rparr>"

definition handle_release :: "'u fd_context \<Rightarrow> 'u fd_context" where
  "handle_release ctx = ctx\<lparr>cx_live_handles := cx_live_handles ctx - 1\<rparr>"

section \<open>Creation, destruction and statistics\<close>

text \<open>
  The default callbacks are \<open>malloc\<close> and \<open>free\<close>, parameters on the same state; \<open>SIZE_MAX\<close> is the
  largest 64-bit value, so the size check of \<open>fd_default_allocate\<close> never fires.  \<open>address\<close> is the
  block the new context lives in.
\<close>

definition fd_default_allocate :: "('u \<Rightarrow> u64 \<Rightarrow> bool \<times> 'u) \<Rightarrow> 'u \<Rightarrow> u64 \<Rightarrow> bool \<times> 'u" where
  "fd_default_allocate malloc user n = (if n > - 1 then (False, user) else malloc user n)"

definition fd_default_deallocate :: "('u \<Rightarrow> 'u) \<Rightarrow> 'u \<Rightarrow> u64 \<Rightarrow> 'u" where
  "fd_default_deallocate free user n = free user"

definition fd_context_create ::
    "('u \<Rightarrow> u64 \<Rightarrow> bool \<times> 'u) \<Rightarrow> ('u \<Rightarrow> 'u) \<Rightarrow> nat \<Rightarrow> 'u fd_context_config option
       \<Rightarrow> 'u fd_context option option \<Rightarrow> diag
       \<Rightarrow> (fd_result \<times> diag) \<times> 'u fd_context option option" where
  "fd_context_create malloc free address config out diag =
     (if out = None then
        (fd_diag_set diag FD_ERR_INVALID_ARGUMENT FD_FIELD_NONE 0 (str ''context output is null''), None)
      else if \<not> fd_input_struct_valid (map_option (\<lambda>c. (cc_struct_size c, cc_abi_version c)) config) 88 then
        (fd_diag_set diag FD_ERR_INVALID_SIZE FD_FIELD_STRUCT_SIZE 0
           (str ''invalid context configuration size or ABI''), Some None)
      else
        let c = the config; a = cc_allocator c in
        if \<not> fd_input_struct_valid (Some (al_struct_size a, al_abi_version a)) 32 then
          (fd_diag_set diag FD_ERR_INVALID_SIZE FD_FIELD_STRUCT_SIZE 0
             (str ''invalid allocator size or ABI''), Some None)
        else if \<not> fd_reserved_zero (cc_reserved c) then
          (fd_diag_set diag FD_ERR_INVALID_ARGUMENT FD_FIELD_RESERVED 0
             (str ''context reserved fields must be zero''), Some None)
        else if (al_allocate a = None) \<noteq> (al_deallocate a = None) then
          (fd_diag_set diag FD_ERR_INVALID_ARGUMENT FD_FIELD_NONE 0
             (str ''allocator callbacks must be supplied together''), Some None)
        else if cc_max_file_bytes c < 4096 \<or> cc_max_live_world_bytes c < 65536 then
          (fd_diag_set diag FD_ERR_OUT_OF_RANGE FD_FIELD_BUFFER_CAPACITY 0
             (str ''context byte limits are too small''), Some None)
        else
          let allocate = (case al_allocate a of Some f \<Rightarrow> f | None \<Rightarrow> fd_default_allocate malloc);
              deallocate = (case al_deallocate a of Some f \<Rightarrow> f | None \<Rightarrow> fd_default_deallocate free)
          in case allocate (al_user a) 80 of
               (False, user) \<Rightarrow>
                 (fd_diag_set diag FD_ERR_OUT_OF_MEMORY FD_FIELD_NONE 0
                    (str ''context allocation failed''), Some None)
             | (True, user) \<Rightarrow>
                 (fd_diag_ok diag,
                  Some (Some \<lparr>cx_id = address, cx_allocate = allocate, cx_deallocate = deallocate,
                    cx_allocator_user = user, cx_max_file_bytes = cc_max_file_bytes c,
                    cx_max_live_world_bytes = cc_max_live_world_bytes c, cx_allocation_calls = 0,
                    cx_deallocation_calls = 0, cx_live_bytes = 0, cx_peak_live_bytes = 0,
                    cx_live_handles = 0\<rparr>)))"

text \<open>The last component is the allocator state after the context's own block went back to it.\<close>

definition fd_context_destroy ::
    "'u fd_context option option \<Rightarrow> diag
       \<Rightarrow> (fd_result \<times> diag) \<times> 'u fd_context option option \<times> 'u option" where
  "fd_context_destroy context_ptr diag =
     (case context_ptr of
        None \<Rightarrow> (fd_diag_set diag FD_ERR_INVALID_ARGUMENT FD_FIELD_NONE 0
                   (str ''context pointer is null''), None, None)
      | Some None \<Rightarrow> (fd_diag_ok diag, Some None, None)
      | Some (Some ctx) \<Rightarrow>
          if cx_live_handles ctx \<noteq> 0 then
            (fd_diag_set diag FD_ERR_BUSY FD_FIELD_NONE 0
               (str ''context still owns live handles''), Some (Some ctx), None)
          else (fd_diag_ok diag, Some None, Some (cx_deallocate ctx (cx_allocator_user ctx) 80)))"

definition fd_context_get_allocation_stats ::
    "'u fd_context option \<Rightarrow> fd_allocation_stats option \<Rightarrow> diag
       \<Rightarrow> (fd_result \<times> diag) \<times> fd_allocation_stats option" where
  "fd_context_get_allocation_stats context out diag =
     (case context of
        None \<Rightarrow> (fd_diag_set diag FD_ERR_INVALID_ARGUMENT FD_FIELD_NONE 0 (str ''context is null''), out)
      | Some ctx \<Rightarrow>
          if \<not> fd_output_struct_valid (map_option (\<lambda>s. (as_struct_size s, as_abi_version s)) out) 40 then
            (fd_diag_set diag FD_ERR_INVALID_SIZE FD_FIELD_STRUCT_SIZE 0
               (str ''invalid allocation stats output''), out)
          else (fd_diag_ok diag,
                map_option (\<lambda>s. s\<lparr>as_allocation_calls := cx_allocation_calls ctx,
                  as_deallocation_calls := cx_deallocation_calls ctx,
                  as_live_bytes := cx_live_bytes ctx,
                  as_peak_live_bytes := cx_peak_live_bytes ctx\<rparr>) out))"

section \<open>Accounting\<close>

text \<open>\<open>ledger ctx M\<close>: a client of the context has come to it with live blocks of the sizes \<open>M\<close>.\<close>

inductive ledger :: "'u fd_context \<Rightarrow> u64 multiset \<Rightarrow> bool" where
  fresh: "cx_live_bytes ctx = 0 \<Longrightarrow> cx_allocation_calls ctx = 0 \<Longrightarrow> cx_deallocation_calls ctx = 0 \<Longrightarrow>
     cx_peak_live_bytes ctx = 0 \<Longrightarrow> ledger ctx {#}"
| alloc: "ledger ctx M \<Longrightarrow> fd_context_alloc ctx n = (True, ctx') \<Longrightarrow> ledger ctx' (add_mset n M)"
| alloc_fail: "ledger ctx M \<Longrightarrow> fd_context_alloc ctx n = (False, ctx') \<Longrightarrow> ledger ctx' M"
| free: "ledger ctx (add_mset n M) \<Longrightarrow> ledger (fd_context_free ctx n) M"

lemma alloc_fields:
  assumes "fd_context_alloc ctx n = (ok, ctx')"
  shows "cx_live_bytes ctx' = (if ok then cx_live_bytes ctx + n else cx_live_bytes ctx)"
    "cx_allocation_calls ctx' = (if ok then cx_allocation_calls ctx + 1 else cx_allocation_calls ctx)"
    "cx_deallocation_calls ctx' = cx_deallocation_calls ctx"
    "cx_live_handles ctx' = cx_live_handles ctx" "cx_id ctx' = cx_id ctx"
    "cx_max_file_bytes ctx' = cx_max_file_bytes ctx"
    "cx_max_live_world_bytes ctx' = cx_max_live_world_bytes ctx"
    "cx_allocate ctx' = cx_allocate ctx" "cx_deallocate ctx' = cx_deallocate ctx"
    "cx_peak_live_bytes ctx' =
       (if ok then max (cx_peak_live_bytes ctx) (cx_live_bytes ctx + n) else cx_peak_live_bytes ctx)"
  using assms
  by (auto simp: fd_context_alloc_def Let_def max_def not_le split: if_splits prod.splits bool.splits)

lemma free_fields [simp]:
  "cx_live_bytes (fd_context_free ctx n) = cx_live_bytes ctx - n"
  "cx_allocation_calls (fd_context_free ctx n) = cx_allocation_calls ctx"
  "cx_deallocation_calls (fd_context_free ctx n) = cx_deallocation_calls ctx + 1"
  "cx_live_handles (fd_context_free ctx n) = cx_live_handles ctx"
  "cx_id (fd_context_free ctx n) = cx_id ctx"
  "cx_max_file_bytes (fd_context_free ctx n) = cx_max_file_bytes ctx"
  "cx_max_live_world_bytes (fd_context_free ctx n) = cx_max_live_world_bytes ctx"
  "cx_allocate (fd_context_free ctx n) = cx_allocate ctx"
  "cx_deallocate (fd_context_free ctx n) = cx_deallocate ctx"
  "cx_peak_live_bytes (fd_context_free ctx n) = cx_peak_live_bytes ctx"
  by (simp_all add: fd_context_free_def)

lemma handle_fields [simp]:
  "cx_live_handles (handle_acquire ctx) = cx_live_handles ctx + 1"
  "cx_live_handles (handle_release ctx) = cx_live_handles ctx - 1"
  "cx_live_bytes (handle_acquire ctx) = cx_live_bytes ctx"
  "cx_live_bytes (handle_release ctx) = cx_live_bytes ctx"
  "cx_allocation_calls (handle_acquire ctx) = cx_allocation_calls ctx"
  "cx_allocation_calls (handle_release ctx) = cx_allocation_calls ctx"
  "cx_deallocation_calls (handle_acquire ctx) = cx_deallocation_calls ctx"
  "cx_deallocation_calls (handle_release ctx) = cx_deallocation_calls ctx"
  "cx_id (handle_acquire ctx) = cx_id ctx" "cx_id (handle_release ctx) = cx_id ctx"
  "cx_max_file_bytes (handle_acquire ctx) = cx_max_file_bytes ctx"
  "cx_max_file_bytes (handle_release ctx) = cx_max_file_bytes ctx"
  "cx_max_live_world_bytes (handle_acquire ctx) = cx_max_live_world_bytes ctx"
  "cx_max_live_world_bytes (handle_release ctx) = cx_max_live_world_bytes ctx"
  "cx_allocate (handle_acquire ctx) = cx_allocate ctx" "cx_allocate (handle_release ctx) = cx_allocate ctx"
  by (simp_all add: handle_acquire_def handle_release_def)

section \<open>The books of a context\<close>

text \<open>What an operation that gives back all it took leaves unchanged of its context (the allocator
  included), and what one leaves that takes \<open>n\<close> bytes and \<open>h\<close> handles more than it gives back.\<close>

definition books :: "'u fd_context \<Rightarrow> _" where
  "books ctx = (cx_live_bytes ctx, cx_live_handles ctx, cx_id ctx, cx_max_file_bytes ctx,
     cx_max_live_world_bytes ctx, cx_allocate ctx)"

definition charged :: "u64 \<Rightarrow> u32 \<Rightarrow> 'u fd_context \<Rightarrow> 'u fd_context \<Rightarrow> bool" where
  "charged n h ctx ctx' \<longleftrightarrow> books ctx' = (cx_live_bytes ctx + n, cx_live_handles ctx + h, cx_id ctx,
     cx_max_file_bytes ctx, cx_max_live_world_bytes ctx, cx_allocate ctx)"

lemma charged_none: "charged 0 0 ctx ctx' \<longleftrightarrow> books ctx' = books ctx"
  by (simp add: charged_def books_def)

lemma charged_refl [simp]: "charged 0 0 ctx ctx"
  by (simp add: charged_none)

lemma charged_trans: "charged n h a b \<Longrightarrow> charged m k b c \<Longrightarrow> charged (n + m) (h + k) a c"
  by (simp add: charged_def books_def add.assoc)

lemma charged_alloc: "fd_context_alloc ctx n = (ok, ctx') \<Longrightarrow> charged (if ok then n else 0) 0 ctx ctx'"
  by (simp add: charged_def books_def alloc_fields)

lemma charged_free: "charged (- n) 0 ctx (fd_context_free ctx n)"
  by (simp add: charged_def books_def)

lemma charged_handle: "charged 0 1 ctx (handle_acquire ctx)" "charged 0 (- 1) ctx (handle_release ctx)"
  by (simp_all add: charged_def books_def)

lemma charged_fields:
  assumes "charged n h ctx ctx'"
  shows "cx_live_bytes ctx' = cx_live_bytes ctx + n" "cx_live_handles ctx' = cx_live_handles ctx + h"
    "cx_id ctx' = cx_id ctx" "cx_max_file_bytes ctx' = cx_max_file_bytes ctx"
    "cx_max_live_world_bytes ctx' = cx_max_live_world_bytes ctx" "cx_allocate ctx' = cx_allocate ctx"
  using assms by (simp_all add: charged_def books_def)

lemma ledger_accounts:
  assumes "ledger ctx M"
  shows "cx_live_bytes ctx = (\<Sum>n\<in>#M. n)"
    and "cx_allocation_calls ctx = cx_deallocation_calls ctx + of_nat (size M)"
proof -
  have "cx_live_bytes ctx = (\<Sum>n\<in>#M. n) \<and>
      cx_allocation_calls ctx = cx_deallocation_calls ctx + of_nat (size M)"
    using assms
  proof induction
    case (alloc ctx M n ctx')
    then show ?case using alloc_fields [OF alloc.hyps(2)] by (simp add: add.commute)
  next
    case (alloc_fail ctx M n ctx')
    then show ?case using alloc_fields [OF alloc_fail.hyps(2)] by simp
  qed simp_all
  then show "cx_live_bytes ctx = (\<Sum>n\<in>#M. n)"
    "cx_allocation_calls ctx = cx_deallocation_calls ctx + of_nat (size M)" by simp_all
qed

text \<open>After any sequence of allocations, failed allocations and frees of live blocks, the
  context's live-byte counter is the total size of the live blocks and the allocation counter leads
  the deallocation counter by their number; with nothing live the books are balanced.\<close>

theorem allocation_books_exact:
  assumes "ledger ctx M"
  shows "cx_live_bytes ctx = (\<Sum>n\<in>#M. n) \<and>
    cx_allocation_calls ctx - cx_deallocation_calls ctx = of_nat (size M)"
  using ledger_accounts [OF assms] by simp

definition sample_context :: "u64 fd_context" where
  "sample_context =
     \<lparr>cx_id = 1, cx_allocate = (\<lambda>u n. (n \<le> u, if n \<le> u then u - n else u)),
      cx_deallocate = (\<lambda>u n. u + n), cx_allocator_user = 10000000, cx_max_file_bytes = 67108864,
      cx_max_live_world_bytes = 4194304, cx_allocation_calls = 0, cx_deallocation_calls = 0,
      cx_live_bytes = 0, cx_peak_live_bytes = 0, cx_live_handles = 0\<rparr>"

lemma ledger_sample:
  "ledger (fd_context_free (snd (fd_context_alloc (snd (fd_context_alloc sample_context 100)) 20)) 100) {#20#}"
proof -
  have "ledger sample_context {#}" by (rule ledger.fresh) (simp_all add: sample_context_def)
  then have "ledger (snd (fd_context_alloc sample_context 100)) {#100#}"
    by (rule ledger.alloc) (simp add: fd_context_alloc_def sample_context_def)
  then have "ledger (snd (fd_context_alloc (snd (fd_context_alloc sample_context 100)) 20)) {#20, 100#}"
    by (rule ledger.alloc) (simp add: fd_context_alloc_def sample_context_def)
  then have "ledger (snd (fd_context_alloc (snd (fd_context_alloc sample_context 100)) 20)) (add_mset 100 {#20#})"
    by (simp add: add_mset_commute)
  then show ?thesis by (rule ledger.free)
qed

theorem allocation_books_exact_witness:
  "cx_live_bytes (fd_context_free
     (snd (fd_context_alloc (snd (fd_context_alloc sample_context 100)) 20)) 100) = 20"
  using allocation_books_exact [OF ledger_sample] by simp

end
