(* ===== verification/FD_Hash.thy ===== *)
theory FD_Hash
  imports FD_Context
begin

text \<open>
  The canonical digests: \<open>fd_world_compute_hash\<close> of \<^verbatim>\<open>src/core/fd_core.c\<close> and the configuration
  and content digests of \<^verbatim>\<open>src/core/fd_generate.c\<close>.  A chain of updates is the list of byte strings
  fed to it.  The canonical encoding of a world is injective on everything it covers, so two worlds
  with one state hash agree on their authoritative state or collide SHA-256.
\<close>

section \<open>Digests as update chains\<close>

definition digest_parts :: "bytes list \<Rightarrow> bytes" where
  "digest_parts parts =
     fd_sha256_final_internal (foldl fd_sha256_update_internal fd_sha256_init_internal parts)"

lemma digest_parts_sha256: "digest_parts parts = sha256 (concat parts)"
  by (simp only: digest_parts_def sha256_via_updates)

lemma length_digest_parts [simp]: "length (digest_parts parts) = 32"
  by (simp add: digest_parts_sha256)

definition fd_hash_config_internal :: "fd_world_config \<Rightarrow> bytes" where
  "fd_hash_config_internal config =
     digest_parts
       (fd_store_u32_le 29 # str ''FrontierDirectorate/Config/v1'' #
        map fd_store_u32_le
          [wc_width config, wc_height config, wc_attempt_budget config,
           wc_generator_version config, wc_ruleset_version config,
           wc_forest_density_ppm config, wc_hill_density_ppm config,
           wc_wetland_density_ppm config, wc_reference_mode config, FD_RNG_REGISTRY_VERSION])"

definition pack_parts :: "fd_content_pack \<Rightarrow> bytes list" where
  "pack_parts p = [fd_store_u64_le (cp_stable_id p), take 32 (cp_sha256 p)]"

definition fd_hash_content_internal :: "fd_content_manifest \<Rightarrow> bytes" where
  "fd_hash_content_internal content =
     digest_parts
       (fd_store_u32_le 30 # str ''FrontierDirectorate/Content/v1'' #
        fd_store_u32_le (cm_pack_count content) #
        concat (map (\<lambda>i. pack_parts (the (cm_packs content) ! i)) [0..<unat (cm_pack_count content)]))"

definition tile_parts :: "fd_tile \<Rightarrow> bytes list" where
  "tile_parts t =
     [fd_store_u32_le (tl_terrain t), fd_store_u32_le (tl_overlays t),
      fd_store_u32_le (tl_elevation_cm t), fd_store_u32_le (tl_rainfall_mm t),
      fd_store_u64_le (tl_settlement_id t)]"

definition entity_parts :: "fd_entity \<Rightarrow> bytes list" where
  "entity_parts e =
     [fd_store_u64_le (en_id e), fd_store_u32_le (en_kind e), fd_store_u32_le (en_x e),
      fd_store_u32_le (en_y e), fd_store_u64_le (en_region_id e), fd_store_u64_le (en_owner_id e),
      fd_store_u32_le (en_name_length e), take (unat (en_name_length e)) (en_name e)]"

definition region_parts :: "fd_region \<Rightarrow> bytes list" where
  "region_parts r =
     [fd_store_u64_le (rg_id r), fd_store_u64_le (rg_political_owner_id r)] @
     map (\<lambda>i. fd_store_u64_le (rg_settlement_ids r ! i)) [0..<2] @
     map (\<lambda>i. fd_store_u64_le (rg_foreign_faction_ids r ! i)) [0..<FD_U01_SEAT_COUNT] @
     [fd_store_u64_le (rg_river_outlet_tile_id r), fd_store_u64_le (rg_road_start_tile_id r),
      fd_store_u64_le (rg_road_end_tile_id r), fd_store_u32_le (rg_river_tile_count r),
      fd_store_u32_le (rg_road_tile_count r)]"

definition world_parts :: "fd_world \<Rightarrow> bytes list" where
  "world_parts w =
     [fd_store_u32_le 28, str ''FrontierDirectorate/State/v1'',
      fd_store_u32_le (wc_generator_version (w_config w)),
      fd_store_u32_le (wc_ruleset_version (w_config w)),
      fd_store_u32_le FD_RNG_REGISTRY_VERSION,
      fd_store_u32_le (wc_width (w_config w)), fd_store_u32_le (wc_height (w_config w)),
      fd_store_u32_le (wc_attempt_budget (w_config w)),
      fd_store_u32_le (wc_forest_density_ppm (w_config w)),
      fd_store_u32_le (wc_hill_density_ppm (w_config w)),
      fd_store_u32_le (wc_wetland_density_ppm (w_config w)),
      fd_store_u32_le (wc_reference_mode (w_config w)),
      take 16 (w_root_seed_le w),
      fd_store_u32_le (w_content_count w)] @
     concat (map (\<lambda>i. pack_parts (w_content w ! i)) [0..<unat (w_content_count w)]) @
     [fd_store_u64_le (w_tick w), fd_store_u32_le (w_tile_count w)] @
     concat (map (\<lambda>i. tile_parts (w_tiles w ! i)) [0..<unat (w_tile_count w)]) @
     [fd_store_u32_le 6] @
     concat (map (\<lambda>i. entity_parts (w_entities w ! i)) [0..<FD_U01_ENTITY_COUNT]) @
     region_parts (w_region w)"

definition fd_world_compute_hash :: "fd_world option \<Rightarrow> fd_result \<times> fd_world option" where
  "fd_world_compute_hash world =
     (case world of
        None \<Rightarrow> (FD_ERR_INVALID_ARGUMENT, None)
      | Some w \<Rightarrow> (FD_OK, Some (w\<lparr>w_state_sha256 := digest_parts (world_parts w)\<rparr>)))"

section \<open>The canonical encoding\<close>

definition world_bytes :: "fd_world \<Rightarrow> bytes" where
  "world_bytes w = concat (world_parts w)"

definition state_hash :: "fd_world \<Rightarrow> bytes" where
  "state_hash w = sha256 (world_bytes w)"

lemma digest_world_parts: "digest_parts (world_parts w) = state_hash w"
  by (simp add: state_hash_def world_bytes_def digest_parts_sha256)

definition hash_consistent :: "fd_world \<Rightarrow> bool" where
  "hash_consistent w \<longleftrightarrow> w_state_sha256 w = state_hash w"

text \<open>The sizes of the fixed arrays of the C structs.\<close>

definition world_shape :: "fd_world \<Rightarrow> bool" where
  "world_shape w \<longleftrightarrow>
     length (w_root_seed_le w) = 16 \<and> unat (w_content_count w) \<le> 16 \<and>
     length (w_content w) = unat (w_content_count w) \<and>
     (\<forall>p\<in>set (w_content w). length (cp_sha256 p) = 32) \<and>
     length (w_tiles w) = unat (w_tile_count w) \<and> length (w_entities w) = 6 \<and>
     (\<forall>e\<in>set (w_entities w). length (en_name e) = 48 \<and> unat (en_name_length e) < 48) \<and>
     length (rg_settlement_ids (w_region w)) = 2 \<and> length (rg_foreign_faction_ids (w_region w)) = 2 \<and>
     length (w_configuration_sha256 w) = 32 \<and> length (w_content_sha256 w) = 32 \<and>
     length (w_state_sha256 w) = 32 \<and> length (wc_reserved (w_config w)) = 8"

text \<open>Everything the state hash covers.\<close>

definition entity_view :: "fd_entity \<Rightarrow> _" where
  "entity_view e = (en_id e, en_kind e, en_x e, en_y e, en_region_id e, en_owner_id e,
     en_name_length e, take (unat (en_name_length e)) (en_name e))"

definition config_view :: "fd_world_config \<Rightarrow> _" where
  "config_view c = (wc_generator_version c, wc_ruleset_version c, wc_width c, wc_height c,
     wc_attempt_budget c, wc_forest_density_ppm c, wc_hill_density_ppm c, wc_wetland_density_ppm c,
     wc_reference_mode c)"

definition hashed_state :: "fd_world \<Rightarrow> _" where
  "hashed_state w = (config_view (w_config w), w_root_seed_le w, w_content w, w_tick w, w_tiles w,
     map entity_view (w_entities w), w_region w)"

lemma append_eq_same_length:
  "length a = length c \<Longrightarrow> a @ b = c @ d \<longleftrightarrow> a = c \<and> b = d"
  by simp

lemma store_u32_inject [simp]: "fd_store_u32_le a = fd_store_u32_le b \<longleftrightarrow> a = b"
  by (metis load_store_u32_nil)

lemma store_u64_inject [simp]: "fd_store_u64_le a = fd_store_u64_le b \<longleftrightarrow> a = b"
  by (metis load_store_u64_nil)

text \<open>Two concatenations of self-delimiting encodings of equally many items.\<close>

lemma concat_prefix_free:
  assumes "length xs = length ys"
    and "\<And>x y r s. x \<in> set xs \<Longrightarrow> y \<in> set ys \<Longrightarrow> f x @ r = f y @ s \<Longrightarrow> g x = g y \<and> r = s"
    and "concat (map f xs) @ r = concat (map f ys) @ s"
  shows "map g xs = map g ys \<and> r = s"
  using assms
proof (induction xs ys rule: list_induct2)
  case (Cons x xs y ys)
  have "f x @ concat (map f xs) @ r = f y @ concat (map f ys) @ s"
    using Cons.prems(2) by simp
  then have "g x = g y" and e: "concat (map f xs) @ r = concat (map f ys) @ s"
    using Cons.prems(1) [of x y] by auto
  moreover have "map g xs = map g ys \<and> r = s"
  proof (rule Cons.IH [OF _ e])
    fix x' y' r' s' assume "x' \<in> set xs" "y' \<in> set ys" "f x' @ r' = f y' @ s'"
    then show "g x' = g y' \<and> r' = s'" using Cons.prems(1) [of x' y' r' s'] by simp
  qed
  ultimately show ?case by simp
qed simp

lemma concat_map_nth:
  "n = length xs \<Longrightarrow> concat (map (\<lambda>i. f (xs ! i)) [0..<n]) = concat (map f xs)"
proof -
  assume n: "n = length xs"
  have "map (\<lambda>i. f (xs ! i)) [0..<n] = map f (map (\<lambda>i. xs ! i) [0..<n])" by simp
  also have "\<dots> = map f xs" using n by (simp only: map_nth)
  finally show ?thesis by simp
qed

lemma pack_parts_free:
  assumes "length (cp_sha256 p) = 32" "length (cp_sha256 q) = 32"
    and "concat (pack_parts p) @ r = concat (pack_parts q) @ s"
  shows "p = q \<and> r = s"
  using assms by (cases p; cases q) (auto simp: pack_parts_def)

lemma tile_parts_free: "concat (tile_parts t) @ r = concat (tile_parts u) @ s \<Longrightarrow> t = u \<and> r = s"
  by (cases t; cases u) (auto simp: tile_parts_def)

lemma entity_parts_free:
  assumes "length (en_name e) = 48 \<and> unat (en_name_length e) < 48"
    "length (en_name f) = 48 \<and> unat (en_name_length f) < 48"
    and "concat (entity_parts e) @ r = concat (entity_parts f) @ s"
  shows "entity_view e = entity_view f \<and> r = s"
  using assms by (auto simp: entity_parts_def entity_view_def)

lemma region_parts_inject:
  assumes "length (rg_settlement_ids p) = 2" "length (rg_foreign_faction_ids p) = 2"
    "length (rg_settlement_ids q) = 2" "length (rg_foreign_faction_ids q) = 2"
    and "concat (region_parts p) = concat (region_parts q)"
  shows "p = q"
proof -
  have two: "length xs = 2 \<longleftrightarrow> (\<exists>a b. xs = [a, b])" for xs :: "u64 list"
    by (auto simp: length_Suc_conv numeral_2_eq_2)
  show ?thesis
    using assms by (cases p; cases q) (auto simp: two region_parts_def upt_rec [of _ 2])
qed

lemma world_bytes_inject:
  assumes "world_shape v" "world_shape w" and eq: "world_bytes v = world_bytes w"
  shows "hashed_state v = hashed_state w"
proof -
  define tail where "tail = (\<lambda>w :: fd_world. concat (map (concat \<circ> tile_parts) (w_tiles w)) @
    fd_store_u32_le 6 @ concat (map (concat \<circ> entity_parts) (w_entities w)) @
    concat (region_parts (w_region w)))"
  define rest where "rest = (\<lambda>w :: fd_world. concat (map (concat \<circ> pack_parts) (w_content w)) @
    fd_store_u64_le (w_tick w) @ fd_store_u32_le (w_tile_count w) @ tail w)"
  have cc: "concat (concat xs) = concat (map concat xs)" for xs :: "bytes list list"
    by (induction xs) simp_all
  have expand: "world_bytes w = fd_store_u32_le 28 @ str ''FrontierDirectorate/State/v1'' @
      fd_store_u32_le (wc_generator_version (w_config w)) @
      fd_store_u32_le (wc_ruleset_version (w_config w)) @ fd_store_u32_le FD_RNG_REGISTRY_VERSION @
      fd_store_u32_le (wc_width (w_config w)) @ fd_store_u32_le (wc_height (w_config w)) @
      fd_store_u32_le (wc_attempt_budget (w_config w)) @
      fd_store_u32_le (wc_forest_density_ppm (w_config w)) @
      fd_store_u32_le (wc_hill_density_ppm (w_config w)) @
      fd_store_u32_le (wc_wetland_density_ppm (w_config w)) @
      fd_store_u32_le (wc_reference_mode (w_config w)) @ w_root_seed_le w @
      fd_store_u32_le (w_content_count w) @ rest w" if "world_shape w" for w
    using that unfolding world_shape_def
    by (simp add: world_bytes_def world_parts_def rest_def tail_def concat_map_nth cc comp_def
        concat_map_nth [of _ "w_content w" "\<lambda>x. concat (pack_parts x)"])
  have L: "length (w_root_seed_le v) = length (w_root_seed_le w)"
    using assms(1,2) by (simp add: world_shape_def)
  have step1: "config_view (w_config v) = config_view (w_config w) \<and>
      w_root_seed_le v = w_root_seed_le w \<and> w_content_count v = w_content_count w \<and> rest v = rest w"
    using eq unfolding expand [OF assms(1)] expand [OF assms(2)] config_view_def
    by (simp add: append_eq_same_length L)
  have content: "map id (w_content v) = map id (w_content w) \<and>
      fd_store_u64_le (w_tick v) @ fd_store_u32_le (w_tile_count v) @ tail v =
      fd_store_u64_le (w_tick w) @ fd_store_u32_le (w_tile_count w) @ tail w"
  proof (rule concat_prefix_free [where f = "concat \<circ> pack_parts"])
    fix x y r s assume "x \<in> set (w_content v)" "y \<in> set (w_content w)"
      "(concat \<circ> pack_parts) x @ r = (concat \<circ> pack_parts) y @ s"
    then show "id x = id y \<and> r = s"
      using pack_parts_free [of x y r s] assms(1,2) by (simp add: world_shape_def)
  qed (use step1 assms(1,2) in \<open>simp_all add: world_shape_def rest_def\<close>)
  then have step2: "w_content v = w_content w" "w_tick v = w_tick w"
      "w_tile_count v = w_tile_count w" "tail v = tail w"
    by (simp_all add: append_eq_same_length)
  have tiles: "map id (w_tiles v) = map id (w_tiles w) \<and>
      fd_store_u32_le 6 @ concat (map (concat \<circ> entity_parts) (w_entities v)) @ concat (region_parts (w_region v)) =
      fd_store_u32_le 6 @ concat (map (concat \<circ> entity_parts) (w_entities w)) @ concat (region_parts (w_region w))"
  proof (rule concat_prefix_free [where f = "concat \<circ> tile_parts"])
    fix x y r s assume "(concat \<circ> tile_parts) x @ r = (concat \<circ> tile_parts) y @ s"
    then show "id x = id y \<and> r = s" using tile_parts_free [of x r y s] by simp
  qed (use step2 assms(1,2) in \<open>simp_all add: world_shape_def tail_def\<close>)
  have ents: "map entity_view (w_entities v) = map entity_view (w_entities w) \<and>
      concat (region_parts (w_region v)) = concat (region_parts (w_region w))"
  proof (rule concat_prefix_free [where f = "concat \<circ> entity_parts"])
    fix x y r s assume "x \<in> set (w_entities v)" "y \<in> set (w_entities w)"
      "(concat \<circ> entity_parts) x @ r = (concat \<circ> entity_parts) y @ s"
    then show "entity_view x = entity_view y \<and> r = s"
      using entity_parts_free [of x y r s] assms(1,2) by (simp add: world_shape_def)
  qed (use tiles assms(1,2) in \<open>simp_all add: world_shape_def\<close>)
  have "w_region v = w_region w"
    by (rule region_parts_inject) (use ents assms(1,2) in \<open>auto simp: world_shape_def\<close>)
  then show ?thesis
    using step1 step2 tiles ents by (simp add: hashed_state_def)
qed

lemma hashed_state_world_bytes:
  assumes "world_shape v" "world_shape w" and eq: "hashed_state v = hashed_state w"
  shows "world_bytes v = world_bytes w"
proof -
  have parts: "entity_view e = entity_view f \<Longrightarrow> entity_parts e = entity_parts f" for e f
    by (auto simp: entity_view_def entity_parts_def)
  have n: "length (w_entities v) = 6" "length (w_entities w) = 6"
    using assms(1,2) by (simp_all add: world_shape_def)
  have ents: "entity_parts (w_entities v ! i) = entity_parts (w_entities w ! i)" if "i < 6" for i
  proof (rule parts)
    have "map entity_view (w_entities v) ! i = map entity_view (w_entities w) ! i"
      using eq by (simp add: hashed_state_def)
    then show "entity_view (w_entities v ! i) = entity_view (w_entities w ! i)" using n that by simp
  qed
  have ents': "concat (map (\<lambda>i. entity_parts (w_entities v ! i)) [0..<6])
      = concat (map (\<lambda>i. entity_parts (w_entities w ! i)) [0..<6])"
    by (rule arg_cong [of _ _ concat], rule map_cong [OF refl]) (use ents in simp)
  have e: "config_view (w_config v) = config_view (w_config w)" "w_root_seed_le v = w_root_seed_le w"
    "w_content v = w_content w" "w_tick v = w_tick w" "w_tiles v = w_tiles w" "w_region v = w_region w"
    using eq by (simp_all add: hashed_state_def)
  then have "unat (w_content_count v) = unat (w_content_count w)"
    "unat (w_tile_count v) = unat (w_tile_count w)"
    using assms(1,2) by (simp_all add: world_shape_def)
  then have "w_content_count v = w_content_count w" "w_tile_count v = w_tile_count w"
    by (simp_all add: word_unat_eq_iff)
  then show ?thesis
    using e ents' by (simp add: world_bytes_def world_parts_def config_view_def)
qed

text \<open>C37: the byte string that the state hash digests is an exact encoding of the authoritative
  state: \<open>fd_world_compute_hash\<close> stores the SHA-256 of \<open>world_bytes\<close>, and two well-shaped worlds
  have the same \<open>world_bytes\<close> exactly when they agree on configuration, seed, content, tick, tiles,
  entities and region.\<close>

theorem state_hash_encoding_exact:
  assumes "world_shape v" and "world_shape w"
  shows "fd_world_compute_hash (Some v) = (FD_OK, Some (v\<lparr>w_state_sha256 := sha256 (world_bytes v)\<rparr>)) \<and>
    (world_bytes v = world_bytes w \<longleftrightarrow> hashed_state v = hashed_state w)"
  using world_bytes_inject [OF assms] hashed_state_world_bytes [OF assms]
  by (auto simp: fd_world_compute_hash_def digest_world_parts state_hash_def)

definition hash_sample :: fd_world where
  "hash_sample = grid_world 2 1 [grid_tile 1 0 0, grid_tile 2 0 5] (replicate 6 blank_entity)"

lemma hash_sample_shape: "world_shape (hash_sample\<lparr>w_tick := t\<rparr>)"
  by (simp add: hash_sample_def grid_world_def world_shape_def blank_entity_def)

theorem state_hash_encoding_exact_witness:
  "world_bytes (hash_sample\<lparr>w_tick := 0\<rparr>) \<noteq> world_bytes (hash_sample\<lparr>w_tick := 24\<rparr>)"
  using state_hash_encoding_exact [OF hash_sample_shape hash_sample_shape, of 0 24]
  by (simp add: hashed_state_def)

end
