(* ===== verification/FD_Config.thy ===== *)
theory FD_Config
  imports FD_Hash
begin

text \<open>
  The validation of a world configuration and content manifest,
  \<open>fd_validate_generation_inputs_internal\<close> of \<^verbatim>\<open>src/core/fd_generate.c\<close>, which both the generator and
  the save loader rely on, with its declarative meaning.
\<close>

definition fd_config_reserved_zero :: "fd_world_config \<Rightarrow> bool" where
  "fd_config_reserved_zero c \<longleftrightarrow> list_all (\<lambda>i. wc_reserved c ! i = 0) [0..<8]"

text \<open>The pack loop: the index of the first pack with a zero or out-of-order identifier.\<close>

definition bad_pack :: "fd_content_pack list \<Rightarrow> nat \<Rightarrow> nat option" where
  "bad_pack packs n =
     find (\<lambda>i. cp_stable_id (packs ! i) = 0 \<or>
               (i > 0 \<and> cp_stable_id (packs ! (i - 1)) \<ge> cp_stable_id (packs ! i))) [0..<n]"

definition config_header :: "fd_world_config option \<Rightarrow> (u32 \<times> u32) option" where
  "config_header = map_option (\<lambda>c. (wc_struct_size c, wc_abi_version c))"

definition manifest_header :: "fd_content_manifest option \<Rightarrow> (u32 \<times> u32) option" where
  "manifest_header = map_option (\<lambda>m. (cm_struct_size m, cm_abi_version m))"

definition fd_validate_generation_inputs_internal ::
    "fd_world_config option \<Rightarrow> fd_content_manifest option \<Rightarrow> diag \<Rightarrow> fd_result \<times> diag" where
  "fd_validate_generation_inputs_internal config content diag =
     (if \<not> fd_input_struct_valid (config_header config) 76
      then fd_diag_set diag FD_ERR_INVALID_SIZE FD_FIELD_STRUCT_SIZE 0
             (str ''invalid world configuration size or ABI'')
      else let c = the config in
      if \<not> fd_config_reserved_zero c
      then fd_diag_set diag FD_ERR_INVALID_ARGUMENT FD_FIELD_RESERVED 0
             (str ''world configuration reserved fields must be zero'')
      else if wc_width c < FD_MIN_WIDTH \<or> wc_width c > FD_MAX_WIDTH
      then fd_diag_set diag FD_ERR_OUT_OF_RANGE FD_FIELD_WIDTH (wc_width c)
             (str ''world width is outside 32..256'')
      else if wc_height c < FD_MIN_HEIGHT \<or> wc_height c > FD_MAX_HEIGHT
      then fd_diag_set diag FD_ERR_OUT_OF_RANGE FD_FIELD_HEIGHT (wc_height c)
             (str ''world height is outside 16..128'')
      else if (ucast (wc_width c) * ucast (wc_height c) :: u64) > FD_MAX_TILES
      then fd_diag_set diag FD_ERR_CAPACITY FD_FIELD_WIDTH 0
             (str ''world tile count exceeds 32768'')
      else if wc_attempt_budget c = 0 \<or> wc_attempt_budget c > FD_MAX_GENERATION_ATTEMPTS
      then fd_diag_set diag FD_ERR_OUT_OF_RANGE FD_FIELD_ATTEMPT_BUDGET (wc_attempt_budget c)
             (str ''attempt budget is outside 1..64'')
      else if wc_generator_version c \<noteq> FD_GENERATOR_VERSION \<or>
              wc_ruleset_version c \<noteq> FD_RULESET_VERSION
      then fd_diag_set diag FD_ERR_VERSION FD_FIELD_FORMAT_VERSION 0
             (str ''unsupported generator or ruleset version'')
      else if wc_reference_mode c \<noteq> 1
      then fd_diag_set diag FD_ERR_OUT_OF_RANGE FD_FIELD_RESERVED 0
             (str ''U01 requires reference mode 1'')
      else if wc_forest_density_ppm c > 1000000 \<or> wc_hill_density_ppm c > 1000000 \<or>
              wc_wetland_density_ppm c > 1000000 \<or>
              (ucast (wc_forest_density_ppm c) + ucast (wc_hill_density_ppm c) +
               ucast (wc_wetland_density_ppm c) :: u64) > 900000
      then fd_diag_set diag FD_ERR_OUT_OF_RANGE FD_FIELD_TERRAIN_DENSITY 0
             (str ''terrain densities are outside bounded ranges'')
      else if \<not> fd_input_struct_valid (manifest_header content) 24
      then fd_diag_set diag FD_ERR_INVALID_SIZE FD_FIELD_CONTENT 0
             (str ''invalid content manifest size or ABI'')
      else let m = the content in
      if cm_reserved m \<noteq> 0 \<or> cm_pack_count m > FD_MAX_CONTENT_PACKS \<or>
         (cm_pack_count m > 0 \<and> cm_packs m = None)
      then fd_diag_set diag FD_ERR_INVALID_ARGUMENT FD_FIELD_CONTENT 0
             (str ''invalid bounded content manifest'')
      else case bad_pack (the (cm_packs m)) (unat (cm_pack_count m)) of
             Some index \<Rightarrow> fd_diag_set diag FD_ERR_INVALID_ARGUMENT FD_FIELD_CONTENT (of_nat index)
                             (str ''content pack IDs must be nonzero and sorted'')
           | None \<Rightarrow> (FD_OK, diag))"

section \<open>What is accepted\<close>

definition config_ok :: "fd_world_config \<Rightarrow> bool" where
  "config_ok c \<longleftrightarrow>
     (\<forall>i<8. wc_reserved c ! i = 0) \<and>
     32 \<le> unat (wc_width c) \<and> unat (wc_width c) \<le> 256 \<and>
     16 \<le> unat (wc_height c) \<and> unat (wc_height c) \<le> 128 \<and>
     1 \<le> unat (wc_attempt_budget c) \<and> unat (wc_attempt_budget c) \<le> 64 \<and>
     wc_generator_version c = 1 \<and> wc_ruleset_version c = 1 \<and> wc_reference_mode c = 1 \<and>
     unat (wc_forest_density_ppm c) + unat (wc_hill_density_ppm c) + unat (wc_wetland_density_ppm c)
       \<le> 900000"

definition packs_ok :: "fd_content_pack list \<Rightarrow> bool" where
  "packs_ok ps \<longleftrightarrow> sorted_wrt (<) (map cp_stable_id ps) \<and> 0 \<notin> cp_stable_id ` set ps"

lemma bad_pack_None_iff:
  "bad_pack ps n = None \<longleftrightarrow>
     (\<forall>i<n. cp_stable_id (ps ! i) \<noteq> 0 \<and> (0 < i \<longrightarrow> cp_stable_id (ps ! (i - 1)) < cp_stable_id (ps ! i)))"
  by (auto simp: bad_pack_def find_None_iff not_le)

lemma bad_pack_None: "bad_pack ps (length ps) = None \<longleftrightarrow> packs_ok ps"
proof -
  let ?f = "\<lambda>i. cp_stable_id (ps ! i)"
  have "sorted_wrt (<) (map cp_stable_id ps) \<longleftrightarrow> (\<forall>i. Suc i < length ps \<longrightarrow> ?f i < ?f (Suc i))"
    by (subst sorted_wrt_iff_nth_Suc_transp) (auto intro: transpI)
  also have "\<dots> \<longleftrightarrow> (\<forall>i<length ps. 0 < i \<longrightarrow> ?f (i - 1) < ?f i)"
  proof (intro iffI allI impI)
    fix i assume "\<forall>i. Suc i < length ps \<longrightarrow> ?f i < ?f (Suc i)" "i < length ps" "0 < i"
    then show "?f (i - 1) < ?f i" by (cases i) auto
  next
    fix i assume h: "\<forall>i<length ps. 0 < i \<longrightarrow> ?f (i - 1) < ?f i" "Suc i < length ps"
    show "?f i < ?f (Suc i)" using h(1) [rule_format, of "Suc i"] h(2) by simp
  qed
  finally have s: "sorted_wrt (<) (map cp_stable_id ps) \<longleftrightarrow> (\<forall>i<length ps. 0 < i \<longrightarrow> ?f (i - 1) < ?f i)" .
  have "0 \<notin> cp_stable_id ` set ps \<longleftrightarrow> (\<forall>i<length ps. ?f i \<noteq> 0)"
    by (auto simp: image_iff) (metis in_set_conv_nth)+
  then show ?thesis unfolding bad_pack_None_iff packs_ok_def s by auto
qed

lemma product_in_range:
  assumes "unat w \<le> 256" "unat h \<le> 128"
  shows "unat (w * h :: u32) = unat w * unat h" and "unat (ucast w * ucast h :: u64) = unat w * unat h"
    and "unat w * unat h \<le> 32768"
proof -
  have le: "unat w * unat h \<le> 256 * 128" using assms by (rule mult_le_mono)
  then show "unat w * unat h \<le> 32768" by simp
  from le show "unat (w * h :: u32) = unat w * unat h"
    "unat (ucast w * ucast h :: u64) = unat w * unat h"
    by (simp_all add: unat_word_ariths)
qed

lemma density_sum:
  assumes "a \<le> 1000000" "b \<le> 1000000" "c \<le> 1000000"
  shows "unat (ucast (a :: u32) + ucast (b :: u32) + ucast (c :: u32) :: u64) = unat a + unat b + unat c"
proof -
  have "unat a \<le> 1000000" "unat b \<le> 1000000" "unat c \<le> 1000000"
    using assms by (simp_all add: word_le_nat_alt)
  then show ?thesis by (simp add: unat_word_ariths)
qed

lemma range_checks:
  fixes w h a f g e :: u32
  shows "\<not> (w < 32 \<or> w > 256) \<longleftrightarrow> 32 \<le> unat w \<and> unat w \<le> 256"
    "\<not> (h < 16 \<or> h > 128) \<longleftrightarrow> 16 \<le> unat h \<and> unat h \<le> 128"
    "\<not> (a = 0 \<or> a > 64) \<longleftrightarrow> 1 \<le> unat a \<and> unat a \<le> 64"
    "\<not> (f > 1000000 \<or> g > 1000000 \<or> e > 1000000 \<or> (ucast f + ucast g + ucast e :: u64) > 900000)
       \<longleftrightarrow> unat f + unat g + unat e \<le> 900000"
proof -
  show "\<not> (w < 32 \<or> w > 256) \<longleftrightarrow> 32 \<le> unat w \<and> unat w \<le> 256"
    "\<not> (h < 16 \<or> h > 128) \<longleftrightarrow> 16 \<le> unat h \<and> unat h \<le> 128"
    by (auto simp: word_less_nat_alt not_less)
  show "\<not> (a = 0 \<or> a > 64) \<longleftrightarrow> 1 \<le> unat a \<and> unat a \<le> 64"
    by (auto simp: word_less_nat_alt not_less unat_eq_0 [symmetric] Suc_le_eq)
  show "\<not> (f > 1000000 \<or> g > 1000000 \<or> e > 1000000 \<or> (ucast f + ucast g + ucast e :: u64) > 900000)
       \<longleftrightarrow> unat f + unat g + unat e \<le> 900000"
  proof (cases "f \<le> 1000000 \<and> g \<le> 1000000 \<and> e \<le> 1000000")
    case True
    then show ?thesis using density_sum [of f g e]
      by (auto simp: word_less_nat_alt word_le_nat_alt not_less)
  next
    case False
    then have "1000000 < unat f \<or> 1000000 < unat g \<or> 1000000 < unat e"
      by (auto simp: word_le_nat_alt not_le)
    then show ?thesis by (auto simp: word_less_nat_alt not_less)
  qed
qed

lemma inputs_OK_iff:
  assumes "cm_packs m = Some ps" and "unat (cm_pack_count m) = length ps"
  shows "fst (fd_validate_generation_inputs_internal (Some c) (Some m) diag) = FD_OK \<longleftrightarrow>
    76 \<le> wc_struct_size c \<and> wc_abi_version c = 1 \<and> config_ok c \<and>
    24 \<le> cm_struct_size m \<and> cm_abi_version m = 1 \<and> cm_reserved m = 0 \<and>
    length ps \<le> 16 \<and> packs_ok ps"
proof -
  let ?dims = "32 \<le> unat (wc_width c) \<and> unat (wc_width c) \<le> 256 \<and>
    16 \<le> unat (wc_height c) \<and> unat (wc_height c) \<le> 128"
  have reserved: "fd_config_reserved_zero c \<longleftrightarrow> (\<forall>i<8. wc_reserved c ! i = 0)"
    by (auto simp: fd_config_reserved_zero_def list_all_iff)
  have tiles: "\<not> ((ucast (wc_width c) * ucast (wc_height c) :: u64) > 32768)" if ?dims
    using that product_in_range [of "wc_width c" "wc_height c"] by (simp add: word_less_nat_alt)
  have count: "cm_pack_count m > 16 \<longleftrightarrow> \<not> length ps \<le> 16"
    using assms(2) by (auto simp: word_less_nat_alt)
  have packs: "bad_pack (the (cm_packs m)) (unat (cm_pack_count m)) = None \<longleftrightarrow> packs_ok ps"
    using assms bad_pack_None by simp
  have "fst (fd_validate_generation_inputs_internal (Some c) (Some m) diag) = FD_OK \<longleftrightarrow>
      (76 \<le> wc_struct_size c \<and> wc_abi_version c = 1) \<and> fd_config_reserved_zero c \<and>
      \<not> (wc_width c < 32 \<or> wc_width c > 256) \<and> \<not> (wc_height c < 16 \<or> wc_height c > 128) \<and>
      \<not> ((ucast (wc_width c) * ucast (wc_height c) :: u64) > 32768) \<and>
      \<not> (wc_attempt_budget c = 0 \<or> wc_attempt_budget c > 64) \<and>
      \<not> (wc_generator_version c \<noteq> 1 \<or> wc_ruleset_version c \<noteq> 1) \<and> wc_reference_mode c = 1 \<and>
      \<not> (wc_forest_density_ppm c > 1000000 \<or> wc_hill_density_ppm c > 1000000 \<or>
         wc_wetland_density_ppm c > 1000000 \<or>
         (ucast (wc_forest_density_ppm c) + ucast (wc_hill_density_ppm c) +
          ucast (wc_wetland_density_ppm c) :: u64) > 900000) \<and>
      (24 \<le> cm_struct_size m \<and> cm_abi_version m = 1) \<and>
      \<not> (cm_reserved m \<noteq> 0 \<or> cm_pack_count m > 16) \<and>
      bad_pack (the (cm_packs m)) (unat (cm_pack_count m)) = None"
    by (simp add: fd_validate_generation_inputs_internal_def config_header_def manifest_header_def
        fd_input_struct_valid_def fd_output_struct_valid_def Let_def guard_simps assms(1)
        del: not_less not_le de_Morgan_disj split del: if_split)
      (simp split: option.split)
  then show ?thesis
    unfolding range_checks reserved count packs config_ok_def using tiles by blast
qed

lemma inputs_OK_diag:
  "fst (fd_validate_generation_inputs_internal c m diag) = FD_OK \<Longrightarrow>
     fd_validate_generation_inputs_internal c m diag = (FD_OK, diag)"
  by (simp add: fd_validate_generation_inputs_internal_def Let_def guard_simps split del: if_split)
    (simp split: option.splits)

text \<open>A configuration and manifest pass validation exactly when both headers are current, the
  reserved words are zero, the grid is 32 to 256 by 16 to 128, the attempt budget 1 to 64, versions and
  mode are the supported ones, the three densities sum to at most 900000 ppm, and at most 16 content
  packs come in strictly increasing order of nonzero identifiers.\<close>

theorem generation_inputs_accepted_iff:
  assumes "cm_packs m = Some ps" and "unat (cm_pack_count m) = length ps"
  shows "fst (fd_validate_generation_inputs_internal (Some c) (Some m) diag) = FD_OK \<longleftrightarrow>
    76 \<le> wc_struct_size c \<and> wc_abi_version c = 1 \<and> config_ok c \<and>
    24 \<le> cm_struct_size m \<and> cm_abi_version m = 1 \<and> cm_reserved m = 0 \<and>
    length ps \<le> 16 \<and> packs_ok ps"
  using assms by (rule inputs_OK_iff)

theorem generation_inputs_accepted_iff_witness:
  "fst (fd_validate_generation_inputs_internal
     (Some (the (snd (fd_world_config_init (Some (w_config hash_sample))))))
     (Some \<lparr>cm_struct_size = 24, cm_abi_version = 1, cm_pack_count = 2, cm_reserved = 0,
            cm_packs = Some [\<lparr>cp_stable_id = 3, cp_sha256 = replicate 32 0\<rparr>,
                             \<lparr>cp_stable_id = 7, cp_sha256 = replicate 32 0\<rparr>]\<rparr>) None) = FD_OK"
  using generation_inputs_accepted_iff
    [of "\<lparr>cm_struct_size = 24, cm_abi_version = 1, cm_pack_count = 2, cm_reserved = 0,
            cm_packs = Some [\<lparr>cp_stable_id = 3, cp_sha256 = replicate 32 0\<rparr>,
                             \<lparr>cp_stable_id = 7, cp_sha256 = replicate 32 0\<rparr>]\<rparr>"
      "[\<lparr>cp_stable_id = 3, cp_sha256 = replicate 32 0\<rparr>, \<lparr>cp_stable_id = 7, cp_sha256 = replicate 32 0\<rparr>]"
      "the (snd (fd_world_config_init (Some (w_config hash_sample))))" None]
  by (simp add: fd_world_config_init_def config_ok_def packs_ok_def)

end
