(* ===== verification/FD_Writer.thy ===== *)
theory FD_Writer
  imports FD_Config
begin

text \<open>
  The byte writer of \<^verbatim>\<open>src/core/fd_serialize.c\<close> and the sections it frames.  A writer is the
  caller's buffer with a position in it; a sequence of write statements is the list of writer
  operations \<open>run\<close> folds.  \<open>emits f out\<close> is the contract of an operation: it appends \<open>out\<close> at the
  position, for every writer whose position lies in its buffer.  The position counts bytes of a
  buffer that exists, so it is a natural number.
\<close>

record fd_writer =
  wr_bytes :: bytes
  wr_position :: nat

definition fd_write_bytes :: "bytes \<Rightarrow> nat \<Rightarrow> fd_writer \<Rightarrow> fd_writer" where
  "fd_write_bytes bytes n writer =
     writer\<lparr>wr_bytes := blit (wr_bytes writer) (wr_position writer) (take n bytes),
            wr_position := wr_position writer + n\<rparr>"

definition fd_write_u16 :: "u16 \<Rightarrow> fd_writer \<Rightarrow> fd_writer" where
  "fd_write_u16 v writer =
     writer\<lparr>wr_bytes := blit (wr_bytes writer) (wr_position writer) (fd_store_u16_le v),
            wr_position := wr_position writer + 2\<rparr>"

definition fd_write_u32 :: "u32 \<Rightarrow> fd_writer \<Rightarrow> fd_writer" where
  "fd_write_u32 v writer =
     writer\<lparr>wr_bytes := blit (wr_bytes writer) (wr_position writer) (fd_store_u32_le v),
            wr_position := wr_position writer + 4\<rparr>"

definition fd_write_u64 :: "u64 \<Rightarrow> fd_writer \<Rightarrow> fd_writer" where
  "fd_write_u64 v writer =
     writer\<lparr>wr_bytes := blit (wr_bytes writer) (wr_position writer) (fd_store_u64_le v),
            wr_position := wr_position writer + 8\<rparr>"

definition run :: "(fd_writer \<Rightarrow> fd_writer) list \<Rightarrow> fd_writer \<Rightarrow> fd_writer" where
  "run ops writer = fold (\<lambda>f. f) ops writer"

definition fd_begin_section :: "u16 \<Rightarrow> u64 \<Rightarrow> fd_writer \<Rightarrow> nat \<times> fd_writer" where
  "fd_begin_section tag n writer =
     (let writer1 = run [fd_write_u16 tag, fd_write_u16 1, fd_write_u32 0, fd_write_u64 n] writer
      in (wr_position writer1, writer1))"

definition fd_end_section :: "nat \<Rightarrow> u64 \<Rightarrow> fd_writer \<Rightarrow> fd_writer" where
  "fd_end_section payload_position n writer =
     fd_write_bytes
       (the (snd (fd_sha256 (Some (drop payload_position (wr_bytes writer))) (unat n)
                    (Some (replicate 32 0))))) 32 writer"

text \<open>The sequence \<open>payload = fd_begin_section (...); ...; fd_end_section (...)\<close>.\<close>

definition save_section :: "u16 \<Rightarrow> u64 \<Rightarrow> (fd_writer \<Rightarrow> fd_writer) list \<Rightarrow> fd_writer \<Rightarrow> fd_writer" where
  "save_section tag n ops writer =
     (let (payload, writer1) = fd_begin_section tag n writer
      in fd_end_section payload n (run ops writer1))"

definition fd_footer_digest :: "bytes \<Rightarrow> nat \<Rightarrow> bytes" where
  "fd_footer_digest bytes n =
     digest_parts [fd_store_u32_le 34, str ''FrontierDirectorate/Save/Footer/v1'', take n bytes]"

section \<open>What operations emit\<close>

definition emit :: "bytes \<Rightarrow> fd_writer \<Rightarrow> fd_writer" where
  "emit out writer =
     writer\<lparr>wr_bytes := blit (wr_bytes writer) (wr_position writer) out,
            wr_position := wr_position writer + length out\<rparr>"

definition in_buffer :: "fd_writer \<Rightarrow> bool" where
  "in_buffer writer \<longleftrightarrow> wr_position writer \<le> length (wr_bytes writer)"

definition emits :: "(fd_writer \<Rightarrow> fd_writer) \<Rightarrow> bytes \<Rightarrow> bool" where
  "emits f out \<longleftrightarrow> (\<forall>writer. in_buffer writer \<longrightarrow> f writer = emit out writer)"

named_theorems emits_intro \<open>what writer operations emit\<close>

lemma in_buffer_emit: "in_buffer writer \<Longrightarrow> in_buffer (emit out writer)"
  by (simp add: in_buffer_def emit_def blit_def)

lemma emit_nil: "in_buffer writer \<Longrightarrow> emit [] writer = writer"
  by (simp add: in_buffer_def emit_def blit_def)

lemma emit_emit: "in_buffer writer \<Longrightarrow> emit b (emit a writer) = emit (a @ b) writer"
  by (simp add: in_buffer_def emit_def blit_def add.assoc add.left_commute add.commute)

lemma emits_bytes [emits_intro]: "n = length bytes \<Longrightarrow> emits (fd_write_bytes bytes n) bytes"
  by (simp add: emits_def emit_def fd_write_bytes_def)

lemma emits_take: "n \<le> length bytes \<Longrightarrow> emits (fd_write_bytes bytes n) (take n bytes)"
  by (simp add: emits_def emit_def fd_write_bytes_def)

lemma emits_u16 [emits_intro]: "emits (fd_write_u16 v) (fd_store_u16_le v)"
  by (simp add: emits_def emit_def fd_write_u16_def)

lemma emits_u32 [emits_intro]: "emits (fd_write_u32 v) (fd_store_u32_le v)"
  by (simp add: emits_def emit_def fd_write_u32_def)

lemma emits_u64 [emits_intro]: "emits (fd_write_u64 v) (fd_store_u64_le v)"
  by (simp add: emits_def emit_def fd_write_u64_def)

lemma emits_run_nil [emits_intro]: "emits (run []) []"
  by (simp add: emits_def run_def emit_nil)

lemma emits_run_single [emits_intro]: "emits f a \<Longrightarrow> emits (run [f]) a"
  by (simp add: emits_def run_def)

lemma emits_run_cons [emits_intro]: "emits f a \<Longrightarrow> emits (run fs) b \<Longrightarrow> emits (run (f # fs)) (a @ b)"
  by (simp add: emits_def run_def in_buffer_emit emit_emit)

lemma emits_run_list: "list_all2 emits fs outs \<Longrightarrow> emits (run fs) (concat outs)"
  by (induction rule: list_all2_induct) (simp_all add: emits_run_nil emits_run_cons)

lemma emits_run_append [emits_intro]:
  "emits (run fs) a \<Longrightarrow> emits (run gs) b \<Longrightarrow> emits (run (fs @ gs)) (a @ b)"
  by (simp add: emits_def run_def in_buffer_emit emit_emit)

lemma emits_run_map [emits_intro]:
  "(\<And>x. x \<in> set xs \<Longrightarrow> emits (f x) (g x)) \<Longrightarrow> emits (run (map f xs)) (concat (map g xs))"
proof (induction xs)
  case (Cons x xs)
  then have "emits (f x) (g x)" "emits (run (map f xs)) (concat (map g xs))" by simp_all
  then have "emits (run (f x # map f xs)) (g x @ concat (map g xs))" by (rule emits_run_cons)
  then show ?case by simp
qed (simp add: emits_run_nil)

lemma emits_apply: "emits f out \<Longrightarrow> in_buffer writer \<Longrightarrow> f writer = emit out writer"
  by (simp add: emits_def)

lemma emits_cong: "emits f a \<Longrightarrow> a = b \<Longrightarrow> emits f b"
  by simp

section \<open>Framed sections\<close>

definition section_header :: "u16 \<Rightarrow> u16 \<Rightarrow> u64 \<Rightarrow> bytes" where
  "section_header tag flags n =
     fd_store_u16_le tag @ fd_store_u16_le flags @ fd_store_u32_le 0 @ fd_store_u64_le n"

definition frame :: "u16 \<Rightarrow> bytes \<Rightarrow> bytes" where
  "frame tag payload = section_header tag 1 (of_nat (length payload)) @ payload @ sha256 payload"

lemma length_section_header [simp]: "length (section_header tag flags n) = 16"
  by (simp add: section_header_def)

lemma length_frame [simp]: "length (frame tag payload) = 48 + length payload"
  by (simp add: frame_def)

lemma drop_emit:
  "in_buffer writer \<Longrightarrow>
     take (length out) (drop (wr_position writer) (wr_bytes (emit out writer))) = out"
  by (simp add: in_buffer_def emit_def blit_def)

lemma emits_section:
  assumes "emits (run ops) payload" and "n = of_nat (length payload)" and "length payload < 2 ^ 64"
  shows "emits (save_section tag n ops) (frame tag payload)"
  unfolding emits_def
proof (intro allI impI)
  fix writer assume b: "in_buffer writer"
  let ?h = "section_header tag 1 n"
  have "emits (run [fd_write_u16 tag, fd_write_u16 1, fd_write_u32 0, fd_write_u64 n]) ?h"
    unfolding section_header_def by (intro emits_intro)
  then have opened: "fd_begin_section tag n writer = (wr_position (emit ?h writer), emit ?h writer)"
    using b by (simp add: fd_begin_section_def emits_def Let_def)
  have b1: "in_buffer (emit ?h writer)" using b by (rule in_buffer_emit)
  have body: "run ops (emit ?h writer) = emit payload (emit ?h writer)"
    using assms(1) b1 by (rule emits_apply)
  have len: "unat n = length payload"
    using assms(2,3) unat_of_nat_u64 [of "length payload"] by simp
  have "fd_end_section (wr_position (emit ?h writer)) n (emit payload (emit ?h writer)) =
      fd_write_bytes (sha256 payload) 32 (emit payload (emit ?h writer))"
    using drop_emit [OF b1, of payload] by (simp add: fd_end_section_def fd_sha256_Some len)
  also have "\<dots> = emit (sha256 payload) (emit payload (emit ?h writer))"
    using in_buffer_emit [OF b1] by (intro emits_apply [OF emits_bytes]) simp_all
  also have "\<dots> = emit (frame tag payload) writer"
    using b b1 by (simp add: emit_emit frame_def assms(2))
  finally show "save_section tag n ops writer = emit (frame tag payload) writer"
    by (simp add: save_section_def opened body)
qed

end
