(* ===== verification/FD_Save.thy ===== *)
theory FD_Save
  imports FD_Writer
begin

text \<open>
  Saving a world, from \<^verbatim>\<open>src/core/fd_serialize.c\<close>: the size computation and \<open>fd_world_save\<close> as the
  operations its writer goes through, and the file they emit: the magic, eleven framed sections
  and the footer digest.  The world's context is passed beside it.
\<close>

definition fd_save_magic :: bytes where
  "fd_save_magic = [0x46, 0x44, 0x56, 0x53, 0, 0, 0, 1]"

abbreviation (input) FD_SAVE_SECTION_COUNT :: u32 where "FD_SAVE_SECTION_COUNT \<equiv> 11"

section \<open>Sizes\<close>

definition fd_entity_section_length :: "fd_world \<Rightarrow> u64" where
  "fd_entity_section_length w =
     fold (\<lambda>index len. len + (40 + ucast (en_name_length (w_entities w ! index))))
       [0..<FD_U01_ENTITY_COUNT] 8"

definition fd_save_size_internal :: "fd_world option \<Rightarrow> u64 option \<Rightarrow> fd_result \<times> u64 option" where
  "fd_save_size_internal world out_size =
     (case world of
        None \<Rightarrow> (FD_ERR_INVALID_ARGUMENT, out_size)
      | Some w \<Rightarrow>
          if out_size = None then (FD_ERR_INVALID_ARGUMENT, out_size)
          else
            let content_length = 4 + ucast (w_content_count w) * 40;
                tile_length = 104 + ucast (w_tile_count w) * 24;
                entity_length = fd_entity_section_length w;
                payload_total = 16 + 40 + 68 + content_length + 24 + 56 + tile_length +
                                entity_length + 4 + 16 + 32;
                section_overhead = ucast FD_SAVE_SECTION_COUNT * 48
            in case fd_u64_add 8 payload_total of
                 None \<Rightarrow> (FD_ERR_CAPACITY, out_size)
               | Some t1 \<Rightarrow>
                   (case fd_u64_add t1 section_overhead of
                      None \<Rightarrow> (FD_ERR_CAPACITY, out_size)
                    | Some t2 \<Rightarrow>
                        (case fd_u64_add t2 32 of
                           None \<Rightarrow> (FD_ERR_CAPACITY, out_size)
                         | Some t3 \<Rightarrow> (FD_OK, Some t3))))"

definition fd_world_save_size ::
    "'u fd_context \<Rightarrow> fd_world option \<Rightarrow> u64 option \<Rightarrow> diag \<Rightarrow> (fd_result \<times> diag) \<times> u64 option" where
  "fd_world_save_size ctx world out_size diag =
     (if world = None \<or> out_size = None
      then (fd_diag_set diag FD_ERR_INVALID_ARGUMENT FD_FIELD_NONE 0
              (str ''world or save size output is null''), out_size)
      else
        let (result, out1) = fd_save_size_internal world out_size
        in if result \<noteq> FD_OK \<or> the out1 > cx_max_file_bytes ctx
           then (fd_diag_set diag FD_ERR_CAPACITY FD_FIELD_BUFFER_CAPACITY 0
                   (str ''canonical save exceeds configured bound''), out1)
           else (fd_diag_ok diag, out1))"

section \<open>The sections as writer operations\<close>

definition save_manifest :: "fd_writer \<Rightarrow> fd_writer" where
  "save_manifest = save_section 1 16
     [fd_write_u16 FD_SAVE_VERSION_MAJOR, fd_write_u16 FD_SAVE_VERSION_MINOR,
      fd_write_u16 FD_SAVE_VERSION_MAJOR, fd_write_u16 0,
      fd_write_u32 FD_SAVE_SECTION_COUNT, fd_write_u32 0]"

definition save_versions :: "fd_world \<Rightarrow> fd_writer \<Rightarrow> fd_writer" where
  "save_versions w = save_section 2 40
     [fd_write_u32 (ucast FD_API_VERSION_MAJOR), fd_write_u32 (ucast FD_API_VERSION_MINOR),
      fd_write_u32 (ucast FD_API_VERSION_PATCH), fd_write_u32 (wc_generator_version (w_config w)),
      fd_write_u32 (wc_ruleset_version (w_config w)), fd_write_u32 (ucast FD_SAVE_VERSION_MAJOR),
      fd_write_u32 (ucast FD_SAVE_VERSION_MINOR), fd_write_u32 (ucast FD_REPLAY_VERSION_MAJOR),
      fd_write_u32 (ucast FD_REPLAY_VERSION_MINOR), fd_write_u32 FD_RNG_REGISTRY_VERSION]"

definition save_configuration :: "fd_world \<Rightarrow> fd_writer \<Rightarrow> fd_writer" where
  "save_configuration w = save_section 3 68
     [fd_write_u32 (wc_width (w_config w)), fd_write_u32 (wc_height (w_config w)),
      fd_write_u32 (wc_attempt_budget (w_config w)), fd_write_u32 (wc_generator_version (w_config w)),
      fd_write_u32 (wc_ruleset_version (w_config w)), fd_write_u32 (wc_forest_density_ppm (w_config w)),
      fd_write_u32 (wc_hill_density_ppm (w_config w)), fd_write_u32 (wc_wetland_density_ppm (w_config w)),
      fd_write_u32 (wc_reference_mode (w_config w)), fd_write_bytes (w_configuration_sha256 w) 32]"

definition write_pack :: "fd_content_pack \<Rightarrow> fd_writer \<Rightarrow> fd_writer" where
  "write_pack p = run [fd_write_u64 (cp_stable_id p), fd_write_bytes (cp_sha256 p) 32]"

definition save_content :: "fd_world \<Rightarrow> fd_writer \<Rightarrow> fd_writer" where
  "save_content w = save_section 4 (4 + ucast (w_content_count w) * 40)
     (fd_write_u32 (w_content_count w) #
      map (\<lambda>index. write_pack (w_content w ! index)) [0..<unat (w_content_count w)])"

definition save_rng :: "fd_world \<Rightarrow> fd_writer \<Rightarrow> fd_writer" where
  "save_rng w = save_section 5 24
     [fd_write_bytes (w_root_seed_le w) 16, fd_write_u32 FD_RNG_REGISTRY_VERSION, fd_write_u32 0]"

definition save_time :: "fd_world \<Rightarrow> fd_writer \<Rightarrow> fd_writer" where
  "save_time w = save_section 6 56
     [fd_write_u64 (w_tick w), fd_write_u64 1, fd_write_u64 FD_OPERATIONAL_TICKS, fd_write_u64 168,
      fd_write_u64 720, fd_write_u64 2160, fd_write_u64 8640]"

definition write_tile :: "fd_tile \<Rightarrow> fd_writer \<Rightarrow> fd_writer" where
  "write_tile t = run
     [fd_write_u32 (tl_terrain t), fd_write_u32 (tl_overlays t), fd_write_u32 (tl_elevation_cm t),
      fd_write_u32 (tl_rainfall_mm t), fd_write_u64 (tl_settlement_id t)]"

definition write_region :: "fd_region \<Rightarrow> fd_writer \<Rightarrow> fd_writer" where
  "write_region r = run
     [fd_write_u64 (rg_id r), fd_write_u64 (rg_political_owner_id r),
      fd_write_u64 (rg_settlement_ids r ! 0), fd_write_u64 (rg_settlement_ids r ! 1),
      fd_write_u64 (rg_foreign_faction_ids r ! 0), fd_write_u64 (rg_foreign_faction_ids r ! 1),
      fd_write_u64 (rg_river_outlet_tile_id r), fd_write_u64 (rg_road_start_tile_id r),
      fd_write_u64 (rg_road_end_tile_id r), fd_write_u32 (rg_river_tile_count r),
      fd_write_u32 (rg_road_tile_count r)]"

definition save_geography :: "fd_world \<Rightarrow> fd_writer \<Rightarrow> fd_writer" where
  "save_geography w = save_section 7 (104 + ucast (w_tile_count w) * 24)
     ([fd_write_u32 (w_tile_count w), fd_write_u32 (wc_width (w_config w)),
       fd_write_u32 (wc_height (w_config w)), fd_write_u32 (w_river_tile_count w),
       fd_write_u32 (w_road_tile_count w), fd_write_u32 (w_land_tile_count w)] @
      map (\<lambda>index. write_tile (w_tiles w ! index)) [0..<unat (w_tile_count w)] @
      [write_region (w_region w)])"

definition write_entity :: "fd_entity \<Rightarrow> fd_writer \<Rightarrow> fd_writer" where
  "write_entity e = run
     [fd_write_u64 (en_id e), fd_write_u32 (en_kind e), fd_write_u32 (en_x e), fd_write_u32 (en_y e),
      fd_write_u64 (en_region_id e), fd_write_u64 (en_owner_id e), fd_write_u32 (en_name_length e),
      fd_write_bytes (en_name e) (unat (en_name_length e))]"

definition save_entities :: "fd_world \<Rightarrow> fd_writer \<Rightarrow> fd_writer" where
  "save_entities w = save_section 8 (fd_entity_section_length w)
     ([fd_write_u32 6, fd_write_u32 6] @
      map (\<lambda>index. write_entity (w_entities w ! index)) [0..<FD_U01_ENTITY_COUNT])"

definition save_queues :: "fd_world \<Rightarrow> (fd_writer \<Rightarrow> fd_writer) list" where
  "save_queues w =
     [save_section 9 4 [fd_write_u32 0],
      save_section 10 16 [fd_write_u32 0, fd_write_u32 0, fd_write_u32 0, fd_write_u32 0],
      save_section 11 32 [fd_write_bytes (w_state_sha256 w) 32]]"

definition save_operations :: "fd_world \<Rightarrow> (fd_writer \<Rightarrow> fd_writer) list" where
  "save_operations w =
     [fd_write_bytes fd_save_magic 8, save_manifest, save_versions w, save_configuration w,
      save_content w, save_rng w, save_time w, save_geography w, save_entities w] @ save_queues w"

definition fd_world_save ::
    "'u fd_context \<Rightarrow> fd_world option \<Rightarrow> bytes option \<Rightarrow> u64 \<Rightarrow> u64 option \<Rightarrow> diag
       \<Rightarrow> (fd_result \<times> diag) \<times> bytes option \<times> u64 option" where
  "fd_world_save ctx world buffer capacity written diag =
     (if written = None
      then (fd_diag_set diag FD_ERR_INVALID_ARGUMENT FD_FIELD_NONE 0
              (str ''save written output is null''), buffer, None)
      else case world of
        None \<Rightarrow> (fd_diag_set diag FD_ERR_INVALID_ARGUMENT FD_FIELD_NONE 0 (str ''world is null''),
                   buffer, Some 0)
      | Some w \<Rightarrow>
          let (result, required) = fd_save_size_internal world (Some 0)
          in if result \<noteq> FD_OK \<or> the required > cx_max_file_bytes ctx
             then (fd_diag_set diag FD_ERR_CAPACITY FD_FIELD_BUFFER_CAPACITY 0
                     (str ''canonical save exceeds configured bound''), buffer, Some 0)
             else if buffer = None \<or> capacity < the required
             then (fd_diag_set diag FD_ERR_BUFFER_TOO_SMALL FD_FIELD_BUFFER_CAPACITY 0
                     (str ''save buffer is smaller than required size''), buffer, Some 0)
             else
               let writer = run (save_operations w) \<lparr>wr_bytes = the buffer, wr_position = 0\<rparr>;
                   footer = fd_footer_digest (wr_bytes writer) (wr_position writer);
                   writer1 = fd_write_bytes footer 32 writer
               in if wr_position writer1 \<noteq> unat (the required)
                  then (fd_diag_set diag FD_ERR_INTERNAL FD_FIELD_FILE_BYTES 0
                          (str ''save size implementation mismatch''), Some (wr_bytes writer1), Some 0)
                  else (fd_diag_ok diag, Some (wr_bytes writer1),
                        Some (of_nat (wr_position writer1))))"

section \<open>The file\<close>

text \<open>The payloads a save consists of, by section tag.\<close>

definition manifest_payload :: bytes where
  "manifest_payload = concat [fd_store_u16_le 1, fd_store_u16_le 0, fd_store_u16_le 1,
     fd_store_u16_le 0, fd_store_u32_le 11, fd_store_u32_le 0]"

definition versions_payload :: "fd_world \<Rightarrow> bytes" where
  "versions_payload w = concat (map fd_store_u32_le
     [0, 1, 0, wc_generator_version (w_config w), wc_ruleset_version (w_config w), 1, 0, 1, 0, 1])"

definition configuration_payload :: "fd_world \<Rightarrow> bytes" where
  "configuration_payload w = concat (map fd_store_u32_le
     [wc_width (w_config w), wc_height (w_config w), wc_attempt_budget (w_config w),
      wc_generator_version (w_config w), wc_ruleset_version (w_config w),
      wc_forest_density_ppm (w_config w), wc_hill_density_ppm (w_config w),
      wc_wetland_density_ppm (w_config w), wc_reference_mode (w_config w)]) @
     w_configuration_sha256 w"

definition pack_bytes :: "fd_content_pack \<Rightarrow> bytes" where
  "pack_bytes p = fd_store_u64_le (cp_stable_id p) @ cp_sha256 p"

definition content_payload :: "fd_world \<Rightarrow> bytes" where
  "content_payload w = fd_store_u32_le (w_content_count w) @ concat (map pack_bytes (w_content w))"

definition rng_payload :: "fd_world \<Rightarrow> bytes" where
  "rng_payload w = w_root_seed_le w @ fd_store_u32_le 1 @ fd_store_u32_le 0"

definition time_payload :: "fd_world \<Rightarrow> bytes" where
  "time_payload w = concat (map fd_store_u64_le [w_tick w, 1, 24, 168, 720, 2160, 8640])"

definition tile_encoding :: "fd_tile \<Rightarrow> bytes" where
  "tile_encoding t = concat (tile_parts t)"

definition region_bytes :: "fd_region \<Rightarrow> bytes" where
  "region_bytes r = concat
     [fd_store_u64_le (rg_id r), fd_store_u64_le (rg_political_owner_id r),
      fd_store_u64_le (rg_settlement_ids r ! 0), fd_store_u64_le (rg_settlement_ids r ! 1),
      fd_store_u64_le (rg_foreign_faction_ids r ! 0), fd_store_u64_le (rg_foreign_faction_ids r ! 1),
      fd_store_u64_le (rg_river_outlet_tile_id r), fd_store_u64_le (rg_road_start_tile_id r),
      fd_store_u64_le (rg_road_end_tile_id r), fd_store_u32_le (rg_river_tile_count r),
      fd_store_u32_le (rg_road_tile_count r)]"

definition geography_payload :: "fd_world \<Rightarrow> bytes" where
  "geography_payload w = concat (map fd_store_u32_le
     [w_tile_count w, wc_width (w_config w), wc_height (w_config w), w_river_tile_count w,
      w_road_tile_count w, w_land_tile_count w]) @
     concat (map tile_encoding (w_tiles w)) @ region_bytes (w_region w)"

definition entity_bytes :: "fd_entity \<Rightarrow> bytes" where
  "entity_bytes e = concat (entity_parts e)"

definition entities_payload :: "fd_world \<Rightarrow> bytes" where
  "entities_payload w = fd_store_u32_le 6 @ fd_store_u32_le 6 @ concat (map entity_bytes (w_entities w))"

definition queue_payload :: bytes where "queue_payload = fd_store_u32_le 0"

definition scheduler_payload :: bytes where
  "scheduler_payload = concat (map fd_store_u32_le [0, 0, 0, 0])"

definition save_payloads :: "fd_world \<Rightarrow> bytes list" where
  "save_payloads w = [manifest_payload, versions_payload w, configuration_payload w,
     content_payload w, rng_payload w, time_payload w, geography_payload w, entities_payload w,
     queue_payload, scheduler_payload, w_state_sha256 w]"

definition save_sections :: "fd_world \<Rightarrow> (u16 \<times> bytes) list" where
  "save_sections w = zip [1, 2, 3, 4, 5, 6, 7, 8, 9, 10, 11] (save_payloads w)"

definition save_body :: "fd_world \<Rightarrow> bytes" where
  "save_body w = fd_save_magic @ concat (map (\<lambda>(tag, payload). frame tag payload) (save_sections w))"

definition save_file :: "fd_world \<Rightarrow> bytes" where
  "save_file w = save_body w @ fd_footer_digest (save_body w) (length (save_body w))"

lemmas payload_defs = manifest_payload_def versions_payload_def configuration_payload_def
  content_payload_def rng_payload_def time_payload_def geography_payload_def entities_payload_def
  queue_payload_def scheduler_payload_def region_bytes_def

lemma length_footer [simp]: "length (fd_footer_digest b n) = 32"
  by (simp add: fd_footer_digest_def)

lemma length_magic [simp]: "length fd_save_magic = 8"
  by (simp add: fd_save_magic_def)

lemma length_tile_encoding [simp]: "length (tile_encoding t) = 24"
  by (simp add: tile_encoding_def tile_parts_def)

lemma length_entity_bytes:
  "length (en_name e) = 48 \<Longrightarrow> unat (en_name_length e) < 48 \<Longrightarrow>
     length (entity_bytes e) = 40 + unat (en_name_length e)"
  by (simp add: entity_bytes_def entity_parts_def)

lemma length_region_bytes [simp]: "length (region_bytes r) = 80"
  by (simp add: region_bytes_def)

section \<open>The writer emits the file\<close>

lemma map_over_index: "n = length xs \<Longrightarrow> map (\<lambda>i. f (xs ! i)) [0..<n] = map f xs"
  by (metis (no_types, lifting) map_map map_nth comp_apply map_eq_conv)

lemma length_concat_const:
  "(\<And>x. x \<in> set xs \<Longrightarrow> length (f x) = k) \<Longrightarrow> length (concat (map f xs)) = length xs * k"
  by (induction xs) auto

lemma emits_pack: "length (cp_sha256 p) = 32 \<Longrightarrow> emits (write_pack p) (pack_bytes p)"
  unfolding write_pack_def pack_bytes_def by (intro emits_intro) simp

lemma emits_tile: "emits (write_tile t) (tile_encoding t)"
  unfolding write_tile_def tile_encoding_def
  by (rule emits_run_list) (simp add: tile_parts_def emits_intro)

lemma emits_region: "emits (write_region r) (region_bytes r)"
  unfolding write_region_def region_bytes_def
  by (rule emits_run_list) (simp add: emits_intro)

lemma emits_entity:
  assumes "length (en_name e) = 48" "unat (en_name_length e) < 48"
  shows "emits (write_entity e) (entity_bytes e)"
  using assms unfolding write_entity_def entity_bytes_def
  by (intro emits_run_list) (simp add: entity_parts_def emits_intro emits_take)

text \<open>The lengths the code computes are the lengths of the payloads.\<close>

lemma length_content_payload:
  "world_shape w \<Longrightarrow> length (content_payload w) = 4 + unat (w_content_count w) * 40"
  by (simp add: content_payload_def length_concat_const [where k = 40] pack_bytes_def world_shape_def)

lemma length_geography_payload:
  "world_shape w \<Longrightarrow> length (geography_payload w) = 104 + unat (w_tile_count w) * 24"
  by (simp add: geography_payload_def length_concat_const [where k = 24] world_shape_def)

lemma entity_length_sum:
  assumes "length es = 6" and "\<And>e. e \<in> set es \<Longrightarrow> length (en_name e) = 48 \<and> unat (en_name_length e) < 48"
  shows "fold (\<lambda>i len. len + (40 + ucast (en_name_length (es ! i)))) [0..<6] (8 :: u64)
      = of_nat (8 + length (concat (map entity_bytes es)))"
    and "length (concat (map entity_bytes es)) < 600"
proof -
  from assms(1) obtain a b c d e f where es: "es = [a, b, c, d, e, f]"
    by (auto simp: length_Suc_conv eval_nat_numeral)
  have len: "length (entity_bytes x) = 40 + unat (en_name_length x)" if "x \<in> set es" for x
    using assms(2) [OF that] by (simp add: length_entity_bytes)
  have "length (entity_bytes x) < 88" if "x \<in> set es" for x
    using len [OF that] assms(2) [OF that] by simp
  from this [of a] this [of b] this [of c] this [of d] this [of e] this [of f]
  show "length (concat (map entity_bytes es)) < 600" by (simp add: es)
  have idx: "[0..<6] = [0, 1, 2, 3, 4, 5 :: nat]" by (simp add: upt_rec)
  show "fold (\<lambda>i len. len + (40 + ucast (en_name_length (es ! i)))) [0..<6] (8 :: u64)
      = of_nat (8 + length (concat (map entity_bytes es)))"
    using len unfolding idx es by (simp add: add.assoc)
qed

lemma length_entities_payload:
  assumes "world_shape w"
  shows "fd_entity_section_length w = of_nat (length (entities_payload w))"
    and "length (entities_payload w) < 608"
proof -
  have es: "length (w_entities w) = 6"
    "\<And>e. e \<in> set (w_entities w) \<Longrightarrow> length (en_name e) = 48 \<and> unat (en_name_length e) < 48"
    using assms by (simp_all add: world_shape_def)
  show "fd_entity_section_length w = of_nat (length (entities_payload w))"
    using entity_length_sum(1) [OF es]
    by (simp add: fd_entity_section_length_def entities_payload_def)
  show "length (entities_payload w) < 608"
    using entity_length_sum(2) [OF es] by (simp add: entities_payload_def)
qed

lemma word_length_eq:
  assumes "n < 2 ^ 64" and "unat (v :: u64) = n"
  shows "v = of_nat n"
  using assms by (simp add: word_unat_eq_iff unat_of_nat_u64)

lemma unat_count_length: "unat (c + ucast (n :: u32) * k :: u64) = unat c + unat n * unat k"
  if "unat c \<le> 1000" "unat k \<le> 40"
proof -
  have "unat n * unat k \<le> 4294967295 * 40"
    using unat_lt_u32 [of n] that(2) by (intro mult_le_mono) simp_all
  then show ?thesis using that by (simp add: unat_word_ariths)
qed

lemma world_shapeD:
  assumes "world_shape w"
  shows "length (w_root_seed_le w) = 16" "length (w_content w) = unat (w_content_count w)"
    "length (w_tiles w) = unat (w_tile_count w)" "length (w_entities w) = 6"
    "length (w_configuration_sha256 w) = 32" "length (w_content_sha256 w) = 32"
    "length (w_state_sha256 w) = 32" "unat (w_content_count w) \<le> 16"
    "length (rg_settlement_ids (w_region w)) = 2" "length (rg_foreign_faction_ids (w_region w)) = 2"
  using assms by (simp_all add: world_shape_def)

lemma section_operations:
  assumes sh: "world_shape w"
  shows "list_all2 emits (save_operations w)
    (fd_save_magic # map (\<lambda>(tag, payload). frame tag payload) (save_sections w))"
proof -
  note d = world_shapeD [OF sh]
  have manifest: "emits save_manifest (frame 1 manifest_payload)"
    unfolding save_manifest_def
    by (rule emits_section, unfold manifest_payload_def, rule emits_run_list)
      (simp_all add: emits_intro)
  have versions: "emits (save_versions w) (frame 2 (versions_payload w))"
    unfolding save_versions_def
    by (rule emits_section, unfold versions_payload_def, rule emits_run_list)
      (simp_all add: emits_intro)
  have configuration: "emits (save_configuration w) (frame 3 (configuration_payload w))"
  proof -
    have "configuration_payload w = concat (map fd_store_u32_le
        [wc_width (w_config w), wc_height (w_config w), wc_attempt_budget (w_config w),
         wc_generator_version (w_config w), wc_ruleset_version (w_config w),
         wc_forest_density_ppm (w_config w), wc_hill_density_ppm (w_config w),
         wc_wetland_density_ppm (w_config w), wc_reference_mode (w_config w)] @
        [w_configuration_sha256 w])"
      by (simp add: configuration_payload_def)
    then show ?thesis
      unfolding save_configuration_def using d
      by (intro emits_section) (simp_all only: emits_run_list list_all2_Cons list_all2_Nil
          emits_intro list.map append.simps, simp_all add: emits_intro)
  qed
  have content: "emits (save_content w) (frame 4 (content_payload w))"
    unfolding save_content_def
  proof (rule emits_section)
    have "map (\<lambda>index. write_pack (w_content w ! index)) [0..<unat (w_content_count w)]
        = map write_pack (w_content w)"
      using d by (intro map_over_index) simp
    moreover have "emits (run (map write_pack (w_content w))) (concat (map pack_bytes (w_content w)))"
      using sh by (intro emits_run_map emits_pack) (simp add: world_shape_def)
    ultimately show "emits (run (fd_write_u32 (w_content_count w) #
        map (\<lambda>index. write_pack (w_content w ! index)) [0..<unat (w_content_count w)])) (content_payload w)"
      by (simp add: content_payload_def emits_run_cons emits_u32)
    show "4 + ucast (w_content_count w) * 40 = of_nat (length (content_payload w))"
      by (simp add: length_content_payload [OF sh])
    show "length (content_payload w) < 2 ^ 64" using d by (simp add: length_content_payload [OF sh])
  qed
  have rng: "emits (save_rng w) (frame 5 (rng_payload w))"
  proof -
    have "rng_payload w = concat [w_root_seed_le w, fd_store_u32_le 1, fd_store_u32_le 0]"
      by (simp add: rng_payload_def)
    then show ?thesis
      unfolding save_rng_def using d
      by (intro emits_section) (simp_all only: emits_run_list list_all2_Cons list_all2_Nil
          emits_intro, simp_all)
  qed
  have time: "emits (save_time w) (frame 6 (time_payload w))"
    unfolding save_time_def
    by (rule emits_section, unfold time_payload_def, rule emits_run_list)
      (simp_all add: emits_intro)
  have geography: "emits (save_geography w) (frame 7 (geography_payload w))"
    unfolding save_geography_def
  proof (rule emits_section)
    have "map (\<lambda>index. write_tile (w_tiles w ! index)) [0..<unat (w_tile_count w)]
        = map write_tile (w_tiles w)"
      using d by (intro map_over_index) simp
    moreover have "emits (run (map write_tile (w_tiles w))) (concat (map tile_encoding (w_tiles w)))"
      by (intro emits_run_map emits_tile)
    moreover have "emits (run (map fd_write_u32 [w_tile_count w, wc_width (w_config w),
        wc_height (w_config w), w_river_tile_count w, w_road_tile_count w, w_land_tile_count w]))
        (concat (map fd_store_u32_le [w_tile_count w, wc_width (w_config w),
        wc_height (w_config w), w_river_tile_count w, w_road_tile_count w, w_land_tile_count w]))"
      by (intro emits_run_map emits_u32)
    ultimately show "emits (run ([fd_write_u32 (w_tile_count w), fd_write_u32 (wc_width (w_config w)),
       fd_write_u32 (wc_height (w_config w)), fd_write_u32 (w_river_tile_count w),
       fd_write_u32 (w_road_tile_count w), fd_write_u32 (w_land_tile_count w)] @
      map (\<lambda>index. write_tile (w_tiles w ! index)) [0..<unat (w_tile_count w)] @
      [write_region (w_region w)])) (geography_payload w)"
      unfolding geography_payload_def
      by (intro emits_run_append emits_run_single emits_region) (simp_all only: list.map)
    show "104 + ucast (w_tile_count w) * 24 = of_nat (length (geography_payload w))"
      by (simp add: length_geography_payload [OF sh])
    show "length (geography_payload w) < 2 ^ 64"
      using unat_lt_u32 [of "w_tile_count w"] by (simp add: length_geography_payload [OF sh])
  qed
  have entities: "emits (save_entities w) (frame 8 (entities_payload w))"
    unfolding save_entities_def
  proof (rule emits_section)
    have "map (\<lambda>index. write_entity (w_entities w ! index)) [0..<6] = map write_entity (w_entities w)"
      using d by (intro map_over_index) simp
    moreover have "emits (run (map write_entity (w_entities w))) (concat (map entity_bytes (w_entities w)))"
      using sh by (intro emits_run_map emits_entity) (simp_all add: world_shape_def)
    ultimately show "emits (run ([fd_write_u32 6, fd_write_u32 6] @
        map (\<lambda>index. write_entity (w_entities w ! index)) [0..<6])) (entities_payload w)"
      unfolding entities_payload_def by (simp add: emits_intro)
    show "fd_entity_section_length w = of_nat (length (entities_payload w))"
      "length (entities_payload w) < 2 ^ 64"
      using length_entities_payload [OF sh] by simp_all
  qed
  have queues: "emits (save_section 9 4 [fd_write_u32 0]) (frame 9 queue_payload)"
    by (rule emits_section) (simp_all add: queue_payload_def emits_intro)
  have scheduler: "emits (save_section 10 16 [fd_write_u32 0, fd_write_u32 0, fd_write_u32 0, fd_write_u32 0])
      (frame 10 scheduler_payload)"
    by (rule emits_section, unfold scheduler_payload_def, rule emits_run_list)
      (simp_all add: emits_intro)
  have hash: "emits (save_section 11 32 [fd_write_bytes (w_state_sha256 w) 32]) (frame 11 (w_state_sha256 w))"
    by (rule emits_section) (simp_all add: d emits_intro)
  show ?thesis
    by (simp add: save_operations_def save_queues_def save_sections_def save_payloads_def emits_bytes
        manifest versions configuration content rng time geography entities queues scheduler hash)
qed

lemma emits_save_body: "world_shape w \<Longrightarrow> emits (run (save_operations w)) (save_body w)"
  using emits_run_list [OF section_operations] by (simp add: save_body_def)

lemma length_save_body:
  assumes "world_shape w"
  shows "length (save_body w) = 908 + unat (w_content_count w) * 40 + unat (w_tile_count w) * 24 +
    length (concat (map entity_bytes (w_entities w)))"
  using world_shapeD [OF assms]
  by (simp add: save_body_def save_sections_def save_payloads_def length_content_payload [OF assms]
      length_geography_payload [OF assms]) (simp add: payload_defs)

lemma length_save_file: "length (save_file w) = length (save_body w) + 32"
  by (simp add: save_file_def)

lemma save_file_bound: "world_shape w \<Longrightarrow> length (save_file w) < 2 ^ 63"
  using length_save_body [of w] unat_lt_u32 [of "w_tile_count w"] world_shapeD(8) [of w]
    length_entities_payload(2) [of w]
  by (simp add: length_save_file entities_payload_def)

lemma fd_save_size_exact:
  assumes sh: "world_shape w"
  shows "fd_save_size_internal (Some w) (Some n) = (FD_OK, Some (of_nat (length (save_file w))))"
proof -
  let ?E = "length (concat (map entity_bytes (w_entities w)))"
  define P :: u64 where "P = 16 + 40 + 68 + (4 + ucast (w_content_count w) * 40) + 24 + 56 +
    (104 + ucast (w_tile_count w) * 24) + fd_entity_section_length w + 4 + 16 + 32"
  have P: "P = of_nat (length (save_file w) - 568)"
    using length_entities_payload(1) [OF sh]
    by (simp add: P_def length_save_file length_save_body [OF sh] entities_payload_def)
  have big: "568 \<le> length (save_file w)" "length (save_file w) < 2 ^ 63"
    using save_file_bound [OF sh] by (simp_all add: length_save_file length_save_body [OF sh])
  then obtain m where m: "length (save_file w) = m + 568" "m + 568 < 2 ^ 63"
    by (metis le_add_diff_inverse2)
  have Pm: "P = of_nat m" using P m by simp
  have add: "fd_u64_add (of_nat a) (of_nat b) = Some (of_nat (a + b))" if "a + b < 2 ^ 64" for a b
    using that by (simp add: fd_u64_add_Some_iff unat_of_nat_u64)
  have e1: "fd_u64_add 8 P = Some (of_nat (8 + m))"
    using add [of 8 m] m(2) unfolding Pm by simp
  have e2: "fd_u64_add (of_nat (8 + m)) (ucast (11 :: u32) * 48) = Some (of_nat (8 + m + 528))"
    using add [of "8 + m" 528] m(2) by simp
  have e3: "fd_u64_add (of_nat (8 + m + 528)) 32 = Some (of_nat (8 + m + 528 + 32))"
    using add [of "8 + m + 528" 32] m(2) by simp
  have sum: "8 + m + 528 + 32 = m + 568" by simp
  have "fd_save_size_internal (Some w) (Some n) =
      (case fd_u64_add 8 P of
         None \<Rightarrow> (FD_ERR_CAPACITY, Some n)
       | Some t1 \<Rightarrow>
           (case fd_u64_add t1 (ucast (11 :: u32) * 48) of
              None \<Rightarrow> (FD_ERR_CAPACITY, Some n)
            | Some t2 \<Rightarrow>
                (case fd_u64_add t2 32 of
                   None \<Rightarrow> (FD_ERR_CAPACITY, Some n)
                 | Some t3 \<Rightarrow> (FD_OK, Some t3))))"
    by (simp only: fd_save_size_internal_def P_def Let_def option.case option.distinct if_False)
  then show ?thesis by (simp only: e1 e2 e3 option.case sum m(1))
qed

lemma save_writer:
  assumes sh: "world_shape w" and fits: "length (save_file w) \<le> length buf"
  shows "let writer = run (save_operations w) \<lparr>wr_bytes = buf, wr_position = 0\<rparr>
    in fd_write_bytes (fd_footer_digest (wr_bytes writer) (wr_position writer)) 32 writer =
       \<lparr>wr_bytes = save_file w @ drop (length (save_file w)) buf, wr_position = length (save_file w)\<rparr>"
proof -
  let ?w0 = "\<lparr>wr_bytes = buf, wr_position = 0\<rparr>"
  have b: "in_buffer ?w0" by (simp add: in_buffer_def)
  have body: "run (save_operations w) ?w0 = emit (save_body w) ?w0"
    using emits_save_body [OF sh] b by (rule emits_apply)
  have "fd_footer_digest (wr_bytes (emit (save_body w) ?w0)) (wr_position (emit (save_body w) ?w0))
      = fd_footer_digest (save_body w) (length (save_body w))"
    by (simp add: emit_def blit_def fd_footer_digest_def)
  moreover have "fd_write_bytes (fd_footer_digest (save_body w) (length (save_body w))) 32
      (emit (save_body w) ?w0) = emit (save_file w) ?w0"
    using emits_apply [OF emits_bytes in_buffer_emit [OF b], of 32
        "fd_footer_digest (save_body w) (length (save_body w))"] b
    by (simp add: emit_emit save_file_def)
  ultimately show ?thesis
    using fits by (simp add: body Let_def) (simp add: emit_def blit_def)
qed

text \<open>C27: saving a well-shaped world into a sufficient buffer writes exactly the canonical file (the
  magic, eleven framed and hashed sections, the footer digest) at its start, leaves the rest of the
  buffer alone and reports the length, which is the one \<open>fd_world_save_size\<close> announces.  A bound or
  a buffer that is too small is reported and nothing is written.\<close>

theorem fd_world_save_writes_file:
  assumes "world_shape w" and "unat capacity \<le> length buf"
  shows "let n = length (save_file w); (r, out, written) = fd_world_save ctx (Some w) (Some buf) capacity (Some k) diag
    in snd (fd_world_save_size ctx (Some w) (Some j) diag) = Some (of_nat n) \<and>
       (if n > unat (cx_max_file_bytes ctx) then fst r = FD_ERR_CAPACITY \<and> out = Some buf \<and> written = Some 0
        else if unat capacity < n then fst r = FD_ERR_BUFFER_TOO_SMALL \<and> out = Some buf \<and> written = Some 0
        else fst r = FD_OK \<and> out = Some (save_file w @ drop n buf) \<and> written = Some (of_nat n))"
proof -
  let ?n = "length (save_file w)"
  have u: "unat (of_nat ?n :: u64) = ?n"
    using save_file_bound [OF assms(1)] by (intro unat_of_nat_u64) simp
  have size: "snd (fd_world_save_size ctx (Some w) (Some j) diag) = Some (of_nat ?n)"
    by (simp add: fd_world_save_size_def fd_save_size_exact [OF assms(1)])
  have lim: "(of_nat ?n :: u64) > cx_max_file_bytes ctx \<longleftrightarrow> ?n > unat (cx_max_file_bytes ctx)"
    "capacity < (of_nat ?n :: u64) \<longleftrightarrow> unat capacity < ?n"
    by (simp_all add: word_less_nat_alt u)
  have wr: "let writer = run (save_operations w) \<lparr>wr_bytes = buf, wr_position = 0\<rparr>
    in fd_write_bytes (fd_footer_digest (wr_bytes writer) (wr_position writer)) 32 writer =
       \<lparr>wr_bytes = save_file w @ drop ?n buf, wr_position = ?n\<rparr>" if "\<not> unat capacity < ?n"
    using save_writer [OF assms(1), of buf] assms(2) that by simp
  show ?thesis
    using size wr by (simp add: fd_world_save_def fd_save_size_exact [OF assms(1)] lim u Let_def)
qed

lemma length_save_sample: "length (save_file (hash_sample\<lparr>w_tick := 0\<rparr>)) = 1228"
proof -
  have e: "length (entity_bytes blank_entity) = 40"
    by (simp add: length_entity_bytes blank_entity_def)
  have r: "replicate 6 x = [x, x, x, x, x, x]" for x :: fd_entity
    by (simp add: eval_nat_numeral)
  show ?thesis
    unfolding length_save_file length_save_body [OF hash_sample_shape]
    by (simp add: hash_sample_def grid_world_def r e)
qed

theorem fd_world_save_writes_file_witness:
  "snd (snd (fd_world_save sample_context (Some (hash_sample\<lparr>w_tick := 0\<rparr>))
     (Some (replicate 2000 0)) 2000 (Some 0) None)) = Some 1228"
  using fd_world_save_writes_file [where ctx = sample_context and k = 0 and diag = None and j = 0,
      OF hash_sample_shape, of 2000 "replicate 2000 0" 0]
  by (simp add: length_save_sample sample_context_def Let_def split: prod.splits)

end
