(* ===== verification/FD_Parse.thy ===== *)
theory FD_Parse
  imports FD_Save
begin

text \<open>
  Reading the section structure of a save, \<open>fd_parse_save_sections\<close> of
  \<^verbatim>\<open>src/core/fd_serialize.c\<close>.  A pointer into the file is the suffix of the file it points to.
  Early returns through \<open>fd_diag_set\<close> are \<open>Inl\<close>.  Positions stay inside the file, so they are
  natural numbers.
\<close>

unbundle bit_operations_syntax

record fd_section =
  fs_payload :: bytes
  fs_length :: u64
  fs_flags :: u16
  fs_present :: bool

definition no_section :: fd_section where
  "no_section = \<lparr>fs_payload = [], fs_length = 0, fs_flags = 0, fs_present = False\<rparr>"

text \<open>One round of the section loop: the state is position, previous tag, section count, sections.\<close>

type_synonym parse_state = "nat \<times> u16 \<times> u32 \<times> fd_section list"

definition parse_section ::
    "bytes \<Rightarrow> nat \<Rightarrow> diag \<Rightarrow> parse_state \<Rightarrow> (fd_result \<times> diag) + parse_state" where
  "parse_section bytes footer_position diag = (\<lambda>(position, previous_tag, section_count, sections).
     if footer_position - position < 48
     then Inl (fd_diag_set diag FD_ERR_FORMAT FD_FIELD_SECTION section_count
                 (str ''truncated save section header''))
     else
       let tag = fd_load_u16_le (drop position bytes);
           flags = fd_load_u16_le (drop (position + 2) bytes);
           reserved = fd_load_u32_le (drop (position + 4) bytes);
           len = fd_load_u64_le (drop (position + 8) bytes)
       in if tag \<le> previous_tag \<or> reserved \<noteq> 0 \<or> flags AND NOT 1 \<noteq> 0
          then Inl (fd_diag_set diag FD_ERR_FORMAT FD_FIELD_SECTION section_count
                      (str ''noncanonical save section header''))
          else case fd_u64_add 48 len of
            None \<Rightarrow> Inl (fd_diag_set diag FD_ERR_FORMAT FD_FIELD_SECTION section_count
                            (str ''save section length exceeds file''))
          | Some framed \<Rightarrow>
              if unat framed > footer_position - position
              then Inl (fd_diag_set diag FD_ERR_FORMAT FD_FIELD_SECTION section_count
                          (str ''save section length exceeds file''))
              else
                let payload = drop (position + 16) bytes;
                    digest = the (snd (fd_sha256 (Some payload) (unat len) (Some (replicate 32 0))))
                in if digest \<noteq> take 32 (drop (unat len) payload)
                   then Inl (fd_diag_set diag FD_ERR_CHECKSUM FD_FIELD_SECTION section_count
                               (str ''save section payload digest mismatch''))
                   else if \<not> tag \<le> 11 \<and> flags AND 1 \<noteq> 0
                   then Inl (fd_diag_set diag FD_ERR_VERSION FD_FIELD_SECTION section_count
                               (str ''unknown critical save section''))
                   else
                     let sections' = (if tag \<le> 11
                           then sections[unat tag := \<lparr>fs_payload = payload, fs_length = len,
                                                      fs_flags = flags, fs_present = True\<rparr>]
                           else sections)
                     in if section_count + 1 > 64
                        then Inl (fd_diag_set diag FD_ERR_CAPACITY FD_FIELD_SECTION (section_count + 1)
                                    (str ''too many save sections''))
                        else Inr (position + unat framed, tag, section_count + 1, sections'))"

lemma parse_section_advances:
  assumes "parse_section bytes footer diag st = Inr st'"
  shows "fst st < fst st'" and "fst st' \<le> footer"
proof -
  have pos: "0 < unat framed" if "fd_u64_add 48 len = Some framed" for len framed :: u64
    using fd_u64_add_unat [OF that] by simp
  from assms show "fst st < fst st'" and "fst st' \<le> footer"
    by (auto simp: parse_section_def Let_def dest!: pos split: prod.splits if_splits option.splits)
qed

function parse_loop ::
    "bytes \<Rightarrow> nat \<Rightarrow> diag \<Rightarrow> parse_state \<Rightarrow> (fd_result \<times> diag) + parse_state" where
  "parse_loop bytes footer_position diag st =
     (if fst st < footer_position
      then case parse_section bytes footer_position diag st of
             Inl e \<Rightarrow> Inl e
           | Inr st' \<Rightarrow> parse_loop bytes footer_position diag st'
      else Inr st)"
  by pat_completeness auto
termination
  by (relation "measure (\<lambda>(bytes, footer, diag, st). footer - fst st)")
    (use parse_section_advances(1) in \<open>force+\<close>)

declare parse_loop.simps [simp del]

text \<open>The recount loop over the section lengths.\<close>

function recount :: "bytes \<Rightarrow> nat \<Rightarrow> nat \<Rightarrow> u32 \<Rightarrow> u32" where
  "recount bytes footer_position scan n =
     (if scan < footer_position
      then recount bytes footer_position
             (scan + (48 + unat (fd_load_u64_le (drop (scan + 8) bytes)))) (n + 1)
      else n)"
  by pat_completeness auto
termination
  by (relation "measure (\<lambda>(bytes, footer, scan, n). footer - scan)") auto

declare recount.simps [simp del]

definition fd_parse_save_sections ::
    "bytes \<Rightarrow> nat \<Rightarrow> diag \<Rightarrow> (fd_result \<times> diag) + (fd_section list \<times> u32)" where
  "fd_parse_save_sections bytes n diag =
     (let footer_position = n - 32
      in case parse_loop bytes footer_position diag (8, 0, 0, replicate 12 no_section) of
           Inl e \<Rightarrow> Inl e
         | Inr (position, previous_tag, section_count, sections) \<Rightarrow>
             if position \<noteq> footer_position
             then Inl (fd_diag_set diag FD_ERR_FORMAT FD_FIELD_FILE_BYTES 0
                         (str ''unframed trailing save bytes''))
             else case find (\<lambda>index. \<not> fs_present (sections ! index) \<or>
                                     fs_flags (sections ! index) AND 1 = 0) [1..<12] of
               Some index \<Rightarrow> Inl (fd_diag_set diag FD_ERR_FORMAT FD_FIELD_SECTION (of_nat index)
                                      (str ''missing mandatory save section''))
             | None \<Rightarrow> Inr (sections, recount bytes footer_position 8 0))"

section \<open>Reading what was written\<close>

text \<open>The section record that a frame at the front of \<open>suffix\<close> gives.\<close>

definition framed_section :: "bytes \<Rightarrow> bytes \<Rightarrow> fd_section" where
  "framed_section payload rest =
     \<lparr>fs_payload = payload @ sha256 payload @ rest, fs_length = of_nat (length payload),
      fs_flags = 1, fs_present = True\<rparr>"

lemma load_header:
  assumes "drop position bytes = section_header tag flags n @ rest"
  shows "fd_load_u16_le (drop position bytes) = tag"
    "fd_load_u16_le (drop (position + 2) bytes) = flags"
    "fd_load_u32_le (drop (position + 4) bytes) = 0"
    "fd_load_u64_le (drop (position + 8) bytes) = n"
    "drop (position + 16) bytes = rest"
proof -
  have d: "drop (position + k) bytes = drop k (section_header tag flags n @ rest)" for k
    using assms by (metis add.commute drop_drop)
  show "fd_load_u16_le (drop position bytes) = tag"
    by (simp add: assms section_header_def byte_simps)
  show "fd_load_u16_le (drop (position + 2) bytes) = flags"
    "fd_load_u32_le (drop (position + 4) bytes) = 0"
    "fd_load_u64_le (drop (position + 8) bytes) = n" "drop (position + 16) bytes = rest"
    unfolding d by (simp_all add: section_header_def byte_simps)
qed

lemma parse_section_frame:
  assumes d: "drop position bytes = frame tag payload @ rest"
    and len: "length payload < 2 ^ 63" and tag: "previous_tag < tag" "tag \<le> 11"
    and room: "position + length (frame tag payload) \<le> footer" and count: "section_count < 64"
  shows "parse_section bytes footer diag (position, previous_tag, section_count, sections) =
    Inr (position + length (frame tag payload), tag, section_count + 1,
         sections[unat tag := framed_section payload rest])"
proof -
  have "drop position bytes =
      section_header tag 1 (of_nat (length payload)) @ payload @ sha256 payload @ rest"
    using d by (simp add: frame_def)
  note h = load_header [OF this]
  have n: "unat (of_nat (length payload) :: u64) = length payload"
    using len by (intro unat_of_nat_u64) simp
  have "fd_u64_add 48 (of_nat (length payload)) = Some (48 + of_nat (length payload))"
    using len by (simp add: fd_u64_add_Some_iff n)
  moreover have "unat (48 + of_nat (length payload) :: u64) = 48 + length payload"
    using len fd_u64_add_unat [OF calculation] by (simp add: n)
  moreover have "\<not> footer - position < 48" "\<not> 48 + length payload > footer - position"
    using room by simp_all
  moreover have "\<not> section_count + 1 > 64"
    using count by (simp add: word_less_nat_alt unat_word_ariths not_less)
  ultimately show ?thesis
    using tag by (simp add: parse_section_def h h(2) [simplified] n fd_sha256_Some Let_def not_le framed_section_def)
qed

section \<open>A sequence of frames\<close>

abbreviation frames :: "(u16 \<times> bytes) list \<Rightarrow> bytes" where
  "frames fs \<equiv> concat (map (\<lambda>(tag, payload). frame tag payload) fs)"

text \<open>The section array after the frames \<open>fs\<close>, followed by \<open>rest\<close>, have been read.\<close>

fun install :: "(u16 \<times> bytes) list \<Rightarrow> bytes \<Rightarrow> fd_section list \<Rightarrow> fd_section list" where
  "install [] rest secs = secs"
| "install ((tag, payload) # fs) rest secs =
     install fs rest (secs[unat tag := framed_section payload (frames fs @ rest)])"

definition good_frames :: "u16 \<Rightarrow> (u16 \<times> bytes) list \<Rightarrow> bool" where
  "good_frames previous fs \<longleftrightarrow> sorted_wrt (<) (previous # map fst fs) \<and>
     (\<forall>(tag, payload)\<in>set fs. tag \<le> 11 \<and> length payload < 2 ^ 63)"

lemma good_frames_Cons:
  "good_frames previous ((tag, payload) # fs) \<longleftrightarrow>
     previous < tag \<and> tag \<le> 11 \<and> length payload < 2 ^ 63 \<and> good_frames tag fs"
  by (auto simp: good_frames_def)

lemma parse_loop_frames:
  assumes "drop position bytes = frames fs @ rest" and "footer = position + length (frames fs)"
    and "good_frames previous fs" and "unat n + length fs \<le> 64"
  shows "parse_loop bytes footer diag (position, previous, n, secs) =
    Inr (footer, last (previous # map fst fs), n + of_nat (length fs), install fs rest secs)"
  using assms
proof (induction fs arbitrary: position previous n secs)
  case Nil
  then show ?case by (simp add: parse_loop.simps)
next
  case (Cons f fs)
  obtain tag payload where f: "f = (tag, payload)" by fastforce
  have g: "previous < tag" "tag \<le> 11" "length payload < 2 ^ 63" "good_frames tag fs"
    using Cons.prems(3) by (simp_all add: f good_frames_Cons)
  have d: "drop position bytes = frame tag payload @ frames fs @ rest"
    using Cons.prems(1) by (simp add: f)
  have lt: "n < 64" using Cons.prems(4) by (simp add: word_less_nat_alt)
  have step: "parse_section bytes footer diag (position, previous, n, secs) =
      Inr (position + length (frame tag payload), tag, n + 1,
           secs[unat tag := framed_section payload (frames fs @ rest)])"
    using Cons.prems(2) by (intro parse_section_frame [OF d g(3) g(1,2) _ lt]) (simp add: f)
  have "drop (position + length (frame tag payload)) bytes = frames fs @ rest"
    using d by (metis add.commute append_eq_conv_conj drop_drop)
  moreover have "unat (n + 1) + length fs \<le> 64"
    using Cons.prems(4) lt by (simp add: unat_word_ariths)
  ultimately have "parse_loop bytes footer diag (position + length (frame tag payload), tag, n + 1,
           secs[unat tag := framed_section payload (frames fs @ rest)]) =
      Inr (footer, last (tag # map fst fs), n + 1 + of_nat (length fs),
           install fs rest (secs[unat tag := framed_section payload (frames fs @ rest)]))"
    using Cons.prems(2) g(4) by (intro Cons.IH) (simp_all add: f)
  moreover have "position < footer" using Cons.prems(2) by (simp add: f)
  ultimately show ?case
    using step by (simp add: parse_loop.simps [of bytes footer diag "(position, previous, n, secs)"] f
        add.assoc)
qed

lemma recount_frames:
  assumes "drop position bytes = frames fs @ rest" and "footer = position + length (frames fs)"
    and "\<forall>(tag, payload)\<in>set fs. length payload < 2 ^ 63"
  shows "recount bytes footer position n = n + of_nat (length fs)"
  using assms
proof (induction fs arbitrary: position n)
  case Nil
  then show ?case by (simp add: recount.simps)
next
  case (Cons f fs)
  obtain tag payload where f: "f = (tag, payload)" by fastforce
  have d: "drop position bytes = frame tag payload @ frames fs @ rest"
    using Cons.prems(1) by (simp add: f)
  then have "drop position bytes = section_header tag 1 (of_nat (length payload)) @
      payload @ sha256 payload @ frames fs @ rest"
    by (simp add: frame_def)
  from load_header(4) [OF this]
  have len: "unat (fd_load_u64_le (drop (position + 8) bytes)) = length payload"
    using Cons.prems(3) unat_of_nat_u64 [of "length payload"] by (simp add: f)
  have "drop (position + length (frame tag payload)) bytes = frames fs @ rest"
    using d by (metis add.commute append_eq_conv_conj drop_drop)
  then have "recount bytes footer (position + length (frame tag payload)) (n + 1)
      = n + 1 + of_nat (length fs)"
    using Cons.prems(2,3) by (intro Cons.IH) (simp_all add: f)
  moreover have "position < footer" using Cons.prems(2) by (simp add: f)
  ultimately show ?case
    by (simp add: recount.simps [of bytes footer position n] len add.assoc)
qed

text \<open>The section records the loader gets from a saved world, \<open>rest\<close> being what follows the sections.\<close>

definition saved_sections :: "fd_world \<Rightarrow> bytes \<Rightarrow> fd_section list" where
  "saved_sections w rest = install (save_sections w) rest (replicate 12 no_section)"

lemma list_update_numeral:
  "(x # xs)[numeral v := y] = x # xs[numeral v - 1 := y]" "(x # xs)[1 := y] = x # xs[0 := y]"
  by (simp_all add: numeral_eq_Suc)

lemma saved_sections_eq:
  "saved_sections w rest = no_section #
     map (\<lambda>i. framed_section (save_payloads w ! i) (frames (drop (Suc i) (save_sections w)) @ rest)) [0..<11]"
proof -
  have r: "replicate 12 x = [x, x, x, x, x, x, x, x, x, x, x, x]" for x :: fd_section
    by (simp add: numeral_eq_Suc)
  have u: "[0..<11] = [0, 1, 2, 3, 4, 5, 6, 7, 8, 9, 10 :: nat]"
    by (simp add: upt_rec)
  show ?thesis
    by (simp add: saved_sections_def save_sections_def save_payloads_def r u list_update_numeral)
qed

lemma saved_section:
  "i < 11 \<Longrightarrow> saved_sections w rest ! Suc i =
     framed_section (save_payloads w ! i) (frames (drop (Suc i) (save_sections w)) @ rest)"
  by (simp add: saved_sections_eq)

lemma saved_payloads:
  "map fst (save_sections w) = [1, 2, 3, 4, 5, 6, 7, 8, 9, 10, 11]"
  by (simp add: save_sections_def save_payloads_def)

lemma payload_bound:
  assumes "world_shape w" and "(tag, payload) \<in> set (save_sections w)"
  shows "length payload < 2 ^ 63"
proof -
  have "length (frame tag payload) \<in> set (map length (map (\<lambda>(tag, payload). frame tag payload) (save_sections w)))"
    using assms(2) unfolding set_map by (intro imageI) force
  then have "length (frame tag payload) \<le> length (frames (save_sections w))"
    unfolding length_concat by (rule member_le_sum_list) simp
  then show ?thesis
    using save_file_bound [OF assms(1)] by (simp add: length_save_file save_body_def)
qed

lemma good_save_sections: "world_shape w \<Longrightarrow> good_frames 0 (save_sections w)"
proof -
  assume sh: "world_shape w"
  have "tag \<le> 11" if "(tag, payload) \<in> set (save_sections w)" for tag payload
    using that by (auto simp: save_sections_def save_payloads_def)
  then show ?thesis
    using payload_bound [OF sh] saved_payloads [of w] by (auto simp: good_frames_def)
qed

lemma fd_parse_saved:
  assumes sh: "world_shape w"
  shows "fd_parse_save_sections (save_file w @ rest) (length (save_file w)) diag =
    Inr (saved_sections w (fd_footer_digest (save_body w) (length (save_body w)) @ rest), 11)"
proof -
  let ?file = "save_file w @ rest"
  let ?rest = "fd_footer_digest (save_body w) (length (save_body w)) @ rest"
  let ?footer = "length (save_body w)"
  let ?secs = "saved_sections w ?rest"
  have d: "drop 8 ?file = frames (save_sections w) @ ?rest"
    by (simp add: save_file_def save_body_def)
  have f: "?footer = 8 + length (frames (save_sections w))" by (simp add: save_body_def)
  have n: "length (save_sections w) = 11" by (simp add: save_sections_def save_payloads_def)
  note good = good_save_sections [OF sh]
  have loop: "parse_loop ?file ?footer diag (8, 0, 0, replicate 12 no_section) =
      Inr (?footer, 11, 11, ?secs)"
    using parse_loop_frames [OF d f good, of 0 diag "replicate 12 no_section"] n
    by (simp add: saved_sections_def saved_payloads)
  have count: "recount ?file ?footer 8 0 = 11"
    using recount_frames [OF d f, of 0] payload_bound [OF sh] n by auto
  have all: "find (\<lambda>i. \<not> fs_present (?secs ! i) \<or> fs_flags (?secs ! i) AND 1 = 0) [1..<12] = None"
  proof -
    have "fs_present (?secs ! i) \<and> fs_flags (?secs ! i) AND 1 \<noteq> 0" if "i \<in> set [1..<12]" for i
    proof -
      have "0 < i" "i < 12" using that by simp_all
      then obtain k where "i = Suc k" "k < 11" by (cases i) simp_all
      then show ?thesis by (simp add: saved_section framed_section_def)
    qed
    then show ?thesis unfolding find_None_iff by blast
  qed
  show ?thesis
    using loop count all by (simp add: fd_parse_save_sections_def length_save_file)
qed

end
