(* ===== verification/FD_Action.thy ===== *)
theory FD_Action
  imports FD_Hash
begin

text \<open>
  Actions and joint decisions of \<^verbatim>\<open>src/core/fd_core.c\<close>: the action mask, the validation of one action
  and of the joint decision of both seats, and the decision digest.  Only PASS is legal in this unit;
  the mask and the validator are proved to agree on that, and the joint validator is proved
  equivalent to its declarative meaning.
\<close>

abbreviation (input) FD_ACTION_PASS :: u32 where "FD_ACTION_PASS \<equiv> 1"

record fd_action_prefix =
  ap_struct_size :: u32
  ap_abi_version :: u32
  ap_depth :: u32
  ap_category :: u32
  ap_parameter_count :: u32
  ap_parameters :: "u32 list"

record fd_action_mask =
  am_struct_size :: u32
  am_abi_version :: u32
  am_schema_id :: u32
  am_first_value :: u32
  am_bit_count :: u32
  am_byte_capacity :: u32
  am_bits :: "bytes option"

record fd_action =
  ac_struct_size :: u32
  ac_abi_version :: u32
  ac_category :: u32
  ac_parameter_count :: u32
  ac_parameters :: "u32 list"

record fd_seat_decision =
  sd_actor_id :: fd_entity_id
  sd_action :: fd_action

record fd_joint_decision =
  jd_struct_size :: u32
  jd_abi_version :: u32
  jd_seat_count :: u32
  jd_reserved :: u32
  jd_expected_tick :: u64
  jd_expected_pre_state_sha256 :: bytes
  jd_seats :: "fd_seat_decision list"

definition fd_is_foreign_actor :: "fd_world \<Rightarrow> fd_entity_id \<Rightarrow> bool" where
  "fd_is_foreign_actor w actor \<longleftrightarrow>
     actor = rg_foreign_faction_ids (w_region w) ! 0 \<or>
     actor = rg_foreign_faction_ids (w_region w) ! 1"

text \<open>The index of the first nonzero of the four parameters, the one the diagnostic names.\<close>

definition first_nonzero :: "u32 list \<Rightarrow> nat option" where
  "first_nonzero ps = find (\<lambda>i. ps ! i \<noteq> 0) [0..<4]"

section \<open>The action mask\<close>

definition fd_action_mask_query ::
    "fd_world option \<Rightarrow> fd_entity_id \<Rightarrow> fd_action_prefix option \<Rightarrow> fd_action_mask option \<Rightarrow> diag
       \<Rightarrow> (fd_result \<times> diag) \<times> fd_action_mask option" where
  "fd_action_mask_query world actor prefix out diag =
     (case (world, prefix) of
        (Some w, Some p) \<Rightarrow>
          if \<not> fd_input_struct_valid (Some (ap_struct_size p, ap_abi_version p)) 36 \<or>
             \<not> fd_output_struct_valid (map_option (\<lambda>m. (am_struct_size m, am_abi_version m)) out) 32
          then (fd_diag_set diag FD_ERR_INVALID_SIZE FD_FIELD_STRUCT_SIZE 0
                  (str ''invalid action prefix or mask size''), out)
          else if \<not> fd_is_foreign_actor w actor
          then (fd_diag_set diag FD_ERR_OUT_OF_RANGE FD_FIELD_ENTITY_ID 0
                  (str ''actor is not a U01 decision seat''), out)
          else if ap_depth p \<noteq> 0 \<or> ap_category p \<noteq> 0 \<or> ap_parameter_count p \<noteq> 0
          then (fd_diag_set diag FD_ERR_OUT_OF_RANGE FD_FIELD_ACTION 0
                  (str ''U01 mask queries require an empty prefix''), out)
          else (case first_nonzero (ap_parameters p) of
                  Some parameter \<Rightarrow>
                    (fd_diag_set diag FD_ERR_INVALID_ARGUMENT FD_FIELD_ACTION (of_nat parameter)
                       (str ''unused empty-prefix parameters must be zero''), out)
                | None \<Rightarrow>
                    let m = the out; capacity = am_byte_capacity m; bits = am_bits m;
                        m1 = m\<lparr>am_schema_id := 1, am_first_value := FD_ACTION_PASS,
                               am_bit_count := 1, am_byte_capacity := 1\<rparr>
                    in if capacity < 1 \<or> bits = None
                       then (fd_diag_set diag FD_ERR_BUFFER_TOO_SMALL FD_FIELD_BUFFER_CAPACITY 0
                               (str ''action mask requires one byte''), Some m1)
                       else (fd_diag_ok diag, Some (m1\<lparr>am_bits := Some ((the bits)[0 := 1])\<rparr>)))
      | _ \<Rightarrow> (fd_diag_set diag FD_ERR_INVALID_ARGUMENT FD_FIELD_NONE 0
                (str ''world or action prefix is null''), out))"

section \<open>Validation\<close>

definition fd_action_validate ::
    "fd_world option \<Rightarrow> fd_entity_id \<Rightarrow> fd_action option \<Rightarrow> diag \<Rightarrow> fd_result \<times> diag" where
  "fd_action_validate world actor action diag =
     (case (world, action) of
        (Some w, Some a) \<Rightarrow>
          if \<not> fd_input_struct_valid (Some (ac_struct_size a, ac_abi_version a)) 32
          then fd_diag_set diag FD_ERR_INVALID_SIZE FD_FIELD_STRUCT_SIZE 0
                 (str ''invalid action size or ABI'')
          else if \<not> fd_is_foreign_actor w actor
          then fd_diag_set diag FD_ERR_OUT_OF_RANGE FD_FIELD_ENTITY_ID 0
                 (str ''actor is not a U01 decision seat'')
          else if ac_category a \<noteq> FD_ACTION_PASS \<or> ac_parameter_count a \<noteq> 0
          then fd_diag_set diag FD_ERR_INVALID_ACTION FD_FIELD_ACTION 0
                 (str ''PASS with no parameters is the only U01 action'')
          else (case first_nonzero (ac_parameters a) of
                  Some index \<Rightarrow> fd_diag_set diag FD_ERR_INVALID_ACTION FD_FIELD_ACTION (of_nat index)
                                  (str ''unused PASS parameters must be zero'')
                | None \<Rightarrow> fd_diag_ok diag)
      | _ \<Rightarrow> fd_diag_set diag FD_ERR_INVALID_ARGUMENT FD_FIELD_NONE 0 (str ''world or action is null''))"

fun joint_seats :: "fd_world \<Rightarrow> fd_joint_decision \<Rightarrow> nat list \<Rightarrow> diag \<Rightarrow> fd_result \<times> diag" where
  "joint_seats w d [] diag = (FD_OK, diag)"
| "joint_seats w d (seat # seats) diag =
     (let s = jd_seats d ! seat in
      if sd_actor_id s \<noteq> rg_foreign_faction_ids (w_region w) ! seat
      then fd_diag_set diag FD_ERR_INVALID_ACTION FD_FIELD_ENTITY_ID (of_nat seat)
             (str ''seat actor IDs must be complete and canonical'')
      else case fd_action_validate (Some w) (sd_actor_id s) (Some (sd_action s)) diag of
             (result, diag1) \<Rightarrow>
               if result \<noteq> FD_OK then (result, diag1) else joint_seats w d seats diag1)"

definition fd_joint_validate :: "fd_world \<Rightarrow> fd_joint_decision \<Rightarrow> diag \<Rightarrow> fd_result \<times> diag" where
  "fd_joint_validate w d diag =
     (if \<not> fd_input_struct_valid (Some (jd_struct_size d, jd_abi_version d)) 136
      then fd_diag_set diag FD_ERR_INVALID_SIZE FD_FIELD_STRUCT_SIZE 0
             (str ''invalid joint decision size or ABI'')
      else if jd_reserved d \<noteq> 0
      then fd_diag_set diag FD_ERR_INVALID_ARGUMENT FD_FIELD_RESERVED 0
             (str ''joint decision reserved field must be zero'')
      else if jd_seat_count d \<noteq> 2
      then fd_diag_set diag FD_ERR_INVALID_ACTION FD_FIELD_SEAT_COUNT (jd_seat_count d)
             (str ''exactly two explicit seats are required'')
      else if jd_expected_tick d \<noteq> w_tick w
      then fd_diag_set diag FD_ERR_INVALID_ACTION FD_FIELD_TICK 0
             (str ''joint decision expected tick does not match'')
      else if jd_expected_pre_state_sha256 d \<noteq> w_state_sha256 w
      then fd_diag_set diag FD_ERR_INVALID_ACTION FD_FIELD_ACTION 0
             (str ''joint decision pre-state hash does not match'')
      else joint_seats w d [0..<FD_U01_SEAT_COUNT] diag)"

definition fd_hash_joint_decision_internal :: "fd_joint_decision \<Rightarrow> bytes" where
  "fd_hash_joint_decision_internal d =
     digest_parts
       ([fd_store_u32_le 36, str ''FrontierDirectorate/JointDecision/v1'',
         fd_store_u32_le (jd_seat_count d), fd_store_u32_le (jd_reserved d),
         fd_store_u64_le (jd_expected_tick d), take 32 (jd_expected_pre_state_sha256 d)] @
        concat (map (\<lambda>seat.
            let s = jd_seats d ! seat; a = sd_action s in
            [fd_store_u64_le (sd_actor_id s), fd_store_u32_le (ac_category a),
             fd_store_u32_le (ac_parameter_count a)] @
            map (\<lambda>parameter. fd_store_u32_le (ac_parameters a ! parameter)) [0..<4])
          [0..<FD_U01_SEAT_COUNT]))"

section \<open>What is accepted\<close>

lemma first_nonzero_None: "first_nonzero ps = None \<longleftrightarrow> (\<forall>i<4. ps ! i = 0)"
  by (auto simp: first_nonzero_def find_None_iff)

text \<open>A well-formed PASS.\<close>

definition pass_action :: "fd_action \<Rightarrow> bool" where
  "pass_action a \<longleftrightarrow> 32 \<le> ac_struct_size a \<and> ac_abi_version a = FD_ABI_VERSION \<and>
     ac_category a = FD_ACTION_PASS \<and> ac_parameter_count a = 0 \<and> (\<forall>i<4. ac_parameters a ! i = 0)"

lemma fd_action_validate_OK:
  "fst (fd_action_validate (Some w) actor (Some a) diag) = FD_OK \<longleftrightarrow>
     fd_is_foreign_actor w actor \<and> pass_action a"
  by (auto simp: fd_action_validate_def pass_action_def fd_input_struct_valid_def
      fd_output_struct_valid_def first_nonzero_None [symmetric] fd_const split: option.splits)

lemma fd_action_validate_OK_diag:
  "fd_is_foreign_actor w actor \<Longrightarrow> pass_action a \<Longrightarrow>
     fd_action_validate (Some w) actor (Some a) diag = fd_diag_ok diag"
  by (auto simp: fd_action_validate_def pass_action_def fd_input_struct_valid_def
      fd_output_struct_valid_def first_nonzero_None [symmetric])

definition canonical_decision :: "fd_world \<Rightarrow> fd_joint_decision \<Rightarrow> bool" where
  "canonical_decision w d \<longleftrightarrow>
     136 \<le> jd_struct_size d \<and> jd_abi_version d = FD_ABI_VERSION \<and> jd_reserved d = 0 \<and>
     jd_seat_count d = 2 \<and> jd_expected_tick d = w_tick w \<and>
     jd_expected_pre_state_sha256 d = w_state_sha256 w \<and>
     (\<forall>seat<2. sd_actor_id (jd_seats d ! seat) = rg_foreign_faction_ids (w_region w) ! seat \<and>
               pass_action (sd_action (jd_seats d ! seat)))"

lemma foreign_actor_seat:
  "seat < 2 \<Longrightarrow> fd_is_foreign_actor w (rg_foreign_faction_ids (w_region w) ! seat)"
  by (auto simp: fd_is_foreign_actor_def less_2_cases_iff)

lemma joint_seats_OK:
  "set seats \<subseteq> {..<2} \<Longrightarrow> fst (joint_seats w d seats diag) = FD_OK \<longleftrightarrow>
     (\<forall>seat\<in>set seats. sd_actor_id (jd_seats d ! seat) = rg_foreign_faction_ids (w_region w) ! seat \<and>
                        pass_action (sd_action (jd_seats d ! seat)))"
proof (induction seats arbitrary: diag)
  case (Cons seat seats)
  have e: "FD_ERR_INVALID_ACTION \<noteq> FD_OK" by (simp add: fd_const)
  obtain r g where v: "fd_action_validate (Some w) (sd_actor_id (jd_seats d ! seat))
      (Some (sd_action (jd_seats d ! seat))) diag = (r, g)" by fastforce
  have "r = FD_OK \<longleftrightarrow> fd_is_foreign_actor w (sd_actor_id (jd_seats d ! seat)) \<and>
      pass_action (sd_action (jd_seats d ! seat))"
    using fd_action_validate_OK [of w "sd_actor_id (jd_seats d ! seat)" _ diag] v by (metis fst_conv)
  then show ?case
    using Cons v e foreign_actor_seat [of seat w] by (auto simp: Let_def)
qed simp

lemma fd_joint_validate_OK:
  "fst (fd_joint_validate w d diag) = FD_OK \<longleftrightarrow> canonical_decision w d"
proof -
  have "set [0..<2] \<subseteq> {..<2 :: nat}" by auto
  from joint_seats_OK [OF this, of w d diag] show ?thesis
    by (simp add: fd_joint_validate_def canonical_decision_def fd_input_struct_valid_def
        fd_output_struct_valid_def fd_const)
      (auto simp: less_2_cases_iff)
qed


section \<open>The action properties\<close>

text \<open>C35: the joint validator accepts exactly the canonical decision: a current header, a zero
  reserved field, two seats, the world's own tick and state hash, and in each seat the canonical
  actor with a well-formed PASS.\<close>

theorem joint_validate_accepts_canonical:
  "fst (fd_joint_validate w d diag) = FD_OK \<longleftrightarrow> canonical_decision w d"
  by (rule fd_joint_validate_OK)

text \<open>The categories a mask allows: bit \<open>k\<close> stands for \<open>first_value + k\<close>.\<close>

definition mask_allows :: "fd_action_mask \<Rightarrow> u32 \<Rightarrow> bool" where
  "mask_allows m category \<longleftrightarrow>
     am_first_value m \<le> category \<and> category - am_first_value m < am_bit_count m \<and>
     (case am_bits m of None \<Rightarrow> False
      | Some bits \<Rightarrow> bit (bits ! (unat (category - am_first_value m) div 8))
                       (unat (category - am_first_value m) mod 8))"

lemma mask_query_result:
  assumes "fd_action_mask_query (Some w) actor (Some p) (Some m) diag = ((FD_OK, diag'), out)"
  obtains bits m' where "out = Some m'" "am_first_value m' = FD_ACTION_PASS" "am_bit_count m' = 1"
    "am_bits m = Some bits" "am_bits m' = Some (bits[0 := 1])" "fd_is_foreign_actor w actor"
proof -
  have d: "fd_diag_ok diag = (FD_OK, snd (fd_diag_ok diag))" by (simp add: prod_eq_iff)
  have ne: "fst (fd_diag_set diag c f i msg) = c" for c f i msg by simp
  from assms have q: "fst (fst (fd_action_mask_query (Some w) actor (Some p) (Some m) diag)) = FD_OK"
    "snd (fd_action_mask_query (Some w) actor (Some p) (Some m) diag) = out" by simp_all
  show ?thesis
    using q
    by (cases "am_bits m"; cases "first_nonzero (ap_parameters p)")
      (auto simp: fd_action_mask_query_def Let_def fd_const intro!: that split: if_splits)
qed

text \<open>The action mask and the validator agree: after a successful mask query for a seat, an
  action with a current header and no parameters is accepted exactly when the mask's bit for its
  category is set.\<close>

theorem action_mask_agrees_with_validation:
  assumes "fd_action_mask_query (Some w) actor (Some p) (Some m) diag = ((FD_OK, diag'), Some m')"
    and "the (am_bits m) \<noteq> []"
    and "32 \<le> ac_struct_size a" and "ac_abi_version a = FD_ABI_VERSION"
    and "ac_parameter_count a = 0" and "\<forall>i<4. ac_parameters a ! i = 0"
  shows "fst (fd_action_validate (Some w) actor (Some a) diag2) = FD_OK \<longleftrightarrow> mask_allows m' (ac_category a)"
proof -
  obtain bits where m': "am_first_value m' = FD_ACTION_PASS" "am_bit_count m' = 1"
    "am_bits m = Some bits" "am_bits m' = Some (bits[0 := 1])" and f: "fd_is_foreign_actor w actor"
    using mask_query_result [OF assms(1)] by (metis option.inject)
  have "mask_allows m' (ac_category a) \<longleftrightarrow> ac_category a = FD_ACTION_PASS"
  proof
    assume allow: "mask_allows m' (ac_category a)"
    then have "ac_category a - 1 < 1" using m' by (simp add: mask_allows_def)
    then have "ac_category a - 1 = 0" by (simp add: word_less_1)
    then show "ac_category a = FD_ACTION_PASS" by simp
  next
    assume "ac_category a = FD_ACTION_PASS"
    then show "mask_allows m' (ac_category a)"
      using m' assms(2) by (cases bits) (simp_all add: mask_allows_def bit_1_iff)
  qed
  then show ?thesis
    using f assms(3-) by (simp add: fd_action_validate_OK pass_action_def)
qed

definition pass_sample :: fd_action where
  "pass_sample = \<lparr>ac_struct_size = 32, ac_abi_version = 1, ac_category = 1, ac_parameter_count = 0,
     ac_parameters = [0, 0, 0, 0]\<rparr>"

theorem action_mask_agrees_with_validation_witness:
  "\<exists>m'. mask_allows m' (ac_category pass_sample) \<and>
     \<not> mask_allows m' (ac_category (pass_sample\<lparr>ac_category := 2\<rparr>))"
proof -
  let ?p = "\<lparr>ap_struct_size = 36, ap_abi_version = 1, ap_depth = 0, ap_category = 0,
    ap_parameter_count = 0, ap_parameters = [0, 0, 0, 0]\<rparr>"
  let ?m = "\<lparr>am_struct_size = 32, am_abi_version = 1, am_schema_id = 0, am_first_value = 0,
    am_bit_count = 0, am_byte_capacity = 1, am_bits = Some [0]\<rparr>"
  let ?q = "fd_action_mask_query (Some hash_sample) 0 (Some ?p) (Some ?m) None"
  let ?m' = "?m\<lparr>am_schema_id := 1, am_first_value := 1, am_bit_count := 1, am_byte_capacity := 1,
    am_bits := Some [1]\<rparr>"
  have q: "?q = ((FD_OK, None), Some ?m')" by code_simp
  have ok: "fst (fd_action_validate (Some hash_sample) 0 (Some pass_sample) None) = FD_OK"
    and bad: "fst (fd_action_validate (Some hash_sample) 0 (Some (pass_sample\<lparr>ac_category := 2\<rparr>)) None) \<noteq> FD_OK"
    by code_simp+
  have params: "\<forall>i<4. ac_parameters pass_sample ! i = 0"
    by (auto simp: pass_sample_def less_Suc_eq numeral_eq_Suc)
  have "mask_allows ?m' (ac_category pass_sample)"
    using action_mask_agrees_with_validation [OF q, of pass_sample None] ok params
    by (simp add: pass_sample_def)
  moreover have "\<not> mask_allows ?m' (ac_category (pass_sample\<lparr>ac_category := 2\<rparr>))"
    using action_mask_agrees_with_validation [OF q, of "pass_sample\<lparr>ac_category := 2\<rparr>" None] bad params
    by (simp add: pass_sample_def)
  ultimately show ?thesis by blast
qed

end
