(* ===== verification/FD_Ground.thy ===== *)
theory FD_Ground
  imports FD_Validate
begin

text \<open>
  What validation looks at: the grid, its tiles, the entities, the region and the three counts.  The
  locale \<open>same_ground\<close> is the contract of two worlds that agree on those; everything else (the
  tick, the hashes, the owner, the generation diagnostics) is free.  Stepping and reloading are
  instances of it.
\<close>

locale same_ground =
  fixes v w :: fd_world
  assumes width: "wc_width (w_config v) = wc_width (w_config w)"
    and height: "wc_height (w_config v) = wc_height (w_config w)"
    and tile_count: "w_tile_count v = w_tile_count w"
    and tiles: "w_tiles v = w_tiles w"
    and entities: "w_entities v = w_entities w"
    and region: "w_region v = w_region w"
    and river_count: "w_river_tile_count v = w_river_tile_count w"
    and road_count: "w_road_tile_count v = w_road_tile_count w"
    and land_count: "w_land_tile_count v = w_land_tile_count w"
begin

lemmas same = width height tile_count tiles entities region river_count road_count land_count

lemma overlay: "has_overlay v = has_overlay w"
  by (simp add: has_overlay_def fun_eq_iff same)

lemma terrain: "terrain_at v = terrain_at w"
  by (simp add: terrain_at_def fun_eq_iff same)

lemma neighbors: "fd_neighbor_count_with_overlay v = fd_neighbor_count_with_overlay w"
proof -
  have "neighbor_block v = neighbor_block w"
    by (simp add: neighbor_block_def fun_eq_iff overlay)
  then show ?thesis
    unfolding fd_neighbor_count_with_overlay_def [abs_def] by (simp add: same)
qed

lemma adjacent: "fd_adjacent_terrain v = fd_adjacent_terrain w"
  by (simp add: fd_adjacent_terrain_def fun_eq_iff terrain same Let_def)

lemmas grid = overlay terrain neighbors adjacent

lemma scan: "validate_tiles v = validate_tiles w"
proof -
  have "validate_tile v = validate_tile w"
    by (simp add: validate_tile_def fun_eq_iff Let_def grid same cong: if_cong)
  then show ?thesis by (simp add: validate_tiles_def same)
qed

lemma coast: "fd_validate_coast_land v n = fd_validate_coast_land w n"
proof -
  have "coast_rows v ys ps pe = coast_rows w ys ps pe" for ys ps pe
    by (induction ys arbitrary: ps pe) (simp_all add: grid same split: option.splits)
  then show ?thesis by (simp add: fd_validate_coast_land_def Let_def same)
qed

lemma river_eq: "fd_validate_river v = fd_validate_river w"
proof -
  have tile: "river_tile v = river_tile w"
    by (simp add: river_tile_def fun_eq_iff Let_def grid)
  have "z = w \<Longrightarrow> river_walk v n k p c = river_walk z n k p c" for z n k p c
    by (induction z n k p c rule: river_walk.induct)
      (subst (1 2) river_walk.simps, auto simp: Let_def grid same split: prod.splits)
  then have walk: "river_walk v n k p c = river_walk w n k p c" for n k p c by blast
  have dist: "minimum_water_distance v = minimum_water_distance w"
    unfolding minimum_water_distance_def [abs_def] by (simp add: grid same cong: if_cong)
  show ?thesis
    unfolding fd_validate_river_def
    by (simp add: tile walk dist grid same cong: if_cong option.case_cong prod.case_cong)
qed

lemma settlements: "fd_validate_settlements v = fd_validate_settlements w"
proof -
  have tile: "settlement_tile v = settlement_tile w"
    by (simp add: settlement_tile_def fun_eq_iff Let_def grid same)
  show ?thesis
    unfolding fd_validate_settlements_def [abs_def]
    by (simp add: tile grid same cong: if_cong option.case_cong)
qed

lemma road_eq: "fd_validate_road v = fd_validate_road w"
proof -
  have tile: "road_tile v = road_tile w"
    by (simp add: road_tile_def fun_eq_iff Let_def grid)
  have "z = w \<Longrightarrow> road_walk v n k p c r e = road_walk z n k p c r e" for z n k p c r e
    by (induction z n k p c r e rule: road_walk.induct)
      (subst (1 2) road_walk.simps, auto simp: Let_def grid split: prod.splits)
  then have walk: "road_walk v n k p c r e = road_walk w n k p c r e" for n k p c r e by blast
  show ?thesis
    unfolding fd_validate_road_def
    by (simp add: tile walk grid same cong: if_cong option.case_cong prod.case_cong)
qed

lemma valid: "world_valid v = world_valid w"
  by (simp add: world_valid_def bounds_ok_def fd_validate_ownership_graph_def scan coast river_eq
      settlements road_eq same)

end

end
