(* ===== verification/FD_Step.thy ===== *)
theory FD_Step
  imports FD_Action FD_Ground
begin

text \<open>
  The world step of \<^verbatim>\<open>src/core/fd_core.c\<close>: 24 local ticks of 23 phases over one joint decision.  The
  nested loops are a scan over the 552 (local tick, phase) positions in their order, whose state is
  the world, the result under construction and the caller's diagnostic.  Proved here: an invariant
  gives the state at every position, so the whole schedule and both traces are explicit; a rejected
  step changes neither the world nor the output; an accepted one advances the tick by 24, leaves
  everything else alone and stores the hash of the new state.
\<close>

record fd_entity_trace_entry =
  te_local_tick :: u32
  te_phase_id :: u32
  te_entity_id :: fd_entity_id

record fd_step_result =
  sr_struct_size :: u32
  sr_abi_version :: u32
  sr_tick_before :: u64
  sr_tick_after :: u64
  sr_accepted_action_count :: u32
  sr_reward_count :: u32
  sr_phase_count :: u32
  sr_phase_ids :: "u32 list"
  sr_local_tick_count :: u32
  sr_phase_trace_count :: u32
  sr_phase_trace :: "u32 list"
  sr_actor_trace_count :: u32
  sr_actor_trace :: "fd_entity_id list"
  sr_entity_trace_count :: u32
  sr_entity_trace :: "fd_entity_trace_entry list"
  sr_transition_staged :: u32
  sr_transition_stage_phase :: u32
  sr_state_hash_phase :: u32
  sr_rng_domain_count :: u32
  sr_transition_stage_trace_index :: u32
  sr_state_hash_trace_index :: u32
  sr_staged_tick_before :: u64
  sr_staged_tick_after :: u64
  sr_staged_decision :: fd_joint_decision
  sr_staged_pre_state_sha256 :: bytes
  sr_staged_decision_sha256 :: bytes
  sr_staged_event_sha256 :: bytes
  sr_finalized_post_state_sha256 :: bytes
  sr_pre_state_sha256 :: bytes
  sr_post_state_sha256 :: bytes
  sr_event_sha256 :: bytes

section \<open>The value \<open>memset\<close> leaves\<close>

definition zero_entry :: fd_entity_trace_entry where
  "zero_entry = \<lparr>te_local_tick = 0, te_phase_id = 0, te_entity_id = 0\<rparr>"

definition zero_action :: fd_action where
  "zero_action = \<lparr>ac_struct_size = 0, ac_abi_version = 0, ac_category = 0, ac_parameter_count = 0,
     ac_parameters = replicate 4 0\<rparr>"

definition zero_decision :: fd_joint_decision where
  "zero_decision = \<lparr>jd_struct_size = 0, jd_abi_version = 0, jd_seat_count = 0, jd_reserved = 0,
     jd_expected_tick = 0, jd_expected_pre_state_sha256 = replicate 32 0,
     jd_seats = replicate 2 \<lparr>sd_actor_id = 0, sd_action = zero_action\<rparr>\<rparr>"

definition zero_step_result :: fd_step_result where
  "zero_step_result =
     \<lparr>sr_struct_size = 0, sr_abi_version = 0, sr_tick_before = 0, sr_tick_after = 0,
      sr_accepted_action_count = 0, sr_reward_count = 0, sr_phase_count = 0,
      sr_phase_ids = replicate FD_U01_PHASE_COUNT 0, sr_local_tick_count = 0,
      sr_phase_trace_count = 0, sr_phase_trace = replicate FD_U01_PHASE_TRACE_COUNT 0,
      sr_actor_trace_count = 0, sr_actor_trace = replicate FD_U01_SEAT_COUNT 0,
      sr_entity_trace_count = 0, sr_entity_trace = replicate FD_U01_ENTITY_TRACE_COUNT zero_entry,
      sr_transition_staged = 0, sr_transition_stage_phase = 0, sr_state_hash_phase = 0,
      sr_rng_domain_count = 0, sr_transition_stage_trace_index = 0, sr_state_hash_trace_index = 0,
      sr_staged_tick_before = 0, sr_staged_tick_after = 0, sr_staged_decision = zero_decision,
      sr_staged_pre_state_sha256 = replicate 32 0, sr_staged_decision_sha256 = replicate 32 0,
      sr_staged_event_sha256 = replicate 32 0, sr_finalized_post_state_sha256 = replicate 32 0,
      sr_pre_state_sha256 = replicate 32 0, sr_post_state_sha256 = replicate 32 0,
      sr_event_sha256 = replicate 32 0\<rparr>"

section \<open>The step\<close>

text \<open>The fields filled before the phase loop.\<close>

definition step_initial :: "fd_world \<Rightarrow> fd_joint_decision \<Rightarrow> fd_step_result" where
  "step_initial w d =
     zero_step_result
       \<lparr>sr_struct_size := 5112, sr_abi_version := FD_ABI_VERSION,
        sr_tick_before := w_tick w, sr_tick_after := w_tick w + FD_OPERATIONAL_TICKS,
        sr_accepted_action_count := 2, sr_reward_count := 0, sr_phase_count := 23,
        sr_local_tick_count := 24, sr_phase_trace_count := 552, sr_actor_trace_count := 2,
        sr_actor_trace := [rg_foreign_faction_ids (w_region w) ! 0,
                           rg_foreign_faction_ids (w_region w) ! 1],
        sr_pre_state_sha256 := w_state_sha256 w,
        sr_event_sha256 := the (snd (fd_sha256 None 0 (Some (sr_event_sha256 zero_step_result)))),
        sr_staged_decision_sha256 := fd_hash_joint_decision_internal d,
        sr_phase_ids := map (\<lambda>phase. of_nat phase + 1) [0..<FD_U01_PHASE_COUNT]\<rparr>"

text \<open>\<open>entry = &result.entity_trace[result.entity_trace_count]; ...; ++result.entity_trace_count\<close>\<close>

definition trace_entity :: "u32 \<Rightarrow> u32 \<Rightarrow> fd_entity_id \<Rightarrow> fd_step_result \<Rightarrow> fd_step_result" where
  "trace_entity local_tick phase_id i r =
     r\<lparr>sr_entity_trace := (sr_entity_trace r)[unat (sr_entity_trace_count r) :=
         \<lparr>te_local_tick = local_tick, te_phase_id = phase_id, te_entity_id = i\<rparr>],
       sr_entity_trace_count := sr_entity_trace_count r + 1\<rparr>"

definition stage_transition :: "fd_joint_decision \<Rightarrow> nat \<Rightarrow> fd_step_result \<Rightarrow> fd_step_result" where
  "stage_transition d trace_index r =
     r\<lparr>sr_transition_staged := 1, sr_transition_stage_phase := 22,
       sr_transition_stage_trace_index := of_nat trace_index,
       sr_staged_tick_before := sr_tick_before r, sr_staged_tick_after := sr_tick_after r,
       sr_staged_decision :=
         d\<lparr>jd_struct_size := 136, jd_abi_version := FD_ABI_VERSION,
           jd_seats := fold (\<lambda>seat ss. ss[seat := (ss ! seat)
               \<lparr>sd_action := (sd_action (ss ! seat))
                  \<lparr>ac_struct_size := 32, ac_abi_version := FD_ABI_VERSION\<rparr>\<rparr>])
             [0..<FD_U01_SEAT_COUNT] (jd_seats d)\<rparr>,
       sr_staged_pre_state_sha256 := sr_pre_state_sha256 r,
       sr_staged_event_sha256 := sr_event_sha256 r\<rparr>"

definition blank_report :: fd_validation_report where
  "blank_report = \<lparr>vr_struct_size = 48, vr_abi_version = FD_ABI_VERSION, vr_passed_invariants = 0,
     vr_failed_invariants = 0, vr_land_tile_count = 0, vr_water_tile_count = 0,
     vr_river_tile_count = 0, vr_road_tile_count = 0, vr_road_river_crossings = 0,
     vr_first_failed_tile_index = 0\<rparr>"

type_synonym step_state = "fd_world \<times> fd_step_result \<times> diag"

text \<open>One position of the two nested loops; \<open>Inl\<close> is a \<open>return\<close> with the world as it is then.\<close>

definition step_phase ::
    "fd_joint_decision \<Rightarrow> nat \<times> nat \<Rightarrow> step_state \<Rightarrow> ((fd_result \<times> diag) \<times> fd_world) + step_state" where
  "step_phase d = (\<lambda>(local_tick, phase) (w, r, diag).
     let trace_index = local_tick * FD_U01_PHASE_COUNT + phase;
         r = r\<lparr>sr_phase_trace := (sr_phase_trace r)[trace_index := of_nat phase + 1]\<rparr>
     in if phase = 0 then
          let r = fold (\<lambda>k. trace_entity (of_nat local_tick) 1 (en_id (w_entities w ! k)))
                    [0..<FD_U01_ENTITY_COUNT] r
          in if local_tick = 0 then
               (case fst (fd_world_validate_internal (Some w) (Some blank_report) diag) of
                  (status, diag) \<Rightarrow>
                    if status \<noteq> FD_OK then Inl ((status, diag), w) else Inr (w, r, diag))
             else Inr (w, r, diag)
        else if local_tick = 0 \<and> phase = 1 then
          Inr (w, fold (\<lambda>seat. trace_entity 0 2 (sd_actor_id (jd_seats d ! seat)))
                    [0..<FD_U01_SEAT_COUNT] r, diag)
        else if local_tick + 1 = 24 \<and> phase = 21 then
          Inr (w, stage_transition d trace_index r, diag)
        else if phase = 22 then
          let w = w\<lparr>w_tick := w_tick w + 1\<rparr>
          in if local_tick + 1 = 24 then
               (case fd_world_compute_hash (Some w) of
                  (status, world) \<Rightarrow>
                    if status \<noteq> FD_OK
                    then Inl (fd_diag_set diag FD_ERR_INTERNAL FD_FIELD_NONE (of_nat local_tick)
                                (str ''state hash computation failed''), the world)
                    else
                      let w = the world
                      in Inr (w, r\<lparr>sr_state_hash_phase := 23,
                                  sr_state_hash_trace_index := of_nat trace_index,
                                  sr_finalized_post_state_sha256 := w_state_sha256 w\<rparr>, diag))
             else Inr (w, r, diag)
        else Inr (w, r, diag))"

fun scan_sum :: "('p \<Rightarrow> 's \<Rightarrow> 'e + 's) \<Rightarrow> 'p list \<Rightarrow> 's \<Rightarrow> 'e + 's" where
  "scan_sum f [] s = Inr s"
| "scan_sum f (p # ps) s = (case f p s of Inl e \<Rightarrow> Inl e | Inr s' \<Rightarrow> scan_sum f ps s')"

definition step_positions :: "(nat \<times> nat) list" where
  "step_positions = concat (map (\<lambda>local_tick. map (Pair local_tick) [0..<FD_U01_PHASE_COUNT]) [0..<24])"

definition fd_world_step ::
    "fd_world option \<Rightarrow> fd_joint_decision option \<Rightarrow> fd_step_result option \<Rightarrow> diag
       \<Rightarrow> (fd_result \<times> diag) \<times> fd_world option \<times> fd_step_result option" where
  "fd_world_step world decision out diag =
     (case (world, decision) of
        (Some w, Some d) \<Rightarrow>
          if \<not> fd_output_struct_valid (map_option (\<lambda>r. (sr_struct_size r, sr_abi_version r)) out) 5112
          then (fd_diag_set diag FD_ERR_INVALID_SIZE FD_FIELD_STRUCT_SIZE 0
                  (str ''invalid step result output''), world, out)
          else (case fd_joint_validate w d diag of (status, diag) \<Rightarrow>
            if status \<noteq> FD_OK then ((status, diag), world, out)
            else if w_tick w > - 1 - FD_OPERATIONAL_TICKS
            then (fd_diag_set diag FD_ERR_CAPACITY FD_FIELD_TICK 0
                    (str ''tick counter would overflow''), world, out)
            else
              case scan_sum (step_phase d) step_positions (w, step_initial w d, diag) of
                Inl (res, w') \<Rightarrow> (res, Some w', out)
              | Inr (w', r, diag) \<Rightarrow>
                  if sr_transition_staged r \<noteq> 1 \<or>
                     sr_transition_stage_trace_index r \<ge> sr_state_hash_trace_index r
                  then (fd_diag_set diag FD_ERR_INTERNAL FD_FIELD_NONE 0
                          (str ''transition staging order was not observed''), Some w', out)
                  else (fd_diag_ok diag, Some w',
                        Some (r\<lparr>sr_post_state_sha256 := w_state_sha256 w'\<rparr>)))
      | _ \<Rightarrow> (fd_diag_set diag FD_ERR_INVALID_ARGUMENT FD_FIELD_NONE 0
                (str ''world or joint decision is null''), world, out))"

section \<open>The state at every position\<close>

definition with_traces ::
    "fd_step_result \<Rightarrow> u32 list \<Rightarrow> fd_entity_trace_entry list \<Rightarrow> u32 \<Rightarrow> fd_step_result" where
  "with_traces r pt et ec =
     r\<lparr>sr_phase_trace := pt, sr_entity_trace := et, sr_entity_trace_count := ec\<rparr>"

lemma phase_trace_with_traces:
  "(with_traces r pt et ec)\<lparr>sr_phase_trace := pt'\<rparr> = with_traces r pt' et ec"
  "sr_phase_trace (with_traces r pt et ec) = pt"
  by (simp_all add: with_traces_def)

lemma trace_entity_with_traces:
  "trace_entity lt ph i (with_traces r pt et ec) =
     with_traces r pt (et[unat ec := \<lparr>te_local_tick = lt, te_phase_id = ph, te_entity_id = i\<rparr>]) (ec + 1)"
  by (simp add: with_traces_def trace_entity_def)

lemma stage_with_traces:
  "stage_transition d n (with_traces r pt et ec) = with_traces (stage_transition d n r) pt et ec"
  by (simp add: with_traces_def stage_transition_def)

lemma fold_trace_entity:
  assumes "length L + m < 4294967296" and "length ks \<le> m"
  shows "fold (\<lambda>k. trace_entity lt ph (h k)) ks
      (with_traces r pt (L @ replicate m z) (of_nat (length L))) =
    with_traces r pt
      (L @ map (\<lambda>k. \<lparr>te_local_tick = lt, te_phase_id = ph, te_entity_id = h k\<rparr>) ks @
       replicate (m - length ks) z) (of_nat (length L + length ks))"
  using assms
proof (induction ks arbitrary: L m)
  case (Cons k ks)
  let ?e = "\<lparr>te_local_tick = lt, te_phase_id = ph, te_entity_id = h k\<rparr>"
  obtain m' where m: "m = Suc m'" using Cons.prems(2) by (cases m) auto
  have "unat (of_nat (length L) :: u32) = length L"
    using Cons.prems(1) by (intro unat_of_nat_u32) simp
  then have "trace_entity lt ph (h k) (with_traces r pt (L @ replicate m z) (of_nat (length L))) =
      with_traces r pt ((L @ [?e]) @ replicate m' z) (of_nat (length (L @ [?e])))"
    by (simp add: trace_entity_with_traces m list_update_append add.commute)
  then show ?case using Cons.IH [of "L @ [?e]" m'] Cons.prems m by (simp add: add.commute)
qed simp

definition step_entries :: "fd_world \<Rightarrow> fd_joint_decision \<Rightarrow> nat \<Rightarrow> fd_entity_trace_entry list" where
  "step_entries w d j =
     (if j mod 23 = 0 then
        map (\<lambda>k. \<lparr>te_local_tick = of_nat (j div 23), te_phase_id = 1, te_entity_id = en_id (w_entities w ! k)\<rparr>)
          [0..<FD_U01_ENTITY_COUNT]
      else if j = 1 then
        map (\<lambda>seat. \<lparr>te_local_tick = 0, te_phase_id = 2, te_entity_id = sd_actor_id (jd_seats d ! seat)\<rparr>)
          [0..<FD_U01_SEAT_COUNT]
      else [])"

definition entity_log :: "fd_world \<Rightarrow> fd_joint_decision \<Rightarrow> nat \<Rightarrow> fd_entity_trace_entry list" where
  "entity_log w d k = concat (map (step_entries w d) [0..<k])"

definition phase_log :: "nat \<Rightarrow> u32 list" where
  "phase_log k = map (\<lambda>j. of_nat (j mod 23) + 1) [0..<k]"

text \<open>The state before position \<open>k\<close>.\<close>

definition step_at :: "fd_world \<Rightarrow> fd_joint_decision \<Rightarrow> diag \<Rightarrow> nat \<Rightarrow> step_state" where
  "step_at w d diag k =
     (w\<lparr>w_tick := w_tick w + of_nat (k div 23)\<rparr>,
      with_traces (if 550 < k then stage_transition d 550 (step_initial w d) else step_initial w d)
        (phase_log k @ replicate (552 - k) 0)
        (entity_log w d k @ replicate (146 - length (entity_log w d k)) zero_entry)
        (of_nat (length (entity_log w d k))),
      if k = 0 then diag else snd (fst (fd_world_validate_internal (Some w) (Some blank_report) diag)))"

lemma entity_log_Suc: "entity_log w d (Suc k) = entity_log w d k @ step_entries w d k"
  by (simp add: entity_log_def)

lemma length_step_entries:
  "length (step_entries w d j) = (if j mod 23 = 0 then 6 else if j = 1 then 2 else 0)"
  by (simp add: step_entries_def)

lemma length_entity_log:
  "length (entity_log w d k) = 6 * ((k + 22) div 23) + (if 2 \<le> k then 2 else 0)"
proof (induction k)
  case 0
  then show ?case by (simp add: entity_log_def)
next
  case (Suc k)
  have "(Suc k + 22) div 23 = (k + 22) div 23 + (if k mod 23 = 0 then 1 else 0)"
  proof (cases "k mod 23 = 0")
    case True
    then obtain q where "k = 23 * q" by (metis mod_0_imp_dvd dvdE)
    then show ?thesis by simp
  next
    case False
    then have "(k mod 23 + 22) div 23 = 1" "(k mod 23 + 23) div 23 = 1"
      using mod_less_divisor [of 23 k] by linarith+
    moreover have "(k + 22) div 23 = k div 23 + (k mod 23 + 22) div 23"
      "(Suc k + 22) div 23 = k div 23 + (k mod 23 + 23) div 23"
      using div_mult_mod_eq [of k 23] by linarith+
    ultimately show ?thesis using False by simp
  qed
  then show ?case
    using Suc by (auto simp: entity_log_Suc length_step_entries)
qed

lemma phase_log_write:
  "k < 552 \<Longrightarrow> (phase_log k @ replicate (552 - k) 0)[k := of_nat (k mod 23) + 1] =
     phase_log (Suc k) @ replicate (552 - Suc k) 0"
proof -
  assume k: "k < 552"
  then have "replicate (552 - k) (0 :: u32) = 0 # replicate (552 - Suc k) 0"
    by (metis Suc_diff_Suc replicate_Suc)
  moreover have "length (phase_log k) = k" by (simp add: phase_log_def)
  ultimately show ?thesis by (simp add: list_update_append phase_log_def)
qed

lemma entity_log_room: "k < 552 \<Longrightarrow> length (entity_log w d k) + length (step_entries w d k) \<le> 146"
proof -
  assume "k < 552"
  then have "(Suc k + 22) div 23 \<le> 24" by simp
  then have "length (entity_log w d (Suc k)) \<le> 146" using length_entity_log [of w d "Suc k"] by simp
  then show ?thesis by (simp add: entity_log_Suc)
qed

lemma entity_log_full: "length (entity_log w d 552) = 146"
  by (simp add: length_entity_log)

lemma record_entries:
  assumes "k < 552"
  shows "with_traces r pt
      (entity_log w d (Suc k) @ replicate (146 - length (entity_log w d (Suc k))) zero_entry)
      (of_nat (length (entity_log w d (Suc k)))) =
    (if k mod 23 = 0 then
       fold (\<lambda>j. trace_entity (of_nat (k div 23)) 1 (en_id (w_entities w ! j))) [0..<6]
         (with_traces r pt (entity_log w d k @ replicate (146 - length (entity_log w d k)) zero_entry)
           (of_nat (length (entity_log w d k))))
     else if k = 1 then
       fold (\<lambda>seat. trace_entity 0 2 (sd_actor_id (jd_seats d ! seat))) [0..<2]
         (with_traces r pt (entity_log w d k @ replicate (146 - length (entity_log w d k)) zero_entry)
           (of_nat (length (entity_log w d k))))
     else with_traces r pt (entity_log w d k @ replicate (146 - length (entity_log w d k)) zero_entry)
           (of_nat (length (entity_log w d k))))"
proof -
  define L where "L = entity_log w d k"
  have e: "entity_log w d (Suc k) = L @ step_entries w d k" by (simp add: entity_log_Suc L_def)
  have room: "length L + length (step_entries w d k) \<le> 146"
    using entity_log_room [OF assms, of w d] by (simp add: L_def)
  have c: "length L + (146 - length L) < 4294967296" using room by simp
  show ?thesis
    unfolding e L_def [symmetric]
    using room by (cases "k mod 23 = 0"; cases "k = 1")
      (simp_all add: fold_trace_entity [OF c] step_entries_def)
qed

section \<open>One position\<close>

lemma Suc_div_23: "Suc k div 23 = k div 23 + (if k mod 23 = 22 then 1 else 0)"
  unfolding div_Suc mod_Suc by simp

lemma step_phase_at:
  assumes valid: "world_valid w" and k: "k < 551"
  shows "step_phase d (k div 23, k mod 23) (step_at w d diag k) = Inr (step_at w d diag (Suc k))"
proof -
  define r0 where "r0 = (if 550 < k then stage_transition d 550 (step_initial w d) else step_initial w d)"
  define v where "v = w\<lparr>w_tick := w_tick w + of_nat (k div 23)\<rparr>"
  define g where "g = (if k = 0 then diag else snd (fst (fd_world_validate_internal (Some w) (Some blank_report) diag)))"
  let ?et = "entity_log w d k @ replicate (146 - length (entity_log w d k)) zero_entry"
  let ?ec = "of_nat (length (entity_log w d k)) :: u32"
  let ?pt = "phase_log (Suc k) @ replicate (552 - Suc k) 0"
  let ?et' = "entity_log w d (Suc k) @ replicate (146 - length (entity_log w d (Suc k))) zero_entry"
  let ?ec' = "of_nat (length (entity_log w d (Suc k))) :: u32"
  have st: "step_at w d diag k = (v, with_traces r0 (phase_log k @ replicate (552 - k) 0) ?et ?ec, g)"
    by (simp add: step_at_def r0_def v_def g_def)
  have pos: "k div 23 * 23 + k mod 23 = k" by simp
  have wr: "(phase_log k @ replicate (552 - k) 0)[k := of_nat (k mod 23) + 1] = ?pt"
    using k by (intro phase_log_write) simp
  have k552: "k < 552" using k by simp
  have ids: "w_entities v = w_entities w" "wc_width (w_config v) = wc_width (w_config w)"
    by (simp_all add: v_def)
  have R: "(with_traces r0 (phase_log k @ replicate (552 - k) 0) ?et ?ec)
      \<lparr>sr_phase_trace := (sr_phase_trace (with_traces r0 (phase_log k @ replicate (552 - k) 0) ?et ?ec))
         [k div 23 * 23 + k mod 23 := of_nat (k mod 23) + 1]\<rparr> = with_traces r0 ?pt ?et ?ec"
    by (simp only: phase_trace_with_traces pos wr)
  note entries = record_entries [OF k552, of r0 ?pt w d]
  have dS: "Suc k div 23 = k div 23 + (if k mod 23 = 22 then 1 else 0)"
    by (rule Suc_div_23)
  have quiet: "step_at w d diag (Suc k) = (v, with_traces r0 ?pt ?et' ?ec', g')"
    if "k mod 23 \<noteq> 22" "k \<noteq> 550"
      "g' = snd (fst (fd_world_validate_internal (Some w) (Some blank_report) diag))" for g'
    using that k by (simp add: step_at_def r0_def v_def dS)
  consider (zero) "k = 0" | (first) "k mod 23 = 0" "k \<noteq> 0" | (seats) "k mod 23 \<noteq> 0" "k = 1"
    | (stage) "k = 550" | (tick) "k mod 23 = 22"
    | (idle) "k mod 23 \<noteq> 0" "k \<noteq> 1" "k \<noteq> 550" "k mod 23 \<noteq> 22" by blast
  then show ?thesis
  proof cases
    case zero
    have vw: "v = w" using zero by (simp add: v_def)
    obtain gd where gd: "fst (fd_world_validate_internal (Some w) (Some blank_report) g) = (FD_OK, gd)"
      using validate_OK_iff [of w blank_report g] valid by (metis prod.collapse)
    have "g = diag" using zero by (simp add: g_def)
    then have q: "step_at w d diag (Suc k) = (v, with_traces r0 ?pt ?et' ?ec', gd)"
      using quiet [of gd] zero gd by simp
    show ?thesis
      unfolding st q using zero entries R gd vw
      by (simp add: step_phase_def Let_def)
  next
    case first
    then have "k div 23 \<noteq> 0" by auto
    moreover have "g = snd (fst (fd_world_validate_internal (Some w) (Some blank_report) diag))"
      using first by (simp add: g_def)
    moreover have "k \<noteq> 550" using first by auto
    ultimately show ?thesis
      unfolding st using first entries R quiet [of g] ids
      by (simp add: step_phase_def Let_def)
  next
    case seats
    have "g = snd (fst (fd_world_validate_internal (Some w) (Some blank_report) diag))"
      using seats by (simp add: g_def)
    then show ?thesis
      unfolding st using seats entries R quiet [of g]
      by (simp add: step_phase_def Let_def)
  next
    case stage
    have "step_at w d diag (Suc k) = (v, with_traces (stage_transition d 550 r0) ?pt ?et' ?ec', g)"
      using stage by (simp add: step_at_def r0_def v_def g_def)
    then show ?thesis
      unfolding st using stage R record_entries [OF k552, of "stage_transition d 550 r0" ?pt w d]
      by (simp add: step_phase_def Let_def stage_with_traces)
  next
    case tick
    have ne: "k div 23 + 1 \<noteq> 24" using k tick by presburger
    have k550: "k \<noteq> 550" using tick by auto
    then have "step_at w d diag (Suc k) = (v\<lparr>w_tick := w_tick v + 1\<rparr>, with_traces r0 ?pt ?et' ?ec', g)"
      using tick k by (auto simp: step_at_def r0_def v_def g_def dS)
    moreover have "k \<noteq> 1" "k mod 23 \<noteq> 0" using tick by auto
    ultimately show ?thesis
      unfolding st using tick entries R ne
      by (simp add: step_phase_def Let_def)
  next
    case idle
    have dm: "k = k div 23 * 23 + k mod 23" by simp
    have "\<not> (k div 23 + 1 = 24 \<and> k mod 23 = 21)"
    proof
      assume "k div 23 + 1 = 24 \<and> k mod 23 = 21"
      with dm have "k = 23 * 23 + 21" by simp
      with idle(3) show False by simp
    qed
    moreover have "\<not> (k div 23 = 0 \<and> k mod 23 = 1)"
      using idle(2) dm by auto
    moreover have "g = snd (fst (fd_world_validate_internal (Some w) (Some blank_report) diag))"
      using idle by (auto simp: g_def)
    ultimately show ?thesis
      unfolding st using idle entries R quiet [of g]
      by (auto simp: step_phase_def Let_def)
  qed
qed

section \<open>The whole schedule\<close>

lemma scan_sum_upt:
  assumes "\<And>k. a \<le> k \<Longrightarrow> k < n \<Longrightarrow> f (g k) (S k) = Inr (S (Suc k))" and "a \<le> n"
  shows "scan_sum f (map g [a..<n] @ ps) (S a) = scan_sum f ps (S n)"
  using assms(2,1)
proof (induction "n - a" arbitrary: a)
  case (Suc m)
  then have "a < n" by simp
  then have "[a..<n] = a # [Suc a..<n]" by (simp add: upt_rec)
  then show ?case using Suc.hyps(1) [of "Suc a"] Suc.hyps(2) Suc.prems(2) \<open>a < n\<close> by simp
qed simp

lemma row_major_positions:
  fixes m n :: nat
  shows "concat (map (\<lambda>t. map (Pair t) [0..<m]) [0..<n]) = map (\<lambda>k. (k div m, k mod m)) [0..<n * m]"
proof (induction n)
  case (Suc n)
  have "map (Pair n) [0..<m] = map (\<lambda>k. (k div m, k mod m)) [n * m..<n * m + m]"
  proof -
    have "[n * m..<n * m + m] = map (\<lambda>i. i + n * m) [0..<m]"
      by (simp only: map_add_upt add.commute [of "n * m" m])
    then show ?thesis by (auto simp: comp_def)
  qed
  moreover have "[0..<Suc n * m] = [0..<n * m] @ [n * m..<n * m + m]"
    using upt_add_eq_append [of 0 "n * m" m] by (simp only: mult_Suc add.commute [of m] zero_le)
  ultimately show ?case using Suc by (simp only: upt_Suc_append zero_le map_append concat_append list.map concat.simps append_Nil2)
qed simp

lemma step_positions_eq: "step_positions = map (\<lambda>k. (k div 23, k mod 23)) [0..<551] @ [(23, 22)]"
proof -
  have "[0..<24 * 23] = [0..<551] @ [551 :: nat]" using upt_Suc_append [of 0 551] by simp
  then show ?thesis unfolding step_positions_def row_major_positions by (simp del: upt_Suc)
qed

definition stepped_world :: "fd_world \<Rightarrow> fd_world" where
  "stepped_world w =
     (let w' = w\<lparr>w_tick := w_tick w + FD_OPERATIONAL_TICKS\<rparr>
      in w'\<lparr>w_state_sha256 := state_hash w'\<rparr>)"

text \<open>The result of an accepted step, every field written out.\<close>

definition staged_decision :: "fd_joint_decision \<Rightarrow> fd_joint_decision" where
  "staged_decision d = sr_staged_decision (stage_transition d 550 zero_step_result)"

definition step_report :: "fd_world \<Rightarrow> fd_joint_decision \<Rightarrow> fd_step_result" where
  "step_report w d =
     \<lparr>sr_struct_size = 5112, sr_abi_version = 1, sr_tick_before = w_tick w,
      sr_tick_after = w_tick w + 24, sr_accepted_action_count = 2, sr_reward_count = 0,
      sr_phase_count = 23, sr_phase_ids = map (\<lambda>phase. of_nat phase + 1) [0..<23],
      sr_local_tick_count = 24, sr_phase_trace_count = 552, sr_phase_trace = phase_log 552,
      sr_actor_trace_count = 2,
      sr_actor_trace = [rg_foreign_faction_ids (w_region w) ! 0, rg_foreign_faction_ids (w_region w) ! 1],
      sr_entity_trace_count = 146, sr_entity_trace = entity_log w d 552,
      sr_transition_staged = 1, sr_transition_stage_phase = 22, sr_state_hash_phase = 23,
      sr_rng_domain_count = 0, sr_transition_stage_trace_index = 550,
      sr_state_hash_trace_index = 551, sr_staged_tick_before = w_tick w,
      sr_staged_tick_after = w_tick w + 24, sr_staged_decision = staged_decision d,
      sr_staged_pre_state_sha256 = w_state_sha256 w,
      sr_staged_decision_sha256 = fd_hash_joint_decision_internal d,
      sr_staged_event_sha256 = sha256 [], sr_finalized_post_state_sha256 = w_state_sha256 (stepped_world w),
      sr_pre_state_sha256 = w_state_sha256 w,
      sr_post_state_sha256 = w_state_sha256 (stepped_world w), sr_event_sha256 = sha256 []\<rparr>"

lemma sha256_null: "the (snd (fd_sha256 None 0 (Some out))) = sha256 []"
  by (simp add: fd_sha256_def sha256_def sha.upd_nil [OF sha_wf_init])

lemma step_phase_last:
  "step_phase d (23, 22) (step_at w d diag 551) =
     Inr (stepped_world w,
          (with_traces (stage_transition d 550 (step_initial w d)) (phase_log 552)
             (entity_log w d 552) 146)
            \<lparr>sr_state_hash_phase := 23, sr_state_hash_trace_index := 551,
             sr_finalized_post_state_sha256 := w_state_sha256 (stepped_world w)\<rparr>,
          snd (fst (fd_world_validate_internal (Some w) (Some blank_report) diag)))"
proof -
  have log: "entity_log w d 551 = entity_log w d 552"
    using entity_log_Suc [of w d 551] by (simp add: step_entries_def)
  have pt: "(phase_log 551 @ [0])[551 := 23] = phase_log 552"
    using phase_log_write [of 551] by simp
  have st: "step_at w d diag 551 = (w\<lparr>w_tick := w_tick w + 23\<rparr>,
      with_traces (stage_transition d 550 (step_initial w d)) (phase_log 551 @ [0])
        (entity_log w d 552) 146, snd (fst (fd_world_validate_internal (Some w) (Some blank_report) diag)))"
    by (simp add: step_at_def log entity_log_full)
  have h: "fd_world_compute_hash (Some (w\<lparr>w_tick := w_tick w + 24\<rparr>)) = (FD_OK, Some (stepped_world w))"
    by (simp add: fd_world_compute_hash_def stepped_world_def digest_world_parts Let_def)
  show ?thesis
    unfolding st by (simp add: step_phase_def Let_def phase_trace_with_traces pt h add.assoc)
qed

lemma step_scan:
  assumes "world_valid w"
  shows "scan_sum (step_phase d) step_positions (w, step_initial w d, diag) =
     Inr (stepped_world w,
          (with_traces (stage_transition d 550 (step_initial w d)) (phase_log 552)
             (entity_log w d 552) 146)
            \<lparr>sr_state_hash_phase := 23, sr_state_hash_trace_index := 551,
             sr_finalized_post_state_sha256 := w_state_sha256 (stepped_world w)\<rparr>,
          snd (fst (fd_world_validate_internal (Some w) (Some blank_report) diag)))"
proof -
  have "with_traces (step_initial w d) (replicate 552 0) (replicate 146 zero_entry) 0 = step_initial w d"
    by (simp add: with_traces_def step_initial_def zero_step_result_def)
  then have "(w, step_initial w d, diag) = step_at w d diag 0"
    by (simp add: step_at_def phase_log_def entity_log_def)
  then show ?thesis
    unfolding step_positions_eq
    using scan_sum_upt [of 0 551 "step_phase d" "\<lambda>k. (k div 23, k mod 23)" "step_at w d diag" "[(23, 22)]"]
      step_phase_at [OF assms] by (simp add: step_phase_last)
qed

lemma step_scan_invalid:
  assumes "\<not> world_valid w"
  shows "\<exists>e. scan_sum (step_phase d) step_positions (w, step_initial w d, diag) = Inl (e, w) \<and> fst e \<noteq> FD_OK"
proof -
  have "step_positions = (0, 0) # tl step_positions"
    by (simp add: step_positions_def upt_rec [of 0])
  moreover have "\<exists>c g. fst (fd_world_validate_internal (Some w) (Some blank_report) diag) = (c, g) \<and> c \<noteq> FD_OK"
    using validate_OK_iff [of w blank_report diag] assms by (metis prod.collapse)
  then obtain c g where "fst (fd_world_validate_internal (Some w) (Some blank_report) diag) = (c, g)" "c \<noteq> FD_OK"
    by blast
  then have "step_phase d (0, 0) (w, step_initial w d, diag) = Inl ((c, g), w)"
    by (simp add: step_phase_def Let_def)
  ultimately show ?thesis using \<open>c \<noteq> FD_OK\<close> by (metis fst_conv scan_sum.simps(2) sum.simps(5))
qed

lemma step_report_eq:
  "(with_traces (stage_transition d 550 (step_initial w d)) (phase_log 552) (entity_log w d 552) 146)
     \<lparr>sr_state_hash_phase := 23, sr_state_hash_trace_index := 551,
      sr_finalized_post_state_sha256 := w_state_sha256 (stepped_world w),
      sr_post_state_sha256 := w_state_sha256 (stepped_world w)\<rparr> = step_report w d"
  by (simp add: step_report_def with_traces_def stage_transition_def step_initial_def
      zero_step_result_def staged_decision_def sha256_null)

definition step_accepts :: "fd_world \<Rightarrow> fd_joint_decision \<Rightarrow> fd_step_result \<Rightarrow> bool" where
  "step_accepts w d out \<longleftrightarrow>
     5112 \<le> sr_struct_size out \<and> sr_abi_version out = FD_ABI_VERSION \<and>
     canonical_decision w d \<and> w_tick w \<le> - 25 \<and> world_valid w"

lemma fd_world_step_accepted:
  assumes "step_accepts w d out"
  shows "\<exists>diag'. fd_world_step (Some w) (Some d) (Some out) diag =
    ((FD_OK, diag'), Some (stepped_world w), Some (step_report w d))"
proof -
  obtain g where j: "fd_joint_validate w d diag = (FD_OK, g)"
    using assms fd_joint_validate_OK [of w d diag] by (metis prod.collapse step_accepts_def)
  have "world_valid w" "\<not> w_tick w > - 1 - FD_OPERATIONAL_TICKS"
    and h: "fd_output_struct_valid (Some (sr_struct_size out, sr_abi_version out)) 5112"
    using assms by (auto simp: step_accepts_def fd_output_struct_valid_def)
  moreover have "\<exists>diag'. fd_diag_ok x = (FD_OK, diag')" for x
    by (simp add: fd_diag_ok_def fd_diag_set_def)
  ultimately show ?thesis
    by (simp add: fd_world_step_def j step_scan with_traces_def stage_transition_def
        flip: step_report_eq)
qed

lemma fd_world_step_rejected:
  assumes "\<not> step_accepts w d out"
  shows "\<exists>e. fd_world_step (Some w) (Some d) (Some out) diag = (e, Some w, Some out) \<and> fst e \<noteq> FD_OK"
proof (cases "fd_output_struct_valid (Some (sr_struct_size out, sr_abi_version out)) 5112")
  case False
  then show ?thesis by (simp add: fd_world_step_def fd_const)
next
  case h: True
  obtain r g where j: "fd_joint_validate w d diag = (r, g)" by fastforce
  show ?thesis
  proof (cases "r = FD_OK")
    case False
    then show ?thesis using h j by (simp add: fd_world_step_def)
  next
    case True
    then have c: "canonical_decision w d" using fd_joint_validate_OK [of w d diag] j by simp
    show ?thesis
    proof (cases "w_tick w > - 1 - FD_OPERATIONAL_TICKS")
      case True
      then show ?thesis using h j \<open>r = FD_OK\<close> by (simp add: fd_world_step_def fd_const)
    next
      case False
      then have "\<not> world_valid w"
        using assms h c by (auto simp: step_accepts_def fd_output_struct_valid_def)
      from step_scan_invalid [OF this, of d g] show ?thesis
        using h j \<open>r = FD_OK\<close> False by (auto simp: fd_world_step_def)
    qed
  qed
qed

section \<open>Validity does not look at the tick or the hash\<close>

abbreviation (input) retick :: "fd_world \<Rightarrow> u64 \<Rightarrow> bytes \<Rightarrow> fd_world" where
  "retick w t h \<equiv> w\<lparr>w_tick := t, w_state_sha256 := h\<rparr>"

interpretation retick: same_ground "retick w t h" w for w t h
  by unfold_locales simp_all

lemma world_valid_retick [simp]: "world_valid (retick w t h) = world_valid w"
  by (rule retick.valid)

lemma stepped_world_eq:
  "stepped_world w = retick w (w_tick w + 24) (state_hash (w\<lparr>w_tick := w_tick w + 24\<rparr>))"
  by (simp add: stepped_world_def Let_def)

lemma world_valid_stepped [simp]: "world_valid (stepped_world w) = world_valid w"
  by (simp add: stepped_world_eq)

lemma hash_consistent_stepped: "hash_consistent (stepped_world w)"
  by (simp add: hash_consistent_def stepped_world_def state_hash_def world_bytes_def world_parts_def Let_def)

section \<open>The step properties\<close>

text \<open>C3: a step of a world by a joint decision succeeds exactly when the output struct is current,
  the decision is canonical for the world, the tick counter has room for 24 more and the world is
  valid.  It then advances the world by 24 ticks, changes nothing else but the state hash, and writes
  the full report; in every other case neither the world nor the output changes.\<close>

theorem fd_world_step_effect:
  "snd (fd_world_step (Some w) (Some d) (Some out) diag) =
     (if step_accepts w d out then (Some (stepped_world w), Some (step_report w d))
      else (Some w, Some out)) \<and>
   (fst (fst (fd_world_step (Some w) (Some d) (Some out) diag)) = FD_OK \<longleftrightarrow> step_accepts w d out)"
  using fd_world_step_accepted [of w d out diag] fd_world_step_rejected [of w d out diag]
  by (cases "step_accepts w d out") auto


definition entity_sweep :: "fd_world \<Rightarrow> nat \<Rightarrow> fd_entity_trace_entry list" where
  "entity_sweep w local_tick =
     map (\<lambda>k. \<lparr>te_local_tick = of_nat local_tick, te_phase_id = 1, te_entity_id = en_id (w_entities w ! k)\<rparr>)
       [0..<6]"

definition seat_sweep :: "fd_joint_decision \<Rightarrow> fd_entity_trace_entry list" where
  "seat_sweep d =
     map (\<lambda>seat. \<lparr>te_local_tick = 0, te_phase_id = 2, te_entity_id = sd_actor_id (jd_seats d ! seat)\<rparr>) [0..<2]"

lemma entity_log_block:
  assumes "1 \<le> t"
  shows "concat (map (step_entries w d) [t * 23..<t * 23 + 23]) = entity_sweep w t"
proof -
  have "[t * 23..<t * 23 + 23] = t * 23 # map (\<lambda>i. i + (t * 23 + 1)) [0..<22]"
    by (simp add: upt_conv_Cons map_add_upt)
  moreover have "step_entries w d (i + (t * 23 + 1)) = []" if "i < 22" for i
    using that assms by (simp add: step_entries_def)
  then have "concat (map (step_entries w d \<circ> (\<lambda>i. i + (t * 23 + 1))) [0..<22]) = []" by simp
  ultimately show ?thesis
    by (simp add: step_entries_def entity_sweep_def)
qed

lemma entity_log_blocks:
  "entity_log w d (23 + n * 23) = entity_log w d 23 @ concat (map (entity_sweep w) [1..<Suc n])"
proof (induction n)
  case (Suc n)
  have "entity_log w d (23 + Suc n * 23) =
      entity_log w d (23 + n * 23) @ concat (map (step_entries w d) [Suc n * 23..<Suc n * 23 + 23])"
    unfolding entity_log_def using upt_add_eq_append [of 0 "23 + n * 23" 23]
    by (simp add: add.commute add.left_commute)
  then show ?case using Suc entity_log_block [of "Suc n" w d] by simp
qed simp

lemma entity_log_first: "entity_log w d 23 = entity_sweep w 0 @ seat_sweep d"
proof -
  have "[0..<23] = [0, 1] @ map (\<lambda>i. i + 2) [0..<21 :: nat]"
    by (simp add: map_add_upt upt_conv_Cons)
  moreover have "step_entries w d (i + 2) = []" if "i < 21" for i
    using that by (simp add: step_entries_def)
  then have "concat (map (step_entries w d \<circ> (\<lambda>i. i + 2)) [0..<21]) = []" by simp
  ultimately show ?thesis
    by (simp add: entity_log_def step_entries_def entity_sweep_def seat_sweep_def)
qed

lemma step_report_traces:
  "sr_phase_trace (step_report w d) = concat (replicate 24 (map of_nat [1..<24])) \<and>
   sr_entity_trace (step_report w d) =
     entity_sweep w 0 @ seat_sweep d @ concat (map (entity_sweep w) [1..<24]) \<and>
   unat (sr_phase_trace_count (step_report w d)) = length (sr_phase_trace (step_report w d)) \<and>
   unat (sr_entity_trace_count (step_report w d)) = length (sr_entity_trace (step_report w d)) \<and>
   sr_phase_trace (step_report w d) ! unat (sr_transition_stage_trace_index (step_report w d)) = 22 \<and>
   sr_phase_trace (step_report w d) ! unat (sr_state_hash_trace_index (step_report w d)) = 23 \<and>
   sr_state_hash_trace_index (step_report w d) = sr_transition_stage_trace_index (step_report w d) + 1"
proof -
  have "phase_log (n * 23) = concat (replicate n (map of_nat [1..<24]))" for n
  proof -
    have "phase_log (n * 23) = map (\<lambda>(t, p). of_nat p + 1) (map (\<lambda>k. (k div 23, k mod 23)) [0..<n * 23])"
      by (simp add: phase_log_def)
    also have "\<dots> = concat (map (\<lambda>t. map (\<lambda>p. of_nat p + 1) [0..<23]) [0..<n])"
      unfolding row_major_positions [symmetric] by (simp add: map_concat comp_def)
    also have "map (\<lambda>p. of_nat p + 1) [0..<23] = (map of_nat [1..<24] :: u32 list)"
    proof -
      have "[1..<24] = map Suc [0..<23]" using map_Suc_upt [of 0 23] by simp
      then show ?thesis by (simp add: comp_def add.commute del: upt_Suc)
    qed
    finally show ?thesis by (simp add: map_replicate_const)
  qed
  from this [of 24] have phases: "phase_log 552 = concat (replicate 24 (map of_nat [1..<24]))" by simp
  have ents: "entity_log w d 552 = entity_sweep w 0 @ seat_sweep d @ concat (map (entity_sweep w) [1..<24])"
    using entity_log_blocks [of w d 23] by (simp add: entity_log_first del: upt_Suc)
  have "length (phase_log 552) = 552" "phase_log 552 ! 550 = 22" "phase_log 552 ! 551 = 23"
    by (simp_all add: phase_log_def del: upt_Suc)
  then show ?thesis
    unfolding step_report_def using phases ents entity_log_full [of w d] by (simp del: upt_Suc)
qed

text \<open>C4: the report of an accepted step has a fixed schedule: 24 rounds of the phases 1 to 23 in order;
  the entity trace lists all six entities in index order once per local tick, and after those of local
  tick 0 the two seats in seat order; the transition is staged in phase 22 of the last local tick, one
  position before the state hash of phase 23.  A rejected step leaves the output as it was.\<close>

theorem step_report_schedule:
  "\<exists>r. snd (snd (fd_world_step (Some w) (Some d) (Some out) diag)) = Some r \<and>
     (if step_accepts w d out then
        sr_phase_trace r = concat (replicate 24 (map of_nat [1..<24])) \<and>
        sr_entity_trace r = entity_sweep w 0 @ seat_sweep d @ concat (map (entity_sweep w) [1..<24]) \<and>
        unat (sr_phase_trace_count r) = length (sr_phase_trace r) \<and>
        unat (sr_entity_trace_count r) = length (sr_entity_trace r) \<and>
        sr_phase_trace r ! unat (sr_transition_stage_trace_index r) = 22 \<and>
        sr_phase_trace r ! unat (sr_state_hash_trace_index r) = 23 \<and>
        sr_state_hash_trace_index r = sr_transition_stage_trace_index r + 1
      else r = out)"
  using fd_world_step_accepted [of w d out diag] fd_world_step_rejected [of w d out diag]
    step_report_traces [of w d] by (cases "step_accepts w d out") auto

end
