(* ===== verification/FD_Load.thy ===== *)
theory FD_Load
  imports FD_Parse FD_Step
begin

text \<open>
  Loading a world, from \<^verbatim>\<open>src/core/fd_serialize.c\<close>: \<open>fd_decode_world\<close> in the order of its checks
  (the part before the allocations reports its own diagnostics, the part after them leaves through
  \<open>load_fail\<close>), \<open>fd_world_load\<close> and \<open>fd_world_clone_via_save\<close>.  \<open>Inl\<close> is an early return; in the
  part after the allocations it is \<open>goto load_fail\<close> with the result code.  The context is threaded
  through the allocations.
\<close>

unbundle bit_operations_syntax

definition fd_u01_name_valid :: "bytes \<Rightarrow> u32 \<Rightarrow> bool" where
  "fd_u01_name_valid bytes n =
     (if n = 0 \<or> unat n \<ge> FD_MAX_NAME_BYTES then False
      else list_all (\<lambda>index. \<not> (bytes ! index < 0x20 \<or> bytes ! index > 0x7e)) [0..<unat n])"

section \<open>Before the allocations\<close>

definition decode_manifest ::
    "fd_section list \<Rightarrow> u32 \<Rightarrow> diag \<Rightarrow> (fd_result \<times> diag) + u16" where
  "decode_manifest sections parsed_section_count diag =
     (let payload = fs_payload (sections ! 1) in
      if fs_length (sections ! 1) < 16
      then Inl (fd_diag_set diag FD_ERR_FORMAT FD_FIELD_SECTION 1
                  (str ''save manifest prefix is truncated''))
      else
        let file_minor = fd_load_u16_le (drop 2 payload) in
        if fd_load_u16_le payload \<noteq> FD_SAVE_VERSION_MAJOR \<or>
           fd_load_u16_le (drop 4 payload) \<noteq> FD_SAVE_VERSION_MAJOR \<or>
           fd_load_u16_le (drop 6 payload) > FD_SAVE_VERSION_MINOR \<or>
           fd_load_u32_le (drop 8 payload) \<noteq> parsed_section_count \<or>
           fd_load_u32_le (drop 12 payload) \<noteq> 0
        then Inl (fd_diag_set diag FD_ERR_VERSION FD_FIELD_FORMAT_VERSION 0
                    (str ''unsupported or inconsistent save manifest''))
        else Inr file_minor)"

definition decode_versions ::
    "fd_section list \<Rightarrow> u16 \<Rightarrow> diag \<Rightarrow> (fd_result \<times> diag) + unit" where
  "decode_versions sections file_minor diag =
     (let payload = fs_payload (sections ! 2) in
      if fs_length (sections ! 2) < 40 \<or>
         fd_load_u32_le payload \<noteq> ucast FD_API_VERSION_MAJOR \<or>
         fd_load_u32_le (drop 12 payload) \<noteq> FD_GENERATOR_VERSION \<or>
         fd_load_u32_le (drop 16 payload) \<noteq> FD_RULESET_VERSION \<or>
         fd_load_u32_le (drop 20 payload) \<noteq> ucast FD_SAVE_VERSION_MAJOR \<or>
         fd_load_u32_le (drop 24 payload) \<noteq> ucast file_minor \<or>
         fd_load_u32_le (drop 28 payload) \<noteq> ucast FD_REPLAY_VERSION_MAJOR \<or>
         fd_load_u32_le (drop 36 payload) \<noteq> FD_RNG_REGISTRY_VERSION
      then Inl (fd_diag_set diag FD_ERR_VERSION FD_FIELD_FORMAT_VERSION 0
                  (str ''unsupported authoritative version tuple''))
      else Inr ())"

definition blank_config :: fd_world_config where
  "blank_config = \<lparr>wc_struct_size = 0, wc_abi_version = 0, wc_width = 0, wc_height = 0,
     wc_attempt_budget = 0, wc_generator_version = 0, wc_ruleset_version = 0,
     wc_forest_density_ppm = 0, wc_hill_density_ppm = 0, wc_wetland_density_ppm = 0,
     wc_reference_mode = 0, wc_reserved = replicate 8 0\<rparr>"

definition decode_configuration ::
    "fd_section list \<Rightarrow> diag \<Rightarrow> (fd_result \<times> diag) + fd_world_config" where
  "decode_configuration sections diag =
     (let payload = fs_payload (sections ! 3) in
      if fs_length (sections ! 3) \<noteq> 68
      then Inl (fd_diag_set diag FD_ERR_FORMAT FD_FIELD_SECTION 3
                  (str ''invalid configuration section length''))
      else
        let config = (the (snd (fd_world_config_init (Some blank_config))))
              \<lparr>wc_width := fd_load_u32_le payload,
               wc_height := fd_load_u32_le (drop 4 payload),
               wc_attempt_budget := fd_load_u32_le (drop 8 payload),
               wc_generator_version := fd_load_u32_le (drop 12 payload),
               wc_ruleset_version := fd_load_u32_le (drop 16 payload),
               wc_forest_density_ppm := fd_load_u32_le (drop 20 payload),
               wc_hill_density_ppm := fd_load_u32_le (drop 24 payload),
               wc_wetland_density_ppm := fd_load_u32_le (drop 28 payload),
               wc_reference_mode := fd_load_u32_le (drop 32 payload)\<rparr>
        in if wc_width config < FD_MIN_WIDTH \<or> wc_width config > FD_MAX_WIDTH \<or>
              wc_height config < FD_MIN_HEIGHT \<or> wc_height config > FD_MAX_HEIGHT \<or>
              (ucast (wc_width config) * ucast (wc_height config) :: u64) > FD_MAX_TILES \<or>
              wc_attempt_budget config = 0 \<or>
              wc_attempt_budget config > FD_MAX_GENERATION_ATTEMPTS \<or>
              wc_generator_version config \<noteq> FD_GENERATOR_VERSION \<or>
              wc_ruleset_version config \<noteq> FD_RULESET_VERSION \<or>
              wc_reference_mode config \<noteq> 1
           then Inl (fd_diag_set diag FD_ERR_FORMAT FD_FIELD_WIDTH 0
                       (str ''invalid canonical world configuration''))
           else if fd_hash_config_internal config \<noteq> take 32 (drop 36 payload)
           then Inl (fd_diag_set diag FD_ERR_CHECKSUM FD_FIELD_CONTENT 3
                       (str ''configuration hash mismatch''))
           else Inr config)"

definition decode_pack :: "bytes \<Rightarrow> fd_content_pack" where
  "decode_pack entry = \<lparr>cp_stable_id = fd_load_u64_le entry, cp_sha256 = take 32 (drop 8 entry)\<rparr>"

text \<open>The pack loop: \<open>Inl\<close> is the index of the first pack out of order.\<close>

fun decode_packs :: "bytes \<Rightarrow> nat list \<Rightarrow> fd_content_pack list \<Rightarrow> nat + fd_content_pack list" where
  "decode_packs payload [] packs = Inr packs"
| "decode_packs payload (index # rest) packs =
     (let pack = decode_pack (drop (4 + index * 40) payload)
      in if cp_stable_id pack = 0 \<or>
            (index > 0 \<and> cp_stable_id (packs ! (index - 1)) \<ge> cp_stable_id pack)
         then Inl index
         else decode_packs payload rest (packs @ [pack]))"

definition decode_content ::
    "fd_section list \<Rightarrow> diag \<Rightarrow> (fd_result \<times> diag) + (u32 \<times> fd_content_pack list)" where
  "decode_content sections diag =
     (let payload = fs_payload (sections ! 4) in
      if fs_length (sections ! 4) < 4
      then Inl (fd_diag_set diag FD_ERR_FORMAT FD_FIELD_SECTION 4 (str ''truncated content section''))
      else
        let content_count = fd_load_u32_le payload in
        if content_count > FD_MAX_CONTENT_PACKS \<or>
           fs_length (sections ! 4) \<noteq> 4 + ucast content_count * 40
        then Inl (fd_diag_set diag FD_ERR_CAPACITY FD_FIELD_CONTENT content_count
                    (str ''invalid content pack count or length''))
        else case decode_packs payload [0..<unat content_count] [] of
               Inl index \<Rightarrow> Inl (fd_diag_set diag FD_ERR_FORMAT FD_FIELD_CONTENT (of_nat index)
                                  (str ''noncanonical content pack order''))
             | Inr packs \<Rightarrow> Inr (content_count, packs))"

definition decode_inputs ::
    "fd_world_config \<Rightarrow> u32 \<Rightarrow> fd_content_pack list \<Rightarrow> diag \<Rightarrow> (fd_result \<times> diag) + (bytes \<times> diag)" where
  "decode_inputs config content_count packs diag =
     (let manifest = \<lparr>cm_struct_size = 24, cm_abi_version = FD_ABI_VERSION,
            cm_pack_count = content_count, cm_reserved = 0, cm_packs = Some packs\<rparr>;
          (result, diag1) = fd_validate_generation_inputs_internal (Some config) (Some manifest) diag
      in if result \<noteq> FD_OK \<or> wc_forest_density_ppm config = 0 \<or> wc_hill_density_ppm config = 0 \<or>
            wc_wetland_density_ppm config = 0
         then Inl (fd_diag_set diag1 FD_ERR_FORMAT FD_FIELD_TERRAIN_DENSITY 0
                     (str ''save contains impossible generator configuration''))
         else Inr (fd_hash_content_internal manifest, diag1))"

definition decode_rng_and_time :: "fd_section list \<Rightarrow> diag \<Rightarrow> (fd_result \<times> diag) + unit" where
  "decode_rng_and_time sections diag =
     (let payload = fs_payload (sections ! 5); time = fs_payload (sections ! 6) in
      if fs_length (sections ! 5) \<noteq> 24 \<or> fd_load_u32_le (drop 16 payload) \<noteq> FD_RNG_REGISTRY_VERSION \<or>
         fd_load_u32_le (drop 20 payload) \<noteq> 0
      then Inl (fd_diag_set diag FD_ERR_VERSION FD_FIELD_SECTION 5 (str ''invalid RNG identity section''))
      else if fs_length (sections ! 6) \<noteq> 56
      then Inl (fd_diag_set diag FD_ERR_FORMAT FD_FIELD_SECTION 6 (str ''invalid time section length''))
      else if fd_load_u64_le (drop 8 time) \<noteq> 1 \<or> fd_load_u64_le (drop 16 time) \<noteq> FD_OPERATIONAL_TICKS \<or>
              fd_load_u64_le (drop 24 time) \<noteq> 168 \<or> fd_load_u64_le (drop 32 time) \<noteq> 720 \<or>
              fd_load_u64_le (drop 40 time) \<noteq> 2160 \<or> fd_load_u64_le (drop 48 time) \<noteq> 8640
      then Inl (fd_diag_set diag FD_ERR_FORMAT FD_FIELD_TICK 0 (str ''time-scale definition mismatch''))
      else Inr ())"

section \<open>After the allocations\<close>

definition decode_tile :: "bytes \<Rightarrow> fd_tile" where
  "decode_tile payload =
     \<lparr>tl_elevation_cm = fd_load_u32_le (drop 8 payload), tl_rainfall_mm = fd_load_u32_le (drop 12 payload),
      tl_settlement_id = fd_load_u64_le (drop 16 payload), tl_terrain = fd_load_u32_le payload,
      tl_overlays = fd_load_u32_le (drop 4 payload)\<rparr>"

definition decode_region :: "bytes \<Rightarrow> fd_region" where
  "decode_region payload =
     \<lparr>rg_id = fd_load_u64_le payload, rg_political_owner_id = fd_load_u64_le (drop 8 payload),
      rg_settlement_ids = [fd_load_u64_le (drop 16 payload), fd_load_u64_le (drop 24 payload)],
      rg_foreign_faction_ids = [fd_load_u64_le (drop 32 payload), fd_load_u64_le (drop 40 payload)],
      rg_river_outlet_tile_id = fd_load_u64_le (drop 48 payload),
      rg_road_start_tile_id = fd_load_u64_le (drop 56 payload),
      rg_road_end_tile_id = fd_load_u64_le (drop 64 payload),
      rg_river_tile_count = fd_load_u32_le (drop 72 payload),
      rg_road_tile_count = fd_load_u32_le (drop 76 payload)\<rparr>"

text \<open>Section 7 into the freshly zeroed world; \<open>None\<close> is \<open>result = FD_ERR_FORMAT; goto load_fail\<close>.\<close>

definition decode_geography :: "fd_section list \<Rightarrow> fd_world \<Rightarrow> fd_world option" where
  "decode_geography sections w =
     (let payload = fs_payload (sections ! 7); n = unat (w_tile_count w) in
      if fs_length (sections ! 7) \<noteq> 104 + ucast (w_tile_count w) * 24 \<or>
         fd_load_u32_le payload \<noteq> w_tile_count w \<or>
         fd_load_u32_le (drop 4 payload) \<noteq> wc_width (w_config w) \<or>
         fd_load_u32_le (drop 8 payload) \<noteq> wc_height (w_config w)
      then None
      else Some (w\<lparr>w_river_tile_count := fd_load_u32_le (drop 12 payload),
                   w_road_tile_count := fd_load_u32_le (drop 16 payload),
                   w_land_tile_count := fd_load_u32_le (drop 20 payload),
                   w_tiles := map (\<lambda>index. decode_tile (drop (24 + index * 24) payload)) [0..<n],
                   w_region := decode_region (drop (24 + n * 24) payload)\<rparr>))"

text \<open>The entity loop of section 8: remaining slots, position, entities read so far.\<close>

definition decode_entity :: "bytes \<Rightarrow> u32 \<Rightarrow> fd_entity" where
  "decode_entity payload name_length =
     \<lparr>en_id = fd_load_u64_le payload, en_kind = fd_load_u32_le (drop 8 payload),
      en_x = fd_load_u32_le (drop 12 payload), en_y = fd_load_u32_le (drop 16 payload),
      en_region_id = fd_load_u64_le (drop 20 payload), en_owner_id = fd_load_u64_le (drop 28 payload),
      en_name_length = name_length,
      en_name = blit (replicate 48 0) 0 (take (unat name_length) (drop 40 payload))\<rparr>"

fun decode_entities :: "fd_section \<Rightarrow> nat \<Rightarrow> u64 \<Rightarrow> fd_entity list \<Rightarrow> (u64 \<times> fd_entity list) option" where
  "decode_entities section 0 position entities = Some (position, entities)"
| "decode_entities section (Suc n) position entities =
     (if fs_length section - position < 40 then None
      else
        let payload = drop (unat position) (fs_payload section);
            name_length = fd_load_u32_le (drop 36 payload)
        in if unat name_length \<ge> FD_MAX_NAME_BYTES \<or>
              (ucast name_length :: u64) > fs_length section - position - 40 \<or>
              \<not> fd_u01_name_valid (drop 40 payload) name_length
           then None
           else decode_entities section n (position + (40 + ucast name_length))
                  (entities @ [decode_entity payload name_length]))"

definition decode_roster :: "fd_section list \<Rightarrow> fd_world \<Rightarrow> fd_world option" where
  "decode_roster sections w =
     (let payload = fs_payload (sections ! 8) in
      if fs_length (sections ! 8) < 8 \<or> fd_load_u32_le payload \<noteq> 6 \<or> fd_load_u32_le (drop 4 payload) \<noteq> 6
      then None
      else case decode_entities (sections ! 8) FD_U01_ENTITY_COUNT 8 [] of
             None \<Rightarrow> None
           | Some (position, entities) \<Rightarrow>
               if position \<noteq> fs_length (sections ! 8) then None
               else Some (w\<lparr>w_entities := entities\<rparr>))"

definition decode_queues :: "fd_section list \<Rightarrow> bool" where
  "decode_queues sections \<longleftrightarrow>
     \<not> (fs_length (sections ! 9) \<noteq> 4 \<or> fd_load_u32_le (fs_payload (sections ! 9)) \<noteq> 0 \<or>
        fs_length (sections ! 10) \<noteq> 16 \<or> fd_load_u32_le (fs_payload (sections ! 10)) \<noteq> 0 \<or>
        fd_load_u32_le (drop 4 (fs_payload (sections ! 10))) \<noteq> 0 \<or>
        fd_load_u32_le (drop 8 (fs_payload (sections ! 10))) \<noteq> 0 \<or>
        fd_load_u32_le (drop 12 (fs_payload (sections ! 10))) \<noteq> 0 \<or>
        fs_length (sections ! 11) \<noteq> 32)"

section \<open>The whole loader\<close>

definition blank_world :: fd_world where
  "blank_world =
     \<lparr>w_context = 0, w_config = blank_config, w_root_seed_le = replicate 16 0, w_content_count = 0,
      w_content = [], w_configuration_sha256 = replicate 32 0, w_content_sha256 = replicate 32 0,
      w_tick = 0, w_tile_count = 0, w_tiles = [],
      w_entities = replicate 6 blank_entity,
      w_region = \<lparr>rg_id = 0, rg_political_owner_id = 0, rg_settlement_ids = [0, 0],
        rg_foreign_faction_ids = [0, 0], rg_river_outlet_tile_id = 0, rg_road_start_tile_id = 0,
        rg_road_end_tile_id = 0, rg_river_tile_count = 0, rg_road_tile_count = 0\<rparr>,
      w_river_tile_count = 0, w_road_tile_count = 0, w_land_tile_count = 0,
      w_river_raised_tile_count = 0, w_river_min_carve_cm = 0, w_allocation_size = 0,
      w_state_sha256 = replicate 32 0\<rparr>"

definition world_tile_bytes :: "fd_world_config \<Rightarrow> u64" where
  "world_tile_bytes config = ucast (wc_width config) * ucast (wc_height config) * 24"

definition loaded_header ::
    "nat \<Rightarrow> fd_section list \<Rightarrow> fd_world_config \<Rightarrow> u32 \<Rightarrow> fd_content_pack list \<Rightarrow> bytes \<Rightarrow> fd_world" where
  "loaded_header context sections config content_count packs hash =
     blank_world\<lparr>w_context := context, w_config := config,
       w_tile_count := wc_width config * wc_height config,
       w_allocation_size := ucast (world_tile_bytes config + 1544),
       w_content_count := content_count, w_content := packs,
       w_configuration_sha256 := take 32 (drop 36 (fs_payload (sections ! 3))),
       w_content_sha256 := hash, w_root_seed_le := take 16 (fs_payload (sections ! 5)),
       w_tick := fd_load_u64_le (fs_payload (sections ! 6))\<rparr>"

definition decode_body ::
    "fd_section list \<Rightarrow> fd_world \<Rightarrow> diag \<Rightarrow> (fd_result \<times> diag) + (fd_world \<times> diag)" where
  "decode_body sections w diag =
     (if w_tick w mod FD_OPERATIONAL_TICKS \<noteq> 0 \<or> w_tick w > - 1 - FD_OPERATIONAL_TICKS
      then Inl (FD_ERR_FORMAT, diag)
      else case decode_geography sections w of
        None \<Rightarrow> Inl (FD_ERR_FORMAT, diag)
      | Some w1 \<Rightarrow>
          (case decode_roster sections w1 of
             None \<Rightarrow> Inl (FD_ERR_FORMAT, diag)
           | Some w2 \<Rightarrow>
               if \<not> decode_queues sections then Inl (FD_ERR_FORMAT, diag)
               else
                 let ((result, diag1), report) =
                       fd_world_validate_internal (Some w2) (Some blank_report) diag
                 in if result \<noteq> FD_OK then Inl (FD_ERR_STATE, diag1)
                    else
                      let (result1, w3) = fd_world_compute_hash (Some w2)
                      in if result1 \<noteq> FD_OK \<or>
                            w_state_sha256 (the w3) \<noteq> take 32 (fs_payload (sections ! 11))
                         then Inl (FD_ERR_CHECKSUM, diag1)
                         else Inr (the w3, diag1)))"

definition fd_decode_world ::
    "'u fd_context \<Rightarrow> fd_section list \<Rightarrow> u32 \<Rightarrow> diag
       \<Rightarrow> (fd_result \<times> diag) \<times> 'u fd_context \<times> fd_world option" where
  "fd_decode_world ctx sections parsed_section_count diag =
     (case decode_manifest sections parsed_section_count diag of
        Inl e \<Rightarrow> (e, ctx, None)
      | Inr file_minor \<Rightarrow>
      (case decode_versions sections file_minor diag of
        Inl e \<Rightarrow> (e, ctx, None)
      | Inr _ \<Rightarrow>
      (case decode_configuration sections diag of
        Inl e \<Rightarrow> (e, ctx, None)
      | Inr config \<Rightarrow>
      (case decode_content sections diag of
        Inl e \<Rightarrow> (e, ctx, None)
      | Inr (content_count, packs) \<Rightarrow>
      (case decode_inputs config content_count packs diag of
        Inl e \<Rightarrow> (e, ctx, None)
      | Inr (hash, diag1) \<Rightarrow>
      (case decode_rng_and_time sections diag1 of
        Inl e \<Rightarrow> (e, ctx, None)
      | Inr _ \<Rightarrow>
          let tile_bytes = world_tile_bytes config in
          if tile_bytes + 1544 > cx_max_live_world_bytes ctx
          then (fd_diag_set diag1 FD_ERR_CAPACITY FD_FIELD_BUFFER_CAPACITY 0
                  (str ''loaded world exceeds context live bound''), ctx, None)
          else case fd_context_alloc ctx 1544 of
            (False, ctx1) \<Rightarrow>
              (fd_diag_set diag1 FD_ERR_OUT_OF_MEMORY FD_FIELD_NONE 0
                 (str ''loaded world allocation failed''), ctx1, None)
          | (True, ctx1) \<Rightarrow>
              (case fd_context_alloc ctx1 tile_bytes of
                 (False, ctx2) \<Rightarrow>
                   (fd_diag_set diag1 FD_ERR_OUT_OF_MEMORY FD_FIELD_NONE 0
                      (str ''loaded tile allocation failed''), fd_context_free ctx2 1544, None)
               | (True, ctx2) \<Rightarrow>
                   (case decode_body sections
                           (loaded_header (cx_id ctx) sections config content_count packs hash) diag1 of
                      Inl (result, diag2) \<Rightarrow>
                        (fd_diag_set diag2 result FD_FIELD_SECTION 0
                           (str ''save payload failed canonical state validation''),
                         fd_context_free (fd_context_free ctx2 tile_bytes) 1544, None)
                    | Inr (w, diag2) \<Rightarrow> (fd_diag_ok diag2, handle_acquire ctx2, Some w)))))))))"

definition fd_world_load ::
    "'u fd_context option \<Rightarrow> bytes option \<Rightarrow> u64 \<Rightarrow> fd_world option option \<Rightarrow> diag
       \<Rightarrow> (fd_result \<times> diag) \<times> 'u fd_context option \<times> fd_world option option" where
  "fd_world_load context bytes_input n out diag =
     (if out = None
      then (fd_diag_set diag FD_ERR_INVALID_ARGUMENT FD_FIELD_NONE 0 (str ''loaded world output is null''),
            context, None)
      else case (context, bytes_input) of
        (Some ctx, Some bytes) \<Rightarrow>
          if n > cx_max_file_bytes ctx
          then (fd_diag_set diag FD_ERR_CAPACITY FD_FIELD_FILE_BYTES 0
                  (str ''save exceeds configured file bound''), context, Some None)
          else if n < 8 + 32 + 48
          then (fd_diag_set diag FD_ERR_FORMAT FD_FIELD_FILE_BYTES 0 (str ''save is truncated''),
                context, Some None)
          else if take 8 bytes \<noteq> fd_save_magic
          then if take 7 bytes = take 7 fd_save_magic
               then (fd_diag_set diag FD_ERR_VERSION FD_FIELD_FORMAT_VERSION 0
                       (str ''unsupported save major version''), context, Some None)
               else (fd_diag_set diag FD_ERR_FORMAT FD_FIELD_FILE_BYTES 0 (str ''invalid save magic''),
                     context, Some None)
          else if fd_footer_digest bytes (unat (n - 32)) \<noteq> take 32 (drop (unat (n - 32)) bytes)
          then (fd_diag_set diag FD_ERR_CHECKSUM FD_FIELD_FILE_BYTES 0
                  (str ''save footer digest mismatch''), context, Some None)
          else (case fd_parse_save_sections bytes (unat n) diag of
                  Inl e \<Rightarrow> (e, context, Some None)
                | Inr (sections, section_count) \<Rightarrow>
                    (case fd_decode_world ctx sections section_count diag of
                       (r, ctx', w) \<Rightarrow> (r, Some ctx', Some w)))
      | _ \<Rightarrow> (fd_diag_set diag FD_ERR_INVALID_ARGUMENT FD_FIELD_NONE 0
                (str ''context or save bytes are null''), context, Some None))"

text \<open>The buffer of the clone comes from the allocator with arbitrary contents, here zeros.\<close>

definition fd_world_clone_via_save ::
    "'u fd_context \<Rightarrow> fd_world option \<Rightarrow> fd_world option option \<Rightarrow> diag
       \<Rightarrow> (fd_result \<times> diag) \<times> 'u fd_context \<times> fd_world option option" where
  "fd_world_clone_via_save ctx source out diag =
     (if source = None \<or> out = None
      then (fd_diag_set diag FD_ERR_INVALID_ARGUMENT FD_FIELD_NONE 0
              (str ''clone input or output is null''), ctx, out)
      else
        let ((result, diag1), n0) = fd_world_save_size ctx source (Some 0) diag; n = the n0
        in if result \<noteq> FD_OK then ((result, diag1), ctx, Some None)
           else case fd_context_alloc ctx n of
             (False, ctx1) \<Rightarrow>
               (fd_diag_set diag1 FD_ERR_OUT_OF_MEMORY FD_FIELD_NONE 0
                  (str ''clone save allocation failed''), ctx1, Some None)
           | (True, ctx1) \<Rightarrow>
               let ((result1, diag2), buffer, written) =
                     fd_world_save ctx1 source (Some (replicate (unat n) 0)) n (Some 0) diag1
               in if result1 = FD_OK
                  then (case fd_world_load (Some ctx1) buffer (the written) (Some None) diag2 of
                          (r, ctx2, w) \<Rightarrow> (r, fd_context_free (the ctx2) n, w))
                  else ((result1, diag2), fd_context_free ctx1 n, Some None))"

end
