(* ===== verification/FD_Roundtrip.thy ===== *)
theory FD_Roundtrip
  imports FD_Load
begin

text \<open>
  Saving and loading are inverse: the section decoders of \<open>FD_Load\<close> applied to the payloads of
  \<open>FD_Save\<close>.  \<open>storable\<close> collects what the loader demands of a world, \<open>reloaded\<close> is the world that
  comes back: the same but for the owning context and the generation diagnostics, which a save does
  not carry.
\<close>

unbundle bit_operations_syntax

section \<open>Record codecs\<close>

lemma drop_past: "length h = n \<Longrightarrow> drop (n + k) (h @ xs) = drop k xs"
  by simp

interpretation tile: codec tile_encoding decode_tile 24 "\<lambda>_. True"
  by unfold_locales (simp_all add: tile_encoding_def tile_parts_def decode_tile_def byte_simps)

interpretation pack: codec pack_bytes decode_pack 40 "\<lambda>p. length (cp_sha256 p) = 32"
  by unfold_locales (simp_all add: pack_bytes_def decode_pack_def byte_simps)

interpretation region: codec region_bytes decode_region 80
  "\<lambda>r. length (rg_settlement_ids r) = 2 \<and> length (rg_foreign_faction_ids r) = 2"
proof unfold_locales
  have two: "length xs = 2 \<longleftrightarrow> (\<exists>a b. xs = [a, b])" for xs :: "u64 list"
    by (auto simp: length_Suc_conv numeral_2_eq_2)
  fix v :: fd_region and r
  assume "length (rg_settlement_ids v) = 2 \<and> length (rg_foreign_faction_ids v) = 2"
  then show "decode_region (region_bytes v @ r) = v"
    by (cases v) (auto simp: two region_bytes_def decode_region_def byte_simps)
qed simp

section \<open>Storable worlds\<close>

definition name_ok :: "fd_entity \<Rightarrow> bool" where
  "name_ok e \<longleftrightarrow> fd_u01_name_valid (en_name e) (en_name_length e) \<and>
     drop (unat (en_name_length e)) (en_name e) = replicate (48 - unat (en_name_length e)) 0"

definition world_manifest :: "fd_world \<Rightarrow> fd_content_manifest" where
  "world_manifest w = \<lparr>cm_struct_size = 24, cm_abi_version = 1, cm_pack_count = w_content_count w,
     cm_reserved = 0, cm_packs = Some (w_content w)\<rparr>"

definition storable :: "fd_world \<Rightarrow> bool" where
  "storable w \<longleftrightarrow> world_shape w \<and> config_ok (w_config w) \<and>
     wc_forest_density_ppm (w_config w) \<noteq> 0 \<and> wc_hill_density_ppm (w_config w) \<noteq> 0 \<and>
     wc_wetland_density_ppm (w_config w) \<noteq> 0 \<and> packs_ok (w_content w) \<and>
     w_configuration_sha256 w = fd_hash_config_internal (w_config w) \<and>
     w_content_sha256 w = fd_hash_content_internal (world_manifest w) \<and>
     w_tick w mod 24 = 0 \<and> w_tick w \<le> - 25 \<and> (\<forall>e\<in>set (w_entities w). name_ok e) \<and>
     world_valid w \<and> hash_consistent w"

definition reloaded :: "nat \<Rightarrow> fd_world \<Rightarrow> fd_world" where
  "reloaded owner w =
     w\<lparr>w_context := owner,
       w_config := (w_config w)\<lparr>wc_struct_size := 76, wc_abi_version := 1, wc_reserved := replicate 8 0\<rparr>,
       w_river_raised_tile_count := 0, w_river_min_carve_cm := 0,
       w_allocation_size := ucast (world_tile_bytes (w_config w) + 1544)\<rparr>"

text \<open>\<open>sections\<close> hold the payloads of a save of \<open>w\<close>, each followed by something.\<close>

definition carries :: "fd_section list \<Rightarrow> fd_world \<Rightarrow> bool" where
  "carries sections w \<longleftrightarrow>
     (\<forall>i<11. \<exists>r. sections ! Suc i = framed_section (save_payloads w ! i) r)"

lemma carries_saved: "carries (saved_sections w rest) w"
  by (auto simp: carries_def saved_section)

lemma carries_section:
  assumes "carries sections w" and "0 < k" and "k \<le> 11"
  obtains r where "fs_payload (sections ! k) = save_payloads w ! (k - 1) @ r"
    and "fs_length (sections ! k) = of_nat (length (save_payloads w ! (k - 1)))"
proof -
  obtain i where i: "k = Suc i" "i < 11" using assms(2,3) by (cases k) auto
  then obtain r where "sections ! k = framed_section (save_payloads w ! i) r"
    using assms(1) by (auto simp: carries_def)
  then show thesis using that i by (simp add: framed_section_def)
qed

lemma save_payloads_nth:
  "save_payloads w ! 0 = manifest_payload" "save_payloads w ! 1 = versions_payload w"
  "save_payloads w ! 2 = configuration_payload w" "save_payloads w ! 3 = content_payload w"
  "save_payloads w ! 4 = rng_payload w" "save_payloads w ! 5 = time_payload w"
  "save_payloads w ! 6 = geography_payload w" "save_payloads w ! 7 = entities_payload w"
  "save_payloads w ! 8 = queue_payload" "save_payloads w ! 9 = scheduler_payload"
  "save_payloads w ! 10 = w_state_sha256 w"
  by (simp_all add: save_payloads_def)

section \<open>Decoding the saved sections\<close>

lemma decode_manifest_saved:
  assumes "carries sections w"
  shows "decode_manifest sections 11 diag = Inr 0"
proof (rule carries_section [OF assms, of 1])
  fix r assume "fs_payload (sections ! 1) = save_payloads w ! (1 - 1) @ r"
    and "fs_length (sections ! 1) = of_nat (length (save_payloads w ! (1 - 1)))"
  then show ?thesis
    by (simp add: decode_manifest_def save_payloads_nth manifest_payload_def byte_simps Let_def)
qed simp_all

lemma decode_versions_saved:
  assumes "carries sections w" "config_ok (w_config w)"
  shows "decode_versions sections 0 diag = Inr ()"
proof (rule carries_section [OF assms(1), of 2])
  fix r assume "fs_payload (sections ! 2) = save_payloads w ! (2 - 1) @ r"
    and "fs_length (sections ! 2) = of_nat (length (save_payloads w ! (2 - 1)))"
  then show ?thesis
    using assms(2) save_payloads_nth(2) [of w]
    by (simp add: decode_versions_def versions_payload_def config_ok_def byte_simps Let_def)
qed simp_all

lemma length_config_hash [simp]: "length (fd_hash_config_internal c) = 32"
  by (simp add: fd_hash_config_internal_def)

lemma length_content_hash [simp]: "length (fd_hash_content_internal m) = 32"
  by (simp add: fd_hash_content_internal_def)

definition canonical_config :: "fd_world_config \<Rightarrow> fd_world_config" where
  "canonical_config c = c\<lparr>wc_struct_size := 76, wc_abi_version := 1, wc_reserved := replicate 8 0\<rparr>"

lemma config_range_guard:
  assumes "config_ok c"
  shows "\<not> (wc_width c < 32 \<or> wc_width c > 256 \<or> wc_height c < 16 \<or> wc_height c > 128 \<or>
    (ucast (wc_width c) * ucast (wc_height c) :: u64) > 32768 \<or>
    wc_attempt_budget c = 0 \<or> wc_attempt_budget c > 64 \<or> wc_generator_version c \<noteq> 1 \<or>
    wc_ruleset_version c \<noteq> 1 \<or> wc_reference_mode c \<noteq> 1)"
proof -
  have "unat (ucast (wc_width c) * ucast (wc_height c) :: u64) \<le> 32768"
    using assms product_in_range [of "wc_width c" "wc_height c"] by (simp add: config_ok_def)
  then have "(ucast (wc_width c) * ucast (wc_height c) :: u64) \<le> 32768"
    by (simp add: word_le_nat_alt)
  then show ?thesis
    using assms range_checks(1) [of "wc_width c"] range_checks(2) [of "wc_height c"]
      range_checks(3) [of "wc_attempt_budget c"]
    by (auto simp: config_ok_def)
qed

lemma decode_configuration_saved:
  assumes "carries sections w" "config_ok (w_config w)"
    and hash: "w_configuration_sha256 w = fd_hash_config_internal (w_config w)"
  shows "decode_configuration sections diag = Inr (canonical_config (w_config w))"
    and "take 32 (drop 36 (fs_payload (sections ! 3))) = w_configuration_sha256 w"
proof -
  obtain r where p: "fs_payload (sections ! 3) = configuration_payload w @ r"
    and n: "fs_length (sections ! 3) = of_nat (length (configuration_payload w))"
    using carries_section [OF assms(1), of 3] save_payloads_nth(3) [of w] by auto
  let ?c = "w_config w"
  let ?d = "(the (snd (fd_world_config_init (Some blank_config))))
      \<lparr>wc_width := wc_width ?c, wc_height := wc_height ?c, wc_attempt_budget := wc_attempt_budget ?c,
       wc_generator_version := wc_generator_version ?c, wc_ruleset_version := wc_ruleset_version ?c,
       wc_forest_density_ppm := wc_forest_density_ppm ?c, wc_hill_density_ppm := wc_hill_density_ppm ?c,
       wc_wetland_density_ppm := wc_wetland_density_ppm ?c, wc_reference_mode := wc_reference_mode ?c\<rparr>"
  have d: "?d = canonical_config ?c"
    by (cases ?c) (simp add: fd_world_config_init_def canonical_config_def)
  have len: "length (configuration_payload w) = 68"
    by (simp add: configuration_payload_def hash)
  have load: "fd_load_u32_le (fs_payload (sections ! 3)) = wc_width ?c"
    "fd_load_u32_le (drop 4 (fs_payload (sections ! 3))) = wc_height ?c"
    "fd_load_u32_le (drop 8 (fs_payload (sections ! 3))) = wc_attempt_budget ?c"
    "fd_load_u32_le (drop 12 (fs_payload (sections ! 3))) = wc_generator_version ?c"
    "fd_load_u32_le (drop 16 (fs_payload (sections ! 3))) = wc_ruleset_version ?c"
    "fd_load_u32_le (drop 20 (fs_payload (sections ! 3))) = wc_forest_density_ppm ?c"
    "fd_load_u32_le (drop 24 (fs_payload (sections ! 3))) = wc_hill_density_ppm ?c"
    "fd_load_u32_le (drop 28 (fs_payload (sections ! 3))) = wc_wetland_density_ppm ?c"
    "fd_load_u32_le (drop 32 (fs_payload (sections ! 3))) = wc_reference_mode ?c"
    "take 32 (drop 36 (fs_payload (sections ! 3))) = fd_hash_config_internal ?c"
    unfolding p configuration_payload_def by (simp_all add: byte_simps hash)
  then show "take 32 (drop 36 (fs_payload (sections ! 3))) = w_configuration_sha256 w"
    by (simp add: hash)
  have "fd_hash_config_internal (canonical_config ?c) = fd_hash_config_internal ?c"
    by (simp add: fd_hash_config_internal_def canonical_config_def)
  moreover have "config_ok (canonical_config ?c)"
    using assms(2) by (auto simp: config_ok_def canonical_config_def)
  ultimately show "decode_configuration sections diag = Inr (canonical_config ?c)"
    using config_range_guard [of "canonical_config ?c"]
    by (simp only: decode_configuration_def Let_def load d n len if_False simp_thms of_nat_numeral)
qed

lemma decode_packs_saved:
  assumes "packs_ok ps" "\<And>p. p \<in> set ps \<Longrightarrow> length (cp_sha256 p) = 32" "k \<le> length ps"
  shows "decode_packs (fd_store_u32_le n @ concat (map pack_bytes ps) @ r) [k..<length ps] (take k ps) = Inr ps"
  using assms(3)
proof (induction "length ps - k" arbitrary: k)
  case 0
  then show ?case by simp
next
  case (Suc m)
  then have k: "k < length ps" by simp
  define b where "b = fd_store_u32_le n @ concat (map pack_bytes ps) @ r"
  have "drop (4 + k * 40) b = drop (k * 40) (concat (map pack_bytes ps) @ r)"
    by (simp add: b_def)
  then have d: "decode_pack (drop (4 + k * 40) b) = ps ! k"
    using pack.dec_nth [of ps k r] assms(2) k by simp
  have "bad_pack ps (length ps) = None" using assms(1) by (simp add: bad_pack_None)
  then have ok: "cp_stable_id (ps ! k) \<noteq> 0" "0 < k \<Longrightarrow> cp_stable_id (ps ! (k - 1)) < cp_stable_id (ps ! k)"
    using k by (simp_all add: bad_pack_None_iff)
  have "[k..<length ps] = k # [Suc k..<length ps]" using k by (simp add: upt_rec)
  moreover have "take k ps @ [ps ! k] = take (Suc k) ps" using k by (simp add: take_Suc_conv_app_nth)
  moreover have "decode_packs b [Suc k..<length ps] (take (Suc k) ps) = Inr ps"
    using Suc.hyps k unfolding b_def by (intro Suc.hyps(1)) simp_all
  moreover have "\<not> (0 < k \<and> cp_stable_id (ps ! k) \<le> cp_stable_id (take k ps ! (k - 1)))"
    using ok(2) by (cases k) (auto simp: not_le)
  ultimately show ?case
    using ok(1) by (simp add: d Let_def b_def [symmetric])
qed

lemma decode_content_saved:
  assumes "carries sections w" and sh: "world_shape w" and ok: "packs_ok (w_content w)"
  shows "decode_content sections diag = Inr (w_content_count w, w_content w)"
proof -
  obtain r where p: "fs_payload (sections ! 4) = content_payload w @ r"
    and n: "fs_length (sections ! 4) = of_nat (length (content_payload w))"
    using carries_section [OF assms(1), of 4] save_payloads_nth(4) [of w] by auto
  note d = world_shapeD [OF sh]
  have c: "fd_load_u32_le (fs_payload (sections ! 4)) = w_content_count w"
    by (simp add: p content_payload_def byte_simps)
  have len: "fs_length (sections ! 4) = 4 + ucast (w_content_count w) * 40"
    by (simp add: n length_content_payload [OF sh])
  have "unat (4 + ucast (w_content_count w) * 40 :: u64) = 4 + unat (w_content_count w) * 40"
    by (simp add: unat_count_length)
  then have "\<not> fs_length (sections ! 4) < 4"
    by (simp add: len word_less_nat_alt)
  moreover have "\<not> w_content_count w > 16"
    using d(8) by (simp add: word_less_nat_alt)
  moreover have "decode_packs (fs_payload (sections ! 4)) [0..<unat (w_content_count w)] [] = Inr (w_content w)"
    using decode_packs_saved [OF ok, of 0 "w_content_count w" r] sh d(2)
    by (simp add: p content_payload_def world_shape_def)
  ultimately show ?thesis
    by (simp add: decode_content_def c len Let_def)
qed

lemma decode_inputs_saved:
  assumes st: "storable w"
  shows "decode_inputs (canonical_config (w_config w)) (w_content_count w) (w_content w) diag =
    Inr (w_content_sha256 w, diag)"
proof -
  let ?c = "canonical_config (w_config w)"
  have "fst (fd_validate_generation_inputs_internal (Some ?c) (Some (world_manifest w)) diag) = FD_OK"
  proof (subst inputs_OK_iff [where ps = "w_content w"])
    show "76 \<le> wc_struct_size ?c \<and> wc_abi_version ?c = 1 \<and> config_ok ?c \<and>
      24 \<le> cm_struct_size (world_manifest w) \<and> cm_abi_version (world_manifest w) = 1 \<and>
      cm_reserved (world_manifest w) = 0 \<and> length (w_content w) \<le> 16 \<and> packs_ok (w_content w)"
      using st by (auto simp: storable_def canonical_config_def config_ok_def world_manifest_def world_shape_def)
  qed (use st in \<open>simp_all add: world_manifest_def storable_def world_shape_def\<close>)
  then have "fd_validate_generation_inputs_internal (Some ?c) (Some (world_manifest w)) diag = (FD_OK, diag)"
    by (rule inputs_OK_diag)
  moreover have "wc_forest_density_ppm ?c \<noteq> 0" "wc_hill_density_ppm ?c \<noteq> 0" "wc_wetland_density_ppm ?c \<noteq> 0"
    "w_content_sha256 w = fd_hash_content_internal (world_manifest w)"
    using st by (simp_all add: storable_def canonical_config_def)
  ultimately show ?thesis
    by (simp add: decode_inputs_def world_manifest_def [symmetric])
qed

lemma decode_rng_and_time_saved:
  assumes "carries sections w" and "world_shape w"
  shows "decode_rng_and_time sections diag = Inr ()"
    and "take 16 (fs_payload (sections ! 5)) = w_root_seed_le w"
    and "fd_load_u64_le (fs_payload (sections ! 6)) = w_tick w"
proof -
  obtain r where p: "fs_payload (sections ! 5) = rng_payload w @ r"
    and n: "fs_length (sections ! 5) = of_nat (length (rng_payload w))"
    using carries_section [OF assms(1), of 5] save_payloads_nth(5) [of w] by auto
  obtain r' where p': "fs_payload (sections ! 6) = time_payload w @ r'"
    and n': "fs_length (sections ! 6) = of_nat (length (time_payload w))"
    using carries_section [OF assms(1), of 6] save_payloads_nth(6) [of w] by auto
  note d = world_shapeD(1) [OF assms(2)]
  show "decode_rng_and_time sections diag = Inr ()"
    by (simp add: decode_rng_and_time_def p n p' n' rng_payload_def time_payload_def d byte_simps Let_def)
  show "take 16 (fs_payload (sections ! 5)) = w_root_seed_le w"
    "fd_load_u64_le (fs_payload (sections ! 6)) = w_tick w"
    by (simp_all add: p p' rng_payload_def time_payload_def d byte_simps)
qed

lemma decode_geography_saved:
  assumes "carries sections w" and sh: "world_shape w"
    and same: "w_tile_count h = w_tile_count w" "wc_width (w_config h) = wc_width (w_config w)"
      "wc_height (w_config h) = wc_height (w_config w)"
  shows "decode_geography sections h =
    Some (h\<lparr>w_river_tile_count := w_river_tile_count w, w_road_tile_count := w_road_tile_count w,
            w_land_tile_count := w_land_tile_count w, w_tiles := w_tiles w, w_region := w_region w\<rparr>)"
proof -
  obtain r where p: "fs_payload (sections ! 7) = geography_payload w @ r"
    and n: "fs_length (sections ! 7) = of_nat (length (geography_payload w))"
    using carries_section [OF assms(1), of 7] save_payloads_nth(7) [of w] by auto
  note d = world_shapeD [OF sh]
  let ?T = "concat (map tile_encoding (w_tiles w))"
  let ?h = "concat (map fd_store_u32_le [w_tile_count w, wc_width (w_config w), wc_height (w_config w),
    w_river_tile_count w, w_road_tile_count w, w_land_tile_count w])"
  have p': "fs_payload (sections ! 7) = ?h @ (?T @ region_bytes (w_region w) @ r)"
    by (simp add: p geography_payload_def)
  have h24: "length ?h = 24" by simp
  have dr: "drop (24 + k) (fs_payload (sections ! 7)) = drop k (?T @ region_bytes (w_region w) @ r)" for k
    unfolding p' by (rule drop_past [OF h24])
  have load: "fd_load_u32_le (fs_payload (sections ! 7)) = w_tile_count w"
    "fd_load_u32_le (drop 4 (fs_payload (sections ! 7))) = wc_width (w_config w)"
    "fd_load_u32_le (drop 8 (fs_payload (sections ! 7))) = wc_height (w_config w)"
    "fd_load_u32_le (drop 12 (fs_payload (sections ! 7))) = w_river_tile_count w"
    "fd_load_u32_le (drop 16 (fs_payload (sections ! 7))) = w_road_tile_count w"
    "fd_load_u32_le (drop 20 (fs_payload (sections ! 7))) = w_land_tile_count w"
    unfolding p' by (simp_all add: byte_simps)
  have tiles: "map (\<lambda>i. decode_tile (drop (24 + i * 24) (fs_payload (sections ! 7)))) [0..<unat (w_tile_count w)]
      = w_tiles w"
    unfolding dr using tile.dec_array [of "w_tiles w" "region_bytes (w_region w) @ r"] d(3) by simp
  have "drop (unat (w_tile_count w) * 24) (?T @ region_bytes (w_region w) @ r) = region_bytes (w_region w) @ r"
    using tile.drop_concat_enc [of "w_tiles w" "length (w_tiles w)" "region_bytes (w_region w) @ r"] d(3)
    by (simp del: drop_append)
  then have reg: "decode_region (drop (24 + unat (w_tile_count w) * 24) (fs_payload (sections ! 7))) = w_region w"
    unfolding dr using region.dec_enc [of "w_region w" r] d(9,10) by simp
  have "fs_length (sections ! 7) = 104 + ucast (w_tile_count w) * 24"
    by (simp add: n length_geography_payload [OF sh])
  then show ?thesis
    by (simp only: decode_geography_def Let_def same load tiles reg simp_thms if_False)
qed

lemma entity_bytes_split:
  assumes "length (en_name e) = 48" "unat (en_name_length e) < 48"
  shows "fd_load_u32_le (drop 36 (entity_bytes e @ r)) = en_name_length e"
    and "take (unat (en_name_length e)) (drop 40 (entity_bytes e @ r)) = take (unat (en_name_length e)) (en_name e)"
  using assms by (simp_all add: entity_bytes_def entity_parts_def byte_simps)

lemma name_valid_take:
  assumes "take (unat n) a = take (unat n) b" and "unat n \<le> length a" "unat n \<le> length b"
  shows "fd_u01_name_valid a n = fd_u01_name_valid b n"
proof -
  have "a ! i = b ! i" if "i < unat n" for i
    using assms that by (metis nth_take)
  then show ?thesis by (auto simp: fd_u01_name_valid_def list_all_iff)
qed

lemma decode_entity_saved:
  assumes "length (en_name e) = 48" "unat (en_name_length e) < 48" "name_ok e"
  shows "decode_entity (entity_bytes e @ r) (en_name_length e) = e"
proof -
  have "take (unat (en_name_length e)) (en_name e) @ replicate (48 - unat (en_name_length e)) 0 = en_name e"
    using assms(3) unfolding name_ok_def by (metis append_take_drop_id)
  then show ?thesis
    using assms(1,2)
    by (cases e) (simp add: decode_entity_def entity_bytes_split entity_bytes_def entity_parts_def blit_def byte_simps)
qed

lemma decode_entities_saved:
  assumes "fs_payload section = pre @ concat (map entity_bytes es) @ r"
    and "unat (fs_length section) = length pre + length (concat (map entity_bytes es))"
    and "\<And>e. e \<in> set es \<Longrightarrow> length (en_name e) = 48 \<and> unat (en_name_length e) < 48 \<and> name_ok e"
    and "unat position = length pre"
  shows "decode_entities section (length es) position done = Some (fs_length section, done @ es)"
  using assms
proof (induction es arbitrary: pre position "done")
  case Nil
  then show ?case by (simp add: word_unat_eq_iff)
next
  case (Cons e es)
  let ?k = "en_name_length e"
  have e: "length (en_name e) = 48" "unat ?k < 48" "name_ok e" using Cons.prems(3) by simp_all
  have len: "length (entity_bytes e) = 40 + unat ?k" using e by (simp add: length_entity_bytes)
  have tot: "unat (fs_length section) =
      unat position + (40 + unat ?k) + length (concat (map entity_bytes es))"
    using Cons.prems(2,4) by (simp add: len)
  have le: "position \<le> fs_length section" using tot by (simp add: word_le_nat_alt)
  have diff: "unat (fs_length section - position) = 40 + unat ?k + length (concat (map entity_bytes es))"
    using le tot by (simp add: unat_sub)
  have big: "\<not> fs_length section - position < 40" by (simp add: word_less_nat_alt diff)
  have "unat (fs_length section - position - 40) = unat ?k + length (concat (map entity_bytes es))"
    using big by (subst unat_sub) (simp_all add: diff not_less)
  then have fits: "\<not> (ucast ?k :: u64) > fs_length section - position - 40"
    by (simp add: word_less_nat_alt)
  have d: "drop (unat position) (fs_payload section) = entity_bytes e @ concat (map entity_bytes es) @ r"
    using Cons.prems(1,4) by simp
  have valid: "fd_u01_name_valid (drop 40 (entity_bytes e @ concat (map entity_bytes es) @ r)) ?k"
    using e(3) entity_bytes_split(2) [OF e(1,2)] len e(1,2)
      name_valid_take [of ?k "drop 40 (entity_bytes e @ concat (map entity_bytes es) @ r)" "en_name e"]
    by (simp add: name_ok_def)
  have pos: "unat (position + (40 + ucast ?k)) = length (pre @ entity_bytes e)"
  proof -
    have "unat position + (40 + unat ?k) < 2 ^ 64"
      using tot unat_lt_u64 [of "fs_length section"] by simp
    then have "unat (position + (40 + ucast ?k)) = unat position + (40 + unat ?k)"
      using e(2) by (simp add: unat_word_ariths)
    then show ?thesis using Cons.prems(4) len by simp
  qed
  have rest: "decode_entities section (length es) (position + (40 + ucast ?k)) (done @ [e]) =
      Some (fs_length section, (done @ [e]) @ es)"
    by (rule Cons.IH [where pre = "pre @ entity_bytes e"]) (use Cons.prems pos in simp_all)
  show ?case
    using rest e(2) big fits valid
    by (simp add: Let_def d entity_bytes_split [OF e(1,2)] decode_entity_saved [OF e] del: drop_append)
qed

lemma decode_roster_saved:
  assumes "carries sections w" and sh: "world_shape w" and names: "\<forall>e\<in>set (w_entities w). name_ok e"
  shows "decode_roster sections h = Some (h\<lparr>w_entities := w_entities w\<rparr>)"
proof -
  obtain r where p: "fs_payload (sections ! 8) = entities_payload w @ r"
    and n: "fs_length (sections ! 8) = of_nat (length (entities_payload w))"
    using carries_section [OF assms(1), of 8] save_payloads_nth(8) [of w] by auto
  let ?E = "concat (map entity_bytes (w_entities w))"
  have len: "unat (fs_length (sections ! 8)) = 8 + length ?E"
    using length_entities_payload(2) [OF sh] unfolding n
    by (subst unat_of_nat_u64) (simp_all add: entities_payload_def)
  have "decode_entities (sections ! 8) (length (w_entities w)) 8 [] = Some (fs_length (sections ! 8), [] @ w_entities w)"
    by (rule decode_entities_saved [where pre = "fd_store_u32_le 6 @ fd_store_u32_le 6" and r = r])
      (use sh names len in \<open>simp_all add: p entities_payload_def world_shape_def\<close>)
  then have "decode_entities (sections ! 8) 6 8 [] = Some (fs_length (sections ! 8), w_entities w)"
    using world_shapeD(4) [OF sh] by simp
  moreover have "\<not> fs_length (sections ! 8) < 8" by (simp add: word_less_nat_alt len)
  ultimately show ?thesis
    by (simp add: decode_roster_def p entities_payload_def byte_simps Let_def)
qed

lemma decode_queues_saved:
  assumes "carries sections w" and "world_shape w"
  shows "decode_queues sections" and "take 32 (fs_payload (sections ! 11)) = w_state_sha256 w"
proof -
  obtain r1 where "fs_payload (sections ! 9) = queue_payload @ r1"
    "fs_length (sections ! 9) = of_nat (length queue_payload)"
    using carries_section [OF assms(1), of 9] save_payloads_nth(9) [of w] by auto
  moreover obtain r2 where "fs_payload (sections ! 10) = scheduler_payload @ r2"
    "fs_length (sections ! 10) = of_nat (length scheduler_payload)"
    using carries_section [OF assms(1), of 10] save_payloads_nth(10) [of w] by auto
  moreover obtain r3 where "fs_payload (sections ! 11) = w_state_sha256 w @ r3"
    "fs_length (sections ! 11) = of_nat (length (w_state_sha256 w))"
    using carries_section [OF assms(1), of 11] save_payloads_nth(11) [of w] by auto
  ultimately show "decode_queues sections" "take 32 (fs_payload (sections ! 11)) = w_state_sha256 w"
    using world_shapeD(7) [OF assms(2)]
    by (simp_all add: decode_queues_def queue_payload_def scheduler_payload_def byte_simps)
qed

section \<open>The world that comes back\<close>

interpretation reload: same_ground
  "(reloaded owner w)\<lparr>w_state_sha256 := h\<rparr>" w for owner w h
  by unfold_locales (simp_all add: reloaded_def)

lemma world_parts_reloaded: "world_parts ((reloaded owner w)\<lparr>w_state_sha256 := h\<rparr>) = world_parts w"
  by (simp add: world_parts_def reloaded_def)

lemma reloaded_config: "w_config (reloaded owner w) = canonical_config (w_config w)"
  by (simp add: reloaded_def canonical_config_def)

lemma validate_blank_OK:
  assumes "world_valid w"
  obtains d rep where "fd_world_validate_internal (Some w) (Some blank_report) diag = ((FD_OK, d), rep)"
proof -
  obtain c d rep where e: "fd_world_validate_internal (Some w) (Some blank_report) diag = ((c, d), rep)"
    by (metis prod.exhaust)
  moreover have "c = FD_OK" using validate_OK_iff [of w blank_report diag] assms by (simp add: e)
  ultimately show thesis using that by simp
qed

lemma decode_body_saved:
  assumes c: "carries sections w" and st: "storable w"
  shows "\<exists>d. decode_body sections
      (loaded_header owner sections (canonical_config (w_config w)) (w_content_count w) (w_content w)
         (w_content_sha256 w)) diag = Inr (reloaded owner w, d)"
proof -
  let ?h = "loaded_header owner sections (canonical_config (w_config w)) (w_content_count w)
    (w_content w) (w_content_sha256 w)"
  have sh: "world_shape w" and cfg: "config_ok (w_config w)" and valid: "world_valid w"
    and names: "\<forall>e\<in>set (w_entities w). name_ok e" and hash: "hash_consistent w"
    and conf: "w_configuration_sha256 w = fd_hash_config_internal (w_config w)"
    and tick: "w_tick w mod 24 = 0" "w_tick w \<le> - 25"
    using st by (simp_all add: storable_def)
  have tc: "w_tile_count w = wc_width (w_config w) * wc_height (w_config w)"
    using valid by (simp add: world_valid_def bounds_ok_def)
  let ?z = "replicate 32 0 :: bytes"
  let ?w = "(reloaded owner w)\<lparr>w_state_sha256 := ?z\<rparr>"
  let ?g = "?h\<lparr>w_river_tile_count := w_river_tile_count w, w_road_tile_count := w_road_tile_count w,
            w_land_tile_count := w_land_tile_count w, w_tiles := w_tiles w, w_region := w_region w\<rparr>"
  have geo: "decode_geography sections ?h = Some ?g"
    by (rule decode_geography_saved [OF c sh])
      (simp_all add: loaded_header_def blank_world_def canonical_config_def tc)
  have ros: "decode_roster sections ?g = Some (?g\<lparr>w_entities := w_entities w\<rparr>)"
    by (rule decode_roster_saved [OF c sh names])
  have whole: "?g\<lparr>w_entities := w_entities w\<rparr> = ?w"
    using decode_configuration_saved(2) [OF c cfg conf] decode_rng_and_time_saved(2,3) [OF c sh] tc
    by (cases w) (simp add: loaded_header_def blank_world_def reloaded_def canonical_config_def
        world_tile_bytes_def)
  have t: "w_tick ?h = w_tick w"
    using decode_rng_and_time_saved(3) [OF c sh] by (simp add: loaded_header_def)
  have "world_valid ?w" using reload.valid [where w = w and h = ?z and owner = owner] valid by simp
  then obtain d rep where v: "fd_world_validate_internal (Some ?w) (Some blank_report) diag = ((FD_OK, d), rep)"
    by (rule validate_blank_OK)
  have h: "fd_world_compute_hash (Some ?w) = (FD_OK, Some (reloaded owner w))"
    using hash by (simp add: fd_world_compute_hash_def world_parts_reloaded digest_world_parts hash_consistent_def)
      (simp add: reloaded_def)
  show ?thesis
    using tick decode_queues_saved [OF c sh] ros whole v h
    by (simp add: decode_body_def t geo reloaded_def not_less)
qed

text \<open>Room for one more world: both allocations succeed under the context's bound.\<close>

definition room_for :: "'u fd_context \<Rightarrow> fd_world \<Rightarrow> 'u fd_context \<Rightarrow> bool" where
  "room_for ctx w ctx' \<longleftrightarrow>
     world_tile_bytes (w_config w) + 1544 \<le> cx_max_live_world_bytes ctx \<and>
     (\<exists>ctx1. fd_context_alloc ctx 1544 = (True, ctx1) \<and>
             fd_context_alloc ctx1 (world_tile_bytes (w_config w)) = (True, ctx'))"

lemma world_tile_bytes_canonical [simp]:
  "world_tile_bytes (canonical_config c) = world_tile_bytes c"
  by (simp add: world_tile_bytes_def canonical_config_def)

lemma fd_decode_world_saved:
  assumes c: "carries sections w" and st: "storable w" and room: "room_for ctx w ctx'"
  shows "\<exists>d. fd_decode_world ctx sections 11 diag =
    ((FD_OK, d), handle_acquire ctx', Some (reloaded (cx_id ctx) w))"
proof -
  have sh: "world_shape w" and cfg: "config_ok (w_config w)" and ok: "packs_ok (w_content w)"
    and conf: "w_configuration_sha256 w = fd_hash_config_internal (w_config w)"
    using st by (simp_all add: storable_def)
  obtain d where body: "decode_body sections
      (loaded_header (cx_id ctx) sections (canonical_config (w_config w)) (w_content_count w)
         (w_content w) (w_content_sha256 w)) diag = Inr (reloaded (cx_id ctx) w, d)"
    using decode_body_saved [OF c st] by blast
  obtain ctx1 where alloc: "fd_context_alloc ctx 1544 = (True, ctx1)"
    "fd_context_alloc ctx1 (world_tile_bytes (w_config w)) = (True, ctx')"
    and lim: "\<not> world_tile_bytes (w_config w) + 1544 > cx_max_live_world_bytes ctx"
    using room by (auto simp: room_for_def not_less)
  show ?thesis
    by (simp add: fd_decode_world_def decode_manifest_saved [OF c] decode_versions_saved [OF c cfg]
        decode_configuration_saved(1) [OF c cfg conf] decode_content_saved [OF c sh ok]
        decode_inputs_saved [OF st] decode_rng_and_time_saved(1) [OF c sh] alloc lim body Let_def
        fd_diag_ok_def)
qed

lemma fd_world_load_saved:
  assumes st: "storable w" and room: "room_for ctx w ctx'"
    and limit: "length (save_file w) \<le> unat (cx_max_file_bytes ctx)"
  shows "\<exists>d. fd_world_load (Some ctx) (Some (save_file w @ rest)) (of_nat (length (save_file w)))
      (Some out) diag =
    ((FD_OK, d), Some (handle_acquire ctx'), Some (Some (reloaded (cx_id ctx) w)))"
proof -
  have sh: "world_shape w" using st by (simp add: storable_def)
  let ?n = "of_nat (length (save_file w)) :: u64"
  have n: "unat ?n = length (save_file w)"
    using save_file_bound [OF sh] by (intro unat_of_nat_u64) simp
  have big: "88 \<le> length (save_file w)"
    by (simp add: length_save_file length_save_body [OF sh])
  have guards: "\<not> ?n > cx_max_file_bytes ctx" "\<not> ?n < 8 + 32 + 48"
    using limit big by (simp_all add: word_less_nat_alt n)
  have "(32 :: u64) \<le> ?n" using big by (simp add: word_le_nat_alt n)
  then have "unat (?n - 32) = unat ?n - unat (32 :: u64)" by (rule unat_sub)
  then have body: "unat (?n - 32) = length (save_body w)"
    by (simp only: n) (simp add: length_save_file)
  define F where "F = save_file w @ rest"
  have magic: "take 8 F = fd_save_magic"
    by (simp add: F_def save_file_def save_body_def)
  have footer: "fd_footer_digest F (length (save_body w)) = take 32 (drop (length (save_body w)) F)"
    by (simp add: F_def save_file_def fd_footer_digest_def)
  let ?s = "saved_sections w (fd_footer_digest (save_body w) (length (save_body w)) @ rest)"
  obtain d where "fd_decode_world ctx ?s 11 diag =
      ((FD_OK, d), handle_acquire ctx', Some (reloaded (cx_id ctx) w))"
    using fd_decode_world_saved [OF carries_saved st room] by blast
  then have "fd_world_load (Some ctx) (Some F) ?n (Some out) diag =
      ((FD_OK, d), Some (handle_acquire ctx'), Some (Some (reloaded (cx_id ctx) w)))"
    using guards fd_parse_saved [OF sh, of rest diag, folded F_def]
    by (simp add: fd_world_load_def magic footer body n)
  then show ?thesis unfolding F_def by blast
qed

section \<open>Reloading keeps what is stored\<close>

lemma hash_config_canonical [simp]:
  "fd_hash_config_internal (canonical_config c) = fd_hash_config_internal c"
  by (simp add: fd_hash_config_internal_def canonical_config_def)

lemma config_ok_canonical: "config_ok c \<Longrightarrow> config_ok (canonical_config c)"
  by (auto simp: config_ok_def canonical_config_def)

lemma state_hash_reloaded: "state_hash (reloaded owner w) = state_hash w"
  using world_parts_reloaded [where w = w and h = "w_state_sha256 w" and owner = owner]
  by (simp add: state_hash_def world_bytes_def reloaded_def)

lemma world_valid_reloaded [simp]: "world_valid (reloaded owner w) = world_valid w"
  using reload.valid [where w = w and h = "w_state_sha256 w" and owner = owner] by (simp add: reloaded_def)

lemma hashed_state_reloaded: "hashed_state (reloaded owner w) = hashed_state w"
  by (simp add: hashed_state_def reloaded_def config_view_def)

lemma reloaded_fields:
  "w_content (reloaded owner w) = w_content w" "w_entities (reloaded owner w) = w_entities w"
  "w_tick (reloaded owner w) = w_tick w" "w_content_sha256 (reloaded owner w) = w_content_sha256 w"
  "w_configuration_sha256 (reloaded owner w) = w_configuration_sha256 w"
  "w_state_sha256 (reloaded owner w) = w_state_sha256 w"
  by (simp_all add: reloaded_def)

lemma storable_reloaded:
  assumes "storable w"
  shows "storable (reloaded owner w)"
proof -
  have m: "world_manifest (reloaded owner w) = world_manifest w"
    by (simp add: world_manifest_def reloaded_def)
  have "hash_consistent (reloaded owner w)"
    using assms unfolding hash_consistent_def state_hash_reloaded
    by (simp add: storable_def hash_consistent_def reloaded_def)
  moreover have "world_shape (reloaded owner w)"
    using assms by (simp add: storable_def world_shape_def reloaded_def)
  ultimately show ?thesis
    using assms config_ok_canonical [of "w_config w"]
    by (simp add: storable_def m reloaded_config reloaded_fields) (simp add: canonical_config_def)
qed

text \<open>C6: a storable world that is saved into a sufficient buffer and loaded back comes back as the
  same world, owned by the loading context: same state hash and same authoritative state; it is
  storable again.\<close>

theorem save_load_roundtrip:
  assumes "storable w" and "room_for ctx w ctx'" and "unat capacity \<le> length buf"
    and "length (save_file w) \<le> unat (cx_max_file_bytes ctx)" and "length (save_file w) \<le> unat capacity"
  shows "\<exists>d1 buf' n d2.
    fd_world_save ctx (Some w) (Some buf) capacity (Some k) diag = ((FD_OK, d1), Some buf', Some n) \<and>
    fd_world_load (Some ctx) (Some buf') n (Some out) d1 =
      ((FD_OK, d2), Some (handle_acquire ctx'), Some (Some (reloaded (cx_id ctx) w))) \<and>
    w_state_sha256 (reloaded (cx_id ctx) w) = w_state_sha256 w \<and>
    hashed_state (reloaded (cx_id ctx) w) = hashed_state w \<and> storable (reloaded (cx_id ctx) w)"
proof -
  have sh: "world_shape w" using assms(1) by (simp add: storable_def)
  let ?n = "of_nat (length (save_file w)) :: u64"
  have n: "unat ?n = length (save_file w)"
    using save_file_bound [OF sh] by (intro unat_of_nat_u64) simp
  have guards: "\<not> ?n > cx_max_file_bytes ctx" "\<not> capacity < ?n"
    using assms(4,5) by (simp_all add: word_less_nat_alt n)
  have writer: "let writer = run (save_operations w) \<lparr>wr_bytes = buf, wr_position = 0\<rparr>
    in fd_write_bytes (fd_footer_digest (wr_bytes writer) (wr_position writer)) 32 writer =
       \<lparr>wr_bytes = save_file w @ drop (length (save_file w)) buf, wr_position = length (save_file w)\<rparr>"
    using save_writer [OF sh, of buf] assms(3,5) by simp
  obtain d1 where save: "fd_world_save ctx (Some w) (Some buf) capacity (Some k) diag =
      ((FD_OK, d1), Some (save_file w @ drop (length (save_file w)) buf), Some ?n)"
    using writer guards by (simp add: fd_world_save_def fd_save_size_exact [OF sh] n Let_def fd_diag_ok_def)
  obtain d2 where load: "fd_world_load (Some ctx) (Some (save_file w @ drop (length (save_file w)) buf)) ?n
      (Some out) d1 = ((FD_OK, d2), Some (handle_acquire ctx'), Some (Some (reloaded (cx_id ctx) w)))"
    using fd_world_load_saved [OF assms(1,2,4)] by blast
  show ?thesis
  proof (intro exI conjI)
    show "w_state_sha256 (reloaded (cx_id ctx) w) = w_state_sha256 w" by (simp add: reloaded_def)
  qed (rule save load hashed_state_reloaded storable_reloaded [OF assms(1)])+
qed

end
