(* ===== verification/FD_Loaded.thy ===== *)
theory FD_Loaded
  imports FD_Roundtrip
begin

text \<open>
  What the loader guarantees whatever bytes it is given: an accepted file yields a storable world, a
  rejected one leaves the books of the context untouched.
\<close>

unbundle bit_operations_syntax

section \<open>Every early return is an error\<close>

named_theorems decode_errors \<open>early returns of the decoders report an error\<close>

lemma decode_manifest_error [decode_errors]: "decode_manifest s n diag = Inl e \<Longrightarrow> fst e \<noteq> FD_OK"
  by (auto simp: decode_manifest_def Let_def split: if_splits)

lemma decode_versions_error [decode_errors]: "decode_versions s m diag = Inl e \<Longrightarrow> fst e \<noteq> FD_OK"
  by (auto simp: decode_versions_def Let_def split: if_splits)

lemma decode_configuration_error [decode_errors]: "decode_configuration s diag = Inl e \<Longrightarrow> fst e \<noteq> FD_OK"
  by (auto simp: decode_configuration_def Let_def split: if_splits)

lemma decode_content_error [decode_errors]: "decode_content s diag = Inl e \<Longrightarrow> fst e \<noteq> FD_OK"
  by (auto simp: decode_content_def Let_def split: if_splits sum.splits)

lemma decode_inputs_error [decode_errors]: "decode_inputs c n p diag = Inl e \<Longrightarrow> fst e \<noteq> FD_OK"
  by (auto simp: decode_inputs_def Let_def split: if_splits prod.splits)

lemma decode_rng_and_time_error [decode_errors]: "decode_rng_and_time s diag = Inl e \<Longrightarrow> fst e \<noteq> FD_OK"
  by (auto simp: decode_rng_and_time_def Let_def split: if_splits)

lemma decode_body_error [decode_errors]: "decode_body s w diag = Inl e \<Longrightarrow> fst e \<noteq> FD_OK"
  by (auto simp: decode_body_def Let_def split: if_splits prod.splits option.splits)

lemma parse_section_error: "parse_section b n diag st = Inl e \<Longrightarrow> fst e \<noteq> FD_OK"
  by (auto simp: parse_section_def Let_def split: if_splits prod.splits option.splits)

lemma parse_loop_error: "parse_loop b n diag st = Inl e \<Longrightarrow> fst e \<noteq> FD_OK"
proof (induction b n diag st rule: parse_loop.induct)
  case (1 b n diag st)
  then show ?case
    by (auto simp: parse_loop.simps [of b n diag st] dest: parse_section_error split: if_splits sum.splits)
qed

lemma parse_sections_error: "fd_parse_save_sections b n diag = Inl e \<Longrightarrow> fst e \<noteq> FD_OK"
  by (auto simp: fd_parse_save_sections_def Let_def dest: parse_loop_error
      split: if_splits sum.splits prod.splits option.splits)

section \<open>The books\<close>

lemma decode_geography_config: "decode_geography s w = Some w' \<Longrightarrow> w_config w' = w_config w"
  by (auto simp: decode_geography_def Let_def split: if_splits)

lemma decode_roster_config: "decode_roster s w = Some w' \<Longrightarrow> w_config w' = w_config w"
  by (auto simp: decode_roster_def Let_def split: if_splits option.splits)

lemma decode_body_OK:
  assumes "decode_body s w diag = Inr (v, d)"
  obtains w1 w2 where "w_tick w mod 24 = 0" "w_tick w \<le> - 25" "decode_geography s w = Some w1"
    "decode_roster s w1 = Some w2" "world_valid w2" "v = w2\<lparr>w_state_sha256 := state_hash w2\<rparr>"
proof -
  from assms obtain w1 w2 where g: "decode_geography s w = Some w1" "decode_roster s w1 = Some w2"
    and t: "w_tick w mod 24 = 0" "\<not> w_tick w > - 1 - 24"
    by (auto simp: decode_body_def split: if_splits option.splits)
  obtain c d1 rep where val: "fd_world_validate_internal (Some w2) (Some blank_report) diag = ((c, d1), rep)"
    by (metis prod.exhaust)
  from assms g t have "c = FD_OK" and v: "v = w2\<lparr>w_state_sha256 := state_hash w2\<rparr>"
    by (auto simp: decode_body_def val fd_world_compute_hash_def digest_world_parts Let_def split: if_splits)
  then have "world_valid w2" using validate_OK_iff [of w2 blank_report diag] val by simp
  then show thesis using that g t v by (simp add: not_less)
qed

lemma decode_body_config: "decode_body s w diag = Inr (v, d) \<Longrightarrow> w_config v = w_config w"
  by (erule decode_body_OK) (simp add: decode_geography_config decode_roster_config)

lemma decode_world_charged:
  "case fd_decode_world ctx s n diag of (r, ctx', w) \<Rightarrow>
     if fst r = FD_OK
     then (\<exists>v. w = Some v \<and> charged (1544 + world_tile_bytes (w_config v)) 1 ctx ctx')
     else w = None \<and> charged 0 0 ctx ctx'"
  by (auto simp: fd_decode_world_def Let_def loaded_header_def alloc_fields diag_ok_fst charged_def books_def
      dest: decode_errors dest!: decode_body_config split: sum.splits prod.splits bool.splits if_splits)

lemma load_charged:
  "case fd_world_load (Some ctx) bytes n (Some out) diag of (r, octx, w) \<Rightarrow>
     \<exists>ctx'. octx = Some ctx' \<and>
       (if fst r = FD_OK
        then (\<exists>v. w = Some (Some v) \<and> charged (1544 + world_tile_bytes (w_config v)) 1 ctx ctx')
        else w = Some None \<and> charged 0 0 ctx ctx')"
proof (cases "\<exists>b s k. bytes = Some b \<and> fd_parse_save_sections b (unat n) diag = Inr (s, k)")
  case True
  then obtain b s k where b: "bytes = Some b" "fd_parse_save_sections b (unat n) diag = Inr (s, k)"
    by blast
  obtain r ctx' w where d: "fd_decode_world ctx s k diag = (r, ctx', w)" by (metis prod.exhaust)
  show ?thesis using decode_world_charged [of ctx s k diag] by (auto simp: fd_world_load_def b d)
next
  case False
  then show ?thesis
    by (auto simp: fd_world_load_def dest: parse_sections_error split: option.splits sum.splits)
qed

text \<open>C14: loading balances the books of its context: success leaves the world block and the tile block
  live and one more handle, and every failure, before or after the allocations, leaves live bytes and
  handles as they were and gives no world.\<close>

theorem load_books_balance:
  "case fd_world_load (Some ctx) bytes n (Some out) diag of (r, octx, w) \<Rightarrow>
     if fst r = FD_OK
     then (\<exists>ctx' v. octx = Some ctx' \<and> w = Some (Some v) \<and>
            cx_live_bytes ctx' = cx_live_bytes ctx + 1544 + world_tile_bytes (w_config v) \<and>
            cx_live_handles ctx' = cx_live_handles ctx + 1)
     else (\<exists>ctx'. octx = Some ctx' \<and> w = Some None \<and>
            cx_live_bytes ctx' = cx_live_bytes ctx \<and> cx_live_handles ctx' = cx_live_handles ctx)"
  using load_charged [of ctx bytes n out diag]
  by (cases "fd_world_load (Some ctx) bytes n (Some out) diag") (auto simp: charged_def books_def split: if_splits)

section \<open>Sections lie inside the file\<close>

definition sections_fit :: "fd_section list \<Rightarrow> bool" where
  "sections_fit secs \<longleftrightarrow> length secs = 12 \<and>
     (\<forall>s\<in>set secs. fs_present s \<longrightarrow> unat (fs_length s) + 32 \<le> length (fs_payload s))"

lemma parse_section_fits:
  assumes "parse_section bytes footer diag (pos, prev, n, secs) = Inr (pos', prev', n', secs')"
    and "sections_fit secs" and "footer + 32 \<le> length bytes"
  shows "sections_fit secs'"
proof -
  have f: "unat framed = 48 + unat len" if "fd_u64_add 48 len = Some framed" for len framed :: u64
    using fd_u64_add_unat [OF that] by simp
  let ?len = "fd_load_u64_le (drop (pos + 8) bytes)"
  from assms(1) consider "secs' = secs" |
    "secs' = secs[unat prev' := \<lparr>fs_payload = drop (pos + 16) bytes, fs_length = ?len,
       fs_flags = fd_load_u16_le (drop (pos + 2) bytes), fs_present = True\<rparr>]"
      "48 + unat ?len \<le> footer - pos"
    by (auto simp: parse_section_def Let_def dest!: f split: if_splits option.splits)
  then show ?thesis
  proof cases
    case 1
    then show ?thesis using assms(2) by simp
  next
    case 2
    have "unat ?len + 32 \<le> length (drop (pos + 16) bytes)"
      using 2(2) assms(3) by simp
    then show ?thesis
      using assms(2) set_update_subset_insert [of secs "unat prev'"]
      unfolding 2(1) sections_fit_def by fastforce
  qed
qed

lemma parse_loop_fits:
  assumes "parse_loop bytes footer diag st = Inr (pos, prev, n, secs')"
    and "sections_fit (snd (snd (snd st)))" and "footer + 32 \<le> length bytes"
  shows "sections_fit secs'"
  using assms
proof (induction bytes footer diag st rule: parse_loop.induct)
  case (1 bytes footer diag st)
  obtain p q k secs where st: "st = (p, q, k, secs)" by (metis prod.exhaust)
  show ?case
  proof (cases "p < footer")
    case True
    then obtain st' where step: "parse_section bytes footer diag st = Inr st'"
      and rest: "parse_loop bytes footer diag st' = Inr (pos, prev, n, secs')"
      using "1.prems"(1) by (auto simp: parse_loop.simps [of bytes footer diag "(p, q, k, secs)"] st split: sum.splits)
    obtain p' q' k' secs1 where st': "st' = (p', q', k', secs1)" by (metis prod.exhaust)
    have "sections_fit secs1"
      by (rule parse_section_fits) (use step "1.prems" in \<open>simp_all add: st st'\<close>)
    then show ?thesis
      using "1.IH" [OF _ step rest] True "1.prems"(3) by (simp add: st st')
  next
    case False
    then show ?thesis using "1.prems" by (simp add: parse_loop.simps [of bytes footer diag "(p, q, k, secs)"] st)
  qed
qed

lemma parse_sections_fit:
  assumes "fd_parse_save_sections bytes n diag = Inr (secs, k)" and "32 \<le> n" "n \<le> length bytes"
  shows "sections_fit secs" and "\<And>i. 1 \<le> i \<Longrightarrow> i \<le> 11 \<Longrightarrow> fs_present (secs ! i)"
proof -
  from assms(1) obtain p q m where l: "parse_loop bytes (n - 32) diag (8, 0, 0, replicate 12 no_section) = Inr (p, q, m, secs)"
    and f: "find (\<lambda>i. \<not> fs_present (secs ! i) \<or> fs_flags (secs ! i) AND 1 = 0) [1..<12] = None"
    by (auto simp: fd_parse_save_sections_def Let_def split: sum.splits if_splits option.splits)
  show "sections_fit secs"
    by (rule parse_loop_fits [OF l]) (use assms(2,3) in \<open>simp_all add: sections_fit_def no_section_def\<close>)
  show "fs_present (secs ! i)" if "1 \<le> i" "i \<le> 11" for i
    using f that by (auto simp: find_None_iff)
qed

lemma section_room:
  assumes "sections_fit secs" "1 \<le> i" "i \<le> 11" "fs_present (secs ! i)"
  shows "unat (fs_length (secs ! i)) + 32 \<le> length (fs_payload (secs ! i))"
  using assms by (simp add: sections_fit_def)

section \<open>Inverting the decoders\<close>

lemma decode_packs_OK:
  assumes "decode_packs payload is packs = Inr ps" and "4 + (length is + length packs) * 40 \<le> length payload"
    and "is = [length packs..<length packs + length is]"
    and "\<forall>p\<in>set packs. length (cp_sha256 p) = 32"
  shows "length ps = length packs + length is \<and> (\<forall>p\<in>set ps. length (cp_sha256 p) = 32)"
  using assms
proof (induction payload "is" packs rule: decode_packs.induct)
  case (2 payload i rest packs)
  have i: "i = length packs" using "2.prems"(3) by (simp add: upt_rec)
  let ?p = "decode_pack (drop (4 + i * 40) payload)"
  have "length (cp_sha256 ?p) = 32" using "2.prems"(2) i by (simp add: decode_pack_def)
  moreover have "rest = [Suc (length packs)..<Suc (length packs) + length rest]"
    using "2.prems"(3) by (simp add: upt_rec)
  moreover have "decode_packs payload rest (packs @ [?p]) = Inr ps"
    using "2.prems"(1) by (auto simp: Let_def split: if_splits)
  ultimately show ?case
    using "2.IH" [OF refl] "2.prems" by (auto simp: Let_def split: if_splits)
qed simp

lemma decode_content_OK:
  assumes "decode_content secs diag = Inr (n, ps)"
    and "unat (fs_length (secs ! 4)) + 32 \<le> length (fs_payload (secs ! 4))"
  shows "unat n \<le> 16" "length ps = unat n" "\<forall>p\<in>set ps. length (cp_sha256 p) = 32"
proof -
  from assms(1) have n: "\<not> n > 16" "fs_length (secs ! 4) = 4 + ucast n * 40"
    and d: "decode_packs (fs_payload (secs ! 4)) [0..<unat n] [] = Inr ps"
    by (auto simp: decode_content_def Let_def split: if_splits sum.splits)
  show le: "unat n \<le> 16" using n(1) by (simp add: word_less_nat_alt not_less)
  have "unat (fs_length (secs ! 4)) = 4 + unat n * 40"
    using le by (simp add: n(2) unat_count_length)
  then show "length ps = unat n" "\<forall>p\<in>set ps. length (cp_sha256 p) = 32"
    using decode_packs_OK [OF d] assms(2) by simp_all
qed

lemma decode_entities_OK:
  assumes "decode_entities sec n position es = Some (p, es')"
    and "unat (fs_length sec) \<le> length (fs_payload sec)" and "position \<le> fs_length sec"
    and "\<forall>e\<in>set es. length (en_name e) = 48 \<and> unat (en_name_length e) < 48 \<and> name_ok e"
  shows "length es' = length es + n \<and>
    (\<forall>e\<in>set es'. length (en_name e) = 48 \<and> unat (en_name_length e) < 48 \<and> name_ok e)"
  using assms
proof (induction sec n position es rule: decode_entities.induct)
  case (2 sec n position es)
  define payload where "payload = drop (unat position) (fs_payload sec)"
  define k where "k = fd_load_u32_le (drop 36 payload)"
  define e where "e = decode_entity payload k"
  from "2.prems"(1) have g: "\<not> fs_length sec - position < 40" "unat k < 48"
      "\<not> (ucast k :: u64) > fs_length sec - position - 40" "fd_u01_name_valid (drop 40 payload) k"
    and rest: "decode_entities sec n (position + (40 + ucast k)) (es @ [e]) = Some (p, es')"
    by (auto simp: Let_def payload_def [symmetric] k_def [symmetric] e_def [symmetric] not_le split: if_splits)
  have diff: "unat (fs_length sec - position) = unat (fs_length sec) - unat position"
    using "2.prems"(3) by (rule unat_sub)
  have ge: "40 \<le> unat (fs_length sec) - unat position"
    using g(1) diff by (simp add: word_less_nat_alt not_less)
  have "unat (fs_length sec - position - 40) = unat (fs_length sec) - unat position - 40"
    using g(1) diff by (subst unat_sub) (simp_all add: not_less)
  then have fit: "unat k + 40 + unat position \<le> unat (fs_length sec)"
    using g(3) ge by (simp add: word_less_nat_alt not_less)
  then have len: "unat k \<le> length (drop 40 payload)"
    using "2.prems"(2) by (simp add: payload_def)
  have name: "en_name e = take (unat k) (drop 40 payload) @ replicate (48 - unat k) 0" "en_name_length e = k"
    using len g(2) by (simp_all add: e_def decode_entity_def blit_def min_def)
  have "fd_u01_name_valid (en_name e) k"
    using g(4) name_valid_take [of k "drop 40 payload" "en_name e"] len by (simp add: name)
  then have ok: "length (en_name e) = 48 \<and> unat (en_name_length e) < 48 \<and> name_ok e"
    using len g(2) by (simp add: name_ok_def name)
  have "unat position + (40 + unat k) < 2 ^ 64"
    using fit unat_lt_u64 [of "fs_length sec"] by simp
  then have "unat (position + (40 + ucast k)) = unat position + (40 + unat k)"
    using g(2) by (simp add: unat_word_ariths)
  then have pos: "position + (40 + ucast k) \<le> fs_length sec"
    using fit by (simp add: word_le_nat_alt)
  have es: "\<forall>x\<in>set (es @ [e]). length (en_name x) = 48 \<and> unat (en_name_length x) < 48 \<and> name_ok x"
    using "2.prems"(4) ok by auto
  have "length es' = length (es @ [e]) + n \<and>
    (\<forall>e\<in>set es'. length (en_name e) = 48 \<and> unat (en_name_length e) < 48 \<and> name_ok e)"
    using "2.IH" [of payload k] g rest "2.prems"(2) pos es
    by (simp add: payload_def [symmetric] k_def [symmetric] e_def [symmetric] not_le)
  then show ?case by simp
qed simp

section \<open>Accepted files give storable worlds\<close>

lemma decode_configuration_OK:
  assumes "decode_configuration secs diag = Inr c"
  shows "take 32 (drop 36 (fs_payload (secs ! 3))) = fd_hash_config_internal c"
    and "canonical_config c = c"
  using assms
  by (auto simp: decode_configuration_def fd_world_config_init_def canonical_config_def Let_def
      split: if_splits)

lemma decode_inputs_OK:
  assumes "decode_inputs c n ps diag = Inr (h, d)" and "unat n = length ps"
  shows "config_ok c" "packs_ok ps" "wc_forest_density_ppm c \<noteq> 0" "wc_hill_density_ppm c \<noteq> 0"
    "wc_wetland_density_ppm c \<noteq> 0" "d = diag"
    "h = fd_hash_content_internal \<lparr>cm_struct_size = 24, cm_abi_version = 1, cm_pack_count = n,
           cm_reserved = 0, cm_packs = Some ps\<rparr>"
proof -
  let ?m = "\<lparr>cm_struct_size = 24, cm_abi_version = 1, cm_pack_count = n, cm_reserved = 0, cm_packs = Some ps\<rparr>"
  have v: "fst (fd_validate_generation_inputs_internal (Some c) (Some ?m) diag) = FD_OK"
    using assms(1) by (auto simp: decode_inputs_def Let_def split: prod.splits if_splits)
  then show "config_ok c" "packs_ok ps" using inputs_OK_iff [of ?m ps c diag] assms(2) by auto
  show "wc_forest_density_ppm c \<noteq> 0" "wc_hill_density_ppm c \<noteq> 0" "wc_wetland_density_ppm c \<noteq> 0"
    "d = diag" "h = fd_hash_content_internal ?m"
    using assms(1) inputs_OK_diag [OF v] by (auto simp: decode_inputs_def Let_def split: if_splits)
qed

lemma decode_geography_OK:
  assumes "decode_geography secs w = Some w'"
  obtains tiles region rc dc lc where "w' = w\<lparr>w_river_tile_count := rc, w_road_tile_count := dc,
      w_land_tile_count := lc, w_tiles := tiles, w_region := region\<rparr>"
    "length tiles = unat (w_tile_count w)" "length (rg_settlement_ids region) = 2"
    "length (rg_foreign_faction_ids region) = 2"
  using assms by (auto simp: decode_geography_def decode_region_def Let_def split: if_splits)

lemma decode_roster_OK:
  assumes "decode_roster secs w = Some w'"
    and "unat (fs_length (secs ! 8)) \<le> length (fs_payload (secs ! 8))"
  obtains es where "w' = w\<lparr>w_entities := es\<rparr>" "length es = 6"
    "\<forall>e\<in>set es. length (en_name e) = 48 \<and> unat (en_name_length e) < 48 \<and> name_ok e"
proof -
  from assms(1) obtain p es where d: "decode_entities (secs ! 8) 6 8 [] = Some (p, es)"
    and w: "w' = w\<lparr>w_entities := es\<rparr>" and l: "\<not> fs_length (secs ! 8) < 8"
    by (auto simp: decode_roster_def Let_def split: if_splits option.splits)
  have "8 \<le> fs_length (secs ! 8)" using l by (simp only: not_less)
  then have "length es = length ([] :: fd_entity list) + 6 \<and>
      (\<forall>e\<in>set es. length (en_name e) = 48 \<and> unat (en_name_length e) < 48 \<and> name_ok e)"
    by (intro decode_entities_OK [OF d assms(2)]) simp_all
  then show thesis by (intro that [OF w]) simp_all
qed

lemma decode_world_OK:
  assumes "fd_decode_world ctx secs k diag = ((FD_OK, d), ctx', Some v)"
  obtains c n ps h g e where "decode_configuration secs diag = Inr c"
    "decode_content secs diag = Inr (n, ps)" "decode_inputs c n ps diag = Inr (h, g)"
    "decode_rng_and_time secs g = Inr ()"
    "decode_body secs (loaded_header (cx_id ctx) secs c n ps h) g = Inr (v, e)"
  using assms
  by (auto simp: fd_decode_world_def Let_def diag_ok_fst dest: decode_errors
      split: sum.splits prod.splits bool.splits if_splits)

lemma decoded_storable:
  assumes dec: "fd_decode_world ctx secs k diag = ((FD_OK, d), ctx', Some v)"
    and fit: "sections_fit secs" and present: "\<And>i. 1 \<le> i \<Longrightarrow> i \<le> 11 \<Longrightarrow> fs_present (secs ! i)"
  shows "storable v" and "reloaded (cx_id ctx) v = v"
proof -
  from dec obtain c n ps h g e where conf: "decode_configuration secs diag = Inr c"
    and cont: "decode_content secs diag = Inr (n, ps)" and inp: "decode_inputs c n ps diag = Inr (h, g)"
    and rng: "decode_rng_and_time secs g = Inr ()"
    and body: "decode_body secs (loaded_header (cx_id ctx) secs c n ps h) g = Inr (v, e)"
    by (rule decode_world_OK)
  let ?h = "loaded_header (cx_id ctx) secs c n ps h"
  note room = section_room [OF fit _ _ present]
  have ps: "unat n \<le> 16" "length ps = unat n" "\<forall>p\<in>set ps. length (cp_sha256 p) = 32"
    using decode_content_OK [OF cont] room [of 4] by simp_all
  note ok = decode_inputs_OK [OF inp ps(2) [symmetric]]
  note cf = decode_configuration_OK [OF conf]
  from body obtain w1 w2 where tick: "w_tick ?h mod 24 = 0" "w_tick ?h \<le> - 25"
    and geo: "decode_geography secs ?h = Some w1" and ros: "decode_roster secs w1 = Some w2"
    and valid: "world_valid w2" and v: "v = w2\<lparr>w_state_sha256 := state_hash w2\<rparr>"
    by (rule decode_body_OK)
  from geo obtain tiles region rc dc lc where w1: "w1 = ?h\<lparr>w_river_tile_count := rc, w_road_tile_count := dc,
      w_land_tile_count := lc, w_tiles := tiles, w_region := region\<rparr>"
    and tiles: "length tiles = unat (w_tile_count ?h)"
    and reg: "length (rg_settlement_ids region) = 2" "length (rg_foreign_faction_ids region) = 2"
    by (rule decode_geography_OK)
  obtain es where w2: "w2 = w1\<lparr>w_entities := es\<rparr>" and es: "length es = 6"
    "\<forall>e\<in>set es. length (en_name e) = 48 \<and> unat (en_name_length e) < 48 \<and> name_ok e"
    using decode_roster_OK [OF ros] room [of 8] by auto
  have vv: "v = ?h\<lparr>w_river_tile_count := rc, w_road_tile_count := dc, w_land_tile_count := lc,
      w_tiles := tiles, w_region := region, w_entities := es, w_state_sha256 := state_hash w2\<rparr>"
    by (simp add: v w2 w1)
  have "fs_length (secs ! 5) = 24"
    using rng by (auto simp: decode_rng_and_time_def Let_def split: if_splits)
  then have seed: "length (take 16 (fs_payload (secs ! 5))) = 16" using room [of 5] by simp
  have "reloaded (cx_id ctx) v = ?h\<lparr>w_config := canonical_config c, w_river_tile_count := rc,
      w_road_tile_count := dc, w_land_tile_count := lc, w_tiles := tiles, w_region := region,
      w_entities := es, w_state_sha256 := state_hash w2\<rparr>"
    by (simp add: vv reloaded_def loaded_header_def blank_world_def canonical_config_def)
  also have "\<dots> = v"
    by (simp add: cf(2) vv loaded_header_def)
  finally show re: "reloaded (cx_id ctx) v = v" .
  have r8: "length (wc_reserved c) = 8"
    using arg_cong [OF cf(2), of wc_reserved] by (simp add: canonical_config_def) (metis length_replicate)
  have sh: "world_shape v"
    unfolding world_shape_def vv using ps tiles es reg seed r8
    by (simp add: loaded_header_def cf(1) ok(7) state_hash_def)
  have "world_valid v"
    using valid retick.valid [where w = w2 and t = "w_tick w2" and h = "state_hash w2"] by (simp add: v)
  moreover have "hash_consistent v"
    by (simp add: hash_consistent_def v state_hash_def world_bytes_def world_parts_def)
  moreover have "world_manifest v = \<lparr>cm_struct_size = 24, cm_abi_version = 1, cm_pack_count = n,
      cm_reserved = 0, cm_packs = Some ps\<rparr>"
    by (simp add: world_manifest_def vv loaded_header_def)
  ultimately show "storable v"
    using sh ok(1-5) tick es(2) unfolding storable_def
    by (simp add: vv loaded_header_def cf(1) ok(7))
qed

lemma load_storable:
  assumes "fd_world_load (Some ctx) (Some bytes) n out diag = ((FD_OK, d), Some ctx', Some (Some v))"
    and "unat n \<le> length bytes"
  shows "storable v \<and> reloaded (cx_id ctx) v = v"
proof -
  from assms(1) obtain secs k where parse: "fd_parse_save_sections bytes (unat n) diag = Inr (secs, k)"
    and dec: "fd_decode_world ctx secs k diag = ((FD_OK, d), ctx', Some v)" and n: "\<not> n < 88"
    by (auto simp: fd_world_load_def dest: parse_sections_error split: if_splits sum.splits prod.splits)
  have "32 \<le> unat n" using n by (simp add: word_less_nat_alt not_less)
  from parse_sections_fit [OF parse this assms(2)] decoded_storable [OF dec]
  show ?thesis by blast
qed

text \<open>C7: whatever bytes the loader is given, when it returns \<open>FD_OK\<close> the world it hands out is
  storable (valid, hash consistent, within the documented bounds, canonically configured), owned by
  the loading context, and a fixed point of saving and loading.\<close>

theorem loaded_world_storable:
  assumes "fd_world_load (Some ctx) (Some bytes) n out diag = ((FD_OK, d), Some ctx', Some (Some v))"
    and "unat n \<le> length bytes"
  shows "storable v \<and> reloaded (cx_id ctx) v = v"
  using assms by (rule load_storable)

end
