(* ===== verification/FD_Sample.thy ===== *)
theory FD_Sample
  imports FD_Loaded FD_Coast
begin

text \<open>
  A concrete storable world: 32 by 16 tiles, 22 columns of land, a river of twelve tiles rising from
  its outlet at (21, 8) to a hill at (10, 8), and a road along row 7 from the port at (21, 7) to the
  inland settlement at (9, 7).  The statements about valid worlds are applied to it.
\<close>

unbundle bit_operations_syntax

definition sample_tile :: "nat \<Rightarrow> fd_tile" where
  "sample_tile i =
     \<lparr>tl_elevation_cm = (if 22 \<le> i mod 32 then 0 else if 266 \<le> i \<and> i \<le> 277 then 1000 - of_nat i else 100),
      tl_rainfall_mm = 1000,
      tl_settlement_id = (if i = 245 then fd_make_entity_id 2 else if i = 233 then fd_make_entity_id 3 else 0),
      tl_terrain = (if 22 \<le> i mod 32 then FD_TERRAIN_WATER
                    else if i = 245 \<or> i = 233 then FD_TERRAIN_SETTLEMENT
                    else if i = 266 then FD_TERRAIN_HILLS else if i = 21 then FD_TERRAIN_WETLANDS
                    else if i = 0 then FD_TERRAIN_FOREST else FD_TERRAIN_GRASSLAND),
      tl_overlays = (if 266 \<le> i \<and> i \<le> 276 then FD_TILE_OVERLAY_RIVER
                     else if i = 277 then FD_TILE_OVERLAY_RIVER OR FD_TILE_RIVER_OUTLET
                     else if 233 \<le> i \<and> i \<le> 245 then FD_TILE_OVERLAY_ROAD_CANDIDATE else 0)\<rparr>"

definition sample_entity :: "u32 \<Rightarrow> u32 \<Rightarrow> u32 \<Rightarrow> u32 \<Rightarrow> u32 \<Rightarrow> string \<Rightarrow> fd_entity" where
  "sample_entity slot kind x y owner name =
     \<lparr>en_id = fd_make_entity_id slot, en_kind = kind, en_x = x, en_y = y,
      en_region_id = fd_make_entity_id 1, en_owner_id = fd_make_entity_id owner,
      en_name_length = of_nat (length name), en_name = str name @ replicate (48 - length name) 0\<rparr>"

definition sample_config :: fd_world_config where
  "sample_config = (the (snd (fd_world_config_init (Some blank_config))))\<lparr>wc_width := 32, wc_height := 16\<rparr>"

definition sample_ground :: fd_world where
  "sample_ground =
     (grid_world 32 16 (map sample_tile [0..<512])
       [sample_entity 1 1 (- 1) (- 1) 4 ''Region'', sample_entity 2 2 21 7 4 ''Port'',
        sample_entity 3 3 9 7 4 ''Inland'', sample_entity 4 4 (- 1) (- 1) 4 ''Polity'',
        sample_entity 5 5 (- 1) (- 1) 5 ''North'', sample_entity 6 5 (- 1) (- 1) 6 ''South''])
     \<lparr>w_config := sample_config, w_river_tile_count := 12, w_road_tile_count := 13,
      w_land_tile_count := 352,
      w_region := \<lparr>rg_id = fd_make_entity_id 1, rg_political_owner_id = fd_make_entity_id 4,
        rg_settlement_ids = [fd_make_entity_id 2, fd_make_entity_id 3],
        rg_foreign_faction_ids = [fd_make_entity_id 5, fd_make_entity_id 6],
        rg_river_outlet_tile_id = 278, rg_road_start_tile_id = 246, rg_road_end_tile_id = 234,
        rg_river_tile_count = 12, rg_road_tile_count = 13\<rparr>\<rparr>"

definition sample_world :: fd_world where
  "sample_world =
     (let w = sample_ground
            \<lparr>w_configuration_sha256 := fd_hash_config_internal sample_config,
             w_content_sha256 := fd_hash_content_internal (world_manifest sample_ground)\<rparr>
      in w\<lparr>w_state_sha256 := state_hash w\<rparr>)"

section \<open>Reading the sample\<close>

lemma ground_fields:
  "wc_width (w_config sample_ground) = 32" "wc_height (w_config sample_ground) = 16"
  "w_tile_count sample_ground = 512" "w_river_tile_count sample_ground = 12"
  "w_road_tile_count sample_ground = 13" "w_land_tile_count sample_ground = 352"
  by (simp_all add: sample_ground_def grid_world_def sample_config_def)

lemma ground_entities:
  "w_entities sample_ground ! 0 = sample_entity 1 1 (- 1) (- 1) 4 ''Region''"
  "w_entities sample_ground ! 1 = sample_entity 2 2 21 7 4 ''Port''"
  "w_entities sample_ground ! Suc 0 = sample_entity 2 2 21 7 4 ''Port''"
  "w_entities sample_ground ! 2 = sample_entity 3 3 9 7 4 ''Inland''"
  "w_entities sample_ground ! 3 = sample_entity 4 4 (- 1) (- 1) 4 ''Polity''"
  "w_entities sample_ground ! 4 = sample_entity 5 5 (- 1) (- 1) 5 ''North''"
  "w_entities sample_ground ! 5 = sample_entity 6 5 (- 1) (- 1) 6 ''South''"
  by (simp_all add: sample_ground_def grid_world_def)

lemma ground_tile: "i < 512 \<Longrightarrow> w_tiles sample_ground ! i = sample_tile i"
  by (simp add: sample_ground_def grid_world_def)

lemma ground_river: "i < 512 \<Longrightarrow> has_overlay sample_ground FD_TILE_OVERLAY_RIVER i \<longleftrightarrow> 266 \<le> i \<and> i \<le> 277"
  by (auto simp: has_overlay_def ground_tile sample_tile_def)

lemma ground_outlet: "i < 512 \<Longrightarrow> has_overlay sample_ground FD_TILE_RIVER_OUTLET i \<longleftrightarrow> i = 277"
  by (auto simp: has_overlay_def ground_tile sample_tile_def)

lemma ground_road: "i < 512 \<Longrightarrow> has_overlay sample_ground FD_TILE_OVERLAY_ROAD_CANDIDATE i \<longleftrightarrow> 233 \<le> i \<and> i \<le> 245"
  by (auto simp: has_overlay_def ground_tile sample_tile_def)

lemma ground_crossing: "i < 512 \<Longrightarrow> \<not> has_overlay sample_ground FD_TILE_ROAD_CROSSING i"
  by (auto simp: has_overlay_def ground_tile sample_tile_def)

lemma ground_water: "i < 512 \<Longrightarrow> terrain_at sample_ground i = FD_TERRAIN_WATER \<longleftrightarrow> 22 \<le> i mod 32"
  by (auto simp: terrain_at_def ground_tile sample_tile_def)

lemmas sample_eval = fd_neighbor_count_with_overlay_def neighbor_block_def has_overlay_def
  terrain_at_def fd_adjacent_terrain_def ground_fields ground_tile sample_tile_def

text \<open>A scan does nothing where its step does nothing.\<close>

lemma scan_tiles_append:
  "scan_tiles f (is @ js) a = (case scan_tiles f is a of None \<Rightarrow> None | Some b \<Rightarrow> scan_tiles f js b)"
  by (induction "is" arbitrary: a) (auto split: option.splits)

lemma scan_tiles_quiet: "(\<And>i. i \<in> set is \<Longrightarrow> f i a = Some a) \<Longrightarrow> scan_tiles f is a = Some a"
  by (induction "is") auto

lemma scan_tiles_window:
  assumes "\<And>i a. i < n \<Longrightarrow> \<not> (lo \<le> i \<and> i < hi) \<Longrightarrow> f i a = Some a" and "lo \<le> hi" "hi \<le> n"
  shows "scan_tiles f [0..<n] a = scan_tiles f [lo..<hi] a"
proof -
  have "[0..<n] = [0..<lo] @ [lo..<hi] @ [hi..<n]"
    using assms(2,3) upt_add_eq_append [of 0 lo "n - lo"] upt_add_eq_append [of lo hi "n - hi"] by simp
  moreover have "scan_tiles f [0..<lo] a = Some a" "scan_tiles f [hi..<n] b = Some b" for a b
    using assms by (intro scan_tiles_quiet; simp)+
  ultimately show ?thesis by (simp add: scan_tiles_append split: option.splits)
qed

section \<open>The river and the road\<close>

lemma sample_river_scan:
  "scan_tiles (river_tile sample_ground) [0..<512]
     \<lparr>ra_count = 0, ra_endpoints = 0, ra_outlet_count = 0, ra_outlet = UINT32_MAX\<rparr> =
   Some \<lparr>ra_count = 12, ra_endpoints = 2, ra_outlet_count = 1, ra_outlet = 277\<rparr>"
proof -
  have "scan_tiles (river_tile sample_ground) [0..<512]
     \<lparr>ra_count = 0, ra_endpoints = 0, ra_outlet_count = 0, ra_outlet = UINT32_MAX\<rparr> =
    scan_tiles (river_tile sample_ground) [266..<278]
     \<lparr>ra_count = 0, ra_endpoints = 0, ra_outlet_count = 0, ra_outlet = UINT32_MAX\<rparr>"
    by (rule scan_tiles_window) (auto simp: river_tile_def ground_river ground_outlet)
  then show ?thesis by (simp add: river_tile_def sample_eval)
qed

lemma fold_minimum_ge:
  assumes "b \<le> m" and "\<And>i. i \<in> set is \<Longrightarrow> P i \<Longrightarrow> b \<le> d i"
  shows "b \<le> fold (\<lambda>i m. if P i then let distance = d i in if distance < m then distance else m else m) is (m :: nat)"
  using assms by (induction "is" arbitrary: m) (auto simp: Let_def)

lemma sample_water_distance: "\<not> minimum_water_distance sample_ground 10 8 < 8"
proof -
  have "8 \<le> minimum_water_distance sample_ground 10 8"
    unfolding minimum_water_distance_def
    by (rule fold_minimum_ge) (auto simp: ground_fields ground_water fd_manhattan_def fd_abs_diff_u32_def)
  then show ?thesis by simp
qed

lemma sample_river: "fd_validate_river sample_ground = Some (12, 277)"
proof -
  have "river_walk sample_ground 12 1 UINT32_MAX 277 = Some (12, 266)"
    by (simp add: river_walk.simps sample_eval)
  moreover have "terrain_at sample_ground 266 = FD_TERRAIN_HILLS" by (simp add: sample_eval)
  ultimately show ?thesis
    using sample_water_distance by (simp add: fd_validate_river_def ground_fields sample_river_scan)
qed

lemma sample_road_scan:
  "scan_tiles (road_tile sample_ground) [0..<512]
     \<lparr>rd_count = 0, rd_endpoints = 0, rd_start = UINT32_MAX, rd_explicit_crossings = 0,
      rd_river_intersections = 0\<rparr> =
   Some \<lparr>rd_count = 13, rd_endpoints = 2, rd_start = 233, rd_explicit_crossings = 0,
      rd_river_intersections = 0\<rparr>"
proof -
  have "scan_tiles (road_tile sample_ground) [0..<512]
     \<lparr>rd_count = 0, rd_endpoints = 0, rd_start = UINT32_MAX, rd_explicit_crossings = 0,
      rd_river_intersections = 0\<rparr> =
    scan_tiles (road_tile sample_ground) [233..<246]
     \<lparr>rd_count = 0, rd_endpoints = 0, rd_start = UINT32_MAX, rd_explicit_crossings = 0,
      rd_river_intersections = 0\<rparr>"
    by (rule scan_tiles_window) (auto simp: road_tile_def ground_road ground_crossing)
  then show ?thesis by (simp add: road_tile_def sample_eval)
qed

lemma sample_road: "fd_validate_road sample_ground = Some (13, 0)"
proof -
  have "road_walk sample_ground 13 1 UINT32_MAX 233 False 0 = Some (13, 245, 0)"
    by (simp add: road_walk.simps sample_eval)
  then show ?thesis
    by (simp add: fd_validate_road_def ground_fields sample_road_scan ground_entities sample_entity_def
        ground_road ground_river)
qed

section \<open>Settlements, tiles and the coast\<close>

lemma scan_tiles_invariant:
  assumes "I a" and "\<And>i a. i \<in> set is \<Longrightarrow> I a \<Longrightarrow> \<exists>b. f i a = Some b \<and> I b"
  shows "\<exists>b. scan_tiles f is a = Some b \<and> I b"
  using assms
proof (induction "is" arbitrary: a)
  case (Cons i "is")
  then obtain b where "f i a = Some b" "I b" by (metis list.set_intros(1))
  then show ?case using Cons by auto
qed simp

lemma upt_split_at: "m \<le> k \<Longrightarrow> k < n \<Longrightarrow> [m..<n] = [m..<k] @ k # [Suc k..<n]"
  using upt_add_eq_append [of m k "n - k"] upt_conv_Cons [of k n] by simp

lemma sample_settlement_scan:
  "\<exists>sea \<ge> 4. scan_tiles (settlement_tile sample_ground) [0..<512] (0, UINT32_MAX) = Some (2, sea)"
proof -
  have quiet: "\<exists>b. scan_tiles (settlement_tile sample_ground) is a = Some b \<and> fst b = fst a \<and> 4 \<le> snd b"
    if "4 \<le> snd a" "set is \<subseteq> {..<512} - {233, 245}" for "is" and a :: "nat \<times> nat"
  proof (rule scan_tiles_invariant [where I = "\<lambda>b. fst b = fst a \<and> 4 \<le> snd b"])
    fix i and b :: "nat \<times> nat" assume i: "i \<in> set is" and b: "fst b = fst a \<and> 4 \<le> snd b"
    then have j: "i < 512" "i \<noteq> 233" "i \<noteq> 245" using that(2) by auto
    then have "settlement_tile sample_ground i b =
        Some (fst b, if 22 \<le> i mod 32 \<and> fd_manhattan 9 7 (i mod 32) (i div 32) < snd b
                     then fd_manhattan 9 7 (i mod 32) (i div 32) else snd b)"
      by (simp add: settlement_tile_def terrain_at_def ground_fields ground_entities sample_entity_def
          ground_tile sample_tile_def Let_def split: prod.splits)
    then show "\<exists>c. settlement_tile sample_ground i b = Some c \<and> fst c = fst a \<and> 4 \<le> snd c"
      using b by (auto simp: fd_manhattan_def fd_abs_diff_u32_def)
  qed (use that in simp)
  have hit: "settlement_tile sample_ground i (n, sea) = Some (n + 1, sea)" if "i = 233 \<or> i = 245" for i n sea
    using that by (auto simp: settlement_tile_def sample_eval)
  have "[0..<512] = [0..<233] @ 233 # [Suc 233..<512]" "[Suc 233..<512] = [Suc 233..<245] @ 245 # [Suc 245..<512]"
    by (rule upt_split_at; simp)+
  then have split: "[0..<512] = [0..<233] @ 233 # [Suc 233..<245] @ 245 # [Suc 245..<512]" by (simp only:)
  have sets: "set [0..<233] \<subseteq> {..<512} - {233, 245}" "set [Suc 233..<245] \<subseteq> {..<512} - {233, 245}"
    "set [Suc 245..<512] \<subseteq> {..<512} - {233, 245 :: nat}" by auto
  obtain s1 where s1: "scan_tiles (settlement_tile sample_ground) [0..<233] (0, UINT32_MAX) = Some (0, s1)" "4 \<le> s1"
    using quiet [OF _ sets(1), of "(0, UINT32_MAX)"] by auto
  obtain s2 where s2: "scan_tiles (settlement_tile sample_ground) [Suc 233..<245] (1, s1) = Some (1, s2)" "4 \<le> s2"
    using quiet [OF _ sets(2), of "(1, s1)"] s1(2) by auto
  obtain s3 where s3: "scan_tiles (settlement_tile sample_ground) [Suc 245..<512] (2, s2) = Some (2, s3)" "4 \<le> s3"
    using quiet [OF _ sets(3), of "(2, s2)"] s2(2) by auto
  show ?thesis
    unfolding split scan_tiles_append
    by (simp only: s1(1) option.case scan_tiles.simps hit [of 233] simp_thms scan_tiles_append add_0
        s2(1) hit [of 245] one_add_one s3(1)) (use s3(2) in blast)
qed

lemma sample_settlements: "fd_validate_settlements sample_ground 277"
proof -
  obtain sea where "4 \<le> sea" "scan_tiles (settlement_tile sample_ground) [0..<512] (0, UINT32_MAX) = Some (2, sea)"
    using sample_settlement_scan by blast
  then show ?thesis
    by (simp add: fd_validate_settlements_def ground_entities sample_entity_def fd_manhattan_def
        fd_abs_diff_u32_def) (simp add: sample_eval)
qed

lemma validate_tile_ok: "tile_ok w i \<Longrightarrow> ts_first_failed (validate_tile w i s) = ts_first_failed s"
  by (auto simp: tile_ok_def validate_tile_def terrain_at_def Let_def)

lemma fold_validate_ok:
  "\<forall>i\<in>set is. tile_ok w i \<Longrightarrow> ts_first_failed (fold (validate_tile w) is s) = ts_first_failed s"
  by (induction "is" arbitrary: s) (simp_all add: validate_tile_ok)

lemma sample_tile_ok: "i < 512 \<Longrightarrow> tile_ok sample_ground i"
proof -
  assume i: "i < 512"
  have "fd_adjacent_terrain sample_ground 21 FD_TERRAIN_WATER" by (simp add: sample_eval)
  moreover have "terrain_at sample_ground i = FD_TERRAIN_WETLANDS \<Longrightarrow> i = 21"
    using i by (auto simp: terrain_at_def ground_tile sample_tile_def split: if_splits)
  moreover have high: "0 < sint (1000 - of_nat i :: u32)" if "266 \<le> i" "i \<le> 277"
  proof -
    have "i = 266 \<or> i = 267 \<or> i = 268 \<or> i = 269 \<or> i = 270 \<or> i = 271 \<or> i = 272 \<or> i = 273 \<or>
        i = 274 \<or> i = 275 \<or> i = 276 \<or> i = 277"
      using that by presburger
    then show ?thesis by auto
  qed
  ultimately have wet: "terrain_at sample_ground i = FD_TERRAIN_WETLANDS \<Longrightarrow>
      fd_adjacent_terrain sample_ground i FD_TERRAIN_WATER" by simp
  have "tl_overlays (sample_tile i) AND NOT (FD_TILE_OVERLAY_RIVER OR FD_TILE_OVERLAY_ROAD_CANDIDATE OR
      FD_TILE_RIVER_OUTLET OR FD_TILE_ROAD_CROSSING) = 0"
    by (simp add: sample_tile_def)
  moreover have "FD_TERRAIN_WATER \<le> tl_terrain (sample_tile i)" "tl_terrain (sample_tile i) \<le> FD_TERRAIN_SETTLEMENT"
    "tl_rainfall_mm (sample_tile i) \<le> 5000"
    by (simp_all add: sample_tile_def)
  moreover have "if tl_terrain (sample_tile i) = FD_TERRAIN_WATER then sint (tl_elevation_cm (sample_tile i)) = 0
      else 0 < sint (tl_elevation_cm (sample_tile i))"
    using high by (simp add: sample_tile_def)
  ultimately show ?thesis
    using wet i unfolding tile_ok_def terrain_at_def ground_tile [OF i] by blast
qed

lemma sample_coast: "fd_validate_coast_land sample_ground 352"
proof -
  have land: "coast_cells (\<lambda>x. x < 22) [0..<32]
      \<lparr>cr_start = 32, cr_end = 0, cr_saw_land = False, cr_gap_after_land = False\<rparr> =
    Some \<lparr>cr_start = 0, cr_end = 21, cr_saw_land = True, cr_gap_after_land = True\<rparr>"
    by code_simp
  have cells: "coast_cells f xs a = coast_cells g xs a" if "\<forall>x\<in>set xs. f x = g x" for f g xs a
    using that by (induction xs arbitrary: a) (auto split: option.splits)
  have row: "coast_cells (\<lambda>x. terrain_at sample_ground (y * 32 + x) \<noteq> FD_TERRAIN_WATER) [0..<32]
       \<lparr>cr_start = 32, cr_end = 0, cr_saw_land = False, cr_gap_after_land = False\<rparr> =
     Some \<lparr>cr_start = 0, cr_end = 21, cr_saw_land = True, cr_gap_after_land = True\<rparr>" if "y < 16" for y
  proof -
    have "\<forall>x\<in>set [0..<32]. (terrain_at sample_ground (y * 32 + x) \<noteq> FD_TERRAIN_WATER) = (x < 22)"
      using that by (auto simp: ground_water)
    then show ?thesis
      by (subst cells [where g = "\<lambda>x. x < 22"]) (assumption, rule land)
  qed
  have rows: "ps \<le> 21 \<Longrightarrow> set ys \<subseteq> {..<16} \<Longrightarrow> coast_rows sample_ground ys ps pe" for ys ps pe
  proof (induction ys arbitrary: ps pe)
    case (Cons y ys)
    then show ?case using row [of y] by (simp add: ground_fields)
  qed simp
  have "coast_rows sample_ground [0..<16] 0 0" by (rule rows) auto
  then show ?thesis by (simp add: fd_validate_coast_land_def ground_fields)
qed

lemma sample_tiles:
  "ts_first_failed (validate_tiles sample_ground) = UINT32_MAX"
  "ts_land (validate_tiles sample_ground) = 352" "coverage_ok (ts_terrain_counts (validate_tiles sample_ground))"
proof -
  show "ts_first_failed (validate_tiles sample_ground) = UINT32_MAX"
    unfolding validate_tiles_def
    by (subst fold_validate_ok) (auto simp: ground_fields intro: sample_tile_ok)
  have "{i. i < 512 \<and> terrain_at sample_ground i \<noteq> FD_TERRAIN_WATER} = {i. i < 512 \<and> \<not> 22 \<le> i mod 32}"
    using ground_water by blast
  moreover have "card {i :: nat. i < 512 \<and> \<not> 22 \<le> i mod 32} = 352"
  proof -
    have "{i :: nat. i < 512 \<and> \<not> 22 \<le> i mod 32} = (\<lambda>(y, x). y * 32 + x) ` ({..<16} \<times> {..<22})"
    proof (intro equalityI subsetI)
      fix i :: nat assume "i \<in> {i. i < 512 \<and> \<not> 22 \<le> i mod 32}"
      then have "i = (\<lambda>(y, x). y * 32 + x) (i div 32, i mod 32)" "(i div 32, i mod 32) \<in> {..<16} \<times> {..<22}"
        by auto
      then show "i \<in> (\<lambda>(y, x). y * 32 + x) ` ({..<16} \<times> {..<22})" by (rule image_eqI)
    qed auto
    moreover have "inj_on (\<lambda>(y, x). y * 32 + x :: nat) ({..<16} \<times> {..<22})"
      by (rule inj_on_inverseI [where g = "\<lambda>i. (i div 32, i mod 32)"]) auto
    ultimately show ?thesis by (simp add: card_image card_cartesian_product)
  qed
  ultimately show "ts_land (validate_tiles sample_ground) = 352"
    by (simp only: validate_tiles_land ground_fields) simp
  have count: "ts_terrain_counts (validate_tiles sample_ground) ! t =
      card {i. i < 512 \<and> unat (terrain_at sample_ground i) = t}" if "t \<in> {1..6}" for t
    using validate_tiles_counts [OF that, of sample_ground] by (simp add: ground_fields)
  have pos: "0 < ts_terrain_counts (validate_tiles sample_ground) ! t"
    if "t \<in> {1..6}" "i < 512" "unat (tl_terrain (sample_tile i)) = t" for t i
  proof -
    have "i \<in> {i. i < 512 \<and> unat (terrain_at sample_ground i) = t}"
      using that(2,3) by (simp add: terrain_at_def ground_tile)
    then show ?thesis unfolding count [OF that(1)] card_gt_0_iff by auto
  qed
  have "{i. i < 512 \<and> unat (terrain_at sample_ground i) = 6} = {233, 245}"
    by (auto simp: terrain_at_def ground_tile sample_tile_def split: if_splits)
  then have "ts_terrain_counts (validate_tiles sample_ground) ! 6 = 2" by (simp add: count)
  then show "coverage_ok (ts_terrain_counts (validate_tiles sample_ground))"
    using pos [of 1 22] pos [of 2 1] pos [of 3 0] pos [of 4 266] pos [of 5 21]
    by (simp add: coverage_ok_def sample_tile_def)
qed

lemma sample_ground_valid: "world_valid sample_ground"
proof -
  have "fd_validate_ownership_graph sample_ground 12 13 277"
    by (simp add: fd_validate_ownership_graph_def ground_entities sample_entity_def ground_fields
        list_all_iff upt_rec fd_tile_id_from_index_def)
      (simp add: sample_ground_def grid_world_def fd_make_entity_id_def sample_entity_def)
  then show ?thesis
    using sample_river sample_road sample_settlements sample_tiles sample_coast
    by (simp add: world_valid_def bounds_ok_def ground_fields)
qed

section \<open>The sample is storable\<close>

lemma sample_world_eq:
  "\<exists>h. sample_world = sample_ground
     \<lparr>w_configuration_sha256 := fd_hash_config_internal sample_config,
      w_content_sha256 := fd_hash_content_internal (world_manifest sample_ground), w_state_sha256 := h\<rparr>"
  by (auto simp: sample_world_def Let_def)

interpretation sample: same_ground sample_world sample_ground
proof -
  obtain h where w: "sample_world = sample_ground
     \<lparr>w_configuration_sha256 := fd_hash_config_internal sample_config,
      w_content_sha256 := fd_hash_content_internal (world_manifest sample_ground), w_state_sha256 := h\<rparr>"
    using sample_world_eq by blast
  show "same_ground sample_world sample_ground" by unfold_locales (simp_all add: w)
qed

lemma sample_entity_name:
  assumes "0 < length n" "length n < 48" and "\<forall>c\<in>set (str n). \<not> (c < 0x20 \<or> c > 0x7e)"
  shows "length (en_name (sample_entity a b c d e n)) = 48 \<and>
    unat (en_name_length (sample_entity a b c d e n)) < 48 \<and> name_ok (sample_entity a b c d e n)"
proof -
  have u: "unat (of_nat (length n) :: u32) = length n" using assms(2) by (intro unat_of_nat_u32) simp
  have "\<not> (str n ! i < 0x20 \<or> str n ! i > 0x7e)" if "i < length n" for i
    using assms(3) that nth_mem [of i "str n"] by simp
  moreover have "(of_nat (length n) :: u32) \<noteq> 0" using assms(1) u by (metis less_irrefl unsigned_0)
  ultimately show ?thesis
    using assms(2) u by (simp add: sample_entity_def name_ok_def fd_u01_name_valid_def list_all_iff nth_append)
qed

lemma sample_names: "e \<in> set (w_entities sample_ground) \<Longrightarrow>
    length (en_name e) = 48 \<and> unat (en_name_length e) < 48 \<and> name_ok e"
  unfolding sample_ground_def grid_world_def
  by (simp, elim disjE; simp only:) (rule sample_entity_name; simp add: str_def)+

lemma sample_storable: "storable sample_world"
proof -
  obtain h where w: "sample_world = sample_ground
     \<lparr>w_configuration_sha256 := fd_hash_config_internal sample_config,
      w_content_sha256 := fd_hash_content_internal (world_manifest sample_ground), w_state_sha256 := h\<rparr>"
    using sample_world_eq by blast
  have "hash_consistent sample_world"
    by (simp add: hash_consistent_def sample_world_def state_hash_def world_bytes_def world_parts_def Let_def)
  moreover have "world_valid sample_world" using sample.valid sample_ground_valid by simp
  moreover have "world_manifest sample_world = world_manifest sample_ground"
    by (simp add: world_manifest_def w)
  moreover have "config_ok sample_config"
    by (simp add: config_ok_def sample_config_def fd_world_config_init_def)
  moreover have "length (w_state_sha256 sample_world) = 32"
    by (simp add: sample_world_def state_hash_def Let_def)
  moreover have "w_config sample_world = sample_config" "w_tick sample_world = 0"
    "w_root_seed_le sample_world = replicate 16 0" "w_content_count sample_world = 0"
    "w_content sample_world = []" "w_tiles sample_world = map sample_tile [0..<512]"
    "w_tile_count sample_world = 512" "w_entities sample_world = w_entities sample_ground"
    "w_configuration_sha256 sample_world = fd_hash_config_internal sample_config"
    "w_content_sha256 sample_world = fd_hash_content_internal (world_manifest sample_ground)"
    "w_region sample_world = w_region sample_ground"
    by (simp_all add: w sample_ground_def grid_world_def)
  moreover have "length (rg_settlement_ids (w_region sample_ground)) = 2"
    "length (rg_foreign_faction_ids (w_region sample_ground)) = 2" "length (w_entities sample_ground) = 6"
    "length (wc_reserved sample_config) = 8"
    by (simp_all add: sample_ground_def grid_world_def sample_config_def fd_world_config_init_def)
  moreover have "wc_forest_density_ppm sample_config \<noteq> 0" "wc_hill_density_ppm sample_config \<noteq> 0"
    "wc_wetland_density_ppm sample_config \<noteq> 0"
    by (simp_all add: sample_config_def fd_world_config_init_def)
  moreover have "packs_ok []" by (simp add: packs_ok_def)
  ultimately show ?thesis using sample_names by (simp add: storable_def world_shape_def)
qed

section \<open>Saving and loading the sample\<close>

lemma sample_file_length: "length (save_file sample_world) = 13500"
proof -
  have sh: "world_shape sample_world" using sample_storable by (simp add: storable_def)
  obtain h where w: "sample_world = sample_ground
     \<lparr>w_configuration_sha256 := fd_hash_config_internal sample_config,
      w_content_sha256 := fd_hash_content_internal (world_manifest sample_ground), w_state_sha256 := h\<rparr>"
    using sample_world_eq by blast
  have e: "length (entity_bytes (sample_entity a b c d x n)) = 40 + length n" if "length n < 48" for a b c d x n
    using that by (simp add: length_entity_bytes sample_entity_def unat_of_nat_u32)
  have "length (concat (map entity_bytes (w_entities sample_world))) = 272"
    by (simp add: w sample_ground_def grid_world_def e)
  moreover have "w_content_count sample_world = 0" "w_tile_count sample_world = 512"
    by (simp_all add: w sample_ground_def grid_world_def)
  ultimately show ?thesis
    by (simp add: length_save_file length_save_body [OF sh])
qed

lemma sample_room: "\<exists>ctx'. room_for sample_context sample_world ctx'"
proof -
  have "wc_width (w_config sample_world) = 32" "wc_height (w_config sample_world) = 16"
    using sample.width sample.height by (simp_all add: ground_fields)
  then have "world_tile_bytes (w_config sample_world) = 12288" by (simp add: world_tile_bytes_def)
  then show ?thesis by (simp add: room_for_def fd_context_alloc_def sample_context_def)
qed

theorem save_load_roundtrip_witness:
  "\<exists>d1 buf' n d2 ctx'.
    fd_world_save sample_context (Some sample_world) (Some (replicate 20000 0)) 20000 (Some 0) None =
      ((FD_OK, d1), Some buf', Some n) \<and>
    fd_world_load (Some sample_context) (Some buf') n (Some None) d1 =
      ((FD_OK, d2), Some ctx', Some (Some (reloaded 1 sample_world)))"
proof -
  obtain ctx' where room: "room_for sample_context sample_world ctx'" using sample_room by blast
  have lim: "length (save_file sample_world) \<le> unat (cx_max_file_bytes sample_context)"
    "length (save_file sample_world) \<le> unat (20000 :: u64)" "cx_id sample_context = 1"
    by (simp_all add: sample_file_length sample_context_def)
  show ?thesis
    using save_load_roundtrip [OF sample_storable room _ lim(1,2), of "replicate 20000 0" 0 None None] lim(3)
    by auto
qed

lemma sample_loaded:
  "\<exists>d ctx'. fd_world_load (Some sample_context) (Some (save_file sample_world)) 13500 (Some None) None =
     ((FD_OK, d), Some ctx', Some (Some (reloaded 1 sample_world)))"
proof -
  obtain ctx' where room: "room_for sample_context sample_world ctx'" using sample_room by blast
  have "length (save_file sample_world) \<le> unat (cx_max_file_bytes sample_context)" "cx_id sample_context = 1"
    by (simp_all add: sample_file_length sample_context_def)
  then show ?thesis
    using fd_world_load_saved [OF sample_storable room, of "[]" None None] by (auto simp: sample_file_length)
qed

theorem loaded_world_storable_witness: "storable (reloaded 1 sample_world)"
proof -
  obtain d ctx' where "fd_world_load (Some sample_context) (Some (save_file sample_world)) 13500 (Some None) None =
     ((FD_OK, d), Some ctx', Some (Some (reloaded 1 sample_world)))"
    using sample_loaded by blast
  from loaded_world_storable [OF this] show ?thesis by (simp add: sample_file_length)
qed

end
