(* ===== verification/FD_Draw.thy ===== *)
theory FD_Draw
  imports FD_Rng FD_Context FD_Validate
begin

text \<open>
  What the stages of the generator in \<^verbatim>\<open>src/core/fd_generate.c\<close> share: the random draws a world
  makes (its own seed and versions in the scope of \<open>FD_Rng\<close>), the update of one tile in place, and
  the frame, the part of a world a stage leaves alone.
\<close>

unbundle bit_operations_syntax

abbreviation (input) FD_RNG_DOMAIN_COAST :: u32 where "FD_RNG_DOMAIN_COAST \<equiv> 1"
abbreviation (input) FD_RNG_DOMAIN_ELEVATION_LATTICE :: u32 where "FD_RNG_DOMAIN_ELEVATION_LATTICE \<equiv> 2"
abbreviation (input) FD_RNG_DOMAIN_RIVER_SOURCE :: u32 where "FD_RNG_DOMAIN_RIVER_SOURCE \<equiv> 3"
abbreviation (input) FD_RNG_DOMAIN_RIVER_TIE_BREAK :: u32 where "FD_RNG_DOMAIN_RIVER_TIE_BREAK \<equiv> 4"
abbreviation (input) FD_RNG_DOMAIN_BIOME_ASSIGNMENT :: u32 where "FD_RNG_DOMAIN_BIOME_ASSIGNMENT \<equiv> 5"
abbreviation (input) FD_RNG_DOMAIN_SETTLEMENT_PLACEMENT :: u32 where
  "FD_RNG_DOMAIN_SETTLEMENT_PLACEMENT \<equiv> 6"
abbreviation (input) FD_RNG_DOMAIN_ROAD_CANDIDATE :: u32 where "FD_RNG_DOMAIN_ROAD_CANDIDATE \<equiv> 7"
abbreviation (input) FD_RNG_DOMAIN_NAMING :: u32 where "FD_RNG_DOMAIN_NAMING \<equiv> 8"
abbreviation (input) FD_RNG_DOMAIN_FACTION_INITIALIZATION :: u32 where
  "FD_RNG_DOMAIN_FACTION_INITIALIZATION \<equiv> 9"

abbreviation (input) FD_RNG_SITE_COAST_FACING :: u32 where "FD_RNG_SITE_COAST_FACING \<equiv> 0x0101"
abbreviation (input) FD_RNG_SITE_COAST_ROW_OFFSET :: u32 where "FD_RNG_SITE_COAST_ROW_OFFSET \<equiv> 0x0102"
abbreviation (input) FD_RNG_SITE_ELEVATION_TILE :: u32 where "FD_RNG_SITE_ELEVATION_TILE \<equiv> 0x0201"
abbreviation (input) FD_RNG_SITE_RIVER_SOURCE_ROW :: u32 where "FD_RNG_SITE_RIVER_SOURCE_ROW \<equiv> 0x0301"
abbreviation (input) FD_RNG_SITE_RIVER_TIE :: u32 where "FD_RNG_SITE_RIVER_TIE \<equiv> 0x0401"
abbreviation (input) FD_RNG_SITE_BIOME_TILE :: u32 where "FD_RNG_SITE_BIOME_TILE \<equiv> 0x0501"
abbreviation (input) FD_RNG_SITE_SETTLEMENT_ROW :: u32 where "FD_RNG_SITE_SETTLEMENT_ROW \<equiv> 0x0601"
abbreviation (input) FD_RNG_SITE_ROAD_TIE :: u32 where "FD_RNG_SITE_ROAD_TIE \<equiv> 0x0701"
abbreviation (input) FD_RNG_SITE_NAMING_SYLLABLE :: u32 where "FD_RNG_SITE_NAMING_SYLLABLE \<equiv> 0x0801"

section \<open>Draws\<close>

definition world_scope :: "fd_world \<Rightarrow> u32 \<Rightarrow> u64 \<Rightarrow> u64 \<Rightarrow> u64 \<Rightarrow> u32 \<Rightarrow> rng_scope" where
  "world_scope w domain subject attempt sample site =
     \<lparr>rs_root_seed = w_root_seed_le w, rs_generator_version = wc_generator_version (w_config w),
      rs_ruleset_version = wc_ruleset_version (w_config w), rs_domain = domain,
      rs_subject = subject, rs_occurrence = attempt, rs_sample = sample, rs_site = site\<rparr>"

text \<open>\<open>world_draw\<close> is a bounded draw into a variable that held \<open>old\<close>.\<close>

definition world_draw ::
    "fd_world \<Rightarrow> u32 \<Rightarrow> u64 \<Rightarrow> u64 \<Rightarrow> u64 \<Rightarrow> u32 \<Rightarrow> u32 \<Rightarrow> u32 \<Rightarrow> fd_result \<times> u32" where
  "world_draw w domain subject attempt sample site upper old =
     (case fd_rng_bounded (world_scope w domain subject attempt sample site) upper (Some old) of
        (result, out) \<Rightarrow> (result, the out))"

lemma world_draw_below:
  "upper \<noteq> 0 \<Longrightarrow> world_draw w domain subject attempt sample site upper old = (FD_OK, v) \<Longrightarrow> v < upper"
  using fd_rng_bounded_cases [of upper "world_scope w domain subject attempt sample site" old]
  by (auto simp: world_draw_def fd_const)

lemma world_draw_result:
  "upper \<noteq> 0 \<Longrightarrow> fst (world_draw w domain subject attempt sample site upper old) \<in> {FD_OK, FD_ERR_CAPACITY}"
  using fd_rng_bounded_cases [of upper "world_scope w domain subject attempt sample site" old]
  by (auto simp: world_draw_def)

section \<open>Tiles in place\<close>

definition tile_update :: "nat \<Rightarrow> (fd_tile \<Rightarrow> fd_tile) \<Rightarrow> fd_world \<Rightarrow> fd_world" where
  "tile_update index f w = w\<lparr>w_tiles := (w_tiles w)[index := f (w_tiles w ! index)]\<rparr>"

lemma tile_update_tiles:
  "j < length (w_tiles w) \<Longrightarrow>
     w_tiles (tile_update i f w) ! j = (if j = i then f (w_tiles w ! i) else w_tiles w ! j)"
  by (auto simp: tile_update_def nth_list_update)

text \<open>The grid loops run over the rows, and in each row over the columns.\<close>

definition grid_cells :: "nat \<Rightarrow> nat \<Rightarrow> (nat \<times> nat) list" where
  "grid_cells height width = concat (map (\<lambda>y. map (Pair y) [0..<width]) [0..<height])"

section \<open>The frame of a stage\<close>

text \<open>What the stages between the blank world and the finished one never touch.\<close>

definition run_frame :: "fd_world \<Rightarrow> _" where
  "run_frame w = (w_context w, w_config w, w_root_seed_le w, w_content_count w, w_content w,
     w_configuration_sha256 w, w_content_sha256 w, w_tick w, w_tile_count w, w_allocation_size w,
     length (w_tiles w))"

lemma run_frame_tile_update [simp]: "run_frame (tile_update i f w) = run_frame w"
  by (simp add: run_frame_def tile_update_def)

lemma tile_update_fields [simp]:
  "w_config (tile_update i f w) = w_config w" "w_root_seed_le (tile_update i f w) = w_root_seed_le w"
  "w_tile_count (tile_update i f w) = w_tile_count w" "length (w_tiles (tile_update i f w)) = length (w_tiles w)"
  "w_entities (tile_update i f w) = w_entities w" "w_region (tile_update i f w) = w_region w"
  "w_road_tile_count (tile_update i f w) = w_road_tile_count w"
  "w_river_tile_count (tile_update i f w) = w_river_tile_count w"
  "w_land_tile_count (tile_update i f w) = w_land_tile_count w"
  "w_state_sha256 (tile_update i f w) = w_state_sha256 w"
  by (simp_all add: tile_update_def)

text \<open>And what the stages that only touch tiles leave alone.\<close>

definition stage_frame :: "fd_world \<Rightarrow> _" where
  "stage_frame w = (run_frame w, w_entities w, w_region w, w_land_tile_count w, w_river_tile_count w,
     w_river_raised_tile_count w, w_river_min_carve_cm w, w_state_sha256 w)"

lemma stage_frame_tile_update [simp]: "stage_frame (tile_update i f w) = stage_frame w"
  by (simp add: stage_frame_def) (simp add: tile_update_def)

text \<open>An allocator that never fails, for concrete evaluations.\<close>

definition roomy_context :: "unit fd_context" where
  "roomy_context = \<lparr>cx_id = 1, cx_allocate = \<lambda>u n. (True, u), cx_deallocate = \<lambda>u n. u,
     cx_allocator_user = (), cx_max_file_bytes = 67108864, cx_max_live_world_bytes = 4194304,
     cx_allocation_calls = 0, cx_deallocation_calls = 0, cx_live_bytes = 0, cx_peak_live_bytes = 0,
     cx_live_handles = 0\<rparr>"

lemma fold_invariant:
  "(\<And>x s. f (g x s) = f s) \<Longrightarrow> f (fold g xs s) = f s"
  by (induction xs arbitrary: s) auto

end
