(* ===== verification/FD_Naming.thy ===== *)
theory FD_Naming
  imports FD_Roundtrip FD_Draw
begin

text \<open>
  The six entities of a generated world: \<open>fd_assign_name\<close> and \<open>fd_initialize_entities\<close> of
  \<^verbatim>\<open>src/core/fd_generate.c\<close>.  A name is three drawn syllables and a suffix, each appended only if it
  leaves room for the terminator, with the first letter made a capital.
\<close>

unbundle bit_operations_syntax

section \<open>Names\<close>

definition syllables :: "string list" where
  "syllables = [''a'', ''be'', ''cor'', ''da'', ''el'', ''fi'', ''gan'', ''ha'',
     ''io'', ''jor'', ''ka'', ''lum'', ''mer'', ''na'', ''or'', ''pel'',
     ''qui'', ''ran'', ''sa'', ''tor'', ''ul'', ''ven'', ''wa'', ''yor'']"

definition append_text :: "bytes \<Rightarrow> bytes \<times> nat \<Rightarrow> bytes \<times> nat" where
  "append_text text = (\<lambda>(name, n).
     if n + length text < FD_MAX_NAME_BYTES then (blit name n text, n + length text) else (name, n))"

fun name_syllables ::
    "fd_world \<Rightarrow> u32 \<Rightarrow> u64 \<Rightarrow> u64 \<Rightarrow> nat list \<Rightarrow> bytes \<times> nat \<Rightarrow> fd_result \<times> bytes \<times> nat" where
  "name_syllables w domain subject attempt [] s = (FD_OK, s)"
| "name_syllables w domain subject attempt (part # parts) s =
     (case world_draw w domain subject attempt (of_nat part) FD_RNG_SITE_NAMING_SYLLABLE 24 0 of
        (result, selected) \<Rightarrow>
          if result \<noteq> FD_OK then (result, s)
          else name_syllables w domain subject attempt parts
                 (append_text (str (syllables ! unat selected)) s))"

definition fd_assign_name ::
    "fd_world \<Rightarrow> fd_entity \<Rightarrow> u32 \<Rightarrow> u64 \<Rightarrow> u64 \<Rightarrow> string option \<Rightarrow> fd_result \<times> fd_entity" where
  "fd_assign_name w entity domain subject attempt suffix =
     (case name_syllables w domain subject attempt [0, 1, 2] (replicate FD_MAX_NAME_BYTES 0, 0) of
        (result, name, n) \<Rightarrow>
          if result \<noteq> FD_OK then (result, entity\<lparr>en_name := name\<rparr>)
          else
            let (name1, n1) = (case suffix of None \<Rightarrow> (name, n) | Some s \<Rightarrow> append_text (str s) (name, n));
                name2 = (if n1 > 0 \<and> name1 ! 0 \<ge> 0x61 \<and> name1 ! 0 \<le> 0x7a
                         then name1[0 := name1 ! 0 - 0x20] else name1)
            in (FD_OK, entity\<lparr>en_name := name2, en_name_length := of_nat n1\<rparr>))"

section \<open>The entities and the region\<close>

definition suffixes :: "string list" where
  "suffixes = ['' Reach'', '' Haven'', '' Market'', '' Council'', '' Survey'', '' Company'']"

definition reset_entities :: "fd_entity list \<Rightarrow> fd_entity list" where
  "reset_entities entities =
     map (\<lambda>index. (entities ! index)\<lparr>en_id := fd_make_entity_id (of_nat index + 1), en_x := - 1,
        en_y := - 1, en_region_id := fd_make_entity_id 1\<rparr>) [0..<FD_U01_ENTITY_COUNT]"

definition cast_roles :: "u32 \<Rightarrow> u32 \<Rightarrow> u32 \<Rightarrow> u32 \<Rightarrow> fd_entity list \<Rightarrow> fd_entity list" where
  "cast_roles coastal_x coastal_y inland_x inland_y es =
     es[0 := (es ! 0)\<lparr>en_kind := FD_ENTITY_REGION, en_owner_id := en_id (es ! 3)\<rparr>,
        1 := (es ! 1)\<lparr>en_kind := FD_ENTITY_SETTLEMENT_COASTAL, en_x := coastal_x, en_y := coastal_y,
               en_owner_id := en_id (es ! 3)\<rparr>,
        2 := (es ! 2)\<lparr>en_kind := FD_ENTITY_SETTLEMENT_INLAND, en_x := inland_x, en_y := inland_y,
               en_owner_id := en_id (es ! 3)\<rparr>,
        3 := (es ! 3)\<lparr>en_kind := FD_ENTITY_POLITY_LOCAL, en_owner_id := en_id (es ! 3)\<rparr>,
        4 := (es ! 4)\<lparr>en_kind := FD_ENTITY_FACTION_FOREIGN, en_owner_id := en_id (es ! 4)\<rparr>,
        5 := (es ! 5)\<lparr>en_kind := FD_ENTITY_FACTION_FOREIGN, en_owner_id := en_id (es ! 5)\<rparr>]"

fun name_entities :: "fd_world \<Rightarrow> u64 \<Rightarrow> nat list \<Rightarrow> fd_entity list \<Rightarrow> fd_result \<times> fd_entity list" where
  "name_entities w attempt [] es = (FD_OK, es)"
| "name_entities w attempt (index # is) es =
     (let domain = (if index < 4 then FD_RNG_DOMAIN_NAMING else FD_RNG_DOMAIN_FACTION_INITIALIZATION)
      in case fd_assign_name w (es ! index) domain (of_nat index + 1) attempt (Some (suffixes ! index)) of
           (result, e) \<Rightarrow>
             if result \<noteq> FD_OK then (result, es[index := e])
             else name_entities w attempt is (es[index := e]))"

definition fd_initialize_entities ::
    "fd_world \<Rightarrow> nat \<Rightarrow> nat \<Rightarrow> nat \<Rightarrow> nat \<Rightarrow> nat \<Rightarrow> u64 \<Rightarrow> fd_result \<times> fd_world" where
  "fd_initialize_entities w coastal_x coastal_y inland_x inland_y outlet_index attempt =
     (let es = cast_roles (of_nat coastal_x) (of_nat coastal_y) (of_nat inland_x) (of_nat inland_y)
                 (reset_entities (w_entities w))
      in case name_entities w attempt [0..<FD_U01_ENTITY_COUNT] es of
           (result, es1) \<Rightarrow>
             if result \<noteq> FD_OK then (result, w\<lparr>w_entities := es1\<rparr>)
             else
               (FD_OK, w\<lparr>w_entities := es1, w_region := (w_region w)\<lparr>
                  rg_id := en_id (es1 ! 0), rg_political_owner_id := en_id (es1 ! 3),
                  rg_settlement_ids := [en_id (es1 ! 1), en_id (es1 ! 2)],
                  rg_foreign_faction_ids := [en_id (es1 ! 4), en_id (es1 ! 5)],
                  rg_river_outlet_tile_id := fd_tile_id_from_index (of_nat outlet_index),
                  rg_road_start_tile_id :=
                    fd_tile_id_from_index (of_nat (coastal_y * grid_width w + coastal_x)),
                  rg_road_end_tile_id :=
                    fd_tile_id_from_index (of_nat (inland_y * grid_width w + inland_x))\<rparr>\<rparr>))"

section \<open>Names are printable and padded\<close>

definition printable :: "u8 \<Rightarrow> bool" where
  "printable b \<longleftrightarrow> 0x20 \<le> b \<and> b \<le> 0x7e"

text \<open>A name buffer of which \<open>n\<close> bytes are used.\<close>

definition name_buffer :: "bytes \<times> nat \<Rightarrow> bool" where
  "name_buffer = (\<lambda>(name, n). n < 48 \<and> length name = 48 \<and> list_all printable (take n name) \<and>
     drop n name = replicate (48 - n) 0)"

lemma append_text_buffer:
  assumes "name_buffer s" and "list_all printable text"
  shows "name_buffer (append_text text s)"
proof -
  obtain name n where s: "s = (name, n)" by (cases s)
  have n: "n < 48" "length name = 48" "list_all printable (take n name)" "drop n name = replicate (48 - n) 0"
    using assms(1) by (simp_all add: s name_buffer_def)
  show ?thesis
  proof (cases "n + length text < 48")
    case True
    then have "take (n + length text) (blit name n text) = take n name @ text"
      using n(1,2) by (intro take_blit_end) simp
    moreover have "drop (n + length text) (blit name n text) = drop (n + length text) name"
      using True n(2) by (intro drop_blit_end) simp
    moreover have "drop (n + length text) name = replicate (48 - (n + length text)) 0"
    proof -
      have "drop (n + length text) name = drop (length text) (drop n name)" by (simp add: add.commute)
      also have "\<dots> = replicate (48 - (n + length text)) 0" by (simp add: n(4))
      finally show ?thesis .
    qed
    ultimately show ?thesis
      using True n assms(2) by (simp add: s append_text_def name_buffer_def)
  qed (use assms(1) in \<open>simp add: s append_text_def\<close>)
qed

lemma append_text_grows: "snd s \<le> snd (append_text text s)"
  by (cases s) (simp add: append_text_def)

lemma append_text_first: "length text < 48 \<Longrightarrow> snd (append_text text (name, 0)) = length text"
  by (simp add: append_text_def)

lemma syllable_ok:
  assumes "k < 24"
  shows "list_all printable (str (syllables ! k)) \<and> 0 < length (syllables ! k) \<and> length (syllables ! k) < 4"
proof -
  have "list_all (\<lambda>s. list_all printable (str s) \<and> 0 < length s \<and> length s < 4) syllables" by code_simp
  moreover have "length syllables = 24" by (simp add: syllables_def)
  ultimately show ?thesis using assms by (auto simp: list_all_length)
qed

lemma suffix_ok: "k < 6 \<Longrightarrow> list_all printable (str (suffixes ! k))"
proof -
  assume "k < 6"
  moreover have "list_all (\<lambda>s. list_all printable (str s)) suffixes" by code_simp
  moreover have "length suffixes = 6" by (simp add: suffixes_def)
  ultimately show ?thesis by (auto simp: list_all_length)
qed

lemma name_syllables_OK:
  "name_syllables w domain subject attempt parts s = (FD_OK, s') \<Longrightarrow> name_buffer s \<Longrightarrow>
   name_buffer s' \<and> snd s \<le> snd s' \<and> (snd s = 0 \<and> parts \<noteq> [] \<longrightarrow> 0 < snd s')"
proof (induction parts arbitrary: s)
  case (Cons part parts)
  obtain selected where d: "world_draw w domain subject attempt (of_nat part) FD_RNG_SITE_NAMING_SYLLABLE 24 0 =
      (FD_OK, selected)"
    and r: "name_syllables w domain subject attempt parts
        (append_text (str (syllables ! unat selected)) s) = (FD_OK, s')"
    using Cons.prems(1) by (auto split: prod.splits if_splits)
  define t where "t = append_text (str (syllables ! unat selected)) s"
  have "selected < 24" by (rule world_draw_below [OF _ d]) simp
  then have ok: "list_all printable (str (syllables ! unat selected))" "0 < length (syllables ! unat selected)"
    "length (syllables ! unat selected) < 4"
    using syllable_ok [of "unat selected"] by (simp_all add: word_less_nat_alt)
  have t: "name_buffer t" unfolding t_def by (rule append_text_buffer [OF Cons.prems(2) ok(1)])
  have "snd s \<le> snd t" unfolding t_def by (rule append_text_grows)
  moreover have "0 < snd t" if "snd s = 0"
    using that ok(2,3) append_text_first [of "str (syllables ! unat selected)" "fst s"]
    by (cases s) (simp add: t_def)
  moreover note Cons.IH [OF r [folded t_def] t]
  ultimately show ?case using le_zero_eq by (auto intro: less_le_trans)
qed simp

lemma capital_printable: "0x61 \<le> (b :: u8) \<Longrightarrow> b \<le> 0x7a \<Longrightarrow> printable (b - 0x20)"
  by (auto simp: printable_def word_le_nat_alt unat_sub_if')

lemma assign_name_OK:
  assumes "fd_assign_name w e domain subject attempt (Some suffix) = (FD_OK, e')"
    and "list_all printable (str suffix)"
  shows "name_ok e' \<and> length (en_name e') = 48 \<and>
    (\<exists>name n. e' = e\<lparr>en_name := name, en_name_length := n\<rparr>)"
proof -
  obtain name n where s: "name_syllables w domain subject attempt [0, 1, 2] (replicate 48 0, 0) = (FD_OK, name, n)"
    using assms(1) by (auto simp: fd_assign_name_def split: prod.splits if_splits)
  have "name_buffer (replicate 48 0, 0)" by (simp add: name_buffer_def)
  from name_syllables_OK [OF s this] have nb: "name_buffer (name, n)" and n0: "0 < n" by simp_all
  obtain name1 n1 where a: "append_text (str suffix) (name, n) = (name1, n1)" by (metis prod.exhaust)
  have b1: "name_buffer (name1, n1)" using append_text_buffer [OF nb assms(2)] by (simp add: a)
  have n1: "0 < n1" "n1 < 48" using append_text_grows [of "(name, n)" "str suffix"] n0 b1
    by (simp_all add: a name_buffer_def)
  define name2 where "name2 = (if name1 ! 0 \<ge> 0x61 \<and> name1 ! 0 \<le> 0x7a then name1[0 := name1 ! 0 - 0x20] else name1)"
  have e': "e' = e\<lparr>en_name := name2, en_name_length := of_nat n1\<rparr>"
    using assms(1) [unfolded fd_assign_name_def s prod.case option.case a Let_def] n1(1)
    by (simp add: name2_def)
  have un: "unat (of_nat n1 :: u32) = n1" using n1(2) by (simp add: unat_of_nat_u32)
  have len: "length name1 = 48" "length name2 = 48" using b1 by (simp_all add: name_buffer_def name2_def)
  have print: "printable (name2 ! i)" if "i < n1" for i
  proof -
    have p: "printable (name1 ! i)"
      using b1 that len by (auto simp: name_buffer_def list_all_length)
    show ?thesis
      using p capital_printable len by (cases i) (auto simp: name2_def)
  qed
  have "drop n1 name2 = drop n1 name1" using n1(1) by (simp add: name2_def drop_update_cancel)
  then have "drop n1 name2 = replicate (48 - n1) 0" using b1 by (simp add: name_buffer_def)
  moreover have "fd_u01_name_valid name2 (of_nat n1)"
  proof -
    have "(of_nat n1 :: u32) \<noteq> 0" using n1(1) un by (metis unat_0 less_irrefl)
    then show ?thesis
      using print n1(2) un by (auto simp: fd_u01_name_valid_def list_all_iff printable_def not_less)
  qed
  ultimately show ?thesis using len(2) un by (auto simp: name_ok_def e')
qed

section \<open>Roles\<close>

text \<open>Everything of an entity but its name.\<close>

definition role :: "fd_entity \<Rightarrow> _" where
  "role e = (en_id e, en_kind e, en_x e, en_y e, en_region_id e, en_owner_id e)"

lemma name_entities_OK:
  "name_entities w attempt is es = (FD_OK, es') \<Longrightarrow> length es = 6 \<Longrightarrow> (\<forall>i\<in>set is. i < 6) \<Longrightarrow>
   length es' = 6 \<and> map role es' = map role es \<and>
   (\<forall>i<6. (i \<in> set is \<longrightarrow> name_ok (es' ! i) \<and> length (en_name (es' ! i)) = 48) \<and>
      (name_ok (es ! i) \<and> length (en_name (es ! i)) = 48 \<longrightarrow>
       name_ok (es' ! i) \<and> length (en_name (es' ! i)) = 48))"
proof (induction "is" arbitrary: es)
  case (Cons index "is")
  define domain where "domain = (if index < 4 then FD_RNG_DOMAIN_NAMING else FD_RNG_DOMAIN_FACTION_INITIALIZATION)"
  obtain e where a: "fd_assign_name w (es ! index) domain (of_nat index + 1) attempt (Some (suffixes ! index)) = (FD_OK, e)"
    and r: "name_entities w attempt is (es[index := e]) = (FD_OK, es')"
    using Cons.prems(1) by (auto simp: Let_def domain_def split: prod.splits if_splits)
  have i: "index < 6" using Cons.prems(3) by simp
  note an = assign_name_OK [OF a suffix_ok [OF i]]
  have e_role: "role e = role (es ! index)" using an by (auto simp: role_def)
  have "length (es[index := e]) = 6" "\<forall>i\<in>set is. i < 6" using Cons.prems by simp_all
  note ih = Cons.IH [OF r this]
  have "map role (es[index := e]) = map role es"
    using e_role Cons.prems(2) i by (metis list_update_id map_update nth_map)
  then show ?case
    using ih an i Cons.prems(2) by (auto simp: nth_list_update)
qed simp

lemma roles_cast:
  "map role (cast_roles cx cy ix iy (reset_entities es)) =
    [(fd_make_entity_id 1, FD_ENTITY_REGION, - 1, - 1, fd_make_entity_id 1, fd_make_entity_id 4),
     (fd_make_entity_id 2, FD_ENTITY_SETTLEMENT_COASTAL, cx, cy, fd_make_entity_id 1, fd_make_entity_id 4),
     (fd_make_entity_id 3, FD_ENTITY_SETTLEMENT_INLAND, ix, iy, fd_make_entity_id 1, fd_make_entity_id 4),
     (fd_make_entity_id 4, FD_ENTITY_POLITY_LOCAL, - 1, - 1, fd_make_entity_id 1, fd_make_entity_id 4),
     (fd_make_entity_id 5, FD_ENTITY_FACTION_FOREIGN, - 1, - 1, fd_make_entity_id 1, fd_make_entity_id 5),
     (fd_make_entity_id 6, FD_ENTITY_FACTION_FOREIGN, - 1, - 1, fd_make_entity_id 1, fd_make_entity_id 6)]"
  by (simp add: cast_roles_def reset_entities_def role_def upt_rec numeral_nat)

lemma initialize_entities_OK:
  assumes "fd_initialize_entities w cx cy ix iy outlet attempt = (FD_OK, w')"
  obtains es where "w' = w\<lparr>w_entities := es, w_region := (w_region w)\<lparr>
       rg_id := fd_make_entity_id 1, rg_political_owner_id := fd_make_entity_id 4,
       rg_settlement_ids := [fd_make_entity_id 2, fd_make_entity_id 3],
       rg_foreign_faction_ids := [fd_make_entity_id 5, fd_make_entity_id 6],
       rg_river_outlet_tile_id := fd_tile_id_from_index (of_nat outlet),
       rg_road_start_tile_id := fd_tile_id_from_index (of_nat (cy * grid_width w + cx)),
       rg_road_end_tile_id := fd_tile_id_from_index (of_nat (iy * grid_width w + ix))\<rparr>\<rparr>"
    and "length es = 6" and "\<forall>e\<in>set es. name_ok e \<and> length (en_name e) = 48"
    and "map role es = map role (cast_roles (of_nat cx) (of_nat cy) (of_nat ix) (of_nat iy)
           (reset_entities (w_entities w)))"
proof -
  define es0 where "es0 = cast_roles (of_nat cx) (of_nat cy) (of_nat ix) (of_nat iy) (reset_entities (w_entities w))"
  obtain es where n: "name_entities w attempt [0..<FD_U01_ENTITY_COUNT] es0 = (FD_OK, es)"
    and w': "w' = w\<lparr>w_entities := es, w_region := (w_region w)\<lparr>
       rg_id := en_id (es ! 0), rg_political_owner_id := en_id (es ! 3),
       rg_settlement_ids := [en_id (es ! 1), en_id (es ! 2)],
       rg_foreign_faction_ids := [en_id (es ! 4), en_id (es ! 5)],
       rg_river_outlet_tile_id := fd_tile_id_from_index (of_nat outlet),
       rg_road_start_tile_id := fd_tile_id_from_index (of_nat (cy * grid_width w + cx)),
       rg_road_end_tile_id := fd_tile_id_from_index (of_nat (iy * grid_width w + ix))\<rparr>\<rparr>"
    using assms unfolding fd_initialize_entities_def Let_def es0_def [symmetric]
    by (auto split: prod.splits if_splits)
  have "length es0 = 6" by (simp add: es0_def cast_roles_def reset_entities_def)
  from name_entities_OK [OF n this] have es: "length es = 6" "map role es = map role es0"
    "\<forall>i<6. name_ok (es ! i) \<and> length (en_name (es ! i)) = 48" by simp_all
  have "\<forall>e\<in>set es. name_ok e \<and> length (en_name e) = 48"
    using es(1,3) by (auto simp: in_set_conv_nth)
  moreover have "en_id (es ! k) = fst (map role es ! k)" if "k < 6" for k
    using that es(1) by (simp add: role_def)
  then have "en_id (es ! 0) = fd_make_entity_id 1" "en_id (es ! 1) = fd_make_entity_id 2"
    "en_id (es ! 2) = fd_make_entity_id 3" "en_id (es ! 3) = fd_make_entity_id 4"
    "en_id (es ! 4) = fd_make_entity_id 5" "en_id (es ! 5) = fd_make_entity_id 6"
    by (simp_all add: es(2) es0_def roles_cast)
  ultimately show ?thesis using that es(1,2) w' by (simp add: es0_def)
qed

lemma roles_at:
  assumes "map role es = rs" and "k < length rs"
  shows "role (es ! k) = rs ! k"
  using assms by auto

section \<open>The only error\<close>

lemma name_syllables_result:
  "fst (name_syllables w domain subject attempt parts s) \<in> {FD_OK, FD_ERR_CAPACITY}"
proof (induction parts arbitrary: s)
  case (Cons part parts)
  have "fst (world_draw w domain subject attempt (of_nat part) FD_RNG_SITE_NAMING_SYLLABLE 24 0)
      \<in> {FD_OK, FD_ERR_CAPACITY}" by (rule world_draw_result) simp
  then show ?case using Cons.IH by (auto split: prod.splits)
qed simp

lemma assign_name_result:
  "fst (fd_assign_name w e domain subject attempt suffix) \<in> {FD_OK, FD_ERR_CAPACITY}"
  using name_syllables_result [of w domain subject attempt "[0, 1, 2]" "(replicate 48 0, 0)"]
  unfolding fd_assign_name_def by (simp only: Let_def split: prod.splits) auto

lemma name_entities_result: "fst (name_entities w attempt is es) \<in> {FD_OK, FD_ERR_CAPACITY}"
proof (induction "is" arbitrary: es)
  case (Cons index "is")
  define domain where "domain = (if index < 4 then FD_RNG_DOMAIN_NAMING else FD_RNG_DOMAIN_FACTION_INITIALIZATION)"
  obtain r e where a: "fd_assign_name w (es ! index) domain (of_nat index + 1) attempt
      (Some (suffixes ! index)) = (r, e)" by (metis prod.exhaust)
  then have "r \<in> {FD_OK, FD_ERR_CAPACITY}"
    using assign_name_result [of w "es ! index" domain "of_nat index + 1" attempt "Some (suffixes ! index)"]
    by simp
  then show ?case
    using Cons.IH by (simp only: name_entities.simps Let_def domain_def [symmetric] a prod.case) auto
qed simp

lemma initialize_entities_result:
  "fst (fd_initialize_entities w cx cy ix iy outlet attempt) \<in> {FD_OK, FD_ERR_CAPACITY}"
  using name_entities_result [of w attempt "[0..<6]" "cast_roles (of_nat cx) (of_nat cy) (of_nat ix)
      (of_nat iy) (reset_entities (w_entities w))"]
  by (auto simp: fd_initialize_entities_def Let_def split: prod.splits)

section \<open>The entity property\<close>

lemma initialized_ownership:
  assumes "fd_initialize_entities w cx cy ix iy outlet attempt = (FD_OK, w')"
    and "cx < grid_width w" and "cy < grid_height w" and "ix < grid_width w" and "iy < grid_height w"
    and "grid_width w \<le> 256" and "grid_height w \<le> 128" and "rivers < 4294967296" and "roads < 4294967296"
  shows "(\<forall>e\<in>set (w_entities w'). name_ok e) \<and>
    fd_validate_ownership_graph
      (w'\<lparr>w_region := (w_region w')\<lparr>rg_river_tile_count := of_nat rivers, rg_road_tile_count := of_nat roads\<rparr>\<rparr>)
      rivers roads outlet"
proof -
  from initialize_entities_OK [OF assms(1)] obtain es where
    w': "w' = w\<lparr>w_entities := es, w_region := (w_region w)\<lparr>
       rg_id := fd_make_entity_id 1, rg_political_owner_id := fd_make_entity_id 4,
       rg_settlement_ids := [fd_make_entity_id 2, fd_make_entity_id 3],
       rg_foreign_faction_ids := [fd_make_entity_id 5, fd_make_entity_id 6],
       rg_river_outlet_tile_id := fd_tile_id_from_index (of_nat outlet),
       rg_road_start_tile_id := fd_tile_id_from_index (of_nat (cy * grid_width w + cx)),
       rg_road_end_tile_id := fd_tile_id_from_index (of_nat (iy * grid_width w + ix))\<rparr>\<rparr>"
    and es: "length es = 6" "\<forall>e\<in>set es. name_ok e \<and> length (en_name e) = 48"
    and roles: "map role es = map role (cast_roles (of_nat cx) (of_nat cy) (of_nat ix) (of_nat iy)
           (reset_entities (w_entities w)))" by blast
  note r = roles_at [OF roles [unfolded roles_cast]]
  have r0: "role (es ! 0) = (fd_make_entity_id 1, FD_ENTITY_REGION, - 1, - 1, fd_make_entity_id 1, fd_make_entity_id 4)"
    and r1: "role (es ! 1) = (fd_make_entity_id 2, FD_ENTITY_SETTLEMENT_COASTAL, of_nat cx, of_nat cy,
      fd_make_entity_id 1, fd_make_entity_id 4)"
    and r2: "role (es ! 2) = (fd_make_entity_id 3, FD_ENTITY_SETTLEMENT_INLAND, of_nat ix, of_nat iy,
      fd_make_entity_id 1, fd_make_entity_id 4)"
    and r3: "role (es ! 3) = (fd_make_entity_id 4, FD_ENTITY_POLITY_LOCAL, - 1, - 1, fd_make_entity_id 1, fd_make_entity_id 4)"
    and r4: "role (es ! 4) = (fd_make_entity_id 5, FD_ENTITY_FACTION_FOREIGN, - 1, - 1, fd_make_entity_id 1, fd_make_entity_id 5)"
    and r5: "role (es ! 5) = (fd_make_entity_id 6, FD_ENTITY_FACTION_FOREIGN, - 1, - 1, fd_make_entity_id 1, fd_make_entity_id 6)"
    using r [of 0] r [of 1] r [of 2] r [of 3] r [of 4] r [of 5] by simp_all
  have small: "cx < 4294967296" "cy < 4294967296" "ix < 4294967296" "iy < 4294967296" using assms by simp_all
  have un: "unat (of_nat cx :: u32) = cx" "unat (of_nat cy :: u32) = cy" "unat (of_nat ix :: u32) = ix"
    "unat (of_nat iy :: u32) = iy" "unat (of_nat rivers :: u32) = rivers" "unat (of_nat roads :: u32) = roads"
    using small assms(8,9) by (simp_all only: unat_of_nat_u32)
  have bounds: "\<not> wc_width (w_config w) \<le> of_nat cx" "\<not> wc_width (w_config w) \<le> of_nat ix"
    "\<not> wc_height (w_config w) \<le> of_nat cy" "\<not> wc_height (w_config w) \<le> of_nat iy"
    using assms(2-5) by (simp_all only: word_le_nat_alt un not_le)
  have names: "unat (en_name_length (es ! k)) < 48" if "k < 6" for k
    using es(1) bspec [OF es(2) nth_mem, of k] that
    by (auto simp: name_ok_def fd_u01_name_valid_def split: if_splits)
  have ids: "list_all (\<lambda>i. en_id (es ! i) = fd_make_entity_id (of_nat i + 1) \<and>
      unat (en_name_length (es ! i)) < 48) [0..<6]"
    using r0 r1 r2 r3 r4 r5 names
    by (simp add: list_all_iff role_def upt_rec numeral_nat)
  have "\<forall>e\<in>set (w_entities w'). name_ok e" using es(2) by (simp add: w')
  moreover have "fd_validate_ownership_graph
      (w'\<lparr>w_region := (w_region w')\<lparr>rg_river_tile_count := of_nat rivers, rg_road_tile_count := of_nat roads\<rparr>\<rparr>)
      rivers roads outlet"
    unfolding fd_validate_ownership_graph_def Let_def
    using r0 r1 r2 r3 r4 r5 ids bounds un
    by (simp add: w' role_def)
  ultimately show ?thesis by blast
qed

text \<open>C26: initialising the entities fails only when a draw is exhausted.  Otherwise every one of the six
  carries a valid zero-padded name, and the ownership and region graph is the one the validator
  demands, for any settlements inside the grid and any river outlet and counts.\<close>

theorem initialized_entities_own_the_region:
  assumes "cx < grid_width w" and "cy < grid_height w" and "ix < grid_width w" and "iy < grid_height w"
    and "grid_width w \<le> 256" and "grid_height w \<le> 128" and "rivers < 4294967296" and "roads < 4294967296"
  shows "case fd_initialize_entities w cx cy ix iy outlet attempt of (r, w') \<Rightarrow>
    if r \<noteq> FD_OK then r = FD_ERR_CAPACITY
    else (\<forall>e\<in>set (w_entities w'). name_ok e) \<and>
      fd_validate_ownership_graph
        (w'\<lparr>w_region := (w_region w')\<lparr>rg_river_tile_count := of_nat rivers, rg_road_tile_count := of_nat roads\<rparr>\<rparr>)
        rivers roads outlet"
proof -
  obtain r w' where i: "fd_initialize_entities w cx cy ix iy outlet attempt = (r, w')" by (metis prod.exhaust)
  have "r \<in> {FD_OK, FD_ERR_CAPACITY}"
    using initialize_entities_result [of w cx cy ix iy outlet attempt] by (simp add: i)
  moreover have "r = FD_OK \<Longrightarrow> (\<forall>e\<in>set (w_entities w'). name_ok e) \<and> fd_validate_ownership_graph
        (w'\<lparr>w_region := (w_region w')\<lparr>rg_river_tile_count := of_nat rivers, rg_road_tile_count := of_nat roads\<rparr>\<rparr>)
        rivers roads outlet"
    using initialized_ownership [OF _ assms] i by blast
  ultimately show ?thesis unfolding i prod.case by (cases "r = FD_OK") simp_all
qed

theorem initialized_entities_own_the_region_witness:
  "case fd_initialize_entities (grid_world 32 16 [] (replicate 6 blank_entity)) 5 4 29 13 133 0 of (r, w') \<Rightarrow>
    if r \<noteq> FD_OK then r = FD_ERR_CAPACITY
    else (\<forall>e\<in>set (w_entities w'). name_ok e) \<and>
      fd_validate_ownership_graph
        (w'\<lparr>w_region := (w_region w')\<lparr>rg_river_tile_count := of_nat 24, rg_road_tile_count := of_nat 34\<rparr>\<rparr>) 24 34 133"
proof -
  define w where "w = grid_world 32 16 [] (replicate 6 blank_entity)"
  have "5 < grid_width w" "4 < grid_height w" "29 < grid_width w" "13 < grid_height w"
    "grid_width w \<le> 256" "grid_height w \<le> 128" "24 < (4294967296 :: nat)" "34 < (4294967296 :: nat)"
    by (simp_all add: w_def grid_world_def)
  from initialized_entities_own_the_region [OF this, of 133 0] show ?thesis by (simp only: w_def)
qed

end
