(* ===== verification/FD_Terrain.thy ===== *)
theory FD_Terrain
  imports FD_Draw FD_Coast
begin

text \<open>
  Elevation and rainfall of a generated world: \<open>fd_apply_elevation_fields\<close> and
  \<open>fd_wetland_eligible\<close> of \<^verbatim>\<open>src/core/fd_generate.c\<close>.  Three octaves of value noise, each on a
  lattice of bounded draws in an array of its own, are interpolated in whole numbers and added to the
  land; rainfall follows elevation.  The interpolation stays far below \<open>2 ^ 32\<close>, so it is in \<open>nat\<close>.
\<close>

unbundle bit_operations_syntax

section \<open>One octave\<close>

text \<open>The lattice is filled row by row, so the entries written so far are the list itself.\<close>

fun lattice_fill ::
    "fd_world \<Rightarrow> nat \<Rightarrow> u64 \<Rightarrow> (nat \<times> nat) list \<Rightarrow> u32 list \<Rightarrow> fd_result \<times> u32 list" where
  "lattice_fill w octave attempt [] grid = (FD_OK, grid)"
| "lattice_fill w octave attempt ((gy, gx) # cells) grid =
     (let subject = (push_bit 56 (of_nat octave) OR push_bit 28 (of_nat gy)) OR of_nat gx
      in case world_draw w FD_RNG_DOMAIN_ELEVATION_LATTICE subject attempt 0
                FD_RNG_SITE_ELEVATION_TILE 1024 0 of
           (result, value) \<Rightarrow>
             if result \<noteq> FD_OK then (result, grid)
             else lattice_fill w octave attempt cells (grid @ [value]))"

definition lattice_size :: "nat \<Rightarrow> nat \<Rightarrow> nat" where
  "lattice_size extent scale = (extent + scale - 1) div scale + 1"

definition lattice_sample :: "u32 list \<Rightarrow> nat \<Rightarrow> nat \<Rightarrow> nat \<Rightarrow> nat \<Rightarrow> nat" where
  "lattice_sample grid gw scale x y =
     (let x0 = x div scale; dx = x mod scale; y0 = y div scale; dy = y mod scale;
          at = (\<lambda>gy gx. unat (grid ! (gy * gw + gx)));
          top = (at y0 x0 * (scale - dx) + at y0 (x0 + 1) * dx) div scale;
          bottom = (at (y0 + 1) x0 * (scale - dx) + at (y0 + 1) (x0 + 1) * dx) div scale
      in (top * (scale - dy) + bottom * dy) div scale)"

definition raise_land :: "u32 list \<Rightarrow> nat \<Rightarrow> nat \<Rightarrow> nat \<Rightarrow> nat \<times> nat \<Rightarrow> fd_world \<Rightarrow> fd_world" where
  "raise_land grid gw scale weight = (\<lambda>(y, x) w.
     let index = y * grid_width w + x in
     if terrain_at w index = FD_TERRAIN_WATER then w
     else
       let addition = (lattice_sample grid gw scale x y * weight) div 7
       in tile_update index (\<lambda>t. t\<lparr>tl_elevation_cm := tl_elevation_cm t + of_nat addition\<rparr>) w)"

definition apply_octave ::
    "u64 \<Rightarrow> nat \<times> nat \<times> nat \<Rightarrow> 'u fd_context \<Rightarrow> fd_world \<Rightarrow> fd_result \<times> 'u fd_context \<times> fd_world" where
  "apply_octave attempt = (\<lambda>(octave, scale, weight) ctx w.
     let gw = lattice_size (grid_width w) scale;
         gh = lattice_size (grid_height w) scale;
         grid_bytes = of_nat (gw * gh) * 4
     in case fd_context_alloc ctx grid_bytes of
          (False, ctx1) \<Rightarrow> (FD_ERR_OUT_OF_MEMORY, ctx1, w)
        | (True, ctx1) \<Rightarrow>
            (case lattice_fill w octave attempt (grid_cells gh gw) [] of
               (result, grid) \<Rightarrow>
                 if result \<noteq> FD_OK then (result, fd_context_free ctx1 grid_bytes, w)
                 else (FD_OK, fd_context_free ctx1 grid_bytes,
                       fold (raise_land grid gw scale weight)
                         (grid_cells (grid_height w) (grid_width w)) w)))"

fun apply_octaves ::
    "u64 \<Rightarrow> (nat \<times> nat \<times> nat) list \<Rightarrow> 'u fd_context \<Rightarrow> fd_world \<Rightarrow> fd_result \<times> 'u fd_context \<times> fd_world" where
  "apply_octaves attempt [] ctx w = (FD_OK, ctx, w)"
| "apply_octaves attempt (o1 # os) ctx w =
     (case apply_octave attempt o1 ctx w of
        (result, ctx1, w1) \<Rightarrow>
          if result \<noteq> FD_OK then (result, ctx1, w1) else apply_octaves attempt os ctx1 w1)"

section \<open>Rainfall\<close>

definition rain_on :: "nat \<Rightarrow> fd_world \<Rightarrow> fd_world" where
  "rain_on index w =
     (if terrain_at w index \<noteq> FD_TERRAIN_WATER then
        let elevation = tl_elevation_cm (tile_at w index);
            rainfall = 800 + ucast ((ucast elevation * 1600 :: u64) div 5000) :: u32
        in tile_update index
             (\<lambda>t. t\<lparr>tl_rainfall_mm := (if rainfall > 2400 then 2400 else rainfall)\<rparr>) w
      else w)"

definition fd_apply_elevation_fields ::
    "'u fd_context \<Rightarrow> fd_world \<Rightarrow> u64 \<Rightarrow> fd_result \<times> 'u fd_context \<times> fd_world" where
  "fd_apply_elevation_fields ctx w attempt =
     (case apply_octaves attempt [(0, 16, 1), (1, 8, 2), (2, 4, 4)] ctx w of
        (result, ctx1, w1) \<Rightarrow>
          if result \<noteq> FD_OK then (result, ctx1, w1)
          else (FD_OK, ctx1, fold rain_on [0..<unat (w_tile_count w1)] w1))"

section \<open>Wetlands\<close>

definition wet_neighbor :: "fd_world \<Rightarrow> nat \<Rightarrow> bool" where
  "wet_neighbor w candidate \<longleftrightarrow> terrain_at w candidate = FD_TERRAIN_WATER \<or>
     has_overlay w FD_TILE_OVERLAY_RIVER candidate"

definition fd_wetland_eligible :: "fd_world \<Rightarrow> nat \<Rightarrow> bool" where
  "fd_wetland_eligible w index =
     (let width = grid_width w; height = grid_height w;
          x = index mod width; y = index div width
      in if has_overlay w FD_TILE_OVERLAY_RIVER index then True
         else if x > 0 \<and> wet_neighbor w (index - 1) then True
         else if x + 1 < width \<and> wet_neighbor w (index + 1) then True
         else if y > 0 \<and> wet_neighbor w (index - width) then True
         else if y + 1 < height \<and> wet_neighbor w (index + width) then True
         else False)"

section \<open>The lattice\<close>

lemma lattice_draw: "\<exists>v. world_draw w d s a p t 1024 old = (FD_OK, v) \<and> v < 1024"
proof -
  have "fd_rng_bounded (world_scope w d s a p t) 1024 (Some old) =
      (FD_OK, Some (fd_rng_u32_retry (world_scope w d s a p t) 0 0 mod 1024))"
    by (rule fd_rng_bounded_pow2) simp_all
  then have "\<exists>v. world_draw w d s a p t 1024 old = (FD_OK, v)" by (simp add: world_draw_def)
  then show ?thesis using world_draw_below [of 1024] by fastforce
qed

lemma lattice_fill_OK:
  "(\<forall>v\<in>set grid. unat v \<le> 1023) \<Longrightarrow>
   \<exists>grid'. lattice_fill w octave attempt cells grid = (FD_OK, grid') \<and>
     length grid' = length grid + length cells \<and> (\<forall>v\<in>set grid'. unat v \<le> 1023)"
proof (induction cells arbitrary: grid)
  case (Cons c cells)
  obtain gy gx where c: "c = (gy, gx)" by (cases c)
  obtain v where v: "world_draw w FD_RNG_DOMAIN_ELEVATION_LATTICE
      ((push_bit 56 (of_nat octave) OR push_bit 28 (of_nat gy)) OR of_nat gx) attempt 0
      FD_RNG_SITE_ELEVATION_TILE 1024 0 = (FD_OK, v)" "v < 1024"
    using lattice_draw by blast
  then have "unat v \<le> 1023" by (simp add: word_less_nat_alt)
  then have "\<forall>v\<in>set (grid @ [v]). unat v \<le> 1023" using Cons.prems by auto
  from Cons.IH [OF this] show ?case by (simp add: c v(1))
qed simp

lemma mix_bound:
  fixes a b m d s :: nat
  assumes "a \<le> m" "b \<le> m" "d < s"
  shows "(a * (s - d) + b * d) div s \<le> m"
proof -
  have "a * (s - d) + b * d \<le> m * (s - d) + m * d" using assms by (intro add_mono mult_le_mono1)
  also have "\<dots> = m * s" using assms(3) by (simp flip: distrib_left)
  finally have "(a * (s - d) + b * d) div s \<le> (m * s) div s" by (rule div_le_mono)
  then show ?thesis using assms(3) by simp
qed

lemma lattice_inside:
  assumes "x < extent" and "0 < scale"
  shows "x div scale + 1 < lattice_size extent scale"
proof -
  have "extent + scale - 1 = (extent - 1) + scale" using assms by linarith
  moreover have "((extent - 1) + scale) div scale = (extent - 1) div scale + 1"
    using assms(2) by (intro div_add_self2) simp
  ultimately have "lattice_size extent scale = (extent - 1) div scale + 1 + 1"
    by (simp only: lattice_size_def)
  moreover have "x div scale \<le> (extent - 1) div scale" using assms(1) by (intro div_le_mono) simp
  ultimately show ?thesis by simp
qed

lemma lattice_sample_bound:
  assumes grid: "\<forall>v\<in>set grid. unat v \<le> 1023" and len: "length grid = lattice_size W s * lattice_size H s"
    and x: "x < W" and y: "y < H" and s: "0 < s"
  shows "lattice_sample grid (lattice_size W s) s x y \<le> 1023"
proof -
  define gw gh where "gw = lattice_size W s" and "gh = lattice_size H s"
  have in_x: "x div s + 1 < gw" and in_y: "y div s + 1 < gh"
    using lattice_inside [OF x s] lattice_inside [OF y s] by (simp_all add: gw_def gh_def)
  have cell: "unat (grid ! (gy * gw + gx)) \<le> 1023" if "gy < gh" "gx < gw" for gy gx
  proof -
    have "gy * gw + gx < gh * gw"
      using grid_index [OF that(2,1)] by (simp add: mult.commute)
    then have "grid ! (gy * gw + gx) \<in> set grid" using len by (simp add: gw_def gh_def mult.commute)
    then show ?thesis using grid by blast
  qed
  then show ?thesis
    unfolding lattice_sample_def Let_def gw_def [symmetric]
    using in_x in_y s by (intro mix_bound cell) simp_all
qed

section \<open>What the fields do\<close>

definition raised_by :: "nat \<Rightarrow> fd_tile \<Rightarrow> fd_tile \<Rightarrow> bool" where
  "raised_by bound t t' \<longleftrightarrow>
     (\<exists>a. t' = t\<lparr>tl_elevation_cm := tl_elevation_cm t + of_nat a\<rparr> \<and>
        a \<le> (if tl_terrain t = FD_TERRAIN_WATER then 0 else bound))"

lemma raised_by_add: "raised_by a t t' \<Longrightarrow> raised_by b t' t'' \<Longrightarrow> raised_by (a + b) t t''"
proof -
  assume "raised_by a t t'" "raised_by b t' t''"
  then obtain m n where "t' = t\<lparr>tl_elevation_cm := tl_elevation_cm t + of_nat m\<rparr>"
    "m \<le> (if tl_terrain t = FD_TERRAIN_WATER then 0 else a)"
    "t'' = t'\<lparr>tl_elevation_cm := tl_elevation_cm t' + of_nat n\<rparr>"
    "n \<le> (if tl_terrain t' = FD_TERRAIN_WATER then 0 else b)" by (auto simp: raised_by_def)
  then show ?thesis unfolding raised_by_def by (intro exI [of _ "m + n"]) (auto simp: add.assoc)
qed

definition raise_tile :: "u32 list \<Rightarrow> nat \<Rightarrow> nat \<Rightarrow> nat \<Rightarrow> nat \<times> nat \<Rightarrow> fd_tile \<Rightarrow> fd_tile" where
  "raise_tile grid gw scale weight = (\<lambda>(y, x) t.
     if tl_terrain t = FD_TERRAIN_WATER then t
     else t\<lparr>tl_elevation_cm := tl_elevation_cm t +
              of_nat ((lattice_sample grid gw scale x y * weight) div 7)\<rparr>)"

lemma tile_update_keep: "f (w_tiles w ! i) = w_tiles w ! i \<Longrightarrow> tile_update i f w = w"
  by (simp add: tile_update_def)

lemma tile_update_cong: "f (w_tiles w ! i) = g (w_tiles w ! i) \<Longrightarrow> tile_update i f w = tile_update i g w"
  by (simp add: tile_update_def)

lemma raise_land_local:
  "raise_land grid gw scale weight c w =
     tile_update (fst c * grid_width w + snd c) (raise_tile grid gw scale weight c) w"
  by (cases c) (auto simp: raise_land_def raise_tile_def terrain_at_def Let_def tile_update_keep
      intro!: tile_update_cong)

lemma raise_lands_local:
  "fold (raise_land grid gw scale weight) cs w =
     fold (\<lambda>c. tile_update (fst c * grid_width w + snd c) (raise_tile grid gw scale weight c)) cs w"
proof (induction cs arbitrary: w)
  case (Cons c cs)
  show ?case using Cons.IH [of "raise_land grid gw scale weight c w"] by (simp add: raise_land_local)
qed simp

lemma rain_on_local:
  "rain_on i w = tile_update i (\<lambda>t. if tl_terrain t = FD_TERRAIN_WATER then t
     else t\<lparr>tl_rainfall_mm := min 2400
       (800 + ucast ((ucast (tl_elevation_cm t) * 1600 :: u64) div 5000))\<rparr>) w"
  by (auto simp: rain_on_def terrain_at_def Let_def tile_update_keep min_def not_less
      intro!: tile_update_cong)

text \<open>Updates of different tiles do not meet.\<close>

lemma fold_tile_updates:
  "distinct (map ix cs) \<Longrightarrow> (\<forall>c\<in>set cs. ix c < length (w_tiles w)) \<Longrightarrow>
   (\<forall>c\<in>set cs. tile_at (fold (\<lambda>c. tile_update (ix c) (g c)) cs w) (ix c) = g c (tile_at w (ix c))) \<and>
   (\<forall>j<length (w_tiles w). j \<notin> ix ` set cs \<longrightarrow>
      tile_at (fold (\<lambda>c. tile_update (ix c) (g c)) cs w) j = tile_at w j)"
proof (induction cs arbitrary: w)
  case (Cons c cs)
  let ?w = "tile_update (ix c) (g c) w"
  have "distinct (map ix cs)" "\<forall>c\<in>set cs. ix c < length (w_tiles ?w)" using Cons.prems by simp_all
  note ih = Cons.IH [OF this]
  have c: "ix c < length (w_tiles w)" "ix c \<notin> ix ` set cs" using Cons.prems by auto
  have "tile_at (fold (\<lambda>c. tile_update (ix c) (g c)) cs ?w) (ix c) = g c (tile_at w (ix c))"
    using ih c by (simp add: tile_update_tiles)
  moreover have "tile_at (fold (\<lambda>c. tile_update (ix c) (g c)) cs ?w) (ix d) = g d (tile_at w (ix d))"
    if "d \<in> set cs" for d
  proof -
    have "ix d \<noteq> ix c" using c(2) that by (metis imageI)
    then show ?thesis using ih that Cons.prems(2) by (simp add: tile_update_tiles)
  qed
  ultimately show ?case using ih by (auto simp: tile_update_tiles)
qed simp

lemma grid_cells_index: "map (\<lambda>c. fst c * W + snd c) (grid_cells H W) = [0..<H * W]"
proof (induction H)
  case (Suc H)
  have "map (\<lambda>c. fst c * W + snd c) (map (Pair H) [0..<W]) = [H * W..<H * W + W]"
    by (simp add: comp_def map_add_upt [symmetric] add.commute)
  then show ?case using Suc.IH by (simp add: grid_cells_def add.commute [of W] upt_add_eq_append [symmetric])
qed (simp add: grid_cells_def)

lemma grid_cells_below:
  assumes "c \<in> set (grid_cells H W)" shows "fst c * W + snd c < H * W"
proof -
  have "fst c * W + snd c \<in> set (map (\<lambda>c. fst c * W + snd c) (grid_cells H W))" using assms by auto
  then show ?thesis by (simp only: grid_cells_index) simp
qed

lemma set_grid_cells: "(y, x) \<in> set (grid_cells H W) \<longleftrightarrow> y < H \<and> x < W"
  by (force simp: grid_cells_def)

lemma fold_stage_frame:
  "(\<And>c w. stage_frame (g c w) = stage_frame w) \<Longrightarrow> stage_frame (fold g cs w) = stage_frame w"
  by (rule fold_invariant)

text \<open>The tiles of a world are the cells of its grid.\<close>

definition tiled :: "fd_world \<Rightarrow> bool" where
  "tiled w \<longleftrightarrow> length (w_tiles w) = grid_height w * grid_width w \<and>
     unat (w_tile_count w) = length (w_tiles w)"

lemma tiled_frame: "stage_frame w' = stage_frame w \<Longrightarrow> tiled w' = tiled w"
  by (simp add: tiled_def stage_frame_def run_frame_def)

lemma apply_octave_raises:
  assumes "tiled w" and "0 < scale"
  shows "\<exists>r ctx' w'. apply_octave attempt (octave, scale, weight) ctx w = (r, ctx', w') \<and>
    (r = FD_OK \<or> (r = FD_ERR_OUT_OF_MEMORY \<and> w' = w)) \<and> books ctx' = books ctx \<and>
    stage_frame w' = stage_frame w \<and>
    (\<forall>j<length (w_tiles w). raised_by ((1023 * weight) div 7) (tile_at w j) (tile_at w' j))"
proof -
  define W H where "W = grid_width w" and "H = grid_height w"
  define gw gh where "gw = lattice_size W scale" and "gh = lattice_size H scale"
  define b :: u64 where "b = of_nat (gw * gh) * 4"
  obtain g ctx1 where a: "fd_context_alloc ctx b = (g, ctx1)" by (metis prod.exhaust)
  note run = apply_octave_def [of attempt, THEN fun_cong, of "(octave, scale, weight)",
      THEN fun_cong, of ctx, THEN fun_cong, of w, unfolded prod.case Let_def, folded W_def H_def,
      folded gw_def gh_def, folded b_def, unfolded a prod.case]
  have self: "raised_by bound t t" for bound t
    unfolding raised_by_def by (intro exI [of _ 0]) simp
  show ?thesis
  proof (cases g)
    case False
    then show ?thesis using run alloc_fields [OF a] by (simp add: books_def self)
  next
    case True
    obtain grid where grid: "lattice_fill w octave attempt (grid_cells gh gw) [] = (FD_OK, grid)"
      "length grid = length (grid_cells gh gw)" "\<forall>v\<in>set grid. unat v \<le> 1023"
      using lattice_fill_OK [of "[]" w octave attempt "grid_cells gh gw"] by auto
    have "length (grid_cells gh gw) = gh * gw"
      using grid_cells_index [of gw gh] by (metis length_map length_upt minus_nat.diff_0)
    then have len: "length grid = lattice_size W scale * lattice_size H scale"
      using grid(2) by (simp add: gw_def gh_def mult.commute)
    define w' where "w' = fold (raise_land grid gw scale weight) (grid_cells H W) w"
    have res: "apply_octave attempt (octave, scale, weight) ctx w = (FD_OK, fd_context_free ctx1 b, w')"
      using run True grid(1) by (simp add: w'_def)
    have frame: "stage_frame w' = stage_frame w"
      unfolding w'_def by (rule fold_stage_frame) (simp add: raise_land_local)
    have total: "length (w_tiles w) = H * W" using assms(1) by (simp add: tiled_def W_def H_def)
    have "raised_by ((1023 * weight) div 7) (tile_at w j) (tile_at w' j)" if j: "j < length (w_tiles w)" for j
    proof -
      let ?ix = "\<lambda>c. fst c * W + snd c"
      have "j \<in> set (map ?ix (grid_cells H W))" using j total by (simp add: grid_cells_index)
      then obtain c where c: "c \<in> set (grid_cells H W)" "j = ?ix c" by auto
      obtain y x where yx: "c = (y, x)" "y < H" "x < W" using c(1) set_grid_cells by (metis prod.exhaust)
      have "\<forall>c\<in>set (grid_cells H W). ?ix c < length (w_tiles w)"
        using grid_cells_below [of _ H W] total by auto
      moreover have "distinct (map ?ix (grid_cells H W))" by (simp add: grid_cells_index)
      ultimately have "tile_at w' j = raise_tile grid gw scale weight c (tile_at w j)"
        using fold_tile_updates [of ?ix "grid_cells H W" w "raise_tile grid gw scale weight"] c
        by (simp add: w'_def raise_lands_local W_def [symmetric])
      moreover have "lattice_sample grid gw scale x y \<le> 1023"
        unfolding gw_def by (rule lattice_sample_bound [OF grid(3) len yx(3,2) assms(2)])
      then have "(lattice_sample grid gw scale x y * weight) div 7 \<le> (1023 * weight) div 7"
        by (intro div_le_mono mult_le_mono1)
      ultimately show ?thesis
        unfolding raised_by_def yx(1) raise_tile_def prod.case
        by (cases "tl_terrain (tile_at w j) = FD_TERRAIN_WATER") (auto intro: exI [of _ 0])
    qed
    then show ?thesis using res frame alloc_fields [OF a] True by (simp add: books_def)
  qed
qed

lemma raised_by_mono: "raised_by a t t' \<Longrightarrow> a \<le> b \<Longrightarrow> raised_by b t t'"
  by (auto simp: raised_by_def split: if_splits)

lemma apply_octaves_raise:
  "tiled w \<Longrightarrow> (\<forall>(k, s, m)\<in>set os. 0 < s) \<Longrightarrow>
   \<exists>r ctx' w'. apply_octaves attempt os ctx w = (r, ctx', w') \<and>
    (r = FD_OK \<or> r = FD_ERR_OUT_OF_MEMORY) \<and> books ctx' = books ctx \<and> stage_frame w' = stage_frame w \<and>
    (\<forall>j<length (w_tiles w). raised_by (\<Sum>(k, s, m)\<leftarrow>os. (1023 * m) div 7) (tile_at w j) (tile_at w' j))"
proof (induction os arbitrary: ctx w)
  case Nil
  have "raised_by 0 t t" for t unfolding raised_by_def by (intro exI [of _ 0]) simp
  then show ?case by simp
next
  case (Cons o1 os)
  obtain k s m where o1: "o1 = (k, s, m)" by (cases o1)
  have "0 < s" using Cons.prems(2) by (simp add: o1)
  from apply_octave_raises [OF Cons.prems(1) this, of attempt k m ctx] obtain r ctx1 w1
    where one: "apply_octave attempt o1 ctx w = (r, ctx1, w1)"
      "r = FD_OK \<or> (r = FD_ERR_OUT_OF_MEMORY \<and> w1 = w)"
      "books ctx1 = books ctx" "stage_frame w1 = stage_frame w"
      "\<forall>j<length (w_tiles w). raised_by ((1023 * m) div 7) (tile_at w j) (tile_at w1 j)"
    by (auto simp: o1)
  show ?case
  proof (cases "r = FD_OK")
    case True
    have "tiled w1" using tiled_frame [OF one(4)] Cons.prems(1) by simp
    from Cons.IH [OF this, of ctx1] Cons.prems(2) obtain r2 ctx2 w2
      where two: "apply_octaves attempt os ctx1 w1 = (r2, ctx2, w2)"
        "r2 = FD_OK \<or> r2 = FD_ERR_OUT_OF_MEMORY" "books ctx2 = books ctx1" "stage_frame w2 = stage_frame w1"
        "\<forall>j<length (w_tiles w1). raised_by (\<Sum>(k, s, m)\<leftarrow>os. (1023 * m) div 7) (tile_at w1 j) (tile_at w2 j)"
      by auto
    have len: "length (w_tiles w1) = length (w_tiles w)"
      using one(4) by (simp add: stage_frame_def run_frame_def)
    have "raised_by (\<Sum>(k, s, m)\<leftarrow>o1 # os. (1023 * m) div 7) (tile_at w j) (tile_at w2 j)"
      if "j < length (w_tiles w)" for j
      using raised_by_add [of "(1023 * m) div 7" "tile_at w j" "tile_at w1 j"] one(5) two(5) that
      by (simp add: o1 len)
    then show ?thesis using one(1,3,4) two True by simp
  next
    case False
    then have stop: "apply_octaves attempt (o1 # os) ctx w = (r, ctx1, w1)" using one(1) by simp
    have oom: "r = FD_OK \<or> r = FD_ERR_OUT_OF_MEMORY" using one(2) by blast
    have "raised_by (\<Sum>(k, s, m)\<leftarrow>o1 # os. (1023 * m) div 7) (tile_at w j) (tile_at w1 j)"
      if "j < length (w_tiles w)" for j
    proof (rule raised_by_mono)
      show "raised_by ((1023 * m) div 7) (tile_at w j) (tile_at w1 j)" using one(5) that by blast
    qed (simp add: o1)
    then show ?thesis using stop oom one(3,4) by blast
  qed
qed

text \<open>The land after the fields: somewhat higher, with its rain; the water as it was.\<close>

definition watered :: "fd_tile \<Rightarrow> fd_tile \<Rightarrow> bool" where
  "watered t t' \<longleftrightarrow>
     (if tl_terrain t = FD_TERRAIN_WATER then t' = t
      else \<exists>a rain. a \<le> 1022 \<and> 800 \<le> rain \<and> rain \<le> 2400 \<and>
        t' = t\<lparr>tl_elevation_cm := tl_elevation_cm t + of_nat a, tl_rainfall_mm := rain\<rparr>)"

lemma rain_bounds:
  fixes e :: u32
  defines "r \<equiv> min 2400 (800 + ucast ((ucast e * 1600 :: u64) div 5000)) :: u32"
  shows "800 \<le> r \<and> r \<le> 2400"
proof -
  have e: "unat e < 4294967296" by (rule unat_lt_u32)
  have "unat (ucast e * 1600 :: u64) = unat e * 1600"
    using e by (subst unat_mult_lem [THEN iffD1]) simp_all
  then have q: "unat ((ucast e * 1600 :: u64) div 5000) = (unat e * 1600) div 5000"
    by (simp add: unat_div)
  have small: "(unat e * 1600) div 5000 < 2000000000" using e by simp
  then have c: "unat (ucast ((ucast e * 1600 :: u64) div 5000) :: u32) = (unat e * 1600) div 5000"
    by (simp add: unsigned_ucast_eq q take_bit_nat_eq_self)
  then have "unat (800 + ucast ((ucast e * 1600 :: u64) div 5000) :: u32) = 800 + (unat e * 1600) div 5000"
    using small by (subst unat_add_lem [THEN iffD1]) simp_all
  then have "(800 :: u32) \<le> 800 + ucast ((ucast e * 1600 :: u64) div 5000)" by (simp add: word_le_nat_alt)
  then show ?thesis by (simp add: r_def)
qed

lemma elevation_fields_bounded_lemma:
  assumes "tiled w"
  shows "\<exists>r ctx' w'. fd_apply_elevation_fields ctx w attempt = (r, ctx', w') \<and>
    books ctx' = books ctx \<and> stage_frame w' = stage_frame w \<and>
    (if r = FD_OK then \<forall>j<length (w_tiles w). watered (tile_at w j) (tile_at w' j)
     else r = FD_ERR_OUT_OF_MEMORY)"
proof -
  have scales: "\<forall>(k, s, m)\<in>set [(0 :: nat, 16 :: nat, 1 :: nat), (1, 8, 2), (2, 4, 4)]. 0 < s" by simp
  from apply_octaves_raise [OF assms scales, of attempt ctx] obtain r ctx' w1
    where oct: "apply_octaves attempt [(0, 16, 1), (1, 8, 2), (2, 4, 4)] ctx w = (r, ctx', w1)"
      "r = FD_OK \<or> r = FD_ERR_OUT_OF_MEMORY" "books ctx' = books ctx" "stage_frame w1 = stage_frame w"
      "\<forall>j<length (w_tiles w). raised_by 1022 (tile_at w j) (tile_at w1 j)"
    by auto
  define w2 where "w2 = fold rain_on [0..<unat (w_tile_count w1)] w1"
  have len: "length (w_tiles w1) = length (w_tiles w)" "unat (w_tile_count w1) = length (w_tiles w1)"
    using oct(4) assms tiled_frame [OF oct(4)] by (auto simp: stage_frame_def run_frame_def tiled_def)
  have frame: "stage_frame w2 = stage_frame w1"
    unfolding w2_def by (rule fold_stage_frame) (simp add: rain_on_local)
  have "watered (tile_at w j) (tile_at w2 j)" if j: "j < length (w_tiles w)" for j
  proof -
    define f :: "fd_tile \<Rightarrow> fd_tile" where "f = (\<lambda>t. if tl_terrain t = FD_TERRAIN_WATER then t
      else t\<lparr>tl_rainfall_mm := min 2400 (800 + ucast ((ucast (tl_elevation_cm t) * 1600 :: u64) div 5000))\<rparr>)"
    have "rain_on = (\<lambda>i. tile_update i f)" by (intro ext) (simp add: rain_on_local f_def)
    then have "tile_at w2 j = f (tile_at w1 j)"
      using fold_tile_updates [of id "[0..<unat (w_tile_count w1)]" w1 "\<lambda>_. f"] j len
      by (simp add: w2_def)
    moreover obtain a where "tile_at w1 j = (tile_at w j)\<lparr>tl_elevation_cm := tl_elevation_cm (tile_at w j) + of_nat a\<rparr>"
      "a \<le> (if tl_terrain (tile_at w j) = FD_TERRAIN_WATER then 0 else 1022)"
      using oct(5) j by (auto simp: raised_by_def)
    moreover define rain :: u32 where
      "rain = min 2400 (800 + ucast ((ucast (tl_elevation_cm (tile_at w1 j)) * 1600 :: u64) div 5000))"
    moreover have "800 \<le> rain \<and> rain \<le> 2400" unfolding rain_def by (rule rain_bounds)
    ultimately show ?thesis
      by (cases "tl_terrain (tile_at w j) = FD_TERRAIN_WATER")
        (auto simp: watered_def f_def simp del: min_less_iff_conj intro!: exI [of _ a] exI [of _ rain])
  qed
  then show ?thesis
    using oct frame by (cases "r = FD_OK") (auto simp: fd_apply_elevation_fields_def w2_def)
qed

text \<open>C25: the elevation fields either run out of memory or succeed; either way every lattice is given
  back and nothing but tiles changes.  On success water is untouched, every land tile rises by at
  most 1022 cm and gets between 800 and 2400 mm of rain.\<close>

theorem elevation_fields_bounded:
  assumes "tiled w"
  shows "\<exists>r ctx' w'. fd_apply_elevation_fields ctx w attempt = (r, ctx', w') \<and>
    books ctx' = books ctx \<and> stage_frame w' = stage_frame w \<and>
    (if r = FD_OK then \<forall>j<length (w_tiles w). watered (tile_at w j) (tile_at w' j)
     else r = FD_ERR_OUT_OF_MEMORY)"
  using assms by (rule elevation_fields_bounded_lemma)

text \<open>One tile of water and one of grass.\<close>

definition shore :: fd_world where
  "shore = grid_world 2 1 [grid_tile 1 0 0, grid_tile 2 0 200] (replicate 6 blank_entity)"

theorem elevation_fields_bounded_witness:
  "\<exists>r ctx' w'. fd_apply_elevation_fields roomy_context shore 0 = (r, ctx', w') \<and>
    books ctx' = books roomy_context \<and> stage_frame w' = stage_frame shore"
proof -
  have "tiled shore" by (simp add: tiled_def shore_def grid_world_def)
  from elevation_fields_bounded [OF this, of roomy_context 0] show ?thesis by blast
qed

end
