(* ===== verification/FD_River.thy ===== *)
theory FD_River
  imports FD_Draw FD_Path
begin

text \<open>
  The river of a generated world: \<open>fd_coast_x\<close>, \<open>fd_set_river_tile\<close> and \<open>fd_construct_river\<close> of
  \<^verbatim>\<open>src/core/fd_generate.c\<close>.  From the outlet on the coast the river is carved along a row to a bend,
  along a column to the row of the source, and along that row to the source, one centimetre up per
  tile; a tile that would have to be raised ends the attempt.
\<close>

unbundle bit_operations_syntax

definition fd_coast_x :: "bool \<Rightarrow> nat \<Rightarrow> nat \<Rightarrow> nat" where
  "fd_coast_x west_water width water_width =
     (if west_water then water_width else width - water_width - 1)"

definition fd_set_river_tile :: "fd_world \<Rightarrow> nat \<Rightarrow> u32 \<Rightarrow> bool \<times> fd_world" where
  "fd_set_river_tile w index elevation =
     (if terrain_at w index = FD_TERRAIN_WATER \<or> sint (tl_elevation_cm (tile_at w index)) < 0
      then (False, w\<lparr>w_river_raised_tile_count := w_river_raised_tile_count w + 1\<rparr>)
      else
        let previous = tl_elevation_cm (tile_at w index) in
        if elevation > previous
        then (False, w\<lparr>w_river_raised_tile_count := w_river_raised_tile_count w + 1\<rparr>)
        else
          let carve = previous - elevation;
              w1 = (if carve < w_river_min_carve_cm w then w\<lparr>w_river_min_carve_cm := carve\<rparr> else w)
          in (True, tile_update index
                (\<lambda>t. t\<lparr>tl_overlays := tl_overlays t OR FD_TILE_OVERLAY_RIVER,
                       tl_terrain := FD_TERRAIN_GRASSLAND, tl_elevation_cm := elevation\<rparr>) w1))"

text \<open>
  One of the three loops: one coordinate moves from \<open>pos\<close> to \<open>target\<close>, \<open>at\<close> gives the tile index
  for it.  \<open>None\<close> is the early return; otherwise the elevation and the count reached.
\<close>

function river_leg ::
    "(nat \<Rightarrow> nat) \<Rightarrow> nat \<Rightarrow> nat \<Rightarrow> u32 \<Rightarrow> u32 \<Rightarrow> fd_world \<Rightarrow> fd_world \<times> (u32 \<times> u32) option" where
  "river_leg at target pos elevation count0 w =
     (if pos = target then (w, Some (elevation, count0))
      else
        let pos' = (if pos < target then pos + 1 else pos - 1);
            elevation' = elevation + 1
        in case fd_set_river_tile w (at pos') elevation' of
             (False, w') \<Rightarrow> (w', None)
           | (True, w') \<Rightarrow> river_leg at target pos' elevation' (count0 + 1) w')"
  by pat_completeness auto
termination
  by (relation "measure (\<lambda>(at, target, pos, elevation, count0, w).
        if pos < target then target - pos else pos - target)") auto

declare river_leg.simps [simp del]

text \<open>\<open>(result, world, *out_outlet, *out_count)\<close>; \<open>*out_count\<close> is written on success only.\<close>

definition fd_construct_river ::
    "fd_world \<Rightarrow> bool \<Rightarrow> nat \<Rightarrow> nat \<Rightarrow> nat \<Rightarrow> nat \<Rightarrow> fd_result \<times> fd_world \<times> nat \<times> u32 option" where
  "fd_construct_river w west_water water_width outlet_y source_y tie_choice =
     (let width = grid_width w;
          outlet_x = fd_coast_x west_water width water_width;
          source_x = (if west_water then width - 2 else 1);
          bend_x = (outlet_x + source_x + tie_choice) div 2;
          elevation = 100;
          index = outlet_y * width + outlet_x
      in case fd_set_river_tile w index elevation of
           (False, w1) \<Rightarrow> (FD_ERR_GENERATION_EXHAUSTED, w1, index, None)
         | (True, w1) \<Rightarrow>
             let w2 = tile_update index
                   (\<lambda>t. t\<lparr>tl_overlays := tl_overlays t OR FD_TILE_RIVER_OUTLET\<rparr>) w1
             in case river_leg (\<lambda>x. outlet_y * width + x) bend_x outlet_x elevation 1 w2 of
                  (w3, None) \<Rightarrow> (FD_ERR_GENERATION_EXHAUSTED, w3, index, None)
                | (w3, Some (elevation1, count1)) \<Rightarrow>
             (case river_leg (\<lambda>y. y * width + bend_x) source_y outlet_y elevation1 count1 w3 of
                  (w4, None) \<Rightarrow> (FD_ERR_GENERATION_EXHAUSTED, w4, index, None)
                | (w4, Some (elevation2, count2)) \<Rightarrow>
             (case river_leg (\<lambda>x. source_y * width + x) source_x bend_x elevation2 count2 w4 of
                  (w5, None) \<Rightarrow> (FD_ERR_GENERATION_EXHAUSTED, w5, index, None)
                | (w5, Some (elevation3, count3)) \<Rightarrow>
                    (FD_OK, tile_update (source_y * width + source_x)
                              (\<lambda>t. t\<lparr>tl_terrain := FD_TERRAIN_HILLS\<rparr>) w5, index, Some count3))))"

section \<open>The course as a list of tiles\<close>

text \<open>The positions from \<open>a\<close> (not included) to \<open>b\<close>.\<close>

definition leg :: "nat \<Rightarrow> nat \<Rightarrow> nat list" where
  "leg a b = (if a < b then [a + 1..<b + 1] else rev [b..<a])"

lemma leg_step:
  "a < b \<Longrightarrow> leg a b = (a + 1) # leg (a + 1) b"
  "b < a \<Longrightarrow> leg a b = (a - 1) # leg (a - 1) b"
  "leg a a = []"
proof -
  assume ab: "a < b"
  then have "[a + 1..<b + 1] = (a + 1) # [a + 2..<b + 1]" by (simp add: upt_conv_Cons)
  then show "leg a b = (a + 1) # leg (a + 1) b" using ab by (cases "a + 1 < b") (simp_all add: leg_def)
next
  assume ba: "b < a"
  then obtain k where k: "a = Suc k" "b \<le> k" by (cases a) auto
  then show "leg a b = (a - 1) # leg (a - 1) b" by (cases "k = b") (simp_all add: leg_def)
qed (simp add: leg_def)

text \<open>Setting river tiles one after the other, each one centimetre above the last.\<close>

fun lay_river :: "nat list \<Rightarrow> u32 \<Rightarrow> fd_world \<Rightarrow> bool \<times> fd_world" where
  "lay_river [] elevation w = (True, w)"
| "lay_river (i # is) elevation w =
     (case fd_set_river_tile w i (elevation + 1) of
        (False, w') \<Rightarrow> (False, w') | (True, w') \<Rightarrow> lay_river is (elevation + 1) w')"

lemma river_leg_lay:
  "river_leg at target pos elevation count0 w =
     (case lay_river (map at (leg pos target)) elevation w of
        (False, w') \<Rightarrow> (w', None)
      | (True, w') \<Rightarrow> (w', Some (elevation + of_nat (length (leg pos target)),
                                count0 + of_nat (length (leg pos target)))))"
proof (induction at target pos elevation count0 w rule: river_leg.induct)
  case (1 at target pos elevation count0 w)
  consider "pos = target" | "pos < target" | "target < pos" by linarith
  then show ?case
  proof cases
    case 1
    then show ?thesis by (subst river_leg.simps) (simp add: leg_step(3))
  next
    case 2
    then have "leg pos target = (pos + 1) # leg (pos + 1) target" by (rule leg_step(1))
    then show ?thesis using "1.IH" [of "pos + 1" "elevation + 1" True] 2
      by (subst river_leg.simps) (auto simp: add.assoc split: prod.splits bool.splits)
  next
    case 3
    then have "leg pos target = (pos - 1) # leg (pos - 1) target" by (rule leg_step(2))
    then show ?thesis using "1.IH" [of "pos - 1" "elevation + 1" True] 3
      by (subst river_leg.simps) (auto simp: add.assoc split: prod.splits bool.splits)
  qed
qed

lemma lay_river_append:
  "lay_river (is @ js) e w =
     (case lay_river is e w of (False, w') \<Rightarrow> (False, w')
      | (True, w') \<Rightarrow> lay_river js (e + of_nat (length is)) w')"
  by (induction "is" arbitrary: e w) (auto simp: add.assoc split: prod.splits bool.splits)

section \<open>What laying a river does\<close>

lemma set_river_tile_True:
  assumes "fd_set_river_tile w i e = (True, w')"
  shows "tl_terrain (tile_at w i) \<noteq> FD_TERRAIN_WATER" "e \<le> tl_elevation_cm (tile_at w i)"
    "run_frame w' = run_frame w" "w_river_raised_tile_count w' = w_river_raised_tile_count w"
    "w_entities w' = w_entities w" "w_region w' = w_region w" "w_land_tile_count w' = w_land_tile_count w"
    "w_state_sha256 w' = w_state_sha256 w"
    "j < length (w_tiles w) \<Longrightarrow> tile_at w' j = (if j = i then (tile_at w i)\<lparr>
       tl_overlays := tl_overlays (tile_at w i) OR FD_TILE_OVERLAY_RIVER,
       tl_terrain := FD_TERRAIN_GRASSLAND, tl_elevation_cm := e\<rparr> else tile_at w j)"
  using assms
  by (auto simp: fd_set_river_tile_def terrain_at_def Let_def tile_update_def run_frame_def nth_list_update
      not_less split: if_splits)

definition river_frame :: "fd_world \<Rightarrow> _" where
  "river_frame w = (run_frame w, w_entities w, w_region w, w_land_tile_count w, w_state_sha256 w)"

lemma set_river_tile_frame: "river_frame (snd (fd_set_river_tile w i e)) = river_frame w"
  by (simp add: fd_set_river_tile_def Let_def river_frame_def run_frame_def tile_update_def)

lemma lay_river_frame: "river_frame (snd (lay_river is e w)) = river_frame w"
proof (induction "is" arbitrary: e w)
  case (Cons i "is")
  obtain ok w1 where s: "fd_set_river_tile w i (e + 1) = (ok, w1)" by (metis prod.exhaust)
  then have "river_frame w1 = river_frame w" using set_river_tile_frame [of w i "e + 1"] by simp
  then show ?case using Cons.IH [of "e + 1" w1] by (cases ok) (simp_all add: s)
qed simp

text \<open>A tile no higher than the current elevation is not on the rest of the course.\<close>

lemma lay_river_avoids:
  "lay_river is e w = (True, w') \<Longrightarrow> unat e + length is < 4294967296 \<Longrightarrow>
   set is \<subseteq> {..<length (w_tiles w)} \<Longrightarrow> j < length (w_tiles w) \<Longrightarrow>
   tl_elevation_cm (tile_at w j) \<le> e \<Longrightarrow> j \<notin> set is"
proof (induction "is" arbitrary: e w)
  case (Cons i "is")
  obtain w1 where s: "fd_set_river_tile w i (e + 1) = (True, w1)" and r: "lay_river is (e + 1) w1 = (True, w')"
    using Cons.prems(1) by (auto split: prod.splits bool.splits)
  note st = set_river_tile_True [OF s]
  have up: "unat (e + 1) = unat e + 1" using Cons.prems(2) by (simp add: unat_word_ariths)
  have len: "length (w_tiles w1) = length (w_tiles w)" using st(3) by (simp add: run_frame_def)
  have ij: "i \<noteq> j" using st(2) Cons.prems(5) up by (auto simp: word_le_nat_alt)
  moreover have "tl_elevation_cm (tile_at w1 j) \<le> e + 1"
    using st(9) [OF Cons.prems(4)] ij Cons.prems(5) up by (simp add: word_le_nat_alt)
  then have "j \<notin> set is"
    using Cons.prems up len by (intro Cons.IH [OF r]) simp_all
  ultimately show ?case by simp
qed simp

definition river_tile_laid :: "fd_tile \<Rightarrow> u32 \<Rightarrow> fd_tile" where
  "river_tile_laid t e = t\<lparr>tl_overlays := tl_overlays t OR FD_TILE_OVERLAY_RIVER,
     tl_terrain := FD_TERRAIN_GRASSLAND, tl_elevation_cm := e\<rparr>"

lemma lay_river_laid:
  "lay_river is e w = (True, w') \<Longrightarrow> unat e + length is < 4294967296 \<Longrightarrow>
   set is \<subseteq> {..<length (w_tiles w)} \<Longrightarrow>
   distinct is \<and> run_frame w' = run_frame w \<and>
   w_river_raised_tile_count w' = w_river_raised_tile_count w \<and> w_entities w' = w_entities w \<and>
   w_region w' = w_region w \<and> w_land_tile_count w' = w_land_tile_count w \<and>
   w_state_sha256 w' = w_state_sha256 w \<and>
   (\<forall>j<length (w_tiles w). j \<notin> set is \<longrightarrow> tile_at w' j = tile_at w j) \<and>
   (\<forall>k<length is. tl_terrain (tile_at w (is ! k)) \<noteq> FD_TERRAIN_WATER \<and>
      e + 1 + of_nat k \<le> tl_elevation_cm (tile_at w (is ! k)) \<and>
      tile_at w' (is ! k) = river_tile_laid (tile_at w (is ! k)) (e + 1 + of_nat k))"
proof (induction "is" arbitrary: e w)
  case (Cons i "is")
  obtain w1 where s: "fd_set_river_tile w i (e + 1) = (True, w1)" and r: "lay_river is (e + 1) w1 = (True, w')"
    using Cons.prems(1) by (auto split: prod.splits bool.splits)
  note st = set_river_tile_True [OF s]
  have up: "unat (e + 1) = unat e + 1" using Cons.prems(2) by (simp add: unat_word_ariths)
  have len: "length (w_tiles w1) = length (w_tiles w)" using st(3) by (simp add: run_frame_def)
  have i: "i < length (w_tiles w)" using Cons.prems(3) by simp
  have fits: "unat (e + 1) + length is < 4294967296" "set is \<subseteq> {..<length (w_tiles w1)}"
    using Cons.prems up len by simp_all
  have new: "i \<notin> set is"
    using lay_river_avoids [OF r fits, of i] i len st(9) [OF i] by simp
  note ih = Cons.IH [OF r fits]
  have same: "tile_at w1 j = tile_at w j" if "j \<in> set is" for j
    using st(9) [of j] that new Cons.prems(3) by auto
  have "tl_terrain (tile_at w ((i # is) ! k)) \<noteq> FD_TERRAIN_WATER \<and>
      e + 1 + of_nat k \<le> tl_elevation_cm (tile_at w ((i # is) ! k)) \<and>
      tile_at w' ((i # is) ! k) = river_tile_laid (tile_at w ((i # is) ! k)) (e + 1 + of_nat k)"
    if k: "k < length (i # is)" for k
  proof (cases k)
    case 0
    then show ?thesis using st(1,2) st(9) [OF i] ih new i len by (simp add: river_tile_laid_def)
  next
    case (Suc m)
    then have m: "m < length is" "is ! m \<in> set is" using k by simp_all
    have eq: "e + 1 + of_nat k = e + 1 + 1 + of_nat m" by (simp add: Suc)
    show ?thesis
      using conjunct2 [OF conjunct2 [OF conjunct2 [OF conjunct2 [OF conjunct2 [OF conjunct2 [OF
        conjunct2 [OF conjunct2 [OF ih]]]]]]], rule_format, OF m(1)]
      unfolding eq unfolding Suc nth_Cons_Suc same [OF m(2)] .
  qed
  moreover have "tile_at w' j = tile_at w j" if "j < length (w_tiles w)" "j \<notin> set (i # is)" for j
    using that ih st(9) [of j] len by simp
  ultimately show ?case using ih new st by simp
qed simp

section \<open>The course of the river\<close>

text \<open>The course in coordinates: along the row of the outlet, down or up the column of the bend, along
  the row of the source.\<close>

definition river_cells :: "nat \<Rightarrow> nat \<Rightarrow> nat \<Rightarrow> nat \<Rightarrow> nat \<Rightarrow> (nat \<times> nat) list" where
  "river_cells outlet_x outlet_y bend_x source_x source_y =
     (outlet_x, outlet_y) # map (\<lambda>x. (x, outlet_y)) (leg outlet_x bend_x) @
     map (\<lambda>y. (bend_x, y)) (leg outlet_y source_y) @ map (\<lambda>x. (x, source_y)) (leg bend_x source_x)"

definition cell_index :: "nat \<Rightarrow> nat \<times> nat \<Rightarrow> nat" where
  "cell_index W = (\<lambda>(x, y). y * W + x)"

definition river_course_of :: "fd_world \<Rightarrow> bool \<Rightarrow> nat \<Rightarrow> nat \<Rightarrow> nat \<Rightarrow> nat \<Rightarrow> nat list" where
  "river_course_of w west_water water_width outlet_y source_y tie_choice =
     (let width = grid_width w;
          outlet_x = fd_coast_x west_water width water_width;
          source_x = (if west_water then width - 2 else 1)
      in map (cell_index width) (river_cells outlet_x outlet_y ((outlet_x + source_x + tie_choice) div 2)
           source_x source_y))"

lemma set_leg: "set (leg a b) \<subseteq> {min a b..max a b}"
  by (auto simp: leg_def)

lemma last_leg: "last (a # leg a b) = b"
  by (cases "a < b") (auto simp: leg_def last_rev)

lemma successively_leg: "successively (\<lambda>i j. fd_abs_diff_u32 i j = 1) (a # leg a b)"
proof (induction "fd_abs_diff_u32 a b" arbitrary: a)
  case 0
  then have "a = b" by (simp add: fd_abs_diff_u32_def split: if_splits)
  then show ?case by (simp add: leg_step(3))
next
  case (Suc n)
  show ?case
  proof (cases "a < b")
    case True
    then have "n = fd_abs_diff_u32 (a + 1) b" using Suc.hyps(2) by (auto simp: fd_abs_diff_u32_def)
    then show ?thesis
      using Suc.hyps(1) [of "a + 1"] leg_step(1) [OF True] by (simp add: fd_abs_diff_u32_def)
  next
    case False
    then have ba: "b < a" using Suc.hyps(2) by (simp add: fd_abs_diff_u32_def split: if_splits)
    then have "n = fd_abs_diff_u32 (a - 1) b" using Suc.hyps(2) by (auto simp: fd_abs_diff_u32_def)
    then show ?thesis
      using Suc.hyps(1) [of "a - 1"] leg_step(2) [OF ba] ba by (simp add: fd_abs_diff_u32_def)
  qed
qed

text \<open>Consecutive cells are orthogonal neighbours.\<close>

definition cell_step :: "nat \<times> nat \<Rightarrow> nat \<times> nat \<Rightarrow> bool" where
  "cell_step = (\<lambda>(x, y) (x', y'). fd_manhattan x y x' y' = 1)"

lemma successively_glue:
  assumes "successively P (a # xs)" and "successively P (last (a # xs) # ys)"
  shows "successively P (a # xs @ ys)"
proof -
  have "successively P ys" "ys = [] \<or> P (last (a # xs)) (hd ys)"
    using assms(2) by (cases ys; simp)+
  with assms(1) have "successively P ((a # xs) @ ys)" unfolding successively_append_iff by blast
  then show ?thesis by simp
qed

lemma river_cells_step: "successively cell_step (river_cells ox oy bx sx sy)"
proof -
  have row: "successively cell_step ((a, y) # map (\<lambda>x. (x, y)) (leg a b))" for a b y
    using successively_leg [of a b] successively_map [of cell_step "\<lambda>x. (x, y)" "a # leg a b"]
    by (simp add: cell_step_def fd_manhattan_def fd_abs_diff_u32_def [of y y])
  have col: "successively cell_step ((x, a) # map (\<lambda>y. (x, y)) (leg a b))" for a b x
    using successively_leg [of a b] successively_map [of cell_step "\<lambda>y. (x, y)" "a # leg a b"]
    by (simp add: cell_step_def fd_manhattan_def fd_abs_diff_u32_def [of x x])
  have lr: "last ((a, y) # map (\<lambda>x. (x, y)) (leg a b)) = (b, y)" for a b y
    using last_map [of "a # leg a b" "\<lambda>x. (x, y)"] last_leg [of a b] by simp
  have lc: "last ((x, a) # map (\<lambda>y. (x, y)) (leg a b)) = (x, b)" for a b x
    using last_map [of "a # leg a b" "\<lambda>y. (x, y)"] last_leg [of a b] by simp
  have "successively cell_step ((bx, oy) # map (\<lambda>y. (bx, y)) (leg oy sy) @ map (\<lambda>x. (x, sy)) (leg bx sx))"
    by (rule successively_glue [OF col]) (simp only: lc row)
  then show ?thesis
    unfolding river_cells_def by (intro successively_glue [OF row]) (simp only: lr)
qed

lemma river_cells_ends:
  "hd (river_cells ox oy bx sx sy) = (ox, oy)" "last (river_cells ox oy bx sx sy) = (sx, sy)"
proof -
  show "hd (river_cells ox oy bx sx sy) = (ox, oy)" by (simp add: river_cells_def)
  have glue: "last (a # xs @ ys) = last (last (a # xs) # ys)" for a xs and ys :: "(nat \<times> nat) list"
    by simp
  have lr: "last ((a, y) # map (\<lambda>x. (x, y)) (leg a b)) = (b, y)" for a b y
    using last_map [of "a # leg a b" "\<lambda>x. (x, y)"] last_leg [of a b] by simp
  have lc: "last ((x, a) # map (\<lambda>y. (x, y)) (leg a b)) = (x, b)" for a b x
    using last_map [of "a # leg a b" "\<lambda>y. (x, y)"] last_leg [of a b] by simp
  show "last (river_cells ox oy bx sx sy) = (sx, sy)"
    unfolding river_cells_def by (simp only: glue lr lc)
qed

lemma river_cells_bound:
  assumes "ox < W" "sx < W" "bx < W" "oy < H" "sy < H" and "(x, y) \<in> set (river_cells ox oy bx sx sy)"
  shows "x < W \<and> y < H"
  using assms set_leg [of ox bx] set_leg [of oy sy] set_leg [of bx sx]
  by (fastforce simp: river_cells_def)

lemma length_leg: "length (leg a b) \<le> max a b"
  by (auto simp: leg_def)

section \<open>What the construction does\<close>

definition river_laid :: "fd_world \<Rightarrow> nat list \<Rightarrow> fd_world \<Rightarrow> bool" where
  "river_laid w p w' \<longleftrightarrow> river_frame w' = river_frame w \<and>
     w_river_raised_tile_count w' = w_river_raised_tile_count w \<and>
     (\<forall>j<length (w_tiles w). j \<notin> set p \<longrightarrow> tile_at w' j = tile_at w j) \<and>
     (\<forall>k<length p. tl_terrain (tile_at w (p ! k)) \<noteq> FD_TERRAIN_WATER \<and>
        100 + of_nat k \<le> tl_elevation_cm (tile_at w (p ! k)) \<and>
        tile_at w' (p ! k) = (tile_at w (p ! k))\<lparr>
          tl_overlays := tl_overlays (tile_at w (p ! k)) OR FD_TILE_OVERLAY_RIVER OR
             (if k = 0 then FD_TILE_RIVER_OUTLET else 0),
          tl_terrain := (if k = length p - 1 then FD_TERRAIN_HILLS else FD_TERRAIN_GRASSLAND),
          tl_elevation_cm := 100 + of_nat k\<rparr>)"

lemma lay_river_is_laid:
  assumes p: "p = a # is" and in_grid: "set p \<subseteq> {..<length (w_tiles w)}" and len: "length p < 1000000"
    and first: "fd_set_river_tile w a 100 = (True, w1)"
    and rest: "lay_river is 100 (tile_update a (\<lambda>t. t\<lparr>tl_overlays := tl_overlays t OR FD_TILE_RIVER_OUTLET\<rparr>) w1)
       = (True, w5)"
  shows "distinct p \<and> river_laid w p (tile_update (last p) (\<lambda>t. t\<lparr>tl_terrain := FD_TERRAIN_HILLS\<rparr>) w5)"
proof -
  define w2 where "w2 = tile_update a (\<lambda>t. t\<lparr>tl_overlays := tl_overlays t OR FD_TILE_RIVER_OUTLET\<rparr>) w1"
  define w' where "w' = tile_update (last p) (\<lambda>t. t\<lparr>tl_terrain := FD_TERRAIN_HILLS\<rparr>) w5"
  note st = set_river_tile_True [OF first]
  have a: "a < length (w_tiles w)" using in_grid p by simp
  have len1: "length (w_tiles w1) = length (w_tiles w)" using st(3) by (simp add: run_frame_def)
  have len2: "length (w_tiles w2) = length (w_tiles w)" by (simp add: w2_def len1)
  have tile2: "tile_at w2 j = (if j = a then (tile_at w a)\<lparr>
       tl_overlays := tl_overlays (tile_at w a) OR FD_TILE_OVERLAY_RIVER OR FD_TILE_RIVER_OUTLET,
       tl_terrain := FD_TERRAIN_GRASSLAND, tl_elevation_cm := 100\<rparr> else tile_at w j)"
    if "j < length (w_tiles w)" for j
    using st(9) [OF that] st(9) [OF a] that len1 by (auto simp: w2_def tile_update_tiles or.assoc)
  have fits: "unat (100 :: u32) + length is < 4294967296" "set is \<subseteq> {..<length (w_tiles w2)}"
    using len in_grid p len2 by simp_all
  have rest': "lay_river is 100 w2 = (True, w5)" using rest by (simp add: w2_def)
  note laid = lay_river_laid [OF rest' fits]
  have new: "a \<notin> set is"
    using lay_river_avoids [OF rest' fits, of a] a len2 tile2 [OF a] by simp
  then have dist: "distinct p" using laid p by simp
  have len5: "length (w_tiles w5) = length (w_tiles w)" using laid len2 by (simp add: run_frame_def)
  have last: "p ! k = last p \<longleftrightarrow> k = length p - 1" if "k < length p" for k
  proof -
    have ne: "p \<noteq> []" using p by simp
    then have "length p - 1 < length p" by simp
    then show ?thesis unfolding last_conv_nth [OF ne] by (rule nth_eq_iff_index_eq [OF dist that])
  qed
  have tile': "tile_at w' j = (if j = last p then (tile_at w5 j)\<lparr>tl_terrain := FD_TERRAIN_HILLS\<rparr> else tile_at w5 j)"
    if "j < length (w_tiles w)" for j
    using that len5 by (simp add: w'_def tile_update_tiles)
  have "tl_terrain (tile_at w (p ! k)) \<noteq> FD_TERRAIN_WATER \<and>
        100 + of_nat k \<le> tl_elevation_cm (tile_at w (p ! k)) \<and>
        tile_at w' (p ! k) = (tile_at w (p ! k))\<lparr>
          tl_overlays := tl_overlays (tile_at w (p ! k)) OR FD_TILE_OVERLAY_RIVER OR
             (if k = 0 then FD_TILE_RIVER_OUTLET else 0),
          tl_terrain := (if k = length p - 1 then FD_TERRAIN_HILLS else FD_TERRAIN_GRASSLAND),
          tl_elevation_cm := 100 + of_nat k\<rparr>" if k: "k < length p" for k
  proof -
    have pk: "p ! k < length (w_tiles w)" using in_grid nth_mem [OF k] by auto
    show ?thesis
    proof (cases k)
      case 0
      then have "p ! k = a" "tile_at w5 a = tile_at w2 a" using p laid new a len2 by simp_all
      then show ?thesis using tile' [OF pk] last [OF k] tile2 [OF a] st(1,2) 0 by simp
    next
      case (Suc m)
      then have m: "m < length is" "p ! k = is ! m" using k p by simp_all
      have "is ! m \<noteq> a" using new m(1) by (metis nth_mem)
      then have "tile_at w2 (is ! m) = tile_at w (is ! m)" using tile2 [OF pk] m(2) by simp
      moreover have "(100 :: u32) + 1 + of_nat m = 100 + of_nat k" by (simp add: Suc)
      moreover note conjunct2 [OF conjunct2 [OF conjunct2 [OF conjunct2 [OF conjunct2 [OF conjunct2 [OF
        conjunct2 [OF conjunct2 [OF laid]]]]]]], rule_format, OF m(1)]
      ultimately have "tl_terrain (tile_at w (p ! k)) \<noteq> FD_TERRAIN_WATER"
        "100 + of_nat k \<le> tl_elevation_cm (tile_at w (p ! k))"
        "tile_at w5 (p ! k) = river_tile_laid (tile_at w (p ! k)) (100 + of_nat k)"
        unfolding m(2) by metis+
      moreover have "k \<noteq> 0" using Suc by simp
      ultimately show ?thesis using tile' [OF pk] last [OF k]
        by (cases "k = length p - 1") (simp_all only: river_tile_laid_def if_True if_False simp_thms, simp_all)
    qed
  qed
  moreover have "tile_at w' j = tile_at w j" if "j < length (w_tiles w)" "j \<notin> set p" for j
  proof -
    have "j \<noteq> last p" using that(2) p by (metis last_in_set list.distinct(1))
    then show ?thesis using that tile' [OF that(1)] tile2 [OF that(1)] laid p len2 by simp
  qed
  moreover have "river_frame w' = river_frame w"
    using laid st by (simp add: river_frame_def w'_def w2_def)
  moreover have "w_river_raised_tile_count w' = w_river_raised_tile_count w"
    using laid st(4) by (simp add: w'_def w2_def tile_update_def)
  ultimately show ?thesis using dist by (simp add: river_laid_def w'_def)
qed

text \<open>The whole construction in terms of \<open>lay_river\<close>.\<close>

lemma construct_river_lay:
  fixes w west_water water_width outlet_y source_y tie_choice
  defines "p \<equiv> river_course_of w west_water water_width outlet_y source_y tie_choice"
  shows "fd_construct_river w west_water water_width outlet_y source_y tie_choice =
    (case fd_set_river_tile w (hd p) 100 of
       (False, w1) \<Rightarrow> (FD_ERR_GENERATION_EXHAUSTED, w1, hd p, None)
     | (True, w1) \<Rightarrow>
         (case lay_river (tl p) 100 (tile_update (hd p)
                 (\<lambda>t. t\<lparr>tl_overlays := tl_overlays t OR FD_TILE_RIVER_OUTLET\<rparr>) w1) of
            (False, w5) \<Rightarrow> (FD_ERR_GENERATION_EXHAUSTED, w5, hd p, None)
          | (True, w5) \<Rightarrow> (FD_OK, tile_update (last p) (\<lambda>t. t\<lparr>tl_terrain := FD_TERRAIN_HILLS\<rparr>) w5, hd p,
              Some (of_nat (length p)))))"
proof -
  define W where "W = grid_width w"
  define ox where "ox = fd_coast_x west_water W water_width"
  define sx where "sx = (if west_water then W - 2 else 1)"
  define bx where "bx = (ox + sx + tie_choice) div 2"
  define A where "A = map (\<lambda>x. outlet_y * W + x) (leg ox bx)"
  define B where "B = map (\<lambda>y. y * W + bx) (leg outlet_y source_y)"
  define C where "C = map (\<lambda>x. source_y * W + x) (leg bx sx)"
  have cells: "p = map (cell_index W) (river_cells ox outlet_y bx sx source_y)"
    by (simp add: p_def river_course_of_def W_def ox_def sx_def bx_def Let_def)
  have p: "hd p = outlet_y * W + ox" "tl p = A @ B @ C"
    by (simp_all add: cells river_cells_def cell_index_def A_def B_def C_def)
  have "river_cells ox outlet_y bx sx source_y \<noteq> []" by (simp add: river_cells_def)
  then have last: "last p = source_y * W + sx"
    unfolding cells using last_map river_cells_ends(2) by (simp add: last_map river_cells_ends(2) cell_index_def)
  have lengths: "length (leg ox bx) = length A" "length (leg outlet_y source_y) = length B"
    "length (leg bx sx) = length C" by (simp_all add: A_def B_def C_def)
  have "length p = 1 + length A + length B + length C"
    by (simp add: cells river_cells_def A_def B_def C_def)
  then have count: "(1 :: u32) + of_nat (length A) + of_nat (length B) + of_nat (length C) = of_nat (length p)"
    by simp
  show ?thesis
    unfolding fd_construct_river_def Let_def river_leg_lay W_def [symmetric] ox_def [symmetric]
      sx_def [symmetric] bx_def [symmetric] A_def [symmetric] B_def [symmetric] C_def [symmetric]
      p last lay_river_append lengths count [symmetric]
    by (simp split: prod.splits bool.splits)
qed

section \<open>The river property\<close>

text \<open>C24: a river that is completed runs from the outlet beside the coast to the hills of its source
  through orthogonally adjacent, distinct tiles; every one of them was land and is only lowered, to
  100 cm at the outlet and exactly one centimetre more with every tile, no other tile changes, and
  the count reported is the number of tiles.\<close>

theorem river_rises_from_outlet:
  assumes "fd_construct_river w west_water water_width outlet_y source_y tie_choice = (FD_OK, w', outlet, n)"
    and "length (w_tiles w) = grid_width w * grid_height w" and "length (w_tiles w) \<le> 32768"
    and "water_width < grid_width w" and "2 < grid_width w" and "tie_choice \<le> 1"
    and "outlet_y < grid_height w" and "source_y < grid_height w"
  shows "\<exists>p. p = river_course_of w west_water water_width outlet_y source_y tie_choice \<and>
    distinct p \<and> successively (grid_adjacent (grid_width w)) p \<and> outlet = hd p \<and>
    n = Some (of_nat (length p)) \<and> river_laid w p w'"
proof -
  define W H where "W = grid_width w" and "H = grid_height w"
  define ox where "ox = fd_coast_x west_water W water_width"
  define sx where "sx = (if west_water then W - 2 else 1)"
  define bx where "bx = (ox + sx + tie_choice) div 2"
  define cells where "cells = river_cells ox outlet_y bx sx source_y"
  define p where "p = river_course_of w west_water water_width outlet_y source_y tie_choice"
  have p: "p = map (cell_index W) cells"
    by (simp add: p_def river_course_of_def W_def ox_def sx_def bx_def cells_def Let_def)
  have x: "ox < W" "sx < W" "bx < W"
    using assms(4-6) by (auto simp: ox_def sx_def bx_def fd_coast_x_def W_def [symmetric])
  have y: "outlet_y < H" "source_y < H" using assms(7,8) by (simp_all add: H_def)
  have cb: "x < W \<and> y < H" if "(x, y) \<in> set cells" for x y
    using river_cells_bound [OF x y] that by (simp add: cells_def)
  have in_grid: "set p \<subseteq> {..<length (w_tiles w)}"
  proof
    fix i assume "i \<in> set p"
    then obtain x y where "(x, y) \<in> set cells" "i = y * W + x" by (auto simp: p cell_index_def)
    then show "i \<in> {..<length (w_tiles w)}"
      using cb [of x y] grid_index [of x W y H] assms(2) by (simp add: W_def H_def)
  qed
  have "W * H \<le> 32768" using assms(2,3) by (simp add: W_def H_def)
  moreover have "W * 1 \<le> W * H" "1 * H \<le> W * H" using x(1) y(1) by (intro mult_le_mono; simp)+
  ultimately have "W \<le> 32768" "H \<le> 32768" by linarith+
  then have "length cells < 1000000"
    using length_leg [of ox bx] length_leg [of outlet_y source_y] length_leg [of bx sx] x y
    by (simp add: cells_def river_cells_def)
  then have len: "length p < 1000000" by (simp add: p)
  have ne: "p \<noteq> []" by (simp add: p cells_def river_cells_def)
  then have split: "p = hd p # tl p" by simp
  from assms(1) [unfolded construct_river_lay, folded p_def] obtain w1 w5
    where s: "fd_set_river_tile w (hd p) 100 = (True, w1)"
      and l: "lay_river (tl p) 100 (tile_update (hd p)
            (\<lambda>t. t\<lparr>tl_overlays := tl_overlays t OR FD_TILE_RIVER_OUTLET\<rparr>) w1) = (True, w5)"
      and r: "w' = tile_update (last p) (\<lambda>t. t\<lparr>tl_terrain := FD_TERRAIN_HILLS\<rparr>) w5" "outlet = hd p"
        "n = Some (of_nat (length p))"
    by (auto simp: fd_const split: prod.splits bool.splits)
  have "successively cell_step cells" by (simp add: cells_def river_cells_step)
  then have "successively (\<lambda>a b. grid_adjacent W (cell_index W a) (cell_index W b)) cells"
  proof (rule successively_mono)
    fix a b assume ab: "a \<in> set cells" "b \<in> set cells" "cell_step a b"
    obtain x y x' y' where xy: "a = (x, y)" "b = (x', y')" by (cases a, cases b)
    have "x < W" "x' < W" using cb ab(1,2) xy by blast+
    then show "grid_adjacent W (cell_index W a) (cell_index W b)"
      using ab(3) by (simp add: xy cell_step_def cell_index_def grid_adjacent_def)
  qed
  then have "successively (grid_adjacent W) p" by (simp add: p successively_map)
  then show ?thesis
    using lay_river_is_laid [OF split in_grid len s l] r by (simp add: p_def W_def)
qed

text \<open>A high plain with one column of water on its west side.\<close>

definition river_ground :: fd_world where
  "river_ground = grid_world 6 4
     (concat (replicate 4 (grid_tile 1 0 0 # replicate 5 (grid_tile 2 0 5000)))) (replicate 6 blank_entity)"

lemma river_ground_carved: "fst (fd_construct_river river_ground True 1 1 2 0) = FD_OK"
  by code_simp

theorem river_rises_from_outlet_witness:
  "\<exists>w' p. fd_construct_river river_ground True 1 1 2 0 = (FD_OK, w', hd p, Some (of_nat (length p))) \<and>
    distinct p \<and> successively (grid_adjacent 6) p \<and> river_laid river_ground p w'"
proof -
  obtain w' outlet n where r: "fd_construct_river river_ground True 1 1 2 0 = (FD_OK, w', outlet, n)"
    using river_ground_carved by (metis prod.collapse)
  have g: "grid_width river_ground = 6" "grid_height river_ground = 4" "length (w_tiles river_ground) = 24"
    by (simp_all add: river_ground_def grid_world_def length_concat sum_list_replicate)
  then have "length (w_tiles river_ground) = grid_width river_ground * grid_height river_ground"
    "length (w_tiles river_ground) \<le> 32768" "1 < grid_width river_ground" "2 < grid_width river_ground"
    "(0 :: nat) \<le> 1" "1 < grid_height river_ground" "2 < grid_height river_ground" by simp_all
  from river_rises_from_outlet [OF r this] show ?thesis using r g(1) by auto
qed

end
