(* ===== verification/FD_Heap.thy ===== *)
theory FD_Heap
  imports FD_Prelude
begin

text \<open>
  The indexed binary heap of \<^verbatim>\<open>src/core/fd_generate.c\<close>, the frontier of the road search: \<open>nodes\<close> is
  the heap array, \<open>positions\<close> its inverse (\<open>UINT32_MAX\<close> for a node that is not queued) and
  \<open>distances\<close> the keys, which the search shares with the heap.  What the search may rely on is the
  locale \<open>min_queue\<close>, interpreted on the heap at the end.
\<close>

lemma nth_upd: "xs[i := x] ! j = (if i = j \<and> j < length xs then x else xs ! j)"
proof (cases "i < length xs")
  case False
  then have "xs[i := x] = xs" by (intro list_update_beyond) simp
  then show ?thesis using False by auto
qed (simp add: nth_list_update)

record fd_heap =
  hp_nodes :: "nat list"
  hp_positions :: "nat list"
  hp_distances :: "u32 list"
  hp_size :: nat

definition fd_heap_less :: "fd_heap \<Rightarrow> nat \<Rightarrow> nat \<Rightarrow> bool" where
  "fd_heap_less heap left_node right_node =
     (let left_distance = hp_distances heap ! left_node;
          right_distance = hp_distances heap ! right_node
      in left_distance < right_distance \<or>
         (left_distance = right_distance \<and> left_node < right_node))"

definition fd_heap_swap :: "fd_heap \<Rightarrow> nat \<Rightarrow> nat \<Rightarrow> fd_heap" where
  "fd_heap_swap heap left right =
     (let nodes = (hp_nodes heap)[left := hp_nodes heap ! right, right := hp_nodes heap ! left]
      in heap\<lparr>hp_nodes := nodes,
              hp_positions := (hp_positions heap)[nodes ! left := left, nodes ! right := right]\<rparr>)"

function fd_heap_up :: "fd_heap \<Rightarrow> nat \<Rightarrow> fd_heap" where
  "fd_heap_up heap current =
     (if current > 0 then
        let parent = (current - 1) div 2 in
        if \<not> fd_heap_less heap (hp_nodes heap ! current) (hp_nodes heap ! parent) then heap
        else fd_heap_up (fd_heap_swap heap current parent) parent
      else heap)"
  by pat_completeness auto
termination by (relation "measure snd") auto

declare fd_heap_up.simps [simp del]

definition heap_smallest :: "fd_heap \<Rightarrow> nat \<Rightarrow> nat" where
  "heap_smallest heap current =
     (let left = current * 2 + 1; right = left + 1;
          s1 = (if left < hp_size heap \<and> fd_heap_less heap (hp_nodes heap ! left) (hp_nodes heap ! current)
                then left else current)
      in if right < hp_size heap \<and> fd_heap_less heap (hp_nodes heap ! right) (hp_nodes heap ! s1)
         then right else s1)"

lemma heap_smallest_less: "heap_smallest heap current \<noteq> current \<Longrightarrow>
    current < heap_smallest heap current \<and> heap_smallest heap current < hp_size heap"
  by (auto simp: heap_smallest_def Let_def split: if_splits)

function fd_heap_down :: "fd_heap \<Rightarrow> nat \<Rightarrow> fd_heap" where
  "fd_heap_down heap current =
     (let smallest = heap_smallest heap current in
      if smallest = current then heap
      else fd_heap_down (fd_heap_swap heap current smallest) smallest)"
  by pat_completeness auto
termination
proof (relation "measure (\<lambda>(heap, current). hp_size heap - current)")
  fix heap current smallest
  assume "smallest = heap_smallest heap current" "smallest \<noteq> current"
  then have "current < smallest" "smallest < hp_size heap" using heap_smallest_less by blast+
  then show "((fd_heap_swap heap current smallest, smallest), heap, current)
      \<in> measure (\<lambda>(heap, current). hp_size heap - current)"
    by (simp add: fd_heap_swap_def Let_def)
qed simp

declare fd_heap_down.simps [simp del]

definition fd_heap_insert :: "fd_heap \<Rightarrow> nat \<Rightarrow> fd_heap" where
  "fd_heap_insert heap node =
     (let position = hp_size heap;
          heap1 = heap\<lparr>hp_nodes := (hp_nodes heap)[position := node],
                       hp_positions := (hp_positions heap)[node := position],
                       hp_size := hp_size heap + 1\<rparr>
      in fd_heap_up heap1 position)"

definition fd_heap_pop :: "fd_heap \<Rightarrow> nat \<times> fd_heap" where
  "fd_heap_pop heap =
     (let result = hp_nodes heap ! 0;
          n = hp_size heap - 1;
          heap1 = heap\<lparr>hp_size := n, hp_positions := (hp_positions heap)[result := UINT32_MAX]\<rparr>
      in if n > 0 then
           let nodes = (hp_nodes heap1)[0 := hp_nodes heap1 ! n];
               heap2 = heap1\<lparr>hp_nodes := nodes,
                             hp_positions := (hp_positions heap1)[nodes ! 0 := 0]\<rparr>
           in (result, fd_heap_down heap2 0)
         else (result, heap1))"

section \<open>Well-formed and ordered heaps\<close>

definition heap_members :: "fd_heap \<Rightarrow> nat set" where
  "heap_members h = {v. v < length (hp_nodes h) \<and> hp_positions h ! v \<noteq> UINT32_MAX}"

text \<open>\<open>positions\<close> is the inverse of \<open>nodes\<close> on the first \<open>size\<close> slots.\<close>

definition heap_wf :: "fd_heap \<Rightarrow> bool" where
  "heap_wf h \<longleftrightarrow> hp_size h \<le> length (hp_nodes h) \<and> length (hp_nodes h) < UINT32_MAX \<and>
     length (hp_positions h) = length (hp_nodes h) \<and> length (hp_distances h) = length (hp_nodes h) \<and>
     (\<forall>i<hp_size h. hp_nodes h ! i < length (hp_nodes h) \<and> hp_positions h ! (hp_nodes h ! i) = i) \<and>
     (\<forall>v\<in>heap_members h. hp_positions h ! v < hp_size h \<and> hp_nodes h ! (hp_positions h ! v) = v)"

definition heap_above :: "fd_heap \<Rightarrow> nat \<Rightarrow> nat \<Rightarrow> bool" where
  "heap_above h i j \<longleftrightarrow> \<not> fd_heap_less h (hp_nodes h ! j) (hp_nodes h ! i)"

definition heap_ordered :: "fd_heap \<Rightarrow> bool" where
  "heap_ordered h \<longleftrightarrow> (\<forall>i. 0 < i \<and> i < hp_size h \<longrightarrow> heap_above h ((i - 1) div 2) i)"

definition heap_ok :: "fd_heap \<Rightarrow> bool" where
  "heap_ok h \<longleftrightarrow> heap_wf h \<and> heap_ordered h"

lemma less_trans: "fd_heap_less h a b \<Longrightarrow> fd_heap_less h b c \<Longrightarrow> fd_heap_less h a c"
  by (auto simp: fd_heap_less_def Let_def)

lemma not_less_trans: "\<not> fd_heap_less h b a \<Longrightarrow> \<not> fd_heap_less h c b \<Longrightarrow> \<not> fd_heap_less h c a"
  by (auto simp: fd_heap_less_def Let_def not_less)

lemma less_asym: "fd_heap_less h a b \<Longrightarrow> \<not> fd_heap_less h b a"
  by (auto simp: fd_heap_less_def Let_def)

lemma less_irrefl [simp]: "\<not> fd_heap_less h a a"
  by (simp add: fd_heap_less_def)

lemma wf_node: "heap_wf h \<Longrightarrow> i < hp_size h \<Longrightarrow>
    hp_nodes h ! i < length (hp_nodes h) \<and> hp_positions h ! (hp_nodes h ! i) = i"
  by (simp add: heap_wf_def)

lemma wf_member: "heap_wf h \<Longrightarrow> v \<in> heap_members h \<Longrightarrow>
    hp_positions h ! v < hp_size h \<and> hp_nodes h ! (hp_positions h ! v) = v"
  by (simp add: heap_wf_def)

lemma node_inj: "heap_wf h \<Longrightarrow> i < hp_size h \<Longrightarrow> j < hp_size h \<Longrightarrow>
    hp_nodes h ! i = hp_nodes h ! j \<longleftrightarrow> i = j"
  by (metis wf_node)

lemma members_nodes: "heap_wf h \<Longrightarrow> heap_members h = (\<lambda>i. hp_nodes h ! i) ` {..<hp_size h}"
proof (intro equalityI subsetI)
  fix v assume wf: "heap_wf h" and v: "v \<in> heap_members h"
  show "v \<in> (\<lambda>i. hp_nodes h ! i) ` {..<hp_size h}"
    using wf_member [OF wf v] by (intro image_eqI [of _ _ "hp_positions h ! v"]) auto
next
  fix v assume wf: "heap_wf h" and "v \<in> (\<lambda>i. hp_nodes h ! i) ` {..<hp_size h}"
  then obtain i where "i < hp_size h" "v = hp_nodes h ! i" by auto
  moreover have "i < UINT32_MAX" using \<open>i < hp_size h\<close> wf by (simp add: heap_wf_def)
  ultimately show "v \<in> heap_members h"
    using wf_node [OF wf \<open>i < hp_size h\<close>] by (simp add: heap_members_def)
qed

lemma card_members: "heap_wf h \<Longrightarrow> card (heap_members h) = hp_size h"
  by (simp add: members_nodes card_image inj_on_def node_inj)

lemma members_bound: "heap_members h \<subseteq> {..<length (hp_nodes h)}"
  by (auto simp: heap_members_def)

lemma finite_members [simp]: "finite (heap_members h)"
  by (rule finite_subset [OF members_bound]) simp

lemma room_for_node:
  assumes "heap_wf h" and "v < length (hp_nodes h)" and "v \<notin> heap_members h"
  shows "hp_size h < length (hp_nodes h)"
proof -
  have "card (insert v (heap_members h)) \<le> card {..<length (hp_nodes h)}"
    by (rule card_mono) (use assms(2) members_bound in auto)
  then show ?thesis using assms by (simp add: card_members)
qed

section \<open>Swapping\<close>

lemma swap_fields [simp]:
  "hp_size (fd_heap_swap h i j) = hp_size h" "hp_distances (fd_heap_swap h i j) = hp_distances h"
  "length (hp_nodes (fd_heap_swap h i j)) = length (hp_nodes h)"
  "length (hp_positions (fd_heap_swap h i j)) = length (hp_positions h)"
  by (simp_all add: fd_heap_swap_def Let_def)

lemma swap_less [simp]: "fd_heap_less (fd_heap_swap h i j) = fd_heap_less h"
  by (intro ext) (simp add: fd_heap_less_def)

lemma swap_nodes:
  assumes "i < length (hp_nodes h)" "j < length (hp_nodes h)" "i \<noteq> j"
  shows "hp_nodes (fd_heap_swap h i j) ! k =
    (if k = i then hp_nodes h ! j else if k = j then hp_nodes h ! i else hp_nodes h ! k)"
  using assms by (auto simp: fd_heap_swap_def Let_def nth_upd)

lemma swap_positions:
  assumes wf: "heap_wf h" and "i < hp_size h" "j < hp_size h" "i \<noteq> j" "v < length (hp_nodes h)"
  shows "hp_positions (fd_heap_swap h i j) ! v =
    (if v = hp_nodes h ! i then j else if v = hp_nodes h ! j then i else hp_positions h ! v)"
proof -
  have len: "i < length (hp_nodes h)" "j < length (hp_nodes h)"
    using assms(2,3) wf by (simp_all add: heap_wf_def)
  have "length (hp_positions h) = length (hp_nodes h)" using wf by (simp add: heap_wf_def)
  then show ?thesis
    using len assms node_inj [OF wf assms(2,3)]
    by (auto simp: fd_heap_swap_def Let_def nth_upd)
qed

lemma swap_members:
  assumes wf: "heap_wf h" and "i < hp_size h" "j < hp_size h" "i \<noteq> j"
  shows "heap_members (fd_heap_swap h i j) = heap_members h"
proof -
  have "i < UINT32_MAX" "j < UINT32_MAX" using assms by (simp_all add: heap_wf_def)
  moreover have "hp_nodes h ! i \<in> heap_members h" "hp_nodes h ! j \<in> heap_members h"
    using assms by (auto simp: members_nodes)
  ultimately show ?thesis
    using swap_positions [OF assms] by (auto simp: heap_members_def split: if_splits)
qed

lemma swap_wf:
  assumes wf: "heap_wf h" and ij: "i < hp_size h" "j < hp_size h" "i \<noteq> j"
  shows "heap_wf (fd_heap_swap h i j)"
proof -
  have len: "i < length (hp_nodes h)" "j < length (hp_nodes h)"
    using ij wf by (simp_all add: heap_wf_def)
  note nodes = swap_nodes [OF len ij(3)] and pos = swap_positions [OF wf ij]
  show ?thesis
    unfolding heap_wf_def swap_members [OF wf ij] swap_fields
  proof (intro conjI allI ballI impI)
    fix k assume k: "k < hp_size h"
    show "hp_nodes (fd_heap_swap h i j) ! k < length (hp_nodes h)"
      using wf_node [OF wf] k ij by (simp add: nodes)
    show "hp_positions (fd_heap_swap h i j) ! (hp_nodes (fd_heap_swap h i j) ! k) = k"
      using wf_node [OF wf] k ij node_inj [OF wf] by (auto simp: nodes pos)
  next
    fix v assume v: "v \<in> heap_members h"
    then have vl: "v < length (hp_nodes h)" by (simp add: heap_members_def)
    note m = wf_member [OF wf v]
    show "hp_positions (fd_heap_swap h i j) ! v < hp_size h"
      using m ij by (simp add: pos [OF vl])
    have "hp_positions h ! v = i \<longleftrightarrow> v = hp_nodes h ! i" "hp_positions h ! v = j \<longleftrightarrow> v = hp_nodes h ! j"
      using m wf_node [OF wf] ij by auto
    then show "hp_nodes (fd_heap_swap h i j) ! (hp_positions (fd_heap_swap h i j) ! v) = v"
      using m ij(3) by (auto simp: pos [OF vl] nodes)
  qed (use wf in \<open>simp_all add: heap_wf_def\<close>)
qed

lemma swap_above:
  assumes "heap_wf h" "i < hp_size h" "j < hp_size h" "i \<noteq> j"
  shows "heap_above (fd_heap_swap h i j) a b \<longleftrightarrow>
    heap_above h (if a = i then j else if a = j then i else a) (if b = i then j else if b = j then i else b)"
proof -
  have "i < length (hp_nodes h)" "j < length (hp_nodes h)" using assms by (simp_all add: heap_wf_def)
  then show ?thesis using assms(4) by (auto simp: heap_above_def swap_nodes)
qed

section \<open>Sifting\<close>

definition up_inv :: "fd_heap \<Rightarrow> nat \<Rightarrow> bool" where
  "up_inv h c \<longleftrightarrow>
     (\<forall>i. 0 < i \<and> i < hp_size h \<and> i \<noteq> c \<longrightarrow> heap_above h ((i - 1) div 2) i) \<and>
     (\<forall>i. 0 < i \<and> i < hp_size h \<and> (i - 1) div 2 = c \<and> 0 < c \<longrightarrow> heap_above h ((c - 1) div 2) i)"

definition down_inv :: "fd_heap \<Rightarrow> nat \<Rightarrow> bool" where
  "down_inv h c \<longleftrightarrow>
     (\<forall>i. 0 < i \<and> i < hp_size h \<and> (i - 1) div 2 \<noteq> c \<longrightarrow> heap_above h ((i - 1) div 2) i) \<and>
     (\<forall>i. 0 < i \<and> i < hp_size h \<and> (i - 1) div 2 = c \<and> 0 < c \<longrightarrow> heap_above h ((c - 1) div 2) i)"

lemma above_trans: "heap_above h i j \<Longrightarrow> heap_above h j k \<Longrightarrow> heap_above h i k"
  unfolding heap_above_def by (rule not_less_trans)

lemma above_asym: "\<not> heap_above h i j \<Longrightarrow> heap_above h j i"
  unfolding heap_above_def by (blast dest: less_asym)

lemma heap_above_refl [simp]: "heap_above h i i"
  by (simp add: heap_above_def)

lemma parent_less: "0 < i \<Longrightarrow> (i - 1) div 2 < (i :: nat)"
  by simp

lemma up_inv_swap:
  assumes wf: "heap_wf h" and c: "0 < c" "c < hp_size h" and inv: "up_inv h c"
    and less: "\<not> heap_above h ((c - 1) div 2) c"
  shows "up_inv (fd_heap_swap h c ((c - 1) div 2)) ((c - 1) div 2)"
proof -
  define p where "p = (c - 1) div 2"
  have p: "p < c" "p < hp_size h" "c \<noteq> p" using c by (simp_all add: p_def)
  note ab = swap_above [OF wf c(2) p(2,3)]
  have cp: "heap_above h c p" using less above_asym by (simp add: p_def)
  have order: "heap_above h ((i - 1) div 2) i" if "0 < i" "i < hp_size h" "i \<noteq> c" for i
    using inv that by (simp add: up_inv_def)
  have grand: "heap_above h p i" if "0 < i" "i < hp_size h" "(i - 1) div 2 = c" for i
    using inv that c(1) by (simp add: up_inv_def p_def)
  have "heap_above (fd_heap_swap h c p) ((i - 1) div 2) i" if i: "0 < i" "i < hp_size h" "i \<noteq> p" for i
    unfolding ab using order [of i] grand [of i] above_trans [OF cp] cp parent_less [OF i(1)] i p
    by (auto simp: p_def)
  moreover have "heap_above (fd_heap_swap h c p) ((p - 1) div 2) i"
    if i: "0 < i" "i < hp_size h" "(i - 1) div 2 = p" "0 < p" for i
  proof -
    have pp: "(p - 1) div 2 < p" "(p - 1) div 2 \<noteq> c" "(p - 1) div 2 \<noteq> p" using i(4) p(1) by auto
    have "heap_above h ((p - 1) div 2) p" using order [of p] i(4) p by simp
    then show ?thesis
      unfolding ab using pp above_trans order [OF i(1,2)] i(3) parent_less [OF i(1)] by auto
  qed
  ultimately show ?thesis unfolding up_inv_def swap_fields p_def by blast
qed

lemma heap_up_ok:
  "heap_wf h \<Longrightarrow> c < hp_size h \<Longrightarrow> up_inv h c \<Longrightarrow>
     heap_ok (fd_heap_up h c) \<and> heap_members (fd_heap_up h c) = heap_members h \<and>
     hp_distances (fd_heap_up h c) = hp_distances h \<and>
     length (hp_nodes (fd_heap_up h c)) = length (hp_nodes h)"
proof (induction h c rule: fd_heap_up.induct)
  case (1 h c)
  let ?p = "(c - 1) div 2"
  show ?case
  proof (cases "0 < c \<and> fd_heap_less h (hp_nodes h ! c) (hp_nodes h ! ?p)")
    case True
    then have p: "?p < hp_size h" "c \<noteq> ?p" using "1.prems"(2) by auto
    have step: "fd_heap_up h c = fd_heap_up (fd_heap_swap h c ?p) ?p"
      using True by (subst fd_heap_up.simps) (simp add: Let_def)
    have inv: "up_inv (fd_heap_swap h c ?p) ?p"
      using True by (intro up_inv_swap [OF "1.prems"(1) _ "1.prems"(2,3)]) (auto simp: heap_above_def)
    have wf: "heap_wf (fd_heap_swap h c ?p)" by (rule swap_wf [OF "1.prems"(1,2) p])
    have "0 < c" "\<not> \<not> fd_heap_less h (hp_nodes h ! c) (hp_nodes h ! ?p)" using True by simp_all
    from "1.IH" [OF this(1) refl this(2) wf _ inv, unfolded swap_fields swap_members [OF "1.prems"(1,2) p], OF p(1)]
    show ?thesis unfolding step .
  next
    case False
    then have stop: "fd_heap_up h c = h" by (subst fd_heap_up.simps) (auto simp: Let_def)
    have "heap_above h ((i - 1) div 2) i" if "0 < i" "i < hp_size h" for i
      using False "1.prems"(3) that by (cases "i = c") (auto simp: up_inv_def heap_above_def)
    then show ?thesis using "1.prems"(1) by (simp add: stop heap_ok_def heap_ordered_def)
  qed
qed

lemma heap_smallest_cases:
  obtains (left) "heap_smallest h c = c * 2 + 1" "c * 2 + 1 < hp_size h" "\<not> heap_above h c (c * 2 + 1)"
      "c * 2 + 2 < hp_size h \<longrightarrow> heap_above h (c * 2 + 1) (c * 2 + 2)"
  | (right) "heap_smallest h c = c * 2 + 2" "c * 2 + 2 < hp_size h" "\<not> heap_above h c (c * 2 + 2)"
      "heap_above h (c * 2 + 2) (c * 2 + 1)"
  | (self) "heap_smallest h c = c" "c * 2 + 1 < hp_size h \<longrightarrow> heap_above h c (c * 2 + 1)"
      "c * 2 + 2 < hp_size h \<longrightarrow> heap_above h c (c * 2 + 2)"
proof -
  consider (a) "c * 2 + 1 < hp_size h \<and> \<not> heap_above h c (c * 2 + 1)"
    | (b) "\<not> (c * 2 + 1 < hp_size h \<and> \<not> heap_above h c (c * 2 + 1))" by blast
  then show ?thesis
  proof cases
    case a
    then have s: "heap_smallest h c =
        (if c * 2 + 2 < hp_size h \<and> \<not> heap_above h (c * 2 + 1) (c * 2 + 2) then c * 2 + 2 else c * 2 + 1)"
      by (simp add: heap_smallest_def heap_above_def)
    show ?thesis
    proof (cases "c * 2 + 2 < hp_size h \<and> \<not> heap_above h (c * 2 + 1) (c * 2 + 2)")
      case True
      moreover have "heap_above h (c * 2 + 2) (c * 2 + 1)" using True above_asym by blast
      moreover have "\<not> heap_above h c (c * 2 + 2)"
        using a True above_trans [OF _ \<open>heap_above h (c * 2 + 2) (c * 2 + 1)\<close>] by blast
      ultimately show ?thesis using s by (intro right) simp_all
    next
      case False
      then show ?thesis using s a by (intro left) auto
    qed
  next
    case b
    then have s: "heap_smallest h c =
        (if c * 2 + 2 < hp_size h \<and> \<not> heap_above h c (c * 2 + 2) then c * 2 + 2 else c)"
      by (auto simp: heap_smallest_def heap_above_def Let_def)
    show ?thesis
    proof (cases "c * 2 + 2 < hp_size h \<and> \<not> heap_above h c (c * 2 + 2)")
      case True
      then have "heap_above h c (c * 2 + 1)" using b by simp
      then have "heap_above h (c * 2 + 2) (c * 2 + 1)" using True above_asym above_trans by blast
      then show ?thesis using s True by (intro right) simp_all
    next
      case False
      then show ?thesis using s b by (intro self) auto
    qed
  qed
qed

lemma heap_smallest_child:
  assumes "heap_smallest h c \<noteq> c"
  defines "s \<equiv> heap_smallest h c"
  shows "0 < s" "s < hp_size h" "(s - 1) div 2 = c" "heap_above h s c"
    and "0 < i \<Longrightarrow> i < hp_size h \<Longrightarrow> (i - 1) div 2 = c \<Longrightarrow> heap_above h s i"
proof -
  have below: "heap_above h s i" if "0 < i" "i < hp_size h" "(i - 1) div 2 = c" for i
  proof -
    have "i = c * 2 + 1 \<or> i = c * 2 + 2" using that(1,3) by linarith
    then show ?thesis
      unfolding s_def using that(2) assms(1)
      by (cases h c rule: heap_smallest_cases) auto
  qed
  have "0 < s \<and> s < hp_size h \<and> (s - 1) div 2 = c \<and> heap_above h s c"
    unfolding s_def using assms(1) above_asym
    by (cases h c rule: heap_smallest_cases) auto
  then show "0 < s" "s < hp_size h" "(s - 1) div 2 = c" "heap_above h s c"
    "0 < i \<Longrightarrow> i < hp_size h \<Longrightarrow> (i - 1) div 2 = c \<Longrightarrow> heap_above h s i"
    using below by blast+
qed

lemma heap_smallest_self:
  assumes "heap_smallest h c = c" "0 < i" "i < hp_size h" "(i - 1) div 2 = c"
  shows "heap_above h c i"
proof -
  have "i = c * 2 + 1 \<or> i = c * 2 + 2" using assms(2,4) by linarith
  then show ?thesis
    using assms(1,3) by (cases h c rule: heap_smallest_cases) auto
qed

lemma down_inv_swap:
  assumes wf: "heap_wf h" and c: "c < hp_size h" and inv: "down_inv h c"
    and s: "heap_smallest h c \<noteq> c"
  shows "down_inv (fd_heap_swap h c (heap_smallest h c)) (heap_smallest h c)"
proof -
  define s' where "s' = heap_smallest h c"
  note sm = heap_smallest_child [OF s, folded s'_def]
  have sc: "c \<noteq> s'" using s by (simp add: s'_def)
  note ab = swap_above [OF wf c sm(2) sc]
  have order: "heap_above h ((i - 1) div 2) i" if "0 < i" "i < hp_size h" "(i - 1) div 2 \<noteq> c" for i
    using inv that by (simp add: down_inv_def)
  have grand: "heap_above h ((c - 1) div 2) i" if "0 < i" "i < hp_size h" "(i - 1) div 2 = c" "0 < c" for i
    using inv that by (simp add: down_inv_def)
  have "heap_above (fd_heap_swap h c s') ((i - 1) div 2) i"
    if i: "0 < i" "i < hp_size h" "(i - 1) div 2 \<noteq> s'" for i
  proof (cases "i = s'")
    case True
    then show ?thesis unfolding ab using sm(3,4) sc by auto
  next
    case False
    show ?thesis
    proof (cases "(i - 1) div 2 = c")
      case True
      then show ?thesis unfolding ab using sm(5) [OF i(1,2)] False sc parent_less [OF i(1)] by auto
    next
      case other: False
      show ?thesis
      proof (cases "i = c")
        case True
        then show ?thesis unfolding ab using grand [OF sm(1,2,3)] i(1,3) parent_less [OF i(1)] by auto
      next
        case False
        then show ?thesis unfolding ab using order [OF i(1,2) other] other i(3) \<open>i \<noteq> s'\<close> by auto
      qed
    qed
  qed
  moreover have "heap_above (fd_heap_swap h c s') ((s' - 1) div 2) i"
    if i: "0 < i" "i < hp_size h" "(i - 1) div 2 = s'" for i
  proof -
    have "c < s'" using sm(1,3) parent_less by metis
    moreover have "s' < i" using i(1,3) parent_less by metis
    ultimately show ?thesis unfolding ab using order [OF i(1,2)] i(3) sm(3) by auto
  qed
  ultimately show ?thesis unfolding down_inv_def swap_fields s'_def by blast
qed

lemma heap_down_ok:
  "heap_wf h \<Longrightarrow> c < hp_size h \<Longrightarrow> down_inv h c \<Longrightarrow>
     heap_ok (fd_heap_down h c) \<and> heap_members (fd_heap_down h c) = heap_members h \<and>
     hp_distances (fd_heap_down h c) = hp_distances h \<and>
     length (hp_nodes (fd_heap_down h c)) = length (hp_nodes h)"
proof (induction h c rule: fd_heap_down.induct)
  case (1 h c)
  let ?s = "heap_smallest h c"
  show ?case
  proof (cases "?s = c")
    case True
    then have stop: "fd_heap_down h c = h" by (subst fd_heap_down.simps) (simp add: Let_def)
    have "heap_above h ((i - 1) div 2) i" if "0 < i" "i < hp_size h" for i
      using heap_smallest_self [OF True that] "1.prems"(3) that
      by (cases "(i - 1) div 2 = c") (auto simp: down_inv_def)
    then show ?thesis using "1.prems"(1) by (simp add: stop heap_ok_def heap_ordered_def)
  next
    case False
    then have s: "?s < hp_size h" "c \<noteq> ?s" using heap_smallest_child(2) by auto
    have step: "fd_heap_down h c = fd_heap_down (fd_heap_swap h c ?s) ?s"
      using False by (subst fd_heap_down.simps) (simp add: Let_def)
    have wf: "heap_wf (fd_heap_swap h c ?s)" by (rule swap_wf [OF "1.prems"(1,2) s])
    from "1.IH" [OF refl False wf _ down_inv_swap [OF "1.prems" False],
        unfolded swap_fields swap_members [OF "1.prems"(1,2) s], OF s(1)]
    show ?thesis unfolding step .
  qed
qed

section \<open>Insertion, decrease and removal\<close>

lemma root_above: "heap_ordered h \<Longrightarrow> i < hp_size h \<Longrightarrow> heap_above h 0 i"
proof (induction i rule: less_induct)
  case (less i)
  show ?case
  proof (cases "i = 0")
    case True
    then show ?thesis by (simp add: heap_above_def)
  next
    case False
    then have "heap_above h 0 ((i - 1) div 2)" by (intro less.IH less.prems(1)) (use less.prems in auto)
    moreover have "heap_above h ((i - 1) div 2) i"
      using less.prems False by (simp add: heap_ordered_def)
    ultimately show ?thesis by (rule above_trans)
  qed
qed

lemma heap_insert_ok:
  assumes ok: "heap_ok h" and v: "v < length (hp_nodes h)" "v \<notin> heap_members h"
  shows "heap_ok (fd_heap_insert h v) \<and> heap_members (fd_heap_insert h v) = insert v (heap_members h) \<and>
    hp_distances (fd_heap_insert h v) = hp_distances h \<and>
    length (hp_nodes (fd_heap_insert h v)) = length (hp_nodes h)"
proof -
  have wf: "heap_wf h" using ok by (simp add: heap_ok_def)
  define h1 where "h1 = h\<lparr>hp_nodes := (hp_nodes h)[hp_size h := v],
    hp_positions := (hp_positions h)[v := hp_size h], hp_size := hp_size h + 1\<rparr>"
  note room = room_for_node [OF wf v]
  have len: "length (hp_positions h) = length (hp_nodes h)" "length (hp_nodes h) < UINT32_MAX"
    using wf by (simp_all add: heap_wf_def)
  have old: "hp_nodes h ! i \<noteq> v" if "i < hp_size h" for i
    using v(2) that wf by (auto simp: members_nodes)
  have mem: "heap_members h1 = insert v (heap_members h)"
    using v room len by (auto simp: heap_members_def h1_def nth_upd)
  have wf1: "heap_wf h1"
    unfolding heap_wf_def mem
  proof (intro conjI allI ballI impI)
    fix i assume "i < hp_size h1"
    then have i: "i < hp_size h \<or> i = hp_size h" by (auto simp: h1_def)
    show "hp_nodes h1 ! i < length (hp_nodes h1)"
      using i wf_node [OF wf] room v(1) by (auto simp: h1_def nth_upd)
    show "hp_positions h1 ! (hp_nodes h1 ! i) = i"
      using i wf_node [OF wf] old room v(1) len by (auto simp: h1_def nth_upd)
  next
    fix u assume u: "u \<in> insert v (heap_members h)"
    show "hp_positions h1 ! u < hp_size h1"
      using u wf_member [OF wf, of u] v(1) len by (auto simp: h1_def nth_upd)
    show "hp_nodes h1 ! (hp_positions h1 ! u) = u"
      using u wf_member [OF wf, of u] v room len by (auto simp: h1_def nth_upd)
  qed (use wf room len in \<open>simp_all add: h1_def heap_wf_def\<close>)
  have same: "heap_above h1 i j = heap_above h i j" if "i < hp_size h" "j < hp_size h" for i j
    using that by (simp add: heap_above_def h1_def fd_heap_less_def)
  have "up_inv h1 (hp_size h)"
    unfolding up_inv_def
  proof (intro conjI allI impI)
    fix i assume i: "0 < i \<and> i < hp_size h1 \<and> i \<noteq> hp_size h"
    then have "i < hp_size h" "(i - 1) div 2 < hp_size h" by (auto simp: h1_def)
    then show "heap_above h1 ((i - 1) div 2) i"
      using ok i by (simp add: same heap_ok_def heap_ordered_def)
  next
    fix i assume "0 < i \<and> i < hp_size h1 \<and> (i - 1) div 2 = hp_size h \<and> 0 < hp_size h"
    then have False using parent_less [of i] by (auto simp: h1_def)
    then show "heap_above h1 ((hp_size h - 1) div 2) i" ..
  qed
  moreover have "fd_heap_insert h v = fd_heap_up h1 (hp_size h)"
    by (simp add: fd_heap_insert_def h1_def Let_def)
  moreover have "hp_size h < hp_size h1" "hp_distances h1 = hp_distances h"
      "length (hp_nodes h1) = length (hp_nodes h)"
    by (simp_all add: h1_def)
  ultimately show ?thesis using heap_up_ok [OF wf1] mem by simp
qed

lemma heap_decrease_ok:
  assumes ok: "heap_ok h" and v: "v \<in> heap_members h" and d: "d \<le> hp_distances h ! v"
  defines "h1 \<equiv> h\<lparr>hp_distances := (hp_distances h)[v := d]\<rparr>"
  shows "heap_ok (fd_heap_up h1 (hp_positions h ! v)) \<and>
    heap_members (fd_heap_up h1 (hp_positions h ! v)) = heap_members h \<and>
    hp_distances (fd_heap_up h1 (hp_positions h ! v)) = (hp_distances h)[v := d] \<and>
    length (hp_nodes (fd_heap_up h1 (hp_positions h ! v))) = length (hp_nodes h)"
proof -
  have wf: "heap_wf h" using ok by (simp add: heap_ok_def)
  define c where "c = hp_positions h ! v"
  have c: "c < hp_size h" "hp_nodes h ! c = v" using wf_member [OF wf v] by (simp_all add: c_def)
  have mem: "heap_members h1 = heap_members h" by (simp add: heap_members_def h1_def)
  have vl: "v < length (hp_distances h)" using v wf by (simp add: heap_members_def heap_wf_def)
  have wf1: "heap_wf h1" using wf unfolding heap_wf_def mem by (simp add: h1_def)
  have order: "heap_above h ((i - 1) div 2) i" if "0 < i" "i < hp_size h" for i
    using ok that by (simp add: heap_ok_def heap_ordered_def)
  have node: "hp_nodes h ! i = v \<longleftrightarrow> i = c" if "i < hp_size h" for i
    using node_inj [OF wf that c(1)] c(2) by simp
  have lower: "heap_above h1 i j" if "heap_above h i j" "j \<noteq> c" "j < hp_size h" for i j
    using that vl d node [OF that(3)]
    by (auto simp: heap_above_def h1_def fd_heap_less_def Let_def nth_upd)
  have "up_inv h1 c"
    unfolding up_inv_def
  proof (intro conjI allI impI)
    fix i assume i: "0 < i \<and> i < hp_size h1 \<and> i \<noteq> c"
    then show "heap_above h1 ((i - 1) div 2) i" using order [of i] by (intro lower) (auto simp: h1_def)
  next
    fix i assume i: "0 < i \<and> i < hp_size h1 \<and> (i - 1) div 2 = c \<and> 0 < c"
    then have "heap_above h ((c - 1) div 2) i"
      using order [of c] order [of i] c(1) above_trans by (auto simp: h1_def)
    then show "heap_above h1 ((c - 1) div 2) i"
      using i parent_less [of i] by (intro lower) (auto simp: h1_def)
  qed
  then have "heap_ok (fd_heap_up h1 c) \<and> heap_members (fd_heap_up h1 c) = heap_members h1 \<and>
     hp_distances (fd_heap_up h1 c) = hp_distances h1 \<and>
     length (hp_nodes (fd_heap_up h1 c)) = length (hp_nodes h1)"
    using c(1) by (intro heap_up_ok wf1) (simp_all add: h1_def)
  then show ?thesis by (simp add: mem c_def) (simp add: h1_def)
qed

lemma heap_pop_ok:
  assumes ok: "heap_ok h" and ne: "0 < hp_size h" and pop: "fd_heap_pop h = (v, h')"
  shows "v \<in> heap_members h \<and> (\<forall>u\<in>heap_members h. hp_distances h ! v \<le> hp_distances h ! u) \<and>
    heap_ok h' \<and> heap_members h' = heap_members h - {v} \<and> hp_distances h' = hp_distances h \<and>
    length (hp_nodes h') = length (hp_nodes h)"
proof -
  have wf: "heap_wf h" using ok by (simp add: heap_ok_def)
  have v: "v = hp_nodes h ! 0" using pop by (simp add: fd_heap_pop_def Let_def split: if_splits)
  have vm: "v \<in> heap_members h" using ne by (auto simp: members_nodes [OF wf] v)
  have least: "hp_distances h ! v \<le> hp_distances h ! u" if u: "u \<in> heap_members h" for u
  proof -
    obtain i where "i < hp_size h" "u = hp_nodes h ! i" using u by (auto simp: members_nodes [OF wf])
    then show ?thesis
      using root_above [of h i] ok
      by (auto simp: heap_above_def heap_ok_def fd_heap_less_def Let_def v not_less)
  qed
  have len: "length (hp_positions h) = length (hp_nodes h)" "hp_size h \<le> length (hp_nodes h)"
    "length (hp_nodes h) < UINT32_MAX" using wf by (simp_all add: heap_wf_def)
  show ?thesis
  proof (cases "hp_size h - 1 = 0")
    case True
    then have one: "hp_size h = 1" using ne by simp
    then have h': "h' = h\<lparr>hp_size := 0, hp_positions := (hp_positions h)[v := UINT32_MAX]\<rparr>"
      using pop by (simp add: fd_heap_pop_def Let_def v)
    have m: "heap_members h = {v}" by (simp add: members_nodes [OF wf] one v lessThan_Suc)
    have "u \<in> heap_members h' \<longleftrightarrow> u \<in> heap_members h \<and> u \<noteq> v" for u
      by (auto simp: heap_members_def h' nth_upd len)
    then have "heap_members h' = {}" using m by auto
    then show ?thesis
      using vm least m wf by (simp add: heap_ok_def heap_wf_def heap_ordered_def h')
  next
    case False
    define n where "n = hp_size h - 1"
    have n: "0 < n" "n < hp_size h" "n < length (hp_nodes h)" using False ne len by (simp_all add: n_def)
    define h2 where "h2 = h\<lparr>hp_size := n, hp_nodes := (hp_nodes h)[0 := hp_nodes h ! n],
      hp_positions := (hp_positions h)[v := UINT32_MAX, hp_nodes h ! n := 0]\<rparr>"
    have h': "h' = fd_heap_down h2 0"
    proof -
      have "hp_size h - Suc 0 = n" "(hp_nodes h)[0 := x] ! 0 = x" for x
        using n len by (auto simp: n_def nth_upd)
      then show ?thesis using pop n(1) by (simp add: fd_heap_pop_def Let_def v h2_def)
    qed
    have last: "hp_nodes h ! n \<noteq> v" "hp_nodes h ! n < length (hp_nodes h)"
      using node_inj [OF wf n(2) ne] wf_node [OF wf n(2)] n(1) by (auto simp: v)
    have other: "hp_nodes h ! i \<noteq> v" "hp_nodes h ! i \<noteq> hp_nodes h ! n" if "0 < i" "i < n" for i
      using node_inj [OF wf _ ne, of i] node_inj [OF wf _ n(2), of i] that n(2) by (auto simp: v)
    have mem: "heap_members h2 = heap_members h - {v}"
    proof -
      have "hp_nodes h ! n \<in> heap_members h" using n(2) by (auto simp: members_nodes [OF wf])
      then have "u \<in> heap_members h2 \<longleftrightarrow> u \<in> heap_members h - {v}" for u
        using last len by (cases "u = v"; cases "u = hp_nodes h ! n") (simp_all add: heap_members_def h2_def nth_upd)
      then show ?thesis by blast
    qed
    have wf2: "heap_wf h2"
      unfolding heap_wf_def mem
    proof (intro conjI allI ballI impI)
      fix i assume "i < hp_size h2"
      then have i: "i < n" "i < hp_size h" using n(2) by (simp_all add: h2_def)
      show "hp_nodes h2 ! i < length (hp_nodes h2)"
        using wf_node [OF wf i(2)] last(2) n by (auto simp: h2_def nth_upd)
      show "hp_positions h2 ! (hp_nodes h2 ! i) = i"
        using wf_node [OF wf i(2)] other [of i] i last n len
        by (cases "i = 0") (auto simp: h2_def nth_upd)
    next
      fix u assume u: "u \<in> heap_members h - {v}"
      then have um: "hp_positions h ! u < hp_size h" "hp_nodes h ! (hp_positions h ! u) = u"
        using wf_member [OF wf] by auto
      have ul: "u < length (hp_positions h)" using u len by (simp add: heap_members_def)
      have "hp_positions h ! u \<noteq> 0" using um(2) u by (metis DiffE singletonI v)
      moreover have "hp_positions h ! u = n \<longleftrightarrow> u = hp_nodes h ! n"
        using um wf_node [OF wf n(2)] by auto
      ultimately show "hp_positions h2 ! u < hp_size h2" "hp_nodes h2 ! (hp_positions h2 ! u) = u"
        using um u ul n by (auto simp: h2_def nth_upd n_def)
    qed (use wf n in \<open>auto simp: h2_def heap_wf_def\<close>)
    have inv: "down_inv h2 0"
    proof -
      have "heap_above h2 ((i - 1) div 2) i" if "0 < i" "i < hp_size h2" "(i - 1) div 2 \<noteq> 0" for i
      proof -
        have "heap_above h ((i - 1) div 2) i"
          using ok that n(2) by (simp add: heap_ok_def heap_ordered_def h2_def)
        then show ?thesis using that(1,3) by (simp add: heap_above_def h2_def fd_heap_less_def)
      qed
      then show ?thesis by (simp add: down_inv_def)
    qed
    have "0 < hp_size h2" "hp_distances h2 = hp_distances h" "length (hp_nodes h2) = length (hp_nodes h)"
      using n(1) by (simp_all add: h2_def)
    then show ?thesis using heap_down_ok [OF wf2 _ inv] vm least mem by (simp add: h')
  qed
qed

section \<open>The queue the search relies on\<close>

text \<open>A new distance for a node: queue it, or move it up if it is queued already.\<close>

definition heap_offer :: "fd_heap \<Rightarrow> nat \<Rightarrow> u32 \<Rightarrow> fd_heap" where
  "heap_offer heap neighbor candidate =
     (let heap1 = heap\<lparr>hp_distances := (hp_distances heap)[neighbor := candidate]\<rparr>
      in if hp_positions heap1 ! neighbor = UINT32_MAX then fd_heap_insert heap1 neighbor
         else fd_heap_up heap1 (hp_positions heap1 ! neighbor))"

lemma heap_offer_ok:
  assumes ok: "heap_ok h" and v: "v < length (hp_nodes h)"
    and d: "v \<in> heap_members h \<Longrightarrow> d \<le> hp_distances h ! v"
  shows "heap_ok (heap_offer h v d) \<and> heap_members (heap_offer h v d) = insert v (heap_members h) \<and>
    hp_distances (heap_offer h v d) = (hp_distances h)[v := d] \<and>
    length (hp_nodes (heap_offer h v d)) = length (hp_nodes h)"
proof (cases "v \<in> heap_members h")
  case True
  then have "hp_positions h ! v \<noteq> UINT32_MAX" by (simp add: heap_members_def)
  then show ?thesis
    using heap_decrease_ok [OF ok True d [OF True]] True
    by (simp add: heap_offer_def Let_def insert_absorb)
next
  case False
  define h1 where "h1 = h\<lparr>hp_distances := (hp_distances h)[v := d]\<rparr>"
  have mem: "heap_members h1 = heap_members h" by (simp add: heap_members_def h1_def)
  have pos: "hp_positions h ! v = UINT32_MAX" using False v by (simp add: heap_members_def)
  have wf: "heap_wf h" using ok by (simp add: heap_ok_def)
  have wf1: "heap_wf h1" using wf unfolding heap_wf_def mem by (simp add: h1_def)
  have node: "hp_nodes h ! i \<noteq> v" if "i < hp_size h" for i
    using False that by (auto simp: members_nodes [OF wf])
  have "heap_above h1 ((i - 1) div 2) i" if "0 < i" "i < hp_size h1" for i
  proof -
    have "heap_above h ((i - 1) div 2) i" using ok that by (simp add: heap_ok_def heap_ordered_def h1_def)
    moreover have "(i - 1) div 2 < hp_size h" "i < hp_size h" using that by (auto simp: h1_def)
    ultimately show ?thesis using node [of i] node [of "(i - 1) div 2"]
      by (simp add: heap_above_def h1_def fd_heap_less_def nth_list_update_neq [of v])
  qed
  then have "heap_ok h1" using wf1 by (simp add: heap_ok_def heap_ordered_def)
  then show ?thesis
    using heap_insert_ok [of h1 v] v False pos mem by (simp add: heap_offer_def Let_def h1_def)
qed

locale min_queue =
  fixes valid :: "'q \<Rightarrow> bool" and members :: "'q \<Rightarrow> nat set" and key :: "'q \<Rightarrow> nat \<Rightarrow> u32"
    and capacity :: "'q \<Rightarrow> nat" and offer :: "'q \<Rightarrow> nat \<Rightarrow> u32 \<Rightarrow> 'q" and pop :: "'q \<Rightarrow> nat \<times> 'q"
    and empty :: "'q \<Rightarrow> bool"
  assumes members_below: "valid q \<Longrightarrow> members q \<subseteq> {..<capacity q}"
    and empty_iff: "valid q \<Longrightarrow> empty q \<longleftrightarrow> members q = {}"
    and offer_spec: "valid q \<Longrightarrow> v < capacity q \<Longrightarrow> v \<in> members q \<longrightarrow> d \<le> key q v \<Longrightarrow>
       valid (offer q v d) \<and> members (offer q v d) = insert v (members q) \<and>
       key (offer q v d) = (key q)(v := d) \<and> capacity (offer q v d) = capacity q"
    and pop_spec: "valid q \<Longrightarrow> \<not> empty q \<Longrightarrow> pop q = (v, q') \<Longrightarrow>
       v \<in> members q \<and> (\<forall>u\<in>members q. key q v \<le> key q u) \<and> valid q' \<and>
       members q' = members q - {v} \<and> key q' = key q \<and> capacity q' = capacity q"

definition heap_key :: "fd_heap \<Rightarrow> nat \<Rightarrow> u32" where
  "heap_key h = (\<lambda>v. hp_distances h ! v)"

interpretation heap: min_queue heap_ok heap_members heap_key "\<lambda>h. length (hp_nodes h)"
  heap_offer fd_heap_pop "\<lambda>h. hp_size h = 0"
proof unfold_locales
  show "heap_ok h \<Longrightarrow> heap_members h \<subseteq> {..<length (hp_nodes h)}" for h by (rule members_bound)
  show "heap_ok h \<Longrightarrow> (hp_size h = 0) = (heap_members h = {})" for h
    using card_members [of h] by (auto simp: heap_ok_def)
next
  fix h v d assume ok: "heap_ok h" and v: "v < length (hp_nodes h)"
    and d: "v \<in> heap_members h \<longrightarrow> d \<le> heap_key h v"
  have "length (hp_distances h) = length (hp_nodes h)" using ok by (simp add: heap_ok_def heap_wf_def)
  then show "heap_ok (heap_offer h v d) \<and> heap_members (heap_offer h v d) = insert v (heap_members h) \<and>
      heap_key (heap_offer h v d) = (heap_key h)(v := d) \<and>
      length (hp_nodes (heap_offer h v d)) = length (hp_nodes h)"
    using heap_offer_ok [OF ok v, of d] d v by (auto simp: heap_key_def fun_eq_iff nth_upd)
next
  fix h v h' assume "heap_ok h" "\<not> hp_size h = 0" "fd_heap_pop h = (v, h')"
  then show "v \<in> heap_members h \<and> (\<forall>u\<in>heap_members h. heap_key h v \<le> heap_key h u) \<and>
      heap_ok h' \<and> heap_members h' = heap_members h - {v} \<and> heap_key h' = heap_key h \<and>
      length (hp_nodes h') = length (hp_nodes h)"
    using heap_pop_ok [of h v h'] by (auto simp: heap_key_def)
qed

end
