(* ===== verification/FD_Search.thy ===== *)
theory FD_Search
  imports FD_Heap
begin

text \<open>
  Cheapest corridors over a \<open>min_queue\<close>: what the search loop of \<open>fd_construct_road\<close> maintains,
  proved once for any queue that keeps the laws, any neighbourhood relation and any bounded cost of
  entering a node.  \<open>-1\<close> (\<open>UINT32_MAX\<close>) is "impassable" as a cost and "not reached" as a distance.
\<close>

text \<open>\<open>corridor edge cost start p c\<close>: a walk \<open>p\<close> from \<open>start\<close>, each later node enterable, entered for \<open>c\<close> in all.\<close>

inductive corridor :: "(nat \<Rightarrow> nat \<Rightarrow> bool) \<Rightarrow> (nat \<Rightarrow> u32) \<Rightarrow> nat \<Rightarrow> nat list \<Rightarrow> nat \<Rightarrow> bool"
  for edge cost start where
  base: "corridor edge cost start [start] 0"
| step: "corridor edge cost start p c \<Longrightarrow> edge (last p) v \<Longrightarrow> cost v \<noteq> - 1 \<Longrightarrow>
    corridor edge cost start (p @ [v]) (c + unat (cost v))"

lemma unat_max_u32: "unat (- 1 :: u32) = 4294967295"
  by (simp add: unsigned_minus_1_eq_mask mask_eq_exp_minus_1)

lemma corridor_nonempty: "corridor edge cost start p c \<Longrightarrow> p \<noteq> []"
  by (induction rule: corridor.induct) auto

locale corridor_search = min_queue valid members key capacity offer pop empty
  for valid :: "'q \<Rightarrow> bool" and members :: "'q \<Rightarrow> nat set" and key :: "'q \<Rightarrow> nat \<Rightarrow> u32"
    and capacity :: "'q \<Rightarrow> nat" and offer :: "'q \<Rightarrow> nat \<Rightarrow> u32 \<Rightarrow> 'q" and pop :: "'q \<Rightarrow> nat \<times> 'q"
    and empty :: "'q \<Rightarrow> bool" +
  fixes edge :: "nat \<Rightarrow> nat \<Rightarrow> bool" and cost :: "nat \<Rightarrow> u32"
  assumes cost_bound: "cost v \<noteq> - 1 \<Longrightarrow> 1 \<le> unat (cost v) \<and> unat (cost v) \<le> 32"
begin

text \<open>The reached nodes that have left the queue.\<close>

definition settled :: "'q \<Rightarrow> nat set" where
  "settled q = {v. v < capacity q \<and> key q v \<noteq> - 1 \<and> v \<notin> members q}"

text \<open>\<open>tree q P\<close>: the distances are those of the walks back along \<open>P\<close>.\<close>

definition tree :: "nat \<Rightarrow> 'q \<Rightarrow> (nat \<Rightarrow> nat) \<Rightarrow> bool" where
  "tree start q P \<longleftrightarrow> start < capacity q \<and> key q start = 0 \<and>
     (\<forall>v<capacity q. v \<noteq> start \<and> key q v \<noteq> - 1 \<longrightarrow>
        P v \<in> settled q \<and> edge (P v) v \<and> cost v \<noteq> - 1 \<and>
        unat (key q v) = unat (key q (P v)) + unat (cost v))"

text \<open>\<open>search_inv\<close>: \<open>done\<close> holds the edges that have been relaxed.\<close>

definition search_inv :: "nat \<Rightarrow> 'q \<Rightarrow> (nat \<Rightarrow> nat) \<Rightarrow> (nat \<times> nat) set \<Rightarrow> bool" where
  "search_inv start q P relaxed \<longleftrightarrow>
     valid q \<and> capacity q \<le> 32768 \<and> tree start q P \<and>
     (\<forall>v\<in>members q. key q v \<noteq> - 1) \<and>
     (\<forall>u\<in>settled q. \<forall>v\<in>members q. key q u \<le> key q v) \<and>
     (\<forall>v<capacity q. key q v \<noteq> - 1 \<longrightarrow> unat (key q v) \<le> 32 * card (settled q)) \<and>
     (\<forall>(u, v)\<in>relaxed. u \<in> settled q \<and>
        (v < capacity q \<and> cost v \<noteq> - 1 \<longrightarrow> unat (key q v) \<le> unat (key q u) + unat (cost v)))"

definition open_edges :: "'q \<Rightarrow> (nat \<times> nat) set" where
  "open_edges q = {(u, v). u \<in> settled q \<and> v < capacity q \<and> edge u v}"

lemma settled_bound: "settled q \<subseteq> {..<capacity q}"
  by (auto simp: settled_def)

lemma finite_settled [simp]: "finite (settled q)"
  by (rule finite_subset [OF settled_bound]) simp

lemma card_settled: "card (settled q) \<le> capacity q"
  using card_mono [OF _ settled_bound [of q]] by simp

lemma reached_cases: "v < capacity q \<Longrightarrow> key q v \<noteq> - 1 \<Longrightarrow> v \<in> settled q \<or> v \<in> members q"
  by (simp add: settled_def)

lemma inv_pop:
  assumes inv: "search_inv start q P relaxed" and ne: "\<not> empty q" and pop: "pop q = (u, q')"
  shows "search_inv start q' P relaxed" "settled q' = insert u (settled q)" "u \<notin> settled q"
    "u < capacity q" "capacity q' = capacity q" "members q' = members q - {u}" "key q' = key q"
    "\<forall>s\<in>settled q'. key q s \<le> key q u" "unat (key q u) \<le> 32 * card (settled q)" "key q u \<noteq> - 1"
    "\<forall>m\<in>members q. key q u \<le> key q m"
proof -
  have valid: "valid q" and cap: "capacity q \<le> 32768" using inv by (simp_all add: search_inv_def)
  note ps = pop_spec [OF valid ne pop]
  show m: "members q' = members q - {u}" and k: "key q' = key q" and c: "capacity q' = capacity q"
    using ps by simp_all
  have um: "u \<in> members q" using ps by simp
  then show uc: "u < capacity q" using members_below [OF valid] by auto
  show uk: "key q u \<noteq> - 1" using inv um by (simp add: search_inv_def)
  show us: "u \<notin> settled q" using um by (simp add: settled_def)
  show st: "settled q' = insert u (settled q)" using um uc uk m k c by (auto simp: settled_def)
  have before: "\<forall>s\<in>settled q. key q s \<le> key q u" using inv um by (simp add: search_inv_def)
  then show "\<forall>s\<in>settled q'. key q s \<le> key q u" by (simp add: st)
  show "unat (key q u) \<le> 32 * card (settled q)" using inv uc uk by (simp add: search_inv_def)
  show least: "\<forall>m\<in>members q. key q u \<le> key q m" using ps by simp
  have tr: "tree start q' P"
    using inv by (auto simp: search_inv_def tree_def st k c)
  have card: "card (settled q') = Suc (card (settled q))" using us by (simp add: st)
  have grow: "\<forall>v<capacity q. key q v \<noteq> - 1 \<longrightarrow> unat (key q v) \<le> 32 * card (settled q')"
    using inv by (auto simp: search_inv_def card intro: order_trans)
  have order: "\<forall>s\<in>settled q'. \<forall>v\<in>members q'. key q' s \<le> key q' v"
    using inv least by (auto simp: search_inv_def st m k)
  show "search_inv start q' P relaxed"
    unfolding search_inv_def k c
    using ps cap tr grow order inv by (fastforce simp: search_inv_def st m k)
qed

text \<open>One relaxation of the edge from \<open>u\<close>, the node settled last, to \<open>v\<close>.\<close>

definition relaxation :: "nat \<Rightarrow> nat \<Rightarrow> 'q \<times> (nat \<Rightarrow> nat) \<Rightarrow> 'q \<times> (nat \<Rightarrow> nat)" where
  "relaxation u v = (\<lambda>(q, P).
     if cost v = - 1 \<or> key q u = - 1 \<or> key q u > - 1 - cost v then (q, P)
     else if key q u + cost v < key q v \<or> (key q u + cost v = key q v \<and> u < P v)
     then (offer q v (key q u + cost v), P(v := u)) else (q, P))"

text \<open>\<open>expanding u q\<close>: \<open>u\<close> is settled, every other settled node was no farther.\<close>

definition expanding :: "nat \<Rightarrow> 'q \<Rightarrow> bool" where
  "expanding u q \<longleftrightarrow> u \<in> settled q \<and> (\<forall>s\<in>settled q. key q s \<le> key q u) \<and>
     unat (key q u) + 32 \<le> 32 * card (settled q)"

lemma relaxation_inv:
  assumes inv: "search_inv start q P relaxed" and ex: "expanding u q"
    and v: "v < capacity q" and edge: "edge u v" and res: "relaxation u v (q, P) = (q', P')"
  shows "search_inv start q' P' (insert (u, v) relaxed) \<and> expanding u q' \<and> settled q' = settled q \<and>
    capacity q' = capacity q"
proof (cases "cost v = - 1")
  case True
  then have "q' = q" "P' = P" using res by (simp_all add: relaxation_def)
  then show ?thesis using inv ex True by (auto simp: search_inv_def expanding_def)
next
  case False
  note cb = cost_bound [OF False]
  have us: "u \<in> settled q" "unat (key q u) + 32 \<le> 32 * card (settled q)"
    using ex by (simp_all add: expanding_def)
  have "card (settled q) \<le> 32768" using card_settled [of q] inv by (simp add: search_inv_def)
  then have small: "unat (key q u) + unat (cost v) \<le> 32 * 32768" using us(2) cb by linarith
  have cand: "unat (key q u + cost v) = unat (key q u) + unat (cost v)"
    using small by (intro unat_add_lem [THEN iffD1]) simp
  have guard: "\<not> key q u > - 1 - cost v"
  proof -
    have "unat (- 1 - cost v) = 4294967295 - unat (cost v)"
      using unat_lt_u32 [of "cost v"] by (simp add: unat_sub_if' unat_max_u32)
    then show ?thesis using small by (simp add: not_less word_le_nat_alt)
  qed
  have uk: "key q u \<noteq> - 1" using us(1) by (simp add: settled_def)
  define d where "d = key q u + cost v"
  have d: "unat d = unat (key q u) + unat (cost v)" "d \<noteq> - 1"
    using cand small by (auto simp: d_def unat_max_u32)
  have ud: "key q u < d" using d(1) cb by (simp add: word_less_nat_alt)
  have res': "(q', P') = (if d < key q v \<or> (d = key q v \<and> u < P v) then (offer q v d, P(v := u)) else (q, P))"
    using res False uk guard by (auto simp: relaxation_def d_def)
  show ?thesis
  proof (cases "d < key q v \<or> (d = key q v \<and> u < P v)")
    case False
    then have q': "q' = q" "P' = P" using res' by (auto split: if_splits)
    have "key q v \<le> d" using False by auto
    then have "unat (key q v) \<le> unat (key q u) + unat (cost v)"
      using d(1) by (simp add: word_le_nat_alt)
    then show ?thesis using inv ex us(1) by (auto simp: q' search_inv_def)
  next
    case True
    then have q': "q' = offer q v d" "P' = P(v := u)" using res' by simp_all
    have dk: "d \<le> key q v" using True by auto
    have valid: "valid q" using inv by (simp add: search_inv_def)
    have os: "valid q'" "members q' = insert v (members q)" "key q' = (key q)(v := d)" "capacity q' = capacity q"
      using offer_spec [OF valid v, of d] dk by (simp_all add: q')
    have vs: "v \<notin> settled q"
    proof
      assume "v \<in> settled q"
      then have "key q v \<le> key q u" using ex by (simp add: expanding_def)
      then show False using ud dk by simp
    qed
    have uv: "u \<noteq> v" using us(1) vs by auto
    have start: "v \<noteq> start"
    proof
      assume "v = start"
      then have "key q v = 0" using inv by (simp add: search_inv_def tree_def)
      then show False using dk ud by simp
    qed
    have st: "settled q' = settled q"
      using vs v by (auto simp: settled_def os d(2))
    have keep: "key q' s = key q s" if "s \<in> settled q" for s using that vs by (auto simp: os)
    have old_tree: "tree start q P" using inv by (simp add: search_inv_def)
    have tr: "tree start q' P'"
      unfolding tree_def
    proof (intro conjI allI impI)
      show "start < capacity q'" "key q' start = 0"
        using old_tree start by (simp_all add: tree_def os)
    next
      fix w assume w: "w < capacity q'" "w \<noteq> start \<and> key q' w \<noteq> - 1"
      have *: "P' w \<in> settled q \<and> edge (P' w) w \<and> cost w \<noteq> - 1 \<and>
          unat (key q' w) = unat (key q (P' w)) + unat (cost w)"
      proof (cases "w = v")
        case True
        then show ?thesis using us(1) edge \<open>cost v \<noteq> - 1\<close> d(1) by (simp add: q'(2) os(3))
      next
        case False
        then show ?thesis using old_tree w by (simp add: tree_def q'(2) os(3,4))
      qed
      then show "P' w \<in> settled q'" "edge (P' w) w" "cost w \<noteq> - 1"
        "unat (key q' w) = unat (key q' (P' w)) + unat (cost w)" by (simp_all add: st keep)
    qed
    have order: "\<forall>s\<in>settled q'. \<forall>m\<in>members q'. key q' s \<le> key q' m"
    proof (intro ballI)
      fix s m assume s: "s \<in> settled q'" and m: "m \<in> members q'"
      have "key q s \<le> key q u" using s ex by (simp add: st expanding_def)
      then have "key q s \<le> d" using ud by simp
      moreover have "key q s \<le> key q m" if "m \<noteq> v"
        using inv s m that by (simp add: search_inv_def st os)
      ultimately show "key q' s \<le> key q' m" using keep [of s] s by (simp add: st os(3))
    qed
    have bound: "\<forall>w<capacity q'. key q' w \<noteq> - 1 \<longrightarrow> unat (key q' w) \<le> 32 * card (settled q')"
      using inv us(2) cb d(1) by (simp add: search_inv_def st os)
    have rel: "\<forall>(a, b)\<in>insert (u, v) relaxed. a \<in> settled q' \<and>
        (b < capacity q' \<and> cost b \<noteq> - 1 \<longrightarrow> unat (key q' b) \<le> unat (key q' a) + unat (cost b))"
    proof (intro ballI, clarify)
      fix a b assume ab: "(a, b) \<in> insert (u, v) relaxed"
      then have as: "a \<in> settled q" using inv us(1) by (auto simp: search_inv_def)
      moreover have "unat (key q' b) \<le> unat (key q' a) + unat (cost b)"
        if b: "b < capacity q'" "cost b \<noteq> - 1"
      proof (cases "(a, b) = (u, v)")
        case True
        then show ?thesis using d(1) uv by (simp add: os)
      next
        case False
        then have "unat (key q b) \<le> unat (key q a) + unat (cost b)"
          using inv ab b by (auto simp: search_inv_def os)
        moreover have "unat (key q' b) \<le> unat (key q b)" using dk by (simp add: os word_le_nat_alt)
        ultimately show ?thesis using keep [OF as] by simp
      qed
      ultimately show "a \<in> settled q' \<and>
        (b < capacity q' \<and> cost b \<noteq> - 1 \<longrightarrow> unat (key q' b) \<le> unat (key q' a) + unat (cost b))"
        by (simp add: st)
    qed
    have "search_inv start q' P' (insert (u, v) relaxed)"
      unfolding search_inv_def using os tr order bound rel inv d(2) by (simp add: search_inv_def)
    moreover have "expanding u q'" using ex us(1) keep by (simp add: expanding_def st)
    ultimately show ?thesis by (simp add: st os)
  qed
qed

lemma relaxations_inv:
  "search_inv start q P relaxed \<Longrightarrow> expanding u q \<Longrightarrow> (\<forall>v\<in>set vs. v < capacity q \<and> edge u v) \<Longrightarrow>
   fold (relaxation u) vs (q, P) = (q', P') \<Longrightarrow>
   search_inv start q' P' (Pair u ` set vs \<union> relaxed) \<and> settled q' = settled q \<and> capacity q' = capacity q"
proof (induction vs arbitrary: q P relaxed)
  case (Cons v vs)
  obtain q1 P1 where r: "relaxation u v (q, P) = (q1, P1)" by (metis prod.exhaust)
  have one: "search_inv start q1 P1 (insert (u, v) relaxed) \<and> expanding u q1 \<and> settled q1 = settled q \<and>
      capacity q1 = capacity q"
    using Cons.prems(3) by (intro relaxation_inv [OF Cons.prems(1,2) _ _ r]) auto
  then have "search_inv start q' P' (Pair u ` set vs \<union> insert (u, v) relaxed) \<and>
      settled q' = settled q1 \<and> capacity q' = capacity q1"
    using Cons.prems(3,4) by (intro Cons.IH) (auto simp: r)
  then show ?case using one by (simp add: Un_insert_right)
qed (simp add: image_def)

text \<open>The queue holds a node no farther than any corridor that has not been overtaken.\<close>

lemma corridor_frontier:
  assumes inv: "search_inv start q P (open_edges q)"
    and inside: "\<forall>u v. edge u v \<longrightarrow> v < capacity q"
    and "corridor edge cost start p c"
  shows "last p < capacity q \<and> ((last p \<in> settled q \<and> unat (key q (last p)) \<le> c) \<or>
    (\<exists>m\<in>members q. unat (key q m) \<le> c))"
  using assms(3)
proof (induction rule: corridor.induct)
  case base
  have "start < capacity q" "key q start = 0" using inv by (simp_all add: search_inv_def tree_def)
  then show ?case using reached_cases [of start q] by (cases "start \<in> settled q") force+
next
  case (step p c v)
  have v: "v < capacity q" using step.hyps inside by blast
  show ?case
  proof (cases "\<exists>m\<in>members q. unat (key q m) \<le> c")
    case True
    then show ?thesis using v by (auto intro: trans_le_add1)
  next
    case False
    then have s: "last p \<in> settled q" "unat (key q (last p)) \<le> c" using step.IH by auto
    have "(last p, v) \<in> open_edges q" using s(1) v step.hyps by (simp add: open_edges_def)
    then have le: "unat (key q v) \<le> unat (key q (last p)) + unat (cost v)"
      using inv v step.hyps by (auto simp: search_inv_def)
    have "unat (key q (last p)) \<le> 32 * card (settled q)"
      using inv s(1) by (auto simp: search_inv_def settled_def)
    moreover have "card (settled q) \<le> 32768" using card_settled [of q] inv by (simp add: search_inv_def)
    ultimately have "unat (key q v) \<le> 32 * 32768 + 32"
      using le cost_bound [OF step.hyps(3)] by linarith
    then have "key q v \<noteq> - 1" by (auto simp: unat_max_u32)
    then have "v \<in> settled q \<or> v \<in> members q" by (rule reached_cases [OF v])
    moreover have "unat (key q v) \<le> c + unat (cost v)" using le s(2) by simp
    ultimately show ?thesis using v by auto
  qed
qed

text \<open>Walking back along \<open>P\<close> from a reached node retraces a corridor of exactly its distance.\<close>

lemma tree_walk:
  assumes tr: "tree start q P" and "v < capacity q" "key q v \<noteq> - 1"
  shows "\<exists>p. corridor edge cost start p (unat (key q v)) \<and> last p = v \<and> hd p = start \<and>
    sorted_wrt (\<lambda>a b. unat (key q a) < unat (key q b)) p \<and> set p \<subseteq> {..<capacity q} \<and>
    (\<forall>i. Suc i < length p \<longrightarrow> p ! i = P (p ! Suc i) \<and> p ! Suc i \<noteq> start)"
  using assms(2,3)
proof (induction "unat (key q v)" arbitrary: v rule: less_induct)
  case less
  show ?case
  proof (cases "v = start")
    case True
    then have "key q v = 0" using tr by (simp add: tree_def)
    then show ?thesis using True less.prems corridor.base [of edge cost start]
      by (intro exI [of _ "[start]"]) simp
  next
    case False
    then have P: "P v \<in> settled q" "edge (P v) v" "cost v \<noteq> - 1"
      "unat (key q v) = unat (key q (P v)) + unat (cost v)"
      using tr less.prems by (simp_all add: tree_def)
    have lt: "unat (key q (P v)) < unat (key q v)" using P cost_bound [of v] by simp
    have "P v < capacity q" "key q (P v) \<noteq> - 1" using P(1) by (simp_all add: settled_def)
    from less.hyps [OF lt this] obtain p where p: "corridor edge cost start p (unat (key q (P v)))"
      "last p = P v" "hd p = start" "sorted_wrt (\<lambda>a b. unat (key q a) < unat (key q b)) p"
      "set p \<subseteq> {..<capacity q}"
      "\<forall>i. Suc i < length p \<longrightarrow> p ! i = P (p ! Suc i) \<and> p ! Suc i \<noteq> start" by blast
    have ne: "p \<noteq> []" by (rule corridor_nonempty [OF p(1)])
    have below: "unat (key q a) < unat (key q v)" if a: "a \<in> set p" for a
    proof -
      obtain i where i: "i < length p" "a = p ! i" using a unfolding in_set_conv_nth by blast
      have "unat (key q a) \<le> unat (key q (last p))"
      proof (cases "i = length p - 1")
        case True
        then show ?thesis using i ne by (simp add: last_conv_nth)
      next
        case False
        then have "i < length p - 1" using i by linarith
        then show ?thesis
          using sorted_wrt_nth_less [OF p(4), of i "length p - 1"] i ne
          by (simp add: last_conv_nth)
      qed
      then show ?thesis using lt p(2) by simp
    qed
    have "corridor edge cost start (p @ [v]) (unat (key q v))"
      using corridor.step [OF p(1), of v] P p(2) by simp
    moreover have "(p @ [v]) ! i = P ((p @ [v]) ! Suc i) \<and> (p @ [v]) ! Suc i \<noteq> start"
      if "Suc i < length (p @ [v])" for i
    proof (cases "Suc i < length p")
      case True
      then show ?thesis using p(6) by (simp add: nth_append)
    next
      case last: False
      then have i: "Suc i = length p" using that by simp
      then have "i = length p - 1" by simp
      then have "(p @ [v]) ! i = last p" using ne by (simp add: nth_append last_conv_nth)
      then show ?thesis using p(2) False i by (simp add: nth_append)
    qed
    ultimately show ?thesis
      using p below less.prems ne
      by (intro exI [of _ "p @ [v]"]) (auto simp: sorted_wrt_append)
  qed
qed

text \<open>A whole round of the loop: pop a node, relax its edges.\<close>

lemma inv_expand:
  assumes inv: "search_inv start q P (open_edges q)" and ne: "\<not> empty q" and pop: "pop q = (u, q1)"
    and vs: "set vs = {v. v < capacity q \<and> edge u v}"
    and res: "fold (relaxation u) vs (q1, P) = (q2, P2)"
  shows "search_inv start q2 P2 (open_edges q2)" "settled q2 = insert u (settled q)" "u \<notin> settled q"
    "u < capacity q" "capacity q2 = capacity q"
proof -
  note ip = inv_pop [OF inv ne pop]
  show "u \<notin> settled q" "u < capacity q" by (fact ip)+
  have "card (settled q1) = Suc (card (settled q))" using ip(2,3) by simp
  then have "expanding u q1"
    unfolding expanding_def using ip(2,7,8,9) by simp
  then have fin: "search_inv start q2 P2 (Pair u ` set vs \<union> open_edges q) \<and> settled q2 = settled q1 \<and>
      capacity q2 = capacity q1"
    using vs ip(5) by (intro relaxations_inv [OF ip(1) _ _ res]) auto
  then show "settled q2 = insert u (settled q)" "capacity q2 = capacity q"
    using ip(2,5) by simp_all
  then have "open_edges q2 = Pair u ` set vs \<union> open_edges q"
    using vs by (auto simp: open_edges_def)
  then show "search_inv start q2 P2 (open_edges q2)" using fin by simp
qed

text \<open>What the search leaves behind: the tree, and for the goal the least cost of all corridors.\<close>

definition search_result :: "nat \<Rightarrow> nat \<Rightarrow> 'q \<Rightarrow> (nat \<Rightarrow> nat) \<Rightarrow> bool" where
  "search_result start goal q P \<longleftrightarrow> tree start q P \<and>
     (\<forall>p c. corridor edge cost start p c \<longrightarrow> last p = goal \<longrightarrow> key q goal \<noteq> - 1 \<and> unat (key q goal) \<le> c)"

lemma result_found:
  assumes inv: "search_inv start q P (open_edges q)" and ne: "\<not> empty q" and pop: "pop q = (goal, q')"
    and inside: "\<forall>u v. edge u v \<longrightarrow> v < capacity q"
  shows "search_result start goal q' P"
proof -
  note ip = inv_pop [OF inv ne pop]
  have "unat (key q goal) \<le> c" if p: "corridor edge cost start p c" "last p = goal" for p c
  proof -
    obtain m where "m \<in> members q" "unat (key q m) \<le> c"
      using corridor_frontier [OF inv inside p(1)] p(2) ip(3) by blast
    moreover have "key q goal \<le> key q m" using ip(11) \<open>m \<in> members q\<close> by blast
    ultimately show ?thesis by (simp add: word_le_nat_alt)
  qed
  then show ?thesis using ip(1,7,10) by (simp add: search_result_def search_inv_def)
qed

lemma result_exhausted:
  assumes inv: "search_inv start q P (open_edges q)" and emp: "empty q"
    and inside: "\<forall>u v. edge u v \<longrightarrow> v < capacity q"
  shows "search_result start goal q P"
proof -
  have "valid q" using inv by (simp add: search_inv_def)
  then have "members q = {}" using emp empty_iff by simp
  then have "last p \<in> settled q \<and> unat (key q (last p)) \<le> c" if "corridor edge cost start p c" for p c
    using corridor_frontier [OF inv inside that] by blast
  then show ?thesis using inv by (auto simp: search_result_def search_inv_def settled_def)
qed

end

end
