(* ===== verification/FD_Road.thy ===== *)
theory FD_Road
  imports FD_Search FD_Draw FD_Path
begin

text \<open>
  The road of a generated world: \<open>fd_construct_road\<close> of \<^verbatim>\<open>src/core/fd_generate.c\<close>, a cheapest-path
  search over the land tiles from the coastal to the inland settlement with the heap of \<open>FD_Heap\<close>,
  and the walk back that marks the road.  The search loop may in general run for ever, so it is a
  partial function; it is proved to return.
\<close>

unbundle bit_operations_syntax

section \<open>The cost of entering a tile\<close>

definition road_base :: "u32 \<Rightarrow> u32 option" where
  "road_base terrain =
     (if terrain = FD_TERRAIN_SETTLEMENT then Some 1
      else if terrain = FD_TERRAIN_GRASSLAND then Some 2
      else if terrain = FD_TERRAIN_FOREST then Some 4
      else if terrain = FD_TERRAIN_HILLS then Some 7
      else if terrain = FD_TERRAIN_WETLANDS then Some 8
      else None)"

definition fd_road_cost :: "fd_world \<Rightarrow> nat \<Rightarrow> u64 \<Rightarrow> u32" where
  "fd_road_cost w index attempt =
     (case road_base (terrain_at w index) of
        None \<Rightarrow> - 1
      | Some base0 \<Rightarrow>
          let base = (if has_overlay w FD_TILE_OVERLAY_RIVER index then base0 + 20 else base0);
              random = fd_rng_u32 (world_scope w FD_RNG_DOMAIN_ROAD_CANDIDATE (of_nat index) attempt 0
                                     FD_RNG_SITE_ROAD_TIE)
          in base + (if random < 0x80000000 then 0 else 1))"

section \<open>The search\<close>

text \<open>The distance array is the one inside the heap, as in the code.\<close>

definition fd_relax_road_neighbor ::
    "fd_world \<Rightarrow> nat \<Rightarrow> u64 \<Rightarrow> nat \<Rightarrow> fd_heap \<times> nat list \<Rightarrow> fd_heap \<times> nat list" where
  "fd_relax_road_neighbor w current attempt neighbor = (\<lambda>(heap, previous).
     let cost = fd_road_cost w neighbor attempt;
         distances = hp_distances heap
     in if cost = - 1 \<or> distances ! current = - 1 \<or> distances ! current > - 1 - cost
        then (heap, previous)
        else
          let candidate = distances ! current + cost
          in if candidate < distances ! neighbor \<or>
                (candidate = distances ! neighbor \<and> current < previous ! neighbor)
             then (heap_offer heap neighbor candidate, previous[neighbor := current])
             else (heap, previous))"

definition road_expand ::
    "fd_world \<Rightarrow> u64 \<Rightarrow> nat \<Rightarrow> fd_heap \<times> nat list \<Rightarrow> fd_heap \<times> nat list" where
  "road_expand w attempt current s =
     (let width = grid_width w; height = grid_height w;
          x = current mod width; y = current div width;
          relax = fd_relax_road_neighbor w current attempt;
          s1 = (if y > 0 then relax (current - width) s else s);
          s2 = (if x > 0 then relax (current - 1) s1 else s1);
          s3 = (if x + 1 < width then relax (current + 1) s2 else s2)
      in if y + 1 < height then relax (current + width) s3 else s3)"

partial_function (option) road_search ::
    "fd_world \<Rightarrow> u64 \<Rightarrow> nat \<Rightarrow> fd_heap \<times> nat list \<Rightarrow> (fd_heap \<times> nat list) option" where
  "road_search w attempt goal s =
     (if hp_size (fst s) = 0 then Some s
      else case fd_heap_pop (fst s) of (current, heap) \<Rightarrow>
        if current = goal then Some (heap, snd s)
        else road_search w attempt goal (road_expand w attempt current (heap, snd s)))"

section \<open>Walking back\<close>

text \<open>\<open>(result, world, count, intersection)\<close> when the loop is left.\<close>

function road_trace ::
    "nat list \<Rightarrow> nat \<Rightarrow> nat \<Rightarrow> nat \<Rightarrow> nat \<Rightarrow> fd_world \<Rightarrow> fd_result \<times> fd_world \<times> nat \<times> nat" where
  "road_trace previous start current count0 intersection w =
     (let w1 = tile_update current
                 (\<lambda>t. t\<lparr>tl_overlays := tl_overlays t OR FD_TILE_OVERLAY_ROAD_CANDIDATE\<rparr>) w;
          river = has_overlay w1 FD_TILE_OVERLAY_RIVER current
      in if river \<and> intersection \<noteq> UINT32_MAX
         then (FD_ERR_GENERATION_EXHAUSTED, w1, count0, intersection)
         else
           let intersection' = (if river then current else intersection);
               count' = count0 + 1
           in if current = start then (FD_OK, w1, count', intersection')
              else
                let current' = previous ! current
                in if current' = UINT32_MAX \<or> count' > unat (w_tile_count w)
                   then (FD_ERR_INTERNAL, w1, count', intersection')
                   else road_trace previous start current' count' intersection' w1)"
  by pat_completeness auto
termination
  by (relation "measure (\<lambda>(previous, start, current, count0, intersection, w).
        unat (w_tile_count w) + 1 - count0)") auto

declare road_trace.simps [simp del]

section \<open>The whole construction\<close>

text \<open>The four working arrays: each is asked for, and on every exit those that were given go back.\<close>

definition free_arrays :: "u64 \<Rightarrow> bool list \<Rightarrow> 'u fd_context \<Rightarrow> 'u fd_context" where
  "free_arrays array_bytes given =
     fold (\<lambda>g c. if g then fd_context_free c array_bytes else c) given"

definition road_heap :: "nat \<Rightarrow> nat \<Rightarrow> fd_heap" where
  "road_heap n start = fd_heap_insert
     \<lparr>hp_nodes = replicate n 0, hp_positions = replicate n UINT32_MAX,
      hp_distances = (replicate n (- 1))[start := 0], hp_size = 0\<rparr> start"

definition road_finish :: "fd_world \<Rightarrow> nat \<Rightarrow> nat \<Rightarrow> fd_world" where
  "road_finish w count0 intersection =
     (if intersection \<noteq> UINT32_MAX
      then tile_update intersection (\<lambda>t. t\<lparr>tl_overlays := tl_overlays t OR FD_TILE_ROAD_CROSSING\<rparr>) w
      else w)\<lparr>w_road_tile_count := of_nat count0\<rparr>"

definition fd_construct_road ::
    "'u fd_context \<Rightarrow> fd_world \<Rightarrow> nat \<Rightarrow> nat \<Rightarrow> u64 \<Rightarrow> (fd_result \<times> 'u fd_context \<times> fd_world) option" where
  "fd_construct_road ctx w start goal attempt =
     (let n = unat (w_tile_count w);
          array_bytes = ucast (w_tile_count w) * 4;
          (g1, c1) = fd_context_alloc ctx array_bytes;
          (g2, c2) = fd_context_alloc c1 array_bytes;
          (g3, c3) = fd_context_alloc c2 array_bytes;
          (g4, c4) = fd_context_alloc c3 array_bytes;
          ctx' = free_arrays array_bytes [g1, g2, g3, g4] c4
      in if \<not> (g1 \<and> g2 \<and> g3 \<and> g4) then Some (FD_ERR_OUT_OF_MEMORY, ctx', w)
         else case road_search w attempt goal (road_heap n start, replicate n UINT32_MAX) of
           None \<Rightarrow> None
         | Some (heap, previous) \<Rightarrow>
             if hp_distances heap ! goal = - 1 then Some (FD_ERR_GENERATION_EXHAUSTED, ctx', w)
             else case road_trace previous start goal 0 UINT32_MAX w of
               (result, w1, count0, intersection) \<Rightarrow>
                 if result \<noteq> FD_OK then Some (result, ctx', w1)
                 else Some (FD_OK, ctx', road_finish w1 count0 intersection))"

section \<open>The graph of the search\<close>

definition road_edge :: "fd_world \<Rightarrow> nat \<Rightarrow> nat \<Rightarrow> bool" where
  "road_edge w u v \<longleftrightarrow> u < unat (w_tile_count w) \<and> v < unat (w_tile_count w) \<and>
     grid_adjacent (grid_width w) u v"

lemma road_cost_bound:
  assumes "fd_road_cost w v attempt \<noteq> - 1"
  shows "1 \<le> unat (fd_road_cost w v attempt) \<and> unat (fd_road_cost w v attempt) \<le> 32"
proof -
  from assms obtain b where b: "road_base (terrain_at w v) = Some b"
    by (auto simp: fd_road_cost_def split: option.splits)
  then have "b \<in> {1, 2, 4, 7, 8}" by (auto simp: road_base_def split: if_splits)
  then show ?thesis by (auto simp: fd_road_cost_def b Let_def)
qed

interpretation road: corridor_search heap_ok heap_members heap_key "\<lambda>h. length (hp_nodes h)"
  heap_offer fd_heap_pop "\<lambda>h. hp_size h = 0" "road_edge w" "\<lambda>v. fd_road_cost w v attempt"
  for w attempt
  by unfold_locales (rule road_cost_bound)

definition road_cands :: "nat \<Rightarrow> nat \<Rightarrow> nat \<Rightarrow> nat list" where
  "road_cands W H i =
     (if i div W > 0 then [i - W] else []) @ (if i mod W > 0 then [i - 1] else []) @
     (if i mod W + 1 < W then [i + 1] else []) @ (if i div W + 1 < H then [i + W] else [])"

lemma set_road_cands: "set (road_cands W H i) = set (grid_cands W H i)"
  by (auto simp: road_cands_def grid_cands_def)

lemma road_expand_fold:
  "road_expand w attempt u s =
     fold (fd_relax_road_neighbor w u attempt) (road_cands (grid_width w) (grid_height w) u) s"
  by (simp add: road_expand_def road_cands_def Let_def)

lemma relax_refines:
  assumes "v < length prev" and "fd_relax_road_neighbor w u attempt v (h, prev) = (h', prev')"
  shows "road.relaxation w attempt u v (h, \<lambda>i. prev ! i) = (h', \<lambda>i. prev' ! i) \<and> length prev' = length prev"
proof -
  have "(\<lambda>i. prev ! i)(v := u) = (\<lambda>i. prev[v := u] ! i)"
    using assms(1) by (auto simp: fun_eq_iff nth_upd)
  then show ?thesis
    using assms(2) by (auto simp: fd_relax_road_neighbor_def road.relaxation_def heap_key_def Let_def split: if_splits)
qed

lemma relaxes_refine:
  "set vs \<subseteq> {..<length prev} \<Longrightarrow> fold (fd_relax_road_neighbor w u attempt) vs (h, prev) = (h', prev') \<Longrightarrow>
   fold (road.relaxation w attempt u) vs (h, \<lambda>i. prev ! i) = (h', \<lambda>i. prev' ! i) \<and> length prev' = length prev"
proof (induction vs arbitrary: h prev)
  case (Cons v vs)
  obtain h1 prev1 where r: "fd_relax_road_neighbor w u attempt v (h, prev) = (h1, prev1)"
    by (metis prod.exhaust)
  have "v < length prev" using Cons.prems(1) by simp
  note one = relax_refines [OF this r]
  show ?case using Cons.IH [of prev1 h1] Cons.prems one r by simp
qed simp

section \<open>The search returns a cheapest corridor\<close>

definition road_grid :: "fd_world \<Rightarrow> bool" where
  "road_grid w \<longleftrightarrow> unat (w_tile_count w) = grid_width w * grid_height w \<and>
     unat (w_tile_count w) \<le> 32768 \<and> length (w_tiles w) = unat (w_tile_count w)"

lemma road_search_returns:
  assumes grid: "road_grid w"
    and "road.search_inv w attempt start h (\<lambda>i. prev ! i) (road.open_edges w h)"
    and "length (hp_nodes h) = unat (w_tile_count w)" and "length prev = unat (w_tile_count w)"
  shows "\<exists>h' prev'. road_search w attempt goal (h, prev) = Some (h', prev') \<and>
    length (hp_nodes h') = unat (w_tile_count w) \<and>
    road.search_result w attempt start goal h' (\<lambda>i. prev' ! i)"
  using assms(2-)
proof (induction "unat (w_tile_count w) - card (road.settled h)" arbitrary: h prev rule: less_induct)
  case less
  have inside: "\<forall>u v. road_edge w u v \<longrightarrow> v < length (hp_nodes h)"
    using less.prems(2) by (simp add: road_edge_def)
  show ?case
  proof (cases "hp_size h = 0")
    case True
    then have "road_search w attempt goal (h, prev) = Some (h, prev)"
      by (subst road_search.simps) simp
    then show ?thesis using road.result_exhausted [OF less.prems(1) True inside] less.prems(2) by blast
  next
    case ne: False
    obtain u h1 where pop: "fd_heap_pop h = (u, h1)" by (metis prod.exhaust)
    note ip = road.inv_pop [OF less.prems(1) ne pop]
    show ?thesis
    proof (cases "u = goal")
      case True
      then have "road_search w attempt goal (h, prev) = Some (h1, prev)"
        by (subst road_search.simps) (simp add: ne pop)
      moreover have "road.search_result w attempt start goal h1 (\<lambda>i. prev ! i)"
        using road.result_found [OF less.prems(1) ne _ inside] pop True by blast
      ultimately show ?thesis using less.prems(2) ip(5) by auto
    next
      case False
      obtain h2 prev2 where ex: "road_expand w attempt u (h1, prev) = (h2, prev2)"
        by (metis prod.exhaust)
      define vs where "vs = road_cands (grid_width w) (grid_height w) u"
      have u: "u < grid_width w * grid_height w" using ip(4) less.prems(2) grid by (simp add: road_grid_def)
      have vs: "set vs = {v. v < length (hp_nodes h) \<and> road_edge w u v}"
        unfolding vs_def set_road_cands using grid_cands_iff [OF u] u less.prems(2) grid
        by (auto simp: road_edge_def road_grid_def)
      have "fold (fd_relax_road_neighbor w u attempt) vs (h1, prev) = (h2, prev2)"
        using ex by (simp add: road_expand_fold vs_def)
      moreover have "set vs \<subseteq> {..<length prev}" using vs less.prems(2,3) by auto
      ultimately have fold: "fold (road.relaxation w attempt u) vs (h1, \<lambda>i. prev ! i) = (h2, \<lambda>i. prev2 ! i)"
        and len: "length prev2 = length prev" using relaxes_refine by blast+
      note ie = road.inv_expand [OF less.prems(1) ne pop vs fold]
      have step: "road_search w attempt goal (h, prev) = road_search w attempt goal (h2, prev2)"
        using False by (subst road_search.simps) (simp add: ne pop ex)
      have "card (road.settled h2) = Suc (card (road.settled h))" using ie(2,3) by simp
      moreover have "card (road.settled h2) \<le> unat (w_tile_count w)"
        using road.card_settled [of h2] ie(5) less.prems(2) by simp
      ultimately have "unat (w_tile_count w) - card (road.settled h2)
          < unat (w_tile_count w) - card (road.settled h)" by linarith
      then show ?thesis unfolding step using ie(1,5) len less.prems(2,3) by (intro less.hyps) simp_all
    qed
  qed
qed

lemma road_heap_inv:
  assumes grid: "road_grid w" and start: "start < unat (w_tile_count w)"
  defines "h \<equiv> road_heap (unat (w_tile_count w)) start"
  shows "road.search_inv w attempt start h P (road.open_edges w h)"
    and "length (hp_nodes h) = unat (w_tile_count w)"
proof -
  define n where "n = unat (w_tile_count w)"
  have n: "n \<le> 32768" "start < n" using grid start by (simp_all add: road_grid_def n_def)
  define h0 where "h0 = \<lparr>hp_nodes = replicate n 0, hp_positions = replicate n UINT32_MAX,
      hp_distances = (replicate n (- 1 :: u32))[start := 0], hp_size = 0\<rparr>"
  have m0: "heap_members h0 = {}" by (auto simp: heap_members_def h0_def)
  have "heap_wf h0" using n unfolding heap_wf_def m0 by (simp add: h0_def)
  then have ok0: "heap_ok h0" by (simp add: heap_ok_def heap_ordered_def h0_def)
  have h: "h = fd_heap_insert h0 start" by (simp add: h_def road_heap_def h0_def n_def)
  have "start < length (hp_nodes h0)" "start \<notin> heap_members h0" using n m0 by (simp_all add: h0_def)
  note hi = heap_insert_ok [OF ok0 this]
  have ok: "heap_ok h" and mem: "heap_members h = {start}" and len: "length (hp_nodes h) = n"
    and dist: "hp_distances h = (replicate n (- 1))[start := 0]"
    using hi by (simp_all add: h m0) (simp_all add: h0_def)
  have key: "heap_key h v = (if v = start then 0 else - 1)" if "v < n" for v
    using that n by (simp add: heap_key_def dist nth_upd)
  have st: "road.settled h = {}" using key by (auto simp: road.settled_def mem len)
  show "length (hp_nodes h) = unat (w_tile_count w)" by (simp add: len n_def)
  have "road.tree w attempt start h P" using n key by (auto simp: road.tree_def len)
  then show "road.search_inv w attempt start h P (road.open_edges w h)"
    using ok n key by (auto simp: road.search_inv_def mem st len road.open_edges_def)
qed

section \<open>The walk back marks the corridor\<close>

definition mark_road :: "nat \<Rightarrow> fd_world \<Rightarrow> fd_world" where
  "mark_road i = tile_update i (\<lambda>t. t\<lparr>tl_overlays := tl_overlays t OR FD_TILE_OVERLAY_ROAD_CANDIDATE\<rparr>)"

lemma or_and_distinct_bits: "((x :: u32) OR 2) AND 1 = x AND 1"
  by (rule bit_word_eqI) (auto simp: bit_simps)

lemma mark_road_river [simp]:
  "has_overlay (mark_road i w) FD_TILE_OVERLAY_RIVER j = has_overlay w FD_TILE_OVERLAY_RIVER j"
  by (auto simp: has_overlay_def mark_road_def tile_update_def nth_upd or_and_distinct_bits)

lemma mark_road_fields [simp]:
  "w_tile_count (mark_road i w) = w_tile_count w" "stage_frame (mark_road i w) = stage_frame w"
  by (simp_all add: mark_road_def)

text \<open>\<open>crossed\<close>: the river tiles met, the one met before the walk first.\<close>

definition crossed :: "nat \<Rightarrow> fd_world \<Rightarrow> nat list \<Rightarrow> nat list" where
  "crossed intersection w p = (if intersection = UINT32_MAX then [] else [intersection]) @
     filter (has_overlay w FD_TILE_OVERLAY_RIVER) p"

lemma mark_road_rivers [simp]:
  "has_overlay (mark_road i w) FD_TILE_OVERLAY_RIVER = has_overlay w FD_TILE_OVERLAY_RIVER"
  by (rule ext) simp

lemma road_trace_step:
  "road_trace previous start a n i w =
     (if has_overlay w FD_TILE_OVERLAY_RIVER a \<and> i \<noteq> UINT32_MAX
      then (FD_ERR_GENERATION_EXHAUSTED, mark_road a w, n, i)
      else
        let i' = (if has_overlay w FD_TILE_OVERLAY_RIVER a then a else i)
        in if a = start then (FD_OK, mark_road a w, n + 1, i')
           else if previous ! a = UINT32_MAX \<or> n + 1 > unat (w_tile_count w)
           then (FD_ERR_INTERNAL, mark_road a w, n + 1, i')
           else road_trace previous start (previous ! a) (n + 1) i' (mark_road a w))"
  by (subst road_trace.simps) (simp only: mark_road_def [symmetric] mark_road_river Let_def)

text \<open>A list of tiles that follows \<open>previous\<close> from its head to \<open>start\<close>.\<close>

fun back_path :: "nat list \<Rightarrow> nat \<Rightarrow> nat list \<Rightarrow> bool" where
  "back_path previous start [] = False"
| "back_path previous start [a] = (a = start)"
| "back_path previous start (a # b # q) = (a \<noteq> start \<and> previous ! a = b \<and> back_path previous start (b # q))"

lemma road_trace_path:
  "back_path previous start q \<Longrightarrow> (\<forall>a\<in>set q. a \<noteq> UINT32_MAX) \<Longrightarrow>
   n + length q \<le> unat (w_tile_count w) \<Longrightarrow>
   (if length (crossed i w q) \<le> 1
    then road_trace previous start (hd q) n i w =
      (FD_OK, fold mark_road q w, n + length q, if crossed i w q = [] then UINT32_MAX else hd (crossed i w q))
    else \<exists>w' n' i'. road_trace previous start (hd q) n i w =
      (FD_ERR_GENERATION_EXHAUSTED, w', n', i') \<and> stage_frame w' = stage_frame w)"
proof (induction previous start q arbitrary: n i w rule: back_path.induct)
  case (2 previous start a)
  then show ?case
    by (subst (1 2) road_trace_step) (auto simp: crossed_def Let_def)
next
  case (3 previous start a b q)
  define river where "river = has_overlay w FD_TILE_OVERLAY_RIVER a"
  define i' where "i' = (if river then a else i)"
  have a: "a \<noteq> start" "previous ! a = b" "a \<noteq> UINT32_MAX" "b \<noteq> UINT32_MAX" using "3.prems" by auto
  show ?case
  proof (cases "river \<and> i \<noteq> UINT32_MAX")
    case True
    then have "\<not> length (crossed i w (a # b # q)) \<le> 1" by (simp add: crossed_def river_def)
    moreover have "road_trace previous start a n i w = (FD_ERR_GENERATION_EXHAUSTED, mark_road a w, n, i)"
      using True by (subst road_trace_step) (simp add: river_def)
    ultimately show ?thesis by simp
  next
    case False
    have step: "road_trace previous start a n i w = road_trace previous start b (n + 1) i' (mark_road a w)"
      using False a "3.prems"(3) by (subst road_trace_step) (auto simp: river_def [symmetric] i'_def Let_def)
    have cr: "crossed i' (mark_road a w) (b # q) = crossed i w (a # b # q)"
      using False a(3) by (auto simp: crossed_def i'_def river_def)
    have "back_path previous start (b # q)" "\<forall>a\<in>set (b # q). a \<noteq> UINT32_MAX"
      "n + 1 + length (b # q) \<le> unat (w_tile_count (mark_road a w))" using "3.prems" by simp_all
    note ih = "3.IH" [OF this, of i', unfolded cr list.sel]
    show ?thesis unfolding list.sel step using ih by (auto split: if_splits)
  qed
qed simp

lemma back_path_rev:
  "p \<noteq> [] \<Longrightarrow> hd p = start \<Longrightarrow>
   (\<forall>i. Suc i < length p \<longrightarrow> p ! i = previous ! (p ! Suc i) \<and> p ! Suc i \<noteq> start) \<Longrightarrow>
   back_path previous start (rev p)"
proof (induction p rule: rev_induct)
  case (snoc v p)
  show ?case
  proof (cases p rule: rev_cases)
    case Nil
    then show ?thesis using snoc.prems by simp
  next
    case p: (snoc r b)
    have "(p @ [v]) ! length p = v" by simp
    moreover have "p ! length r = b" "length p = Suc (length r)" by (simp_all add: p)
    ultimately have last: "b = previous ! v" "v \<noteq> start"
      using snoc.prems(3) [rule_format, of "length r"] by (simp_all add: nth_append)
    have "\<forall>i. Suc i < length p \<longrightarrow> p ! i = previous ! (p ! Suc i) \<and> p ! Suc i \<noteq> start"
    proof (intro allI impI)
      fix i assume "Suc i < length p"
      then show "p ! i = previous ! (p ! Suc i) \<and> p ! Suc i \<noteq> start"
        using snoc.prems(3) [rule_format, of i] by (simp add: nth_append)
    qed
    moreover have "p \<noteq> []" "hd p = start" using snoc.prems(2) by (auto simp: p hd_append split: if_splits)
    ultimately have "back_path previous start (rev p)" by (intro snoc.IH)
    then show ?thesis using last by (simp add: p)
  qed
qed simp

lemma mark_road_tiles:
  "j < length (w_tiles w) \<Longrightarrow> tile_at (fold mark_road p w) j =
     (tile_at w j)\<lparr>tl_overlays := tl_overlays (tile_at w j) OR
        (if j \<in> set p then FD_TILE_OVERLAY_ROAD_CANDIDATE else 0)\<rparr>"
proof (induction p arbitrary: w)
  case (Cons a p)
  have "length (w_tiles (mark_road a w)) = length (w_tiles w)" by (simp add: mark_road_def)
  then show ?case
    using Cons.IH [of "mark_road a w"] Cons.prems
    by (auto simp: mark_road_def tile_update_tiles or.assoc)
qed simp

lemma mark_road_frame: "stage_frame (fold mark_road p w) = stage_frame w"
  by (rule fold_invariant) simp

section \<open>What the construction does\<close>

definition corridor_to ::
    "fd_world \<Rightarrow> u64 \<Rightarrow> nat \<Rightarrow> nat \<Rightarrow> nat list \<Rightarrow> nat \<Rightarrow> bool" where
  "corridor_to w attempt start goal p c \<longleftrightarrow>
     corridor (road_edge w) (\<lambda>v. fd_road_cost w v attempt) start p c \<and> last p = goal"

definition cheapest_corridor :: "fd_world \<Rightarrow> u64 \<Rightarrow> nat \<Rightarrow> nat \<Rightarrow> nat list \<Rightarrow> bool" where
  "cheapest_corridor w attempt start goal p \<longleftrightarrow>
     (\<exists>c. corridor_to w attempt start goal p c \<and>
        (\<forall>p' c'. corridor_to w attempt start goal p' c' \<longrightarrow> c \<le> c'))"

lemma corridor_tiles:
  assumes "corridor (road_edge w) cost start p c" and "start < unat (w_tile_count w)"
  shows "set p \<subseteq> {..<unat (w_tile_count w)}"
  using assms by (induction rule: corridor.induct) (auto simp: road_edge_def)

text \<open>The tiles of the road carry its overlay, and its river tile is a crossing.\<close>

definition road_laid :: "fd_world \<Rightarrow> nat list \<Rightarrow> fd_world \<Rightarrow> bool" where
  "road_laid w p w' \<longleftrightarrow> stage_frame w' = stage_frame w \<and> w_road_tile_count w' = of_nat (length p) \<and>
     (\<forall>j < length (w_tiles w). tile_at w' j = (tile_at w j)\<lparr>tl_overlays := tl_overlays (tile_at w j) OR
        (if j \<in> set p then FD_TILE_OVERLAY_ROAD_CANDIDATE else 0) OR
        (if j \<in> set p \<and> has_overlay w FD_TILE_OVERLAY_RIVER j then FD_TILE_ROAD_CROSSING else 0)\<rparr>)"

lemma road_finish_laid:
  assumes "length (crossed UINT32_MAX w p) \<le> 1" and "set p \<subseteq> {..<length (w_tiles w)}"
    and "length (w_tiles w) < UINT32_MAX"
  shows "road_laid w p (road_finish (fold mark_road p w) (length p)
    (if crossed UINT32_MAX w p = [] then UINT32_MAX else hd (crossed UINT32_MAX w p)))"
proof -
  define R where "R = filter (has_overlay w FD_TILE_OVERLAY_RIVER) p"
  have c: "crossed UINT32_MAX w p = R" by (simp add: crossed_def R_def)
  have R: "set R = {j \<in> set p. has_overlay w FD_TILE_OVERLAY_RIVER j}" by (auto simp: R_def)
  have len: "length (w_tiles (fold mark_road p w)) = length (w_tiles w)"
    using mark_road_frame [of p w] by (simp add: stage_frame_def run_frame_def)
  show ?thesis
  proof (cases R)
    case Nil
    then have "\<forall>j\<in>set p. \<not> has_overlay w FD_TILE_OVERLAY_RIVER j" using R by auto
    then show ?thesis
      using mark_road_tiles [of _ w p] mark_road_frame [of p w]
      by (auto simp: road_laid_def c Nil road_finish_def stage_frame_def run_frame_def)
  next
    case (Cons r rest)
    then have one: "R = [r]" using assms(1) c by (cases rest) simp_all
    then have r: "j \<in> set p \<and> has_overlay w FD_TILE_OVERLAY_RIVER j \<longleftrightarrow> j = r" for j using R by auto
    then have "r < length (w_tiles w)" using assms(2) by auto
    then show ?thesis
      using mark_road_tiles [of _ w p] mark_road_frame [of p w] r assms(3) len
      by (auto simp: road_laid_def c one road_finish_def stage_frame_def run_frame_def tile_update_tiles or.assoc)
        (auto simp: tile_update_def)
  qed
qed

lemma road_books:
  assumes "fd_context_alloc ctx n = (g1, c1)" "fd_context_alloc c1 n = (g2, c2)"
    "fd_context_alloc c2 n = (g3, c3)" "fd_context_alloc c3 n = (g4, c4)"
  shows "books (free_arrays n [g1, g2, g3, g4] c4) = books ctx"
  by (cases g1; cases g2; cases g3; cases g4)
    (simp_all add: books_def free_arrays_def alloc_fields [OF assms(1)] alloc_fields [OF assms(2)]
      alloc_fields [OF assms(3)] alloc_fields [OF assms(4)])

text \<open>The allocator has room for the four working arrays.\<close>

definition road_memory :: "'u fd_context \<Rightarrow> u64 \<Rightarrow> bool" where
  "road_memory ctx n =
     (let (g1, c1) = fd_context_alloc ctx n; (g2, c2) = fd_context_alloc c1 n;
          (g3, c3) = fd_context_alloc c2 n; (g4, c4) = fd_context_alloc c3 n
      in g1 \<and> g2 \<and> g3 \<and> g4)"

lemma construct_road_cases:
  assumes grid: "road_grid w" and start: "start < unat (w_tile_count w)" and goal: "goal < unat (w_tile_count w)"
  obtains r ctx' w' where "fd_construct_road ctx w start goal attempt = Some (r, ctx', w')"
    and "books ctx' = books ctx" and "stage_frame w' = stage_frame w"
    and "(if \<not> road_memory ctx (ucast (w_tile_count w) * 4) then r = FD_ERR_OUT_OF_MEMORY \<and> w' = w
      else if \<nexists>p c. corridor_to w attempt start goal p c then r = FD_ERR_GENERATION_EXHAUSTED
      else \<exists>p. cheapest_corridor w attempt start goal p \<and> distinct p \<and>
         (if length (filter (has_overlay w FD_TILE_OVERLAY_RIVER) p) \<le> 1
          then r = FD_OK \<and> road_laid w p w' else r = FD_ERR_GENERATION_EXHAUSTED))"
proof -
  define n where "n = unat (w_tile_count w)"
  define b :: u64 where "b = ucast (w_tile_count w) * 4"
  obtain g1 c1 where a1: "fd_context_alloc ctx b = (g1, c1)" by (metis prod.exhaust)
  obtain g2 c2 where a2: "fd_context_alloc c1 b = (g2, c2)" by (metis prod.exhaust)
  obtain g3 c3 where a3: "fd_context_alloc c2 b = (g3, c3)" by (metis prod.exhaust)
  obtain g4 c4 where a4: "fd_context_alloc c3 b = (g4, c4)" by (metis prod.exhaust)
  define ctx' where "ctx' = free_arrays b [g1, g2, g3, g4] c4"
  have bk: "books ctx' = books ctx" unfolding ctx'_def by (rule road_books [OF a1 a2 a3 a4])
  note run = fd_construct_road_def [of ctx w start goal attempt, folded n_def b_def,
      unfolded Let_def a1 prod.case a2 a3 a4, folded ctx'_def]
  have memory: "road_memory ctx (ucast (w_tile_count w) * 4) \<longleftrightarrow> g1 \<and> g2 \<and> g3 \<and> g4"
    by (simp add: road_memory_def a1 a2 a3 a4 b_def [symmetric])
  show ?thesis
  proof (cases "g1 \<and> g2 \<and> g3 \<and> g4")
    case False
    then show ?thesis using run bk memory by (intro that [of FD_ERR_OUT_OF_MEMORY ctx' w]) auto
  next
    case True
    have inv: "road.search_inv w attempt start (road_heap n start) (\<lambda>i. replicate n UINT32_MAX ! i)
        (road.open_edges w (road_heap n start))" and len: "length (hp_nodes (road_heap n start)) = n"
      using road_heap_inv [OF grid start] by (simp_all add: n_def)
    obtain h prev where search: "road_search w attempt goal (road_heap n start, replicate n UINT32_MAX) =
        Some (h, prev)" and lh: "length (hp_nodes h) = n"
      and found: "road.search_result w attempt start goal h (\<lambda>i. prev ! i)"
      using road_search_returns [OF grid inv, folded n_def, OF len length_replicate] by blast
    show ?thesis
    proof (cases "hp_distances h ! goal = - 1")
      case unreached: True
      then have "\<nexists>p c. corridor_to w attempt start goal p c"
        using found by (auto simp: road.search_result_def corridor_to_def heap_key_def)
      then show ?thesis using run bk True search unreached memory
        by (intro that [of FD_ERR_GENERATION_EXHAUSTED ctx' w]) auto
    next
      case reached: False
      have tree: "road.tree w attempt start h (\<lambda>i. prev ! i)" using found by (simp add: road.search_result_def)
      have kg: "goal < length (hp_nodes h)" "heap_key h goal \<noteq> - 1"
        using goal lh reached by (simp_all add: n_def heap_key_def)
      obtain p where p: "corridor (road_edge w) (\<lambda>v. fd_road_cost w v attempt) start p (unat (heap_key h goal))"
        "last p = goal" "hd p = start" "sorted_wrt (\<lambda>a b. unat (heap_key h a) < unat (heap_key h b)) p"
        "set p \<subseteq> {..<n}"
        "\<forall>i. Suc i < length p \<longrightarrow> p ! i = prev ! (p ! Suc i) \<and> p ! Suc i \<noteq> start"
        using road.tree_walk [OF tree kg] unfolding lh by blast
      have ne: "p \<noteq> []" by (rule corridor_nonempty [OF p(1)])
      have goal': "hd (rev p) = goal" using p(2) ne by (simp add: hd_rev)
      have dist: "distinct p"
      proof -
        have "sorted_wrt (<) (map (\<lambda>a. unat (heap_key h a)) p)"
          using p(4) by (simp add: sorted_wrt_map)
        then have "distinct (map (\<lambda>a. unat (heap_key h a)) p)"
          by (simp add: strict_sorted_iff)
        then show ?thesis by (simp add: distinct_map)
      qed
      have cheap: "cheapest_corridor w attempt start goal p"
        using p(1,2) found by (auto simp: cheapest_corridor_def corridor_to_def road.search_result_def)
      have "card (set p) \<le> n" using card_mono [OF _ p(5)] by simp
      then have fits: "0 + length (rev p) \<le> unat (w_tile_count w)" using dist by (simp add: distinct_card n_def)
      have small: "n < UINT32_MAX" using grid by (simp add: road_grid_def n_def)
      then have nodes: "\<forall>a\<in>set (rev p). a \<noteq> UINT32_MAX" using p(5) by auto
      note trace = road_trace_path [OF back_path_rev [OF ne p(3,6)] nodes fits, of UINT32_MAX,
          unfolded goal' add_0 length_rev]
      have cl: "length (crossed UINT32_MAX w (rev p)) = length (filter (has_overlay w FD_TILE_OVERLAY_RIVER) p)"
        by (simp add: crossed_def rev_filter [symmetric])
      have ex: "\<exists>p c. corridor_to w attempt start goal p c" using p(1,2) by (auto simp: corridor_to_def)
      show ?thesis
      proof (cases "length (crossed UINT32_MAX w (rev p)) \<le> 1")
        case one: True
        define w' where "w' = road_finish (fold mark_road (rev p) w) (length (rev p))
          (if crossed UINT32_MAX w (rev p) = [] then UINT32_MAX else hd (crossed UINT32_MAX w (rev p)))"
        have tl: "length (w_tiles w) = n" using grid by (simp add: road_grid_def n_def)
        have "road_laid w (rev p) w'"
          unfolding w'_def using one p(5) small tl by (intro road_finish_laid) simp_all
        then have "road_laid w p w'" by (simp add: road_laid_def)
        moreover have "fd_construct_road ctx w start goal attempt = Some (FD_OK, ctx', w')"
          using run True search reached trace one by (simp add: w'_def)
        ultimately show ?thesis
          using bk cheap dist one cl memory True ex
          by (intro that [of FD_OK ctx' w']) (auto simp: road_laid_def)
      next
        case False
        then obtain w' n' i' where "road_trace prev start goal 0 UINT32_MAX w =
            (FD_ERR_GENERATION_EXHAUSTED, w', n', i')" "stage_frame w' = stage_frame w" using trace by auto
        moreover from this have "fd_construct_road ctx w start goal attempt =
            Some (FD_ERR_GENERATION_EXHAUSTED, ctx', w')"
          using run True search reached by (simp add: fd_const)
        ultimately show ?thesis
          using bk cheap dist False cl memory True ex
          by (intro that [of FD_ERR_GENERATION_EXHAUSTED ctx' w']) auto
      qed
    qed
  qed
qed

section \<open>The road properties\<close>

text \<open>C22: on a grid within the documented bounds the road construction always returns, gives back
  every array it took and touches nothing but tiles and the road length.  It is out of memory exactly
  when one of the four arrays is refused, exhausted when no corridor exists or the one found would
  meet the river more than once, and done otherwise: the internal error of the walk back never occurs.\<close>

theorem road_construction_verdict:
  assumes "road_grid w" and "start < unat (w_tile_count w)" and "goal < unat (w_tile_count w)"
  shows "\<exists>r ctx' w'. fd_construct_road ctx w start goal attempt = Some (r, ctx', w') \<and>
    books ctx' = books ctx \<and> stage_frame w' = stage_frame w \<and>
    (if \<not> road_memory ctx (ucast (w_tile_count w) * 4) then r = FD_ERR_OUT_OF_MEMORY \<and> w' = w
     else if \<nexists>p c. corridor_to w attempt start goal p c then r = FD_ERR_GENERATION_EXHAUSTED
     else \<exists>p. cheapest_corridor w attempt start goal p \<and>
       r = (if length (filter (has_overlay w FD_TILE_OVERLAY_RIVER) p) \<le> 1 then FD_OK
            else FD_ERR_GENERATION_EXHAUSTED))"
  by (rule construct_road_cases [OF assms, of ctx attempt]) (auto split: if_splits)

text \<open>C23: the finished road is a cheapest corridor: a walk over adjacent land tiles from the coastal to
  the inland settlement without a repeated tile, entered for no more than any other corridor costs,
  with at most one river tile; its tiles and no others get the road overlay, its river tile the
  crossing, and its length is the road's tile count.\<close>

theorem road_is_cheapest_corridor:
  assumes "road_grid w" and "start < unat (w_tile_count w)" and "goal < unat (w_tile_count w)"
    and "fd_construct_road ctx w start goal attempt = Some (FD_OK, ctx', w')"
  shows "\<exists>p. cheapest_corridor w attempt start goal p \<and> distinct p \<and>
    length (filter (has_overlay w FD_TILE_OVERLAY_RIVER) p) \<le> 1 \<and> road_laid w p w'"
proof -
  have ne: "FD_OK \<noteq> FD_ERR_OUT_OF_MEMORY" "FD_OK \<noteq> FD_ERR_GENERATION_EXHAUSTED" by (simp_all add: fd_const)
  show ?thesis
    by (rule construct_road_cases [OF assms(1-3), of ctx attempt]) (use assms(4) ne in \<open>auto split: if_splits\<close>)
qed

text \<open>Two land tiles side by side.\<close>

definition two_tiles :: fd_world where
  "two_tiles = grid_world 2 1 [grid_tile 6 0 100, grid_tile 6 0 100] (replicate 6 blank_entity)"

lemma two_tiles_road:
  "road_grid two_tiles" "unat (w_tile_count two_tiles) = 2"
  "\<exists>ctx' w'. fd_construct_road roomy_context two_tiles 0 1 0 = Some (FD_OK, ctx', w')"
proof -
  show g: "road_grid two_tiles" and n: "unat (w_tile_count two_tiles) = 2"
    by (simp_all add: road_grid_def two_tiles_def grid_world_def)
  have edge: "road_edge two_tiles 0 1" by (simp add: road_edge_def two_tiles_def grid_world_def
        grid_adjacent_def fd_manhattan_def fd_abs_diff_u32_def)
  have "road_base (terrain_at two_tiles 1) = Some 1"
    by (simp add: terrain_at_def two_tiles_def grid_world_def grid_tile_def road_base_def)
  then have "fd_road_cost two_tiles 1 0 \<noteq> - 1" by (auto simp: fd_road_cost_def Let_def)
  then have "corridor (road_edge two_tiles) (\<lambda>v. fd_road_cost two_tiles v 0) 0 ([0] @ [1])
      (0 + unat (fd_road_cost two_tiles 1 0))"
    using edge by (intro corridor.step corridor.base) simp_all
  then have ex: "\<exists>p c. corridor_to two_tiles 0 0 1 p c" unfolding corridor_to_def by force
  have dry: "\<not> has_overlay two_tiles FD_TILE_OVERLAY_RIVER i" if "i < 2" for i
    using that by (cases i) (auto simp: has_overlay_def two_tiles_def grid_world_def grid_tile_def less_Suc_eq)
  have memory: "road_memory roomy_context (ucast (w_tile_count two_tiles) * 4)"
    by (simp add: road_memory_def roomy_context_def fd_context_alloc_def two_tiles_def grid_world_def)
  show "\<exists>ctx' w'. fd_construct_road roomy_context two_tiles 0 1 0 = Some (FD_OK, ctx', w')"
  proof (rule construct_road_cases [OF g, of 0 1 roomy_context 0])
    fix r ctx' w'
    assume "fd_construct_road roomy_context two_tiles 0 1 0 = Some (r, ctx', w')"
    moreover assume "if \<not> road_memory roomy_context (ucast (w_tile_count two_tiles) * 4)
      then r = FD_ERR_OUT_OF_MEMORY \<and> w' = two_tiles
      else if \<nexists>p c. corridor_to two_tiles 0 0 1 p c then r = FD_ERR_GENERATION_EXHAUSTED
      else \<exists>p. cheapest_corridor two_tiles 0 0 1 p \<and> distinct p \<and>
         (if length (filter (has_overlay two_tiles FD_TILE_OVERLAY_RIVER) p) \<le> 1
          then r = FD_OK \<and> road_laid two_tiles p w' else r = FD_ERR_GENERATION_EXHAUSTED)"
    then have "\<exists>p. cheapest_corridor two_tiles 0 0 1 p \<and> distinct p \<and>
         (if length (filter (has_overlay two_tiles FD_TILE_OVERLAY_RIVER) p) \<le> 1
          then r = FD_OK \<and> road_laid two_tiles p w' else r = FD_ERR_GENERATION_EXHAUSTED)"
      by (simp only: memory ex not_True_eq_False if_False)
    then obtain p where p: "cheapest_corridor two_tiles 0 0 1 p"
      "if length (filter (has_overlay two_tiles FD_TILE_OVERLAY_RIVER) p) \<le> 1
       then r = FD_OK \<and> road_laid two_tiles p w' else r = FD_ERR_GENERATION_EXHAUSTED"
      by blast
    have "set p \<subseteq> {..<2}" using corridor_tiles [of two_tiles _ 0 p] p(1) n
      by (auto simp: cheapest_corridor_def corridor_to_def)
    then have "filter (has_overlay two_tiles FD_TILE_OVERLAY_RIVER) p = []"
      using dry by (auto simp: filter_empty_conv)
    then have "r = FD_OK" using p(2) by simp
    ultimately show ?thesis by blast
  qed (simp_all add: n)
qed

theorem road_construction_verdict_witness:
  "\<exists>r ctx' w'. fd_construct_road roomy_context two_tiles 0 1 0 = Some (r, ctx', w') \<and>
    books ctx' = books roomy_context \<and> r \<noteq> FD_ERR_INTERNAL"
proof -
  have "0 < unat (w_tile_count two_tiles)" "1 < unat (w_tile_count two_tiles)"
    by (simp_all add: two_tiles_road(2))
  from road_construction_verdict [OF two_tiles_road(1) this, of roomy_context 0]
  show ?thesis by (auto simp: fd_const split: if_splits)
qed

theorem road_is_cheapest_corridor_witness:
  "\<exists>ctx' w' p. fd_construct_road roomy_context two_tiles 0 1 0 = Some (FD_OK, ctx', w') \<and>
    cheapest_corridor two_tiles 0 0 1 p \<and> road_laid two_tiles p w'"
proof -
  have "0 < unat (w_tile_count two_tiles)" "1 < unat (w_tile_count two_tiles)"
    by (simp_all add: two_tiles_road(2))
  moreover obtain ctx' w' where "fd_construct_road roomy_context two_tiles 0 1 0 = Some (FD_OK, ctx', w')"
    using two_tiles_road(3) by blast
  ultimately show ?thesis using road_is_cheapest_corridor [OF two_tiles_road(1)] by blast
qed

end
