(* ===== verification/FD_Candidate.thy ===== *)
theory FD_Candidate
  imports FD_Naming FD_Terrain FD_River FD_Road
begin

text \<open>
  One attempt of the generator, \<open>fd_generate_candidate\<close> of \<^verbatim>\<open>src/core/fd_generate.c\<close>: draw the
  layout, paint water and land, raise the land, carve the river, assign the biomes, place the
  entities and settlements, lay the road, validate and hash.  The outcome is \<open>None\<close> where the road
  search would not return.
\<close>

unbundle bit_operations_syntax

abbreviation (input) FD_GEN_REJECT_REQUIRED_DENSITY_ZERO :: u32 where
  "FD_GEN_REJECT_REQUIRED_DENSITY_ZERO \<equiv> 1"
abbreviation (input) FD_GEN_REJECT_TERRAIN_COVERAGE :: u32 where "FD_GEN_REJECT_TERRAIN_COVERAGE \<equiv> 2"
abbreviation (input) FD_GEN_REJECT_HYDROLOGY :: u32 where "FD_GEN_REJECT_HYDROLOGY \<equiv> 3"
abbreviation (input) FD_GEN_REJECT_SETTLEMENT_PLACEMENT :: u32 where
  "FD_GEN_REJECT_SETTLEMENT_PLACEMENT \<equiv> 4"
abbreviation (input) FD_GEN_REJECT_ROAD_CORRIDOR :: u32 where "FD_GEN_REJECT_ROAD_CORRIDOR \<equiv> 5"
abbreviation (input) FD_GEN_REJECT_INVARIANT :: u32 where "FD_GEN_REJECT_INVARIANT \<equiv> 6"

section \<open>The layout\<close>

record gen_layout =
  ly_west_water :: bool
  ly_outlet_y :: nat
  ly_source_y :: nat
  ly_river_tie :: nat

definition draw_layout :: "fd_world \<Rightarrow> u64 \<Rightarrow> fd_result \<times> gen_layout option" where
  "draw_layout w attempt =
     (let height = grid_height w;
          outlet_y_range = (if height div 3 < 3 then 3 else height div 3)
      in case world_draw w FD_RNG_DOMAIN_COAST 0 attempt 0 FD_RNG_SITE_COAST_FACING 2 0 of
           (result, facing) \<Rightarrow>
         if result \<noteq> FD_OK then (result, None) else
         case world_draw w FD_RNG_DOMAIN_SETTLEMENT_PLACEMENT 0 attempt 0 FD_RNG_SITE_SETTLEMENT_ROW
                (of_nat outlet_y_range) 0 of
           (result, outlet_y_offset) \<Rightarrow>
         if result \<noteq> FD_OK then (result, None) else
         let outlet_y0 = 2 + unat outlet_y_offset;
             outlet_y = (if outlet_y0 + 2 \<ge> height then height div 3 else outlet_y0);
             coastal_y = outlet_y + 1
         in case world_draw w FD_RNG_DOMAIN_RIVER_SOURCE 0 attempt 0 FD_RNG_SITE_RIVER_SOURCE_ROW 3 0 of
              (result, source_y_choice) \<Rightarrow>
            if result \<noteq> FD_OK then (result, None) else
            case world_draw w FD_RNG_DOMAIN_RIVER_TIE_BREAK 0 attempt 0 FD_RNG_SITE_RIVER_TIE 2 0 of
              (result, river_tie_choice) \<Rightarrow>
            if result \<noteq> FD_OK then (result, None) else
            let source_y0 = outlet_y + unat source_y_choice;
                source_y1 = (if source_y0 \<ge> coastal_y then source_y0 + 1 else source_y0);
                source_y = (if source_y1 + 2 \<ge> height then outlet_y else source_y1)
            in (FD_OK, Some \<lparr>ly_west_water = (facing = 0), ly_outlet_y = outlet_y,
                  ly_source_y = source_y, ly_river_tie = unat river_tie_choice\<rparr>))"

section \<open>Water and land\<close>

definition clear_land :: "fd_world \<Rightarrow> fd_world" where
  "clear_land w =
     w\<lparr>w_tiles := replicate (unat (w_tile_count w)) (grid_tile 0 0 0), w_land_tile_count := 0,
       w_river_raised_tile_count := 0, w_river_min_carve_cm := - 1\<rparr>"

definition paint_cell :: "bool \<Rightarrow> nat \<Rightarrow> nat \<Rightarrow> nat \<Rightarrow> fd_world \<Rightarrow> fd_world" where
  "paint_cell west_water water_width y x w =
     (let width = grid_width w;
          index = y * width + x;
          water = (if west_water then x < water_width else x \<ge> width - water_width)
      in if water
         then tile_update index (\<lambda>t. t\<lparr>tl_terrain := FD_TERRAIN_WATER, tl_elevation_cm := 0,
                tl_rainfall_mm := 1400\<rparr>) w
         else
           let coast = fd_coast_x west_water width water_width;
               distance = (if x > coast then x - coast else coast - x)
           in (tile_update index (\<lambda>t. t\<lparr>tl_terrain := FD_TERRAIN_GRASSLAND,
                 tl_elevation_cm := 100 + of_nat distance * 100\<rparr>) w)
                \<lparr>w_land_tile_count := w_land_tile_count w + 1\<rparr>)"

definition row_water_width :: "nat \<Rightarrow> nat \<Rightarrow> nat \<Rightarrow> nat" where
  "row_water_width base_water_width amplitude offset_value =
     (if offset_value < amplitude then base_water_width - (amplitude - offset_value)
      else base_water_width + (offset_value - amplitude))"

fun paint_rows ::
    "bool \<Rightarrow> bool \<Rightarrow> nat \<Rightarrow> nat \<Rightarrow> nat \<Rightarrow> u64 \<Rightarrow> nat list \<Rightarrow> fd_world \<Rightarrow> fd_result \<times> fd_world" where
  "paint_rows fallback west_water base_water_width amplitude outlet_y attempt [] w = (FD_OK, w)"
| "paint_rows fallback west_water base_water_width amplitude outlet_y attempt (y # ys) w =
     (case (if y \<noteq> outlet_y \<and> y \<noteq> outlet_y + 1 then
              if fallback then (FD_OK, row_water_width base_water_width amplitude (y mod (amplitude * 2 + 1)))
              else
                (case world_draw w FD_RNG_DOMAIN_COAST (of_nat y) attempt 0 FD_RNG_SITE_COAST_ROW_OFFSET
                        (of_nat amplitude * 2 + 1) 0 of
                   (result, offset_value) \<Rightarrow>
                     (result, row_water_width base_water_width amplitude (unat offset_value)))
            else (FD_OK, base_water_width)) of
        (result, water_width) \<Rightarrow>
          if result \<noteq> FD_OK then (result, w)
          else paint_rows fallback west_water base_water_width amplitude outlet_y attempt ys
                 (fold (paint_cell west_water water_width y) [0..<grid_width w] w))"

section \<open>Biomes\<close>

fun assign_biomes :: "u64 \<Rightarrow> (nat \<times> nat) list \<Rightarrow> fd_world \<Rightarrow> fd_result \<times> fd_world" where
  "assign_biomes attempt [] w = (FD_OK, w)"
| "assign_biomes attempt ((y, x) # cells) w =
     (let index = y * grid_width w + x; config = w_config w in
      if terrain_at w index = FD_TERRAIN_WATER \<or> has_overlay w FD_TILE_OVERLAY_RIVER index
      then assign_biomes attempt cells w
      else
        case world_draw w FD_RNG_DOMAIN_BIOME_ASSIGNMENT (of_nat index) attempt 0
               FD_RNG_SITE_BIOME_TILE 1000000 0 of
          (result, value) \<Rightarrow>
            if result \<noteq> FD_OK then (result, w)
            else
              let terrain =
                (if fd_wetland_eligible w index \<and> value < wc_wetland_density_ppm config
                 then FD_TERRAIN_WETLANDS
                 else if value < wc_hill_density_ppm config then FD_TERRAIN_HILLS
                 else if value < wc_hill_density_ppm config + wc_forest_density_ppm config
                 then FD_TERRAIN_FOREST
                 else FD_TERRAIN_GRASSLAND)
              in assign_biomes attempt cells (tile_update index (\<lambda>t. t\<lparr>tl_terrain := terrain\<rparr>) w))"

definition set_terrain :: "u32 \<Rightarrow> nat \<Rightarrow> fd_world \<Rightarrow> fd_world" where
  "set_terrain terrain index = tile_update index (\<lambda>t. t\<lparr>tl_terrain := terrain\<rparr>)"

definition construct_representatives ::
    "bool \<Rightarrow> nat \<Rightarrow> nat \<Rightarrow> nat \<Rightarrow> nat \<Rightarrow> fd_world \<Rightarrow> fd_world" where
  "construct_representatives west_water coastal_x coastal_y inland_x inland_y w =
     (let width = grid_width w;
          middle_x = (coastal_x + inland_x) div 2;
          wetland_index = coastal_y * width + middle_x;
          forest_index = inland_y * width + (if west_water then inland_x - 1 else inland_x + 1);
          grass_index = inland_y * width + (if west_water then inland_x - 2 else inland_x + 2)
      in set_terrain FD_TERRAIN_GRASSLAND grass_index
           (set_terrain FD_TERRAIN_FOREST forest_index
             (set_terrain FD_TERRAIN_WETLANDS wetland_index w)))"

section \<open>Settlements\<close>

definition settle :: "nat \<Rightarrow> fd_entity_id \<Rightarrow> fd_world \<Rightarrow> fd_world" where
  "settle index i = tile_update index
     (\<lambda>t. t\<lparr>tl_terrain := FD_TERRAIN_SETTLEMENT, tl_settlement_id := i\<rparr>)"

section \<open>The attempt\<close>

record 'u gen_state =
  gs_context :: "'u fd_context"
  gs_world :: fd_world
  gs_validation :: fd_validation_report
  gs_reason :: u32
  gs_diag :: diag

definition rejection_reason :: "fd_validation_report \<Rightarrow> u32" where
  "rejection_reason validation =
     (if vr_failed_invariants validation AND FD_INVARIANT_TERRAIN_COVERAGE \<noteq> 0
      then FD_GEN_REJECT_TERRAIN_COVERAGE
      else if vr_failed_invariants validation AND FD_INVARIANT_HYDROLOGY \<noteq> 0
      then FD_GEN_REJECT_HYDROLOGY
      else if vr_failed_invariants validation AND FD_INVARIANT_SETTLEMENTS \<noteq> 0
      then FD_GEN_REJECT_SETTLEMENT_PLACEMENT
      else FD_GEN_REJECT_INVARIANT)"

text \<open>After the road: the counts of the region, validation and the state hash.\<close>

definition accept_candidate :: "'u gen_state \<Rightarrow> fd_result \<times> 'u gen_state" where
  "accept_candidate s =
     (let w = gs_world s;
          w1 = w\<lparr>w_region := (w_region w)\<lparr>rg_river_tile_count := w_river_tile_count w,
                  rg_road_tile_count := w_road_tile_count w\<rparr>\<rparr>
      in case fd_world_validate_internal (Some w1) (Some (gs_validation s)) (gs_diag s) of
           ((result, diag), validation) \<Rightarrow>
             let s1 = s\<lparr>gs_world := w1, gs_validation := the validation, gs_diag := diag\<rparr> in
             if result \<noteq> FD_OK
             then (FD_ERR_GENERATION_EXHAUSTED, s1\<lparr>gs_reason := rejection_reason (the validation)\<rparr>)
             else case fd_world_compute_hash (Some w1) of
               (result1, w2) \<Rightarrow> (result1, s1\<lparr>gs_world := the w2\<rparr>))"

text \<open>From the biomes to the road, with the coordinates of the two settlements.\<close>

definition settle_candidate ::
    "u64 \<Rightarrow> bool \<Rightarrow> bool \<Rightarrow> nat \<Rightarrow> nat \<Rightarrow> nat \<Rightarrow> nat \<Rightarrow> nat \<Rightarrow> 'u gen_state \<Rightarrow> (fd_result \<times> 'u gen_state) option" where
  "settle_candidate attempt fallback west_water coastal_x coastal_y inland_x inland_y outlet_index s =
     (let w = gs_world s; width = grid_width w in
      case assign_biomes attempt (grid_cells (grid_height w) width) w of
        (result, w1) \<Rightarrow>
      if result \<noteq> FD_OK then Some (result, s\<lparr>gs_world := w1\<rparr>) else
      let w2 = (if fallback then construct_representatives west_water coastal_x coastal_y inland_x inland_y w1
                else w1)
      in case fd_initialize_entities w2 coastal_x coastal_y inland_x inland_y outlet_index attempt of
           (result, w3) \<Rightarrow>
         if result \<noteq> FD_OK then Some (result, s\<lparr>gs_world := w3\<rparr>) else
         let coastal_index = coastal_y * width + coastal_x;
             inland_index = inland_y * width + inland_x;
             w4 = settle inland_index (en_id (w_entities w3 ! 2))
                    (settle coastal_index (en_id (w_entities w3 ! 1)) w3)
         in case fd_construct_road (gs_context s) w4 coastal_index inland_index attempt of
              None \<Rightarrow> None
            | Some (result, ctx, w5) \<Rightarrow>
                let s1 = s\<lparr>gs_context := ctx, gs_world := w5\<rparr> in
                if result \<noteq> FD_OK then Some (result, s1\<lparr>gs_reason := FD_GEN_REJECT_ROAD_CORRIDOR\<rparr>)
                else Some (accept_candidate s1))"

definition fd_generate_candidate ::
    "u64 \<Rightarrow> bool \<Rightarrow> 'u gen_state \<Rightarrow> (fd_result \<times> 'u gen_state) option" where
  "fd_generate_candidate attempt fallback s0 =
     (let s = s0\<lparr>gs_reason := FD_GEN_REJECT_INVARIANT\<rparr>; w = gs_world s;
          width = grid_width w; height = grid_height w;
          base_water_width = (width * 30) div 100;
          amplitude = (if width div 32 = 0 then 1 else width div 32)
      in case draw_layout w attempt of
           (result, None) \<Rightarrow> Some (result, s)
         | (result, Some ly) \<Rightarrow>
             let west_water = ly_west_water ly; outlet_y = ly_outlet_y ly;
                 coastal_y = outlet_y + 1; inland_y = height - 3
             in case paint_rows fallback west_water base_water_width amplitude outlet_y attempt
                       [0..<height] (clear_land w) of
                  (result, w1) \<Rightarrow>
                if result \<noteq> FD_OK then Some (result, s\<lparr>gs_world := w1\<rparr>) else
                case fd_apply_elevation_fields (gs_context s) w1 attempt of
                  (result, ctx, w2) \<Rightarrow>
                let s1 = s\<lparr>gs_context := ctx, gs_world := w2\<rparr> in
                if result \<noteq> FD_OK then Some (result, s1) else
                let coastal_x = fd_coast_x west_water width base_water_width;
                    inland_x = (if west_water then width - 3 else 2)
                in case fd_construct_river w2 west_water base_water_width outlet_y (ly_source_y ly)
                          (ly_river_tie ly) of
                     (result, w3, outlet_index, river_count) \<Rightarrow>
                   if result \<noteq> FD_OK
                   then Some (result, s1\<lparr>gs_world := w3, gs_reason := FD_GEN_REJECT_HYDROLOGY\<rparr>)
                   else settle_candidate attempt fallback west_water coastal_x coastal_y inland_x inland_y
                          outlet_index
                          (s1\<lparr>gs_world := w3\<lparr>w_river_tile_count := the river_count\<rparr>\<rparr>))"

section \<open>The frame through an attempt\<close>

lemma run_frame_land [simp]:
  "run_frame (w\<lparr>w_land_tile_count := n\<rparr>) = run_frame w"
  "run_frame (w\<lparr>w_river_tile_count := n\<rparr>) = run_frame w"
  "run_frame (w\<lparr>w_region := rg\<rparr>) = run_frame w"
  "run_frame (w\<lparr>w_entities := es\<rparr>) = run_frame w"
  "run_frame (w\<lparr>w_entities := es, w_region := rg\<rparr>) = run_frame w"
  "run_frame (w\<lparr>w_state_sha256 := h\<rparr>) = run_frame w"
  by (simp_all add: run_frame_def)

lemma run_frame_config: "run_frame w' = run_frame w \<Longrightarrow> w_config w' = w_config w"
  by (simp add: run_frame_def)

lemma paint_cell_frame: "run_frame (paint_cell west ww y x w) = run_frame w"
  by (simp add: paint_cell_def Let_def)

lemma paint_rows_frame:
  "paint_rows fallback west base amp oy attempt ys w = (r, w') \<Longrightarrow> run_frame w' = run_frame w"
proof (induction ys arbitrary: w)
  case (Cons y ys)
  have "run_frame (fold (paint_cell west ww y) xs w) = run_frame w" for ww xs
    by (rule fold_invariant) (rule paint_cell_frame)
  then show ?case using Cons by (auto split: prod.splits if_splits)
qed simp

lemma assign_biomes_frame: "assign_biomes attempt cells w = (r, w') \<Longrightarrow> run_frame w' = run_frame w"
proof (induction cells arbitrary: w)
  case (Cons c cells)
  obtain y x where c: "c = (y, x)" by (cases c)
  define index where "index = y * grid_width w + x"
  show ?case
  proof (cases "terrain_at w index = FD_TERRAIN_WATER \<or> has_overlay w FD_TILE_OVERLAY_RIVER index")
    case True
    then show ?thesis using Cons.IH [of w] Cons.prems by (simp add: c index_def [symmetric])
  next
    case False
    obtain result v where d: "world_draw w FD_RNG_DOMAIN_BIOME_ASSIGNMENT (of_nat index) attempt 0
        FD_RNG_SITE_BIOME_TILE 1000000 0 = (result, v)" by (metis prod.exhaust)
    show ?thesis
    proof (cases "result = FD_OK")
      case True
      then obtain t where "assign_biomes attempt cells (tile_update index (\<lambda>u. u\<lparr>tl_terrain := t\<rparr>) w) = (r, w')"
        using Cons.prems False d by (simp add: c index_def [symmetric] Let_def)
      then show ?thesis using Cons.IH by fastforce
    next
      case other: False
      then show ?thesis using Cons.prems False d by (simp add: c index_def [symmetric] Let_def)
    qed
  qed
qed simp

lemma representatives_frame:
  "run_frame (construct_representatives west cx cy ix iy w) = run_frame w"
  by (simp add: construct_representatives_def set_terrain_def Let_def)

lemma initialize_entities_frame:
  "fd_initialize_entities w cx cy ix iy outlet attempt = (r, w') \<Longrightarrow> run_frame w' = run_frame w"
  by (auto simp: fd_initialize_entities_def Let_def split: prod.splits if_splits)

lemma settle_frame: "run_frame (settle i e w) = run_frame w"
  by (simp add: settle_def)

lemma construct_river_frame:
  "fd_construct_river w west ww oy sy tie = (r, w', outlet, n) \<Longrightarrow> run_frame w' = run_frame w"
proof -
  define p where "p = river_course_of w west ww oy sy tie"
  assume "fd_construct_river w west ww oy sy tie = (r, w', outlet, n)"
  note r = this [unfolded construct_river_lay, folded p_def]
  have frame: "run_frame a = run_frame b" if "river_frame a = river_frame b" for a b
    using that by (simp add: river_frame_def)
  obtain ok1 w1 where s: "fd_set_river_tile w (hd p) 100 = (ok1, w1)" by (metis prod.exhaust)
  then have f1: "run_frame w1 = run_frame w" using frame [OF set_river_tile_frame [of w "hd p" 100]] by simp
  let ?w2 = "tile_update (hd p) (\<lambda>t. t\<lparr>tl_overlays := tl_overlays t OR FD_TILE_RIVER_OUTLET\<rparr>) w1"
  obtain ok2 w5 where l: "lay_river (tl p) 100 ?w2 = (ok2, w5)" by (cases "lay_river (tl p) 100 ?w2")
  then have "run_frame w5 = run_frame w1" using frame [OF lay_river_frame [of "tl p" 100 ?w2]] by simp
  then show ?thesis
    using r f1 by (cases ok1; cases ok2) (auto simp: s l)
qed

section \<open>The layout is inside the grid\<close>

lemma draw_layout_cases:
  assumes "16 \<le> grid_height w"
  shows "case draw_layout w attempt of
    (r, None) \<Rightarrow> r = FD_ERR_CAPACITY
  | (r, Some ly) \<Rightarrow> r = FD_OK \<and> ly_outlet_y ly + 2 < grid_height w \<and> ly_source_y ly < grid_height w \<and>
      ly_river_tie ly \<le> 1"
proof -
  define H where "H = grid_height w"
  define range where "range = (if H div 3 < 3 then 3 else H div 3)"
  have H: "16 \<le> H" "H < 4294967296" using assms unat_lt_u32 by (simp_all add: H_def)
  have "range < 4294967296" "0 < range" using H by (auto simp: range_def)
  then have "unat (of_nat range :: u32) \<noteq> 0" by (simp add: unat_of_nat_u32)
  then have rz: "(of_nat range :: u32) \<noteq> 0" by auto
  obtain r1 v1 where d1: "world_draw w FD_RNG_DOMAIN_COAST 0 attempt 0 FD_RNG_SITE_COAST_FACING 2 0 = (r1, v1)"
    by (metis prod.exhaust)
  obtain r2 v2 where d2: "world_draw w FD_RNG_DOMAIN_SETTLEMENT_PLACEMENT 0 attempt 0
      FD_RNG_SITE_SETTLEMENT_ROW (of_nat range) 0 = (r2, v2)" by (metis prod.exhaust)
  obtain r3 v3 where d3: "world_draw w FD_RNG_DOMAIN_RIVER_SOURCE 0 attempt 0
      FD_RNG_SITE_RIVER_SOURCE_ROW 3 0 = (r3, v3)" by (metis prod.exhaust)
  obtain r4 v4 where d4: "world_draw w FD_RNG_DOMAIN_RIVER_TIE_BREAK 0 attempt 0
      FD_RNG_SITE_RIVER_TIE 2 0 = (r4, v4)" by (metis prod.exhaust)
  have res: "r1 \<in> {FD_OK, FD_ERR_CAPACITY}" "r2 \<in> {FD_OK, FD_ERR_CAPACITY}"
    "r3 \<in> {FD_OK, FD_ERR_CAPACITY}" "r4 \<in> {FD_OK, FD_ERR_CAPACITY}"
    using world_draw_result [of 2 w FD_RNG_DOMAIN_COAST 0 attempt 0 FD_RNG_SITE_COAST_FACING 0]
      world_draw_result [OF rz, of w FD_RNG_DOMAIN_SETTLEMENT_PLACEMENT 0 attempt 0 FD_RNG_SITE_SETTLEMENT_ROW 0]
      world_draw_result [of 3 w FD_RNG_DOMAIN_RIVER_SOURCE 0 attempt 0 FD_RNG_SITE_RIVER_SOURCE_ROW 0]
      world_draw_result [of 2 w FD_RNG_DOMAIN_RIVER_TIE_BREAK 0 attempt 0 FD_RNG_SITE_RIVER_TIE 0]
    by (simp_all add: d1 d2 d3 d4)
  have tie: "unat v4 \<le> 1" if "r4 = FD_OK"
    using world_draw_below [of 2 w, OF _ d4 [unfolded that]] by (simp add: word_less_nat_alt)
  show ?thesis
    unfolding draw_layout_def Let_def H_def [symmetric] range_def [symmetric] d1 d2 d3 d4 prod.case
    using res tie H by auto
qed

section \<open>What an attempt leaves\<close>

definition gen_grid :: "fd_world \<Rightarrow> bool" where
  "gen_grid w \<longleftrightarrow> 32 \<le> grid_width w \<and> grid_width w \<le> 256 \<and> 16 \<le> grid_height w \<and> grid_height w \<le> 128 \<and>
     unat (w_tile_count w) = grid_width w * grid_height w \<and> length (w_tiles w) = unat (w_tile_count w)"

lemma gen_grid_frame: "run_frame w' = run_frame w \<Longrightarrow> gen_grid w' = gen_grid w"
  by (simp add: gen_grid_def run_frame_def)

lemma gen_grid_tiled: "gen_grid w \<Longrightarrow> tiled w"
  by (simp add: gen_grid_def tiled_def mult.commute)

lemma gen_grid_road: "gen_grid w \<Longrightarrow> road_grid w"
proof -
  assume g: "gen_grid w"
  then have "grid_width w * grid_height w \<le> 256 * 128" unfolding gen_grid_def by (intro mult_le_mono) simp_all
  then show ?thesis using g by (simp add: gen_grid_def road_grid_def)
qed

text \<open>A candidate that has been accepted.\<close>

definition candidate_ok :: "fd_world \<Rightarrow> bool" where
  "candidate_ok v \<longleftrightarrow> world_valid v \<and> hash_consistent v \<and> length (w_state_sha256 v) = 32 \<and>
     length (w_entities v) = 6 \<and> (\<forall>e\<in>set (w_entities v). name_ok e \<and> length (en_name e) = 48) \<and>
     length (rg_settlement_ids (w_region v)) = 2 \<and> length (rg_foreign_faction_ids (w_region v)) = 2"

text \<open>The counts the generation report copies from the validation report.\<close>

definition counts_reported :: "fd_validation_report \<Rightarrow> fd_world \<Rightarrow> bool" where
  "counts_reported rep w \<longleftrightarrow> vr_land_tile_count rep = w_land_tile_count w \<and>
     vr_river_tile_count rep = w_river_tile_count w \<and> vr_road_tile_count rep = w_road_tile_count w"

lemma validate_counts:
  assumes "fd_world_validate_internal (Some w) (Some rep) d = ((FD_OK, d'), rep')"
  shows "world_valid w" and "counts_reported (the rep') w"
proof -
  show v: "world_valid w" using validate_OK_iff [of w rep d] assms by simp
  then obtain rc outlet dc cr where
    facts: "fd_validate_river w = Some (rc, outlet)" "unat (w_river_tile_count w) = rc"
      "fd_validate_road w = Some (dc, cr)" "unat (w_road_tile_count w) = dc"
      "unat (w_land_tile_count w) = ts_land (validate_tiles w)" by (auto simp: world_valid_def)
  have wide: "(of_nat (unat x) :: u32) = x" for x by simp
  have "rep' = snd (fd_world_validate_internal (Some w) (Some rep) d)" by (simp add: assms)
  then show "counts_reported (the rep') w"
    using facts(1,3) unfolding counts_reported_def
    by (simp add: fd_world_validate_internal_def Let_def facts(2,4,5) [symmetric])
qed

definition generated :: "'u gen_state \<Rightarrow> 'u gen_state \<Rightarrow> fd_result \<Rightarrow> bool" where
  "generated s s' r \<longleftrightarrow> books (gs_context s') = books (gs_context s) \<and>
     run_frame (gs_world s') = run_frame (gs_world s) \<and>
     gs_reason s' \<in> {FD_GEN_REJECT_TERRAIN_COVERAGE, FD_GEN_REJECT_HYDROLOGY,
       FD_GEN_REJECT_SETTLEMENT_PLACEMENT, FD_GEN_REJECT_ROAD_CORRIDOR, FD_GEN_REJECT_INVARIANT} \<and>
     (r = FD_OK \<longrightarrow> candidate_ok (gs_world s') \<and> counts_reported (gs_validation s') (gs_world s'))"

lemma rejection_reasons: "rejection_reason rep \<in> {2, 3, 4, 5, 6}"
  by (simp add: rejection_reason_def)

lemma accept_candidate_generated:
  assumes acc: "accept_candidate s = (r, s')" and reason: "gs_reason s \<in> {2, 3, 4, 5, 6}"
    and names: "length (w_entities (gs_world s)) = 6"
      "\<forall>e\<in>set (w_entities (gs_world s)). name_ok e \<and> length (en_name e) = 48"
    and region: "length (rg_settlement_ids (w_region (gs_world s))) = 2"
      "length (rg_foreign_faction_ids (w_region (gs_world s))) = 2"
  shows "generated s s' r"
proof -
  define w1 where "w1 = (gs_world s)\<lparr>w_region := (w_region (gs_world s))\<lparr>
    rg_river_tile_count := w_river_tile_count (gs_world s), rg_road_tile_count := w_road_tile_count (gs_world s)\<rparr>\<rparr>"
  obtain result diag validation where v: "fd_world_validate_internal (Some w1) (Some (gs_validation s)) (gs_diag s) =
      ((result, diag), validation)" by (metis prod.exhaust)
  have frame: "run_frame w1 = run_frame (gs_world s)" by (simp add: w1_def)
  show ?thesis
  proof (cases "result = FD_OK")
    case False
    then have "r = FD_ERR_GENERATION_EXHAUSTED" "s' = s\<lparr>gs_world := w1, gs_validation := the validation,
        gs_diag := diag, gs_reason := rejection_reason (the validation)\<rparr>"
      using acc by (simp_all add: accept_candidate_def Let_def w1_def [symmetric] v)
    then show ?thesis using frame rejection_reasons [of "the validation"] by (simp add: generated_def fd_const)
  next
    case True
    define w2 where "w2 = w1\<lparr>w_state_sha256 := state_hash w1\<rparr>"
    have s': "r = FD_OK" "s' = s\<lparr>gs_validation := the validation, gs_diag := diag, gs_world := w2\<rparr>"
      using acc True by (simp_all add: accept_candidate_def Let_def w1_def [symmetric] v
          fd_world_compute_hash_def digest_world_parts w2_def)
    note vc = validate_counts [OF v [unfolded True]]
    have "world_valid w2"
      using vc(1) retick.valid [where w = w1 and t = "w_tick w1" and h = "state_hash w1"] by (simp add: w2_def)
    moreover have "hash_consistent w2"
      by (simp add: hash_consistent_def w2_def state_hash_def world_bytes_def world_parts_def)
    moreover have "length (w_state_sha256 w2) = 32" by (simp add: w2_def state_hash_def)
    ultimately have "candidate_ok w2"
      using names region by (simp add: candidate_ok_def) (simp add: w2_def w1_def)
    moreover have "counts_reported (the validation) w2" using vc(2) by (simp add: counts_reported_def w2_def)
    moreover have "run_frame w2 = run_frame (gs_world s)" using frame by (simp add: w2_def)
    ultimately show ?thesis using reason by (simp add: generated_def s')
  qed
qed

lemma settle_candidate_generated:
  assumes grid: "gen_grid (gs_world s)" and reason: "gs_reason s = FD_GEN_REJECT_INVARIANT"
    and coords: "cx < grid_width (gs_world s)" "cy < grid_height (gs_world s)"
      "ix < grid_width (gs_world s)" "iy < grid_height (gs_world s)"
  shows "\<exists>r s'. settle_candidate attempt fallback west cx cy ix iy outlet s = Some (r, s') \<and> generated s s' r"
proof -
  define w where "w = gs_world s"
  define W where "W = grid_width w"
  obtain r1 w1 where b: "assign_biomes attempt (grid_cells (grid_height w) W) w = (r1, w1)" by (metis prod.exhaust)
  have f1: "run_frame w1 = run_frame w" by (rule assign_biomes_frame [OF b])
  note run = settle_candidate_def [of attempt fallback west cx cy ix iy outlet s, folded w_def,
      unfolded Let_def, folded W_def, unfolded b prod.case]
  have early: "generated s s2 r" if "r \<noteq> FD_OK" "run_frame (gs_world s2) = run_frame w"
    "books (gs_context s2) = books (gs_context s)" "gs_reason s2 \<in> {5, 6}" for r s2
    using that by (auto simp: generated_def w_def)
  show ?thesis
  proof (cases "r1 = FD_OK")
    case False
    then show ?thesis using run early [of r1 "s\<lparr>gs_world := w1\<rparr>"] f1 reason by simp
  next
    case r1: True
    define w2 where "w2 = (if fallback then construct_representatives west cx cy ix iy w1 else w1)"
    have f2: "run_frame w2 = run_frame w" using f1 by (simp add: w2_def representatives_frame)
    obtain r3 w3 where e: "fd_initialize_entities w2 cx cy ix iy outlet attempt = (r3, w3)" by (metis prod.exhaust)
    have f3: "run_frame w3 = run_frame w" using initialize_entities_frame [OF e] f2 by simp
    show ?thesis
    proof (cases "r3 = FD_OK")
      case False
      then show ?thesis using run early [of r3 "s\<lparr>gs_world := w3\<rparr>"] f3 reason r1 e by (simp add: w2_def)
    next
      case r3: True
      define w4 where "w4 = settle (iy * W + ix) (en_id (w_entities w3 ! 2))
        (settle (cy * W + cx) (en_id (w_entities w3 ! 1)) w3)"
      have f4: "run_frame w4 = run_frame w" using f3 by (simp add: w4_def settle_frame)
      have g4: "gen_grid w4" using gen_grid_frame [OF f4] grid by (simp add: w_def)
      have n: "unat (w_tile_count w4) = W * grid_height w"
        using g4 run_frame_config [OF f4] by (simp add: gen_grid_def W_def)
      have idx: "cy * W + cx < unat (w_tile_count w4)" "iy * W + ix < unat (w_tile_count w4)"
        using coords grid_index(1) [of cx W cy "grid_height w"] grid_index(1) [of ix W iy "grid_height w"]
        unfolding n by (simp_all add: W_def w_def)
      obtain r5 ctx w5 where road: "fd_construct_road (gs_context s) w4 (cy * W + cx) (iy * W + ix) attempt =
          Some (r5, ctx, w5)" and bk: "books ctx = books (gs_context s)" and f5: "stage_frame w5 = stage_frame w4"
        by (rule construct_road_cases [OF gen_grid_road [OF g4] idx, of "gs_context s" attempt])
      have f5': "run_frame w5 = run_frame w" "w_entities w5 = w_entities w3" "w_region w5 = w_region w3"
        using f5 f4 by (simp_all add: stage_frame_def w4_def settle_def)
      define s5 where "s5 = s\<lparr>gs_context := ctx, gs_world := w5\<rparr>"
      have after: "settle_candidate attempt fallback west cx cy ix iy outlet s =
          (if r5 \<noteq> FD_OK then Some (r5, s5\<lparr>gs_reason := FD_GEN_REJECT_ROAD_CORRIDOR\<rparr>)
           else Some (accept_candidate s5))"
        using run r1 e r3 road by (simp add: w2_def w4_def s5_def)
      show ?thesis
      proof (cases "r5 = FD_OK")
        case False
        then show ?thesis
          using after early [of r5 "s5\<lparr>gs_reason := FD_GEN_REJECT_ROAD_CORRIDOR\<rparr>"] f5' bk
          by (simp add: s5_def)
      next
        case r5: True
        obtain r s' where acc: "accept_candidate s5 = (r, s')" by (metis prod.exhaust)
        have ent: "length (w_entities w3) = 6 \<and>
          (\<forall>e\<in>set (w_entities w3). name_ok e \<and> length (en_name e) = 48) \<and>
          length (rg_settlement_ids (w_region w3)) = 2 \<and> length (rg_foreign_faction_ids (w_region w3)) = 2"
          by (rule initialize_entities_OK [OF e [unfolded r3]]) simp
        have "generated s5 s' r"
          using accept_candidate_generated [OF acc] ent f5' reason by (simp add: s5_def)
        then have "generated s s' r" using bk f5' by (simp add: generated_def s5_def w_def)
        then show ?thesis using after acc r5 by simp
      qed
    qed
  qed
qed

text \<open>Every attempt returns.\<close>

lemma generate_candidate_generated:
  assumes grid: "gen_grid (gs_world s)"
  shows "\<exists>r s'. fd_generate_candidate attempt fallback s = Some (r, s') \<and> generated s s' r"
proof -
  define s0 where "s0 = s\<lparr>gs_reason := FD_GEN_REJECT_INVARIANT\<rparr>"
  define w where "w = gs_world s0"
  define W H where "W = grid_width w" and "H = grid_height w"
  define base where "base = (W * 30) div 100"
  define amp where "amp = (if W div 32 = 0 then 1 else W div 32)"
  have g: "gen_grid w" using grid by (simp add: w_def s0_def)
  have dims: "32 \<le> W" "W \<le> 256" "16 \<le> H" "H \<le> 128" using g by (simp_all add: gen_grid_def W_def H_def)
  note run = fd_generate_candidate_def [of attempt fallback s, unfolded Let_def, folded s0_def, folded w_def,
      folded W_def H_def, folded base_def amp_def]
  have self: "gs_world s = w" "gs_context s = gs_context s0" by (simp_all add: w_def s0_def)
  have early: "generated s s2 r" if "r \<noteq> FD_OK" "run_frame (gs_world s2) = run_frame w"
    "books (gs_context s2) = books (gs_context s0)" "gs_reason s2 \<in> {3, 6}" for r s2
    using that self by (auto simp: generated_def)
  obtain r0 oly where ly: "draw_layout w attempt = (r0, oly)" by (metis prod.exhaust)
  have layout: "case oly of None \<Rightarrow> r0 = FD_ERR_CAPACITY | Some ly \<Rightarrow> r0 = FD_OK \<and>
      ly_outlet_y ly + 2 < H \<and> ly_source_y ly < H \<and> ly_river_tie ly \<le> 1"
    using draw_layout_cases [of w attempt] dims(3) unfolding ly H_def by (cases oly) simp_all
  show ?thesis
  proof (cases oly)
    case None
    then have "r0 \<noteq> FD_OK" using layout by (simp add: fd_const)
    then show ?thesis
      using run ly None early [of r0 s0] by (simp add: w_def s0_def)
  next
    case (Some l)
    have l: "ly_outlet_y l + 2 < H" "ly_source_y l < H" using layout Some by simp_all
    obtain r1 w1 where p: "paint_rows fallback (ly_west_water l) base amp (ly_outlet_y l) attempt [0..<H]
        (clear_land w) = (r1, w1)" by (metis prod.exhaust)
    have "run_frame (clear_land w) = run_frame w" using g by (simp add: clear_land_def run_frame_def gen_grid_def)
    then have f1: "run_frame w1 = run_frame w" using paint_rows_frame [OF p] by simp
    show ?thesis
    proof (cases "r1 = FD_OK")
      case False
      then show ?thesis
        using run ly Some p f1 early [of r1 "s0\<lparr>gs_world := w1\<rparr>"] by (simp add: s0_def)
    next
      case r1: True
      have "tiled w1" using gen_grid_tiled gen_grid_frame [OF f1] g by simp
      from elevation_fields_bounded_lemma [OF this, of "gs_context s0" attempt] obtain r2 ctx w2 where
        el: "fd_apply_elevation_fields (gs_context s0) w1 attempt = (r2, ctx, w2)"
        and bk: "books ctx = books (gs_context s0)" and "stage_frame w2 = stage_frame w1" by blast
      then have f2: "run_frame w2 = run_frame w" using f1 by (simp add: stage_frame_def)
      define s2 where "s2 = s0\<lparr>gs_context := ctx, gs_world := w2\<rparr>"
      show ?thesis
      proof (cases "r2 = FD_OK")
        case False
        then show ?thesis
          using run ly Some p r1 el f2 bk early [of r2 s2] by (simp add: s2_def s0_def)
      next
        case r2: True
        obtain r3 w3 outlet n where rv: "fd_construct_river w2 (ly_west_water l) base (ly_outlet_y l)
            (ly_source_y l) (ly_river_tie l) = (r3, w3, outlet, n)" by (metis prod.exhaust)
        have f3: "run_frame w3 = run_frame w" using construct_river_frame [OF rv] f2 by simp
        show ?thesis
        proof (cases "r3 = FD_OK")
          case False
          then show ?thesis
            using run ly Some p r1 el r2 rv f3 bk
              early [of r3 "s2\<lparr>gs_world := w3, gs_reason := FD_GEN_REJECT_HYDROLOGY\<rparr>"]
            by (simp add: s2_def s0_def)
        next
          case r3: True
          define s3 where "s3 = s2\<lparr>gs_world := w3\<lparr>w_river_tile_count := the n\<rparr>\<rparr>"
          define cx where "cx = fd_coast_x (ly_west_water l) W base"
          define ix where "ix = (if ly_west_water l then W - 3 else 2)"
          have after: "fd_generate_candidate attempt fallback s =
              settle_candidate attempt fallback (ly_west_water l) cx (ly_outlet_y l + 1) ix (H - 3) outlet s3"
            using run ly Some p r1 el r2 rv r3 by (simp add: s3_def s2_def cx_def ix_def)
          have w3: "run_frame (gs_world s3) = run_frame w" using f3 by (simp add: s3_def)
          have dims3: "grid_width (gs_world s3) = W" "grid_height (gs_world s3) = H"
            using run_frame_config [OF w3] by (simp_all add: W_def H_def)
          have "base < W" "cx < W" "ix < W"
            using dims by (auto simp: cx_def ix_def fd_coast_x_def base_def)
          then have "\<exists>r s'. settle_candidate attempt fallback (ly_west_water l) cx (ly_outlet_y l + 1) ix
              (H - 3) outlet s3 = Some (r, s') \<and> generated s3 s' r"
            using gen_grid_frame [OF w3] g l dims
            by (intro settle_candidate_generated) (simp_all only: dims3, simp_all add: s3_def s2_def s0_def)
          moreover have "generated s s' r" if "generated s3 s' r" for s' r
            using that w3 bk self by (simp add: generated_def s3_def s2_def)
          ultimately show ?thesis unfolding after by blast
        qed
      qed
    qed
  qed
qed

end
