(* ===== verification/FD_Generate.thy ===== *)
theory FD_Generate
  imports FD_Candidate FD_Loaded
begin

text \<open>
  World generation, \<open>fd_world_generate\<close> of \<^verbatim>\<open>src/core/fd_generate.c\<close>: input checks, the report, the two
  allocations, and the bounded series of attempts of \<open>FD_Candidate\<close>, the last of which constructs
  what chance did not bring.
\<close>

unbundle bit_operations_syntax

record fd_generation_attempt =
  ga_attempt_index :: u32
  ga_reason_code :: u32

record fd_generation_report =
  gr_struct_size :: u32
  gr_abi_version :: u32
  gr_accepted_attempt :: u32
  gr_rejected_count :: u32
  gr_recorded_count :: u32
  gr_land_tile_count :: u32
  gr_river_tile_count :: u32
  gr_road_tile_count :: u32
  gr_river_raised_tile_count :: u32
  gr_river_min_carve_cm :: u32
  gr_root_seed_le :: bytes
  gr_configuration_sha256 :: bytes
  gr_content_sha256 :: bytes
  gr_initial_state_sha256 :: bytes
  gr_attempts :: "fd_generation_attempt list"

section \<open>The report\<close>

definition initial_report :: "fd_world_config \<Rightarrow> u64 \<Rightarrow> fd_content_manifest \<Rightarrow> fd_generation_report" where
  "initial_report config seed content =
     \<lparr>gr_struct_size = 664, gr_abi_version = FD_ABI_VERSION, gr_accepted_attempt = - 1,
      gr_rejected_count = 0, gr_recorded_count = 0, gr_land_tile_count = 0, gr_river_tile_count = 0,
      gr_road_tile_count = 0, gr_river_raised_tile_count = 0, gr_river_min_carve_cm = 0,
      gr_root_seed_le = fd_store_u64_le seed @ replicate 8 0,
      gr_configuration_sha256 = fd_hash_config_internal config,
      gr_content_sha256 = fd_hash_content_internal content,
      gr_initial_state_sha256 = replicate 32 0,
      gr_attempts = replicate 64 \<lparr>ga_attempt_index = 0, ga_reason_code = 0\<rparr>\<rparr>"

definition record_rejection :: "nat \<Rightarrow> u32 \<Rightarrow> fd_generation_report \<Rightarrow> fd_generation_report" where
  "record_rejection attempt reason report =
     report\<lparr>gr_attempts := (gr_attempts report)[unat (gr_recorded_count report) :=
              \<lparr>ga_attempt_index = of_nat attempt, ga_reason_code = reason\<rparr>],
            gr_recorded_count := gr_recorded_count report + 1,
            gr_rejected_count := gr_rejected_count report + 1\<rparr>"

definition record_acceptance ::
    "nat \<Rightarrow> fd_validation_report \<Rightarrow> fd_world \<Rightarrow> fd_generation_report \<Rightarrow> fd_generation_report" where
  "record_acceptance attempt validation w report =
     report\<lparr>gr_accepted_attempt := of_nat attempt,
            gr_land_tile_count := vr_land_tile_count validation,
            gr_river_tile_count := vr_river_tile_count validation,
            gr_road_tile_count := vr_road_tile_count validation,
            gr_river_raised_tile_count := w_river_raised_tile_count w,
            gr_river_min_carve_cm := w_river_min_carve_cm w,
            gr_initial_state_sha256 := w_state_sha256 w\<rparr>"

definition report_zero_density :: "fd_world_config \<Rightarrow> fd_generation_report \<Rightarrow> fd_generation_report" where
  "report_zero_density config report =
     report\<lparr>gr_attempts := fold (\<lambda>attempt xs. xs[attempt :=
                \<lparr>ga_attempt_index = of_nat attempt, ga_reason_code = FD_GEN_REJECT_REQUIRED_DENSITY_ZERO\<rparr>])
              [0..<unat (wc_attempt_budget config)] (gr_attempts report),
            gr_rejected_count := wc_attempt_budget config,
            gr_recorded_count := wc_attempt_budget config\<rparr>"

section \<open>The attempts\<close>

text \<open>\<open>(result, report, context, world, diag)\<close> when the loop is left; \<open>previous\<close> is the result of
  the attempt before.\<close>

fun gen_attempts ::
    "u32 \<Rightarrow> nat list \<Rightarrow> fd_result \<Rightarrow> fd_generation_report \<Rightarrow> 'u fd_context \<Rightarrow> fd_world \<Rightarrow> diag \<Rightarrow>
     (fd_result \<times> fd_generation_report \<times> 'u fd_context \<times> fd_world \<times> diag) option" where
  "gen_attempts budget [] previous report ctx w diag = Some (previous, report, ctx, w, diag)"
| "gen_attempts budget (attempt # attempts) previous report ctx w diag =
     (case fd_generate_candidate (of_nat attempt) (of_nat attempt + 1 = budget)
             \<lparr>gs_context = ctx, gs_world = w, gs_validation = blank_report,
              gs_reason = FD_GEN_REJECT_INVARIANT, gs_diag = diag\<rparr> of
        None \<Rightarrow> None
      | Some (result, s) \<Rightarrow>
          if result = FD_OK
          then Some (FD_OK, record_acceptance attempt (gs_validation s) (gs_world s) report,
                 gs_context s, gs_world s, gs_diag s)
          else
            let report' = record_rejection attempt (gs_reason s) report in
            if result = FD_ERR_OUT_OF_MEMORY
            then Some (result, report', gs_context s, gs_world s, gs_diag s)
            else gen_attempts budget attempts result report' (gs_context s) (gs_world s) (gs_diag s))"

section \<open>The generator\<close>

text \<open>The world block as it is set up before the first attempt; its tiles come uninitialised, here
  zeros, and every attempt clears them before it reads one.\<close>

definition seeded_world ::
    "nat \<Rightarrow> fd_world_config \<Rightarrow> u64 \<Rightarrow> fd_content_manifest \<Rightarrow> fd_generation_report \<Rightarrow> fd_world" where
  "seeded_world owner config seed content report =
     blank_world\<lparr>w_context := owner,
       w_config := config\<lparr>wc_struct_size := 76, wc_abi_version := FD_ABI_VERSION\<rparr>,
       w_tile_count := wc_width config * wc_height config,
       w_allocation_size := ucast (world_tile_bytes config + 1544),
       w_root_seed_le := fd_store_u64_le seed @ replicate 8 0,
       w_content_count := cm_pack_count content,
       w_content := take (unat (cm_pack_count content)) (case cm_packs content of None \<Rightarrow> [] | Some ps \<Rightarrow> ps),
       w_configuration_sha256 := gr_configuration_sha256 report,
       w_content_sha256 := gr_content_sha256 report,
       w_tiles := replicate (unat (wc_width config * wc_height config)) (grid_tile 0 0 0)\<rparr>"

definition fd_world_generate ::
    "'u fd_context option \<Rightarrow> fd_world_config option \<Rightarrow> u64 \<Rightarrow> fd_content_manifest option
       \<Rightarrow> fd_world option option \<Rightarrow> fd_generation_report option \<Rightarrow> diag
       \<Rightarrow> ((fd_result \<times> diag) \<times> 'u fd_context option \<times> fd_world option option \<times>
           fd_generation_report option) option" where
  "fd_world_generate context config seed content out report diag =
     (if out = None
      then Some (fd_diag_set diag FD_ERR_INVALID_ARGUMENT FD_FIELD_NONE 0 (str ''world output is null''),
             context, None, report)
      else case context of
        None \<Rightarrow> Some (fd_diag_set diag FD_ERR_INVALID_ARGUMENT FD_FIELD_NONE 0 (str ''context is null''),
                  None, Some None, report)
      | Some ctx \<Rightarrow>
          if report \<noteq> None \<and>
             \<not> fd_output_struct_valid (map_option (\<lambda>r. (gr_struct_size r, gr_abi_version r)) report) 664
          then Some (fd_diag_set diag FD_ERR_INVALID_SIZE FD_FIELD_STRUCT_SIZE 0
                  (str ''invalid generation report output''), context, Some None, report)
          else case fd_validate_generation_inputs_internal config content diag of
            (result, diag1) \<Rightarrow>
          if result \<noteq> FD_OK then Some ((result, diag1), context, Some None, report)
          else
            let c = the config; m = the content;
                local = initial_report c seed m;
                publish = (\<lambda>r. if report = None then None else Some r)
            in if wc_forest_density_ppm c = 0 \<or> wc_hill_density_ppm c = 0 \<or> wc_wetland_density_ppm c = 0
               then Some (fd_diag_set diag1 FD_ERR_GENERATION_EXHAUSTED FD_FIELD_TERRAIN_DENSITY
                        (wc_attempt_budget c - 1)
                        (str ''required terrain density makes generation impossible''),
                      context, Some None, publish (report_zero_density c local))
               else
                 let tile_bytes = world_tile_bytes c; world_bytes = tile_bytes + 1544
                 in if world_bytes > cx_max_live_world_bytes ctx \<or> tile_bytes > 0xffffffff
                    then Some (fd_diag_set diag1 FD_ERR_CAPACITY FD_FIELD_BUFFER_CAPACITY 0
                            (str ''configured world exceeds context byte limit''), context, Some None, report)
                    else case fd_context_alloc ctx 1544 of
                      (False, ctx1) \<Rightarrow>
                        Some (fd_diag_set diag1 FD_ERR_OUT_OF_MEMORY FD_FIELD_NONE 0
                            (str ''world allocation failed''), Some ctx1, Some None, report)
                    | (True, ctx1) \<Rightarrow>
                        (case fd_context_alloc ctx1 tile_bytes of
                           (False, ctx2) \<Rightarrow>
                             Some (fd_diag_set diag1 FD_ERR_OUT_OF_MEMORY FD_FIELD_NONE 0
                                 (str ''world tile allocation failed''), Some (fd_context_free ctx2 1544),
                               Some None, report)
                         | (True, ctx2) \<Rightarrow>
                             (case gen_attempts (wc_attempt_budget c) [0..<unat (wc_attempt_budget c)] FD_OK
                                     local ctx2 (seeded_world (cx_id ctx) c seed m local) diag1 of
                                None \<Rightarrow> None
                              | Some (result, final, ctx3, w, diag2) \<Rightarrow>
                                  if result = FD_OK
                                  then Some (fd_diag_ok diag2, Some (handle_acquire ctx3), Some (Some w),
                                         publish final)
                                  else Some (fd_diag_set diag2
                                           (if result = FD_ERR_OUT_OF_MEMORY then FD_ERR_OUT_OF_MEMORY
                                            else FD_ERR_GENERATION_EXHAUSTED)
                                           FD_FIELD_ATTEMPT_BUDGET (gr_rejected_count final)
                                           (str ''bounded generation exhausted without publishing a world''),
                                         Some (fd_context_free (fd_context_free ctx3 tile_bytes) 1544),
                                         Some None, publish final))))"

section \<open>Accepted inputs\<close>

text \<open>What the C types of the two inputs say: eight reserved words, and packs with 32-byte digests, at
  least as many as the count.\<close>

definition manifest_packs :: "fd_content_manifest \<Rightarrow> fd_content_pack list" where
  "manifest_packs m =
     take (unat (cm_pack_count m)) (case cm_packs m of None \<Rightarrow> [] | Some ps \<Rightarrow> ps)"

definition inputs_shape :: "fd_world_config \<Rightarrow> fd_content_manifest \<Rightarrow> bool" where
  "inputs_shape c m \<longleftrightarrow> length (wc_reserved c) = 8 \<and>
     (case cm_packs m of None \<Rightarrow> True
      | Some ps \<Rightarrow> unat (cm_pack_count m) \<le> length ps \<and> (\<forall>p\<in>set ps. length (cp_sha256 p) = 32))"

definition trimmed :: "fd_content_manifest \<Rightarrow> fd_content_manifest" where
  "trimmed m = m\<lparr>cm_packs := Some (manifest_packs m)\<rparr>"

lemma bad_pack_take: "n \<le> length ps \<Longrightarrow> bad_pack (take n ps) n = bad_pack ps n"
  unfolding bad_pack_def by (rule find_cong) auto

lemma manifest_head: "manifest_header (Some (trimmed m)) = manifest_header (Some m)"
  by (simp add: manifest_header_def trimmed_def)

lemma accepted_packs:
  assumes ok: "fst (fd_validate_generation_inputs_internal (Some c) (Some m) d) = FD_OK"
  shows "cm_packs m = None \<Longrightarrow> cm_pack_count m = 0"
  using ok unfolding fd_validate_generation_inputs_internal_def Let_def
  by (auto simp: guard_simps word_gt_0 split: if_splits)

lemma accepted_trimmed:
  assumes ok: "fst (fd_validate_generation_inputs_internal (Some c) (Some m) d) = FD_OK"
    and sh: "inputs_shape c m"
  shows "fst (fd_validate_generation_inputs_internal (Some c) (Some (trimmed m)) d) = FD_OK"
    and "unat (cm_pack_count m) = length (manifest_packs m)"
proof -
  show len: "unat (cm_pack_count m) = length (manifest_packs m)"
    using accepted_packs [OF ok] sh by (auto simp: manifest_packs_def inputs_shape_def split: option.splits)
  have bad: "bad_pack (manifest_packs m) (unat (cm_pack_count m)) = bad_pack (the (cm_packs m)) (unat (cm_pack_count m))"
  proof (cases "cm_packs m")
    case None
    then show ?thesis using accepted_packs [OF ok] by (simp add: bad_pack_def)
  next
    case (Some ps)
    then show ?thesis using sh by (simp add: manifest_packs_def inputs_shape_def bad_pack_take)
  qed
  have fields: "the (cm_packs (trimmed m)) = manifest_packs m" "cm_pack_count (trimmed m) = cm_pack_count m"
    "cm_reserved (trimmed m) = cm_reserved m" "cm_packs (trimmed m) = Some (manifest_packs m)" by (simp_all add: trimmed_def)
  show "fst (fd_validate_generation_inputs_internal (Some c) (Some (trimmed m)) d) = FD_OK"
    using ok unfolding fd_validate_generation_inputs_internal_def Let_def manifest_head option.sel fields bad
    by (auto simp: guard_simps split: if_splits option.splits)
qed

lemma accepted_inputs:
  assumes "fst (fd_validate_generation_inputs_internal (Some c) (Some m) d) = FD_OK" and "inputs_shape c m"
  shows "config_ok c" "packs_ok (manifest_packs m)" "unat (cm_pack_count m) \<le> 16"
    "length (manifest_packs m) = unat (cm_pack_count m)"
    "\<forall>p\<in>set (manifest_packs m). length (cp_sha256 p) = 32"
proof -
  note t = accepted_trimmed [OF assms]
  have p: "cm_packs (trimmed m) = Some (manifest_packs m)"
    and n: "unat (cm_pack_count (trimmed m)) = length (manifest_packs m)"
    using t(2) by (simp_all add: trimmed_def)
  show "config_ok c" "packs_ok (manifest_packs m)" "unat (cm_pack_count m) \<le> 16"
    "length (manifest_packs m) = unat (cm_pack_count m)"
    using t inputs_OK_iff [OF p n] by simp_all
  show "\<forall>p\<in>set (manifest_packs m). length (cp_sha256 p) = 32"
    using assms(2) by (auto simp: manifest_packs_def inputs_shape_def split: option.splits dest: in_set_takeD)
qed

lemma content_hash_packs:
  assumes "cm_pack_count m' = cm_pack_count m" and "cm_packs m' = Some (manifest_packs m)"
    and "length (manifest_packs m) = unat (cm_pack_count m)"
  shows "fd_hash_content_internal m' = fd_hash_content_internal m"
proof -
  have "manifest_packs m ! i = the (cm_packs m) ! i" if "i < unat (cm_pack_count m)" for i
    using that assms(3) by (auto simp: manifest_packs_def split: option.splits)
  then have "map (\<lambda>i. pack_parts (the (cm_packs m') ! i)) [0..<unat (cm_pack_count m)] =
      map (\<lambda>i. pack_parts (the (cm_packs m) ! i)) [0..<unat (cm_pack_count m)]"
    using assms(2) by simp
  then show ?thesis by (simp only: fd_hash_content_internal_def assms(1))
qed

section \<open>From the seeded world to a storable one\<close>

lemma seeded_grid:
  assumes "config_ok c"
  shows "gen_grid (seeded_world owner c seed m report)"
proof -
  have dims: "unat (wc_width c) \<le> 256" "unat (wc_height c) \<le> 128" "32 \<le> unat (wc_width c)" "16 \<le> unat (wc_height c)"
    using assms by (simp_all add: config_ok_def)
  show ?thesis
    using dims product_in_range(1) [OF dims(1,2)] by (simp add: gen_grid_def seeded_world_def)
qed

lemma candidate_storable:
  assumes frame: "run_frame v = run_frame (seeded_world owner c seed m (initial_report c seed m))"
    and ok: "candidate_ok v" and inputs: "fst (fd_validate_generation_inputs_internal (Some c) (Some m) d) = FD_OK"
    and sh: "inputs_shape c m"
    and density: "\<not> (wc_forest_density_ppm c = 0 \<or> wc_hill_density_ppm c = 0 \<or> wc_wetland_density_ppm c = 0)"
  shows "storable v" "w_tick v = 0" "w_context v = owner" "w_config v = c\<lparr>wc_struct_size := 76, wc_abi_version := 1\<rparr>"
proof -
  note acc = accepted_inputs [OF inputs sh]
  let ?w = "seeded_world owner c seed m (initial_report c seed m)"
  have fields: "w_context v = owner" "w_config v = c\<lparr>wc_struct_size := 76, wc_abi_version := 1\<rparr>"
    "w_root_seed_le v = fd_store_u64_le seed @ replicate 8 0" "w_content_count v = cm_pack_count m"
    "w_content v = manifest_packs m" "w_configuration_sha256 v = fd_hash_config_internal c"
    "w_content_sha256 v = fd_hash_content_internal m" "w_tick v = 0"
    "length (w_tiles v) = unat (w_tile_count v)"
    using frame by (simp_all add: run_frame_def seeded_world_def initial_report_def blank_world_def manifest_packs_def)
  show "w_tick v = 0" "w_context v = owner" "w_config v = c\<lparr>wc_struct_size := 76, wc_abi_version := 1\<rparr>"
    by (fact fields)+
  have names: "\<forall>e\<in>set (w_entities v). name_ok e \<and> length (en_name e) = 48 \<and> unat (en_name_length e) < 48"
    using ok by (auto simp: candidate_ok_def name_ok_def fd_u01_name_valid_def split: if_splits)
  have hashes: "length (fd_hash_config_internal x) = 32" "length (fd_hash_content_internal y) = 32" for x y
    by (simp_all add: fd_hash_config_internal_def fd_hash_content_internal_def)
  have "world_shape v"
    using ok acc names sh by (simp add: world_shape_def fields candidate_ok_def hashes inputs_shape_def)
  moreover have "config_ok (w_config v)" using acc(1) by (simp add: fields config_ok_def)
  moreover have "fd_hash_config_internal (w_config v) = fd_hash_config_internal c"
    by (simp add: fields fd_hash_config_internal_def)
  moreover have "fd_hash_content_internal (world_manifest v) = fd_hash_content_internal m"
    using acc(4) by (intro content_hash_packs) (simp_all add: world_manifest_def fields)
  ultimately show "storable v"
    using ok acc(2) names density by (simp add: storable_def fields candidate_ok_def)
qed

section \<open>What the attempts leave\<close>

text \<open>\<open>k\<close> attempts have been refused, each with its index and one of the five reasons of an attempt.\<close>

definition refused :: "nat \<Rightarrow> fd_generation_report \<Rightarrow> bool" where
  "refused k report \<longleftrightarrow> gr_rejected_count report = of_nat k \<and> gr_recorded_count report = of_nat k \<and>
     length (gr_attempts report) = 64 \<and>
     (\<forall>i<k. ga_attempt_index (gr_attempts report ! i) = of_nat i \<and>
        ga_reason_code (gr_attempts report ! i) \<in>
          {FD_GEN_REJECT_TERRAIN_COVERAGE, FD_GEN_REJECT_HYDROLOGY, FD_GEN_REJECT_SETTLEMENT_PLACEMENT,
           FD_GEN_REJECT_ROAD_CORRIDOR, FD_GEN_REJECT_INVARIANT})"

text \<open>The part of the report that only repeats the inputs.\<close>

definition report_inputs :: "fd_generation_report \<Rightarrow> _" where
  "report_inputs r = (gr_struct_size r, gr_abi_version r, gr_root_seed_le r, gr_configuration_sha256 r,
     gr_content_sha256 r)"

definition report_describes :: "fd_generation_report \<Rightarrow> fd_world \<Rightarrow> bool" where
  "report_describes r w \<longleftrightarrow> gr_land_tile_count r = w_land_tile_count w \<and>
     gr_river_tile_count r = w_river_tile_count w \<and> gr_road_tile_count r = w_road_tile_count w \<and>
     gr_river_raised_tile_count r = w_river_raised_tile_count w \<and>
     gr_river_min_carve_cm r = w_river_min_carve_cm w \<and> gr_initial_state_sha256 r = w_state_sha256 w"

definition attempts_left ::
    "nat \<Rightarrow> fd_generation_report \<Rightarrow> fd_result \<Rightarrow> fd_generation_report \<Rightarrow> fd_world \<Rightarrow> bool" where
  "attempts_left n report result final w \<longleftrightarrow> report_inputs final = report_inputs report \<and>
     (if result = FD_OK
      then \<exists>j<n. gr_accepted_attempt final = of_nat j \<and> refused j final \<and> candidate_ok w \<and> report_describes final w
      else gr_accepted_attempt final = gr_accepted_attempt report \<and>
        (\<exists>j\<le>n. refused j final \<and> (if result = FD_ERR_OUT_OF_MEMORY then 0 < j else j = n)))"

lemma refused_record:
  assumes "refused k report" and "k < 64" and "reason \<in> {2, 3, 4, 5, 6}"
  shows "refused (Suc k) (record_rejection k reason report)"
  using assms by (auto simp: refused_def record_rejection_def unat_of_nat nth_upd less_Suc_eq)

lemma report_frames:
  "report_inputs (record_rejection k reason report) = report_inputs report"
  "gr_accepted_attempt (record_rejection k reason report) = gr_accepted_attempt report"
  "report_inputs (record_acceptance k validation w report) = report_inputs report"
  "gr_accepted_attempt (record_acceptance k validation w report) = of_nat k"
  "refused j (record_acceptance k validation w report) = refused j report"
  by (simp_all add: report_inputs_def record_rejection_def record_acceptance_def refused_def)

lemma acceptance_describes:
  "counts_reported validation w \<Longrightarrow> report_describes (record_acceptance k validation w report) w"
  by (simp add: report_describes_def record_acceptance_def counts_reported_def)

lemma gen_attempts_left:
  assumes "gen_grid w" and "refused k report" and "k \<le> n" and "n \<le> 64" and "k < n \<or> previous \<noteq> FD_OK"
    and "previous \<noteq> FD_ERR_OUT_OF_MEMORY"
  shows "\<exists>result final ctx' v d'. gen_attempts budget [k..<n] previous report ctx w d =
      Some (result, final, ctx', v, d') \<and> books ctx' = books ctx \<and> run_frame v = run_frame w \<and>
      attempts_left n report result final v"
  using assms
proof (induction "n - k" arbitrary: k previous report ctx w d)
  case 0
  then have "k = n" "previous \<noteq> FD_OK" by simp_all
  then show ?case using 0 by (auto simp: attempts_left_def)
next
  case (Suc m)
  then have k: "k < n" "k < 64" by simp_all
  then have cons: "[k..<n] = k # [Suc k..<n]" by (simp add: upt_conv_Cons)
  define s where "s = \<lparr>gs_context = ctx, gs_world = w, gs_validation = blank_report,
    gs_reason = FD_GEN_REJECT_INVARIANT, gs_diag = d\<rparr>"
  have grid: "gen_grid (gs_world s)" using Suc.prems(1) by (simp add: s_def)
  obtain r s' where cand: "fd_generate_candidate (of_nat k) (of_nat k + 1 = budget) s = Some (r, s')"
    and g: "generated s s' r"
    using generate_candidate_generated [OF grid] by blast
  have frames: "books (gs_context s') = books ctx" "run_frame (gs_world s') = run_frame w"
    and reason: "gs_reason s' \<in> {2, 3, 4, 5, 6}"
    using g by (simp_all add: generated_def s_def)
  show ?case
  proof (cases "r = FD_OK")
    case True
    then have ok: "candidate_ok (gs_world s')" "counts_reported (gs_validation s') (gs_world s')"
      using g by (simp_all add: generated_def)
    have "attempts_left n report FD_OK (record_acceptance k (gs_validation s') (gs_world s') report) (gs_world s')"
      using k Suc.prems(2) ok acceptance_describes [OF ok(2)]
      by (auto simp: attempts_left_def report_frames)
    then show ?thesis using cand True frames by (simp add: cons s_def)
  next
    case bad: False
    have next_report: "refused (Suc k) (record_rejection k (gs_reason s') report)"
      using Suc.prems(2) k(2) reason by (rule refused_record)
    show ?thesis
    proof (cases "r = FD_ERR_OUT_OF_MEMORY")
      case True
      then have "attempts_left n report r (record_rejection k (gs_reason s') report) (gs_world s')"
        using k next_report bad by (auto simp: attempts_left_def report_frames intro!: exI [of _ "Suc k"])
      then show ?thesis using cand True bad frames by (simp add: cons s_def Let_def)
    next
      case False
      have left: "attempts_left n (record_rejection k (gs_reason s') report) = attempts_left n report"
        by (simp add: attempts_left_def [abs_def] report_frames)
      have step: "gen_attempts budget [k..<n] previous report ctx w d =
          gen_attempts budget [Suc k..<n] r (record_rejection k (gs_reason s') report) (gs_context s')
            (gs_world s') (gs_diag s')"
        using cand bad False by (simp add: cons s_def)
      show ?thesis
        unfolding step frames [symmetric] left [symmetric]
        using Suc.hyps(2) Suc.prems(4) k bad False
        by (intro Suc.hyps(1) next_report gen_grid_frame [OF frames(2), THEN iffD2, OF Suc.prems(1)]) simp_all
    qed
  qed
qed

section \<open>What a call comes to\<close>

lemma inputs_verdict: "fst (fd_validate_generation_inputs_internal c m d) \<noteq> FD_ERR_GENERATION_EXHAUSTED"
  unfolding fd_validate_generation_inputs_internal_def Let_def
  by (auto simp: fd_const split: option.splits)

lemma books_alloc_free:
  assumes "fd_context_alloc ctx n = (True, ctx1)" and "books ctx2 = books ctx1"
  shows "books (fd_context_free ctx2 n) = books ctx"
  using assms alloc_fields [OF assms(1)] by (simp add: books_def)

lemma books_alloc_fail: "fd_context_alloc ctx n = (False, ctx1) \<Longrightarrow> books ctx1 = books ctx"
  by (simp add: books_def alloc_fields)

definition zero_density :: "fd_world_config \<Rightarrow> bool" where
  "zero_density c \<longleftrightarrow>
     wc_forest_density_ppm c = 0 \<or> wc_hill_density_ppm c = 0 \<or> wc_wetland_density_ppm c = 0"

definition publish :: "fd_generation_report option \<Rightarrow> fd_generation_report \<Rightarrow> fd_generation_report option" where
  "publish report r = (if report = None then None else Some r)"

lemma initial_report_refused: "refused 0 (initial_report c seed m)"
  by (simp add: refused_def initial_report_def)

lemma world_generate_cases:
  fixes ctx :: "'u fd_context"
  assumes sh: "inputs_shape c m"
  obtains (declined) result d' ctx' where
    "fd_world_generate (Some ctx) (Some c) seed (Some m) (Some old) report diag =
       Some ((result, d'), Some ctx', Some None, report)"
    "result \<noteq> FD_OK" "result \<noteq> FD_ERR_GENERATION_EXHAUSTED" "books ctx' = books ctx"
  | (impossible) d' where "zero_density c" "config_ok c"
    "fd_world_generate (Some ctx) (Some c) seed (Some m) (Some old) report diag =
       Some ((FD_ERR_GENERATION_EXHAUSTED, d'), Some ctx, Some None,
         publish report (report_zero_density c (initial_report c seed m)))"
  | (given_up) result d' ctx' final j where "\<not> zero_density c" "config_ok c" "books ctx' = books ctx"
    "fd_world_generate (Some ctx) (Some c) seed (Some m) (Some old) report diag =
       Some ((result, d'), Some ctx', Some None, publish report final)"
    "result \<in> {FD_ERR_OUT_OF_MEMORY, FD_ERR_GENERATION_EXHAUSTED}"
    "report_inputs final = report_inputs (initial_report c seed m)" "gr_accepted_attempt final = - 1"
    "refused j final" "0 < j" "j \<le> unat (wc_attempt_budget c)"
    "result = FD_ERR_GENERATION_EXHAUSTED \<longrightarrow> j = unat (wc_attempt_budget c)"
  | (made) d' ctx' final w j where "\<not> zero_density c" "config_ok c"
    "fd_world_generate (Some ctx) (Some c) seed (Some m) (Some old) report diag =
       Some ((FD_OK, d'), Some ctx', Some (Some w), publish report final)"
    "charged (1544 + world_tile_bytes c) 1 ctx ctx'" "storable w" "w_tick w = 0" "w_context w = cx_id ctx"
    "w_config w = c\<lparr>wc_struct_size := 76, wc_abi_version := 1\<rparr>"
    "w_root_seed_le w = fd_store_u64_le seed @ replicate 8 0"
    "report_inputs final = report_inputs (initial_report c seed m)"
    "gr_accepted_attempt final = of_nat j" "j < unat (wc_attempt_budget c)" "refused j final"
    "report_describes final w"
proof -
  let ?run = "fd_world_generate (Some ctx) (Some c) seed (Some m) (Some old) report diag"
  define bad where "bad \<longleftrightarrow> report \<noteq> None \<and>
    \<not> fd_output_struct_valid (map_option (\<lambda>r. (gr_struct_size r, gr_abi_version r)) report) 664"
  obtain v diag1 where v: "fd_validate_generation_inputs_internal (Some c) (Some m) diag = (v, diag1)"
    by (metis prod.exhaust)
  define over where "over \<longleftrightarrow> world_tile_bytes c + 1544 > cx_max_live_world_bytes ctx \<or>
    world_tile_bytes c > 0xffffffff"
  obtain ok1 ctx1 where a1: "fd_context_alloc ctx 1544 = (ok1, ctx1)" by (metis prod.exhaust)
  obtain ok2 ctx2 where a2: "fd_context_alloc ctx1 (world_tile_bytes c) = (ok2, ctx2)" by (metis prod.exhaust)
  note run = fd_world_generate_def [of "Some ctx" "Some c" seed "Some m" "Some old" report diag,
      unfolded Let_def option.case option.sel, folded bad_def publish_def zero_density_def over_def,
      unfolded v a1 a2 prod.case]
  have verdict: "v \<noteq> FD_ERR_GENERATION_EXHAUSTED" using inputs_verdict [of "Some c" "Some m" diag] by (simp add: v)
  note err = fd_diag_set_def fd_const
  have freed: "ok1 \<Longrightarrow> books (fd_context_free ctx2 1544) = books ctx" if "\<not> ok2"
    using that a1 a2 books_alloc_fail [of ctx1 _ ctx2] by (auto intro!: books_alloc_free)
  show thesis
  proof (cases "bad \<or> v \<noteq> FD_OK \<or> (\<not> zero_density c \<and> (over \<or> \<not> ok1 \<or> \<not> ok2))")
    case True
    have "\<exists>result d' ctx'. ?run = Some ((result, d'), Some ctx', Some None, report) \<and> result \<noteq> FD_OK \<and>
        result \<noteq> FD_ERR_GENERATION_EXHAUSTED \<and> books ctx' = books ctx"
    proof (cases "bad \<or> v \<noteq> FD_OK \<or> over \<and> \<not> zero_density c")
      case True
      then show ?thesis using verdict by (auto simp: run err)
    next
      case False
      then show ?thesis
        using \<open>bad \<or> v \<noteq> FD_OK \<or> _\<close> freed a1 books_alloc_fail [of ctx 1544 ctx1]
        by (cases ok1; cases ok2) (auto simp: run err)
    qed
    then show thesis using declined by blast
  next
    case False
    then have fine: "\<not> bad" "v = FD_OK" by simp_all
    have ok: "fst (fd_validate_generation_inputs_internal (Some c) (Some m) diag) = FD_OK" by (simp add: v fine)
    note acc = accepted_inputs [OF ok sh]
    show thesis
    proof (cases "zero_density c")
      case True
      then have "\<exists>d'. ?run = Some ((FD_ERR_GENERATION_EXHAUSTED, d'), Some ctx, Some None,
          publish report (report_zero_density c (initial_report c seed m)))"
        by (simp add: run fine err publish_def)
      then show thesis using impossible [OF True acc(1)] by blast
    next
      case dense: False
      then have "\<not> over" "ok1" "ok2" using False by simp_all
      define n where "n = unat (wc_attempt_budget c)"
      define w0 where "w0 = seeded_world (cx_id ctx) c seed m (initial_report c seed m)"
      have "gen_grid w0" unfolding w0_def by (rule seeded_grid [OF acc(1)])
      moreover have "0 < n" "n \<le> 64" using acc(1) by (simp_all add: config_ok_def n_def)
      ultimately obtain r final ctx3 w d2 where
        loop: "gen_attempts (wc_attempt_budget c) [0..<n] FD_OK (initial_report c seed m) ctx2 w0 diag1 =
          Some (r, final, ctx3, w, d2)" and bk: "books ctx3 = books ctx2" and fr: "run_frame w = run_frame w0"
        and left: "attempts_left n (initial_report c seed m) r final w"
        using gen_attempts_left [OF _ initial_report_refused [of c seed m], of w0 n FD_OK "wc_attempt_budget c" ctx2 diag1]
        by (auto simp: fd_const)
      note run' = run [folded n_def w0_def, unfolded loop option.case prod.case]
      have bk2: "books (fd_context_free (fd_context_free ctx3 (world_tile_bytes c)) 1544) = books ctx"
        using a1 a2 \<open>ok1\<close> \<open>ok2\<close> bk by (auto intro!: books_alloc_free)
      show thesis
      proof (cases "r = FD_OK")
        case True
        then obtain j where j: "j < n" "gr_accepted_attempt final = of_nat j" "refused j final"
          "candidate_ok w" "report_describes final w" "report_inputs final = report_inputs (initial_report c seed m)"
          using left by (auto simp: attempts_left_def)
        note st = candidate_storable [OF fr [unfolded w0_def] j(4) ok sh dense [unfolded zero_density_def]]
        have "\<exists>d'. ?run = Some ((FD_OK, d'), Some (handle_acquire ctx3), Some (Some w), publish report final)"
          using True fine dense \<open>\<not> over\<close> \<open>ok1\<close> \<open>ok2\<close> by (simp add: run' fd_diag_ok_def fd_diag_set_def publish_def)
        then obtain d' where "?run = Some ((FD_OK, d'), Some (handle_acquire ctx3), Some (Some w), publish report final)"
          by blast
        moreover have "w_root_seed_le w = fd_store_u64_le seed @ replicate 8 0"
          using fr by (simp add: run_frame_def w0_def seeded_world_def)
        moreover have "charged (1544 + world_tile_bytes c) 1 ctx (handle_acquire ctx3)"
          using bk alloc_fields [OF a1] alloc_fields [OF a2] \<open>ok1\<close> \<open>ok2\<close> by (simp add: charged_def books_def)
        ultimately show thesis using made [OF dense acc(1)] st j n_def by metis
      next
        case False
        then obtain j where j: "gr_accepted_attempt final = - 1" "refused j final" "j \<le> n"
          "if r = FD_ERR_OUT_OF_MEMORY then 0 < j else j = n"
          "report_inputs final = report_inputs (initial_report c seed m)"
          using left by (auto simp: attempts_left_def initial_report_def)
        have "\<exists>d'. ?run = Some ((if r = FD_ERR_OUT_OF_MEMORY then FD_ERR_OUT_OF_MEMORY
            else FD_ERR_GENERATION_EXHAUSTED, d'), Some (fd_context_free (fd_context_free ctx3 (world_tile_bytes c)) 1544),
            Some None, publish report final)"
          using False fine dense \<open>\<not> over\<close> \<open>ok1\<close> \<open>ok2\<close> by (simp add: run' fd_diag_set_def publish_def)
        then obtain d' where run2: "?run = Some ((if r = FD_ERR_OUT_OF_MEMORY then FD_ERR_OUT_OF_MEMORY
            else FD_ERR_GENERATION_EXHAUSTED, d'), Some (fd_context_free (fd_context_free ctx3 (world_tile_bytes c)) 1544),
            Some None, publish report final)" by blast
        show thesis
          using j \<open>0 < n\<close>
          by (intro given_up [OF dense acc(1) bk2 run2 _ j(5,1,2)]) (auto simp: n_def fd_const split: if_splits)
      qed
    qed
  qed
qed

section \<open>The promises of the generator\<close>

text \<open>Two packs, for the concrete calls.\<close>

definition sample_manifest :: fd_content_manifest where
  "sample_manifest = \<lparr>cm_struct_size = 24, cm_abi_version = 1, cm_pack_count = 2, cm_reserved = 0,
     cm_packs = Some [\<lparr>cp_stable_id = 3, cp_sha256 = replicate 32 0\<rparr>, \<lparr>cp_stable_id = 7, cp_sha256 = replicate 32 0\<rparr>]\<rparr>"

definition default_config :: fd_world_config where
  "default_config = the (snd (fd_world_config_init (Some blank_config)))"

lemma sample_inputs: "inputs_shape default_config sample_manifest"
  by (simp add: inputs_shape_def default_config_def sample_manifest_def fd_world_config_init_def)

text \<open>C19: the generator always returns.  When it reports success it publishes a world that validates, holds
  names and hashes a save will carry, stands at tick 0, belongs to the context and was made from the
  given configuration and seed, and the two blocks and the handle of that world are on the context's
  books; when it reports anything else it publishes no world, and live bytes and handles are what they
  were, wherever among the allocations and attempts it stopped.\<close>

theorem generation_outcome:
  assumes "inputs_shape c m"
  shows "case fd_world_generate (Some ctx) (Some c) seed (Some m) (Some old) report diag of
      None \<Rightarrow> False
    | Some ((result, d'), octx, out, report') \<Rightarrow>
        (case octx of None \<Rightarrow> False | Some ctx' \<Rightarrow>
          if result = FD_OK
          then (\<exists>w. out = Some (Some w) \<and> storable w \<and> w_tick w = 0 \<and> w_context w = cx_id ctx \<and>
                 w_config w = c\<lparr>wc_struct_size := 76, wc_abi_version := 1\<rparr> \<and>
                 w_root_seed_le w = fd_store_u64_le seed @ replicate 8 0 \<and>
                 cx_live_bytes ctx' = cx_live_bytes ctx + 1544 + world_tile_bytes c \<and>
                 cx_live_handles ctx' = cx_live_handles ctx + 1)
          else out = Some None \<and> books ctx' = books ctx)"
  by (rule world_generate_cases [OF assms, of ctx seed old report diag])
    (auto simp: fd_const charged_def books_def)

theorem generation_outcome_witness:
  "case fd_world_generate (Some roomy_context) (Some default_config) 7 (Some sample_manifest) (Some None) None None of
      None \<Rightarrow> False
    | Some ((result, d'), octx, out, report') \<Rightarrow>
        (case octx of None \<Rightarrow> False | Some ctx' \<Rightarrow>
          if result = FD_OK
          then (\<exists>w. out = Some (Some w) \<and> storable w \<and> w_tick w = 0 \<and> w_context w = 1 \<and>
                 w_config w = default_config\<lparr>wc_struct_size := 76, wc_abi_version := 1\<rparr> \<and>
                 w_root_seed_le w = fd_store_u64_le 7 @ replicate 8 0 \<and>
                 cx_live_bytes ctx' = 0 + 1544 + world_tile_bytes default_config \<and>
                 cx_live_handles ctx' = 0 + 1)
          else out = Some None \<and> books ctx' = books roomy_context)"
  using generation_outcome [OF sample_inputs, of roomy_context 7 None None None]
  by (simp only: roomy_context_def fd_context.simps)

lemma report_zero_density_fields:
  assumes "n = unat (wc_attempt_budget c)" and "n \<le> 64"
  shows "report_inputs (report_zero_density c r) = report_inputs r"
    "gr_accepted_attempt (report_zero_density c r) = gr_accepted_attempt r"
    "gr_rejected_count (report_zero_density c r) = of_nat n"
    "gr_recorded_count (report_zero_density c r) = of_nat n"
    "length (gr_attempts r) = 64 \<Longrightarrow> i < n \<Longrightarrow> gr_attempts (report_zero_density c r) ! i =
       \<lparr>ga_attempt_index = of_nat i, ga_reason_code = FD_GEN_REJECT_REQUIRED_DENSITY_ZERO\<rparr>"
proof -
  show "report_inputs (report_zero_density c r) = report_inputs r"
    "gr_accepted_attempt (report_zero_density c r) = gr_accepted_attempt r"
    "gr_rejected_count (report_zero_density c r) = of_nat n"
    "gr_recorded_count (report_zero_density c r) = of_nat n"
    using assms(1) by (simp_all add: report_zero_density_def report_inputs_def)
  have fill: "length (fold (\<lambda>a xs. xs[a := f a]) [0..<k] xs) = length xs \<and>
      (\<forall>i<k. i < length xs \<longrightarrow> fold (\<lambda>a xs. xs[a := f a]) [0..<k] xs ! i = f i)" for f :: "nat \<Rightarrow> 'a" and k xs
    by (induction k) (auto simp: nth_list_update less_Suc_eq)
  show "gr_attempts (report_zero_density c r) ! i =
       \<lparr>ga_attempt_index = of_nat i, ga_reason_code = FD_GEN_REJECT_REQUIRED_DENSITY_ZERO\<rparr>"
    if "length (gr_attempts r) = 64" "i < n"
    using that assms fill [of "\<lambda>i. \<lparr>ga_attempt_index = of_nat i,
      ga_reason_code = FD_GEN_REJECT_REQUIRED_DENSITY_ZERO\<rparr>" n "gr_attempts r"] by (simp add: report_zero_density_def)
qed



end
