(* ===== verification/FD_Determined.thy ===== *)
theory FD_Determined
  imports FD_Generate
begin

text \<open>
  The generated world is a function of its inputs: the client's allocator can make generation fail,
  but it cannot make it publish another world.  Every stage is compared under two contexts.
\<close>

section \<open>The two stages that allocate\<close>

lemma octaves_determined:
  assumes "apply_octaves attempt os c1 w = (r1, c1', w1)" and "apply_octaves attempt os c2 w = (r2, c2', w2)"
    and "r1 \<noteq> FD_ERR_OUT_OF_MEMORY" and "r2 \<noteq> FD_ERR_OUT_OF_MEMORY"
  shows "r1 = r2 \<and> w1 = w2"
  using assms
proof (induction os arbitrary: c1 c2 w)
  case (Cons octave os)
  obtain ra ca wa where a: "apply_octave attempt octave c1 w = (ra, ca, wa)" by (cases "apply_octave attempt octave c1 w")
  obtain rb cb wb where b: "apply_octave attempt octave c2 w = (rb, cb, wb)" by (cases "apply_octave attempt octave c2 w")
  have "ra \<noteq> FD_ERR_OUT_OF_MEMORY" "rb \<noteq> FD_ERR_OUT_OF_MEMORY"
    using Cons.prems a b by (auto simp: fd_const split: if_splits)
  then have same: "ra = rb \<and> wa = wb"
    using a b by (auto simp: apply_octave_def Let_def split: prod.splits bool.splits if_splits)
  show ?case
  proof (cases "ra = FD_OK")
    case True
    then show ?thesis using Cons.prems Cons.IH [of ca wa cb] a b same by simp
  next
    case False
    then show ?thesis using Cons.prems a b same by simp
  qed
qed simp

lemma elevation_determined:
  assumes "fd_apply_elevation_fields c1 w attempt = (r1, c1', w1)"
    and "fd_apply_elevation_fields c2 w attempt = (r2, c2', w2)"
    and "r1 \<noteq> FD_ERR_OUT_OF_MEMORY" and "r2 \<noteq> FD_ERR_OUT_OF_MEMORY"
  shows "r1 = r2 \<and> w1 = w2"
proof -
  let ?os = "[(0, 16, 1), (1, 8, 2), (2, 4, 4)] :: (nat \<times> nat \<times> nat) list"
  obtain ra ca wa where a: "apply_octaves attempt ?os c1 w = (ra, ca, wa)" by (cases "apply_octaves attempt ?os c1 w")
  obtain rb cb wb where b: "apply_octaves attempt ?os c2 w = (rb, cb, wb)" by (cases "apply_octaves attempt ?os c2 w")
  have "ra \<noteq> FD_ERR_OUT_OF_MEMORY" "rb \<noteq> FD_ERR_OUT_OF_MEMORY"
    using assms a b by (auto simp: fd_apply_elevation_fields_def fd_const simp del: apply_octaves.simps split: if_splits)
  from octaves_determined [OF a b this] show ?thesis
    using assms a b by (auto simp: fd_apply_elevation_fields_def simp del: apply_octaves.simps split: if_splits)
qed

lemma road_determined:
  assumes "fd_construct_road c1 w start goal attempt = Some (r1, c1', w1)"
    and "fd_construct_road c2 w start goal attempt = Some (r2, c2', w2)"
    and "r1 \<noteq> FD_ERR_OUT_OF_MEMORY" and "r2 \<noteq> FD_ERR_OUT_OF_MEMORY"
  shows "r1 = r2 \<and> w1 = w2"
  using assms
  by (auto simp: fd_construct_road_def Let_def split: prod.splits option.splits if_splits)

section \<open>An attempt\<close>

text \<open>The state of an attempt without its context.\<close>

definition forget :: "'u gen_state \<Rightarrow> _" where
  "forget s = (gs_world s, gs_validation s, gs_reason s, gs_diag s)"

lemma accept_determined:
  assumes "accept_candidate s1 = (r1, s1')" and "accept_candidate s2 = (r2, s2')" and "forget s1 = forget s2"
  shows "r1 = r2 \<and> forget s1' = forget s2'"
  using assms by (auto simp: accept_candidate_def Let_def forget_def split: prod.splits if_splits)

lemma settle_determined:
  fixes s1 s2 :: "'u gen_state"
  assumes "settle_candidate attempt fallback west cx cy ix iy outlet s1 = Some (r1, s1')"
    and "settle_candidate attempt fallback west cx cy ix iy outlet s2 = Some (r2, s2')"
    and same: "forget s1 = forget s2" and "r1 \<noteq> FD_ERR_OUT_OF_MEMORY" and "r2 \<noteq> FD_ERR_OUT_OF_MEMORY"
  shows "r1 = r2 \<and> forget s1' = forget s2'"
proof -
  have w: "gs_world s2 = gs_world s1" using same by (simp add: forget_def)
  define w where "w = gs_world s1"
  obtain ra wa where b: "assign_biomes attempt (grid_cells (grid_height w) (grid_width w)) w = (ra, wa)"
    by (cases "assign_biomes attempt (grid_cells (grid_height w) (grid_width w)) w")
  define wb where "wb = (if fallback then construct_representatives west cx cy ix iy wa else wa)"
  obtain rc wc where c: "fd_initialize_entities wb cx cy ix iy outlet attempt = (rc, wc)"
    by (cases "fd_initialize_entities wb cx cy ix iy outlet attempt")
  define wd where "wd = settle (iy * grid_width w + ix) (en_id (w_entities wc ! 2))
    (settle (cy * grid_width w + cx) (en_id (w_entities wc ! 1)) wc)"
  define road where "road ctx = fd_construct_road ctx wd (cy * grid_width w + cx) (iy * grid_width w + ix) attempt"
    for ctx :: "'u fd_context"
  have run: "settle_candidate attempt fallback west cx cy ix iy outlet s =
     (if ra \<noteq> FD_OK then Some (ra, s\<lparr>gs_world := wa\<rparr>)
      else if rc \<noteq> FD_OK then Some (rc, s\<lparr>gs_world := wc\<rparr>)
      else case road (gs_context s) of
        None \<Rightarrow> None
      | Some (result, ctx, w5) \<Rightarrow>
          if result \<noteq> FD_OK
          then Some (result, s\<lparr>gs_context := ctx, gs_world := w5, gs_reason := FD_GEN_REJECT_ROAD_CORRIDOR\<rparr>)
          else Some (accept_candidate (s\<lparr>gs_context := ctx, gs_world := w5\<rparr>)))"
    if "gs_world s = w" for s :: "'u gen_state"
    unfolding settle_candidate_def Let_def that b prod.case wb_def [symmetric]
    unfolding c prod.case wd_def [symmetric] road_def [symmetric] by simp
  have runs: "gs_world s1 = w" "gs_world s2 = w" using w by (simp_all add: w_def)
  show ?thesis
  proof (cases "ra = FD_OK \<and> rc = FD_OK")
    case False
    then show ?thesis
      using assms(1,2) same by (auto simp: run [OF runs(1)] run [OF runs(2)] forget_def split: if_splits)
  next
    case True
    obtain q1 d1 v1 where p1: "road (gs_context s1) = Some (q1, d1, v1)"
      using assms(1) True by (auto simp: run [OF runs(1)] split: option.splits)
    obtain q2 d2 v2 where p2: "road (gs_context s2) = Some (q2, d2, v2)"
      using assms(2) True by (auto simp: run [OF runs(2)] split: option.splits)
    have "q1 \<noteq> FD_ERR_OUT_OF_MEMORY" "q2 \<noteq> FD_ERR_OUT_OF_MEMORY"
      using assms True p1 p2 by (auto simp: run [OF runs(1)] run [OF runs(2)] fd_const split: if_splits)
    then have q: "q1 = q2 \<and> v1 = v2" using road_determined p1 p2 unfolding road_def by blast
    show ?thesis
    proof (cases "q1 = FD_OK")
      case False
      then show ?thesis
        using assms(1,2) same True p1 p2 q by (auto simp: run [OF runs(1)] run [OF runs(2)] forget_def)
    next
      case ok: True
      have "accept_candidate (s1\<lparr>gs_context := d1, gs_world := v1\<rparr>) = (r1, s1')"
        "accept_candidate (s2\<lparr>gs_context := d2, gs_world := v2\<rparr>) = (r2, s2')"
        using assms(1,2) True p1 p2 q ok by (simp_all add: run [OF runs(1)] run [OF runs(2)])
      then show ?thesis by (rule accept_determined) (use same q in \<open>simp add: forget_def\<close>)
    qed
  qed
qed

lemma candidate_determined:
  fixes s1 s2 :: "'u gen_state"
  assumes "fd_generate_candidate attempt fallback s1 = Some (r1, s1')"
    and "fd_generate_candidate attempt fallback s2 = Some (r2, s2')"
    and same: "forget s1 = forget s2" and live: "r1 \<noteq> FD_ERR_OUT_OF_MEMORY" "r2 \<noteq> FD_ERR_OUT_OF_MEMORY"
  shows "r1 = r2 \<and> forget s1' = forget s2'"
proof -
  define w where "w = gs_world s1"
  define W H where "W = grid_width w" and "H = grid_height w"
  define base where "base = (W * 30) div 100"
  define amp where "amp = (if W div 32 = 0 then 1 else W div 32)"
  obtain r0 oly where ly: "draw_layout w attempt = (r0, oly)" by (cases "draw_layout w attempt")
  have runs: "gs_world (s1\<lparr>gs_reason := FD_GEN_REJECT_INVARIANT\<rparr>) = w"
    "gs_world (s2\<lparr>gs_reason := FD_GEN_REJECT_INVARIANT\<rparr>) = w"
    using same by (simp_all add: forget_def w_def)
  note run1 = fd_generate_candidate_def [of attempt fallback s1, unfolded Let_def runs, folded W_def H_def,
      folded base_def amp_def, unfolded ly prod.case]
  note run2 = fd_generate_candidate_def [of attempt fallback s2, unfolded Let_def runs, folded W_def H_def,
      folded base_def amp_def, unfolded ly prod.case]
  show ?thesis
  proof (cases oly)
    case None
    then show ?thesis using assms(1,2) same by (auto simp: run1 run2 forget_def)
  next
    case (Some l)
    obtain rp w1 where p: "paint_rows fallback (ly_west_water l) base amp (ly_outlet_y l) attempt [0..<H]
        (clear_land w) = (rp, w1)"
      by (cases "paint_rows fallback (ly_west_water l) base amp (ly_outlet_y l) attempt [0..<H] (clear_land w)")
    show ?thesis
    proof (cases "rp = FD_OK")
      case False
      then show ?thesis using assms(1,2) same Some p by (auto simp: run1 run2 forget_def)
    next
      case rp: True
      obtain q1 d1 v1 where e1: "fd_apply_elevation_fields (gs_context s1) w1 attempt = (q1, d1, v1)"
        by (cases "fd_apply_elevation_fields (gs_context s1) w1 attempt")
      obtain q2 d2 v2 where e2: "fd_apply_elevation_fields (gs_context s2) w1 attempt = (q2, d2, v2)"
        by (cases "fd_apply_elevation_fields (gs_context s2) w1 attempt")
      have "q1 \<noteq> FD_ERR_OUT_OF_MEMORY" "q2 \<noteq> FD_ERR_OUT_OF_MEMORY"
        using assms Some p rp e1 e2 by (auto simp: run1 run2 fd_const)
      from elevation_determined [OF e1 e2 this] have q: "q2 = q1" "v2 = v1" by simp_all
      show ?thesis
      proof (cases "q1 = FD_OK")
        case False
        then show ?thesis using assms(1,2) same Some p rp e1 e2 q by (auto simp: run1 run2 forget_def)
      next
        case q1: True
        obtain rv w3 outlet n where rv: "fd_construct_river v1 (ly_west_water l) base (ly_outlet_y l)
            (ly_source_y l) (ly_river_tie l) = (rv, w3, outlet, n)"
          by (cases "fd_construct_river v1 (ly_west_water l) base (ly_outlet_y l) (ly_source_y l) (ly_river_tie l)")
        show ?thesis
        proof (cases "rv = FD_OK")
          case False
          then show ?thesis
            using assms(1,2) same Some p rp e1 e2 q q1 rv by (auto simp: run1 run2 forget_def)
        next
          case rv_ok: True
          let ?v = "w3\<lparr>w_river_tile_count := the n\<rparr>"
          let ?run = "settle_candidate attempt fallback (ly_west_water l) (fd_coast_x (ly_west_water l) W base)
              (ly_outlet_y l + 1) (if ly_west_water l then W - 3 else 2) (H - 3) outlet"
          have "?run (s1\<lparr>gs_reason := FD_GEN_REJECT_INVARIANT, gs_context := d1, gs_world := ?v\<rparr>) = Some (r1, s1')"
            "?run (s2\<lparr>gs_reason := FD_GEN_REJECT_INVARIANT, gs_context := d2, gs_world := ?v\<rparr>) = Some (r2, s2')"
            using assms(1,2) Some p rp e1 e2 q q1 rv rv_ok by (simp_all add: run1 run2)
          then show ?thesis
            by (rule settle_determined [OF _ _ _ live]) (use same in \<open>simp add: forget_def\<close>)
        qed
      qed
    qed
  qed
qed

section \<open>The run\<close>

lemma attempts_determined:
  fixes c1 c2 :: "'u fd_context"
  assumes "gen_attempts budget ks p rep c1 w d = Some (FD_OK, rep1, c1', w1, d1)"
    and "gen_attempts budget ks p rep c2 w d = Some (FD_OK, rep2, c2', w2, d2)"
  shows "rep1 = rep2 \<and> w1 = w2 \<and> d1 = d2"
  using assms
proof (induction ks arbitrary: p rep c1 c2 w d)
  case (Cons k ks)
  define s where "s c = \<lparr>gs_context = c, gs_world = w, gs_validation = blank_report,
    gs_reason = FD_GEN_REJECT_INVARIANT, gs_diag = d\<rparr>" for c :: "'u fd_context"
  let ?cand = "\<lambda>c. fd_generate_candidate (of_nat k) (of_nat k + 1 = budget) (s c)"
  obtain r1 s1 where a: "?cand c1 = Some (r1, s1)" using Cons.prems(1) by (auto simp: s_def split: option.splits)
  obtain r2 s2 where b: "?cand c2 = Some (r2, s2)" using Cons.prems(2) by (auto simp: s_def split: option.splits)
  have "r1 \<noteq> FD_ERR_OUT_OF_MEMORY" "r2 \<noteq> FD_ERR_OUT_OF_MEMORY"
    using Cons.prems a b by (auto simp: s_def [symmetric] fd_const Let_def split: if_splits)
  then have same: "r2 = r1" "forget s2 = forget s1"
    using candidate_determined [OF a b] by (simp_all add: s_def forget_def)
  show ?case
  proof (cases "r1 = FD_OK")
    case True
    then show ?thesis
      using Cons.prems a b same by (auto simp: s_def [symmetric] forget_def)
  next
    case False
    then show ?thesis
      using Cons.prems a b same Cons.IH \<open>r1 \<noteq> FD_ERR_OUT_OF_MEMORY\<close>
      by (auto simp: s_def [symmetric] forget_def Let_def)
  qed
qed simp

lemma generate_success:
  fixes ctx :: "'u fd_context"
  assumes "fd_world_generate (Some ctx) (Some c) seed (Some m) (Some old) rep diag = Some ((FD_OK, e), o', out, rep')"
  shows "\<exists>(ctx2 :: 'u fd_context) final ctx3 w d2. gen_attempts (wc_attempt_budget c) [0..<unat (wc_attempt_budget c)] FD_OK
      (initial_report c seed m) ctx2 (seeded_world (cx_id ctx) c seed m (initial_report c seed m))
      (snd (fd_validate_generation_inputs_internal (Some c) (Some m) diag)) = Some (FD_OK, final, ctx3, w, d2) \<and>
    out = Some (Some w) \<and> rep' = publish rep final \<and> fd_diag_ok d2 = (FD_OK, e)"
  using assms
  by (auto simp: fd_world_generate_def Let_def fd_diag_set_def fd_const publish_def
      split: if_splits prod.splits bool.splits option.splits) blast+


end
