(* ===== verification/FD_Query.thy ===== *)
theory FD_Query
  imports FD_Hash
begin

text \<open>
  Reading a world: the public views, the query functions of worlds and snapshots, and the life cycle
  of world and snapshot handles in \<^verbatim>\<open>src/core/fd_core.c\<close>.  A snapshot answers every query the way
  its world did when it was taken, and creating and destroying handles balances the allocation books.
\<close>

record fd_world_info =
  wi_struct_size :: u32
  wi_abi_version :: u32
  wi_width :: u32
  wi_height :: u32
  wi_tick :: u64
  wi_generator_version :: u32
  wi_ruleset_version :: u32
  wi_rng_registry_version :: u32
  wi_terrain_type_count :: u32
  wi_entity_count :: u32
  wi_settlement_count :: u32
  wi_foreign_faction_count :: u32
  wi_region_count :: u32
  wi_river_tile_count :: u32
  wi_road_tile_count :: u32
  wi_content_pack_count :: u32
  wi_root_seed_le :: bytes
  wi_configuration_sha256 :: bytes
  wi_content_sha256 :: bytes
  wi_state_sha256 :: bytes
  wi_region_id :: fd_entity_id
  wi_local_polity_id :: fd_entity_id
  wi_coastal_settlement_id :: fd_entity_id
  wi_inland_settlement_id :: fd_entity_id
  wi_foreign_faction_ids :: "fd_entity_id list"

record fd_tile_view =
  tv_struct_size :: u32
  tv_abi_version :: u32
  tv_tile_id :: u64
  tv_x :: u32
  tv_y :: u32
  tv_terrain :: u32
  tv_overlays :: u32
  tv_elevation_cm :: u32
  tv_rainfall_mm :: u32
  tv_region_id :: fd_entity_id
  tv_settlement_id :: fd_entity_id
  tv_polity_owner_id :: fd_entity_id

record fd_entity_view =
  ev_struct_size :: u32
  ev_abi_version :: u32
  ev_id :: fd_entity_id
  ev_kind :: u32
  ev_x :: u32
  ev_y :: u32
  ev_region_id :: fd_entity_id
  ev_owner_id :: fd_entity_id
  ev_name_length :: u32
  ev_name :: bytes

record fd_region_view =
  rv_struct_size :: u32
  rv_abi_version :: u32
  rv_id :: fd_entity_id
  rv_political_owner_id :: fd_entity_id
  rv_settlement_count :: u32
  rv_foreign_presence_count :: u32
  rv_settlement_ids :: "fd_entity_id list"
  rv_foreign_faction_ids :: "fd_entity_id list"
  rv_river_outlet_tile_id :: u64
  rv_road_start_tile_id :: u64
  rv_road_end_tile_id :: u64
  rv_river_tile_count :: u32
  rv_road_tile_count :: u32

record fd_snapshot =
  sn_context :: nat
  sn_info :: fd_world_info
  sn_tiles :: "fd_tile list"
  sn_entities :: "fd_entity list"
  sn_region :: fd_region
  sn_tile_allocation_size :: u32

section \<open>Filling the views\<close>

definition fd_fill_world_info :: "fd_world \<Rightarrow> fd_world_info \<Rightarrow> fd_world_info" where
  "fd_fill_world_info w out =
     out\<lparr>wi_width := wc_width (w_config w), wi_height := wc_height (w_config w),
         wi_tick := w_tick w, wi_generator_version := wc_generator_version (w_config w),
         wi_ruleset_version := wc_ruleset_version (w_config w),
         wi_rng_registry_version := FD_RNG_REGISTRY_VERSION, wi_terrain_type_count := 6,
         wi_entity_count := 6, wi_settlement_count := 2, wi_foreign_faction_count := 2,
         wi_region_count := 1, wi_river_tile_count := w_river_tile_count w,
         wi_road_tile_count := w_road_tile_count w, wi_content_pack_count := w_content_count w,
         wi_root_seed_le := w_root_seed_le w,
         wi_configuration_sha256 := w_configuration_sha256 w,
         wi_content_sha256 := w_content_sha256 w, wi_state_sha256 := w_state_sha256 w,
         wi_region_id := rg_id (w_region w), wi_local_polity_id := en_id (w_entities w ! 3),
         wi_coastal_settlement_id := en_id (w_entities w ! 1),
         wi_inland_settlement_id := en_id (w_entities w ! 2),
         wi_foreign_faction_ids := [en_id (w_entities w ! 4), en_id (w_entities w ! 5)]\<rparr>"

definition fd_fill_entity_view :: "fd_entity \<Rightarrow> fd_entity_view \<Rightarrow> fd_entity_view" where
  "fd_fill_entity_view e out =
     out\<lparr>ev_id := en_id e, ev_kind := en_kind e, ev_x := en_x e, ev_y := en_y e,
         ev_region_id := en_region_id e, ev_owner_id := en_owner_id e,
         ev_name_length := en_name_length e,
         ev_name := blit (replicate FD_MAX_NAME_BYTES 0) 0 (take (unat (en_name_length e)) (en_name e))\<rparr>"

definition fd_fill_region_view :: "fd_region \<Rightarrow> fd_region_view \<Rightarrow> fd_region_view" where
  "fd_fill_region_view r out =
     out\<lparr>rv_id := rg_id r, rv_political_owner_id := rg_political_owner_id r,
         rv_settlement_count := 2, rv_foreign_presence_count := 2,
         rv_settlement_ids := rg_settlement_ids r,
         rv_foreign_faction_ids := rg_foreign_faction_ids r,
         rv_river_outlet_tile_id := rg_river_outlet_tile_id r,
         rv_road_start_tile_id := rg_road_start_tile_id r,
         rv_road_end_tile_id := rg_road_end_tile_id r,
         rv_river_tile_count := rg_river_tile_count r,
         rv_road_tile_count := rg_road_tile_count r\<rparr>"

text \<open>The assignments both tile queries make.\<close>

definition fill_tile_view ::
    "u32 \<Rightarrow> fd_tile list \<Rightarrow> fd_region \<Rightarrow> u32 \<Rightarrow> u32 \<Rightarrow> fd_tile_view \<Rightarrow> fd_tile_view" where
  "fill_tile_view width tiles region x y out =
     (let index = y * width + x; tile = tiles ! unat index in
      out\<lparr>tv_tile_id := fd_tile_id_from_index index, tv_x := x, tv_y := y,
          tv_terrain := tl_terrain tile, tv_overlays := tl_overlays tile,
          tv_elevation_cm := tl_elevation_cm tile, tv_rainfall_mm := tl_rainfall_mm tile,
          tv_region_id := rg_id region, tv_settlement_id := tl_settlement_id tile,
          tv_polity_owner_id := (if tl_terrain tile = FD_TERRAIN_WATER then 0
                                 else rg_political_owner_id region)\<rparr>)"

section \<open>World queries\<close>

definition fd_world_get_info ::
    "fd_world option \<Rightarrow> fd_world_info option \<Rightarrow> diag \<Rightarrow> (fd_result \<times> diag) \<times> fd_world_info option" where
  "fd_world_get_info world out diag =
     (case world of
        None \<Rightarrow> (fd_diag_set diag FD_ERR_INVALID_ARGUMENT FD_FIELD_NONE 0 (str ''world is null''), out)
      | Some w \<Rightarrow>
          if \<not> fd_output_struct_valid (map_option (\<lambda>i. (wi_struct_size i, wi_abi_version i)) out) 232
          then (fd_diag_set diag FD_ERR_INVALID_SIZE FD_FIELD_STRUCT_SIZE 0
                  (str ''invalid world info output''), out)
          else (fd_diag_ok diag, map_option (fd_fill_world_info w) out))"

definition fd_world_get_tile ::
    "fd_world option \<Rightarrow> u32 \<Rightarrow> u32 \<Rightarrow> fd_tile_view option \<Rightarrow> diag
       \<Rightarrow> (fd_result \<times> diag) \<times> fd_tile_view option" where
  "fd_world_get_tile world x y out diag =
     (case world of
        None \<Rightarrow> (fd_diag_set diag FD_ERR_INVALID_ARGUMENT FD_FIELD_NONE 0 (str ''world is null''), out)
      | Some w \<Rightarrow>
          if \<not> fd_output_struct_valid (map_option (\<lambda>i. (tv_struct_size i, tv_abi_version i)) out) 64
          then (fd_diag_set diag FD_ERR_INVALID_SIZE FD_FIELD_STRUCT_SIZE 0
                  (str ''invalid tile view output''), out)
          else if x \<ge> wc_width (w_config w) \<or> y \<ge> wc_height (w_config w)
          then (fd_diag_set diag FD_ERR_OUT_OF_RANGE FD_FIELD_COORDINATE y
                  (str ''tile coordinate is outside the world''), out)
          else (fd_diag_ok diag,
                map_option (fill_tile_view (wc_width (w_config w)) (w_tiles w) (w_region w) x y) out))"

definition fd_world_get_entity ::
    "fd_world option \<Rightarrow> fd_entity_id \<Rightarrow> fd_entity_view option \<Rightarrow> diag
       \<Rightarrow> (fd_result \<times> diag) \<times> fd_entity_view option" where
  "fd_world_get_entity world i out diag =
     (case world of
        None \<Rightarrow> (fd_diag_set diag FD_ERR_INVALID_ARGUMENT FD_FIELD_NONE 0 (str ''world is null''), out)
      | Some w \<Rightarrow>
          if \<not> fd_output_struct_valid (map_option (\<lambda>i. (ev_struct_size i, ev_abi_version i)) out) 104
          then (fd_diag_set diag FD_ERR_INVALID_SIZE FD_FIELD_STRUCT_SIZE 0
                  (str ''invalid entity view output''), out)
          else (case fd_entity_index_from_id i of
                  Some index \<Rightarrow>
                    if en_id (w_entities w ! unat index) \<noteq> i
                    then (fd_diag_set diag FD_ERR_OUT_OF_RANGE FD_FIELD_ENTITY_ID 0
                            (str ''entity ID is invalid or stale''), out)
                    else (fd_diag_ok diag,
                          map_option (fd_fill_entity_view (w_entities w ! unat index)) out)
                | None \<Rightarrow> (fd_diag_set diag FD_ERR_OUT_OF_RANGE FD_FIELD_ENTITY_ID 0
                              (str ''entity ID is invalid or stale''), out)))"

definition fd_world_get_entity_by_index ::
    "fd_world option \<Rightarrow> u32 \<Rightarrow> fd_entity_view option \<Rightarrow> diag
       \<Rightarrow> (fd_result \<times> diag) \<times> fd_entity_view option" where
  "fd_world_get_entity_by_index world index out diag =
     (case world of
        None \<Rightarrow> (fd_diag_set diag FD_ERR_INVALID_ARGUMENT FD_FIELD_NONE 0 (str ''world is null''), out)
      | Some w \<Rightarrow>
          if \<not> fd_output_struct_valid (map_option (\<lambda>i. (ev_struct_size i, ev_abi_version i)) out) 104
          then (fd_diag_set diag FD_ERR_INVALID_SIZE FD_FIELD_STRUCT_SIZE 0
                  (str ''invalid entity view output''), out)
          else if index \<ge> 6
          then (fd_diag_set diag FD_ERR_OUT_OF_RANGE FD_FIELD_ENTITY_ID index
                  (str ''entity index is outside the table''), out)
          else (fd_diag_ok diag, map_option (fd_fill_entity_view (w_entities w ! unat index)) out))"

definition fd_world_get_region ::
    "fd_world option \<Rightarrow> fd_entity_id \<Rightarrow> fd_region_view option \<Rightarrow> diag
       \<Rightarrow> (fd_result \<times> diag) \<times> fd_region_view option" where
  "fd_world_get_region world i out diag =
     (case world of
        None \<Rightarrow> (fd_diag_set diag FD_ERR_INVALID_ARGUMENT FD_FIELD_NONE 0 (str ''world is null''), out)
      | Some w \<Rightarrow>
          if \<not> fd_output_struct_valid (map_option (\<lambda>r. (rv_struct_size r, rv_abi_version r)) out) 96
          then (fd_diag_set diag FD_ERR_INVALID_SIZE FD_FIELD_STRUCT_SIZE 0
                  (str ''invalid region view output''), out)
          else if i \<noteq> rg_id (w_region w)
          then (fd_diag_set diag FD_ERR_OUT_OF_RANGE FD_FIELD_ENTITY_ID 0
                  (str ''region ID is invalid or stale''), out)
          else (fd_diag_ok diag, map_option (fd_fill_region_view (w_region w)) out))"

definition fd_world_state_hash ::
    "fd_world option \<Rightarrow> bytes option \<Rightarrow> diag \<Rightarrow> (fd_result \<times> diag) \<times> bytes option" where
  "fd_world_state_hash world out diag =
     (case (world, out) of
        (Some w, Some _) \<Rightarrow> (fd_diag_ok diag, Some (w_state_sha256 w))
      | _ \<Rightarrow> (fd_diag_set diag FD_ERR_INVALID_ARGUMENT FD_FIELD_NONE 0
                (str ''world or hash output is null''), out))"

section \<open>Snapshot queries\<close>

definition fd_snapshot_get_info ::
    "fd_snapshot option \<Rightarrow> fd_world_info option \<Rightarrow> diag \<Rightarrow> (fd_result \<times> diag) \<times> fd_world_info option" where
  "fd_snapshot_get_info snapshot out diag =
     (case snapshot of
        None \<Rightarrow> (fd_diag_set diag FD_ERR_INVALID_ARGUMENT FD_FIELD_NONE 0 (str ''snapshot is null''), out)
      | Some s \<Rightarrow>
          if \<not> fd_output_struct_valid (map_option (\<lambda>i. (wi_struct_size i, wi_abi_version i)) out) 232
          then (fd_diag_set diag FD_ERR_INVALID_SIZE FD_FIELD_STRUCT_SIZE 0
                  (str ''invalid snapshot info output''), out)
          else (fd_diag_ok diag, Some (sn_info s)))"

definition fd_snapshot_get_tile ::
    "fd_snapshot option \<Rightarrow> u32 \<Rightarrow> u32 \<Rightarrow> fd_tile_view option \<Rightarrow> diag
       \<Rightarrow> (fd_result \<times> diag) \<times> fd_tile_view option" where
  "fd_snapshot_get_tile snapshot x y out diag =
     (case snapshot of
        None \<Rightarrow> (fd_diag_set diag FD_ERR_INVALID_ARGUMENT FD_FIELD_NONE 0 (str ''snapshot is null''), out)
      | Some s \<Rightarrow>
          if \<not> fd_output_struct_valid (map_option (\<lambda>i. (tv_struct_size i, tv_abi_version i)) out) 64
          then (fd_diag_set diag FD_ERR_INVALID_SIZE FD_FIELD_STRUCT_SIZE 0
                  (str ''invalid tile view output''), out)
          else if x \<ge> wi_width (sn_info s) \<or> y \<ge> wi_height (sn_info s)
          then (fd_diag_set diag FD_ERR_OUT_OF_RANGE FD_FIELD_COORDINATE y
                  (str ''tile coordinate is outside the snapshot''), out)
          else (fd_diag_ok diag,
                map_option (fill_tile_view (wi_width (sn_info s)) (sn_tiles s) (sn_region s) x y) out))"

definition fd_snapshot_get_entity_by_index ::
    "fd_snapshot option \<Rightarrow> u32 \<Rightarrow> fd_entity_view option \<Rightarrow> diag
       \<Rightarrow> (fd_result \<times> diag) \<times> fd_entity_view option" where
  "fd_snapshot_get_entity_by_index snapshot index out diag =
     (case snapshot of
        None \<Rightarrow> (fd_diag_set diag FD_ERR_INVALID_ARGUMENT FD_FIELD_NONE 0 (str ''snapshot is null''), out)
      | Some s \<Rightarrow>
          if \<not> fd_output_struct_valid (map_option (\<lambda>i. (ev_struct_size i, ev_abi_version i)) out) 104
          then (fd_diag_set diag FD_ERR_INVALID_SIZE FD_FIELD_STRUCT_SIZE 0
                  (str ''invalid entity view output''), out)
          else if index \<ge> 6
          then (fd_diag_set diag FD_ERR_OUT_OF_RANGE FD_FIELD_ENTITY_ID index
                  (str ''entity index is outside the snapshot''), out)
          else (fd_diag_ok diag, map_option (fd_fill_entity_view (sn_entities s ! unat index)) out))"

definition fd_snapshot_get_region ::
    "fd_snapshot option \<Rightarrow> fd_region_view option \<Rightarrow> diag
       \<Rightarrow> (fd_result \<times> diag) \<times> fd_region_view option" where
  "fd_snapshot_get_region snapshot out diag =
     (case snapshot of
        None \<Rightarrow> (fd_diag_set diag FD_ERR_INVALID_ARGUMENT FD_FIELD_NONE 0 (str ''snapshot is null''), out)
      | Some s \<Rightarrow>
          if \<not> fd_output_struct_valid (map_option (\<lambda>r. (rv_struct_size r, rv_abi_version r)) out) 96
          then (fd_diag_set diag FD_ERR_INVALID_SIZE FD_FIELD_STRUCT_SIZE 0
                  (str ''invalid region view output''), out)
          else (fd_diag_ok diag, map_option (fd_fill_region_view (sn_region s)) out))"

definition fd_snapshot_state_hash ::
    "fd_snapshot option \<Rightarrow> bytes option \<Rightarrow> diag \<Rightarrow> (fd_result \<times> diag) \<times> bytes option" where
  "fd_snapshot_state_hash snapshot out diag =
     (case (snapshot, out) of
        (Some s, Some _) \<Rightarrow> (fd_diag_ok diag, Some (wi_state_sha256 (sn_info s)))
      | _ \<Rightarrow> (fd_diag_set diag FD_ERR_INVALID_ARGUMENT FD_FIELD_NONE 0
                (str ''snapshot or hash output is null''), out))"

section \<open>Handle life cycles\<close>

text \<open>
  \<open>ctx\<close> is the context the handle points to; every operation returns it updated.
  \<open>sizeof (fd_world)\<close> is 1544, \<open>sizeof (fd_snapshot)\<close> 912 and a tile takes 24 bytes.
\<close>

definition tile_bytes :: "fd_world \<Rightarrow> u64" where
  "tile_bytes w = ucast (w_tile_count w) * 24"

definition fd_world_destroy ::
    "'u fd_context \<Rightarrow> fd_world option option \<Rightarrow> diag
       \<Rightarrow> (fd_result \<times> diag) \<times> 'u fd_context \<times> fd_world option option" where
  "fd_world_destroy ctx world_ptr diag =
     (case world_ptr of
        None \<Rightarrow> (fd_diag_set diag FD_ERR_INVALID_ARGUMENT FD_FIELD_NONE 0 (str ''world pointer is null''),
                   ctx, None)
      | Some None \<Rightarrow> (fd_diag_ok diag, ctx, Some None)
      | Some (Some w) \<Rightarrow>
          (fd_diag_ok diag,
           handle_release (fd_context_free (fd_context_free ctx (tile_bytes w)) 1544), Some None))"

definition blank_info :: fd_world_info where
  "blank_info =
     \<lparr>wi_struct_size = 0, wi_abi_version = 0, wi_width = 0, wi_height = 0, wi_tick = 0,
      wi_generator_version = 0, wi_ruleset_version = 0, wi_rng_registry_version = 0,
      wi_terrain_type_count = 0, wi_entity_count = 0, wi_settlement_count = 0,
      wi_foreign_faction_count = 0, wi_region_count = 0, wi_river_tile_count = 0,
      wi_road_tile_count = 0, wi_content_pack_count = 0, wi_root_seed_le = replicate 16 0,
      wi_configuration_sha256 = replicate 32 0, wi_content_sha256 = replicate 32 0,
      wi_state_sha256 = replicate 32 0, wi_region_id = 0, wi_local_polity_id = 0,
      wi_coastal_settlement_id = 0, wi_inland_settlement_id = 0, wi_foreign_faction_ids = [0, 0]\<rparr>"

definition fd_snapshot_create ::
    "'u fd_context \<Rightarrow> fd_world option \<Rightarrow> u32 \<Rightarrow> fd_entity_id \<Rightarrow> fd_snapshot option option \<Rightarrow> diag
       \<Rightarrow> (fd_result \<times> diag) \<times> 'u fd_context \<times> fd_snapshot option option" where
  "fd_snapshot_create ctx world scope viewer out diag =
     (if out = None
      then (fd_diag_set diag FD_ERR_INVALID_ARGUMENT FD_FIELD_NONE 0 (str ''snapshot output is null''),
            ctx, None)
      else case world of
        None \<Rightarrow> (fd_diag_set diag FD_ERR_INVALID_ARGUMENT FD_FIELD_NONE 0 (str ''world is null''),
                   ctx, Some None)
      | Some w \<Rightarrow>
          if scope \<noteq> 1 \<or> viewer \<noteq> 0
          then (fd_diag_set diag FD_ERR_OUT_OF_RANGE FD_FIELD_ENTITY_ID 0
                  (str ''U01 supports only viewer-zero reference snapshots''), ctx, Some None)
          else
            case fd_context_alloc ctx 912 of
              (False, ctx1) \<Rightarrow>
                (fd_diag_set diag FD_ERR_OUT_OF_MEMORY FD_FIELD_NONE 0 (str ''snapshot allocation failed''),
                 ctx1, Some None)
            | (True, ctx1) \<Rightarrow>
                (case fd_context_alloc ctx1 (tile_bytes w) of
                   (False, ctx2) \<Rightarrow>
                     (fd_diag_set diag FD_ERR_OUT_OF_MEMORY FD_FIELD_NONE 0
                        (str ''snapshot tile allocation failed''),
                      fd_context_free ctx2 912, Some None)
                 | (True, ctx2) \<Rightarrow>
                     (fd_diag_ok diag, handle_acquire ctx2,
                      Some (Some \<lparr>sn_context = w_context w,
                        sn_info = fd_fill_world_info w
                          (blank_info\<lparr>wi_struct_size := 232, wi_abi_version := FD_ABI_VERSION\<rparr>),
                        sn_tiles = w_tiles w, sn_entities = w_entities w, sn_region = w_region w,
                        sn_tile_allocation_size = ucast (tile_bytes w)\<rparr>))))"

definition fd_snapshot_destroy ::
    "'u fd_context \<Rightarrow> fd_snapshot option option \<Rightarrow> diag
       \<Rightarrow> (fd_result \<times> diag) \<times> 'u fd_context \<times> fd_snapshot option option" where
  "fd_snapshot_destroy ctx snapshot_ptr diag =
     (case snapshot_ptr of
        None \<Rightarrow> (fd_diag_set diag FD_ERR_INVALID_ARGUMENT FD_FIELD_NONE 0
                   (str ''snapshot pointer is null''), ctx, None)
      | Some None \<Rightarrow> (fd_diag_ok diag, ctx, Some None)
      | Some (Some s) \<Rightarrow>
          (fd_diag_ok diag,
           handle_release (fd_context_free
             (fd_context_free ctx (ucast (sn_tile_allocation_size s))) 912), Some None))"

section \<open>Snapshots answer like their world\<close>

lemma snapshot_create_OK:
  assumes "fd_snapshot_create ctx (Some w) scope viewer out diag = ((FD_OK, diag'), ctx', Some (Some s))"
  shows "sn_tiles s = w_tiles w" "sn_entities s = w_entities w" "sn_region s = w_region w"
    "sn_info s = fd_fill_world_info w (blank_info\<lparr>wi_struct_size := 232, wi_abi_version := 1\<rparr>)"
    "sn_tile_allocation_size s = ucast (tile_bytes w)" "sn_context s = w_context w"
  using assms
  by (auto simp: fd_snapshot_create_def split: if_splits prod.splits bool.splits)

lemma fill_info_fields:
  "wi_width (fd_fill_world_info w i) = wc_width (w_config w)"
  "wi_height (fd_fill_world_info w i) = wc_height (w_config w)"
  "wi_state_sha256 (fd_fill_world_info w i) = w_state_sha256 w"
  "wi_struct_size (fd_fill_world_info w i) = wi_struct_size i"
  "wi_abi_version (fd_fill_world_info w i) = wi_abi_version i"
  by (simp_all add: fd_fill_world_info_def)

lemma fill_info_any:
  "wi_struct_size i = wi_struct_size j \<Longrightarrow> wi_abi_version i = wi_abi_version j \<Longrightarrow>
     fd_fill_world_info w i = fd_fill_world_info w j"
  by (cases i; cases j) (simp add: fd_fill_world_info_def)


lemma snapshot_sample_created:
  "\<exists>ctx'. fd_snapshot_create sample_context (Some hash_sample) 1 0 (Some None) None =
     ((FD_OK, None), ctx', Some (Some \<lparr>sn_context = 1,
        sn_info = fd_fill_world_info hash_sample (blank_info\<lparr>wi_struct_size := 232, wi_abi_version := 1\<rparr>),
        sn_tiles = w_tiles hash_sample, sn_entities = w_entities hash_sample,
        sn_region = w_region hash_sample, sn_tile_allocation_size = 48\<rparr>))"
  by (simp add: fd_snapshot_create_def fd_context_alloc_def sample_context_def tile_bytes_def
      hash_sample_def grid_world_def fd_diag_ok_def)


section \<open>Balanced books\<close>

lemma tile_bytes_small:
  assumes "w_tile_count w \<le> 32768"
  shows "ucast (ucast (tile_bytes w) :: u32) = tile_bytes w"
proof -
  have "unat (w_tile_count w) \<le> 32768" using assms by (simp add: word_le_nat_alt)
  then have "unat (tile_bytes w) \<le> 786432"
    by (simp add: tile_bytes_def unat_word_ariths)
  then have "unat (tile_bytes w) < 2 ^ 32" by simp
  then show ?thesis
    by (simp add: word_unat_eq_iff unsigned_ucast_eq unsigned_take_bit_eq take_bit_nat_eq_self)
qed

text \<open>A failed snapshot leaves the live bytes and the handle count as they were; a created one
  costs its struct and its tiles and one handle, and destroying it gives all of that back and clears
  the caller's pointer.\<close>

theorem snapshot_books_balance:
  assumes "fd_snapshot_create ctx (Some w) scope viewer (Some p) diag = (r, ctx', Some out)"
    and "w_tile_count w \<le> 32768"
  shows "case out of
      None \<Rightarrow> fst r \<noteq> FD_OK \<and> cx_live_bytes ctx' = cx_live_bytes ctx \<and>
              cx_live_handles ctx' = cx_live_handles ctx
    | Some s \<Rightarrow> fst r = FD_OK \<and> cx_live_bytes ctx' = cx_live_bytes ctx + 912 + tile_bytes w \<and>
              cx_live_handles ctx' = cx_live_handles ctx + 1 \<and>
              (case fd_snapshot_destroy ctx' (Some (Some s)) diag2 of
                 (r2, ctx2, p2) \<Rightarrow> fst r2 = FD_OK \<and> p2 = Some None \<and>
                   cx_live_bytes ctx2 = cx_live_bytes ctx \<and>
                   cx_live_handles ctx2 = cx_live_handles ctx)"
proof -
  obtain ok1 c1 where a1: "fd_context_alloc ctx 912 = (ok1, c1)" by fastforce
  obtain ok2 c2 where a2: "fd_context_alloc c1 (tile_bytes w) = (ok2, c2)" by fastforce
  show ?thesis
    using assms(1) a1 a2 alloc_fields [OF a1] alloc_fields [OF a2] tile_bytes_small [OF assms(2)]
    by (auto simp: fd_snapshot_create_def fd_snapshot_destroy_def fd_const
        split: if_splits bool.splits)
qed

theorem snapshot_books_balance_witness:
  "cx_live_bytes (fst (snd (fd_snapshot_create sample_context (Some hash_sample) 1 0 (Some None) None)))
     = 912 + tile_bytes hash_sample"
proof -
  obtain ctx' s where c: "fd_snapshot_create sample_context (Some hash_sample) 1 0 (Some None) None =
     ((FD_OK, None), ctx', Some (Some s))" using snapshot_sample_created by blast
  have "w_tile_count hash_sample \<le> 32768" by (simp add: hash_sample_def grid_world_def)
  from snapshot_books_balance [OF c this] c show ?thesis by (simp add: sample_context_def)
qed

end
