(* ===== verification/FD_Sound.thy ===== *)
theory FD_Sound
  imports FD_Loaded FD_Query
begin

text \<open>
  Sound worlds: what every operation of the library keeps of a world it made.  A sound world is
  storable except at the last tick the counter can hold; a clone through the save format is the world
  itself in its canonical form.
\<close>

unbundle bit_operations_syntax

text \<open>A world is sound when it is storable except for the last tick: stepping stops at the tick the
  counter still holds, loading one step before.\<close>

definition sound :: "fd_world \<Rightarrow> bool" where
  "sound w \<longleftrightarrow> world_shape w \<and> config_ok (w_config w) \<and>
     wc_forest_density_ppm (w_config w) \<noteq> 0 \<and> wc_hill_density_ppm (w_config w) \<noteq> 0 \<and>
     wc_wetland_density_ppm (w_config w) \<noteq> 0 \<and> packs_ok (w_content w) \<and>
     w_configuration_sha256 w = fd_hash_config_internal (w_config w) \<and>
     w_content_sha256 w = fd_hash_content_internal (world_manifest w) \<and>
     w_tick w mod 24 = 0 \<and> (\<forall>e\<in>set (w_entities w). name_ok e) \<and> world_valid w \<and> hash_consistent w"

lemma storable_sound: "storable w \<longleftrightarrow> sound w \<and> w_tick w \<le> - 25"
  unfolding storable_def sound_def by blast

lemma sound_storable:
  assumes "sound w"
  shows "storable w \<longleftrightarrow> w_tick w \<noteq> - 16"
proof -
  have "unat (w_tick w) mod 24 = 0"
    using assms by (simp add: sound_def word_unat_eq_iff unat_mod)
  moreover have "unat (w_tick w) < 18446744073709551616" by (rule unat_lt_u64)
  ultimately have "unat (w_tick w) \<le> 18446744073709551591 \<longleftrightarrow> unat (w_tick w) \<noteq> 18446744073709551600"
    by presburger
  then have "w_tick w \<le> - 25 \<longleftrightarrow> w_tick w \<noteq> - 16" by (simp add: word_le_nat_alt word_unat_eq_iff)
  then show ?thesis using assms by (simp add: storable_sound)
qed

lemma sound_bytes:
  assumes "sound w"
  shows "tile_bytes w = world_tile_bytes (w_config w)" and "w_tile_count w \<le> 32768"
proof -
  have b: "bounds_ok w" and c: "config_ok (w_config w)" using assms by (simp_all add: sound_def world_valid_def)
  then have n: "w_tile_count w = wc_width (w_config w) * wc_height (w_config w)" and "w_tile_count w \<le> 32768"
    unfolding bounds_ok_def by blast+
  then show "w_tile_count w \<le> 32768" by blast
  have "(ucast (w_tile_count w) :: u64) = ucast (wc_width (w_config w)) * ucast (wc_height (w_config w))"
    using c product_in_range [of "wc_width (w_config w)" "wc_height (w_config w)"]
    by (simp add: n config_ok_def word_unat_eq_iff)
  then show "tile_bytes w = world_tile_bytes (w_config w)"
    by (simp add: tile_bytes_def world_tile_bytes_def)
qed

lemma tick_multiple:
  fixes t :: u64
  assumes "t mod 24 = 0" and "t \<le> - 25"
  shows "(t + 24) mod 24 = 0" and "unat (t + 24) = unat t + 24"
proof -
  have "unat t \<le> 18446744073709551591" using assms(2) by (simp add: word_le_nat_alt)
  then show u: "unat (t + 24) = unat t + 24" by (simp add: unat_word_ariths)
  show "(t + 24) mod 24 = 0" using assms(1) by (simp add: word_unat_eq_iff unat_mod u)
qed

lemma sound_stepped:
  assumes "sound w" and "w_tick w \<le> - 25"
  shows "sound (stepped_world w)"
proof -
  have e: "stepped_world w = w\<lparr>w_tick := w_tick w + 24, w_state_sha256 := state_hash (w\<lparr>w_tick := w_tick w + 24\<rparr>)\<rparr>"
    by (simp add: stepped_world_def Let_def)
  have "length (state_hash v) = 32" for v by (simp add: state_hash_def)
  moreover have "(w_tick w + 24) mod 24 = 0" using assms by (intro tick_multiple) (simp_all add: sound_def)
  ultimately show ?thesis
    using assms(1) hash_consistent_stepped [of w] world_valid_stepped [of w]
    by (simp add: sound_def e world_shape_def world_manifest_def)
qed

text \<open>A step leaves the world as it is or advances it.\<close>

lemma step_outcome:
  assumes "fd_world_step (Some w) decision out diag = (r, w', out')"
  obtains "w' = Some w" | "w' = Some (stepped_world w)" "w_tick w \<le> - 25"
proof (cases "\<exists>d o1. decision = Some d \<and> out = Some o1")
  case True
  then obtain d o1 where "decision = Some d" "out = Some o1" by blast
  then show ?thesis
    using fd_world_step_accepted [of w d o1 diag] fd_world_step_rejected [of w d o1 diag] assms that
    by (cases "step_accepts w d o1") (auto simp: step_accepts_def)
next
  case False
  then show ?thesis
    using assms that by (auto simp: fd_world_step_def fd_output_struct_valid_def split: option.splits if_splits)
qed

lemma step_sound:
  assumes "sound w" and "fd_world_step (Some w) decision out diag = (r, Some w', out')"
  shows "sound w'" "w_context w' = w_context w" "w_config w' = w_config w"
  using assms(2)
  by (cases rule: step_outcome; use assms(1) sound_stepped in \<open>auto simp: stepped_world_def Let_def\<close>)+

lemma reloaded_context: "w_context (reloaded owner w) = owner"
  by (simp add: reloaded_def)

section \<open>Worlds that come and go\<close>

lemma tile_bytes_stepped [simp]: "tile_bytes (stepped_world w) = tile_bytes w"
  by (simp add: tile_bytes_def stepped_world_eq)

lemma step_tile_bytes:
  "fd_world_step (Some w) decision out diag = (r, w', out') \<Longrightarrow> \<exists>v. w' = Some v \<and> tile_bytes v = tile_bytes w"
  by (erule step_outcome) simp_all

lemma valid_tile_bytes: "world_valid w \<Longrightarrow> tile_bytes w = world_tile_bytes (w_config w)"
proof -
  assume "world_valid w"
  then have b: "unat (wc_width (w_config w)) \<le> 256" "unat (wc_height (w_config w)) \<le> 128"
    and n: "w_tile_count w = wc_width (w_config w) * wc_height (w_config w)"
    by (simp_all add: world_valid_def bounds_ok_def word_le_nat_alt)
  have "(ucast (w_tile_count w) :: u64) = ucast (wc_width (w_config w)) * ucast (wc_height (w_config w))"
    using product_in_range [OF b] by (simp add: n word_unat_eq_iff)
  then show ?thesis by (simp add: tile_bytes_def world_tile_bytes_def)
qed

lemma decode_world_valid:
  assumes "fd_decode_world ctx secs k diag = ((FD_OK, d), ctx', Some v)"
  shows "world_valid v"
proof -
  from assms obtain c n ps h g e where
    "decode_body secs (loaded_header (cx_id ctx) secs c n ps h) g = Inr (v, e)"
    by (rule decode_world_OK)
  then obtain w2 where "world_valid w2" "v = w2\<lparr>w_state_sha256 := state_hash w2\<rparr>"
    by (rule decode_body_OK)
  then show ?thesis using retick.valid [where w = w2 and t = "w_tick w2" and h = "state_hash w2"] by simp
qed

lemma load_valid:
  assumes "fd_world_load (Some ctx) bytes n out diag = ((FD_OK, d), octx, Some (Some v))"
  shows "world_valid v"
  using assms
  by (auto simp: fd_world_load_def dest: parse_sections_error decode_world_valid
      split: if_splits option.splits sum.splits prod.splits)

lemma load_cases:
  assumes "fd_world_load (Some ctx) bytes n (Some old) diag = (r, octx, w)"
  obtains (loaded) v ctx' where "fst r = FD_OK" "octx = Some ctx'" "w = Some (Some v)" "world_valid v"
      "charged (1544 + tile_bytes v) 1 ctx ctx'"
  | (refused) ctx' where "fst r \<noteq> FD_OK" "octx = Some ctx'" "w = Some None" "charged 0 0 ctx ctx'"
proof (cases "fst r = FD_OK")
  case True
  then obtain v ctx' where v: "octx = Some ctx'" "w = Some (Some v)"
    and c: "charged (1544 + world_tile_bytes (w_config v)) 1 ctx ctx'"
    using load_charged [of ctx bytes n old diag] assms by auto
  have "fd_world_load (Some ctx) bytes n (Some old) diag = ((FD_OK, snd r), octx, Some (Some v))"
    using assms True v by (cases r) simp
  then have "world_valid v" by (rule load_valid)
  then show ?thesis using loaded True v c valid_tile_bytes by simp
next
  case False
  then show ?thesis using load_charged [of ctx bytes n old diag] assms refused by auto
qed

section \<open>The world a save holds\<close>

lemma parse_section_diag: "parse_section b f d st = Inr st' \<Longrightarrow> parse_section b f d' st = Inr st'"
  by (auto simp: parse_section_def Let_def split: prod.splits if_splits option.splits)

lemma parse_loop_diag: "parse_loop b f d st = Inr st' \<Longrightarrow> parse_loop b f d' st = Inr st'"
proof (induction b f d st rule: parse_loop.induct)
  case (1 b f d st)
  show ?case
  proof (cases "fst st < f")
    case True
    with "1.prems" obtain st1 where p: "parse_section b f d st = Inr st1" "parse_loop b f d st1 = Inr st'"
      by (auto simp: parse_loop.simps [of b f d st] split: sum.splits)
    then show ?thesis
      using "1.IH" [OF True p(1)] parse_section_diag [OF p(1), of d'] True
      by (simp add: parse_loop.simps [of b f d' st])
  next
    case False
    then show ?thesis using "1.prems" by (simp add: parse_loop.simps)
  qed
qed

lemma parse_sections_diag:
  "fd_parse_save_sections b n d = Inr x \<Longrightarrow> fd_parse_save_sections b n d' = Inr x"
  by (auto simp: fd_parse_save_sections_def Let_def dest: parse_loop_diag [where d' = d']
      split: sum.splits if_splits option.splits)

lemma decode_diag:
  "decode_manifest s k d = Inr m \<Longrightarrow> decode_manifest s k d' = Inr m"
  "decode_configuration s d = Inr c \<Longrightarrow> decode_configuration s d' = Inr c"
  "decode_content s d = Inr x \<Longrightarrow> decode_content s d' = Inr x"
  by (auto simp: decode_manifest_def decode_configuration_def decode_content_def Let_def
      split: if_splits sum.splits)

lemma decode_inputs_hash:
  "decode_inputs c n ps d = Inr (h, e) \<Longrightarrow> decode_inputs c n ps d' = Inr (h', e') \<Longrightarrow> h = h'"
  by (auto simp: decode_inputs_def Let_def split: prod.splits if_splits)

lemma decode_body_same:
  assumes "decode_body s w d = Inr (v, e)" and "decode_body s w d' = Inr (v', e')"
  shows "v = v'"
  using assms by (elim decode_body_OK) simp

lemma decode_world_same:
  assumes a: "fd_decode_world c1 s k d1 = ((FD_OK, e1), c1', Some v1)"
    and b: "fd_decode_world c2 s k d2 = ((FD_OK, e2), c2', Some v2)" and ids: "cx_id c1 = cx_id c2"
  shows "v1 = v2"
proof -
  from a obtain c n ps h g e where x: "decode_configuration s d1 = Inr c" "decode_content s d1 = Inr (n, ps)"
    "decode_inputs c n ps d1 = Inr (h, g)" "decode_body s (loaded_header (cx_id c1) s c n ps h) g = Inr (v1, e)"
    by (rule decode_world_OK)
  from b obtain c' n' ps' h' g' e' where y: "decode_configuration s d2 = Inr c'"
    "decode_content s d2 = Inr (n', ps')" "decode_inputs c' n' ps' d2 = Inr (h', g')"
    "decode_body s (loaded_header (cx_id c2) s c' n' ps' h') g' = Inr (v2, e')"
    by (rule decode_world_OK)
  have same: "c' = c" "n' = n" "ps' = ps"
    using decode_diag(2) [OF x(1), of d2] decode_diag(3) [OF x(2), of d2] y(1,2) by simp_all
  then have "h' = h" using decode_inputs_hash [OF x(3)] y(3) by simp
  then show ?thesis using decode_body_same [OF x(4)] y(4) same ids by simp
qed

lemma load_same:
  assumes "fd_world_load (Some c1) (Some b) n (Some old1) d1 = ((FD_OK, e1), c1', Some (Some v1))"
    and "fd_world_load (Some c2) (Some b) n (Some old2) d2 = ((FD_OK, e2), c2', Some (Some v2))"
    and "cx_id c1 = cx_id c2"
  shows "v1 = v2"
proof -
  obtain s1 k1 c1'' where p1: "fd_parse_save_sections b (unat n) d1 = Inr (s1, k1)"
      "fd_decode_world c1 s1 k1 d1 = ((FD_OK, e1), c1'', Some v1)"
    using assms(1) by (auto simp: fd_world_load_def dest: parse_sections_error split: if_splits sum.splits prod.splits)
  obtain s2 k2 c2'' where p2: "fd_parse_save_sections b (unat n) d2 = Inr (s2, k2)"
      "fd_decode_world c2 s2 k2 d2 = ((FD_OK, e2), c2'', Some v2)"
    using assms(2) by (auto simp: fd_world_load_def dest: parse_sections_error split: if_splits sum.splits prod.splits)
  have "s2 = s1" "k2 = k1" using parse_sections_diag [OF p1(1), of d2] p2(1) by simp_all
  then show ?thesis using decode_world_same [OF p1(2) _ assms(3)] p2(2) by simp
qed

end
