(* ===== verification/FD_Session.thy ===== *)
theory FD_Session
  imports FD_Generate FD_Sound
begin

text \<open>
  A client's session with the library: one context and the worlds and snapshots it holds in it, changed
  by the operations of the public interface with any arguments, successful or not.  The invariant of
  all reachable sessions combines what the components promise one by one.
\<close>

unbundle bit_operations_syntax

record 'u session_state =
  ss_context :: "'u fd_context"
  ss_worlds :: "fd_world list"
  ss_snapshots :: "fd_snapshot list"

text \<open>What an operation that creates puts into the client's list.\<close>

definition held :: "'a option \<Rightarrow> 'a list" where
  "held out = (case out of None \<Rightarrow> [] | Some x \<Rightarrow> [x])"

definition without :: "nat \<Rightarrow> 'a list \<Rightarrow> 'a list" where
  "without i xs = take i xs @ drop (Suc i) xs"

inductive session_step :: "'u session_state \<Rightarrow> 'u session_state \<Rightarrow> bool" where
  generate: "inputs_shape c m \<Longrightarrow>
     fd_world_generate (Some (ss_context s)) (Some c) seed (Some m) (Some None) report diag =
       Some (r, Some ctx, Some out, report') \<Longrightarrow>
     session_step s (s\<lparr>ss_context := ctx, ss_worlds := ss_worlds s @ held out\<rparr>)"
| load: "unat n \<le> length bytes \<Longrightarrow>
     fd_world_load (Some (ss_context s)) (Some bytes) n (Some None) diag = (r, Some ctx, Some out) \<Longrightarrow>
     session_step s (s\<lparr>ss_context := ctx, ss_worlds := ss_worlds s @ held out\<rparr>)"
| step: "i < length (ss_worlds s) \<Longrightarrow>
     fd_world_step (Some (ss_worlds s ! i)) decision out diag = (r, Some w, out') \<Longrightarrow>
     session_step s (s\<lparr>ss_worlds := (ss_worlds s)[i := w]\<rparr>)"
| destroy: "i < length (ss_worlds s) \<Longrightarrow>
     fd_world_destroy (ss_context s) (Some (Some (ss_worlds s ! i))) diag = (r, ctx, p) \<Longrightarrow>
     session_step s (s\<lparr>ss_context := ctx, ss_worlds := without i (ss_worlds s)\<rparr>)"
| snapshot: "i < length (ss_worlds s) \<Longrightarrow>
     fd_snapshot_create (ss_context s) (Some (ss_worlds s ! i)) scope viewer (Some None) diag =
       (r, ctx, Some out) \<Longrightarrow>
     session_step s (s\<lparr>ss_context := ctx, ss_snapshots := ss_snapshots s @ held out\<rparr>)"
| release: "i < length (ss_snapshots s) \<Longrightarrow>
     fd_snapshot_destroy (ss_context s) (Some (Some (ss_snapshots s ! i))) diag = (r, ctx, p) \<Longrightarrow>
     session_step s (s\<lparr>ss_context := ctx, ss_snapshots := without i (ss_snapshots s)\<rparr>)"

text \<open>A session opens with a context that has just been created.\<close>

inductive session :: "'u session_state \<Rightarrow> bool" where
  opened: "fd_context_create malloc free address config (Some out) diag = ((FD_OK, d), Some (Some ctx)) \<Longrightarrow>
     session \<lparr>ss_context = ctx, ss_worlds = [], ss_snapshots = []\<rparr>"
| steps: "session s \<Longrightarrow> session_step s t \<Longrightarrow> session t"

section \<open>Every reachable session\<close>

definition worlds_bytes :: "fd_world list \<Rightarrow> u64" where
  "worlds_bytes ws = sum_list (map (\<lambda>w. 1544 + tile_bytes w) ws)"

definition snapshots_bytes :: "fd_snapshot list \<Rightarrow> u64" where
  "snapshots_bytes xs = sum_list (map (\<lambda>x. 912 + ucast (sn_tile_allocation_size x)) xs)"

definition session_ok :: "'u session_state \<Rightarrow> bool" where
  "session_ok s \<longleftrightarrow>
     (\<forall>w\<in>set (ss_worlds s). sound w \<and> w_context w = cx_id (ss_context s)) \<and>
     cx_live_bytes (ss_context s) = worlds_bytes (ss_worlds s) + snapshots_bytes (ss_snapshots s) \<and>
     cx_live_handles (ss_context s) = of_nat (length (ss_worlds s) + length (ss_snapshots s))"

lemma sum_list_without:
  fixes f :: "'a \<Rightarrow> 'b::comm_ring_1"
  assumes "i < length xs"
  shows "sum_list (map f (without i xs)) = sum_list (map f xs) - f (xs ! i)"
proof -
  have "xs = take i xs @ xs ! i # drop (Suc i) xs" using assms by (rule id_take_nth_drop)
  then have "sum_list (map f xs) = sum_list (map f (take i xs @ xs ! i # drop (Suc i) xs))" by simp
  then show ?thesis by (simp add: without_def)
qed

lemma set_without: "set (without i xs) \<subseteq> set xs"
  by (auto simp: without_def dest: in_set_takeD in_set_dropD)

lemma length_without: "i < length xs \<Longrightarrow> length xs = Suc (length (without i xs))"
  by (simp add: without_def)

lemma session_gains_world:
  assumes "session_ok s"
    and "case out of None \<Rightarrow> charged 0 0 (ss_context s) ctx
         | Some w \<Rightarrow> charged (1544 + tile_bytes w) 1 (ss_context s) ctx \<and> sound w \<and> w_context w = cx_id ctx"
  shows "session_ok (s\<lparr>ss_context := ctx, ss_worlds := ss_worlds s @ held out\<rparr>)"
  using assms
  by (cases out) (auto simp: session_ok_def held_def worlds_bytes_def charged_fields algebra_simps)

lemma generate_charged:
  assumes "inputs_shape c m"
    and "fd_world_generate (Some ctx) (Some c) seed (Some m) (Some old) report diag =
      Some (r, Some ctx', Some out, report')"
  shows "case out of None \<Rightarrow> charged 0 0 ctx ctx'
    | Some w \<Rightarrow> charged (1544 + tile_bytes w) 1 ctx ctx' \<and> sound w \<and> w_context w = cx_id ctx'"
proof (rule world_generate_cases [OF assms(1), of ctx seed old report diag], goal_cases)
  case (4 d' c' final w j)
  then have "sound w" "out = Some w" "ctx' = c'" using assms(2) by (simp_all add: storable_sound)
  moreover have "tile_bytes w = world_tile_bytes c"
    using sound_bytes [OF \<open>sound w\<close>] 4 by (simp add: world_tile_bytes_def)
  ultimately show ?case using 4 charged_fields(3) by fastforce
qed (use assms(2) in \<open>simp_all add: charged_none\<close>)

lemma load_sound:
  assumes "unat n \<le> length bytes"
    and "fd_world_load (Some ctx) (Some bytes) n (Some old) diag = (r, Some ctx', Some out)"
  shows "case out of None \<Rightarrow> charged 0 0 ctx ctx'
    | Some w \<Rightarrow> charged (1544 + tile_bytes w) 1 ctx ctx' \<and> sound w \<and> w_context w = cx_id ctx'"
proof -
  have ch: "if fst r = FD_OK then \<exists>v. out = Some v \<and> charged (1544 + world_tile_bytes (w_config v)) 1 ctx ctx'
      else out = None \<and> charged 0 0 ctx ctx'"
    using load_charged [of ctx "Some bytes" n old diag] assms(2) by (simp split: if_splits)
  show ?thesis
  proof (cases out)
    case None
    then show ?thesis using ch by (simp split: if_splits)
  next
    case (Some v)
    then have ok: "fst r = FD_OK" and c: "charged (1544 + world_tile_bytes (w_config v)) 1 ctx ctx'"
      using ch by (auto split: if_splits)
    have "fd_world_load (Some ctx) (Some bytes) n (Some old) diag = ((FD_OK, snd r), Some ctx', Some (Some v))"
      using assms(2) ok Some by (cases r) simp
    from load_storable [OF this assms(1)]
    have st: "storable v" "reloaded (cx_id ctx) v = v" by blast+
    then have "w_context v = cx_id ctx" using reloaded_context [of "cx_id ctx" v] by (simp only: st(2))
    then show ?thesis using Some st c sound_bytes [of v] by (simp add: storable_sound charged_fields)
  qed
qed

lemma world_destroy_books:
  "fd_world_destroy ctx (Some (Some w)) diag = (r, ctx', p) \<Longrightarrow> charged (- (1544 + tile_bytes w)) (- 1) ctx ctx'"
  by (auto simp: fd_world_destroy_def charged_def books_def)

lemma snapshot_destroy_books:
  "fd_snapshot_destroy ctx (Some (Some x)) diag = (r, ctx', p) \<Longrightarrow>
     charged (- (912 + ucast (sn_tile_allocation_size x))) (- 1) ctx ctx'"
  by (auto simp: fd_snapshot_destroy_def charged_def books_def)

lemma snapshot_create_books:
  assumes "fd_snapshot_create ctx (Some w) scope viewer (Some old) diag = (r, ctx', Some out)"
    and "w_tile_count w \<le> 32768"
  shows "case out of None \<Rightarrow> charged 0 0 ctx ctx'
    | Some x \<Rightarrow> charged (912 + ucast (sn_tile_allocation_size x)) 1 ctx ctx'"
proof -
  obtain ok1 c1 where a1: "fd_context_alloc ctx 912 = (ok1, c1)" by fastforce
  obtain ok2 c2 where a2: "fd_context_alloc c1 (tile_bytes w) = (ok2, c2)" by fastforce
  show ?thesis
    using assms(1) a1 a2 alloc_fields [OF a1] alloc_fields [OF a2] tile_bytes_small [OF assms(2)]
    by (auto simp: fd_snapshot_create_def charged_def books_def split: if_splits bool.splits)
qed

lemma session_step_ok: "session_step s t \<Longrightarrow> session_ok s \<Longrightarrow> session_ok t"
proof (induction rule: session_step.induct)
  case (generate c m s seed report diag r ctx out report')
  then show ?case by (intro session_gains_world generate_charged)
next
  case (load n bytes s diag r ctx out)
  then show ?case by (intro session_gains_world load_sound)
next
  case (step i s decision out diag r w out')
  let ?v = "ss_worlds s ! i"
  have v: "sound ?v" "w_context ?v = cx_id (ss_context s)" using step by (simp_all add: session_ok_def)
  note w = step_sound [OF v(1) step.hyps(2)]
  have "tile_bytes w = tile_bytes ?v" using sound_bytes(1) w v(1) by simp
  then have "map (\<lambda>w. 1544 + tile_bytes w) ((ss_worlds s)[i := w]) = map (\<lambda>w. 1544 + tile_bytes w) (ss_worlds s)"
    using step.hyps(1) by (simp add: map_update list_update_same_conv)
  then show ?case
    using step w v set_update_subset_insert [of "ss_worlds s" i w] by (auto simp: session_ok_def worlds_bytes_def)
next
  case (destroy i s diag r ctx p)
  have "charged (- (1544 + tile_bytes (ss_worlds s ! i))) (- 1) (ss_context s) ctx"
    using destroy.hyps(2) by (rule world_destroy_books)
  then show ?case
    using destroy set_without [of i "ss_worlds s"] length_without [of i "ss_worlds s"]
    by (auto simp: session_ok_def worlds_bytes_def charged_fields sum_list_without algebra_simps)
next
  case (snapshot i s scope viewer diag r ctx out)
  have "w_tile_count (ss_worlds s ! i) \<le> 32768" using snapshot sound_bytes(2) by (simp add: session_ok_def)
  from snapshot_create_books [OF snapshot.hyps(2) this] snapshot show ?case
    by (cases out) (auto simp: session_ok_def held_def snapshots_bytes_def charged_fields algebra_simps)
next
  case (release i s diag r ctx p)
  have "charged (- (912 + ucast (sn_tile_allocation_size (ss_snapshots s ! i)))) (- 1) (ss_context s) ctx"
    using release.hyps(2) by (rule snapshot_destroy_books)
  then show ?case
    using release length_without [of i "ss_snapshots s"]
    by (auto simp: session_ok_def snapshots_bytes_def charged_fields sum_list_without algebra_simps)
qed

lemma session_ok: "session s \<Longrightarrow> session_ok s"
proof (induction rule: session.induct)
  case (opened malloc free address config out diag d ctx)
  then have "cx_live_bytes ctx = 0 \<and> cx_live_handles ctx = 0"
    by (auto simp: fd_context_create_def Let_def fd_const split: if_splits prod.splits bool.splits)
  then show ?case by (simp add: session_ok_def worlds_bytes_def snapshots_bytes_def)
next
  case (steps s t)
  then show ?case using session_step_ok by blast
qed

end
