(* ===== verification/FD_Wire.thy ===== *)
theory FD_Wire
  imports FD_Writer FD_Step
begin

text \<open>
  The wire formats inside a replay file, from \<^verbatim>\<open>src/core/fd_replay.c\<close>: transition records of 228
  bytes, audit records of 328 bytes and the section framing.  An encoder is the list of bytes it
  stores at its pointer, a decoder reads the front of the list.  Proved here: the decoders accept
  exactly the encodings of canonical records, so a record has one encoding and an encoding one record.
\<close>

unbundle bit_operations_syntax

text \<open>\<open>sizeof (fd_replay_record_internal)\<close> is 256, \<open>sizeof (fd_replay_audit_internal)\<close> 328.\<close>

record fd_replay_record =
  rr_tick_before :: u64
  rr_tick_after :: u64
  rr_decision :: fd_joint_decision
  rr_rng_domain_count :: u32
  rr_pre_hash :: bytes
  rr_post_hash :: bytes
  rr_event_hash :: bytes

record fd_replay_audit =
  ra_attempt_index :: u64
  ra_tick :: u64
  ra_decision :: fd_joint_decision
  ra_result :: fd_result
  ra_field_id :: u32
  ra_item_index :: u32
  ra_message_length :: u32
  ra_message :: bytes

abbreviation (input) FD_REPLAY_SECTION_COUNT :: u32 where "FD_REPLAY_SECTION_COUNT \<equiv> 5"
abbreviation (input) FD_REPLAY_RECORD_WIRE_SIZE :: u64 where "FD_REPLAY_RECORD_WIRE_SIZE \<equiv> 228"
abbreviation (input) FD_REPLAY_AUDIT_WIRE_SIZE :: u64 where "FD_REPLAY_AUDIT_WIRE_SIZE \<equiv> 328"

definition fd_replay_magic :: bytes where
  "fd_replay_magic = [0x46, 0x44, 0x52, 0x50, 0, 0, 0, 1]"

definition fd_replay_result_is_auditable :: "fd_result \<Rightarrow> bool" where
  "fd_replay_result_is_auditable result \<longleftrightarrow>
     result = FD_ERR_INVALID_ARGUMENT \<or> result = FD_ERR_INVALID_SIZE \<or>
     result = FD_ERR_OUT_OF_RANGE \<or> result = FD_ERR_CAPACITY \<or> result = FD_ERR_INVALID_ACTION"

section \<open>Framing\<close>

definition fd_replay_footer_digest :: "bytes \<Rightarrow> nat \<Rightarrow> bytes" where
  "fd_replay_footer_digest bytes n =
     digest_parts [fd_store_u32_le 36, str ''FrontierDirectorate/Replay/Footer/v1'', take n bytes]"

definition fd_replay_write_section_header :: "bytes \<Rightarrow> nat \<Rightarrow> u16 \<Rightarrow> u64 \<Rightarrow> bytes" where
  "fd_replay_write_section_header bytes position tag n =
     (let b1 = blit bytes position (fd_store_u16_le tag);
          b2 = blit b1 (position + 2) (fd_store_u16_le 1);
          b3 = blit b2 (position + 4) (fd_store_u32_le 0)
      in blit b3 (position + 8) (fd_store_u64_le n))"

definition fd_replay_finish_section :: "bytes \<Rightarrow> nat \<Rightarrow> u64 \<Rightarrow> bytes" where
  "fd_replay_finish_section bytes payload_position n =
     blit bytes (payload_position + unat n)
       (the (snd (fd_sha256 (Some (drop payload_position bytes)) (unat n) (Some (replicate 32 0)))))"

section \<open>Transition records\<close>

text \<open>The 32 bytes at \<open>bytes + 64 + seat * 32\<close>.\<close>

definition encode_record_seat :: "fd_seat_decision \<Rightarrow> bytes" where
  "encode_record_seat s =
     fd_store_u64_le (sd_actor_id s) @ fd_store_u32_le (ac_category (sd_action s)) @
     fd_store_u32_le (ac_parameter_count (sd_action s)) @
     concat (map (\<lambda>parameter. fd_store_u32_le (ac_parameters (sd_action s) ! parameter)) [0..<4])"

definition fd_encode_replay_record :: "fd_replay_record \<Rightarrow> bytes" where
  "fd_encode_replay_record r =
     fd_store_u64_le (rr_tick_before r) @ fd_store_u64_le (rr_tick_after r) @
     fd_store_u64_le (jd_expected_tick (rr_decision r)) @
     take 32 (jd_expected_pre_state_sha256 (rr_decision r)) @
     fd_store_u32_le (jd_seat_count (rr_decision r)) @ fd_store_u32_le (jd_reserved (rr_decision r)) @
     concat (map (\<lambda>seat. encode_record_seat (jd_seats (rr_decision r) ! seat)) [0..<FD_U01_SEAT_COUNT]) @
     take 32 (rr_pre_hash r) @ take 32 (rr_post_hash r) @ take 32 (rr_event_hash r) @
     fd_store_u32_le (rr_rng_domain_count r)"

definition decode_record_seat :: "bytes \<Rightarrow> fd_seat_decision" where
  "decode_record_seat seat_bytes =
     \<lparr>sd_actor_id = fd_load_u64_le seat_bytes,
      sd_action = \<lparr>ac_struct_size = 32, ac_abi_version = FD_ABI_VERSION,
        ac_category = fd_load_u32_le (drop 8 seat_bytes),
        ac_parameter_count = fd_load_u32_le (drop 12 seat_bytes),
        ac_parameters = map (\<lambda>parameter. fd_load_u32_le (drop (16 + parameter * 4) seat_bytes)) [0..<4]\<rparr>\<rparr>"

text \<open>The assignments of \<open>fd_decode_replay_record\<close>, and the check that follows them.\<close>

definition read_replay_record :: "bytes \<Rightarrow> fd_replay_record" where
  "read_replay_record bytes =
     \<lparr>rr_tick_before = fd_load_u64_le bytes, rr_tick_after = fd_load_u64_le (drop 8 bytes),
      rr_decision =
        \<lparr>jd_struct_size = 136, jd_abi_version = FD_ABI_VERSION,
         jd_seat_count = fd_load_u32_le (drop 56 bytes), jd_reserved = fd_load_u32_le (drop 60 bytes),
         jd_expected_tick = fd_load_u64_le (drop 16 bytes),
         jd_expected_pre_state_sha256 = take 32 (drop 24 bytes),
         jd_seats = map (\<lambda>seat. decode_record_seat (drop (64 + seat * 32) bytes)) [0..<FD_U01_SEAT_COUNT]\<rparr>,
      rr_rng_domain_count = fd_load_u32_le (drop 224 bytes),
      rr_pre_hash = take 32 (drop 128 bytes), rr_post_hash = take 32 (drop 160 bytes),
      rr_event_hash = take 32 (drop 192 bytes)\<rparr>"

definition record_noncanonical :: "nat \<Rightarrow> fd_replay_record \<Rightarrow> bool" where
  "record_noncanonical index r \<longleftrightarrow>
     jd_seat_count (rr_decision r) \<noteq> 2 \<or> jd_reserved (rr_decision r) \<noteq> 0 \<or>
     jd_expected_tick (rr_decision r) \<noteq> rr_tick_before r \<or> rr_rng_domain_count r \<noteq> 0 \<or>
     jd_expected_pre_state_sha256 (rr_decision r) \<noteq> rr_pre_hash r \<or>
     rr_tick_before r > - 1 - FD_OPERATIONAL_TICKS \<or>
     rr_tick_before r mod FD_OPERATIONAL_TICKS \<noteq> 0 \<or>
     rr_tick_after r \<noteq> rr_tick_before r + FD_OPERATIONAL_TICKS \<or>
     (index > 0 \<and> rr_tick_before r < FD_OPERATIONAL_TICKS)"

definition fd_decode_replay_record ::
    "bytes \<Rightarrow> nat \<Rightarrow> diag \<Rightarrow> (fd_result \<times> diag) \<times> fd_replay_record" where
  "fd_decode_replay_record bytes index diag =
     (let r = read_replay_record bytes
      in if record_noncanonical index r
         then (fd_diag_set diag FD_ERR_FORMAT FD_FIELD_ACTION (of_nat index)
                 (str ''noncanonical replay decision record''), r)
         else ((FD_OK, diag), r))"

section \<open>Audit records\<close>

definition encode_wire_seat :: "fd_seat_decision \<Rightarrow> bytes" where
  "encode_wire_seat s =
     fd_store_u64_le (sd_actor_id s) @ fd_store_u32_le (ac_struct_size (sd_action s)) @
     fd_store_u32_le (ac_abi_version (sd_action s)) @ fd_store_u32_le (ac_category (sd_action s)) @
     fd_store_u32_le (ac_parameter_count (sd_action s)) @
     concat (map (\<lambda>parameter. fd_store_u32_le (ac_parameters (sd_action s) ! parameter)) [0..<4])"

definition fd_encode_joint_wire :: "fd_joint_decision \<Rightarrow> bytes" where
  "fd_encode_joint_wire d =
     fd_store_u32_le (jd_struct_size d) @ fd_store_u32_le (jd_abi_version d) @
     fd_store_u32_le (jd_seat_count d) @ fd_store_u32_le (jd_reserved d) @
     fd_store_u64_le (jd_expected_tick d) @ take 32 (jd_expected_pre_state_sha256 d) @
     concat (map (\<lambda>seat. encode_wire_seat (jd_seats d ! seat)) [0..<FD_U01_SEAT_COUNT])"

definition decode_wire_seat :: "bytes \<Rightarrow> fd_seat_decision" where
  "decode_wire_seat seat_bytes =
     \<lparr>sd_actor_id = fd_load_u64_le seat_bytes,
      sd_action = \<lparr>ac_struct_size = fd_load_u32_le (drop 8 seat_bytes),
        ac_abi_version = fd_load_u32_le (drop 12 seat_bytes),
        ac_category = fd_load_u32_le (drop 16 seat_bytes),
        ac_parameter_count = fd_load_u32_le (drop 20 seat_bytes),
        ac_parameters = map (\<lambda>parameter. fd_load_u32_le (drop (24 + parameter * 4) seat_bytes)) [0..<4]\<rparr>\<rparr>"

definition fd_decode_joint_wire :: "bytes \<Rightarrow> fd_joint_decision" where
  "fd_decode_joint_wire bytes =
     \<lparr>jd_struct_size = fd_load_u32_le bytes, jd_abi_version = fd_load_u32_le (drop 4 bytes),
      jd_seat_count = fd_load_u32_le (drop 8 bytes), jd_reserved = fd_load_u32_le (drop 12 bytes),
      jd_expected_tick = fd_load_u64_le (drop 16 bytes),
      jd_expected_pre_state_sha256 = take 32 (drop 24 bytes),
      jd_seats = map (\<lambda>seat. decode_wire_seat (drop (56 + seat * 40) bytes)) [0..<FD_U01_SEAT_COUNT]\<rparr>"

text \<open>The loop that measures a diagnostic's message in its 160-byte array.\<close>

definition message_scan :: "bytes \<Rightarrow> nat" where
  "message_scan message = length (takeWhile (\<lambda>c. c \<noteq> 0) (take 159 message))"

definition fd_encode_audit :: "u64 \<Rightarrow> u64 \<Rightarrow> fd_joint_decision \<Rightarrow> fd_diagnostic \<Rightarrow> bytes" where
  "fd_encode_audit attempt_index tick decision diagnostic =
     (let message_length = message_scan (dg_message diagnostic)
      in fd_store_u64_le attempt_index @ fd_store_u64_le tick @ fd_encode_joint_wire decision @
         fd_store_u32_le (dg_code diagnostic) @ fd_store_u32_le (dg_field_id diagnostic) @
         fd_store_u32_le (dg_item_index diagnostic) @ fd_store_u32_le (of_nat message_length) @
         blit (replicate 160 0) 0 (take message_length (dg_message diagnostic)))"

definition read_audit :: "bytes \<Rightarrow> fd_replay_audit" where
  "read_audit bytes =
     \<lparr>ra_attempt_index = fd_load_u64_le bytes, ra_tick = fd_load_u64_le (drop 8 bytes),
      ra_decision = fd_decode_joint_wire (drop 16 bytes), ra_result = fd_load_u32_le (drop 152 bytes),
      ra_field_id = fd_load_u32_le (drop 156 bytes), ra_item_index = fd_load_u32_le (drop 160 bytes),
      ra_message_length = fd_load_u32_le (drop 164 bytes), ra_message = replicate 160 0\<rparr>"

definition audit_noncanonical :: "u64 \<Rightarrow> u64 \<Rightarrow> fd_replay_audit \<Rightarrow> bool" where
  "audit_noncanonical total_attempts previous_attempt a \<longleftrightarrow>
     ra_attempt_index a \<ge> total_attempts \<or>
     (previous_attempt \<noteq> - 1 \<and> ra_attempt_index a \<le> previous_attempt) \<or>
     ra_tick a mod FD_OPERATIONAL_TICKS \<noteq> 0 \<or> \<not> fd_replay_result_is_auditable (ra_result a) \<or>
     ra_field_id a > FD_FIELD_ASCII_MESSAGE \<or> ra_message_length a \<ge> 160"

definition fd_decode_audit ::
    "bytes \<Rightarrow> u64 \<Rightarrow> u64 \<Rightarrow> diag \<Rightarrow> (fd_result \<times> diag) \<times> fd_replay_audit" where
  "fd_decode_audit bytes total_attempts previous_attempt diag =
     (let a = read_audit bytes; n = unat (ra_message_length a); item = ucast (ra_attempt_index a)
      in if audit_noncanonical total_attempts previous_attempt a
         then (fd_diag_set diag FD_ERR_FORMAT FD_FIELD_ACTION item
                 (str ''noncanonical replay audit record''), a)
         else if list_ex (\<lambda>index. bytes ! (168 + index) < 0x20 \<or> bytes ! (168 + index) > 0x7e) [0..<n]
         then (fd_diag_set diag FD_ERR_FORMAT FD_FIELD_ACTION item
                 (str ''invalid replay audit diagnostic text''), a)
         else
           let a1 = a\<lparr>ra_message := blit (ra_message a) 0 (take n (drop 168 bytes))\<rparr>
           in if list_ex (\<lambda>index. bytes ! (168 + index) \<noteq> 0) [n..<160]
              then (fd_diag_set diag FD_ERR_FORMAT FD_FIELD_ACTION item
                      (str ''nonzero replay audit padding''), a1)
              else ((FD_OK, diag), a1))"

section \<open>Stores of what was loaded\<close>

lemma store_load_u32: "4 \<le> length b \<Longrightarrow> fd_store_u32_le (fd_load_u32_le b) = take 4 b"
proof -
  assume "4 \<le> length b"
  then obtain x0 x1 x2 x3 r where b: "b = x0 # x1 # x2 # x3 # r"
    by (auto simp: numeral_eq_Suc Suc_le_length_iff)
  have e: "ucast (drop_bit k (ucast x0 OR push_bit 8 (ucast x1) OR push_bit 16 (ucast x2) OR
      push_bit 24 (ucast x3) :: u32)) = (if k = 0 then x0 else if k = 8 then x1 else if k = 16 then x2 else x3)"
    if "k \<in> {0, 8, 16, 24}" for k
    using that
    by (intro bit_word_eqI)
      (auto simp: bit_or_iff bit_push_bit_iff bit_ucast_iff bit_drop_bit_eq not_less not_le dest: bit_imp_le_length)
  show ?thesis
    using e [of 0] e [of 8] e [of 16] e [of 24]
    by (simp add: b fd_store_u32_le_def fd_load_u32_le_def)
qed

lemma store_load_u64: "8 \<le> length b \<Longrightarrow> fd_store_u64_le (fd_load_u64_le b) = take 8 b"
proof -
  assume b: "8 \<le> length b"
  let ?l = "fd_load_u32_le b" and ?h = "fd_load_u32_le (drop 4 b)"
  have "ucast (fd_load_u64_le b) = ?l" "ucast (drop_bit 32 (fd_load_u64_le b)) = ?h"
    by (rule bit_word_eqI; auto simp: fd_load_u64_le_def bit_or_iff bit_push_bit_iff bit_ucast_iff
        bit_drop_bit_eq dest: bit_imp_le_length)+
  then show ?thesis
    using b store_load_u32 [of b] store_load_u32 [of "drop 4 b"]
    by (simp add: fd_store_u64_le_def take_add [of 4 4, simplified])
qed

text \<open>Neighbouring pieces of a list.\<close>

lemma take_pieces:
  "q = p + n \<Longrightarrow> take n (drop p b) @ take m (drop q b) = take (n + m) (drop p b)"
  "q = n \<Longrightarrow> take n b @ take m (drop q b) = take (n + m) b"
  by (simp_all add: take_add drop_drop [symmetric] add.commute [of p] del: drop_drop)

lemmas wire_pieces = store_load_u32 store_load_u64 take_pieces

section \<open>Transition records are their encodings\<close>

definition seat_shape :: "fd_seat_decision \<Rightarrow> bool" where
  "seat_shape s \<longleftrightarrow> length (ac_parameters (sd_action s)) = 4"

definition decision_shape :: "fd_joint_decision \<Rightarrow> bool" where
  "decision_shape d \<longleftrightarrow> length (jd_expected_pre_state_sha256 d) = 32 \<and> length (jd_seats d) = 2 \<and>
     (\<forall>s\<in>set (jd_seats d). seat_shape s)"

text \<open>The headers that are not on the wire of a transition record.\<close>

definition current_seat :: "fd_seat_decision \<Rightarrow> bool" where
  "current_seat s \<longleftrightarrow> ac_struct_size (sd_action s) = 32 \<and> ac_abi_version (sd_action s) = 1"

definition current_decision :: "fd_joint_decision \<Rightarrow> bool" where
  "current_decision d \<longleftrightarrow> jd_struct_size d = 136 \<and> jd_abi_version d = 1 \<and> (\<forall>s\<in>set (jd_seats d). current_seat s)"

definition record_wire :: "fd_replay_record \<Rightarrow> bool" where
  "record_wire r \<longleftrightarrow> decision_shape (rr_decision r) \<and> current_decision (rr_decision r) \<and>
     length (rr_pre_hash r) = 32 \<and> length (rr_post_hash r) = 32 \<and> length (rr_event_hash r) = 32"

lemma list_of_4: "length xs = 4 \<Longrightarrow> [xs ! 0, xs ! 1, xs ! 2, xs ! 3] = xs"
  by (intro nth_equalityI) (auto simp: less_Suc_eq numeral_eq_Suc)

lemma list_of_2: "length xs = 2 \<Longrightarrow> [xs ! 0, xs ! 1] = xs"
  by (intro nth_equalityI) (auto simp: less_Suc_eq numeral_eq_Suc)

lemma upt_4: "[0..<4] = [0, 1, 2, 3 :: nat]"
  by (simp add: upt_rec)

lemma upt_2: "[0..<2] = [0, 1 :: nat]"
  by (simp add: upt_rec)

lemma seats_of_2: "length ss = 2 \<Longrightarrow> (\<forall>s\<in>set ss. P s) \<longleftrightarrow> P (ss ! 0) \<and> P (ss ! 1)"
  by (auto simp: numeral_eq_Suc length_Suc_conv)

interpretation record_seat: codec encode_record_seat decode_record_seat 32 "\<lambda>s. seat_shape s \<and> current_seat s"
proof
  fix s r assume "seat_shape s \<and> current_seat s"
  then show "decode_record_seat (encode_record_seat s @ r) = s"
    using list_of_4 [of "ac_parameters (sd_action s)"]
    by (simp add: decode_record_seat_def encode_record_seat_def upt_4 byte_simps seat_shape_def current_seat_def)
qed (simp add: encode_record_seat_def upt_4)

lemma length_record_seat [simp]: "length (encode_record_seat s) = 32"
  by (simp add: encode_record_seat_def upt_4)

interpretation replay_record: codec fd_encode_replay_record read_replay_record 228 record_wire
proof
  fix r rest assume wire: "record_wire r"
  let ?d = "rr_decision r"
  have seats: "length (jd_seats ?d) = 2" and ok: "seat_shape (jd_seats ?d ! 0) \<and> current_seat (jd_seats ?d ! 0)"
    "seat_shape (jd_seats ?d ! 1) \<and> current_seat (jd_seats ?d ! 1)"
    using wire by (simp_all add: record_wire_def decision_shape_def current_decision_def)
  show "read_replay_record (fd_encode_replay_record r @ rest) = r"
    using wire record_seat.dec_enc [OF ok(1)] record_seat.dec_enc [OF ok(2)] list_of_2 [OF seats]
    by (simp add: read_replay_record_def fd_encode_replay_record_def upt_2 byte_simps record_wire_def
        decision_shape_def current_decision_def)
qed (simp add: fd_encode_replay_record_def upt_2 record_wire_def decision_shape_def)

lemma encode_read_seat: "32 \<le> length b \<Longrightarrow> encode_record_seat (decode_record_seat b) = take 32 b"
  by (simp add: encode_record_seat_def decode_record_seat_def upt_4 wire_pieces)

lemma record_wire_read: "228 \<le> length b \<Longrightarrow> record_wire (read_replay_record b)"
  by (auto simp: record_wire_def read_replay_record_def decision_shape_def current_decision_def
      seat_shape_def current_seat_def decode_record_seat_def)

lemma encode_read_record: "228 \<le> length b \<Longrightarrow> fd_encode_replay_record (read_replay_record b) = take 228 b"
  by (simp add: fd_encode_replay_record_def read_replay_record_def upt_2 encode_read_seat wire_pieces)

lemma decode_record_OK:
  assumes "228 \<le> length b"
  shows "fst (fst (fd_decode_replay_record b index diag)) = FD_OK \<longleftrightarrow>
    (\<exists>r. record_wire r \<and> \<not> record_noncanonical index r \<and> take 228 b = fd_encode_replay_record r \<and>
         fd_decode_replay_record b index diag = ((FD_OK, diag), r))" (is "?l = ?r")
proof
  assume ?l
  then show ?r
    using record_wire_read [OF assms] encode_read_record [OF assms]
    by (auto simp: fd_decode_replay_record_def Let_def split: if_splits)
qed auto

section \<open>Audit records are their encodings\<close>

interpretation wire_seat: codec encode_wire_seat decode_wire_seat 40 seat_shape
proof
  fix s r assume "seat_shape s"
  then show "decode_wire_seat (encode_wire_seat s @ r) = s"
    using list_of_4 [of "ac_parameters (sd_action s)"]
    by (simp add: decode_wire_seat_def encode_wire_seat_def upt_4 byte_simps seat_shape_def)
qed (simp add: encode_wire_seat_def upt_4)

lemma length_wire_seat [simp]: "length (encode_wire_seat s) = 40"
  by (simp add: encode_wire_seat_def upt_4)

interpretation joint_wire: codec fd_encode_joint_wire fd_decode_joint_wire 136 decision_shape
proof
  fix d rest assume wire: "decision_shape d"
  have seats: "length (jd_seats d) = 2" "seat_shape (jd_seats d ! 0)" "seat_shape (jd_seats d ! 1)"
    using wire by (simp_all add: decision_shape_def)
  then show "fd_decode_joint_wire (fd_encode_joint_wire d @ rest) = d"
    using wire wire_seat.dec_enc [OF seats(2)] wire_seat.dec_enc [OF seats(3)] list_of_2 [OF seats(1)]
    by (simp add: fd_decode_joint_wire_def fd_encode_joint_wire_def upt_2 byte_simps decision_shape_def)
qed (simp add: fd_encode_joint_wire_def upt_2 decision_shape_def)

lemma encode_read_joint: "136 \<le> length b \<Longrightarrow> fd_encode_joint_wire (fd_decode_joint_wire b) = take 136 b"
proof -
  assume b: "136 \<le> length b"
  have "encode_wire_seat (decode_wire_seat c) = take 40 c" if "40 \<le> length c" for c
    using that by (simp add: encode_wire_seat_def decode_wire_seat_def upt_4 wire_pieces)
  then show ?thesis
    using b by (simp add: fd_encode_joint_wire_def fd_decode_joint_wire_def upt_2 wire_pieces)
qed

lemma decision_shape_read: "136 \<le> length b \<Longrightarrow> decision_shape (fd_decode_joint_wire b)"
  by (simp add: fd_decode_joint_wire_def decision_shape_def seat_shape_def decode_wire_seat_def)

definition printable :: "bytes \<Rightarrow> bool" where
  "printable chars \<longleftrightarrow> (\<forall>c\<in>set chars. 0x20 \<le> c \<and> c \<le> 0x7e)"

text \<open>A message field of \<open>n\<close> printable characters and zeros after them.\<close>

definition message_field :: "u32 \<Rightarrow> bytes \<Rightarrow> bool" where
  "message_field n message \<longleftrightarrow> (\<exists>chars. length chars < 160 \<and> n = of_nat (length chars) \<and> printable chars \<and>
     message = chars @ replicate (160 - length chars) 0)"

definition audit_wire :: "fd_replay_audit \<Rightarrow> bool" where
  "audit_wire a \<longleftrightarrow> decision_shape (ra_decision a) \<and> message_field (ra_message_length a) (ra_message a)"

definition audit_encoding :: "fd_replay_audit \<Rightarrow> bytes" where
  "audit_encoding a = fd_encode_audit (ra_attempt_index a) (ra_tick a) (ra_decision a)
     \<lparr>dg_struct_size = 180, dg_abi_version = FD_ABI_VERSION, dg_code = ra_result a,
      dg_field_id = ra_field_id a, dg_item_index = ra_item_index a, dg_message = ra_message a\<rparr>"

lemma message_scan_field:
  assumes "length chars < 160" "printable chars"
  shows "message_scan (chars @ replicate (160 - length chars) 0) = length chars"
proof -
  obtain k where k: "160 - length chars = Suc k" "159 - length chars = k"
    using assms(1) by (cases "160 - length chars") auto
  have "c \<noteq> 0" if "c \<in> set chars" for c
    using that assms(2) by (auto simp: printable_def)
  then have tw: "takeWhile (\<lambda>c. c \<noteq> 0) chars = chars" by (simp add: takeWhile_eq_all_conv)
  then show ?thesis
    using assms(1) \<open>\<And>c. c \<in> set chars \<Longrightarrow> c \<noteq> 0\<close>
    by (cases k) (simp_all add: message_scan_def k tw takeWhile_append2)
qed

lemma blit_zeros: "length chars \<le> n \<Longrightarrow> blit (replicate n 0) 0 chars = chars @ replicate (n - length chars) 0"
  by (simp add: blit_def)

lemma audit_encoding_eq:
  assumes "audit_wire a"
  shows "audit_encoding a = fd_store_u64_le (ra_attempt_index a) @ fd_store_u64_le (ra_tick a) @
     fd_encode_joint_wire (ra_decision a) @ fd_store_u32_le (ra_result a) @
     fd_store_u32_le (ra_field_id a) @ fd_store_u32_le (ra_item_index a) @
     fd_store_u32_le (ra_message_length a) @ ra_message a"
proof -
  from assms obtain chars where t: "length chars < 160" "ra_message_length a = of_nat (length chars)"
    "printable chars" "ra_message a = chars @ replicate (160 - length chars) 0"
    by (auto simp: audit_wire_def message_field_def)
  then show ?thesis
    using message_scan_field [OF t(1,3)]
    by (simp add: audit_encoding_def fd_encode_audit_def blit_zeros Let_def)
qed

lemma length_message: "message_field n m \<Longrightarrow> length m = 160"
  by (auto simp: message_field_def)

lemma length_audit_encoding: "audit_wire a \<Longrightarrow> length (audit_encoding a) = 328"
  using length_message [of "ra_message_length a" "ra_message a"]
  by (simp add: audit_encoding_eq joint_wire.width_enc) (simp add: audit_wire_def joint_wire.width_enc)

lemma decode_audit_encoded:
  assumes a: "audit_wire a" and c: "\<not> audit_noncanonical total_attempts previous_attempt a"
  shows "fd_decode_audit (audit_encoding a @ rest) total_attempts previous_attempt diag = ((FD_OK, diag), a)"
proof -
  let ?b = "audit_encoding a @ rest"
  from a obtain chars where t: "length chars < 160" "ra_message_length a = of_nat (length chars)"
    "printable chars" "ra_message a = chars @ replicate (160 - length chars) 0"
    by (auto simp: audit_wire_def message_field_def)
  have n: "unat (ra_message_length a) = length chars"
    using t(1,2) unat_of_nat_u32 [of "length chars"] by simp
  have sh: "decision_shape (ra_decision a)" using a by (simp add: audit_wire_def)
  have read: "read_audit ?b = a\<lparr>ra_message := replicate 160 0\<rparr>"
    using joint_wire.dec_enc [OF sh] joint_wire.width_enc [OF sh]
    by (simp add: audit_encoding_eq [OF a] read_audit_def byte_simps)
  have d: "drop 168 ?b = ra_message a @ rest"
    using joint_wire.width_enc [OF sh] by (simp add: audit_encoding_eq [OF a])
  have at: "?b ! (168 + i) = (ra_message a @ rest) ! i" for i
    unfolding d [symmetric] by (rule nth_drop [symmetric]) (simp add: length_audit_encoding [OF a])
  have body: "?b ! (168 + i) = chars ! i" if "i < length chars" for i
    using that unfolding at t(4) by (simp add: nth_append)
  have tail: "?b ! (168 + i) = 0" if "length chars \<le> i" "i < 160" for i
    using that diff_less_mono [OF that(2,1)] unfolding at t(4) by (simp add: nth_append)
  have ok: "\<not> list_ex (\<lambda>i. ?b ! (168 + i) < 0x20 \<or> ?b ! (168 + i) > 0x7e) [0..<length chars]"
    using t(3) by (auto simp: body list_ex_iff printable_def not_less)
  have pad: "\<not> list_ex (\<lambda>i. ?b ! (168 + i) \<noteq> 0) [length chars..<160]"
    by (auto simp: tail list_ex_iff)
  have front: "take (length chars) (drop 168 ?b) = chars" unfolding d t(4) by simp
  have "\<not> audit_noncanonical total_attempts previous_attempt (a\<lparr>ra_message := replicate 160 0\<rparr>)"
    using c by (simp add: audit_noncanonical_def)
  then show ?thesis
    using ok pad t(1,4) front
    by (simp add: fd_decode_audit_def read n Let_def blit_zeros del: drop_append)
qed

lemma decode_audit_OK:
  assumes b: "328 \<le> length b"
  shows "fst (fst (fd_decode_audit b total_attempts previous_attempt diag)) = FD_OK \<longleftrightarrow>
    (\<exists>a. audit_wire a \<and> \<not> audit_noncanonical total_attempts previous_attempt a \<and>
         take 328 b = audit_encoding a \<and>
         fd_decode_audit b total_attempts previous_attempt diag = ((FD_OK, diag), a))" (is "?l = ?r")
proof
  let ?a = "read_audit b" and ?text = "take (unat (ra_message_length (read_audit b))) (drop 168 b)"
  let ?a1 = "?a\<lparr>ra_message := blit (ra_message ?a) 0 ?text\<rparr>"
  let ?n = "unat (ra_message_length ?a)"
  assume ?l
  then have can: "\<not> audit_noncanonical total_attempts previous_attempt ?a"
    and ok: "\<not> list_ex (\<lambda>i. b ! (168 + i) < 0x20 \<or> b ! (168 + i) > 0x7e) [0..<?n]"
    and pad: "\<not> list_ex (\<lambda>i. b ! (168 + i) \<noteq> 0) [?n..<160]"
    and dec: "fd_decode_audit b total_attempts previous_attempt diag = ((FD_OK, diag), ?a1)"
    by (auto simp: fd_decode_audit_def Let_def split: if_splits)
  have n: "?n < 160" using can by (simp add: audit_noncanonical_def word_less_nat_alt not_le)
  then have len: "length ?text = ?n" using b by simp
  have "printable ?text"
    using ok len b by (auto simp: printable_def in_set_conv_nth list_ex_iff not_less)
  moreover have m: "ra_message ?a1 = ?text @ replicate (160 - ?n) 0"
    using n b by (simp add: read_audit_def blit_zeros)
  ultimately have msg: "message_field (ra_message_length ?a1) (ra_message ?a1)"
    using n len by (auto simp: message_field_def intro!: exI [of _ ?text])
  moreover have "decision_shape (ra_decision ?a1)"
    using b by (simp add: read_audit_def decision_shape_read)
  ultimately have wire: "audit_wire ?a1" by (simp add: audit_wire_def)
  have "drop ?n (take 160 (drop 168 b)) = replicate (160 - ?n) 0"
    using pad b by (intro nth_equalityI) (auto simp: list_ex_iff)
  then have "ra_message ?a1 = take 160 (drop 168 b)"
    using append_take_drop_id [of ?n "take 160 (drop 168 b)"] n by (simp add: m min_def)
  then have "audit_encoding ?a1 = take 328 b"
    using b unfolding audit_encoding_eq [OF wire]
    by (simp add: read_audit_def encode_read_joint wire_pieces)
  then show ?r using wire dec can by (auto simp: audit_noncanonical_def)
qed auto

text \<open>C35: the record decoders accept exactly the encodings of canonical records: whatever 228 bytes the
  transition decoder is given, it succeeds if and only if they are the encoding of a canonical record,
  which it returns, and likewise for the 328 bytes of an audit record.  So every record has one
  encoding, and nothing else is accepted.\<close>

theorem replay_records_canonical:
  assumes "228 \<le> length b" and "328 \<le> length c"
  shows "(fst (fst (fd_decode_replay_record b index diag)) = FD_OK \<longleftrightarrow>
      (\<exists>r. record_wire r \<and> \<not> record_noncanonical index r \<and> take 228 b = fd_encode_replay_record r \<and>
           fd_decode_replay_record b index diag = ((FD_OK, diag), r))) \<and>
    (fst (fst (fd_decode_audit c total_attempts previous_attempt diag)) = FD_OK \<longleftrightarrow>
      (\<exists>a. audit_wire a \<and> \<not> audit_noncanonical total_attempts previous_attempt a \<and>
           take 328 c = audit_encoding a \<and>
           fd_decode_audit c total_attempts previous_attempt diag = ((FD_OK, diag), a)))"
  using decode_record_OK [OF assms(1)] decode_audit_OK [OF assms(2)] by blast

definition record_sample :: fd_replay_record where
  "record_sample =
     (let seat = \<lparr>sd_actor_id = 7, sd_action = pass_sample\<rparr>; hash = replicate 32 9
      in \<lparr>rr_tick_before = 24, rr_tick_after = 48,
          rr_decision = \<lparr>jd_struct_size = 136, jd_abi_version = 1, jd_seat_count = 2, jd_reserved = 0,
            jd_expected_tick = 24, jd_expected_pre_state_sha256 = hash, jd_seats = [seat, seat]\<rparr>,
          rr_rng_domain_count = 0, rr_pre_hash = hash, rr_post_hash = hash, rr_event_hash = hash\<rparr>)"

theorem replay_records_canonical_witness:
  "record_wire (read_replay_record (fd_encode_replay_record record_sample)) \<and>
   fst (fst (fd_decode_audit (replicate 328 0) 1 0 None)) \<noteq> FD_OK"
proof -
  let ?b = "fd_encode_replay_record record_sample"
  have wire: "record_wire record_sample"
    by (simp add: record_wire_def record_sample_def Let_def decision_shape_def current_decision_def
        seat_shape_def current_seat_def pass_sample_def)
  have read: "read_replay_record ?b = record_sample" by (rule replay_record.dec_enc_nil [OF wire])
  have "\<not> record_noncanonical 1 record_sample"
    by (simp add: record_noncanonical_def record_sample_def Let_def)
  then have "fst (fst (fd_decode_replay_record ?b 1 None)) = FD_OK"
    by (simp add: fd_decode_replay_record_def read Let_def)
  moreover have "ra_result (read_audit (replicate 328 0)) = 0"
    by (simp add: read_audit_def fd_load_u32_le_def)
  then have "audit_noncanonical 1 0 (read_audit (replicate 328 0))"
    by (simp add: audit_noncanonical_def fd_replay_result_is_auditable_def fd_const)
  then have "fst (fst (fd_decode_audit (replicate 328 0) 1 0 None)) \<noteq> FD_OK"
    by (simp add: fd_decode_audit_def Let_def)
  moreover have "228 \<le> length ?b" using replay_record.width_enc [OF wire] by simp
  ultimately show ?thesis
    using replay_records_canonical [of ?b "replicate 328 0" 1 None 1 0]
    by (auto simp: fd_decode_replay_record_def Let_def split: if_splits)
qed

end
