(* ===== verification/FD_Build.thy ===== *)
theory FD_Build
  imports FD_Wire FD_Loaded FD_Query "HOL-Library.Monad_Syntax"
begin

text \<open>
  Building a replay file, from \<^verbatim>\<open>src/core/fd_replay.c\<close>: the attempts are first classified on a clone
  of the tick-zero world, which fixes the size of the file, then played again on a second clone while
  their records are written.  A pointer into the buffer is an offset; offsets stay inside the file,
  so they are natural numbers.
\<close>

unbundle bit_operations_syntax

section \<open>Classifying the attempts\<close>

text \<open>The step result an attempt is given: zeroed, with a current header.\<close>

definition blank_step :: fd_step_result where
  "blank_step = zero_step_result\<lparr>sr_struct_size := 5112, sr_abi_version := FD_ABI_VERSION\<rparr>"

text \<open>\<open>(void)fd_world_destroy(&work, NULL)\<close>\<close>

definition dispose :: "'u fd_context \<Rightarrow> fd_world option \<Rightarrow> 'u fd_context" where
  "dispose ctx work = fst (snd (fd_world_destroy ctx (Some work) None))"

type_synonym classify_state = "fd_world option \<times> u64 \<times> u32"

definition classify_attempt ::
    "diag \<Rightarrow> fd_joint_decision \<Rightarrow> classify_state
       \<Rightarrow> ((fd_result \<times> diag) \<times> fd_world option) + classify_state" where
  "classify_attempt diag decision = (\<lambda>(work, accepted_count, audit_count).
     case fd_world_step work (Some decision) (Some blank_step) (Some fd_diagnostic_init) of
       ((result, attempt_diag), work, step) \<Rightarrow>
         if result = FD_OK then Inr (work, accepted_count + 1, audit_count)
         else if fd_replay_result_is_auditable result
         then if audit_count = - 1
              then Inl (fd_diag_set diag FD_ERR_CAPACITY FD_FIELD_FILE_BYTES 0
                          (str ''replay audit count exceeds format bound''), work)
              else Inr (work, accepted_count, audit_count + 1)
         else Inl (fd_diag_set diag result (dg_field_id (the attempt_diag))
                     (dg_item_index (the attempt_diag)) (dg_message (the attempt_diag)), work))"

text \<open>The array \<open>decisions\<close> of \<open>n\<close> elements.\<close>

definition attempts :: "fd_joint_decision list option \<Rightarrow> u64 \<Rightarrow> fd_joint_decision list" where
  "attempts decisions n = (case decisions of None \<Rightarrow> [] | Some ds \<Rightarrow> take (unat n) ds)"

definition fd_replay_classify_attempts ::
    "'u fd_context \<Rightarrow> fd_world option \<Rightarrow> fd_joint_decision list option \<Rightarrow> u64
       \<Rightarrow> u64 option \<Rightarrow> u32 option \<Rightarrow> diag
       \<Rightarrow> (fd_result \<times> diag) \<times> 'u fd_context \<times> u64 option \<times> u32 option" where
  "fd_replay_classify_attempts ctx tick_zero_world decisions attempt_count out_accepted out_audits diag =
     (if tick_zero_world = None \<or> out_accepted = None \<or> out_audits = None \<or>
         (attempt_count > 0 \<and> decisions = None)
      then (fd_diag_set diag FD_ERR_INVALID_ARGUMENT FD_FIELD_NONE 0
              (str ''invalid replay attempt input''), ctx, out_accepted, out_audits)
      else if attempt_count > cx_max_file_bytes ctx div FD_REPLAY_RECORD_WIRE_SIZE \<or>
              attempt_count > - 1 div FD_OPERATIONAL_TICKS
      then (fd_diag_set diag FD_ERR_CAPACITY FD_FIELD_FILE_BYTES 0
              (str ''replay attempt count exceeds bounds''), ctx, Some 0, Some 0)
      else case fd_world_clone_via_save ctx tick_zero_world (Some None) diag of
        ((result, diag), ctx, work) \<Rightarrow>
          if result \<noteq> FD_OK then ((result, diag), ctx, Some 0, Some 0)
          else case scan_sum (classify_attempt diag) (attempts decisions attempt_count) (the work, 0, 0) of
            Inl (res, work) \<Rightarrow> (res, dispose ctx work, Some 0, Some 0)
          | Inr (work, accepted_count, audit_count) \<Rightarrow>
              ((FD_OK, diag), dispose ctx work, Some accepted_count, Some audit_count))"

section \<open>The size of the file\<close>

definition replay_total :: "u64 \<Rightarrow> u64 \<Rightarrow> u32 \<Rightarrow> u64 \<Rightarrow> u64 option" where
  "replay_total save_size accepted_count audit_count checkpoint_count64 = do {
     records_length \<leftarrow> fd_u64_mul accepted_count FD_REPLAY_RECORD_WIRE_SIZE;
     records_length \<leftarrow> fd_u64_add records_length 8;
     audits_length \<leftarrow> fd_u64_mul (ucast audit_count) FD_REPLAY_AUDIT_WIRE_SIZE;
     audits_length \<leftarrow> fd_u64_add audits_length 4;
     checkpoints_length \<leftarrow> fd_u64_add save_size 16;
     checkpoints_length \<leftarrow> fd_u64_mul checkpoint_count64 checkpoints_length;
     checkpoints_length \<leftarrow> fd_u64_add checkpoints_length 4;
     payload_total \<leftarrow> fd_u64_add 28 save_size;
     payload_total \<leftarrow> fd_u64_add payload_total records_length;
     payload_total \<leftarrow> fd_u64_add payload_total audits_length;
     payload_total \<leftarrow> fd_u64_add payload_total checkpoints_length;
     total \<leftarrow> fd_u64_add 8 payload_total;
     total \<leftarrow> fd_u64_add total (ucast FD_REPLAY_SECTION_COUNT * 48);
     fd_u64_add total 32
   }"

definition fd_replay_size_internal ::
    "'u fd_context \<Rightarrow> fd_world option \<Rightarrow> u64 \<Rightarrow> u32 \<Rightarrow> u64 option \<Rightarrow> u64 option \<Rightarrow> u32 option
       \<Rightarrow> fd_result \<times> u64 option \<times> u64 option \<times> u32 option" where
  "fd_replay_size_internal ctx world accepted_count audit_count out_size out_save_size out_checkpoints =
     (let checkpoint_count64 = accepted_count div 1024
      in if world = None \<or> out_size = None \<or> out_save_size = None \<or> out_checkpoints = None \<or>
            checkpoint_count64 > 4294967295
         then (FD_ERR_INVALID_ARGUMENT, out_size, out_save_size, out_checkpoints)
         else case fd_world_save_size ctx world (Some 0) None of
           ((result, _), save_size) \<Rightarrow>
             if result \<noteq> FD_OK then (FD_ERR_CAPACITY, out_size, out_save_size, out_checkpoints)
             else case replay_total (the save_size) accepted_count audit_count checkpoint_count64 of
               None \<Rightarrow> (FD_ERR_CAPACITY, out_size, out_save_size, out_checkpoints)
             | Some t \<Rightarrow> (FD_OK, Some t, save_size, Some (ucast checkpoint_count64)))"

definition fd_replay_build_size ::
    "'u fd_context \<Rightarrow> fd_world option \<Rightarrow> fd_joint_decision list option \<Rightarrow> u64 \<Rightarrow> u64 option \<Rightarrow> diag
       \<Rightarrow> (fd_result \<times> diag) \<times> 'u fd_context \<times> u64 option" where
  "fd_replay_build_size ctx tick_zero_world decisions decision_count out_size diag =
     (if tick_zero_world = None \<or> out_size = None \<or> (decision_count > 0 \<and> decisions = None)
      then (fd_diag_set diag FD_ERR_INVALID_ARGUMENT FD_FIELD_NONE 0
              (str ''invalid replay build size input''), ctx, out_size)
      else if w_tick (the tick_zero_world) \<noteq> 0
      then (fd_diag_set diag FD_ERR_STATE FD_FIELD_TICK 0
              (str ''replay source must be tick zero''), ctx, out_size)
      else case fd_replay_classify_attempts ctx tick_zero_world decisions decision_count
                  (Some 0) (Some 0) diag of
        ((result, diag), ctx, accepted_count, audit_count) \<Rightarrow>
          if result \<noteq> FD_OK then ((result, diag), ctx, out_size)
          else case fd_replay_size_internal ctx tick_zero_world (the accepted_count) (the audit_count)
                      out_size (Some 0) (Some 0) of
            (result, out_size, save_size, checkpoints) \<Rightarrow>
              if result \<noteq> FD_OK \<or> the out_size > cx_max_file_bytes ctx
              then (fd_diag_set diag FD_ERR_CAPACITY FD_FIELD_FILE_BYTES 0
                      (str ''replay exceeds configured file bound''), ctx, out_size)
              else (fd_diag_ok diag, ctx, out_size))"

section \<open>Writing the file\<close>

text \<open>Stores at their offsets, in order.\<close>

definition stores :: "(nat \<times> bytes) list \<Rightarrow> bytes \<Rightarrow> bytes" where
  "stores ws bytes = fold (\<lambda>(position, s) b. blit b position s) ws bytes"

record build_state =
  bs_work :: "fd_world option"
  bs_bytes :: bytes
  bs_record_cursor :: nat
  bs_audit_cursor :: nat
  bs_checkpoint_cursor :: nat
  bs_accepted_index :: u64
  bs_diag :: diag

text \<open>The record of an accepted attempt, from the staged part of its step result.\<close>

definition staged_record :: "fd_step_result \<Rightarrow> fd_replay_record" where
  "staged_record step =
     \<lparr>rr_tick_before = sr_staged_tick_before step, rr_tick_after = sr_staged_tick_after step,
      rr_decision = sr_staged_decision step, rr_rng_domain_count = sr_rng_domain_count step,
      rr_pre_hash = sr_staged_pre_state_sha256 step,
      rr_post_hash = sr_finalized_post_state_sha256 step, rr_event_hash = sr_staged_event_sha256 step\<rparr>"

definition staging_mismatch :: "fd_step_result \<Rightarrow> fd_replay_record \<Rightarrow> bool" where
  "staging_mismatch step r \<longleftrightarrow>
     sr_transition_stage_phase step \<noteq> 22 \<or> sr_state_hash_phase step \<noteq> 23 \<or>
     sr_transition_stage_trace_index step \<ge> sr_state_hash_trace_index step \<or>
     fd_hash_joint_decision_internal (rr_decision r) \<noteq> sr_staged_decision_sha256 step \<or>
     sr_post_state_sha256 step \<noteq> sr_finalized_post_state_sha256 step"

text \<open>The checkpoint after every 1024th accepted attempt.\<close>

definition build_checkpoint ::
    "'u fd_context \<Rightarrow> u64 \<Rightarrow> build_state \<Rightarrow> ((fd_result \<times> diag) \<times> build_state) + build_state" where
  "build_checkpoint ctx save_size s =
     (if bs_accepted_index s mod 1024 \<noteq> 0 then Inr s
      else
        let cursor = bs_checkpoint_cursor s;
            bytes = stores [(cursor, fd_store_u64_le (bs_accepted_index s)),
                            (cursor + 8, fd_store_u64_le save_size)] (bs_bytes s)
        in case fd_world_save ctx (bs_work s) (Some (drop (cursor + 16) bytes)) save_size (Some 0)
                  (bs_diag s) of
          ((result, diag), saved, checkpoint_written) \<Rightarrow>
            let s1 = s\<lparr>bs_bytes := take (cursor + 16) bytes @ the saved, bs_diag := diag\<rparr>
            in if result \<noteq> FD_OK \<or> the checkpoint_written \<noteq> save_size
               then Inl ((if result = FD_OK then FD_ERR_INTERNAL else result, diag), s1)
               else Inr (s1\<lparr>bs_checkpoint_cursor := cursor + (16 + unat save_size)\<rparr>))"

text \<open>One round of the decision loop; \<open>Inl\<close> leaves it after the work world is destroyed.\<close>

definition build_attempt ::
    "'u fd_context \<Rightarrow> u64 \<Rightarrow> nat \<times> fd_joint_decision \<Rightarrow> build_state
       \<Rightarrow> ((fd_result \<times> diag) \<times> build_state) + build_state" where
  "build_attempt ctx save_size = (\<lambda>(decision_index, decision) s.
     case fd_world_step (bs_work s) (Some decision) (Some blank_step) (Some fd_diagnostic_init) of
       ((result, attempt_diag), work, out) \<Rightarrow>
         let s = s\<lparr>bs_work := work\<rparr>
         in if result \<noteq> FD_OK \<and> fd_replay_result_is_auditable result
            then Inr (s\<lparr>bs_bytes := blit (bs_bytes s) (bs_audit_cursor s)
                          (fd_encode_audit (of_nat decision_index) (w_tick (the work)) decision
                             (the attempt_diag)),
                        bs_audit_cursor := bs_audit_cursor s + 328\<rparr>)
            else if result \<noteq> FD_OK
            then Inl (fd_diag_set (bs_diag s) result (dg_field_id (the attempt_diag))
                        (dg_item_index (the attempt_diag)) (dg_message (the attempt_diag)), s)
            else
              let step = the out; r = staged_record step
              in if staging_mismatch step r
                 then Inl (fd_diag_set (bs_diag s) FD_ERR_INTERNAL FD_FIELD_ACTION (of_nat decision_index)
                             (str ''phase-22 replay staging metadata mismatch''), s)
                 else build_checkpoint ctx save_size
                        (s\<lparr>bs_bytes := blit (bs_bytes s) (bs_record_cursor s) (fd_encode_replay_record r),
                           bs_record_cursor := bs_record_cursor s + 228,
                           bs_accepted_index := bs_accepted_index s + 1\<rparr>))"

text \<open>The stores of section 1 into its payload.\<close>

definition replay_manifest_stores :: "nat \<Rightarrow> u64 \<Rightarrow> u32 \<Rightarrow> u32 \<Rightarrow> (nat \<times> bytes) list" where
  "replay_manifest_stores payload1 accepted_count checkpoint_count audit_count =
     [(payload1, fd_store_u16_le FD_REPLAY_VERSION_MAJOR),
      (payload1 + 2, fd_store_u16_le FD_REPLAY_VERSION_MINOR),
      (payload1 + 4, fd_store_u16_le FD_REPLAY_VERSION_MAJOR),
      (payload1 + 6, fd_store_u16_le 0),
      (payload1 + 8, fd_store_u32_le FD_REPLAY_SECTION_COUNT),
      (payload1 + 12, fd_store_u64_le accepted_count),
      (payload1 + 20, fd_store_u32_le checkpoint_count),
      (payload1 + 24, fd_store_u32_le audit_count)]"

text \<open>The part of \<open>fd_replay_build_into\<close> from section 3 on: the headers and counts of the last three
  sections, the decision loop that fills them in, the section digests and the footer.\<close>

definition build_body ::
    "'u fd_context \<Rightarrow> fd_world \<Rightarrow> fd_joint_decision list \<Rightarrow> u64 \<Rightarrow> u64 \<Rightarrow> u64 \<Rightarrow> u32 \<Rightarrow> u32 \<Rightarrow> nat
       \<Rightarrow> bytes \<Rightarrow> diag \<Rightarrow> (fd_result \<times> diag) \<times> 'u fd_context \<times> bytes \<times> u64" where
  "build_body ctx w ds required save_size accepted_count audit_count checkpoint_count position bytes diag =
     (let records_length = 8 + accepted_count * FD_REPLAY_RECORD_WIRE_SIZE;
          audits_length = 4 + ucast audit_count * FD_REPLAY_AUDIT_WIRE_SIZE;
          checkpoints_length = 4 + ucast checkpoint_count * (16 + save_size);
          bytes = fd_replay_write_section_header bytes position 3 records_length;
          payload3 = position + 16;
          bytes = blit bytes payload3 (fd_store_u64_le accepted_count);
          position = payload3 + unat records_length + 32;
          bytes = fd_replay_write_section_header bytes position 4 audits_length;
          payload4 = position + 16;
          bytes = blit bytes payload4 (fd_store_u32_le audit_count);
          position = payload4 + unat audits_length + 32;
          bytes = fd_replay_write_section_header bytes position 5 checkpoints_length;
          payload5 = position + 16;
          bytes = blit bytes payload5 (fd_store_u32_le checkpoint_count);
          position = payload5 + unat checkpoints_length + 32
      in if position + 32 \<noteq> unat required
         then (fd_diag_set diag FD_ERR_INTERNAL FD_FIELD_FILE_BYTES 0
                 (str ''replay layout size mismatch''), ctx, bytes, 0)
         else case fd_world_clone_via_save ctx (Some w) (Some None) diag of
           ((result, diag), ctx, work) \<Rightarrow>
             if result \<noteq> FD_OK then ((result, diag), ctx, bytes, 0)
             else case scan_sum (build_attempt ctx save_size) (enumerate 0 ds)
                    \<lparr>bs_work = the work, bs_bytes = bytes, bs_record_cursor = payload3 + 8,
                     bs_audit_cursor = payload4 + 4, bs_checkpoint_cursor = payload5 + 4,
                     bs_accepted_index = 0, bs_diag = diag\<rparr> of
               Inl (res, s) \<Rightarrow> (res, dispose ctx (bs_work s), bs_bytes s, 0)
             | Inr s \<Rightarrow>
                 let ctx = dispose ctx (bs_work s)
                 in if bs_record_cursor s \<noteq> payload3 + unat records_length \<or>
                       bs_audit_cursor s \<noteq> payload4 + unat audits_length \<or>
                       bs_checkpoint_cursor s \<noteq> payload5 + unat checkpoints_length
                    then (fd_diag_set (bs_diag s) FD_ERR_INTERNAL FD_FIELD_FILE_BYTES 0
                            (str ''replay record cursor mismatch''), ctx, bs_bytes s, 0)
                    else
                      let bytes = fd_replay_finish_section (bs_bytes s) payload3 records_length;
                          bytes = fd_replay_finish_section bytes payload4 audits_length;
                          bytes = fd_replay_finish_section bytes payload5 checkpoints_length;
                          footer = fd_replay_footer_digest bytes (unat (required - 32))
                      in (fd_diag_ok (bs_diag s), ctx, blit bytes (unat (required - 32)) footer, required))"

definition fd_replay_build_into ::
    "'u fd_context \<Rightarrow> fd_world option \<Rightarrow> fd_joint_decision list option \<Rightarrow> u64 \<Rightarrow> bytes option \<Rightarrow> u64
       \<Rightarrow> u64 option \<Rightarrow> diag \<Rightarrow> (fd_result \<times> diag) \<times> 'u fd_context \<times> bytes option \<times> u64 option" where
  "fd_replay_build_into ctx tick_zero_world decisions decision_count buffer capacity written diag =
     (if written = None
      then (fd_diag_set diag FD_ERR_INVALID_ARGUMENT FD_FIELD_NONE 0
              (str ''replay written output is null''), ctx, buffer, None)
      else if tick_zero_world = None \<or> (decision_count > 0 \<and> decisions = None)
      then (fd_diag_set diag FD_ERR_INVALID_ARGUMENT FD_FIELD_NONE 0
              (str ''invalid replay build input''), ctx, buffer, Some 0)
      else if w_tick (the tick_zero_world) \<noteq> 0
      then (fd_diag_set diag FD_ERR_STATE FD_FIELD_TICK 0
              (str ''replay source must be tick zero''), ctx, buffer, Some 0)
      else case fd_replay_classify_attempts ctx tick_zero_world decisions decision_count
                  (Some 0) (Some 0) diag of
        ((result, diag), ctx, accepted_count, audit_count) \<Rightarrow>
          if result \<noteq> FD_OK then ((result, diag), ctx, buffer, Some 0)
          else case fd_replay_size_internal ctx tick_zero_world (the accepted_count) (the audit_count)
                      (Some 0) (Some 0) (Some 0) of
            (result, required, save_size, checkpoint_count) \<Rightarrow>
              if result \<noteq> FD_OK \<or> the required > cx_max_file_bytes ctx
              then (fd_diag_set diag FD_ERR_CAPACITY FD_FIELD_FILE_BYTES 0
                      (str ''replay exceeds configured file bound''), ctx, buffer, Some 0)
              else if buffer = None \<or> capacity < the required
              then (fd_diag_set diag FD_ERR_BUFFER_TOO_SMALL FD_FIELD_BUFFER_CAPACITY 0
                      (str ''replay buffer is smaller than required size''), ctx, buffer, Some 0)
              else
                let required = the required; save_size = the save_size;
                    bytes = stores [(0, replicate (unat required) 0), (0, fd_replay_magic)] (the buffer);
                    position = 8;
                    bytes = fd_replay_write_section_header bytes position 1 28;
                    payload1 = position + 16;
                    bytes = stores (replay_manifest_stores payload1 (the accepted_count)
                              (the checkpoint_count) (the audit_count)) bytes;
                    bytes = fd_replay_finish_section bytes payload1 28;
                    position = payload1 + 28 + 32;
                    bytes = fd_replay_write_section_header bytes position 2 save_size;
                    payload2 = position + 16
                in case fd_world_save ctx tick_zero_world (Some (drop payload2 bytes)) save_size
                          (Some 0) diag of
                  ((result, diag), saved, save_written) \<Rightarrow>
                    let bytes = take payload2 bytes @ the saved
                    in if result \<noteq> FD_OK \<or> the save_written \<noteq> save_size
                       then ((if result = FD_OK then FD_ERR_INTERNAL else result, diag), ctx,
                             Some bytes, Some 0)
                       else case build_body ctx (the tick_zero_world)
                                   (attempts decisions decision_count) required save_size
                                   (the accepted_count) (the audit_count) (the checkpoint_count)
                                   (payload2 + unat save_size + 32)
                                   (fd_replay_finish_section bytes payload2 save_size) diag of
                         (res, ctx, bytes, n) \<Rightarrow> (res, ctx, Some bytes, Some n))"

text \<open>The temporary buffer comes from the allocator with arbitrary contents, here zeros.\<close>

definition fd_replay_build ::
    "'u fd_context \<Rightarrow> fd_world option \<Rightarrow> fd_joint_decision list option \<Rightarrow> u64 \<Rightarrow> bytes option \<Rightarrow> u64
       \<Rightarrow> u64 option \<Rightarrow> diag \<Rightarrow> (fd_result \<times> diag) \<times> 'u fd_context \<times> bytes option \<times> u64 option" where
  "fd_replay_build ctx tick_zero_world decisions decision_count buffer capacity written diag =
     (if written = None
      then (fd_diag_set diag FD_ERR_INVALID_ARGUMENT FD_FIELD_NONE 0
              (str ''replay written output is null''), ctx, buffer, None)
      else case fd_replay_build_size ctx tick_zero_world decisions decision_count (Some 0) diag of
        ((result, diag), ctx, required) \<Rightarrow>
          if result \<noteq> FD_OK then ((result, diag), ctx, buffer, Some 0)
          else
            let required = the required
            in if buffer = None \<or> capacity < required
               then (fd_diag_set diag FD_ERR_BUFFER_TOO_SMALL FD_FIELD_BUFFER_CAPACITY 0
                       (str ''replay buffer is smaller than required size''), ctx, buffer, Some 0)
               else case fd_context_alloc ctx required of
                 (False, ctx) \<Rightarrow>
                   (fd_diag_set diag FD_ERR_OUT_OF_MEMORY FD_FIELD_NONE 0
                      (str ''transactional replay allocation failed''), ctx, buffer, Some 0)
               | (True, ctx) \<Rightarrow>
                   (case fd_replay_build_into ctx tick_zero_world decisions decision_count
                           (Some (replicate (unat required) 0)) required (Some 0) diag of
                      ((result, diag), ctx, temporary, temporary_written) \<Rightarrow>
                        let ctx' = fd_context_free ctx required
                        in if result = FD_OK \<and> the temporary_written = required
                           then ((result, diag), ctx',
                                 Some (blit (the buffer) 0 (take (unat required) (the temporary))),
                                 Some required)
                           else if result = FD_OK
                           then (fd_diag_set diag FD_ERR_INTERNAL FD_FIELD_FILE_BYTES 0
                                   (str ''replay build size mismatch''), ctx', buffer, Some 0)
                           else ((result, diag), ctx', buffer, Some 0)))"

end
