(* ===== verification/FD_Open.thy ===== *)
theory FD_Open
  imports FD_Wire FD_Loaded FD_Query FD_Build
begin

text \<open>
  Opening a replay file and the life of its handle, from \<^verbatim>\<open>src/core/fd_replay.c\<close>.  \<open>fd_replay_open\<close>
  checks the framing, allocates the handle, decodes both record arrays and then re-executes every
  recorded attempt on the tick-zero world before it hands anything out.  A pointer into the file is
  the suffix of the file it points to, and one that is passed on with its size is the slice of that
  size; a block that may be absent is an option, \<open>None\<close> for \<open>NULL\<close>.
\<close>

unbundle bit_operations_syntax

section \<open>The section structure\<close>

record fd_replay_section =
  rs_payload :: bytes
  rs_length :: u64
  rs_present :: bool

definition no_replay_section :: fd_replay_section where
  "no_replay_section = \<lparr>rs_payload = [], rs_length = 0, rs_present = False\<rparr>"

definition section_slice :: "fd_replay_section \<Rightarrow> bytes" where
  "section_slice section = take (unat (rs_length section)) (rs_payload section)"

text \<open>One round of the section loop: the state is position, previous tag, section count, sections.\<close>

type_synonym replay_parse_state = "nat \<times> u16 \<times> u32 \<times> fd_replay_section list"

definition parse_replay_section ::
    "bytes \<Rightarrow> nat \<Rightarrow> diag \<Rightarrow> replay_parse_state \<Rightarrow> (fd_result \<times> diag) + replay_parse_state" where
  "parse_replay_section bytes footer diag = (\<lambda>(position, previous, n, sections).
     if footer - position < 48
     then Inl (fd_diag_set diag FD_ERR_FORMAT FD_FIELD_SECTION n (str ''truncated replay section''))
     else
       let tag = fd_load_u16_le (drop position bytes);
           flags = fd_load_u16_le (drop (position + 2) bytes);
           reserved = fd_load_u32_le (drop (position + 4) bytes);
           len = fd_load_u64_le (drop (position + 8) bytes);
           noncanonical = fd_diag_set diag FD_ERR_FORMAT FD_FIELD_SECTION n
                            (str ''noncanonical replay section framing'')
       in if tag \<le> previous \<or> reserved \<noteq> 0 \<or> flags AND NOT 1 \<noteq> 0 then Inl noncanonical
          else case fd_u64_add 48 len of
            None \<Rightarrow> Inl noncanonical
          | Some framed \<Rightarrow>
              if unat framed > footer - position then Inl noncanonical
              else
                let payload = drop (position + 16) bytes;
                    digest = the (snd (fd_sha256 (Some payload) (unat len) (Some (replicate 32 0))))
                in if digest \<noteq> take 32 (drop (unat len) payload)
                   then Inl (fd_diag_set diag FD_ERR_CHECKSUM FD_FIELD_SECTION n
                               (str ''replay section digest mismatch''))
                   else if tag \<le> 5 \<and> flags AND 1 = 0
                   then Inl (fd_diag_set diag FD_ERR_FORMAT FD_FIELD_SECTION n
                               (str ''mandatory replay section is optional''))
                   else if \<not> tag \<le> 5 \<and> flags AND 1 \<noteq> 0
                   then Inl (fd_diag_set diag FD_ERR_VERSION FD_FIELD_SECTION n
                               (str ''unknown critical replay section''))
                   else
                     let sections' = (if tag \<le> 5
                           then sections[unat tag := \<lparr>rs_payload = payload, rs_length = len,
                                                      rs_present = True\<rparr>]
                           else sections)
                     in if n + 1 > 64
                        then Inl (fd_diag_set diag FD_ERR_CAPACITY FD_FIELD_SECTION (n + 1)
                                    (str ''too many replay sections''))
                        else Inr (position + unat framed, tag, n + 1, sections'))"

lemma parse_replay_section_advances:
  assumes "parse_replay_section bytes footer diag st = Inr st'"
  shows "fst st < fst st'" and "fst st' \<le> footer"
proof -
  have pos: "0 < unat framed" if "fd_u64_add 48 len = Some framed" for len framed :: u64
    using fd_u64_add_unat [OF that] by simp
  from assms show "fst st < fst st'" and "fst st' \<le> footer"
    by (auto simp: parse_replay_section_def Let_def dest!: pos split: prod.splits if_splits option.splits)
qed

function replay_parse_loop ::
    "bytes \<Rightarrow> nat \<Rightarrow> diag \<Rightarrow> replay_parse_state \<Rightarrow> (fd_result \<times> diag) + replay_parse_state" where
  "replay_parse_loop bytes footer diag st =
     (if fst st < footer
      then case parse_replay_section bytes footer diag st of
             Inl e \<Rightarrow> Inl e
           | Inr st' \<Rightarrow> replay_parse_loop bytes footer diag st'
      else Inr st)"
  by pat_completeness auto
termination
  by (relation "measure (\<lambda>(bytes, footer, diag, st). footer - fst st)")
    (use parse_replay_section_advances(1) in \<open>force+\<close>)

declare replay_parse_loop.simps [simp del]

definition fd_parse_replay_sections ::
    "bytes \<Rightarrow> nat \<Rightarrow> diag \<Rightarrow> (fd_result \<times> diag) + (fd_replay_section list \<times> u32)" where
  "fd_parse_replay_sections bytes n diag =
     (let footer = n - 32
      in case replay_parse_loop bytes footer diag (8, 0, 0, replicate 6 no_replay_section) of
           Inl e \<Rightarrow> Inl e
         | Inr (position, previous, section_count, sections) \<Rightarrow>
             if position \<noteq> footer
             then Inl (fd_diag_set diag FD_ERR_FORMAT FD_FIELD_FILE_BYTES 0
                         (str ''unframed replay trailing bytes''))
             else case find (\<lambda>tag. \<not> rs_present (sections ! tag)) [1..<6] of
               Some tag \<Rightarrow> Inl (fd_diag_set diag FD_ERR_FORMAT FD_FIELD_SECTION (of_nat tag)
                                  (str ''missing replay section''))
             | None \<Rightarrow> Inr (sections, section_count))"

section \<open>The handle\<close>

text \<open>\<open>sizeof (fd_replay)\<close> is 128.  \<open>rp_context\<close> is the address of the context.\<close>

record fd_replay =
  rp_context :: nat
  rp_tick_zero_save :: bytes
  rp_tick_zero_save_size :: u64
  rp_records :: "fd_replay_record list option"
  rp_audits :: "fd_replay_audit list option"
  rp_record_count :: u64
  rp_audit_count :: u32
  rp_cursor :: u64
  rp_checkpoint_count :: u32
  rp_tick_zero_allocation_size :: u64
  rp_record_allocation_size :: u64
  rp_audit_allocation_size :: u64
  rp_tick_zero_hash :: bytes

text \<open>\<open>fd_context_free\<close> of a block that may be \<open>NULL\<close>.\<close>

definition free_block :: "'u fd_context \<Rightarrow> 'a option \<Rightarrow> u64 \<Rightarrow> 'u fd_context" where
  "free_block ctx memory n = (case memory of None \<Rightarrow> ctx | Some _ \<Rightarrow> fd_context_free ctx n)"

text \<open>The four frees at \<open>replay_open_fail\<close>, and the same four of the record loop's own exit.\<close>

definition free_replay :: "'u fd_context \<Rightarrow> fd_replay \<Rightarrow> 'u fd_context" where
  "free_replay ctx rp =
     fd_context_free
       (fd_context_free
          (free_block (free_block ctx (rp_audits rp) (rp_audit_allocation_size rp))
             (rp_records rp) (rp_record_allocation_size rp))
          (rp_tick_zero_allocation_size rp)) 128"

section \<open>Manifest and counts\<close>

definition replay_manifest_bad :: "fd_replay_section list \<Rightarrow> u32 \<Rightarrow> bool" where
  "replay_manifest_bad sections parsed_count \<longleftrightarrow>
     rs_length (sections ! 1) < 28 \<or>
     fd_load_u16_le (rs_payload (sections ! 1)) \<noteq> FD_REPLAY_VERSION_MAJOR \<or>
     fd_load_u16_le (drop 4 (rs_payload (sections ! 1))) \<noteq> FD_REPLAY_VERSION_MAJOR \<or>
     fd_load_u16_le (drop 6 (rs_payload (sections ! 1))) > FD_REPLAY_VERSION_MINOR \<or>
     fd_load_u32_le (drop 8 (rs_payload (sections ! 1))) \<noteq> parsed_count"

text \<open>The total number of attempts, when the three counts fit the three section lengths.\<close>

definition replay_counts :: "fd_replay_section list \<Rightarrow> u64 \<Rightarrow> u32 \<Rightarrow> u32 \<Rightarrow> u64 option" where
  "replay_counts sections decision_count checkpoint_count audit_count = do {
     records_length \<leftarrow> fd_u64_mul decision_count FD_REPLAY_RECORD_WIRE_SIZE;
     records_length \<leftarrow> fd_u64_add records_length 8;
     audit_length \<leftarrow> fd_u64_mul (ucast audit_count) FD_REPLAY_AUDIT_WIRE_SIZE;
     audit_length \<leftarrow> fd_u64_add audit_length 4;
     total_attempts \<leftarrow> fd_u64_add decision_count (ucast audit_count);
     if rs_length (sections ! 3) \<noteq> records_length \<or>
        fd_load_u64_le (rs_payload (sections ! 3)) \<noteq> decision_count \<or>
        rs_length (sections ! 4) \<noteq> audit_length \<or>
        fd_load_u32_le (rs_payload (sections ! 4)) \<noteq> audit_count \<or>
        rs_length (sections ! 5) < 4 \<or>
        fd_load_u32_le (rs_payload (sections ! 5)) \<noteq> checkpoint_count \<or>
        decision_count div 1024 > 4294967295 \<or>
        checkpoint_count \<noteq> ucast (decision_count div 1024)
     then None else Some total_attempts
   }"

section \<open>Decoding the records\<close>

text \<open>How the part after the allocations is left early: a direct \<open>return\<close> after the frees, or
  \<open>goto replay_open_fail\<close> with the failing section.\<close>

datatype open_exit = Returned fd_result diag | Failed fd_result diag u32

definition record_discontinuous ::
    "bytes \<Rightarrow> fd_entity_id list \<Rightarrow> fd_replay_record list \<Rightarrow> nat \<Rightarrow> fd_replay_record \<Rightarrow> bool" where
  "record_discontinuous tick_zero_hash actors records index r \<longleftrightarrow>
     (let seat0 = jd_seats (rr_decision r) ! 0; seat1 = jd_seats (rr_decision r) ! 1 in
      sd_actor_id seat0 \<noteq> actors ! 0 \<or> sd_actor_id seat1 \<noteq> actors ! 1 \<or>
      ac_category (sd_action seat0) \<noteq> FD_ACTION_PASS \<or>
      ac_category (sd_action seat1) \<noteq> FD_ACTION_PASS \<or>
      ac_parameter_count (sd_action seat0) \<noteq> 0 \<or> ac_parameter_count (sd_action seat1) \<noteq> 0 \<or>
      (index = 0 \<and> rr_tick_before r \<noteq> 0) \<or>
      (index = 0 \<and> rr_pre_hash r \<noteq> tick_zero_hash) \<or>
      (index > 0 \<and> (rr_tick_before r \<noteq> rr_tick_after (records ! (index - 1)) \<or>
                     rr_pre_hash r \<noteq> rr_post_hash (records ! (index - 1)))))"

definition pass_parameters :: "fd_replay_record \<Rightarrow> bool" where
  "pass_parameters r \<longleftrightarrow>
     list_all (\<lambda>seat. list_all (\<lambda>parameter.
         ac_parameters (sd_action (jd_seats (rr_decision r) ! seat)) ! parameter = 0) [0..<4])
       [0..<FD_U01_SEAT_COUNT]"

text \<open>One round of the record loop over the records decoded so far.\<close>

definition open_record ::
    "fd_replay_section list \<Rightarrow> bytes \<Rightarrow> fd_entity_id list \<Rightarrow> nat
       \<Rightarrow> fd_replay_record list \<times> diag \<Rightarrow> open_exit + (fd_replay_record list \<times> diag)" where
  "open_record sections tick_zero_hash actors index = (\<lambda>(records, diag).
     case fd_decode_replay_record (drop (8 + index * 228) (rs_payload (sections ! 3))) index diag of
       ((result, diag), r) \<Rightarrow>
         if result \<noteq> FD_OK then Inl (Returned result diag)
         else if record_discontinuous tick_zero_hash actors records index r
         then (case fd_diag_set diag FD_ERR_FORMAT FD_FIELD_ACTION (of_nat index)
                      (str ''replay record chain is discontinuous'') of
                 (result, diag) \<Rightarrow> Inl (Returned result diag))
         else if \<not> pass_parameters r
         then (case fd_diag_set diag FD_ERR_FORMAT FD_FIELD_ACTION (of_nat index)
                      (str ''section 3 contains nonzero PASS parameter'') of
                 (result, diag) \<Rightarrow> Inl (Failed result diag 3))
         else Inr (records @ [r], diag))"

definition open_audit ::
    "fd_replay_section list \<Rightarrow> u64 \<Rightarrow> u64 \<Rightarrow> nat
       \<Rightarrow> fd_replay_audit list \<times> u64 \<times> diag \<Rightarrow> open_exit + (fd_replay_audit list \<times> u64 \<times> diag)" where
  "open_audit sections decision_count total_attempts audit_index = (\<lambda>(audits, previous_attempt, diag).
     case fd_decode_audit (drop (4 + audit_index * 328) (rs_payload (sections ! 4))) total_attempts
            previous_attempt diag of
       ((result, diag), a) \<Rightarrow>
         if result \<noteq> FD_OK then Inl (Failed result diag 4)
         else if ra_attempt_index a < of_nat audit_index
         then (case fd_diag_set diag FD_ERR_FORMAT FD_FIELD_ACTION (ucast (ra_attempt_index a))
                      (str ''section 4 audit attempt order is invalid'') of
                 (result, diag) \<Rightarrow> Inl (Failed result diag 4))
         else
           let accepted_before = ra_attempt_index a - of_nat audit_index
           in if accepted_before > decision_count \<or> accepted_before > - 1 div FD_OPERATIONAL_TICKS \<or>
                 ra_tick a \<noteq> accepted_before * FD_OPERATIONAL_TICKS
              then (case fd_diag_set diag FD_ERR_FORMAT FD_FIELD_ACTION (ucast (ra_attempt_index a))
                           (str ''section 4 audit tick is not chronological'') of
                      (result, diag) \<Rightarrow> Inl (Failed result diag 4))
              else Inr (audits @ [a], ra_attempt_index a, diag))"

section \<open>Re-executing the attempts\<close>

type_synonym verify_state = "fd_world option \<times> u64 \<times> u32"

text \<open>What the re-executed rejection must not differ in from the audit record.\<close>

definition audit_mismatch ::
    "fd_replay_audit \<Rightarrow> fd_result \<Rightarrow> fd_diagnostic \<Rightarrow> fd_world \<Rightarrow> fd_world \<Rightarrow> bool" where
  "audit_mismatch a attempt_result attempt_diag before after \<longleftrightarrow>
     (let n = message_scan (dg_message attempt_diag) in
      attempt_result \<noteq> ra_result a \<or> dg_code attempt_diag \<noteq> ra_result a \<or>
      dg_field_id attempt_diag \<noteq> ra_field_id a \<or> dg_item_index attempt_diag \<noteq> ra_item_index a \<or>
      of_nat n \<noteq> ra_message_length a \<or> take n (dg_message attempt_diag) \<noteq> take n (ra_message a) \<or>
      w_tick after \<noteq> w_tick before \<or> w_state_sha256 after \<noteq> w_state_sha256 before)"

text \<open>One round of the merge of records and audits; \<open>Inl\<close> is \<open>break\<close> with the world as it is then.\<close>

definition verify_attempt ::
    "fd_replay_record list \<Rightarrow> fd_replay_audit list \<Rightarrow> u64 \<Rightarrow> u32 \<Rightarrow> diag \<Rightarrow> nat
       \<Rightarrow> verify_state \<Rightarrow> (((fd_result \<times> diag) \<times> u32) \<times> fd_world option) + verify_state" where
  "verify_attempt records audits decision_count audit_count diag attempt_index =
     (\<lambda>(world, accepted_index, audit_index).
     let before = the world in
     if audit_index < audit_count \<and>
        ra_attempt_index (audits ! unat audit_index) = of_nat attempt_index
     then
       let a = audits ! unat audit_index
       in case fd_world_step world (Some (ra_decision a)) (Some blank_step) (Some fd_diagnostic_init) of
         ((attempt_result, attempt_diag), world, step) \<Rightarrow>
           if audit_mismatch a attempt_result (the attempt_diag) before (the world)
           then Inl ((fd_diag_set diag FD_ERR_FORMAT FD_FIELD_ACTION (of_nat attempt_index)
                        (str ''section 4 audit diagnostic failed semantic verification''), 4), world)
           else Inr (world, accepted_index, audit_index + 1)
     else if accepted_index \<ge> decision_count
     then Inl ((fd_diag_set diag FD_ERR_FORMAT FD_FIELD_ACTION (of_nat attempt_index)
                  (str ''section 3 has more accepted attempts than records''), 3), world)
     else
       let r = records ! unat accepted_index
       in if rr_tick_before r \<noteq> w_tick before \<or> rr_pre_hash r \<noteq> w_state_sha256 before
          then Inl ((fd_diag_set diag FD_ERR_FORMAT FD_FIELD_ACTION (of_nat attempt_index)
                       (str ''section 3 transition pre-state does not match''), 3), world)
          else case fd_world_step world (Some (rr_decision r)) (Some blank_step) (Some fd_diagnostic_init) of
            ((attempt_result, attempt_diag), world, step) \<Rightarrow>
              if attempt_result \<noteq> FD_OK \<or> rr_tick_after r \<noteq> w_tick (the world) \<or>
                 rr_post_hash r \<noteq> w_state_sha256 (the world) \<or>
                 rr_event_hash r \<noteq> sr_event_sha256 (the step)
              then Inl ((fd_diag_set diag
                           (if attempt_result = FD_OK then FD_ERR_CHECKSUM else attempt_result)
                           FD_FIELD_ACTION (of_nat attempt_index)
                           (str ''section 3 accepted transition failed semantic verification''), 3), world)
              else Inr (world, accepted_index + 1, audit_index))"

text \<open>The merge loop with the check that follows it; the world it played on is destroyed by the caller.\<close>

definition verify_attempts ::
    "fd_replay_record list \<Rightarrow> fd_replay_audit list \<Rightarrow> u64 \<Rightarrow> u32 \<Rightarrow> u64 \<Rightarrow> diag \<Rightarrow> fd_world option
       \<Rightarrow> ((fd_result \<times> diag) \<times> u32) \<times> fd_world option" where
  "verify_attempts records audits decision_count audit_count total_attempts diag world =
     (case scan_sum (verify_attempt records audits decision_count audit_count diag)
             [0..<unat total_attempts] (world, 0, 0) of
        Inl e \<Rightarrow> e
      | Inr (world, accepted_index, audit_index) \<Rightarrow>
          if accepted_index \<noteq> decision_count \<or> audit_index \<noteq> audit_count
          then ((fd_diag_set diag FD_ERR_FORMAT FD_FIELD_ACTION
                   (ucast (accepted_index + ucast audit_index))
                   (str ''replay attempt merge did not consume every record''),
                 if audit_index \<noteq> audit_count then 4 else 3), world)
          else (((FD_OK, diag), 0), world))"

section \<open>Checking the checkpoints\<close>

type_synonym 'u checkpoint_state = "u64 \<times> 'u fd_context \<times> diag"

definition open_checkpoint ::
    "fd_replay_section list \<Rightarrow> fd_replay_record list \<Rightarrow> nat \<Rightarrow> 'u checkpoint_state
       \<Rightarrow> ('u fd_context \<times> open_exit) + 'u checkpoint_state" where
  "open_checkpoint sections records checkpoint = (\<lambda>(position, ctx, diag).
     let payload = rs_payload (sections ! 5); len = rs_length (sections ! 5);
         failed = (\<lambda>ctx code message. case fd_diag_set diag code FD_FIELD_SECTION (of_nat checkpoint) message of
                     (result, diag) \<Rightarrow> Inl (ctx, Failed result diag 5))
     in if len - position < 16
        then failed ctx FD_ERR_FORMAT (str ''section 5 checkpoint header is truncated'')
        else
          let decision_offset = fd_load_u64_le (drop (unat position) payload);
              checkpoint_size = fd_load_u64_le (drop (unat position + 8) payload);
              position = position + 16
          in if decision_offset \<noteq> ucast (of_nat checkpoint + 1 :: u32) * 1024 \<or>
                checkpoint_size > len - position
             then failed ctx FD_ERR_FORMAT (str ''section 5 checkpoint offset or size is invalid'')
             else case fd_world_load (Some ctx)
                         (Some (take (unat checkpoint_size) (drop (unat position) payload))) checkpoint_size
                         (Some None) diag of
               ((result, diag), ctx, world) \<Rightarrow>
                 let ctx = the ctx in
                 if result \<noteq> FD_OK then Inl (ctx, Failed result diag 5)
                 else
                   let w = the (the world) in
                   if w_tick w \<noteq> decision_offset * FD_OPERATIONAL_TICKS \<or>
                      w_state_sha256 w \<noteq> rr_post_hash (records ! unat (decision_offset - 1))
                   then (case fd_diag_set diag FD_ERR_CHECKSUM FD_FIELD_SECTION (of_nat checkpoint)
                                (str ''section 5 checkpoint state does not match transition'') of
                           (result, diag) \<Rightarrow> Inl (dispose ctx (Some w), Failed result diag 5))
                   else Inr (position + checkpoint_size, dispose ctx (Some w), diag))"

section \<open>Opening\<close>

text \<open>Everything between the allocations and the end, on a handle whose blocks are allocated.\<close>

definition open_contents ::
    "'u fd_context \<Rightarrow> fd_replay_section list \<Rightarrow> fd_replay \<Rightarrow> fd_entity_id list \<Rightarrow> u64 \<Rightarrow> diag
       \<Rightarrow> 'u fd_context \<times> (open_exit + (fd_replay_record list \<times> fd_replay_audit list \<times> diag))" where
  "open_contents ctx sections rp actors total_attempts diag =
     (case scan_sum (open_record sections (rp_tick_zero_hash rp) actors)
             [0..<unat (rp_record_count rp)] ([], diag) of
        Inl e \<Rightarrow> (ctx, Inl e)
      | Inr (records, diag) \<Rightarrow>
      (case scan_sum (open_audit sections (rp_record_count rp) total_attempts)
              [0..<unat (rp_audit_count rp)] ([], - 1, diag) of
        Inl e \<Rightarrow> (ctx, Inl e)
      | Inr (audits, previous_attempt, diag) \<Rightarrow>
      (case fd_world_load (Some ctx) (Some (rp_tick_zero_save rp)) (rp_tick_zero_save_size rp)
              (Some None) diag of
        ((result, diag), ctx, world) \<Rightarrow>
          let ctx = the ctx in
          if result \<noteq> FD_OK then (ctx, Inl (Failed result diag 2))
          else case verify_attempts records audits (rp_record_count rp) (rp_audit_count rp)
                      total_attempts diag (the world) of
            (((result, diag), failure_section), world) \<Rightarrow>
              let ctx = dispose ctx world in
              if result \<noteq> FD_OK then (ctx, Inl (Failed result diag failure_section))
              else case scan_sum (open_checkpoint sections records)
                          [0..<unat (rp_checkpoint_count rp)] (4, ctx, diag) of
                Inl (ctx, e) \<Rightarrow> (ctx, Inl e)
              | Inr (position, ctx, diag) \<Rightarrow>
                  if position \<noteq> rs_length (sections ! 5)
                  then (case fd_diag_set diag FD_ERR_FORMAT FD_FIELD_SECTION (rp_checkpoint_count rp)
                               (str ''section 5 checkpoint bytes are not fully consumed'') of
                          (result, diag) \<Rightarrow> (ctx, Inl (Failed result diag 5)))
                  else (ctx, Inr (records, audits, diag)))))"

text \<open>The diagnostic at \<open>replay_open_fail\<close>, after the frees.\<close>

definition open_failure :: "fd_result \<Rightarrow> diag \<Rightarrow> u32 \<Rightarrow> fd_result \<times> diag" where
  "open_failure result diag failure_section =
     (if (case diag of None \<Rightarrow> False
          | Some d \<Rightarrow> 180 \<le> dg_struct_size d \<and> dg_abi_version d = FD_ABI_VERSION \<and>
                      dg_code d = result \<and> result \<noteq> FD_OK)
      then (result, diag)
      else if failure_section = 4
      then fd_diag_set diag result FD_FIELD_SECTION failure_section (str ''replay audit validation failed'')
      else if failure_section = 3
      then fd_diag_set diag result FD_FIELD_SECTION failure_section
             (str ''replay transition validation failed'')
      else if failure_section = 2
      then fd_diag_set diag result FD_FIELD_SECTION failure_section
             (str ''replay tick-zero checkpoint validation failed'')
      else fd_diag_set diag result FD_FIELD_SECTION 5 (str ''replay checkpoint validation failed''))"

text \<open>The four allocations, the last two only when they have bytes; \<open>Inl\<close> is the diagnostic of the one
  that failed, with the earlier ones given back.\<close>

definition open_allocate ::
    "'u fd_context \<Rightarrow> u64 \<Rightarrow> u64 \<Rightarrow> u64 \<Rightarrow> 'u fd_context \<times> bytes option" where
  "open_allocate ctx save_bytes record_bytes audit_bytes =
     (case fd_context_alloc ctx 128 of
        (False, ctx) \<Rightarrow> (ctx, Some (str ''replay handle allocation failed''))
      | (True, ctx) \<Rightarrow>
      (case fd_context_alloc ctx save_bytes of
        (False, ctx) \<Rightarrow>
          (fd_context_free ctx 128, Some (str ''replay checkpoint allocation failed''))
      | (True, ctx) \<Rightarrow>
      (case (if record_bytes > 0 then fd_context_alloc ctx record_bytes else (True, ctx)) of
        (False, ctx) \<Rightarrow>
          (fd_context_free (fd_context_free ctx save_bytes) 128,
           Some (str ''replay record allocation failed''))
      | (True, ctx) \<Rightarrow>
      (case (if audit_bytes > 0 then fd_context_alloc ctx audit_bytes else (True, ctx)) of
        (False, ctx) \<Rightarrow>
          (fd_context_free (fd_context_free
             (free_block ctx (if record_bytes > 0 then Some () else None) record_bytes) save_bytes) 128,
           Some (str ''replay audit allocation failed''))
      | (True, ctx) \<Rightarrow> (ctx, None)))))"

text \<open>The handle once its blocks are allocated, and with its records filled in.\<close>

definition fresh_replay ::
    "nat \<Rightarrow> fd_replay_section list \<Rightarrow> fd_world \<Rightarrow> u64 \<Rightarrow> u64 \<Rightarrow> fd_replay" where
  "fresh_replay owner sections world record_bytes audit_bytes =
     \<lparr>rp_context = owner,
      rp_tick_zero_save = section_slice (sections ! 2),
      rp_tick_zero_save_size = rs_length (sections ! 2),
      rp_records = (if record_bytes > 0 then Some [] else None),
      rp_audits = (if audit_bytes > 0 then Some [] else None),
      rp_record_count = fd_load_u64_le (drop 12 (rs_payload (sections ! 1))),
      rp_audit_count = fd_load_u32_le (drop 24 (rs_payload (sections ! 1))), rp_cursor = 0,
      rp_checkpoint_count = fd_load_u32_le (drop 20 (rs_payload (sections ! 1))),
      rp_tick_zero_allocation_size = rs_length (sections ! 2),
      rp_record_allocation_size = record_bytes, rp_audit_allocation_size = audit_bytes,
      rp_tick_zero_hash = w_state_sha256 world\<rparr>"

definition opened :: "fd_replay \<Rightarrow> fd_replay_record list \<Rightarrow> fd_replay_audit list \<Rightarrow> fd_replay" where
  "opened rp records audits = rp\<lparr>rp_records := map_option (\<lambda>_. records) (rp_records rp),
     rp_audits := map_option (\<lambda>_. audits) (rp_audits rp)\<rparr>"

text \<open>From the manifest of section 1 on.\<close>

definition open_sections ::
    "'u fd_context \<Rightarrow> fd_replay_section list \<Rightarrow> u32 \<Rightarrow> diag
       \<Rightarrow> (fd_result \<times> diag) \<times> 'u fd_context \<times> fd_replay option" where
  "open_sections ctx sections parsed_count diag =
     (if replay_manifest_bad sections parsed_count
      then (fd_diag_set diag FD_ERR_VERSION FD_FIELD_FORMAT_VERSION 0
              (str ''unsupported replay manifest''), ctx, None)
      else
        let manifest = rs_payload (sections ! 1);
            decision_count = fd_load_u64_le (drop 12 manifest);
            checkpoint_count = fd_load_u32_le (drop 20 manifest);
            audit_count = fd_load_u32_le (drop 24 manifest)
        in case replay_counts sections decision_count checkpoint_count audit_count of
          None \<Rightarrow> (fd_diag_set diag FD_ERR_FORMAT FD_FIELD_SECTION 0
                     (str ''replay counts or lengths are inconsistent''), ctx, None)
        | Some total_attempts \<Rightarrow>
          (case fd_world_load (Some ctx) (Some (section_slice (sections ! 2))) (rs_length (sections ! 2))
                  (Some None) diag of
            ((result, diag), ctx, check_world) \<Rightarrow>
              let ctx = the ctx in
              if result \<noteq> FD_OK then ((result, diag), ctx, None)
              else
                let world = the (the check_world) in
                if w_tick world \<noteq> 0
                then (fd_diag_set diag FD_ERR_STATE FD_FIELD_TICK 0
                        (str ''replay checkpoint is not tick zero''), dispose ctx (Some world), None)
                else case (fd_u64_mul decision_count 256, fd_u64_mul (ucast audit_count) 328) of
                  (Some record_bytes, Some audit_bytes) \<Rightarrow>
                    (case open_allocate ctx (rs_length (sections ! 2)) record_bytes audit_bytes of
                      (ctx, Some message) \<Rightarrow>
                        (fd_diag_set diag FD_ERR_OUT_OF_MEMORY FD_FIELD_NONE 0 message,
                         dispose ctx (Some world), None)
                    | (ctx, None) \<Rightarrow>
                        let rp = fresh_replay (cx_id ctx) sections world record_bytes audit_bytes;
                            actors = [rg_foreign_faction_ids (w_region world) ! 0,
                                      rg_foreign_faction_ids (w_region world) ! 1]
                        in case open_contents (dispose ctx (Some world)) sections rp actors
                                  total_attempts diag of
                          (ctx, Inl (Returned result diag)) \<Rightarrow>
                            ((result, diag), free_replay ctx rp, None)
                        | (ctx, Inl (Failed result diag failure_section)) \<Rightarrow>
                            (open_failure result diag failure_section, free_replay ctx rp, None)
                        | (ctx, Inr (records, audits, diag)) \<Rightarrow>
                            (fd_diag_ok diag, handle_acquire ctx,
                             Some (opened rp records audits)))
                | _ \<Rightarrow> (fd_diag_set diag FD_ERR_CAPACITY FD_FIELD_FILE_BYTES 0
                          (str ''replay record allocation size overflows''), dispose ctx (Some world), None)))"

definition fd_replay_open ::
    "'u fd_context option \<Rightarrow> bytes option \<Rightarrow> u64 \<Rightarrow> fd_replay option option \<Rightarrow> diag
       \<Rightarrow> (fd_result \<times> diag) \<times> 'u fd_context option \<times> fd_replay option option" where
  "fd_replay_open context bytes_input n out diag =
     (if out = None
      then (fd_diag_set diag FD_ERR_INVALID_ARGUMENT FD_FIELD_NONE 0 (str ''replay output is null''),
            context, None)
      else case (context, bytes_input) of
        (Some ctx, Some bytes) \<Rightarrow>
          let diag = snd (fd_diag_ok diag) in
          if n > cx_max_file_bytes ctx
          then (fd_diag_set diag FD_ERR_CAPACITY FD_FIELD_FILE_BYTES 0
                  (str ''replay exceeds configured file bound''), context, Some None)
          else if n < 8 + 32 + 48 \<or> take 8 bytes \<noteq> fd_replay_magic
          then if n \<ge> 8 \<and> take 7 bytes = take 7 fd_replay_magic
               then (fd_diag_set diag FD_ERR_VERSION FD_FIELD_FORMAT_VERSION 0
                       (str ''unsupported replay major version''), context, Some None)
               else (fd_diag_set diag FD_ERR_FORMAT FD_FIELD_FILE_BYTES 0
                       (str ''invalid or truncated replay magic''), context, Some None)
          else if fd_replay_footer_digest bytes (unat (n - 32)) \<noteq> take 32 (drop (unat (n - 32)) bytes)
          then (fd_diag_set diag FD_ERR_CHECKSUM FD_FIELD_FILE_BYTES 0
                  (str ''replay footer digest mismatch''), context, Some None)
          else (case fd_parse_replay_sections bytes (unat n) diag of
                  Inl e \<Rightarrow> (e, context, Some None)
                | Inr (sections, parsed_count) \<Rightarrow>
                    (case open_sections ctx sections parsed_count diag of
                       (r, ctx, rp) \<Rightarrow> (r, Some ctx, Some rp)))
      | _ \<Rightarrow> (fd_diag_set diag FD_ERR_INVALID_ARGUMENT FD_FIELD_NONE 0
                (str ''context or replay bytes are null''), context, Some None))"

end
