(* ===== verification/FD_Playback.thy ===== *)
theory FD_Playback
  imports FD_Open
begin

text \<open>
  Using an open replay, from \<^verbatim>\<open>src/core/fd_replay.c\<close>: its queries, the tick-zero world it hands out,
  the cursor that advances a world through the recorded transitions, and its destruction.
\<close>

unbundle bit_operations_syntax

record fd_replay_info =
  ri_struct_size :: u32
  ri_abi_version :: u32
  ri_decision_count :: u64
  ri_cursor :: u64
  ri_tick_zero_save_bytes :: u64
  ri_checkpoint_count :: u32
  ri_audit_count :: u32
  ri_tick_zero_state_sha256 :: bytes

record fd_replay_audit_view =
  aw_struct_size :: u32
  aw_abi_version :: u32
  aw_attempt_index :: u64
  aw_tick :: u64
  aw_decision :: fd_joint_decision
  aw_result :: fd_result
  aw_field_id :: u32
  aw_item_index :: u32
  aw_message_length :: u32
  aw_message :: bytes

record fd_replay_record_view =
  rw_struct_size :: u32
  rw_abi_version :: u32
  rw_decision_index :: u64
  rw_tick_before :: u64
  rw_tick_after :: u64
  rw_decision :: fd_joint_decision
  rw_rng_domain_count :: u32
  rw_reserved :: u32
  rw_pre_state_sha256 :: bytes
  rw_post_state_sha256 :: bytes
  rw_event_sha256 :: bytes

record fd_replay_status =
  rs_struct_size :: u32
  rs_abi_version :: u32
  rs_cursor :: u64
  rs_total_decisions :: u64
  rs_decisions_advanced :: u64
  rs_complete :: u32
  rs_reserved :: u32
  rs_state_sha256 :: bytes

section \<open>Destruction\<close>

definition fd_replay_destroy ::
    "'u fd_context \<Rightarrow> fd_replay option option \<Rightarrow> diag
       \<Rightarrow> (fd_result \<times> diag) \<times> 'u fd_context \<times> fd_replay option option" where
  "fd_replay_destroy ctx replay_ptr diag =
     (case replay_ptr of
        None \<Rightarrow> (fd_diag_set diag FD_ERR_INVALID_ARGUMENT FD_FIELD_NONE 0 (str ''replay pointer is null''),
                   ctx, None)
      | Some None \<Rightarrow> (fd_diag_ok diag, ctx, Some None)
      | Some (Some rp) \<Rightarrow> (fd_diag_ok diag, handle_release (free_replay ctx rp), Some None))"

section \<open>Queries\<close>

definition fd_replay_get_info ::
    "fd_replay option \<Rightarrow> fd_replay_info option \<Rightarrow> diag \<Rightarrow> (fd_result \<times> diag) \<times> fd_replay_info option" where
  "fd_replay_get_info replay out diag =
     (case replay of
        None \<Rightarrow> (fd_diag_set diag FD_ERR_INVALID_ARGUMENT FD_FIELD_NONE 0 (str ''replay is null''), out)
      | Some rp \<Rightarrow>
          if \<not> fd_output_struct_valid (map_option (\<lambda>i. (ri_struct_size i, ri_abi_version i)) out) 72
          then (fd_diag_set diag FD_ERR_INVALID_SIZE FD_FIELD_STRUCT_SIZE 0
                  (str ''invalid replay info output''), out)
          else (fd_diag_ok diag,
                map_option (\<lambda>i. i\<lparr>ri_decision_count := rp_record_count rp, ri_cursor := rp_cursor rp,
                    ri_tick_zero_save_bytes := rp_tick_zero_save_size rp,
                    ri_checkpoint_count := rp_checkpoint_count rp, ri_audit_count := rp_audit_count rp,
                    ri_tick_zero_state_sha256 := rp_tick_zero_hash rp\<rparr>) out))"

definition fd_replay_get_record ::
    "fd_replay option \<Rightarrow> u64 \<Rightarrow> fd_replay_record_view option \<Rightarrow> diag
       \<Rightarrow> (fd_result \<times> diag) \<times> fd_replay_record_view option" where
  "fd_replay_get_record replay index out diag =
     (case replay of
        None \<Rightarrow> (fd_diag_set diag FD_ERR_INVALID_ARGUMENT FD_FIELD_NONE 0 (str ''replay is null''), out)
      | Some rp \<Rightarrow>
          if \<not> fd_output_struct_valid (map_option (\<lambda>v. (rw_struct_size v, rw_abi_version v)) out) 272
          then (fd_diag_set diag FD_ERR_INVALID_SIZE FD_FIELD_STRUCT_SIZE 0
                  (str ''invalid replay record output''), out)
          else if index \<ge> rp_record_count rp
          then (fd_diag_set diag FD_ERR_OUT_OF_RANGE FD_FIELD_ACTION (ucast index)
                  (str ''replay record index is out of range''), out)
          else
            let r = the (rp_records rp) ! unat index
            in (fd_diag_ok diag,
                map_option (\<lambda>v. v\<lparr>rw_decision_index := index, rw_tick_before := rr_tick_before r,
                    rw_tick_after := rr_tick_after r, rw_decision := rr_decision r,
                    rw_rng_domain_count := rr_rng_domain_count r, rw_reserved := 0,
                    rw_pre_state_sha256 := rr_pre_hash r, rw_post_state_sha256 := rr_post_hash r,
                    rw_event_sha256 := rr_event_hash r\<rparr>) out))"

definition fd_replay_get_audit ::
    "fd_replay option \<Rightarrow> u32 \<Rightarrow> fd_replay_audit_view option \<Rightarrow> diag
       \<Rightarrow> (fd_result \<times> diag) \<times> fd_replay_audit_view option" where
  "fd_replay_get_audit replay index out diag =
     (case replay of
        None \<Rightarrow> (fd_diag_set diag FD_ERR_INVALID_ARGUMENT FD_FIELD_NONE 0 (str ''replay is null''), out)
      | Some rp \<Rightarrow>
          if \<not> fd_output_struct_valid (map_option (\<lambda>v. (aw_struct_size v, aw_abi_version v)) out) 336
          then (fd_diag_set diag FD_ERR_INVALID_SIZE FD_FIELD_STRUCT_SIZE 0
                  (str ''invalid replay audit output''), out)
          else if index \<ge> rp_audit_count rp
          then (fd_diag_set diag FD_ERR_OUT_OF_RANGE FD_FIELD_ACTION index
                  (str ''replay audit index is out of range''), out)
          else
            let a = the (rp_audits rp) ! unat index
            in (fd_diag_ok diag,
                map_option (\<lambda>v. v\<lparr>aw_attempt_index := ra_attempt_index a, aw_tick := ra_tick a,
                    aw_decision := ra_decision a, aw_result := ra_result a,
                    aw_field_id := ra_field_id a, aw_item_index := ra_item_index a,
                    aw_message_length := ra_message_length a,
                    aw_message := blit (replicate 160 0) 0
                      (take (unat (ra_message_length a)) (ra_message a))\<rparr>) out))"

section \<open>Worlds from a replay\<close>

text \<open>\<open>ctx\<close> is the context the replay points to.\<close>

definition fd_replay_create_world ::
    "'u fd_context \<Rightarrow> fd_replay option \<Rightarrow> fd_world option option \<Rightarrow> diag
       \<Rightarrow> (fd_result \<times> diag) \<times> 'u fd_context \<times> fd_world option option" where
  "fd_replay_create_world ctx replay out diag =
     (if out = None
      then (fd_diag_set diag FD_ERR_INVALID_ARGUMENT FD_FIELD_NONE 0 (str ''replay world output is null''),
            ctx, None)
      else case replay of
        None \<Rightarrow> (fd_diag_set diag FD_ERR_INVALID_ARGUMENT FD_FIELD_NONE 0 (str ''replay is null''),
                   ctx, Some None)
      | Some rp \<Rightarrow>
          (case fd_world_load (Some ctx) (Some (rp_tick_zero_save rp)) (rp_tick_zero_save_size rp)
                  (Some None) diag of
             (r, ctx, world) \<Rightarrow> (r, the ctx, world)))"

text \<open>The tick and the state hash the cursor expects of the world.\<close>

definition cursor_state :: "fd_replay \<Rightarrow> u64 \<times> bytes" where
  "cursor_state rp =
     (if rp_cursor rp < rp_record_count rp
      then let r = the (rp_records rp) ! unat (rp_cursor rp) in (rr_tick_before r, rr_pre_hash r)
      else if rp_record_count rp > 0
      then let r = the (rp_records rp) ! unat (rp_record_count rp - 1) in (rr_tick_after r, rr_post_hash r)
      else (0, rp_tick_zero_hash rp))"

text \<open>One round of the advance loop on the candidate world.\<close>

definition advance_step ::
    "fd_replay \<Rightarrow> nat \<Rightarrow> fd_world option \<times> diag
       \<Rightarrow> ((fd_result \<times> diag) \<times> fd_world option) + (fd_world option \<times> diag)" where
  "advance_step rp index = (\<lambda>(candidate, diag).
     let r = the (rp_records rp) ! (unat (rp_cursor rp) + index)
     in case fd_world_step candidate (Some (rr_decision r)) (Some blank_step) diag of
       ((result, diag), candidate, step) \<Rightarrow>
         if result \<noteq> FD_OK then Inl ((result, diag), candidate)
         else if w_state_sha256 (the candidate) \<noteq> rr_post_hash r \<or>
                 sr_event_sha256 (the step) \<noteq> rr_event_hash r
         then Inl (fd_diag_set diag FD_ERR_CHECKSUM FD_FIELD_ACTION
                     (of_nat (unat (rp_cursor rp) + index))
                     (str ''replay diverged at operational boundary''), candidate)
         else Inr (candidate, diag))"

definition advance_status :: "fd_replay \<Rightarrow> fd_world \<Rightarrow> u64 \<Rightarrow> fd_replay_status" where
  "advance_status rp world n =
     \<lparr>rs_struct_size = 72, rs_abi_version = FD_ABI_VERSION, rs_cursor = rp_cursor rp,
      rs_total_decisions = rp_record_count rp, rs_decisions_advanced = n,
      rs_complete = (if rp_cursor rp = rp_record_count rp then 1 else 0), rs_reserved = 0,
      rs_state_sha256 = w_state_sha256 world\<rparr>"

definition fd_replay_advance ::
    "'u fd_context \<Rightarrow> fd_replay option \<Rightarrow> fd_world option \<Rightarrow> u64 \<Rightarrow> fd_replay_status option \<Rightarrow> diag
       \<Rightarrow> (fd_result \<times> diag) \<times> 'u fd_context \<times> fd_replay option \<times> fd_world option
           \<times> fd_replay_status option" where
  "fd_replay_advance ctx replay world decisions out diag =
     (case (replay, world) of
        (Some rp, Some w) \<Rightarrow>
          if \<not> fd_output_struct_valid (map_option (\<lambda>s. (rs_struct_size s, rs_abi_version s)) out) 72
          then (fd_diag_set diag FD_ERR_INVALID_SIZE FD_FIELD_STRUCT_SIZE 0
                  (str ''invalid replay status output''), ctx, replay, world, out)
          else if w_context w \<noteq> rp_context rp
          then (fd_diag_set diag FD_ERR_INVALID_ARGUMENT FD_FIELD_NONE 0
                  (str ''replay and world contexts differ''), ctx, replay, world, out)
          else
            let remaining = rp_record_count rp - rp_cursor rp;
                n = (if decisions < remaining then decisions else remaining)
            in if (w_tick w, w_state_sha256 w) \<noteq> cursor_state rp
               then (fd_diag_set diag FD_ERR_CHECKSUM FD_FIELD_TICK (ucast (rp_cursor rp))
                       (str ''world does not match replay cursor pre-state''), ctx, replay, world, out)
               else
                 let committed = (\<lambda>ctx w diag.
                       let rp = rp\<lparr>rp_cursor := rp_cursor rp + n\<rparr>
                       in (fd_diag_ok diag, ctx, Some rp, Some w, Some (advance_status rp w n)))
                 in if n = 0 then committed ctx w diag
                    else case fd_world_clone_via_save ctx world (Some None) diag of
                      ((clone_result, diag), ctx, candidate) \<Rightarrow>
                        if clone_result \<noteq> FD_OK then ((clone_result, diag), ctx, replay, world, out)
                        else case scan_sum (advance_step rp) [0..<unat n] (the candidate, diag) of
                          Inl (res, candidate) \<Rightarrow> (res, dispose ctx candidate, replay, world, out)
                        | Inr (candidate, diag) \<Rightarrow>
                            committed (dispose ctx candidate)
                              (w\<lparr>w_tick := w_tick (the candidate),
                                 w_state_sha256 := w_state_sha256 (the candidate)\<rparr>) diag
      | _ \<Rightarrow> (fd_diag_set diag FD_ERR_INVALID_ARGUMENT FD_FIELD_NONE 0
                (str ''replay or world is null''), ctx, replay, world, out))"

end
