(* ===== verification/FD_Result.thy ===== *)
theory FD_Result
  imports FD_Query FD_Playback
begin

text \<open>
  The C++ boundary: \<^verbatim>\<open>src/cpp/result.hpp\<close>, \<^verbatim>\<open>result.cpp\<close> and the read-only queries of the \<^verbatim>\<open>Snapshot\<close>
  and \<^verbatim>\<open>Replay\<close> wrappers of \<^verbatim>\<open>src/cpp/fd.cpp\<close>.  \<^verbatim>\<open>Result<T>\<close> is a sum, \<open>Inl\<close> the error.  The
  exceptions of the C++ containers (\<^verbatim>\<open>bad_alloc\<close>, \<^verbatim>\<open>length_error\<close>) are not modelled: the containers of
  these screens are bounded by the terminal or by a world.
\<close>

section \<open>Results\<close>

record cpp_error =
  er_code :: fd_result
  er_field_id :: u32
  er_item_index :: u32
  er_message :: bytes

type_synonym 'a cpp_result = "cpp_error + 'a"

definition wrapper_error :: "fd_result \<Rightarrow> bytes \<Rightarrow> cpp_error" where
  "wrapper_error code message =
     \<lparr>er_code = code, er_field_id = 0, er_item_index = 0, er_message = message\<rparr>"

text \<open>The message is copied up to its terminator, or whole when there is none.\<close>

definition error_from :: "fd_result \<Rightarrow> fd_diagnostic \<Rightarrow> cpp_error" where
  "error_from code diagnostic =
     \<lparr>er_code = code, er_field_id = dg_field_id diagnostic, er_item_index = dg_item_index diagnostic,
      er_message = takeWhile (\<lambda>c. c \<noteq> 0) (dg_message diagnostic)\<rparr>"

text \<open>
  The early return of a failed \<open>Result\<close>, and the shape all wrappers of a C query share: refuse an
  empty handle, call with a fresh diagnostic, turn the diagnostic of a failure into an \<open>Error\<close>.
\<close>

definition on_success :: "'a cpp_result \<Rightarrow> ('a \<Rightarrow> 'b cpp_result) \<Rightarrow> 'b cpp_result" where
  "on_success r f = (case r of Inl e \<Rightarrow> Inl e | Inr v \<Rightarrow> f v)"

definition checked_query ::
    "bool \<Rightarrow> bytes \<Rightarrow> (diag \<Rightarrow> (fd_result \<times> diag) \<times> 'a option) \<Rightarrow> 'a cpp_result" where
  "checked_query valid refusal call =
     (if \<not> valid then Inl (wrapper_error FD_ERR_STATE refusal)
      else case call (Some fd_diagnostic_init) of
        ((result, diag), output) \<Rightarrow>
          if result \<noteq> FD_OK then Inl (error_from result (the diag)) else Inr (the output))"

lemma on_success_simps [simp]: "on_success (Inl e) f = Inl e" "on_success (Inr v) f = f v"
  by (simp_all add: on_success_def)

lemma on_success_Inr: "on_success r f = Inr b \<longleftrightarrow> (\<exists>a. r = Inr a \<and> f a = Inr b)"
  by (cases r) simp_all

text \<open>A loop that fills a vector and leaves at the first error.\<close>

primrec collect :: "('a \<Rightarrow> 'b cpp_result) \<Rightarrow> 'a list \<Rightarrow> 'b list cpp_result" where
  "collect f [] = Inr []"
| "collect f (x # xs) = on_success (f x) (\<lambda>y. on_success (collect f xs) (\<lambda>ys. Inr (y # ys)))"

lemma collect_Inr: "collect f xs = Inr ys \<longleftrightarrow> list_all2 (\<lambda>x y. f x = Inr y) xs ys"
  by (induction xs arbitrary: ys) (auto simp: on_success_Inr list_all2_Cons1)

lemma collect_map: "(\<And>x. x \<in> set xs \<Longrightarrow> f x = Inr (g x)) \<Longrightarrow> collect f xs = Inr (map g xs)"
  by (induction xs) simp_all

section \<open>Snapshots\<close>

text \<open>A wrapper owns its handle through a shared state or only borrows one.\<close>

record snapshot_wrapper =
  sw_state :: "fd_snapshot option"
  sw_borrowed :: "fd_snapshot option"

definition snapshot_borrow :: "fd_snapshot option \<Rightarrow> snapshot_wrapper" where
  "snapshot_borrow snapshot = \<lparr>sw_state = None, sw_borrowed = snapshot\<rparr>"

definition native_handle :: "snapshot_wrapper \<Rightarrow> fd_snapshot option" where
  "native_handle s = (case sw_state s of Some h \<Rightarrow> Some h | None \<Rightarrow> sw_borrowed s)"

definition snapshot_valid :: "snapshot_wrapper \<Rightarrow> bool" where
  "snapshot_valid s \<longleftrightarrow> native_handle s \<noteq> None"

definition blank_tile_view :: fd_tile_view where
  "blank_tile_view =
     \<lparr>tv_struct_size = 64, tv_abi_version = FD_ABI_VERSION, tv_tile_id = 0, tv_x = 0, tv_y = 0,
      tv_terrain = 0, tv_overlays = 0, tv_elevation_cm = 0, tv_rainfall_mm = 0, tv_region_id = 0,
      tv_settlement_id = 0, tv_polity_owner_id = 0\<rparr>"

definition blank_entity_view :: fd_entity_view where
  "blank_entity_view =
     \<lparr>ev_struct_size = 104, ev_abi_version = FD_ABI_VERSION, ev_id = 0, ev_kind = 0, ev_x = 0, ev_y = 0,
      ev_region_id = 0, ev_owner_id = 0, ev_name_length = 0, ev_name = replicate FD_MAX_NAME_BYTES 0\<rparr>"

definition blank_region_view :: fd_region_view where
  "blank_region_view =
     \<lparr>rv_struct_size = 96, rv_abi_version = FD_ABI_VERSION, rv_id = 0, rv_political_owner_id = 0,
      rv_settlement_count = 0, rv_foreign_presence_count = 0, rv_settlement_ids = [0, 0],
      rv_foreign_faction_ids = [0, 0], rv_river_outlet_tile_id = 0, rv_road_start_tile_id = 0,
      rv_road_end_tile_id = 0, rv_river_tile_count = 0, rv_road_tile_count = 0\<rparr>"

definition snapshot_refusal :: bytes where
  "snapshot_refusal = str ''snapshot is empty or moved-from''"

definition snapshot_info :: "snapshot_wrapper \<Rightarrow> fd_world_info cpp_result" where
  "snapshot_info s = checked_query (snapshot_valid s) snapshot_refusal
     (fd_snapshot_get_info (native_handle s)
        (Some (blank_info\<lparr>wi_struct_size := 232, wi_abi_version := FD_ABI_VERSION\<rparr>)))"

definition snapshot_tile :: "snapshot_wrapper \<Rightarrow> u32 \<Rightarrow> u32 \<Rightarrow> fd_tile_view cpp_result" where
  "snapshot_tile s x y = checked_query (snapshot_valid s) snapshot_refusal
     (fd_snapshot_get_tile (native_handle s) x y (Some blank_tile_view))"

definition snapshot_entity_by_index :: "snapshot_wrapper \<Rightarrow> u32 \<Rightarrow> fd_entity_view cpp_result" where
  "snapshot_entity_by_index s index = checked_query (snapshot_valid s) snapshot_refusal
     (fd_snapshot_get_entity_by_index (native_handle s) index (Some blank_entity_view))"

definition snapshot_region :: "snapshot_wrapper \<Rightarrow> fd_region_view cpp_result" where
  "snapshot_region s = checked_query (snapshot_valid s) snapshot_refusal
     (fd_snapshot_get_region (native_handle s) (Some blank_region_view))"

definition snapshot_state_hash :: "snapshot_wrapper \<Rightarrow> bytes cpp_result" where
  "snapshot_state_hash s = checked_query (snapshot_valid s) snapshot_refusal
     (fd_snapshot_state_hash (native_handle s) (Some (replicate 32 0)))"

section \<open>Replays\<close>

definition blank_replay_info :: fd_replay_info where
  "blank_replay_info =
     \<lparr>ri_struct_size = 72, ri_abi_version = FD_ABI_VERSION, ri_decision_count = 0, ri_cursor = 0,
      ri_tick_zero_save_bytes = 0, ri_checkpoint_count = 0, ri_audit_count = 0,
      ri_tick_zero_state_sha256 = replicate 32 0\<rparr>"

definition blank_record_view :: fd_replay_record_view where
  "blank_record_view =
     \<lparr>rw_struct_size = 272, rw_abi_version = FD_ABI_VERSION, rw_decision_index = 0, rw_tick_before = 0,
      rw_tick_after = 0, rw_decision = zero_decision, rw_rng_domain_count = 0, rw_reserved = 0,
      rw_pre_state_sha256 = replicate 32 0, rw_post_state_sha256 = replicate 32 0,
      rw_event_sha256 = replicate 32 0\<rparr>"

definition blank_audit_view :: fd_replay_audit_view where
  "blank_audit_view =
     \<lparr>aw_struct_size = 336, aw_abi_version = FD_ABI_VERSION, aw_attempt_index = 0, aw_tick = 0,
      aw_decision = zero_decision, aw_result = 0, aw_field_id = 0, aw_item_index = 0,
      aw_message_length = 0, aw_message = replicate 160 0\<rparr>"

text \<open>A replay wrapper is its handle, \<open>None\<close> when it is empty or moved-from.\<close>

definition replay_refusal :: bytes where
  "replay_refusal = str ''replay is empty or moved-from''"

definition replay_info :: "fd_replay option \<Rightarrow> fd_replay_info cpp_result" where
  "replay_info rp = checked_query (rp \<noteq> None) replay_refusal
     (fd_replay_get_info rp (Some blank_replay_info))"

definition replay_record :: "fd_replay option \<Rightarrow> u64 \<Rightarrow> fd_replay_record_view cpp_result" where
  "replay_record rp index = checked_query (rp \<noteq> None) replay_refusal
     (fd_replay_get_record rp index (Some blank_record_view))"

definition replay_audit :: "fd_replay option \<Rightarrow> u32 \<Rightarrow> fd_replay_audit_view cpp_result" where
  "replay_audit rp index = checked_query (rp \<noteq> None) replay_refusal
     (fd_replay_get_audit rp index (Some blank_audit_view))"

end
