(* ===== verification/FD_Text.thy ===== *)
theory FD_Text
  imports FD_Result
begin

text \<open>
  The text helpers of \<^verbatim>\<open>src/terminal/ascii_renderer.cpp\<close>: numbers, identifiers, columns and the frame
  every screen ends in.  A \<^verbatim>\<open>std::string\<close> is the list of its bytes.
\<close>

unbundle bit_operations_syntax

section \<open>Numbers\<close>

text \<open>\<^verbatim>\<open>std::to_chars\<close> in base ten; it fails when the 32 characters of the buffer do not suffice.\<close>

fun digits :: "nat \<Rightarrow> bytes" where
  "digits n = (if n < 10 then [48 + of_nat n] else digits (n div 10) @ [48 + of_nat (n mod 10)])"

declare digits.simps [simp del]

definition decimal :: "int \<Rightarrow> bytes" where
  "decimal value =
     (let text = (if value < 0 then 45 # digits (nat (- value)) else digits (nat value))
      in if length text > 32 then str ''?'' else text)"

definition printable :: "u8 \<Rightarrow> bool" where
  "printable byte \<longleftrightarrow> 0x20 \<le> byte \<and> byte \<le> 0x7e"

definition ascii_text :: "bytes \<Rightarrow> bytes" where
  "ascii_text text = map (\<lambda>byte. if 0x20 \<le> byte \<and> byte \<le> 0x7e then byte else 63) text"

definition entity_name :: "fd_entity_view \<Rightarrow> bytes" where
  "entity_name entity = ascii_text (take (min (unat (ev_name_length entity)) FD_MAX_NAME_BYTES) (ev_name entity))"

definition hex_digit :: "u8 \<Rightarrow> u8" where
  "hex_digit v = str ''0123456789abcdef'' ! unat v"

definition hex_prefix :: "bytes \<Rightarrow> nat \<Rightarrow> bytes" where
  "hex_prefix bytes byte_count =
     concat (map (\<lambda>byte. [hex_digit (drop_bit 4 byte), hex_digit (byte AND 0x0f)]) (take byte_count bytes))"

definition seed_hex :: "fd_world_info \<Rightarrow> bytes" where
  "seed_hex info =
     concat (map (\<lambda>index. let byte = wi_root_seed_le info ! (15 - index)
                          in [hex_digit (drop_bit 4 byte), hex_digit (byte AND 0x0f)]) [0..<16])"

definition seed_short :: "fd_world_info \<Rightarrow> bytes" where
  "seed_short info = drop 16 (seed_hex info)"

section \<open>Columns\<close>

definition strip_spaces :: "bytes \<Rightarrow> bytes" where
  "strip_spaces text = rev (dropWhile (\<lambda>c. c = 32) (rev text))"

definition fit :: "bytes \<Rightarrow> u32 \<Rightarrow> bytes" where
  "fit text columns = strip_spaces (take (unat columns) text)"

definition compose_columns :: "bytes \<Rightarrow> bytes \<Rightarrow> u32 \<Rightarrow> u32 \<Rightarrow> bytes" where
  "compose_columns left right left_width total_width =
     (let left = fit left left_width;
          left = left @ replicate (unat left_width - length left) 32;
          left = left @ str ''  ''
      in if length left \<ge> unat total_width then fit left total_width
         else let remaining = total_width - of_nat (length left)
              in fit (left @ fit right remaining) total_width)"

definition pad_number :: "u32 \<Rightarrow> nat \<Rightarrow> bytes" where
  "pad_number value width =
     (let text = decimal (uint value) in replicate (width - length text) 32 @ text)"

definition coordinate :: "u32 \<Rightarrow> u32 \<Rightarrow> bytes" where
  "coordinate x y = str ''('' @ decimal (uint x) @ str '','' @ decimal (uint y) @ str '')''"

section \<open>Names\<close>

definition terrain_name :: "u32 \<Rightarrow> bytes" where
  "terrain_name terrain =
     (if terrain = FD_TERRAIN_WATER then str ''water''
      else if terrain = FD_TERRAIN_GRASSLAND then str ''grassland''
      else if terrain = FD_TERRAIN_FOREST then str ''forest''
      else if terrain = FD_TERRAIN_HILLS then str ''hills''
      else if terrain = FD_TERRAIN_WETLANDS then str ''wetlands''
      else if terrain = FD_TERRAIN_SETTLEMENT then str ''settlement''
      else str ''INVALID('' @ decimal (uint terrain) @ str '')'')"

definition add_name :: "bytes \<Rightarrow> bytes \<Rightarrow> bytes" where
  "add_name name result = (if result \<noteq> [] then result @ str '','' else result) @ name"

definition overlay_names :: "u32 \<Rightarrow> bytes" where
  "overlay_names overlays =
     (let result = [];
          result = (if overlays AND FD_TILE_OVERLAY_RIVER \<noteq> 0 then add_name (str ''river'') result else result);
          result = (if overlays AND FD_TILE_OVERLAY_ROAD_CANDIDATE \<noteq> 0
                    then add_name (str ''road-candidate'') result else result);
          result = (if overlays AND FD_TILE_RIVER_OUTLET \<noteq> 0 then add_name (str ''outlet'') result else result);
          result = (if overlays AND FD_TILE_ROAD_CROSSING \<noteq> 0 then add_name (str ''crossing'') result else result)
      in if result = [] then str ''none'' else result)"

definition find_entity :: "fd_entity_view list \<Rightarrow> fd_entity_id \<Rightarrow> fd_entity_view option" where
  "find_entity entities i = find (\<lambda>entity. ev_id entity = i) entities"

definition identity :: "fd_entity_view list \<Rightarrow> fd_entity_id \<Rightarrow> bytes" where
  "identity entities i =
     (if i = 0 then str ''none''
      else case find_entity entities i of
        None \<Rightarrow> str ''INVALID-ID #'' @ decimal (uint i)
      | Some entity \<Rightarrow> entity_name entity @ str '' #'' @ decimal (uint i))"

definition find_tile :: "fd_tile_view list \<Rightarrow> u64 \<Rightarrow> fd_tile_view option" where
  "find_tile tiles i = find (\<lambda>tile. tv_tile_id tile = i) tiles"

definition date_text :: "u64 \<Rightarrow> bytes" where
  "date_text tick =
     (let year = tick div 8640 + 1; day = tick mod 8640 div 24 + 1
      in str ''Day '' @ decimal (uint day) @ str '', Year '' @ decimal (uint year))"

definition local_status :: "fd_world_info \<Rightarrow> bytes" where
  "local_status info =
     str ''Tick '' @ decimal (uint (wi_tick info)) @ str '' | '' @ date_text (wi_tick info) @
     str '' | PAUSED | Terminal: N/A-U01''"

section \<open>Options and frames\<close>

datatype screen_mode = Local | Strategic

record render_options =
  ro_columns :: u32
  ro_rows :: u32
  ro_viewport_x :: u32
  ro_viewport_y :: u32
  ro_selected_x :: u32
  ro_selected_y :: u32
  ro_mode :: screen_mode
  ro_message :: bytes

definition default_render_options :: render_options where
  "default_render_options =
     \<lparr>ro_columns = 80, ro_rows = 24, ro_viewport_x = 0, ro_viewport_y = 0, ro_selected_x = 0,
      ro_selected_y = 0, ro_mode = Local,
      ro_message = str ''Ready. Simulation is paused; no action submitted.''\<rparr>"

definition footer_message :: "render_options \<Rightarrow> bytes" where
  "footer_message options = str ''Message: '' @ ascii_text (ro_message options)"

definition local_help :: bytes where
  "local_help = str ''Keys: ? help q quit arrows/hjkl move Tab pane Enter inspect m map pass''"

definition strategic_help :: bytes where
  "strategic_help = str ''Keys: ? help q quit m local-map Tab pane messages replay pass''"

definition pad_before_footer :: "bytes list \<Rightarrow> u32 \<Rightarrow> nat \<Rightarrow> bytes list" where
  "pad_before_footer lines rows footer_lines =
     lines @ replicate (unat rows - (length lines + footer_lines)) []"

definition finalize :: "bytes list \<Rightarrow> u32 \<Rightarrow> u32 \<Rightarrow> bytes" where
  "finalize lines columns rows =
     (let lines = take (unat rows) lines;
          lines = lines @ replicate (unat rows - length lines) []
      in concat (map (\<lambda>line. fit (ascii_text line) columns @ [10]) lines))"

definition render_size_notice :: "render_options \<Rightarrow> bytes cpp_result" where
  "render_size_notice options =
     Inr (finalize
       [str ''FRONTIER DIRECTORATE | TERMINAL SIZE NOTICE | ADMIN/OMNISCIENT REFERENCE'',
        str ''Minimum supported terminal: 80x24'',
        str ''Requested terminal: '' @ decimal (uint (ro_columns options)) @ str ''x'' @
          decimal (uint (ro_rows options)),
        str ''Simulation state was not mutated or discarded.'',
        str ''Resize and render again. Keys: ?=help q=quit'']
       (ro_columns options) (ro_rows options))"

section \<open>What every frame looks like\<close>

text \<open>
  A frame of a terminal: \<open>rows\<close> lines, each ended by a line feed, of at most \<open>columns\<close> printable ASCII
  characters and without trailing spaces.
\<close>

definition is_frame :: "u32 \<Rightarrow> u32 \<Rightarrow> bytes \<Rightarrow> bool" where
  "is_frame columns rows text \<longleftrightarrow> (\<exists>lines. length lines = unat rows \<and>
     (\<forall>line\<in>set lines. length line \<le> unat columns \<and> (\<forall>c\<in>set line. printable c) \<and>
        (line \<noteq> [] \<longrightarrow> last line \<noteq> 32)) \<and>
     text = concat (map (\<lambda>line. line @ [10]) lines))"

lemma strip_spaces_props:
  "length (strip_spaces t) \<le> length t" "set (strip_spaces t) \<subseteq> set t"
  "strip_spaces t \<noteq> [] \<Longrightarrow> last (strip_spaces t) \<noteq> 32"
proof -
  show "length (strip_spaces t) \<le> length t"
    by (metis strip_spaces_def length_rev length_dropWhile_le)
  show "set (strip_spaces t) \<subseteq> set t"
    by (auto simp: strip_spaces_def dest: set_dropWhileD)
  assume "strip_spaces t \<noteq> []"
  then show "last (strip_spaces t) \<noteq> 32"
    using hd_dropWhile [of "\<lambda>c. c = 32" "rev t"] by (simp add: strip_spaces_def last_rev)
qed

lemma fit_props:
  "length (fit t n) \<le> unat n" "set (fit t n) \<subseteq> set t" "fit t n \<noteq> [] \<Longrightarrow> last (fit t n) \<noteq> 32"
  using strip_spaces_props [of "take (unat n) t"]
  by (auto simp: fit_def intro: order_trans dest: in_set_takeD)

lemma ascii_text_printable: "c \<in> set (ascii_text t) \<Longrightarrow> printable c"
  by (auto simp: ascii_text_def printable_def)

lemma finalize_is_frame: "is_frame columns rows (finalize lines columns rows)"
proof -
  define ls where "ls = take (unat rows) lines @ replicate (unat rows - length (take (unat rows) lines)) []"
  have "length ls = unat rows" by (simp add: ls_def)
  then show ?thesis
    using fit_props ascii_text_printable
    unfolding is_frame_def finalize_def Let_def ls_def [symmetric]
    by (intro exI [of _ "map (\<lambda>line. fit (ascii_text line) columns) ls"]) (fastforce simp: comp_def)
qed

text \<open>Its size: at most \<open>rows\<close> full lines.\<close>

lemma is_frame_length: "is_frame columns rows t \<Longrightarrow> length t \<le> unat rows * (unat columns + 1)"
proof -
  assume "is_frame columns rows t"
  then obtain lines where l: "length lines = unat rows" "\<forall>line\<in>set lines. length line \<le> unat columns"
    and t: "t = concat (map (\<lambda>line. line @ [10]) lines)" by (auto simp: is_frame_def)
  have "sum_list (map (\<lambda>line. length line + 1) lines) \<le> length lines * (unat columns + 1)"
    using l(2) by (induction lines) auto
  then show ?thesis using l(1) by (simp add: t length_concat comp_def)
qed

text \<open>Numbers of the widths in use fit the buffer of \<open>decimal\<close>, so the fallback never shows.\<close>

lemma digits_length: "n < 10 ^ k \<Longrightarrow> 0 < k \<Longrightarrow> length (digits n) \<le> k"
proof (induction n arbitrary: k rule: digits.induct)
  case (1 n)
  show ?case
  proof (cases "n < 10")
    case False
    then obtain j where k: "k = Suc j" "0 < j" using "1.prems" by (cases k; cases "k - 1") auto
    then have "n div 10 < 10 ^ j" using "1.prems"(1) by (simp add: less_mult_imp_div_less mult.commute)
    then have "length (digits (n div 10)) \<le> j" using "1.IH" False k(2) by blast
    then show ?thesis using False k(1) by (subst digits.simps) simp
  qed (use "1.prems" in \<open>subst digits.simps, simp\<close>)
qed

lemma decimal_u64: "decimal (uint (v :: u64)) = digits (unat v)"
proof -
  have "length (digits (unat v)) \<le> 20" using unat_lt_u64 [of v] by (intro digits_length) auto
  then show ?thesis by (simp add: decimal_def Let_def unat_eq_nat_uint [symmetric] flip: unat_eq_nat_uint)
qed

end
