(* ===== verification/FD_Screen.thy ===== *)
theory FD_Screen
  imports FD_Text
begin

text \<open>
  The screens of a snapshot, from \<^verbatim>\<open>src/terminal/ascii_renderer.cpp\<close>: the local tile map, the strategic
  region graph, the state-hash screen, and the C entry points \<^verbatim>\<open>fd_ascii_measure\<close> and
  \<^verbatim>\<open>fd_ascii_render\<close> over them.
\<close>

unbundle bit_operations_syntax

section \<open>Capturing a snapshot\<close>

definition capture_entities :: "snapshot_wrapper \<Rightarrow> fd_world_info \<Rightarrow> fd_entity_view list cpp_result" where
  "capture_entities snapshot info =
     collect (\<lambda>index. snapshot_entity_by_index snapshot (of_nat index)) [0..<unat (wi_entity_count info)]"

text \<open>The address-space check compares a product of two 32-bit numbers with \<^verbatim>\<open>SIZE_MAX\<close>.\<close>

definition capture_tiles :: "snapshot_wrapper \<Rightarrow> fd_world_info \<Rightarrow> fd_tile_view list cpp_result" where
  "capture_tiles snapshot info =
     (let n = (ucast (wi_width info) * ucast (wi_height info) :: u64)
      in if n > - 1
         then Inl (wrapper_error FD_ERR_CAPACITY (str ''tile snapshot does not fit address space''))
         else collect (\<lambda>(x, y). snapshot_tile snapshot (of_nat x) (of_nat y))
           (concat (map (\<lambda>y. map (\<lambda>x. (x, y)) [0..<unat (wi_width info)]) [0..<unat (wi_height info)])))"

definition unselected_glyph :: "fd_tile_view \<Rightarrow> fd_world_info \<Rightarrow> u8 cpp_result" where
  "unselected_glyph tile info =
     (if tv_settlement_id tile = wi_coastal_settlement_id info then Inr (of_char CHR ''c'')
      else if tv_settlement_id tile = wi_inland_settlement_id info then Inr (of_char CHR ''n'')
      else if tv_overlays tile AND FD_TILE_OVERLAY_ROAD_CANDIDATE \<noteq> 0 then Inr (of_char CHR '':'')
      else if tv_overlays tile AND FD_TILE_OVERLAY_RIVER \<noteq> 0 then Inr (of_char CHR ''r'')
      else if tv_terrain tile = FD_TERRAIN_WATER then Inr (of_char CHR ''~'')
      else if tv_terrain tile = FD_TERRAIN_GRASSLAND then Inr (of_char CHR ''.'')
      else if tv_terrain tile = FD_TERRAIN_FOREST then Inr (of_char CHR ''f'')
      else if tv_terrain tile = FD_TERRAIN_HILLS then Inr (of_char CHR ''^'')
      else if tv_terrain tile = FD_TERRAIN_WETLANDS then Inr (of_char CHR ''v'')
      else if tv_terrain tile = FD_TERRAIN_SETTLEMENT
      then Inl (wrapper_error FD_ERR_STATE (str ''settlement terrain had no known settlement identity''))
      else Inl (wrapper_error FD_ERR_STATE (str ''unknown terrain wire value'')))"

section \<open>The local map\<close>

text \<open>The part of the map that is shown: selection, size and origin of the view.\<close>

record map_window =
  mw_selected_x :: u32
  mw_selected_y :: u32
  mw_width :: u32
  mw_height :: u32
  mw_origin_x :: u32
  mw_origin_y :: u32

definition local_window :: "render_options \<Rightarrow> fd_world_info \<Rightarrow> map_window" where
  "local_window options info =
     (let selected_x = min (ro_selected_x options) (wi_width info - 1);
          selected_y = min (ro_selected_y options) (wi_height info - 1);
          available_map = ro_columns options - 24 - 2 - 4 - 2;
          view_width = min available_map (wi_width info);
          maximum_map_rows = ro_rows options - 9;
          view_height = min maximum_map_rows (wi_height info)
      in \<lparr>mw_selected_x = selected_x, mw_selected_y = selected_y, mw_width = view_width,
          mw_height = view_height, mw_origin_x = min (ro_viewport_x options) (wi_width info - view_width),
          mw_origin_y = min (ro_viewport_y options) (wi_height info - view_height)\<rparr>)"

definition inspector_lines ::
    "fd_world_info \<Rightarrow> fd_entity_view list \<Rightarrow> fd_tile_view \<Rightarrow> u8 \<Rightarrow> u32 \<Rightarrow> u32 \<Rightarrow> bytes list" where
  "inspector_lines info entities selected glyph x y =
     [str ''Scope: REFERENCE snapshot'',
      str ''Selected: '' @ coordinate x y,
      str ''Glyph: @ over '' @ [glyph],
      str ''Terrain: '' @ terrain_name (tv_terrain selected),
      str ''Elev/rain: '' @ decimal (sint (tv_elevation_cm selected)) @ str ''cm / '' @
        decimal (uint (tv_rainfall_mm selected)) @ str ''mm'',
      str ''Overlays: '' @ overlay_names (tv_overlays selected),
      str ''Settlement: '' @ identity entities (tv_settlement_id selected),
      str ''Region: '' @ identity entities (tv_region_id selected),
      str ''Tile owner: '' @ identity entities (tv_polity_owner_id selected),
      str ''Local polity: '' @ identity entities (wi_local_polity_id info),
      str ''Foreign A: '' @ identity entities (wi_foreign_faction_ids info ! 0),
      str ''Foreign B: '' @ identity entities (wi_foreign_faction_ids info ! 1),
      str ''Manifest: '' @ hex_prefix (wi_content_sha256 info) 4,
      str ''State: '' @ hex_prefix (wi_state_sha256 info) 4,
      str ''Seed: '' @ seed_short info]"

definition map_glyph :: "snapshot_wrapper \<Rightarrow> fd_world_info \<Rightarrow> map_window \<Rightarrow> u32 \<Rightarrow> u32 \<Rightarrow> u8 cpp_result" where
  "map_glyph snapshot info w x y =
     on_success (snapshot_tile snapshot x y) (\<lambda>tile.
       if x \<noteq> mw_selected_x w \<or> y \<noteq> mw_selected_y w then unselected_glyph tile info
       else Inr (of_char CHR ''@''))"

definition nth_line :: "bytes list \<Rightarrow> nat \<Rightarrow> bytes" where
  "nth_line lines index = (if index < length lines then lines ! index else [])"

definition map_line ::
    "snapshot_wrapper \<Rightarrow> fd_world_info \<Rightarrow> map_window \<Rightarrow> bytes list \<Rightarrow> u32 \<Rightarrow> u32 \<Rightarrow> nat \<Rightarrow> bytes cpp_result" where
  "map_line snapshot info w inspector left_width columns row =
     (let y = mw_origin_y w + of_nat row
      in on_success (collect (\<lambda>column. map_glyph snapshot info w (mw_origin_x w + of_nat column) y)
             [0..<unat (mw_width w)])
           (\<lambda>glyphs. Inr (compose_columns (pad_number y 3 @ str '' |'' @ glyphs @ str ''|'')
              (nth_line inspector (row + 1)) left_width columns)))"

definition render_local ::
    "snapshot_wrapper \<Rightarrow> render_options \<Rightarrow> fd_world_info \<Rightarrow> fd_entity_view list \<Rightarrow> bytes cpp_result" where
  "render_local snapshot options info entities =
     (if wi_width info = 0 \<or> wi_height info = 0
      then Inl (wrapper_error FD_ERR_STATE (str ''world dimensions are zero''))
      else
        let w = local_window options info;
            left_width = 4 + 1 + mw_width w + 1
        in on_success (snapshot_tile snapshot (mw_selected_x w) (mw_selected_y w)) (\<lambda>selected.
           on_success (unselected_glyph selected info) (\<lambda>selected_glyph.
           let inspector = inspector_lines info entities selected selected_glyph (mw_selected_x w) (mw_selected_y w);
               x_axis = replicate 5 32 @
                 map (\<lambda>offset. 48 + ucast ((mw_origin_x w + of_nat offset) mod 10)) [0..<unat (mw_width w)];
               border = replicate 4 32 @ str ''+'' @ replicate (unat (mw_width w)) (of_char CHR ''-'') @ str ''+'';
               top =
                 [str ''FRONTIER DIRECTORATE | LOCAL TILE MAP | ADMIN/OMNISCIENT REFERENCE'',
                  fit (local_status info) (ro_columns options),
                  compose_columns x_axis (str ''INSPECTOR | immutable C snapshot'') left_width (ro_columns options),
                  compose_columns border (inspector ! 0) left_width (ro_columns options)]
           in on_success (collect (map_line snapshot info w inspector left_width (ro_columns options))
                [0..<unat (mw_height w)]) (\<lambda>rows.
              let bottom = compose_columns border (nth_line inspector (unat (mw_height w + 1)))
                    left_width (ro_columns options);
                  lines = pad_before_footer (top @ rows @ [bottom]) (ro_rows options) 4 @
                    [str ''Legend: ~=water .=grass f=forest ^=hills v=wetland r=river'',
                     str ''Legend: :=road-candidate c=coastal n=inland @=selected/inspect'',
                     footer_message options, local_help]
              in Inr (finalize lines (ro_columns options) (ro_rows options))))))"

section \<open>The strategic graph\<close>

definition node_line :: "u32 \<Rightarrow> bytes \<Rightarrow> bytes" where
  "node_line columns body =
     (if columns \<le> 4 then fit body columns
      else let body = fit body (columns - 4)
           in str ''| '' @ body @ replicate (unat (columns - 4) - length body) 32 @ str '' |'')"

definition settlement_line :: "u32 \<Rightarrow> fd_entity_view list \<Rightarrow> fd_region_view \<Rightarrow> nat \<Rightarrow> bytes cpp_result" where
  "settlement_line columns entities region index =
     (case find_entity entities (rv_settlement_ids region ! index) of
        None \<Rightarrow> Inl (wrapper_error FD_ERR_STATE (str ''region settlement identity was not queryable''))
      | Some settlement \<Rightarrow>
          let marker = (if ev_kind settlement = FD_ENTITY_SETTLEMENT_COASTAL then str ''[C] '' else str ''[I] '')
          in Inr (node_line columns (str ''    member -> '' @ marker @ identity entities (ev_id settlement) @
               str '' @'' @ coordinate (ev_x settlement) (ev_y settlement))))"

definition render_strategic ::
    "snapshot_wrapper \<Rightarrow> render_options \<Rightarrow> fd_world_info \<Rightarrow> fd_entity_view list \<Rightarrow> bytes cpp_result" where
  "render_strategic snapshot options info entities =
     on_success (snapshot_region snapshot) (\<lambda>region.
     on_success (capture_tiles snapshot info) (\<lambda>tiles.
       case (find_tile tiles (rv_river_outlet_tile_id region), find_tile tiles (rv_road_start_tile_id region),
             find_tile tiles (rv_road_end_tile_id region)) of
         (Some outlet, Some road_start, Some road_end) \<Rightarrow>
           let node = node_line (ro_columns options);
               border = str ''+'' @ replicate (unat (ro_columns options - 2)) (of_char CHR ''-'') @ str ''+''
           in on_success (collect (settlement_line (ro_columns options) entities region)
                [0..<min (unat (rv_settlement_count region)) 2]) (\<lambda>settlements.
              let lines =
                    [str ''FRONTIER DIRECTORATE | STRATEGIC REGION GRAPH | ADMIN/OMNISCIENT REFERENCE'',
                     str ''Scale: REGION | Tick '' @ decimal (uint (wi_tick info)) @ str '' | '' @
                       date_text (wi_tick info) @ str '' | PAUSED | Terminal: N/A-U01'',
                     border,
                     node (str ''[R] '' @ identity entities (rv_id region)),
                     node (str ''    owner -> [P] '' @ identity entities (rv_political_owner_id region))] @
                    settlements @
                    [node (str ''    river ~> outlet tile #'' @ decimal (uint (rv_river_outlet_tile_id region)) @
                       str '' @'' @ coordinate (tv_x outlet) (tv_y outlet) @ str '' ('' @
                       decimal (uint (rv_river_tile_count region)) @ str '' tiles)''),
                     node (str ''    road  [C] :: [I] candidate '' @
                       coordinate (tv_x road_start) (tv_y road_start) @ str '' -> '' @
                       coordinate (tv_x road_end) (tv_y road_end) @ str '' ('' @
                       decimal (uint (rv_road_tile_count region)) @ str '' tiles)'')] @
                    map (\<lambda>index. node (str ''    presence -> [F] '' @
                        identity entities (rv_foreign_faction_ids region ! index)))
                      [0..<min (unat (rv_foreign_presence_count region)) 2] @
                    [node (str ''    manifest '' @ hex_prefix (wi_content_sha256 info) 4 @ str '' | state '' @
                       hex_prefix (wi_state_sha256 info) 4),
                     border];
                  lines = pad_before_footer lines (ro_rows options) 4 @
                    [str ''Legend: [R]=region [P]=polity [C]=coastal [I]=inland [F]=foreign'',
                     str ''Legend: ->=relation ~>=river outlet ::=road candidate @x,y=coordinates'',
                     footer_message options, strategic_help]
              in Inr (finalize lines (ro_columns options) (ro_rows options)))
       | _ \<Rightarrow> Inl (wrapper_error FD_ERR_STATE
                 (str ''strategic physical reference did not resolve to a public tile''))))"

section \<open>Screens\<close>

text \<open>The size checks every screen starts with.\<close>

definition sized_screen :: "render_options \<Rightarrow> bytes cpp_result \<Rightarrow> bytes cpp_result" where
  "sized_screen options screen =
     (if ro_columns options = 0 \<or> ro_rows options = 0
      then Inl (wrapper_error FD_ERR_OUT_OF_RANGE (str ''terminal columns and rows must be nonzero''))
      else if ro_columns options > 512 \<or> ro_rows options > 256
      then Inl (wrapper_error FD_ERR_CAPACITY (str ''terminal dimensions exceed renderer bounds''))
      else if ro_columns options < 80 \<or> ro_rows options < 24 then render_size_notice options
      else screen)"

definition render_ascii :: "snapshot_wrapper \<Rightarrow> render_options \<Rightarrow> bytes cpp_result" where
  "render_ascii snapshot options = sized_screen options
     (if \<not> snapshot_valid snapshot
      then Inl (wrapper_error FD_ERR_STATE (str ''snapshot is empty or moved-from''))
      else on_success (snapshot_info snapshot) (\<lambda>info.
           on_success (capture_entities snapshot info) (\<lambda>entities.
             if ro_mode options = Local then render_local snapshot options info entities
             else render_strategic snapshot options info entities)))"

definition render_debug_hash_ascii :: "snapshot_wrapper \<Rightarrow> render_options \<Rightarrow> bytes cpp_result" where
  "render_debug_hash_ascii snapshot options = sized_screen options
     (on_success (snapshot_info snapshot) (\<lambda>info.
        let lines =
              [str ''FRONTIER DIRECTORATE | DEBUG STATE HASH | ADMIN/OMNISCIENT REFERENCE'',
               local_status info,
               str ''+-- IMMUTABLE CANONICAL IDENTITY -------------------------------------------+'',
               str ''State SHA-256 [00..15]: '' @ hex_prefix (wi_state_sha256 info) 16,
               str ''State SHA-256 [16..31]: '' @ hex_prefix (drop 16 (wi_state_sha256 info)) 16,
               str ''Config SHA-256[00..15]: '' @ hex_prefix (wi_configuration_sha256 info) 16,
               str ''Config SHA-256[16..31]: '' @ hex_prefix (drop 16 (wi_configuration_sha256 info)) 16,
               str ''Content manifest short: '' @ hex_prefix (wi_content_sha256 info) 8,
               str ''Root seed: '' @ seed_hex info,
               str ''Versions: generator='' @ decimal (uint (wi_generator_version info)) @ str '' ruleset='' @
                 decimal (uint (wi_ruleset_version info)) @ str '' rng-registry='' @
                 decimal (uint (wi_rng_registry_version info)),
               str ''World: '' @ decimal (uint (wi_width info)) @ str ''x'' @ decimal (uint (wi_height info)) @
                 str '' tiles; entities='' @ decimal (uint (wi_entity_count info)) @ str ''; region='' @
                 decimal (uint (wi_region_id info)),
               str ''+----------------------------------------------------------------------------+''];
            lines = pad_before_footer lines (ro_rows options) 3 @
              [str ''Columns: all hashes/versions are copied from the immutable C snapshot'',
               footer_message options, str ''Keys: ? help q quit m map local strategic pass'']
        in Inr (finalize lines (ro_columns options) (ro_rows options))))"

section \<open>The C entry points\<close>

abbreviation (input) FD_FIELD_ASCII_SCREEN :: u32 where "FD_FIELD_ASCII_SCREEN \<equiv> 18"

record fd_ascii_options =
  ao_struct_size :: u32
  ao_abi_version :: u32
  ao_columns :: u32
  ao_rows :: u32
  ao_screen :: u32
  ao_viewport_x :: u32
  ao_viewport_y :: u32
  ao_selected_x :: u32
  ao_selected_y :: u32
  ao_message_length :: u32
  ao_message :: bytes
  ao_reserved :: "u32 list"

definition fd_ascii_options_init :: "fd_ascii_options option \<Rightarrow> fd_result \<times> fd_ascii_options option" where
  "fd_ascii_options_init output =
     (if output = None then (FD_ERR_INVALID_ARGUMENT, None)
      else (FD_OK, Some
        \<lparr>ao_struct_size = 168, ao_abi_version = FD_ABI_VERSION, ao_columns = 80, ao_rows = 24, ao_screen = 1,
         ao_viewport_x = 0, ao_viewport_y = 0, ao_selected_x = 0, ao_selected_y = 0, ao_message_length = 49,
         ao_message = str ''Ready. Simulation is paused; no action submitted.'' @ replicate 47 0,
         ao_reserved = replicate 8 0\<rparr>))"

text \<open>Like \<open>fd_diag_set\<close>, but a null message is an empty one and the length is bounded in another way.\<close>

definition ascii_diagnostic :: "diag \<Rightarrow> fd_result \<Rightarrow> u32 \<Rightarrow> u32 \<Rightarrow> bytes \<Rightarrow> fd_result \<times> diag" where
  "ascii_diagnostic diagnostic code field item message =
     (code,
      case diagnostic of
        None \<Rightarrow> None
      | Some d \<Rightarrow>
          if dg_struct_size d \<ge> 180 \<and> dg_abi_version d = FD_ABI_VERSION
          then let length = min (strlen message) 159
               in Some (d\<lparr>dg_code := code, dg_field_id := field, dg_item_index := item,
                          dg_message := take length message @ replicate (160 - length) 0\<rparr>)
          else Some d)"

definition validate_ascii_options :: "fd_ascii_options option \<Rightarrow> diag \<Rightarrow> fd_result \<times> diag" where
  "validate_ascii_options options diagnostic =
     (case options of
        None \<Rightarrow> ascii_diagnostic diagnostic FD_ERR_INVALID_ARGUMENT FD_FIELD_NONE 0 (str ''ASCII options are null'')
      | Some opts \<Rightarrow>
          if ao_struct_size opts < 168 \<or> ao_abi_version opts \<noteq> FD_ABI_VERSION
          then ascii_diagnostic diagnostic FD_ERR_INVALID_SIZE FD_FIELD_STRUCT_SIZE 0
                 (str ''invalid ASCII options size or ABI'')
          else (case find (\<lambda>index. ao_reserved opts ! index \<noteq> 0) [0..<8] of
            Some index \<Rightarrow> ascii_diagnostic diagnostic FD_ERR_INVALID_ARGUMENT FD_FIELD_RESERVED (of_nat index)
                 (str ''ASCII option reserved fields must be zero'')
          | None \<Rightarrow>
              if ao_screen opts \<noteq> 1 \<and> ao_screen opts \<noteq> 2
              then ascii_diagnostic diagnostic FD_ERR_OUT_OF_RANGE FD_FIELD_ASCII_SCREEN 0
                     (str ''unknown ASCII screen mode'')
              else if ao_columns opts = 0 \<or> ao_columns opts > 512
              then ascii_diagnostic diagnostic
                     (if ao_columns opts = 0 then FD_ERR_OUT_OF_RANGE else FD_ERR_CAPACITY)
                     FD_FIELD_WIDTH 0 (str ''ASCII column count is outside renderer bounds'')
              else if ao_rows opts = 0 \<or> ao_rows opts > 256
              then ascii_diagnostic diagnostic
                     (if ao_rows opts = 0 then FD_ERR_OUT_OF_RANGE else FD_ERR_CAPACITY)
                     FD_FIELD_HEIGHT 0 (str ''ASCII row count is outside renderer bounds'')
              else if ao_message_length opts > 96
              then ascii_diagnostic diagnostic FD_ERR_OUT_OF_RANGE FD_FIELD_ASCII_MESSAGE 0
                     (str ''ASCII message length exceeds its bound'')
              else (FD_OK, diagnostic)))"

definition cpp_options :: "fd_ascii_options \<Rightarrow> render_options" where
  "cpp_options options =
     \<lparr>ro_columns = ao_columns options, ro_rows = ao_rows options, ro_viewport_x = ao_viewport_x options,
      ro_viewport_y = ao_viewport_y options, ro_selected_x = ao_selected_x options,
      ro_selected_y = ao_selected_y options,
      ro_mode = (if ao_screen options = 1 then Local else Strategic),
      ro_message = take (unat (ao_message_length options)) (ao_message options)\<rparr>"

definition render_for_c ::
    "fd_snapshot option \<Rightarrow> fd_ascii_options option \<Rightarrow> diag \<Rightarrow> (fd_result \<times> diag) \<times> bytes" where
  "render_for_c snapshot options diagnostic =
     (case snapshot of
        None \<Rightarrow> (ascii_diagnostic diagnostic FD_ERR_INVALID_ARGUMENT FD_FIELD_NONE 0
                  (str ''ASCII snapshot is null''), [])
      | Some _ \<Rightarrow>
          (case validate_ascii_options options diagnostic of
             (result, diagnostic) \<Rightarrow>
               if result \<noteq> FD_OK then ((result, diagnostic), [])
               else (case render_ascii (snapshot_borrow snapshot) (cpp_options (the options)) of
                       Inl error \<Rightarrow> (ascii_diagnostic diagnostic (er_code error) (er_field_id error)
                                      (er_item_index error) (er_message error), [])
                     | Inr drawn \<Rightarrow> ((FD_OK, diagnostic), drawn))))"

definition fd_ascii_measure ::
    "fd_snapshot option \<Rightarrow> fd_ascii_options option \<Rightarrow> u64 option \<Rightarrow> diag
       \<Rightarrow> (fd_result \<times> diag) \<times> u64 option" where
  "fd_ascii_measure snapshot options output_size diagnostic =
     (if output_size = None
      then (ascii_diagnostic diagnostic FD_ERR_INVALID_ARGUMENT FD_FIELD_NONE 0
              (str ''ASCII size output is null''), None)
      else case render_for_c snapshot options diagnostic of
        ((result, diagnostic), drawn) \<Rightarrow>
          if result \<noteq> FD_OK then ((result, diagnostic), Some 0)
          else (ascii_diagnostic diagnostic FD_OK FD_FIELD_NONE 0 (str ''ok''), Some (of_nat (length drawn))))"

definition fd_ascii_render ::
    "fd_snapshot option \<Rightarrow> fd_ascii_options option \<Rightarrow> bytes option \<Rightarrow> u64 \<Rightarrow> u64 option \<Rightarrow> diag
       \<Rightarrow> (fd_result \<times> diag) \<times> bytes option \<times> u64 option" where
  "fd_ascii_render snapshot options buffer capacity written diagnostic =
     (if written = None
      then (ascii_diagnostic diagnostic FD_ERR_INVALID_ARGUMENT FD_FIELD_NONE 0
              (str ''ASCII written output is null''), buffer, None)
      else case render_for_c snapshot options diagnostic of
        ((result, diagnostic), drawn) \<Rightarrow>
          if result \<noteq> FD_OK then ((result, diagnostic), buffer, Some 0)
          else
            let required = of_nat (length drawn)
            in if buffer = None \<and> required \<noteq> 0
               then (ascii_diagnostic diagnostic FD_ERR_INVALID_ARGUMENT FD_FIELD_NONE 0
                       (str ''ASCII output buffer is null''), buffer, Some 0)
               else if capacity < required
               then (ascii_diagnostic diagnostic FD_ERR_BUFFER_TOO_SMALL FD_FIELD_BUFFER_CAPACITY 0
                       (str ''ASCII output buffer is too small''), buffer, Some 0)
               else (ascii_diagnostic diagnostic FD_OK FD_FIELD_NONE 0 (str ''ok''),
                     (if required \<noteq> 0 then map_option (\<lambda>b. blit b 0 drawn) buffer else buffer),
                     Some required))"

end
