(* ===== verification/FD_Log.thy ===== *)
theory FD_Log
  imports FD_Screen
begin

text \<open>
  The screens of a replay, from \<^verbatim>\<open>src/terminal/ascii_renderer.cpp\<close>: the inspector of one attempt and the
  message log, which merges accepted records and rejected audits in the order of the attempts.
\<close>

unbundle bit_operations_syntax

section \<open>The replay inspector\<close>

text \<open>The search for the attempt among the audits; the audits passed on the way are counted.\<close>

primrec find_rejected ::
    "fd_replay option \<Rightarrow> u64 \<Rightarrow> nat list \<Rightarrow> u32 \<Rightarrow> (u32 \<times> fd_replay_audit_view option) cpp_result" where
  "find_rejected replay attempt_index [] rejected_before = Inr (rejected_before, None)"
| "find_rejected replay attempt_index (index # rest) rejected_before =
     on_success (replay_audit replay (of_nat index)) (\<lambda>audit.
       if aw_attempt_index audit = attempt_index then Inr (rejected_before, Some audit)
       else if aw_attempt_index audit > attempt_index then Inr (rejected_before, None)
       else find_rejected replay attempt_index rest (rejected_before + 1))"

definition seat_line :: "fd_joint_decision \<Rightarrow> nat \<Rightarrow> bytes \<Rightarrow> bytes" where
  "seat_line decision seat separator =
     (let s = jd_seats decision ! seat
      in str ''Seat '' @ decimal (int seat) @ str '' actor #'' @ decimal (uint (sd_actor_id s)) @
         str '' | category '' @ decimal (uint (ac_category (sd_action s))) @ separator @
         decimal (uint (ac_parameter_count (sd_action s))))"

definition rejected_lines :: "fd_replay_info \<Rightarrow> u64 \<Rightarrow> u64 \<Rightarrow> fd_replay_audit_view \<Rightarrow> bytes list" where
  "rejected_lines info total_attempts attempt_index rejected =
     (let message_length = min (aw_message_length rejected) 160;
          hash = jd_expected_pre_state_sha256 (aw_decision rejected)
      in [str ''FRONTIER DIRECTORATE | REPLAY INSPECTOR | REJECTED ACTION ATTEMPT'',
          str ''Attempt '' @ decimal (uint attempt_index) @ str '' of '' @ decimal (uint total_attempts) @
            str '' | accepted '' @ decimal (uint (ri_decision_count info)) @ str '' | rejected '' @
            decimal (uint (ri_audit_count info)) @ str '' | cursor '' @ decimal (uint (ri_cursor info)),
          str ''Tick: '' @ decimal (uint (aw_tick rejected)) @ str '' | result code '' @
            decimal (uint (aw_result rejected)),
          str ''Diagnostic: field='' @ decimal (uint (aw_field_id rejected)) @ str '' item='' @
            decimal (uint (aw_item_index rejected)),
          str ''Diagnostic text: '' @ ascii_text (take (unat message_length) (aw_message rejected)),
          str ''Expected tick: '' @ decimal (uint (jd_expected_tick (aw_decision rejected))),
          str ''Expected pre-state [00..15]: '' @ hex_prefix hash 16,
          str ''Expected pre-state [16..31]: '' @ hex_prefix (drop 16 hash) 16,
          seat_line (aw_decision rejected) 0 (str '' | parameters=''),
          seat_line (aw_decision rejected) 1 (str '' | parameters='')])"

definition accepted_lines :: "fd_replay_info \<Rightarrow> u64 \<Rightarrow> u64 \<Rightarrow> fd_replay_record_view \<Rightarrow> bytes list" where
  "accepted_lines info total_attempts attempt_index record =
     [str ''FRONTIER DIRECTORATE | REPLAY INSPECTOR | VERIFIED ACCEPTED DECISION'',
      str ''Attempt '' @ decimal (uint attempt_index) @ str '' of '' @ decimal (uint total_attempts) @
        str '' | accepted record '' @ decimal (uint (rw_decision_index record)) @ str '' | replay cursor '' @
        decimal (uint (ri_cursor info)),
      str ''Tick: '' @ decimal (uint (rw_tick_before record)) @ str '' -> '' @
        decimal (uint (rw_tick_after record)) @ str '' | expected '' @
        decimal (uint (jd_expected_tick (rw_decision record))),
      seat_line (rw_decision record) 0 (str '' (PASS=1) | parameters=''),
      seat_line (rw_decision record) 1 (str '' (PASS=1) | parameters=''),
      str ''RNG domain trace entries: '' @ decimal (uint (rw_rng_domain_count record)),
      str ''Pre-state [00..15]:  '' @ hex_prefix (rw_pre_state_sha256 record) 16,
      str ''Pre-state [16..31]:  '' @ hex_prefix (drop 16 (rw_pre_state_sha256 record)) 16,
      str ''Post-state [00..15]: '' @ hex_prefix (rw_post_state_sha256 record) 16,
      str ''Post-state [16..31]: '' @ hex_prefix (drop 16 (rw_post_state_sha256 record)) 16,
      str ''Event hash [00..15]: '' @ hex_prefix (rw_event_sha256 record) 16,
      str ''Event hash [16..31]: '' @ hex_prefix (drop 16 (rw_event_sha256 record)) 16]"

definition total_attempts :: "fd_replay_info \<Rightarrow> u64" where
  "total_attempts info = ri_decision_count info + ucast (ri_audit_count info)"

definition empty_audit_frame :: "render_options \<Rightarrow> fd_replay_info \<Rightarrow> bytes" where
  "empty_audit_frame options info =
     finalize
       (pad_before_footer
          [str ''FRONTIER DIRECTORATE | REPLAY INSPECTOR | EMPTY ACTION AUDIT'',
           str ''Accepted: 0 | Rejected: 0 | replay cursor '' @ decimal (uint (ri_cursor info)),
           str ''No action attempts are recorded in this replay.'',
           str ''Tick-zero state [00..15]: '' @ hex_prefix (ri_tick_zero_state_sha256 info) 16,
           str ''Tick-zero state [16..31]: '' @ hex_prefix (drop 16 (ri_tick_zero_state_sha256 info)) 16]
          (ro_rows options) 3 @
        [str ''Columns: empty state is authoritative public C replay metadata'', footer_message options,
         str ''Keys: ? help q quit messages local strategic pass''])
       (ro_columns options) (ro_rows options)"

definition render_replay_inspector_ascii :: "fd_replay option \<Rightarrow> u64 \<Rightarrow> render_options \<Rightarrow> bytes cpp_result" where
  "render_replay_inspector_ascii replay attempt_index options = sized_screen options
     (on_success (replay_info replay) (\<lambda>info.
        let total = total_attempts info
        in if total = 0
           then if attempt_index \<noteq> 0
                then Inl (wrapper_error FD_ERR_OUT_OF_RANGE (str ''replay attempt index is outside the audit''))
                else Inr (empty_audit_frame options info)
           else if attempt_index \<ge> total
           then Inl (wrapper_error FD_ERR_OUT_OF_RANGE (str ''replay attempt index is outside the audit''))
           else
             let footer = [str ''Columns: actions/hashes/diagnostics are immutable public C replay values'',
                   footer_message options, str ''Keys: ? help q quit PgUp/PgDn attempt messages local''];
                 drawn = (\<lambda>lines. finalize (pad_before_footer lines (ro_rows options) 3 @ footer)
                   (ro_columns options) (ro_rows options))
             in on_success (find_rejected replay attempt_index [0..<unat (ri_audit_count info)] 0)
                  (\<lambda>(rejected_before, rejected).
                  case rejected of
                    Some audit \<Rightarrow> Inr (drawn (rejected_lines info total attempt_index audit))
                  | None \<Rightarrow>
                      on_success (replay_record replay (attempt_index - ucast rejected_before)) (\<lambda>record.
                        Inr (drawn (accepted_lines info total attempt_index record))))))"

section \<open>The message log\<close>

text \<open>The audit at an index, or none when the index is past the last one.\<close>

definition fetch_audit :: "fd_replay option \<Rightarrow> nat \<Rightarrow> nat \<Rightarrow> fd_replay_audit_view option cpp_result" where
  "fetch_audit replay audit_count audit_index =
     (if audit_index < audit_count
      then on_success (replay_audit replay (of_nat audit_index)) (\<lambda>audit. Inr (Some audit))
      else Inr None)"

lemma on_success_cong [fundef_cong]:
  "r = s \<Longrightarrow> (\<And>v. s = Inr v \<Longrightarrow> f v = g v) \<Longrightarrow> on_success r f = on_success s g"
  by (cases s) simp_all

lemma fetch_audit_Some: "fetch_audit replay n i = Inr (Some a) \<Longrightarrow> i < n"
  by (simp add: fetch_audit_def split: if_splits)

text \<open>The audits before the first attempt on display are passed over.\<close>

function skip_audits ::
    "fd_replay option \<Rightarrow> nat \<Rightarrow> u64 \<Rightarrow> nat \<Rightarrow> fd_replay_audit_view option
       \<Rightarrow> (nat \<times> fd_replay_audit_view option) cpp_result" where
  "skip_audits replay audit_count first_record audit_index current =
     (case current of
        None \<Rightarrow> Inr (audit_index, None)
      | Some audit \<Rightarrow>
          if aw_attempt_index audit < first_record
          then on_success (fetch_audit replay audit_count (audit_index + 1)) (\<lambda>current.
                 skip_audits replay audit_count first_record (audit_index + 1) current)
          else Inr (audit_index, Some audit))"
  by pat_completeness auto
termination
proof (relation "measure (\<lambda>(replay, n, first, i, current). if current = None then 0 else Suc (n - i))", goal_cases)
  case (2 replay n first i current audit c)
  then show ?case using fetch_audit_Some [of replay n "i + 1"] by (cases c) auto
qed simp

declare skip_audits.simps [simp del]

fun contains :: "bytes \<Rightarrow> bytes \<Rightarrow> bool" where
  "contains pat [] \<longleftrightarrow> pat = []"
| "contains pat (c # text) \<longleftrightarrow> take (length pat) (c # text) = pat \<or> contains pat text"

definition action_text :: "u32 \<Rightarrow> bytes" where
  "action_text category =
     (if category = FD_ACTION_PASS then str ''PASS'' else str ''category-'' @ decimal (uint category))"

definition reject_line :: "u64 \<Rightarrow> fd_replay_audit_view \<Rightarrow> bytes" where
  "reject_line attempt_index audit =
     str ''#'' @ decimal (uint attempt_index) @ str '' | tick '' @ decimal (uint (aw_tick audit)) @
     str '' | REJECT code='' @ decimal (uint (aw_result audit)) @ str '' field='' @
     decimal (uint (aw_field_id audit)) @ str '' item='' @ decimal (uint (aw_item_index audit)) @ str '' | '' @
     ascii_text (take (unat (min (aw_message_length audit) 160)) (aw_message audit))"

definition accept_line :: "u64 \<Rightarrow> fd_replay_record_view \<Rightarrow> bytes" where
  "accept_line attempt_index record =
     str ''#'' @ decimal (uint attempt_index) @ str '' | '' @ decimal (uint (rw_tick_before record)) @ str ''->'' @
     decimal (uint (rw_tick_after record)) @ str '' | '' @
     action_text (ac_category (sd_action (jd_seats (rw_decision record) ! 0))) @ str '' | '' @
     action_text (ac_category (sd_action (jd_seats (rw_decision record) ! 1))) @ str '' | '' @
     hex_prefix (rw_post_state_sha256 record) 6"

record log_state =
  lg_accepted_index :: u64
  lg_audit_index :: nat
  lg_current :: "fd_replay_audit_view option"
  lg_lines :: "bytes list"

text \<open>One attempt of the merge loop, and the loop, which ends when the screen is full.\<close>

definition log_attempt :: "fd_replay option \<Rightarrow> nat \<Rightarrow> bytes \<Rightarrow> u64 \<Rightarrow> log_state \<Rightarrow> log_state cpp_result" where
  "log_attempt replay audit_count wanted attempt_index s =
     (let show_line = (\<lambda>line s.
            if wanted = [] \<or> contains wanted line then s\<lparr>lg_lines := lg_lines s @ [line]\<rparr> else s)
      in case lg_current s of
        Some audit \<Rightarrow>
          if aw_attempt_index audit = attempt_index
          then on_success (fetch_audit replay audit_count (lg_audit_index s + 1)) (\<lambda>current.
                 Inr (show_line (reject_line attempt_index audit)
                   (s\<lparr>lg_audit_index := lg_audit_index s + 1, lg_current := current\<rparr>)))
          else if aw_attempt_index audit < attempt_index
          then Inl (wrapper_error FD_ERR_STATE (str ''replay audit attempts are not ordered''))
          else on_success (replay_record replay (lg_accepted_index s)) (\<lambda>record.
                 Inr (show_line (accept_line attempt_index record)
                   (s\<lparr>lg_accepted_index := lg_accepted_index s + 1\<rparr>)))
      | None \<Rightarrow>
          on_success (replay_record replay (lg_accepted_index s)) (\<lambda>record.
            Inr (show_line (accept_line attempt_index record)
              (s\<lparr>lg_accepted_index := lg_accepted_index s + 1\<rparr>))))"

primrec log_attempts ::
    "fd_replay option \<Rightarrow> nat \<Rightarrow> bytes \<Rightarrow> nat \<Rightarrow> nat list \<Rightarrow> log_state \<Rightarrow> log_state cpp_result" where
  "log_attempts replay audit_count wanted maximum_records [] s = Inr s"
| "log_attempts replay audit_count wanted maximum_records (attempt # rest) s =
     (if length (lg_lines s) < maximum_records
      then on_success (log_attempt replay audit_count wanted (of_nat attempt) s) (\<lambda>s.
             log_attempts replay audit_count wanted maximum_records rest s)
      else Inr s)"

definition render_message_log_ascii ::
    "fd_replay option \<Rightarrow> u64 \<Rightarrow> render_options \<Rightarrow> bytes \<Rightarrow> bytes cpp_result" where
  "render_message_log_ascii replay first_record options wanted = sized_screen options
     (on_success (replay_info replay) (\<lambda>info.
        let total = total_attempts info; audit_count = unat (ri_audit_count info)
        in if first_record > total
           then Inl (wrapper_error FD_ERR_OUT_OF_RANGE (str ''message log first record is outside replay''))
           else
             let top =
                   [str ''FRONTIER DIRECTORATE | MESSAGE LOG | ACTION ACCEPT/REJECT AUDIT'',
                    str ''Accepted: '' @ decimal (uint (ri_decision_count info)) @ str '' | Rejected: '' @
                      decimal (uint (ri_audit_count info)) @ str '' | First displayed: '' @
                      decimal (uint first_record) @ str '' | Cursor: '' @ decimal (uint (ri_cursor info)),
                    str ''+-- ATTEMPT -- RESULT / TICK / STRUCTURED DIAGNOSTIC ----------------+''];
                 maximum_records = unat (ro_rows options) - length top - 4;
                 ascii_filter = ascii_text wanted
             in on_success (fetch_audit replay audit_count 0) (\<lambda>current.
                on_success (skip_audits replay audit_count first_record 0 current) (\<lambda>(audit_index, current).
                on_success (log_attempts replay audit_count ascii_filter maximum_records
                    [unat first_record..<unat total]
                    \<lparr>lg_accepted_index = first_record - of_nat audit_index, lg_audit_index = audit_index,
                     lg_current = current, lg_lines = []\<rparr>) (\<lambda>s.
                  let rows = lg_lines s @
                        (if total = 0 then [str ''No action attempts are recorded in this replay.'']
                         else if lg_lines s = []
                         then [str ''No action audit records match filter: '' @ ascii_filter] else [])
                  in Inr (finalize
                       (pad_before_footer (top @ rows) (ro_rows options) 4 @
                        [str ''+----------------------------------------------------------------+'',
                         str ''Legend: PASS=accepted; REJECT preserves code/field/item/message'',
                         footer_message options, str ''Keys: ? help q quit PgUp/PgDn scroll /text replay local''])
                       (ro_columns options) (ro_rows options)))))))"

end
