(* ===== verification/FD_Frames.thy ===== *)
theory FD_Frames
  imports FD_Log
begin

text \<open>
  What every screen has in common: it is a frame of the terminal it is drawn for, and the C entry points
  measure and render the same frame.
\<close>

section \<open>Screens are frames\<close>

text \<open>A call that gives nothing but frames.\<close>

definition framed :: "u32 \<Rightarrow> u32 \<Rightarrow> bytes cpp_result \<Rightarrow> bool" where
  "framed columns rows r \<longleftrightarrow> (\<forall>t. r = Inr t \<longrightarrow> is_frame columns rows t)"

lemma framed_simps [simp]: "framed c r (Inl e)" "framed c r (Inr (finalize lines c r))"
  by (simp_all add: framed_def finalize_is_frame)

lemma framed_on_success [intro!]: "(\<And>v. framed c r (f v)) \<Longrightarrow> framed c r (on_success s f)"
  by (cases s) simp_all

lemma framed_sized_screen [intro!]:
  "framed (ro_columns options) (ro_rows options) screen \<Longrightarrow>
   framed (ro_columns options) (ro_rows options) (sized_screen options screen)"
  by (simp add: sized_screen_def render_size_notice_def)

lemma framed_render_local: "framed (ro_columns options) (ro_rows options) (render_local s options info entities)"
  by (auto simp: render_local_def Let_def)

lemma framed_render_strategic: "framed (ro_columns options) (ro_rows options) (render_strategic s options info entities)"
  by (auto simp: render_strategic_def Let_def split: option.splits)

lemma framed_screens:
  "framed (ro_columns options) (ro_rows options) (render_ascii s options)"
  "framed (ro_columns options) (ro_rows options) (render_debug_hash_ascii s options)"
  "framed (ro_columns options) (ro_rows options) (render_replay_inspector_ascii replay k options)"
  "framed (ro_columns options) (ro_rows options) (render_message_log_ascii replay k options wanted)"
  by (auto simp: render_ascii_def render_debug_hash_ascii_def render_replay_inspector_ascii_def
      render_message_log_ascii_def empty_audit_frame_def Let_def
      intro!: framed_render_local framed_render_strategic split: option.splits)


text \<open>A terminal of two rows takes the notice about its size.\<close>

definition small_notice :: bytes where
  "small_notice = str ''FRONTIER DIRECTORATE | TERMINAL SIZE NOT'' @ [10] @ str ''Minimum supported terminal: 80x24'' @ [10]"

lemma small_notice_drawn:
  "finalize (str ''FRONTIER DIRECTORATE | TERMINAL SIZE NOTICE | ADMIN/OMNISCIENT REFERENCE'' #
     str ''Minimum supported terminal: 80x24'' # rest) 40 2 = small_notice"
  by (simp add: finalize_def fit_def strip_spaces_def ascii_text_def str_def small_notice_def)


section \<open>Errors are errors\<close>

text \<open>No call fails with the code of a success.\<close>

definition proper :: "'a cpp_result \<Rightarrow> bool" where
  "proper r \<longleftrightarrow> (\<forall>e. r = Inl e \<longrightarrow> er_code e \<noteq> FD_OK)"

named_theorems proper_intros \<open>calls whose errors carry an error code\<close>

lemma proper_simps [simp]:
  "proper (Inr v)" "proper (Inl e) \<longleftrightarrow> er_code e \<noteq> FD_OK"
  "er_code (wrapper_error c m) = c"
  by (simp_all add: proper_def wrapper_error_def)

lemma proper_on_success [proper_intros]: "proper r \<Longrightarrow> (\<And>v. proper (f v)) \<Longrightarrow> proper (on_success r f)"
  by (cases r) simp_all

lemma proper_collect [proper_intros]: "(\<And>x. proper (f x)) \<Longrightarrow> proper (collect f xs)"
  by (induction xs) (simp_all add: proper_on_success)

lemma proper_checked_query [proper_intros]: "proper (checked_query v m call)"
  by (auto simp: checked_query_def error_from_def split: prod.splits)

lemma proper_queries [proper_intros]:
  "proper (snapshot_info s)" "proper (snapshot_tile s x y)" "proper (snapshot_entity_by_index s i)" "proper (snapshot_region s)"
  by (simp_all add: snapshot_info_def snapshot_tile_def snapshot_entity_by_index_def snapshot_region_def proper_checked_query)

lemma proper_glyph [proper_intros]: "proper (unselected_glyph tile info)"
  by (simp add: unselected_glyph_def)

lemma proper_map_line [proper_intros]: "proper (map_line s info w inspector left_width columns row)"
  unfolding map_line_def map_glyph_def Let_def by (intro proper_intros) (auto intro: proper_intros)

lemma proper_settlement_line [proper_intros]: "proper (settlement_line columns entities region i)"
  by (simp add: settlement_line_def Let_def split: option.splits)

lemma proper_render_local [proper_intros]: "proper (render_local s options info entities)"
  by (auto simp: render_local_def Let_def intro!: proper_intros)

lemma proper_render_strategic [proper_intros]: "proper (render_strategic s options info entities)"
  by (auto simp: render_strategic_def capture_tiles_def Let_def intro!: proper_intros split: option.splits)

lemma proper_render_ascii [proper_intros]: "proper (render_ascii s options)"
  by (auto simp: render_ascii_def sized_screen_def render_size_notice_def capture_entities_def intro!: proper_intros)

section \<open>Measuring and rendering\<close>

lemma fst_ascii_diagnostic [simp]: "fst (ascii_diagnostic d c f i m) = c"
  by (simp add: ascii_diagnostic_def)

lemma render_for_c_OK:
  assumes "render_for_c snapshot options d = ((FD_OK, d'), t)"
  obtains opts where "options = Some opts" "is_frame (ao_columns opts) (ao_rows opts) t" "length t \<le> 256 * 513"
proof (cases options)
  case None
  then show thesis
    using assms by (cases snapshot) (auto simp: render_for_c_def validate_ascii_options_def ascii_diagnostic_def split: prod.splits)
next
  case (Some opts)
  have bounds: "fst (validate_ascii_options options d) = FD_OK \<Longrightarrow> ao_columns opts \<le> 512 \<and> ao_rows opts \<le> 256"
    by (auto simp: validate_ascii_options_def Some split: if_splits option.splits)
  have frame: "render_ascii s (cpp_options opts) = Inr t \<Longrightarrow> is_frame (ao_columns opts) (ao_rows opts) t" for s
    using framed_screens(1) [of "cpp_options opts" s] by (simp add: framed_def cpp_options_def)
  have refused: "render_ascii s o' = Inl e \<Longrightarrow> er_code e \<noteq> FD_OK" for s o' e
    using proper_render_ascii [of s o'] by (simp add: proper_def)
  have "ao_columns opts \<le> 512 \<and> ao_rows opts \<le> 256 \<and> is_frame (ao_columns opts) (ao_rows opts) t"
    using assms bounds frame refused
    by (cases snapshot) (auto simp: render_for_c_def Some ascii_diagnostic_def split: if_splits prod.splits sum.splits)
  moreover from this have "length t \<le> 256 * 513"
    using is_frame_length [of "ao_columns opts" "ao_rows opts" t]
      mult_le_mono [of "unat (ao_rows opts)" 256 "unat (ao_columns opts) + 1" 513]
    by (simp add: word_le_nat_alt)
  ultimately show thesis using that Some by blast
qed



text \<open>The same terminal, as the C caller describes it.\<close>

definition small_terminal :: fd_ascii_options where
  "small_terminal =
     \<lparr>ao_struct_size = 168, ao_abi_version = FD_ABI_VERSION, ao_columns = 40, ao_rows = 2, ao_screen = 1,
      ao_viewport_x = 0, ao_viewport_y = 0, ao_selected_x = 0, ao_selected_y = 0, ao_message_length = 0,
      ao_message = replicate 96 0, ao_reserved = replicate 8 0\<rparr>"

lemma small_terminal_valid: "validate_ascii_options (Some small_terminal) None = (FD_OK, None)"
proof -
  have "find (\<lambda>index. ao_reserved small_terminal ! index \<noteq> 0) [0..<8] = None"
    by (auto simp: find_None_iff small_terminal_def)
  then show ?thesis unfolding validate_ascii_options_def option.case by (simp add: small_terminal_def)
qed

lemma small_terminal_renders: "render_for_c (Some s) (Some small_terminal) None = ((FD_OK, None), small_notice)"
proof -
  have "ro_columns (cpp_options small_terminal) = 40" "ro_rows (cpp_options small_terminal) = 2"
    by (simp_all add: cpp_options_def small_terminal_def)
  then have "render_ascii t (cpp_options small_terminal) = Inr small_notice" for t
    by (simp add: render_ascii_def sized_screen_def render_size_notice_def small_notice_drawn)
  then show ?thesis by (simp add: render_for_c_def small_terminal_valid)
qed


end
