(* ===== verification/FD_Clone.thy ===== *)
theory FD_Clone
  imports FD_Sound FD_Build
begin

text \<open>
  Cloning a world through its save and disposing of it, and the reasoning rules for loops that leave
  early: what the replay operations are proved with.
\<close>

unbundle bit_operations_syntax

section \<open>Loops with an early exit\<close>

lemma scan_sum_invariant:
  assumes "\<And>p s. p \<in> set ps \<Longrightarrow> I s \<Longrightarrow> case f p s of Inl e \<Rightarrow> E e | Inr s' \<Rightarrow> I s'" and "I s"
  shows "case scan_sum f ps s of Inl e \<Rightarrow> E e | Inr s' \<Rightarrow> I s'"
  using assms
proof (induction ps arbitrary: s)
  case (Cons p ps)
  then have "case f p s of Inl e \<Rightarrow> E e | Inr s' \<Rightarrow> I s'" by simp
  then show ?case using Cons.IH Cons.prems(1) by (cases "f p s") simp_all
qed simp

lemma scan_sum_error:
  assumes "\<And>p s e. f p s = Inl e \<Longrightarrow> E e" and "scan_sum f ps s = Inl e"
  shows "E e"
  using scan_sum_invariant [where ps = ps and I = "\<lambda>_. True" and f = f and E = E and s = s] assms by (auto split: sum.splits)

section \<open>Disposing of worlds\<close>

lemma dispose_charged: "charged (- (1544 + tile_bytes w)) (- 1) ctx (dispose ctx (Some w))"
  by (simp add: dispose_def fd_world_destroy_def charged_def books_def)

lemma dispose_cancels:
  assumes "charged (n + (1544 + tile_bytes w)) (h + 1) ctx ctx'"
  shows "charged n h ctx (dispose ctx' (Some w))"
  using charged_trans [OF assms dispose_charged, of w] by simp

lemma dispose_loaded:
  "charged (1544 + tile_bytes v) 1 ctx ctx' \<Longrightarrow> tile_bytes w = tile_bytes v \<Longrightarrow>
     charged 0 0 ctx (dispose ctx' (Some w))"
  using dispose_cancels [of 0 w 0 ctx ctx'] by simp

lemma charged_zero_trans: "charged 0 0 a b \<Longrightarrow> charged n h b c \<Longrightarrow> charged n h a c"
  using charged_trans [of 0 0 a b n h c] by simp

section \<open>Cloning\<close>

lemma save_into:
  assumes "world_shape w" and "length (save_file w) \<le> unat (cx_max_file_bytes ctx)"
    and "length (save_file w) \<le> unat capacity" and "unat capacity \<le> length buf"
  shows "fd_world_save ctx (Some w) (Some buf) capacity (Some k) diag =
    (fd_diag_ok diag, Some (save_file w @ drop (length (save_file w)) buf), Some (of_nat (length (save_file w))))"
proof -
  let ?n = "of_nat (length (save_file w)) :: u64"
  have n: "unat ?n = length (save_file w)"
    using save_file_bound [OF assms(1)] by (intro unat_of_nat_u64) simp
  have guards: "\<not> ?n > cx_max_file_bytes ctx" "\<not> capacity < ?n"
    using assms(2,3) by (simp_all add: word_less_nat_alt n)
  have writer: "let writer = run (save_operations w) \<lparr>wr_bytes = buf, wr_position = 0\<rparr>
    in fd_write_bytes (fd_footer_digest (wr_bytes writer) (wr_position writer)) 32 writer =
       \<lparr>wr_bytes = save_file w @ drop (length (save_file w)) buf, wr_position = length (save_file w)\<rparr>"
    using save_writer [OF assms(1), of buf] assms(3,4) by simp
  show ?thesis
    using writer guards by (simp add: fd_world_save_def fd_save_size_exact [OF assms(1)] n Let_def)
qed

lemma world_tile_bytes_pos: "config_ok c \<Longrightarrow> 0 < world_tile_bytes c"
proof -
  assume c: "config_ok c"
  then have b: "unat (wc_width c) \<le> 256" "unat (wc_height c) \<le> 128" "0 < unat (wc_width c)" "0 < unat (wc_height c)"
    by (simp_all add: config_ok_def)
  have le: "unat (wc_width c) * unat (wc_height c) \<le> 32768" using product_in_range(3) [OF b(1,2)] .
  have scaled: "unat (x * 24) = p * 24" if "unat x = p" "p \<le> 32768" for x :: u64 and p
    using that by (simp add: unat_word_ariths)
  have "unat (world_tile_bytes c) = unat (wc_width c) * unat (wc_height c) * 24"
    unfolding world_tile_bytes_def using product_in_range(2) [OF b(1,2)] le by (rule scaled)
  then have "0 < unat (world_tile_bytes c)" using b(3,4) by simp
  then show ?thesis by (simp add: word_less_nat_alt)
qed

text \<open>An allocator that always has memory.\<close>

definition willing :: "'u fd_context \<Rightarrow> bool" where
  "willing ctx \<longleftrightarrow> (\<forall>u n. fst (cx_allocate ctx u n))"

lemma alloc_willing:
  assumes "willing ctx" and "0 < n"
  obtains ctx' where "fd_context_alloc ctx n = (True, ctx')" "willing ctx'"
proof -
  obtain ok ctx' where a: "fd_context_alloc ctx n = (ok, ctx')" by fastforce
  then have a': "fd_context_alloc ctx n = (ok, ctx')" .
  moreover have "fst (cx_allocate ctx (cx_allocator_user ctx) n)" "n \<noteq> 0"
    using assms by (simp_all add: willing_def)
  ultimately have "ok"
    by (auto simp: fd_context_alloc_def Let_def split: prod.splits bool.splits if_splits)
  have "willing ctx'" using alloc_fields [OF a] assms(1) by (simp add: willing_def)
  then show thesis using that a \<open>ok\<close> by simp
qed

lemma room_willing:
  assumes "willing ctx" and "storable w" and "world_tile_bytes (w_config w) + 1544 \<le> cx_max_live_world_bytes ctx"
  obtains ctx' where "room_for ctx w ctx'" "willing ctx'"
proof -
  have pos: "0 < world_tile_bytes (w_config w)" using assms(2) by (intro world_tile_bytes_pos) (simp add: storable_def)
  obtain c1 where c1: "fd_context_alloc ctx 1544 = (True, c1)" "willing c1"
    using alloc_willing [OF assms(1), of 1544] by auto
  obtain c2 where "fd_context_alloc c1 (world_tile_bytes (w_config w)) = (True, c2)" "willing c2"
    using alloc_willing [OF c1(2) pos] by auto
  then show thesis using that c1(1) assms(3) by (auto simp: room_for_def)
qed

text \<open>A context that can hold another copy of the world: memory, and limits that admit world and save.\<close>

definition affords :: "'u fd_context \<Rightarrow> fd_world \<Rightarrow> bool" where
  "affords ctx w \<longleftrightarrow> willing ctx \<and> length (save_file w) \<le> unat (cx_max_file_bytes ctx) \<and>
     world_tile_bytes (w_config w) + 1544 \<le> cx_max_live_world_bytes ctx"

lemma affords_charged: "charged n h ctx ctx' \<Longrightarrow> affords ctx' w = affords ctx w"
  by (simp add: affords_def willing_def charged_fields)

lemma affords_loads:
  assumes "affords ctx w" and "storable w"
  obtains d ctx' where "fd_world_load (Some ctx) (Some (save_file w)) (of_nat (length (save_file w))) (Some old) diag =
    ((FD_OK, d), Some ctx', Some (Some (reloaded (cx_id ctx) w)))"
proof -
  obtain ctx' where "room_for ctx w ctx'"
    using room_willing [of ctx w] assms by (auto simp: affords_def)
  from fd_world_load_saved [OF assms(2) this, of "[]" old diag] assms(1) show thesis
    using that by (auto simp: affords_def)
qed

text \<open>The loader gives the saved world back, in whatever context it succeeds.\<close>

lemma reloaded_unique:
  fixes ctx :: "'u fd_context"
  assumes st: "storable w"
    and l: "fd_world_load (Some ctx) (Some (save_file w)) (of_nat (length (save_file w))) (Some old) diag =
      ((FD_OK, d), octx, Some (Some v))"
  shows "v = reloaded (cx_id ctx) w"
proof -
  define roomy where "roomy = ctx\<lparr>cx_allocate := \<lambda>u n. (True, u), cx_max_live_world_bytes := - 1,
    cx_max_file_bytes := - 1\<rparr>"
  have "willing roomy" "world_tile_bytes (w_config w) + 1544 \<le> cx_max_live_world_bytes roomy"
    by (simp_all add: willing_def roomy_def)
  then obtain ctx' where room: "room_for roomy w ctx'" using room_willing st by metis
  have "length (save_file w) \<le> unat (cx_max_file_bytes roomy)"
    using save_file_bound [of w] st by (simp add: roomy_def storable_def unsigned_minus_1_eq_mask mask_eq_exp_minus_1)
  from fd_world_load_saved [OF st room this, of "[]" None diag] obtain d2 where
    "fd_world_load (Some roomy) (Some (save_file w)) (of_nat (length (save_file w))) (Some None) diag =
      ((FD_OK, d2), Some (handle_acquire ctx'), Some (Some (reloaded (cx_id roomy) w)))" by auto
  from load_same [OF l this] show ?thesis by (simp add: roomy_def)
qed

lemma tile_bytes_reloaded [simp]: "tile_bytes (reloaded i w) = tile_bytes w"
  by (simp add: tile_bytes_def reloaded_def)

text \<open>A clone of a storable world is the world itself in its canonical form.\<close>

lemma clone_cases:
  assumes st: "storable w"
  obtains (cloned) d ctx' where
      "fd_world_clone_via_save ctx (Some w) (Some old) diag = ((FD_OK, d), ctx', Some (Some (reloaded (cx_id ctx) w)))"
      "charged (1544 + tile_bytes w) 1 ctx ctx'"
  | (failed) r ctx' where "fd_world_clone_via_save ctx (Some w) (Some old) diag = (r, ctx', Some None)"
      "fst r \<noteq> FD_OK" "charged 0 0 ctx ctx'" "\<not> affords ctx w"
proof -
  have sh: "world_shape w" using st by (simp add: storable_def)
  let ?n = "of_nat (length (save_file w)) :: u64"
  have n: "unat ?n = length (save_file w)"
    using save_file_bound [OF sh] by (intro unat_of_nat_u64) simp
  show thesis
  proof (cases "?n > cx_max_file_bytes ctx")
    case True
    then show thesis
      using failed n
      by (simp add: fd_world_clone_via_save_def fd_world_save_size_def fd_save_size_exact [OF sh] Let_def
          affords_def word_less_nat_alt split: prod.splits)
  next
    case False
    then have lim: "length (save_file w) \<le> unat (cx_max_file_bytes ctx)"
      by (simp add: word_less_nat_alt n)
    have size: "fd_world_save_size ctx (Some w) (Some 0) diag = (fd_diag_ok diag, Some ?n)"
      using False by (simp add: fd_world_save_size_def fd_save_size_exact [OF sh])
    obtain d1 where d1: "fd_diag_ok diag = (FD_OK, d1)" by (simp add: diag_ok_fst)
    obtain ok c1 where al: "fd_context_alloc ctx ?n = (ok, c1)" by fastforce
    have c1: "charged (if ok then ?n else 0) 0 ctx c1" by (rule charged_alloc [OF al])
    show thesis
    proof (cases ok)
      case no: False
      have "0 < ?n" using n by (simp add: word_less_nat_alt length_save_file)
      then have "\<not> willing ctx" using alloc_willing [of ctx ?n] al no by auto
      then have "\<not> affords ctx w" by (simp add: affords_def)
      then show thesis
        using no failed c1 by (simp add: fd_world_clone_via_save_def size d1 al Let_def)
    next
      case yes: True
      have lim1: "length (save_file w) \<le> unat (cx_max_file_bytes c1)"
        using lim charged_fields(4) [OF c1] by simp
      obtain d2 where d2: "fd_diag_ok d1 = (FD_OK, d2)" by (simp add: diag_ok_fst)
      have save: "fd_world_save c1 (Some w) (Some (replicate (unat ?n) 0)) ?n (Some 0) d1 =
          ((FD_OK, d2), Some (save_file w), Some ?n)"
        using save_into [OF sh lim1, of ?n "replicate (unat ?n) 0" 0 d1] n d2 by simp
      obtain r octx out where l: "fd_world_load (Some c1) (Some (save_file w)) ?n (Some None) d2 = (r, octx, out)"
        by (metis prod.exhaust)
      have eq: "fd_world_clone_via_save ctx (Some w) (Some old) diag = (r, fd_context_free (the octx) ?n, out)"
        using yes by (simp add: fd_world_clone_via_save_def size d1 al save l Let_def)
      have c1n: "charged ?n 0 ctx c1" using c1 yes by simp
      show thesis
        using l
      proof (cases rule: load_cases)
        case (refused c2)
        then have "\<not> affords c1 w" using affords_loads [OF _ st, of c1 None d2] l by auto
        then have "\<not> affords ctx w" using affords_charged [OF c1] by simp
        with refused show thesis
          using failed eq charged_trans [OF charged_trans [OF c1n refused(4)] charged_free, of ?n] by simp
      next
        case (loaded v c2)
        obtain d3 where r: "r = (FD_OK, d3)" using loaded(1) by (cases r) simp
        have v: "v = reloaded (cx_id ctx) w"
          using reloaded_unique [OF st, of c1 None d2 d3 octx v] l r loaded(3) charged_fields(3) [OF c1] by simp
        show thesis
          using cloned eq r loaded(2,3) v charged_trans [OF charged_trans [OF c1n loaded(5)] charged_free, of ?n]
          by simp
      qed
    qed
  qed
qed

end
