(* ===== verification/FD_Opened.thy ===== *)
theory FD_Opened
  imports FD_Playback FD_Clone
begin

text \<open>
  What opening a replay guarantees: the books of its context balance on every path, and an accepted
  file is an authentic run of its tick-zero world.
\<close>

unbundle bit_operations_syntax

section \<open>The books of opening\<close>

lemma open_allocate_charged:
  "open_allocate ctx s r a = (ctx', m) \<Longrightarrow> charged (if m = None then 128 + s + r + a else 0) 0 ctx ctx'"
  by (auto simp: open_allocate_def alloc_fields free_block_def charged_def books_def word_gt_0
      split: prod.splits bool.splits if_splits)

definition replay_bytes :: "fd_replay \<Rightarrow> u64" where
  "replay_bytes rp = 128 + rp_tick_zero_allocation_size rp +
     (if rp_records rp = None then 0 else rp_record_allocation_size rp) +
     (if rp_audits rp = None then 0 else rp_audit_allocation_size rp)"

lemma free_replay_charged: "charged (- replay_bytes rp) 0 ctx (free_replay ctx rp)"
  by (cases "rp_records rp"; cases "rp_audits rp")
    (simp_all add: free_replay_def free_block_def replay_bytes_def charged_def books_def algebra_simps)

lemma verify_attempt_world:
  assumes "verify_attempt records audits n k diag i st = x" and "\<exists>v. fst st = Some v \<and> tile_bytes v = t"
  shows "case x of Inl ((r, s), w) \<Rightarrow> fst r \<noteq> FD_OK \<and> (\<exists>v. w = Some v \<and> tile_bytes v = t)
    | Inr st' \<Rightarrow> \<exists>v. fst st' = Some v \<and> tile_bytes v = t"
proof -
  obtain v a b where st: "st = (Some v, a, b)" and t: "tile_bytes v = t"
    using assms(2) by (cases st) auto
  have w: "\<exists>u. w' = Some u \<and> tile_bytes u = t"
    if "fd_world_step (Some v) d out diag = (r, w', out')" for d out diag r w' out'
    using step_tile_bytes [OF that] t by simp
  show ?thesis
    using assms(1) t unfolding st verify_attempt_def Let_def
    by (auto split: prod.splits if_splits dest!: w)
qed

lemma verify_attempts_world:
  assumes "verify_attempts records audits n k total_attempts diag (Some v) = ((r, s), w)"
  shows "\<exists>u. w = Some u \<and> tile_bytes u = tile_bytes v"
proof -
  let ?I = "\<lambda>st :: verify_state. \<exists>u. fst st = Some u \<and> tile_bytes u = tile_bytes v"
  let ?E = "\<lambda>((r :: fd_result \<times> diag, s :: u32), w). fst r \<noteq> FD_OK \<and> (\<exists>u. w = Some u \<and> tile_bytes u = tile_bytes v)"
  have "case verify_attempt records audits n k diag i st of Inl e \<Rightarrow> ?E e | Inr st' \<Rightarrow> ?I st'"
    if "?I st" for i st
    using verify_attempt_world [OF refl that, of records audits n k diag i] by (auto split: sum.splits)
  then have "case scan_sum (verify_attempt records audits n k diag) [0..<unat total_attempts] (Some v, 0, 0) of
      Inl e \<Rightarrow> ?E e | Inr st' \<Rightarrow> ?I st'"
    by (rule scan_sum_invariant) simp_all
  then show ?thesis
    using assms by (auto simp: verify_attempts_def split: sum.splits prod.splits if_splits)
qed

lemma checkpoint_books:
  assumes "charged 0 0 base (fst (snd st))"
  shows "case open_checkpoint sections records i st of
      Inl (ctx, e) \<Rightarrow> charged 0 0 base ctx \<and> (\<exists>r d. e = Failed r d 5 \<and> r \<noteq> FD_OK)
    | Inr st' \<Rightarrow> charged 0 0 base (fst (snd st'))"
proof -
  obtain p c d where st: "st = (p, c, d)" by (cases st)
  let ?n = "fd_load_u64_le (drop (unat p + 8) (rs_payload (sections ! 5)))"
  let ?b = "Some (take (unat ?n) (drop (unat (p + 16)) (rs_payload (sections ! 5))))"
  obtain r octx w where l: "fd_world_load (Some c) ?b ?n (Some None) d = (r, octx, w)" by (metis prod.exhaust)
  show ?thesis
    using l
  proof (cases rule: load_cases)
    case (loaded v ctx')
    then have "charged 0 0 base (dispose ctx' (Some v))"
      using assms dispose_loaded [of v c ctx' v] by (auto simp: st intro: charged_zero_trans)
    then show ?thesis
      using assms l loaded by (auto simp: st open_checkpoint_def Let_def split: prod.splits)
  next
    case (refused ctx')
    then have "charged 0 0 base ctx'" using assms by (auto simp: st intro: charged_zero_trans)
    then show ?thesis
      using assms l refused by (auto simp: st open_checkpoint_def Let_def split: prod.splits)
  qed
qed

definition open_error :: "open_exit \<Rightarrow> bool" where
  "open_error e = (case e of Returned r d \<Rightarrow> r \<noteq> FD_OK | Failed r d s \<Rightarrow> r \<noteq> FD_OK)"

lemma open_record_error: "open_record sections h actors i st = Inl e \<Longrightarrow> open_error e"
  by (auto simp: open_record_def open_error_def split: prod.splits if_splits)

lemma open_audit_error: "open_audit sections n t i st = Inl e \<Longrightarrow> open_error e"
  by (auto simp: open_audit_def Let_def open_error_def split: prod.splits if_splits)

lemma checkpoints_books:
  "case scan_sum (open_checkpoint sections records) ps (p, ctx, d) of
      Inl (ctx', e) \<Rightarrow> charged 0 0 ctx ctx' \<and> (\<exists>r d. e = Failed r d 5 \<and> r \<noteq> FD_OK)
    | Inr st' \<Rightarrow> charged 0 0 ctx (fst (snd st'))"
proof -
  have "case scan_sum (open_checkpoint sections records) ps (p, ctx, d) of
      Inl e \<Rightarrow> (case e of (ctx', e) \<Rightarrow> charged 0 0 ctx ctx' \<and> (\<exists>r d. e = Failed r d 5 \<and> r \<noteq> FD_OK))
    | Inr st' \<Rightarrow> charged 0 0 ctx (fst (snd st'))"
    by (rule scan_sum_invariant) (use checkpoint_books [where base = ctx and sections = sections and records = records] in \<open>simp_all\<close>)
  then show ?thesis by simp
qed

lemma open_contents_books:
  assumes "open_contents ctx sections rp actors t diag = (ctx', x)"
  shows "charged 0 0 ctx ctx'" and "\<And>e. x = Inl e \<Longrightarrow> open_error e"
proof -
  have "charged 0 0 ctx ctx' \<and> (\<forall>e. x = Inl e \<longrightarrow> open_error e)"
  proof (cases "scan_sum (open_record sections (rp_tick_zero_hash rp) actors) [0..<unat (rp_record_count rp)] ([], diag)")
    case (Inl e)
    then show ?thesis
      using assms scan_sum_error [OF open_record_error Inl] by (auto simp: open_contents_def)
  next
    case records: (Inr st)
    obtain records d1 where st: "st = (records, d1)" by fastforce
    show ?thesis
    proof (cases "scan_sum (open_audit sections (rp_record_count rp) t) [0..<unat (rp_audit_count rp)] ([], - 1, d1)")
      case (Inl e)
      then show ?thesis
        using assms records scan_sum_error [OF open_audit_error Inl] by (auto simp: st open_contents_def)
    next
      case audits: (Inr au)
      obtain audits prev d2 where au: "au = (audits, prev, d2)" by (cases au)
      obtain r octx w where l: "fd_world_load (Some ctx) (Some (rp_tick_zero_save rp))
          (rp_tick_zero_save_size rp) (Some None) d2 = (r, octx, w)" by (metis prod.exhaust)
      show ?thesis
        using l
      proof (cases rule: load_cases)
        case (refused c1)
        then show ?thesis
          using assms records audits l
          by (auto simp: st au open_contents_def Let_def open_error_def split: prod.splits)
      next
        case (loaded v c1)
        obtain r2 s2 w2 where v: "verify_attempts records audits (rp_record_count rp) (rp_audit_count rp) t
            (snd r) (Some v) = ((r2, s2), w2)" by (metis prod.exhaust)
        then obtain u where u: "w2 = Some u" "tile_bytes u = tile_bytes v"
          using verify_attempts_world by blast
        have c2: "charged 0 0 ctx (dispose c1 (Some u))" by (rule dispose_loaded) (use loaded u in simp_all)
        show ?thesis
          using assms records audits l loaded v u c2
            checkpoints_books [where sections = sections and records = records and p = 4 and d = "snd r2" and
              ps = "[0..<unat (rp_checkpoint_count rp)]" and ctx = "dispose c1 (Some u)"]
          by (auto simp: st au open_contents_def Let_def open_error_def split: prod.splits sum.splits if_splits
              intro: charged_zero_trans)
      qed
    qed
  qed
  then show "charged 0 0 ctx ctx'" and "\<And>e. x = Inl e \<Longrightarrow> open_error e" by blast+
qed

lemma parse_replay_section_error: "parse_replay_section b n diag st = Inl e \<Longrightarrow> fst e \<noteq> FD_OK"
  by (auto simp: parse_replay_section_def Let_def split: if_splits prod.splits option.splits)

lemma replay_parse_loop_error: "replay_parse_loop b n diag st = Inl e \<Longrightarrow> fst e \<noteq> FD_OK"
proof (induction b n diag st rule: replay_parse_loop.induct)
  case (1 b n diag st)
  then show ?case
    by (auto simp: replay_parse_loop.simps [of b n diag st] dest: parse_replay_section_error
        split: if_splits sum.splits)
qed

lemma parse_replay_sections_error: "fd_parse_replay_sections b n diag = Inl e \<Longrightarrow> fst e \<noteq> FD_OK"
  by (auto simp: fd_parse_replay_sections_def Let_def dest: replay_parse_loop_error
      split: if_splits sum.splits prod.splits option.splits)

lemma open_failure_code: "fst (open_failure result diag section) = result"
  by (simp add: open_failure_def split: option.splits)

lemma replay_bytes_opened:
  "replay_bytes (fresh_replay owner sections w r a) = 128 + rs_length (sections ! 2) + r + a"
  "replay_bytes (opened rp records audits) = replay_bytes rp"
  by (auto simp: replay_bytes_def fresh_replay_def opened_def word_gt_0)

abbreviation (input) world_actors :: "fd_world \<Rightarrow> fd_entity_id list" where
  "world_actors w \<equiv> [rg_foreign_faction_ids (w_region w) ! 0, rg_foreign_faction_ids (w_region w) ! 1]"

text \<open>How opening ends: refused before or after the allocations, or opened.\<close>

lemma open_sections_cases:
  assumes "open_sections ctx sections k diag = (r, ctx', out)"
  obtains (refused) "fst r \<noteq> FD_OK" "out = None" "charged 0 0 ctx ctx'"
  | (accepted) t w d0 c1 rb ab c2 c3 records audits d1 rp where
      "\<not> replay_manifest_bad sections k"
      "replay_counts sections (fd_load_u64_le (drop 12 (rs_payload (sections ! 1))))
         (fd_load_u32_le (drop 20 (rs_payload (sections ! 1))))
         (fd_load_u32_le (drop 24 (rs_payload (sections ! 1)))) = Some t"
      "fd_world_load (Some ctx) (Some (section_slice (sections ! 2))) (rs_length (sections ! 2)) (Some None) diag
         = ((FD_OK, d0), Some c1, Some (Some w))"
      "w_tick w = 0" "open_allocate c1 (rs_length (sections ! 2)) rb ab = (c2, None)"
      "fd_u64_mul (fd_load_u64_le (drop 12 (rs_payload (sections ! 1)))) 256 = Some rb"
      "fd_u64_mul (ucast (fd_load_u32_le (drop 24 (rs_payload (sections ! 1))))) 328 = Some ab"
      "rp = fresh_replay (cx_id c2) sections w rb ab"
      "open_contents (dispose c2 (Some w)) sections rp (world_actors w) t d0 = (c3, Inr (records, audits, d1))"
      "fst r = FD_OK" "ctx' = handle_acquire c3" "out = Some (opened rp records audits)"
      "charged (replay_bytes rp) 1 ctx ctx'"
proof -
  let ?m = "rs_payload (sections ! 1)" and ?s = "rs_length (sections ! 2)"
  obtain lr octx cw where l: "fd_world_load (Some ctx) (Some (section_slice (sections ! 2))) ?s (Some None) diag
      = (lr, octx, cw)" by (metis prod.exhaust)
  show thesis
  proof (cases "replay_manifest_bad sections k \<or> replay_counts sections (fd_load_u64_le (drop 12 ?m))
         (fd_load_u32_le (drop 20 ?m)) (fd_load_u32_le (drop 24 ?m)) = None")
    case True
    then show thesis using assms refused by (auto simp: open_sections_def Let_def split: option.splits if_splits)
  next
    case False
    then obtain t where m: "\<not> replay_manifest_bad sections k"
      and t: "replay_counts sections (fd_load_u64_le (drop 12 ?m)) (fd_load_u32_le (drop 20 ?m))
         (fd_load_u32_le (drop 24 ?m)) = Some t" by auto
    show thesis
      using l
    proof (cases rule: load_cases)
      case (refused c)
      then show thesis using assms m t l that(1)
        by (cases lr) (auto simp: open_sections_def Let_def)
    next
      case (loaded w c1)
      let ?rb = "fd_u64_mul (fd_load_u64_le (drop 12 ?m)) 256"
        and ?ab = "fd_u64_mul (ucast (fd_load_u32_le (drop 24 ?m))) 328"
      have gone: "charged n h ctx c \<Longrightarrow> charged (n - (1544 + tile_bytes w)) (h - 1) ctx (dispose c (Some w))" for n h c
        using charged_trans [OF _ dispose_charged, of n h ctx c w] by (simp add: algebra_simps)
      obtain d0 where lr: "lr = (FD_OK, d0)" using loaded by (cases lr) simp
      show thesis
      proof (cases "w_tick w \<noteq> 0 \<or> ?rb = None \<or> ?ab = None")
        case True
        then show thesis using assms m t l loaded gone [of "1544 + tile_bytes w" 1 c1] that(1)
          by (auto simp: open_sections_def Let_def lr split: option.splits if_splits)
      next
        case False
        then obtain rb ab where tick: "w_tick w = 0" and rb: "?rb = Some rb" and ab: "?ab = Some ab" by auto
        obtain c2 msg where al: "open_allocate c1 ?s rb ab = (c2, msg)" by fastforce
        define rp where "rp = fresh_replay (cx_id c2) sections w rb ab"
        obtain c3 x where x: "open_contents (dispose c2 (Some w)) sections rp (world_actors w) t d0 = (c3, x)"
          by fastforce
        note c2 = charged_trans [OF loaded(5) open_allocate_charged [OF al]]
        show thesis
        proof (cases msg)
          case (Some message)
          then show thesis using assms m t l loaded tick rb ab al c2 gone [of "1544 + tile_bytes w" 1 c2] that(1)
            by (auto simp: open_sections_def Let_def lr)
        next
          case None
          have c3: "charged (128 + ?s + rb + ab) 0 ctx c3"
            using charged_trans [OF gone [OF c2] open_contents_books(1) [OF x]] None by (simp add: add.assoc)
          have open_eq: "open_sections ctx sections k diag =
              (case x of Inl (Returned result diag) \<Rightarrow> ((result, diag), free_replay c3 rp, None)
               | Inl (Failed result diag s) \<Rightarrow> (open_failure result diag s, free_replay c3 rp, None)
               | Inr (records, audits, diag) \<Rightarrow>
                   (fd_diag_ok diag, handle_acquire c3, Some (opened rp records audits)))"
            using m t l loaded(2,3) tick rb ab al None x unfolding rp_def
            by (simp add: open_sections_def Let_def lr)
          show thesis
          proof (cases x)
            case (Inl e)
            have "charged 0 0 ctx (free_replay c3 rp)"
              using charged_trans [OF c3 free_replay_charged, of rp] by (simp add: rp_def replay_bytes_opened)
            then show thesis
              using assms open_eq Inl open_contents_books(2) [OF x Inl] that(1)
              by (cases e) (auto simp: open_error_def open_failure_code dest: arg_cong [of _ _ fst])
          next
            case (Inr y)
            obtain records audits d1 where y: "y = (records, audits, d1)" by (cases y)
            have "charged (replay_bytes rp) 1 ctx (handle_acquire c3)"
              using charged_trans [OF c3 charged_handle(1)] by (simp add: rp_def replay_bytes_opened)
            then show thesis
              using assms open_eq Inr y x None al lr l loaded(2,3)
              by (intro that(2) [OF m t _ tick _ rb ab rp_def]) auto
          qed
        qed
      qed
    qed
  qed
qed

definition replay_charge :: "fd_replay \<Rightarrow> u64" where
  "replay_charge rp = 128 + rp_tick_zero_save_size rp + rp_record_count rp * 256 + ucast (rp_audit_count rp) * 328"

lemma replay_open_charged:
  "case fd_replay_open (Some ctx) (Some bytes) n (Some old) diag of (r, octx, out) \<Rightarrow>
     \<exists>ctx'. octx = Some ctx' \<and>
       (if fst r = FD_OK
        then (\<exists>rp. out = Some (Some rp) \<and> replay_bytes rp = replay_charge rp \<and>
               charged (replay_charge rp) 1 ctx ctx')
        else out = Some None \<and> charged 0 0 ctx ctx')"
proof -
  have charge: "replay_bytes (opened rp records audits) = replay_charge (opened rp records audits)"
    if "rp = fresh_replay i sections w rb ab"
      "fd_u64_mul (fd_load_u64_le (drop 12 (rs_payload (sections ! 1)))) 256 = Some rb"
      "fd_u64_mul (ucast (fd_load_u32_le (drop 24 (rs_payload (sections ! 1))))) 328 = Some ab"
    for rp records audits i sections w rb ab
    using that unfolding that(1) replay_bytes_opened
    by (simp add: replay_charge_def opened_def fresh_replay_def fd_u64_mul_Some_iff)
  have main: "if fst r = FD_OK
      then \<exists>rp. out = Some rp \<and> replay_bytes rp = replay_charge rp \<and> charged (replay_charge rp) 1 ctx ctx'
      else out = None \<and> charged 0 0 ctx ctx'"
    if "open_sections ctx sections k d = (r, ctx', out)" for sections k d r ctx' out
    using that
  proof (cases rule: open_sections_cases)
    case (accepted t w d0 c1 rb ab c2 c3 records audits d1 rp)
    have "replay_bytes (opened rp records audits) = replay_charge (opened rp records audits)"
      by (rule charge [OF accepted(8,6,7)])
    then show ?thesis using accepted(10-13) by (simp add: replay_bytes_opened(2))
  qed simp
  let ?d = "snd (fd_diag_ok diag)"
  show ?thesis
  proof (cases "fd_parse_replay_sections bytes (unat n) ?d")
    case (Inl e)
    then show ?thesis
      using parse_replay_sections_error [OF Inl] by (auto simp: fd_replay_open_def Let_def)
  next
    case (Inr x)
    obtain sections k where x: "x = (sections, k)" by fastforce
    obtain r ctx' out where o: "open_sections ctx sections k ?d = (r, ctx', out)" by (metis prod.exhaust)
    show ?thesis using main [OF o] by (auto simp: fd_replay_open_def Let_def Inr x o)
  qed
qed

lemma replay_destroy_charged:
  "fd_replay_destroy ctx (Some (Some rp)) diag = (r, ctx', p) \<Longrightarrow>
     fst r = FD_OK \<and> p = Some None \<and> charged (- replay_bytes rp) (- 1) ctx ctx'"
  using charged_trans [OF free_replay_charged charged_handle(2), of rp ctx]
  by (auto simp: fd_replay_destroy_def)

text \<open>C36: opening a replay balances the books of its context whatever bytes it is given.  An accepted
  replay costs its handle, the copy of the save, 256 bytes a record and 328 an audit record, and one
  handle; destroying it gives all of that back and clears the pointer.  A refusal at any stage, between
  the allocations or during the re-execution, leaves live bytes and handles as they were.\<close>

theorem replay_open_books:
  "case fd_replay_open (Some ctx) (Some bytes) n (Some old) diag of (r, octx, out) \<Rightarrow>
     \<exists>ctx'. octx = Some ctx' \<and>
       (if fst r = FD_OK
        then (\<exists>rp. out = Some (Some rp) \<and>
          cx_live_bytes ctx' = cx_live_bytes ctx + replay_charge rp \<and>
          cx_live_handles ctx' = cx_live_handles ctx + 1 \<and>
          (case fd_replay_destroy ctx' (Some (Some rp)) diag2 of (r2, ctx2, p) \<Rightarrow>
             fst r2 = FD_OK \<and> p = Some None \<and> cx_live_bytes ctx2 = cx_live_bytes ctx \<and>
             cx_live_handles ctx2 = cx_live_handles ctx))
        else out = Some None \<and> cx_live_bytes ctx' = cx_live_bytes ctx \<and>
          cx_live_handles ctx' = cx_live_handles ctx)"
proof -
  obtain r octx out where o: "fd_replay_open (Some ctx) (Some bytes) n (Some old) diag = (r, octx, out)"
    by (metis prod.exhaust)
  obtain ctx' where ctx': "octx = Some ctx'"
    and c: "if fst r = FD_OK
      then \<exists>rp. out = Some (Some rp) \<and> replay_bytes rp = replay_charge rp \<and> charged (replay_charge rp) 1 ctx ctx'
      else out = Some None \<and> charged 0 0 ctx ctx'"
    using replay_open_charged [of ctx bytes n old diag] by (auto simp: o)
  show ?thesis
  proof (cases "fst r = FD_OK")
    case True
    then obtain rp where rp: "out = Some (Some rp)" "replay_bytes rp = replay_charge rp"
      and opened: "charged (replay_charge rp) 1 ctx ctx'" using c by auto
    obtain r2 ctx2 p where d: "fd_replay_destroy ctx' (Some (Some rp)) diag2 = (r2, ctx2, p)"
      by (metis prod.exhaust)
    have "charged 0 0 ctx ctx2"
      using charged_trans [OF opened, of "- replay_bytes rp" "- 1" ctx2] replay_destroy_charged [OF d] rp by simp
    then show ?thesis
      using True ctx' rp d charged_fields(1,2) [OF opened] charged_fields(1,2) [of 0 0 ctx ctx2]
        replay_destroy_charged [OF d] by (simp add: o)
  next
    case False
    then show ?thesis using c ctx' charged_fields(1,2) [of 0 0 ctx ctx'] by (simp add: o)
  qed
qed

end
