(* ===== verification/FD_Reject.thy ===== *)
theory FD_Reject
  imports FD_Build
begin

text \<open>
  What a rejected step reports: with a current diagnostic every refusal is a result code together with
  the same code, a field number and a printable message in the diagnostic, and on a valid world the
  code is one a replay may audit.
\<close>

definition reported :: "fd_result \<Rightarrow> fd_diagnostic \<Rightarrow> bool" where
  "reported c g \<longleftrightarrow> diag_valid g \<and> dg_code g = c \<and> dg_field_id g \<le> FD_FIELD_ASCII_MESSAGE \<and>
     message_field (of_nat (message_scan (dg_message g))) (dg_message g)"

lemma reported_valid: "reported c g \<Longrightarrow> diag_valid g"
  by (simp add: reported_def)

lemma printable_nonzero: "printable m \<Longrightarrow> strlen m = length m"
  using strlen_message [of m 0] by (fastforce simp: printable_def)

lemma diag_set_reported:
  assumes "diag_valid d" and "f \<le> 19" and "printable m" and "length m < 160"
  shows "\<exists>g. fd_diag_set (Some d) c f i m = (c, Some g) \<and> reported c g"
proof -
  let ?g = "d\<lparr>dg_code := c, dg_field_id := f, dg_item_index := i,
              dg_message := m @ replicate (160 - length m) 0\<rparr>"
  have "fd_diag_set (Some d) c f i m = (c, Some ?g)"
    using assms by (simp add: fd_diag_set_def diag_valid_def Let_def printable_nonzero)
  moreover have "reported c ?g"
    using assms message_scan_field [OF assms(4,3)]
    by (auto simp: reported_def diag_valid_def message_field_def)
  ultimately show ?thesis by blast
qed

lemma printable_str: "printable (str s) \<longleftrightarrow> list_all (\<lambda>c. 0x20 \<le> (of_char c :: u8) \<and> (of_char c :: u8) \<le> 0x7e) s"
  by (auto simp: printable_def str_def list_all_iff)

named_theorems reported_intro \<open>calls that report what they return\<close>

definition reports :: "fd_result \<times> diag \<Rightarrow> bool" where
  "reports x \<longleftrightarrow> (\<exists>g. snd x = Some g \<and> diag_valid g \<and> (fst x \<noteq> FD_OK \<longrightarrow> reported (fst x) g))"

lemma reports_set [reported_intro]:
  assumes "diag_valid d" and "f \<le> 19" and "printable m" and "length m < 160"
  shows "reports (fd_diag_set (Some d) c f i m)"
  using diag_set_reported [OF assms, of c i] by (auto simp: reports_def reported_valid)

lemma reports_ok [reported_intro]: "diag_valid d \<Longrightarrow> reports (fd_diag_ok (Some d))"
  unfolding fd_diag_ok_def by (rule reports_set) (simp_all add: printable_str)

lemma reports_same [reported_intro]: "diag_valid d \<Longrightarrow> reports (FD_OK, Some d)"
  by (simp add: reports_def)

lemma reports_if [reported_intro]: "(c \<Longrightarrow> reports x) \<Longrightarrow> (\<not> c \<Longrightarrow> reports y) \<Longrightarrow> reports (if c then x else y)"
  by simp

lemma action_validate_reports:
  "diag_valid d \<Longrightarrow> reports (fd_action_validate (Some w) actor (Some a) (Some d))"
  unfolding fd_action_validate_def
  by (auto intro!: reported_intro simp: printable_str split: option.splits)

lemma joint_seats_reports: "diag_valid d \<Longrightarrow> reports (joint_seats w dec seats (Some d))"
proof (induction seats arbitrary: d)
  case Nil
  then show ?case by (simp add: reports_same)
next
  case (Cons seat seats)
  obtain c g where v: "fd_action_validate (Some w) (sd_actor_id (jd_seats dec ! seat))
      (Some (sd_action (jd_seats dec ! seat))) (Some d) = (c, g)" by fastforce
  have "reports (c, g)" using action_validate_reports [OF Cons.prems] v by metis
  then obtain e where g: "g = Some e" "diag_valid e" "c \<noteq> FD_OK \<longrightarrow> reported c e"
    by (auto simp: reports_def)
  have "reports (if c \<noteq> FD_OK then (c, g) else joint_seats w dec seats g)"
    using Cons.IH [OF g(2)] g by (auto simp: reports_def [of "(c, Some e)"] intro!: reports_if)
  moreover have "reports (fd_diag_set (Some d) FD_ERR_INVALID_ACTION FD_FIELD_ENTITY_ID (of_nat seat)
      (str ''seat actor IDs must be complete and canonical''))"
    using Cons.prems by (intro reports_set) (simp_all add: printable_str)
  ultimately show ?case
    unfolding joint_seats.simps Let_def v prod.case by simp
qed

lemma joint_validate_reports: "diag_valid d \<Longrightarrow> reports (fd_joint_validate w dec (Some d))"
  unfolding fd_joint_validate_def
  by (auto intro!: reported_intro joint_seats_reports simp: printable_str)

lemma validate_diag:
  "fst (fd_world_validate_internal (Some w) (Some rep) diag) =
     (if world_valid w then fd_diag_ok diag
      else fd_diag_set diag FD_ERR_STATE FD_FIELD_NONE
        (vr_first_failed_tile_index (the (snd (fd_world_validate_internal (Some w) (Some rep) diag))))
        (str ''world invariant validation failed''))"
proof -
  have "fst (fd_world_validate_internal (Some w) (Some rep) diag) = fd_diag_ok diag \<or>
      fst (fd_world_validate_internal (Some w) (Some rep) diag) = fd_diag_set diag FD_ERR_STATE FD_FIELD_NONE
        (vr_first_failed_tile_index (the (snd (fd_world_validate_internal (Some w) (Some rep) diag))))
        (str ''world invariant validation failed'')"
    by (auto simp: fd_world_validate_internal_def Let_def split: prod.splits)
  then show ?thesis
    using validate_OK_iff [of w rep diag] by (auto simp: fd_diag_ok_def)
qed

lemma scan_invalid:
  assumes "\<not> world_valid w"
  shows "scan_sum (step_phase d) step_positions (w, r, diag) =
    Inl (fst (fd_world_validate_internal (Some w) (Some blank_report) diag), w)"
proof -
  have p: "step_positions = (0, 0) # tl step_positions"
    by (simp add: step_positions_def upt_rec [of 0])
  obtain c g rep where v: "fd_world_validate_internal (Some w) (Some blank_report) diag = ((c, g), rep)"
    by (metis prod.exhaust)
  then have "c \<noteq> FD_OK" using validate_OK_iff [of w blank_report diag] assms by simp
  then have "step_phase d (0, 0) (w, r, diag) = Inl ((c, g), w)"
    by (simp add: step_phase_def Let_def v)
  then show ?thesis by (subst p) (simp add: v)
qed

text \<open>Every code of the joint validation is one a replay may audit.\<close>

lemma action_validate_codes:
  "fst (fd_action_validate (Some w) actor (Some a) diag) \<noteq> FD_OK \<Longrightarrow>
     fd_replay_result_is_auditable (fst (fd_action_validate (Some w) actor (Some a) diag))"
  by (auto simp: fd_action_validate_def fd_replay_result_is_auditable_def split: option.splits if_splits)

lemma joint_seats_codes:
  "fst (joint_seats w d seats diag) \<noteq> FD_OK \<Longrightarrow> fd_replay_result_is_auditable (fst (joint_seats w d seats diag))"
proof (induction seats arbitrary: diag)
  case (Cons seat seats)
  obtain c g where v: "fd_action_validate (Some w) (sd_actor_id (jd_seats d ! seat))
      (Some (sd_action (jd_seats d ! seat))) diag = (c, g)" by fastforce
  have "c \<noteq> FD_OK \<Longrightarrow> fd_replay_result_is_auditable c"
    using action_validate_codes [of w _ _ diag] v by (metis fst_conv)
  then show ?case
    using Cons unfolding joint_seats.simps Let_def v prod.case
    by (auto simp: fd_replay_result_is_auditable_def [of FD_ERR_INVALID_ACTION] split: if_splits)
qed simp

lemma joint_codes:
  "fst (fd_joint_validate w d diag) \<noteq> FD_OK \<Longrightarrow> fd_replay_result_is_auditable (fst (fd_joint_validate w d diag))"
  using joint_seats_codes [of w d "[0..<2]" diag]
  by (auto simp: fd_joint_validate_def fd_replay_result_is_auditable_def split: if_splits)

text \<open>A step with a current output struct and diagnostic that is refused.\<close>

lemma step_refused:
  assumes rej: "\<not> step_accepts w d blank_step" and g0: "diag_valid g0"
  obtains c g where "fd_world_step (Some w) (Some d) (Some blank_step) (Some g0) =
      ((c, Some g), Some w, Some blank_step)" "c \<noteq> FD_OK" "reported c g"
    "world_valid w \<Longrightarrow> fd_replay_result_is_auditable c"
proof -
  have hdr: "fd_output_struct_valid (Some (sr_struct_size blank_step, sr_abi_version blank_step)) 5112"
    by (simp add: blank_step_def fd_output_struct_valid_def)
  obtain c g where j: "fd_joint_validate w d (Some g0) = (c, g)" by fastforce
  then obtain g1 where g: "g = Some g1" "diag_valid g1" "c \<noteq> FD_OK \<Longrightarrow> reported c g1"
    using joint_validate_reports [OF g0, of w d] by (auto simp: reports_def)
  consider (joint) "c \<noteq> FD_OK" | (tick) "c = FD_OK" "w_tick w > - 1 - FD_OPERATIONAL_TICKS"
    | (invalid) "c = FD_OK" "\<not> w_tick w > - 1 - FD_OPERATIONAL_TICKS" "\<not> world_valid w"
    using rej fd_joint_validate_OK [of w d "Some g0"] j hdr
    by (auto simp: step_accepts_def fd_output_struct_valid_def)
  then show thesis
  proof cases
    case joint
    then have "fd_replay_result_is_auditable c" using joint_codes [of w d "Some g0"] j by simp
    then show thesis using that [of c g1] joint j g hdr by (simp add: fd_world_step_def)
  next
    case tick
    obtain g2 where "fd_diag_set (Some g1) FD_ERR_CAPACITY FD_FIELD_TICK 0 (str ''tick counter would overflow'') =
        (FD_ERR_CAPACITY, Some g2)" "reported FD_ERR_CAPACITY g2"
      using diag_set_reported [OF g(2), of 16 "str ''tick counter would overflow''" FD_ERR_CAPACITY 0]
      by (auto simp: printable_str)
    then show thesis
      using that [of FD_ERR_CAPACITY g2] tick j g hdr
      by (simp add: fd_world_step_def fd_replay_result_is_auditable_def)
  next
    case invalid
    obtain i where "fst (fd_world_validate_internal (Some w) (Some blank_report) g) =
        fd_diag_set g FD_ERR_STATE FD_FIELD_NONE i (str ''world invariant validation failed'')"
      using validate_diag [of w blank_report g] invalid(3) by auto
    moreover obtain g2 where "fd_diag_set (Some g1) FD_ERR_STATE FD_FIELD_NONE i
        (str ''world invariant validation failed'') = (FD_ERR_STATE, Some g2)" "reported FD_ERR_STATE g2"
      using diag_set_reported [OF g(2), of 0 "str ''world invariant validation failed''" FD_ERR_STATE i]
      by (auto simp: printable_str)
    ultimately show thesis
      using that [of FD_ERR_STATE g2] invalid j g hdr
      by (simp add: fd_world_step_def scan_invalid)
  qed
qed

end
