(* ===== verification/FD_Authentic.thy ===== *)
theory FD_Authentic
  imports FD_Opened FD_Reject
begin

text \<open>
  The abstract specification of a replay: an interleaving of accepted and rejected attempts of one
  tick-zero world, as a relation.  Opening is proved to accept only files whose records and audits are
  such a run of the world their save holds, and advancing to follow it.
\<close>

unbundle bit_operations_syntax

section \<open>What a replay records\<close>

text \<open>A transition record is true of the world before it, an audit record of the world it was tried on.\<close>

definition record_true :: "fd_world \<Rightarrow> fd_replay_record \<Rightarrow> bool" where
  "record_true w r \<longleftrightarrow> step_accepts w (rr_decision r) blank_step \<and>
     rr_tick_before r = w_tick w \<and> rr_tick_after r = w_tick (stepped_world w) \<and>
     rr_pre_hash r = w_state_sha256 w \<and> rr_post_hash r = w_state_sha256 (stepped_world w) \<and>
     rr_event_hash r = sha256 []"

definition audit_true :: "fd_world \<Rightarrow> fd_replay_audit \<Rightarrow> bool" where
  "audit_true w a \<longleftrightarrow> \<not> step_accepts w (ra_decision a) blank_step \<and> ra_tick a = w_tick w \<and>
     (\<exists>g. fd_world_step (Some w) (Some (ra_decision a)) (Some blank_step) (Some fd_diagnostic_init) =
            ((ra_result a, Some g), Some w, Some blank_step) \<and>
          dg_code g = ra_result a \<and> dg_field_id g = ra_field_id a \<and> dg_item_index g = ra_item_index a \<and>
          ra_message_length a = of_nat (message_scan (dg_message g)) \<and>
          take (message_scan (dg_message g)) (ra_message a) =
            take (message_scan (dg_message g)) (dg_message g))"

text \<open>
  \<open>plays k w records audits v\<close>: from attempt \<open>k\<close> on, starting in world \<open>w\<close>, the attempts are the
  audited ones at their indices and the recorded ones everywhere else, and end in world \<open>v\<close>.
\<close>

inductive plays ::
    "nat \<Rightarrow> fd_world \<Rightarrow> fd_replay_record list \<Rightarrow> fd_replay_audit list \<Rightarrow> fd_world \<Rightarrow> bool" where
  finished: "plays k w [] [] w"
| accepted: "record_true w r \<Longrightarrow> (\<And>a as. audits = a # as \<Longrightarrow> ra_attempt_index a \<noteq> of_nat k) \<Longrightarrow>
     plays (Suc k) (stepped_world w) records audits v \<Longrightarrow> plays k w (r # records) audits v"
| rejected: "audit_true w a \<Longrightarrow> ra_attempt_index a = of_nat k \<Longrightarrow>
     plays (Suc k) w records audits v \<Longrightarrow> plays k w records (a # audits) v"

inductive_cases plays_none: "plays k w [] [] v"

definition world_at :: "fd_world \<Rightarrow> nat \<Rightarrow> fd_world" where
  "world_at w i = (stepped_world ^^ i) w"

lemma world_at_simps [simp]: "world_at w 0 = w" "world_at (stepped_world w) i = world_at w (Suc i)"
  by (simp_all add: world_at_def funpow_swap1)

lemma world_at_Suc: "world_at w (Suc i) = stepped_world (world_at w i)"
  by (simp add: world_at_def)

text \<open>The records of a run are true of the worlds the accepted steps go through.\<close>

lemma plays_records:
  "plays k w records audits v \<Longrightarrow>
     (\<forall>i<length records. record_true (world_at w i) (records ! i)) \<and> v = world_at w (length records)"
proof (induction rule: plays.induct)
  case (accepted w r audits k records v)
  then show ?case
    by (auto simp: nth_Cons less_Suc_eq_0_disj split: nat.splits)
qed auto

lemma plays_length:
  "plays k w records audits v \<Longrightarrow> a \<in> set audits \<Longrightarrow> k + length records + length audits < 2 ^ 64 \<Longrightarrow>
     k \<le> unat (ra_attempt_index a) \<and> unat (ra_attempt_index a) < k + length records + length audits"
proof (induction rule: plays.induct)
  case (rejected w a' k records audits v)
  then show ?case by (auto simp: unat_of_nat_u64)
qed auto

section \<open>Re-execution checks the run\<close>

lemma event_hash_step: "sr_event_sha256 (step_report w d) = sha256 []"
  by (simp add: step_report_def)

lemma tick_moves: "w_tick (stepped_world w) \<noteq> w_tick w"
  by (simp add: stepped_world_eq)

text \<open>The two outcomes of an attempt made with fresh outputs.\<close>

lemma attempt_cases:
  obtains (accept) g where "step_accepts w d blank_step"
      "fd_world_step (Some w) (Some d) (Some blank_step) (Some fd_diagnostic_init) =
        ((FD_OK, g), Some (stepped_world w), Some (step_report w d))"
  | (refuse) c g where "\<not> step_accepts w d blank_step"
      "fd_world_step (Some w) (Some d) (Some blank_step) (Some fd_diagnostic_init) =
        ((c, Some g), Some w, Some blank_step)" "c \<noteq> FD_OK" "reported c g"
      "world_valid w \<Longrightarrow> fd_replay_result_is_auditable c"
proof (cases "step_accepts w d blank_step")
  case True
  then show thesis using fd_world_step_accepted [OF True, of "Some fd_diagnostic_init"] accept by blast
next
  case False
  then show thesis using step_refused [OF False diag_valid_init] refuse by metis
qed

lemma verify_attempt_Inr:
  assumes "verify_attempt records audits n k diag i (Some w, a, j) = Inr st"
  shows "(j < k \<and> ra_attempt_index (audits ! unat j) = of_nat i \<and>
      (ra_tick (audits ! unat j) = w_tick w \<longrightarrow> audit_true w (audits ! unat j)) \<and> st = (Some w, a, j + 1)) \<or>
    (\<not> (j < k \<and> ra_attempt_index (audits ! unat j) = of_nat i) \<and> a < n \<and>
      record_true w (records ! unat a) \<and> st = (Some (stepped_world w), a + 1, j))"
proof (cases "j < k \<and> ra_attempt_index (audits ! unat j) = of_nat i")
  case True
  let ?a = "audits ! unat j"
  show ?thesis
  proof (cases rule: attempt_cases [of w "ra_decision ?a"])
    case (accept g)
    then have "audit_mismatch ?a FD_OK (the g) w (stepped_world w)"
      using tick_moves [of w] by (simp add: audit_mismatch_def Let_def)
    then show ?thesis using assms True accept by (simp add: verify_attempt_def Let_def)
  next
    case (refuse c g)
    then have "\<not> audit_mismatch ?a c g w w" and "st = (Some w, a, j + 1)"
      using assms True by (auto simp: verify_attempt_def Let_def split: if_splits)
    then show ?thesis using True refuse by (auto simp: audit_true_def audit_mismatch_def Let_def)
  qed
next
  case False
  let ?r = "records ! unat a"
  have an: "\<not> a \<ge> n" and pre: "rr_tick_before ?r = w_tick w" "rr_pre_hash ?r = w_state_sha256 w"
    using assms False by (auto simp: verify_attempt_def Let_def split: if_splits)
  show ?thesis
  proof (cases rule: attempt_cases [of w "rr_decision ?r"])
    case (accept g)
    then show ?thesis
      using assms False an pre
      by (auto simp: verify_attempt_def Let_def record_true_def event_hash_step split: if_splits)
  next
    case (refuse c g)
    then show ?thesis using assms False an pre by (simp add: verify_attempt_def Let_def)
  qed
qed

lemma record_true_tick:
  "record_true w r \<Longrightarrow> w_tick (stepped_world w) = w_tick w + 24"
  by (simp add: stepped_world_eq)

lemma word_next:
  fixes a b :: "'a::len word"
  assumes "a < b"
  shows "unat (a + 1) = Suc (unat a)" and "a + 1 \<le> b"
proof -
  have "Suc (unat a) \<le> unat b" using assms by (simp add: word_less_nat_alt)
  moreover have "a + 1 = of_nat (Suc (unat a))" by simp
  ultimately show u: "unat (a + 1) = Suc (unat a)"
    using unsigned_less [of b] by (metis order_le_less_trans of_nat_inverse)
  show "a + 1 \<le> b" using \<open>Suc (unat a) \<le> unat b\<close> by (simp add: word_le_nat_alt u)
qed

lemma drop_next: "i < length xs \<Longrightarrow> j = Suc i \<Longrightarrow> drop i xs = xs ! i # drop j xs"
  by (simp add: Cons_nth_drop_Suc)

text \<open>The merge loop accepts only runs.  An audit's tick is 24 times the accepted attempts before it.\<close>

lemma verify_plays:
  assumes "scan_sum (verify_attempt records audits n k diag) [i..<N] (Some w, a, j) = Inr (w', n, k)"
    and records: "length records = unat n" and audits: "length audits = unat k"
    and "a \<le> n" and "j \<le> k" and "i \<le> N"
    and ticks: "\<And>m. m < length audits \<Longrightarrow> ra_tick (audits ! m) = (ra_attempt_index (audits ! m) - of_nat m) * 24"
    and "w_tick w = a * 24" and "(of_nat i :: u64) = a + of_nat (unat j)"
  shows "\<exists>v. w' = Some v \<and> plays i w (drop (unat a) records) (drop (unat j) audits) v"
  using assms(1,4-6,8,9)
proof (induction "N - i" arbitrary: i w a j)
  case 0
  then have "w' = Some w" "a = n" "j = k" by simp_all
  then show ?case using records audits by (auto intro: plays.finished)
next
  case (Suc m)
  then have "[i..<N] = i # [Suc i..<N]" by (simp add: upt_conv_Cons)
  then obtain st where at: "verify_attempt records audits n k diag i (Some w, a, j) = Inr st"
    and rest: "scan_sum (verify_attempt records audits n k diag) [Suc i..<N] st = Inr (w', n, k)"
    using Suc.prems(1) by (auto split: sum.splits)
  have m: "m = N - Suc i" "Suc i \<le> N" using Suc.hyps(2) by auto
  from verify_attempt_Inr [OF at] show ?case
  proof (elim disjE conjE)
    let ?a = "audits ! unat j"
    assume j: "j < k" and idx: "ra_attempt_index ?a = of_nat i" and st: "st = (Some w, a, j + 1)"
      and true: "ra_tick ?a = w_tick w \<longrightarrow> audit_true w ?a"
    have lt: "unat j < length audits" using j audits by (simp add: word_less_nat_alt)
    have "ra_tick ?a = w_tick w" using ticks [OF lt] Suc.prems(5,6) idx by simp
    then have "audit_true w ?a" using true by blast
    moreover have "(of_nat (Suc i) :: u64) = a + of_nat (unat (j + 1))"
      using Suc.prems(6) unfolding word_next(1) [OF j] by simp
    then have "\<exists>v. w' = Some v \<and> plays (Suc i) w (drop (unat a) records) (drop (unat (j + 1)) audits) v"
      by (rule Suc.hyps(1) [OF m(1) rest [unfolded st] Suc.prems(2) word_next(2) [OF j] m(2) Suc.prems(5)])
    ultimately show ?thesis
      using idx drop_next [OF lt word_next(1) [OF j]] by (auto intro: plays.rejected)
  next
    let ?r = "records ! unat a"
    assume other: "\<not> (j < k \<and> ra_attempt_index (audits ! unat j) = of_nat i)" and a: "a < n"
      and true: "record_true w ?r" and st: "st = (Some (stepped_world w), a + 1, j)"
    have lt: "unat a < length records" using a records by (simp add: word_less_nat_alt)
    have "w_tick (stepped_world w) = (a + 1) * 24" "(of_nat (Suc i) :: u64) = a + 1 + of_nat (unat j)"
      using Suc.prems(5,6) record_true_tick [OF true] by (simp_all add: distrib_right)
    then have "\<exists>v. w' = Some v \<and> plays (Suc i) (stepped_world w) (drop (unat (a + 1)) records) (drop (unat j) audits) v"
      by (rule Suc.hyps(1) [OF m(1) rest [unfolded st] word_next(2) [OF a] Suc.prems(3) m(2)])
    moreover have "ra_attempt_index x \<noteq> of_nat i" if "drop (unat j) audits = x # xs" for x xs
    proof -
      have "unat j < length audits" using that by (metis drop_all list.distinct(1) not_less)
      then have "j < k" and "x = audits ! unat j"
        using audits that drop_next [OF \<open>unat j < length audits\<close> refl] by (simp_all add: word_less_nat_alt)
      then show ?thesis using other by simp
    qed
    ultimately show ?thesis
      using true drop_next [OF lt word_next(1) [OF a]] by (auto intro: plays.accepted)
  qed
qed

section \<open>Sections lie inside the file\<close>

lemma replay_parse_loop_invariant:
  assumes "replay_parse_loop b f d st = Inr st'" and "I st"
    and "\<And>st st'. I st \<Longrightarrow> parse_replay_section b f d st = Inr st' \<Longrightarrow> I st'"
  shows "I st'"
  using assms
proof (induction b f d st rule: replay_parse_loop.induct)
  case (1 b f d st)
  show ?case
  proof (cases "fst st < f")
    case True
    then obtain st1 where st1: "parse_replay_section b f d st = Inr st1" "replay_parse_loop b f d st1 = Inr st'"
      using "1.prems"(1) by (auto simp: replay_parse_loop.simps [of b f d st] split: sum.splits)
    then show ?thesis using "1.IH" [OF True st1(1) st1(2)] "1.prems"(2,3) by blast
  qed (use "1.prems" in \<open>simp add: replay_parse_loop.simps\<close>)
qed

definition section_fits :: "fd_replay_section \<Rightarrow> bool" where
  "section_fits s \<longleftrightarrow> (rs_present s \<longrightarrow> unat (rs_length s) + 32 \<le> length (rs_payload s))"

lemma parse_replay_section_fits:
  assumes "parse_replay_section bytes footer diag st = Inr st'"
    and "list_all section_fits (snd (snd (snd st)))" and "footer + 32 \<le> length bytes"
  shows "list_all section_fits (snd (snd (snd st')))"
proof -
  have f: "unat framed = 48 + unat len" if "fd_u64_add 48 len = Some framed" for len framed :: u64
    using fd_u64_add_unat [OF that] by simp
  have upd: "list_all P (xs[i := x])" if "list_all P xs" "P x" for P :: "fd_replay_section \<Rightarrow> bool" and xs i x
    using that set_update_subset_insert [of xs i x] by (fastforce simp: list_all_iff)
  obtain pos prev n secs where st: "st = (pos, prev, n, secs)" by (cases st)
  show ?thesis
    using assms
    by (auto simp: st parse_replay_section_def Let_def section_fits_def dest!: f intro!: upd
        split: if_splits option.splits)
qed

lemma replay_sections_fit:
  assumes "fd_parse_replay_sections bytes n diag = Inr (secs, k)" and "32 \<le> n" and "n \<le> length bytes"
    and "1 \<le> i" and "i \<le> 5"
  shows "length (section_slice (secs ! i)) = unat (rs_length (secs ! i))"
proof -
  from assms(1) obtain p q m where l: "replay_parse_loop bytes (n - 32) diag (8, 0, 0, replicate 6 no_replay_section)
      = Inr (p, q, m, secs)"
    and present: "find (\<lambda>tag. \<not> rs_present (secs ! tag)) [1..<6] = None"
    by (auto simp: fd_parse_replay_sections_def Let_def split: sum.splits if_splits option.splits)
  have "list_all section_fits (snd (snd (snd (p, q, m, secs)))) \<and> length (snd (snd (snd (p, q, m, secs)))) = 6"
  proof (rule replay_parse_loop_invariant [OF l], goal_cases)
    case 1
    then show ?case by (simp add: list_all_iff section_fits_def no_replay_section_def)
  next
    case (2 st st')
    then have "length (snd (snd (snd st'))) = length (snd (snd (snd st)))"
      by (auto simp: parse_replay_section_def Let_def split: prod.splits if_splits option.splits)
    then show ?case using 2 parse_replay_section_fits assms(2,3) by auto
  qed
  then have "section_fits (secs ! i)" using assms(5) by (simp add: list_all_length)
  moreover have "rs_present (secs ! i)" using present assms(4,5) by (auto simp: find_None_iff)
  ultimately show ?thesis by (simp add: section_fits_def section_slice_def)
qed

section \<open>An opened replay is authentic\<close>

definition replay_records :: "fd_replay \<Rightarrow> fd_replay_record list" where
  "replay_records rp = (case rp_records rp of None \<Rightarrow> [] | Some rs \<Rightarrow> rs)"

definition replay_audits :: "fd_replay \<Rightarrow> fd_replay_audit list" where
  "replay_audits rp = (case rp_audits rp of None \<Rightarrow> [] | Some as \<Rightarrow> as)"

text \<open>The world the handle's save holds is \<open>w\<close>, and its arrays are a run of \<open>w\<close>.\<close>

definition authentic :: "fd_replay \<Rightarrow> fd_world \<Rightarrow> bool" where
  "authentic rp w \<longleftrightarrow> storable w \<and> w_tick w = 0 \<and> reloaded (rp_context rp) w = w \<and>
     rp_tick_zero_hash rp = w_state_sha256 w \<and>
     length (replay_records rp) = unat (rp_record_count rp) \<and>
     length (replay_audits rp) = unat (rp_audit_count rp) \<and>
     (\<exists>v. plays 0 w (replay_records rp) (replay_audits rp) v)"

lemma scan_upt_invariant:
  assumes "scan_sum f [a..<N] s = Inr s'" and "I a s" and "a \<le> N"
    and "\<And>i s s'. a \<le> i \<Longrightarrow> i < N \<Longrightarrow> I i s \<Longrightarrow> f i s = Inr s' \<Longrightarrow> I (Suc i) s'"
  shows "I N s'"
  using assms
proof (induction "N - a" arbitrary: a s)
  case (Suc m)
  then obtain s1 where s1: "f a s = Inr s1" "scan_sum f [Suc a..<N] s1 = Inr s'"
    by (auto simp: upt_conv_Cons split: sum.splits)
  have "I (Suc a) s1" using Suc.prems Suc.hyps(2) s1(1) by auto
  then show ?case using Suc.hyps(1) [of "Suc a" s1] Suc.hyps(2) s1(2) Suc.prems(4) by auto
qed simp

lemma open_records_length:
  assumes "scan_sum (open_record sections h actors) [0..<N] ([], d) = Inr (records, d')"
  shows "length records = N"
proof -
  have "length (fst (records, d')) = N"
    by (rule scan_upt_invariant [OF assms, where I = "\<lambda>i st. length (fst st) = i"])
      (auto simp: open_record_def split: prod.splits if_splits)
  then show ?thesis by simp
qed

lemma open_audits_ticks:
  assumes "scan_sum (open_audit sections n t) [0..<N] ([], p, d) = Inr (audits, p', d')"
  shows "length audits = N" and
    "\<And>m. m < N \<Longrightarrow> ra_tick (audits ! m) = (ra_attempt_index (audits ! m) - of_nat m) * 24"
proof -
  have "length (fst (audits, p', d')) = N \<and> (\<forall>m<N. ra_tick (fst (audits, p', d') ! m) =
      (ra_attempt_index (fst (audits, p', d') ! m) - of_nat m) * 24)"
    by (rule scan_upt_invariant [OF assms, where I = "\<lambda>i st. length (fst st) = i \<and>
        (\<forall>m<i. ra_tick (fst st ! m) = (ra_attempt_index (fst st ! m) - of_nat m) * 24)"])
      (auto simp: open_audit_def Let_def nth_append less_Suc_eq split: prod.splits if_splits)
  then show "length audits = N" and
    "\<And>m. m < N \<Longrightarrow> ra_tick (audits ! m) = (ra_attempt_index (audits ! m) - of_nat m) * 24"
    by simp_all
qed

lemma verify_attempt_error: "verify_attempt records audits n k diag i st = Inl e \<Longrightarrow> fst (fst (fst e)) \<noteq> FD_OK"
  by (auto simp: verify_attempt_def Let_def split: prod.splits if_splits)

lemma verify_attempts_plays:
  assumes "verify_attempts records audits n k t diag (Some w) = (((FD_OK, d), s), w')"
    and "length records = unat n" and "length audits = unat k" and "w_tick w = 0"
    and "\<And>m. m < length audits \<Longrightarrow> ra_tick (audits ! m) = (ra_attempt_index (audits ! m) - of_nat m) * 24"
  shows "\<exists>v. w' = Some v \<and> plays 0 w records audits v"
proof -
  have err: "fst (fst (fst e)) \<noteq> FD_OK" if "scan_sum (verify_attempt records audits n k diag) ps st = Inl e" for ps st e
    using verify_attempt_error that by (rule scan_sum_error)
  have "scan_sum (verify_attempt records audits n k diag) [0..<unat t] (Some w, 0, 0) = Inr (w', n, k)"
    using assms(1) by (auto simp: verify_attempts_def dest: err split: sum.splits prod.splits if_splits)
  from verify_plays [OF this assms(2,3) _ _ _ assms(5)] assms(4) show ?thesis by simp
qed

lemma open_contents_run:
  fixes ctx :: "'u fd_context"
  assumes "open_contents ctx sections rp actors t diag = (ctx', Inr (records, audits, d))"
  obtains c :: "'u fd_context" and d1 c1 d2 w v where
    "fd_world_load (Some c) (Some (rp_tick_zero_save rp)) (rp_tick_zero_save_size rp) (Some None) d1 =
       ((FD_OK, d2), c1, Some (Some w))" "cx_id c = cx_id ctx"
    "length records = unat (rp_record_count rp)" "length audits = unat (rp_audit_count rp)"
    "w_tick w = 0 \<Longrightarrow> plays 0 w records audits v"
proof -
  from assms obtain d1 p d2 r c1 out where
    recs: "scan_sum (open_record sections (rp_tick_zero_hash rp) actors) [0..<unat (rp_record_count rp)] ([], diag)
      = Inr (records, d1)"
    and auds: "scan_sum (open_audit sections (rp_record_count rp) t) [0..<unat (rp_audit_count rp)] ([], - 1, d1)
      = Inr (audits, p, d2)"
    and load: "fd_world_load (Some ctx) (Some (rp_tick_zero_save rp)) (rp_tick_zero_save_size rp) (Some None) d2
      = (r, c1, out)" and ok: "fst r = FD_OK"
    and verify: "\<exists>d3 s w'. verify_attempts records audits (rp_record_count rp) (rp_audit_count rp) t (snd r) (the out)
      = (((FD_OK, d3), s), w')"
    by (fastforce simp: open_contents_def Let_def split: sum.splits prod.splits if_splits)
  obtain w where w: "out = Some (Some w)"
    using load ok by (cases rule: load_cases) auto
  obtain d3 s w' where v: "verify_attempts records audits (rp_record_count rp) (rp_audit_count rp) t (snd r) (Some w)
      = (((FD_OK, d3), s), w')" using verify w by auto
  note lens = open_records_length [OF recs] open_audits_ticks(1) [OF auds]
  have "w_tick w = 0 \<Longrightarrow> \<exists>v. plays 0 w records audits v"
    using verify_attempts_plays [OF v lens] open_audits_ticks(2) [OF auds] lens by auto
  then obtain v where "w_tick w = 0 \<Longrightarrow> plays 0 w records audits v" by blast
  then show thesis using that [of ctx d2 "snd r" c1 w v] load ok w lens by (cases r) simp
qed

lemma open_allocate_id: "open_allocate ctx s r a = (ctx', m) \<Longrightarrow> cx_id ctx' = cx_id ctx"
  using open_allocate_charged charged_fields(3) by blast

lemma dispose_id [simp]: "cx_id (dispose ctx w) = cx_id ctx"
  by (cases w) (simp_all add: dispose_def fd_world_destroy_def)

lemma open_sections_authentic:
  fixes ctx :: "'u fd_context"
  assumes o: "open_sections ctx sections k diag = ((FD_OK, d), ctx', Some rp)"
    and slice: "length (section_slice (sections ! 2)) = unat (rs_length (sections ! 2))"
  obtains w d1 d2 c1 and c :: "'u fd_context" where "authentic rp w" "rp_context rp = cx_id ctx" "rp_cursor rp = 0"
    "fd_world_load (Some c) (Some (rp_tick_zero_save rp)) (rp_tick_zero_save_size rp) (Some None) d1 =
       ((FD_OK, d2), c1, Some (Some w))" "cx_id c = cx_id ctx"
  using o
proof (cases rule: open_sections_cases)
  case (accepted t w d0 c1 rb ab c2 c3 records audits d1 rp0)
  let ?s = "section_slice (sections ! 2)" and ?n = "rs_length (sections ! 2)"
  have st: "storable w" "reloaded (cx_id ctx) w = w"
    using load_storable [OF accepted(3)] slice by simp_all
  have save: "rp_tick_zero_save rp0 = ?s" "rp_tick_zero_save_size rp0 = ?n"
    by (simp_all add: accepted(8) fresh_replay_def)
  have ids: "cx_id c2 = cx_id ctx"
    using open_allocate_id [OF accepted(5)] load_charged [of ctx "Some ?s" ?n None diag] accepted(3)
    by (simp add: charged_fields)
  obtain c :: "'u fd_context" and e1 c4 e2 w2 v where
    again: "fd_world_load (Some c) (Some ?s) ?n (Some None) e1 = ((FD_OK, e2), c4, Some (Some w2))"
    and id: "cx_id c = cx_id ctx"
    and lens: "length records = unat (rp_record_count rp0)" "length audits = unat (rp_audit_count rp0)"
    and run: "w_tick w2 = 0 \<Longrightarrow> plays 0 w2 records audits v"
    using open_contents_run [OF accepted(9)] ids save by (metis dispose_id)
  have w2: "w2 = w" using load_same [OF again accepted(3)] id by simp
  have rp: "rp = opened rp0 records audits" using accepted(12) by simp
  have "rb = 0 \<Longrightarrow> records = []" "ab = 0 \<Longrightarrow> audits = []"
    using lens fd_u64_mul_unat [OF accepted(6)] fd_u64_mul_unat [OF accepted(7)]
    by (auto simp: accepted(8) fresh_replay_def)
  then have arrays: "replay_records rp = records" "replay_audits rp = audits"
    by (auto simp: rp opened_def replay_records_def replay_audits_def accepted(8) fresh_replay_def word_gt_0)
  have "authentic rp w"
    using st ids run [unfolded w2, OF accepted(4)] lens accepted(4)
    by (auto simp: authentic_def arrays) (auto simp: rp opened_def accepted(8) fresh_replay_def)
  moreover have "rp_context rp = cx_id ctx" "rp_cursor rp = 0" "rp_tick_zero_save rp = ?s"
    "rp_tick_zero_save_size rp = ?n"
    by (simp_all add: rp opened_def accepted(8) fresh_replay_def ids)
  ultimately show thesis using that [where w = w] again id w2 by auto
qed simp

end
