(* ===== verification/FD_Advance.thy ===== *)
theory FD_Advance
  imports FD_Authentic
begin

text \<open>
  Playing an authentic replay back: the cursor's world is always a world of the run, and advancing
  moves it along the run or changes nothing.
\<close>

unbundle bit_operations_syntax

section \<open>The worlds of a run\<close>

lemma stepped_retick: "stepped_world w = w\<lparr>w_tick := w_tick (stepped_world w),
    w_state_sha256 := w_state_sha256 (stepped_world w)\<rparr>"
  by (simp add: stepped_world_eq)

lemma world_at_retick: "world_at w n = w\<lparr>w_tick := w_tick (world_at w n),
    w_state_sha256 := w_state_sha256 (world_at w n)\<rparr>"
proof (induction n)
  case (Suc n)
  let ?v = "world_at w n"
  have "world_at w (Suc n) = ?v\<lparr>w_tick := w_tick (world_at w (Suc n)),
      w_state_sha256 := w_state_sha256 (world_at w (Suc n))\<rparr>"
    unfolding world_at_Suc by (rule stepped_retick)
  also have "\<dots> = w\<lparr>w_tick := w_tick (world_at w (Suc n)),
      w_state_sha256 := w_state_sha256 (world_at w (Suc n))\<rparr>"
    by (subst Suc) simp
  finally show ?case .
qed simp

lemma world_at_add: "world_at (world_at w m) n = world_at w (m + n)"
  by (simp add: world_at_def funpow_add add.commute [of m])

lemma reloaded_retick:
  "reloaded i (w\<lparr>w_tick := t, w_state_sha256 := h\<rparr>) = (reloaded i w)\<lparr>w_tick := t, w_state_sha256 := h\<rparr>"
  by (simp add: reloaded_def)

lemma reloaded_world_at: "reloaded i w = w \<Longrightarrow> reloaded i (world_at w n) = world_at w n"
  by (subst (1 2) world_at_retick) (simp add: reloaded_retick)

text \<open>A run in which every world before the last accepts another step.\<close>

lemma run_sound:
  assumes "sound w" and "\<And>i. i < n \<Longrightarrow> w_tick (world_at w i) \<le> - 25"
  shows "sound (world_at w n)"
  using assms(2)
proof (induction n)
  case (Suc n)
  then show ?case unfolding world_at_Suc by (intro sound_stepped) simp_all
qed (simp add: assms(1))

lemma authentic_record:
  assumes "authentic rp w" and "i < unat (rp_record_count rp)"
  shows "record_true (world_at w i) (replay_records rp ! i)"
  using assms plays_records unfolding authentic_def by metis

lemma authentic_tick: "authentic rp w \<Longrightarrow> i < unat (rp_record_count rp) \<Longrightarrow> w_tick (world_at w i) \<le> - 25"
  using authentic_record [of rp w i] by (simp add: record_true_def step_accepts_def)

lemma authentic_storable:
  assumes "authentic rp w" and "i < unat (rp_record_count rp)"
  shows "storable (world_at w i)"
proof -
  have "sound w" using assms(1) by (simp add: authentic_def storable_sound)
  then have "sound (world_at w i)"
    using authentic_tick [OF assms(1)] assms(2) by (intro run_sound) simp_all
  then show ?thesis using authentic_tick [OF assms] by (simp add: storable_sound)
qed

section \<open>Advancing\<close>

lemma replay_records_the: "0 < unat (rp_record_count rp) \<Longrightarrow> authentic rp w \<Longrightarrow> the (rp_records rp) = replay_records rp"
  by (auto simp: authentic_def replay_records_def split: option.splits)

lemma cursor_state_run:
  assumes a: "authentic rp w" and c: "rp_cursor rp \<le> rp_record_count rp"
  shows "cursor_state rp = (w_tick (world_at w (unat (rp_cursor rp))), w_state_sha256 (world_at w (unat (rp_cursor rp))))"
proof -
  consider (inside) "rp_cursor rp < rp_record_count rp" | (final) "rp_cursor rp = rp_record_count rp" "0 < rp_record_count rp"
    | (empty) "rp_cursor rp = 0" "rp_record_count rp = 0"
    using c by (cases "rp_record_count rp = 0") (auto simp: word_gt_0 order.order_iff_strict)
  then show ?thesis
  proof cases
    case inside
    then have i: "unat (rp_cursor rp) < unat (rp_record_count rp)" by (simp add: word_less_nat_alt)
    then show ?thesis
      using authentic_record [OF a i] inside replay_records_the [OF _ a]
      by (simp add: cursor_state_def record_true_def Let_def)
  next
    case final
    let ?n = "unat (rp_record_count rp)"
    have n: "0 < ?n" using final(2) by (simp add: word_less_nat_alt)
    then have "unat (rp_record_count rp - 1) = ?n - 1" by (intro unat_minus_one) (use n in auto)
    moreover have "record_true (world_at w (?n - 1)) (replay_records rp ! (?n - 1))"
      using authentic_record [OF a] n by simp
    moreover have "stepped_world (world_at w (?n - 1)) = world_at w ?n"
      using n by (metis world_at_Suc Suc_diff_1)
    ultimately show ?thesis
      using final replay_records_the [OF n a] by (simp add: cursor_state_def record_true_def Let_def)
  next
    case empty
    then show ?thesis using a by (simp add: cursor_state_def authentic_def)
  qed
qed

lemma advance_steps:
  assumes a: "authentic rp w" and "c = unat (rp_cursor rp)" and "c + n \<le> unat (rp_record_count rp)" and "i \<le> n"
  shows "\<exists>d'. scan_sum (advance_step rp) [i..<n] (Some (world_at w (c + i)), d) = Inr (Some (world_at w (c + n)), d')"
  using assms(4)
proof (induction "n - i" arbitrary: i d)
  case (Suc m)
  let ?v = "world_at w (c + i)" and ?r = "the (rp_records rp) ! (c + i)"
  have i: "c + i < unat (rp_record_count rp)" using Suc.hyps(2) assms(3) by simp
  have "record_true ?v ?r" using authentic_record [OF a i] replay_records_the [OF _ a] i by simp
  moreover from this obtain d1 where "fd_world_step (Some ?v) (Some (rr_decision ?r)) (Some blank_step) d =
      ((FD_OK, d1), Some (stepped_world ?v), Some (step_report ?v (rr_decision ?r)))"
    using fd_world_step_accepted [of ?v "rr_decision ?r" blank_step d] by (auto simp: record_true_def)
  ultimately have "advance_step rp i (Some ?v, d) = Inr (Some (world_at w (c + Suc i)), d1)"
    by (simp add: advance_step_def Let_def assms(2) [symmetric] record_true_def event_hash_step world_at_Suc)
  then show ?case
    using Suc.hyps(1) [of "Suc i" d1] Suc.hyps(2) by (simp add: upt_conv_Cons)
qed simp

end
