(* ===== verification/FD_Played.thy ===== *)
theory FD_Played
  imports FD_Advance
begin

text \<open>
  What a list of decisions records when it is played from a world: the transition record of every
  accepted attempt and the audit of every refused one, as functions of world and decisions.  This is
  the reference the two loops of \<open>fd_replay_build\<close> are compared with.
\<close>

unbundle bit_operations_syntax

section \<open>The record and the audit of one attempt\<close>

abbreviation accepts :: "fd_world \<Rightarrow> fd_joint_decision \<Rightarrow> bool" where
  "accepts w d \<equiv> step_accepts w d blank_step"

definition refusal :: "fd_world \<Rightarrow> fd_joint_decision \<Rightarrow> fd_diagnostic" where
  "refusal w d = the (snd (fst (fd_world_step (Some w) (Some d) (Some blank_step) (Some fd_diagnostic_init))))"

definition record_of :: "fd_world \<Rightarrow> fd_joint_decision \<Rightarrow> fd_replay_record" where
  "record_of w d = staged_record (step_report w d)"

definition audit_of :: "nat \<Rightarrow> fd_world \<Rightarrow> fd_joint_decision \<Rightarrow> fd_replay_audit" where
  "audit_of k w d =
     (let g = refusal w d in
      \<lparr>ra_attempt_index = of_nat k, ra_tick = w_tick w, ra_decision = d, ra_result = dg_code g,
       ra_field_id = dg_field_id g, ra_item_index = dg_item_index g,
       ra_message_length = of_nat (message_scan (dg_message g)), ra_message = dg_message g\<rparr>)"

lemma staged_seats: "length ss = 2 \<Longrightarrow> fold (\<lambda>seat ss. ss[seat := f (ss ! seat)]) [0..<2] ss = [f (ss ! 0), f (ss ! 1)]"
  by (auto simp: numeral_2_eq_2 length_Suc_conv upt_rec)

lemma staged_decision_eq:
  "length (jd_seats d) = 2 \<Longrightarrow> staged_decision d =
     d\<lparr>jd_struct_size := 136, jd_abi_version := 1,
       jd_seats := map (\<lambda>s. s\<lparr>sd_action := (sd_action s)\<lparr>ac_struct_size := 32, ac_abi_version := 1\<rparr>\<rparr>) (jd_seats d)\<rparr>"
  by (simp add: staged_decision_def stage_transition_def staged_seats)
    (auto simp: numeral_2_eq_2 length_Suc_conv)

lemma staged_accepted:
  assumes "decision_shape d" and "accepts w d"
  shows "accepts w (staged_decision d)"
  using assms
  by (simp add: staged_decision_eq decision_shape_def step_accepts_def canonical_decision_def pass_action_def)

lemma record_of_true: "decision_shape d \<Longrightarrow> accepts w d \<Longrightarrow> record_true w (record_of w d)"
  using staged_accepted [of d w]
  by (simp add: record_true_def record_of_def staged_record_def step_report_def stepped_world_eq)

lemma accepted_shape: "decision_shape d \<Longrightarrow> accepts w d \<Longrightarrow> length (w_state_sha256 w) = 32"
  by (simp add: decision_shape_def step_accepts_def canonical_decision_def)

lemma record_of_wire:
  assumes "decision_shape d" and "accepts w d"
  shows "record_wire (record_of w d)"
  using assms accepted_shape [OF assms]
  by (auto simp: record_wire_def record_of_def staged_record_def step_report_def staged_decision_eq
      decision_shape_def current_decision_def current_seat_def seat_shape_def stepped_world_eq state_hash_def)

lemma record_of_hash: "fd_hash_joint_decision_internal (staged_decision d) = fd_hash_joint_decision_internal d"
  if "decision_shape d"
  using that by (simp add: staged_decision_eq decision_shape_def fd_hash_joint_decision_internal_def upt_2 Let_def)

lemma no_staging_mismatch: "decision_shape d \<Longrightarrow> \<not> staging_mismatch (step_report w d) (staged_record (step_report w d))"
  using record_of_hash [of d] by (simp add: staging_mismatch_def staged_record_def step_report_def)

lemma record_of_canonical:
  assumes "accepts w d" and "w_tick w mod 24 = 0" and "0 < index \<Longrightarrow> 24 \<le> w_tick w" and "decision_shape d"
  shows "\<not> record_noncanonical index (record_of w d)"
  using assms
  by (auto simp: record_noncanonical_def record_of_def staged_record_def step_report_def step_accepts_def
      canonical_decision_def staged_decision_eq decision_shape_def)

text \<open>A refused attempt.\<close>

lemma refused_step:
  assumes "\<not> accepts w d"
  obtains c where "fd_world_step (Some w) (Some d) (Some blank_step) (Some fd_diagnostic_init) =
      ((c, Some (refusal w d)), Some w, Some blank_step)" "c \<noteq> FD_OK" "reported c (refusal w d)"
    "world_valid w \<Longrightarrow> fd_replay_result_is_auditable c"
  by (cases rule: attempt_cases [of w d]) (use assms that in \<open>simp_all add: refusal_def\<close>)

lemma reported_message: "reported c g \<Longrightarrow> message_field (of_nat (message_scan (dg_message g))) (dg_message g)"
  by (simp add: reported_def)

lemma audit_of_true: "\<not> accepts w d \<Longrightarrow> audit_true w (audit_of k w d)"
  by (frule refused_step) (auto simp: audit_true_def audit_of_def Let_def reported_def)

lemma audit_of_wire: "\<not> accepts w d \<Longrightarrow> decision_shape d \<Longrightarrow> audit_wire (audit_of k w d)"
  by (erule refused_step) (simp add: audit_wire_def audit_of_def Let_def reported_def)

lemma encode_audit_of:
  "fd_encode_audit (of_nat k) (w_tick w) d (refusal w d) = audit_encoding (audit_of k w d)"
  by (simp add: audit_encoding_def audit_of_def fd_encode_audit_def Let_def)

section \<open>Playing a list of decisions\<close>

primrec played_records :: "fd_world \<Rightarrow> fd_joint_decision list \<Rightarrow> fd_replay_record list" where
  "played_records w [] = []"
| "played_records w (d # ds) =
     (if accepts w d then record_of w d # played_records (stepped_world w) ds else played_records w ds)"

primrec played_audits :: "nat \<Rightarrow> fd_world \<Rightarrow> fd_joint_decision list \<Rightarrow> fd_replay_audit list" where
  "played_audits k w [] = []"
| "played_audits k w (d # ds) =
     (if accepts w d then played_audits (Suc k) (stepped_world w) ds
      else audit_of k w d # played_audits (Suc k) w ds)"

lemma played_length: "length (played_records w ds) + length (played_audits k w ds) = length ds"
  by (induction ds arbitrary: w k) simp_all

lemma played_audit_index:
  "a \<in> set (played_audits k w ds) \<Longrightarrow> \<exists>i\<ge>k. i < k + length ds \<and> ra_attempt_index a = of_nat i"
proof (induction ds arbitrary: w k)
  case (Cons d ds)
  consider (now) "a = audit_of k w d" | (later) v where "a \<in> set (played_audits (Suc k) v ds)"
    using Cons.prems by (auto split: if_splits)
  then show ?case
  proof cases
    case now
    then show ?thesis by (intro exI [of _ k]) (simp add: audit_of_def Let_def)
  next
    case later
    from Cons.IH [OF later] obtain i where "Suc k \<le> i" "i < Suc k + length ds" "ra_attempt_index a = of_nat i" by blast
    then show ?thesis by (intro exI [of _ i]) simp
  qed
qed simp

text \<open>The functions give a run of the model.\<close>

lemma plays_played:
  assumes "k + length ds < 2 ^ 64" and "\<forall>d\<in>set ds. decision_shape d"
  shows "plays k w (played_records w ds) (played_audits k w ds) (world_at w (length (played_records w ds)))"
  using assms
proof (induction ds arbitrary: w k)
  case (Cons d ds)
  show ?case
  proof (cases "accepts w d")
    case True
    have "ra_attempt_index a \<noteq> of_nat k" if "played_audits (Suc k) (stepped_world w) ds = a # as" for a as
    proof -
      have "a \<in> set (played_audits (Suc k) (stepped_world w) ds)" using that by simp
      from played_audit_index [OF this] obtain i where
        "Suc k \<le> i" "i < Suc k + length ds" "ra_attempt_index a = of_nat i" by blast
      then show ?thesis using Cons.prems(1) by (simp add: word_unat_eq_iff unat_of_nat_u64)
    qed
    moreover have "plays (Suc k) (stepped_world w) (played_records (stepped_world w) ds)
        (played_audits (Suc k) (stepped_world w) ds) (world_at (stepped_world w) (length (played_records (stepped_world w) ds)))"
      using Cons.prems by (intro Cons.IH) simp_all
    ultimately show ?thesis
      using True Cons.prems(2) record_of_true [of d w] by (auto intro!: plays.accepted)
  next
    case False
    then show ?thesis
      using Cons audit_of_true [OF False, of k] by (auto intro!: plays.rejected simp: audit_of_def Let_def)
  qed
qed (simp add: plays.finished)

end
