(* ===== verification/FD_Layout.thy ===== *)
theory FD_Layout
  imports FD_Played
begin

text \<open>
  The replay file as a value: five framed sections between magic and footer.  The lemmas on padded
  buffers say what the stores of the builder do to a zeroed buffer that is filled from the front.
\<close>

unbundle bit_operations_syntax

section \<open>The file\<close>

text \<open>The checkpoint after accepted attempt \<open>1024 * (i + 1)\<close>.\<close>

definition checkpoint_bytes :: "fd_world \<Rightarrow> nat \<Rightarrow> bytes" where
  "checkpoint_bytes w i =
     fd_store_u64_le (of_nat (1024 * Suc i)) @ fd_store_u64_le (of_nat (length (save_file w))) @
     save_file (world_at w (1024 * Suc i))"

definition manifest_bytes :: "nat \<Rightarrow> nat \<Rightarrow> bytes" where
  "manifest_bytes r a =
     fd_store_u16_le FD_REPLAY_VERSION_MAJOR @ fd_store_u16_le FD_REPLAY_VERSION_MINOR @
     fd_store_u16_le FD_REPLAY_VERSION_MAJOR @ fd_store_u16_le 0 @ fd_store_u32_le FD_REPLAY_SECTION_COUNT @
     fd_store_u64_le (of_nat r) @ fd_store_u32_le (of_nat (r div 1024)) @ fd_store_u32_le (of_nat a)"

definition records_bytes :: "fd_replay_record list \<Rightarrow> bytes" where
  "records_bytes rs = fd_store_u64_le (of_nat (length rs)) @ concat (map fd_encode_replay_record rs)"

definition audits_bytes :: "fd_replay_audit list \<Rightarrow> bytes" where
  "audits_bytes as = fd_store_u32_le (of_nat (length as)) @ concat (map audit_encoding as)"

definition checkpoints_bytes :: "fd_world \<Rightarrow> nat \<Rightarrow> bytes" where
  "checkpoints_bytes w n = fd_store_u32_le (of_nat n) @ concat (map (checkpoint_bytes w) [0..<n])"

definition replay_sections ::
    "fd_world \<Rightarrow> fd_replay_record list \<Rightarrow> fd_replay_audit list \<Rightarrow> (u16 \<times> bytes) list" where
  "replay_sections w rs as =
     [(1, manifest_bytes (length rs) (length as)), (2, save_file w), (3, records_bytes rs),
      (4, audits_bytes as), (5, checkpoints_bytes w (length rs div 1024))]"

definition replay_body :: "fd_world \<Rightarrow> fd_replay_record list \<Rightarrow> fd_replay_audit list \<Rightarrow> bytes" where
  "replay_body w rs as = fd_replay_magic @ frames (replay_sections w rs as)"

definition replay_file :: "fd_world \<Rightarrow> fd_replay_record list \<Rightarrow> fd_replay_audit list \<Rightarrow> bytes" where
  "replay_file w rs as = replay_body w rs as @
     fd_replay_footer_digest (replay_body w rs as) (length (replay_body w rs as))"

section \<open>Its length\<close>

text \<open>The size of a replay of \<open>r\<close> records and \<open>a\<close> audits whose saves have \<open>s\<close> bytes.\<close>

definition replay_size :: "nat \<Rightarrow> nat \<Rightarrow> nat \<Rightarrow> nat" where
  "replay_size s r a = 324 + s + 228 * r + 328 * a + (r div 1024) * (16 + s)"

lemma world_at_hash: "length (w_state_sha256 w) = 32 \<Longrightarrow> length (w_state_sha256 (world_at w n)) = 32"
  by (cases n) (simp_all add: world_at_Suc stepped_world_eq state_hash_def)

lemma retick_shape:
  assumes "world_shape w" and "length h = 32"
  shows "world_shape (w\<lparr>w_tick := t, w_state_sha256 := h\<rparr>)"
    and "length (save_file (w\<lparr>w_tick := t, w_state_sha256 := h\<rparr>)) = length (save_file w)"
proof -
  show s: "world_shape (w\<lparr>w_tick := t, w_state_sha256 := h\<rparr>)"
    using assms by (simp add: world_shape_def)
  show "length (save_file (w\<lparr>w_tick := t, w_state_sha256 := h\<rparr>)) = length (save_file w)"
    by (simp add: length_save_file length_save_body [OF s] length_save_body [OF assms(1)])
qed

lemma world_at_shape:
  assumes "world_shape w"
  shows "world_shape (world_at w n)" and "length (save_file (world_at w n)) = length (save_file w)"
proof -
  have "length (w_state_sha256 (world_at w n)) = 32"
    using assms by (intro world_at_hash) (simp add: world_shape_def)
  from retick_shape [OF assms this, of "w_tick (world_at w n)"]
  show "world_shape (world_at w n)" "length (save_file (world_at w n)) = length (save_file w)"
    unfolding world_at_retick [symmetric] .
qed

lemma length_checkpoint:
  "world_shape w \<Longrightarrow> length (checkpoint_bytes w i) = 16 + length (save_file w)"
  by (simp add: checkpoint_bytes_def world_at_shape)

lemma length_concat_equal: "(\<And>x. x \<in> set xs \<Longrightarrow> length (f x) = n) \<Longrightarrow> length (concat (map f xs)) = n * length xs"
  by (induction xs) simp_all

lemma payload_lengths:
  assumes "world_shape w" and "\<forall>r\<in>set rs. record_wire r" and "\<forall>a\<in>set as. audit_wire a"
  shows "length (manifest_bytes r a) = 28" "length (records_bytes rs) = 8 + 228 * length rs"
    "length (audits_bytes as) = 4 + 328 * length as"
    "length (checkpoints_bytes w n) = 4 + (16 + length (save_file w)) * n"
  using assms length_concat_equal [of rs fd_encode_replay_record 228] replay_record.width_enc
    length_concat_equal [of as audit_encoding 328] length_audit_encoding
    length_concat_equal [of "[0..<n]" "checkpoint_bytes w"] length_checkpoint
  by (simp_all add: manifest_bytes_def records_bytes_def audits_bytes_def checkpoints_bytes_def)

lemma length_replay_magic [simp]: "length fd_replay_magic = 8"
  by (simp add: fd_replay_magic_def)

lemma length_replay_footer [simp]: "length (fd_replay_footer_digest b n) = 32"
  by (simp add: fd_replay_footer_digest_def)

lemma length_replay_file:
  assumes "world_shape w" and "\<forall>r\<in>set rs. record_wire r" and "\<forall>a\<in>set as. audit_wire a"
  shows "length (replay_file w rs as) = replay_size (length (save_file w)) (length rs) (length as)"
    and "length (replay_file w rs as) = length (replay_body w rs as) + 32"
  using payload_lengths [OF assms]
  by (simp_all add: replay_file_def replay_body_def replay_sections_def replay_size_def)

section \<open>Filling a zeroed buffer\<close>

definition pad :: "nat \<Rightarrow> bytes \<Rightarrow> bytes" where
  "pad n xs = xs @ replicate (n - length xs) 0"

lemma length_pad [simp]: "length xs \<le> n \<Longrightarrow> length (pad n xs) = n"
  by (simp add: pad_def)

lemma pad_full: "length xs = n \<Longrightarrow> pad n xs = xs"
  by (simp add: pad_def)

text \<open>A store behind what is there, with a gap of zeros.\<close>

lemma blit_pad_gap:
  assumes "length xs + g + length s \<le> n" and "p = length X + length xs + g"
  shows "blit (X @ pad n xs @ Y) p s = X @ pad n (xs @ replicate g 0 @ s) @ Y"
proof -
  obtain m where m: "n = length xs + g + length s + m" using assms(1) le_Suc_ex by blast
  have "replicate (n - length xs) 0 = replicate g 0 @ replicate (length s) 0 @ replicate m (0 :: u8)"
    by (simp add: m replicate_add [symmetric])
  then show ?thesis by (simp add: blit_def pad_def assms(2)) (simp add: m)
qed

lemma blit_pad:
  assumes "length xs + length s \<le> n" and "p = length X + length xs"
  shows "blit (X @ pad n xs @ Y) p s = X @ pad n (xs @ s) @ Y"
  using blit_pad_gap [of xs 0 s n p X Y] assms by simp

lemma blit_next: "p + length s \<le> length b \<Longrightarrow> blit (blit b p s) (p + length s) t = blit b p (s @ t)"
  by (simp add: blit_def add.assoc add.commute add.left_commute)

lemma header_blit:
  "p + 16 \<le> length b \<Longrightarrow> fd_replay_write_section_header b p tag n = blit b p (section_header tag 1 n)"
  using blit_next [of p "fd_store_u16_le tag" b "fd_store_u16_le 1"]
    blit_next [of p "fd_store_u16_le tag @ fd_store_u16_le 1" b "fd_store_u32_le 0"]
    blit_next [of p "fd_store_u16_le tag @ fd_store_u16_le 1 @ fd_store_u32_le 0" b "fd_store_u64_le n"]
  by (simp add: fd_replay_write_section_header_def section_header_def Let_def)

text \<open>The digest goes behind the payload.\<close>

lemma finish_section:
  assumes "length X = p" and "length payload = unat n" and "length Z = 32"
  shows "fd_replay_finish_section (X @ payload @ Z @ Y) p n = X @ payload @ sha256 payload @ Y"
  using assms by (simp add: fd_replay_finish_section_def fd_sha256_Some blit_def)

text \<open>Stores next to each other.\<close>

lemma stores_chain:
  "p + length s \<le> length b \<Longrightarrow> stores ((p, s) # (p + length s, t) # ws) b = stores ((p, s @ t) # ws) b"
  using blit_next [of p s b t] by (simp add: stores_def)

end
