(* ===== verification/FD_Written.thy ===== *)
theory FD_Written
  imports FD_Layout
begin

text \<open>
  What \<open>fd_replay_build\<close> writes: its first loop counts what the second one records, the announced size
  is the length of the file, and the second loop fills the sections with the run of the decisions.
\<close>

unbundle bit_operations_syntax

section \<open>Classifying\<close>

lemma tile_bytes_world_at [simp]: "tile_bytes (world_at w n) = tile_bytes w"
  by (subst world_at_retick) (simp add: tile_bytes_def)

lemma world_valid_at: "world_valid w \<Longrightarrow> world_valid (world_at w n)"
  by (induction n) (simp_all add: world_at_Suc world_valid_stepped)

text \<open>The first loop counts records and audits; it fails only where the audit counter would wrap.\<close>

lemma classify_scan:
  assumes "world_valid w"
  shows "case scan_sum (classify_attempt diag) ds (Some w, a, b) of
     Inl (r, x) \<Rightarrow> fst r \<noteq> FD_OK \<and> (\<exists>n. x = Some (world_at w n)) \<and>
       2 ^ 32 \<le> unat b + length (played_audits k w ds)
   | Inr (x, a', b') \<Rightarrow> x = Some (world_at w (length (played_records w ds))) \<and>
       a' = a + of_nat (length (played_records w ds)) \<and>
       b' = b + of_nat (length (played_audits k w ds)) \<and>
       unat b + length (played_audits k w ds) < 2 ^ 32"
  using assms
proof (induction ds arbitrary: w a b k)
  case (Cons d ds)
  show ?case
  proof (cases "accepts w d")
    case True
    obtain g where "fd_world_step (Some w) (Some d) (Some blank_step) (Some fd_diagnostic_init) =
        ((FD_OK, g), Some (stepped_world w), Some (step_report w d))"
      using fd_world_step_accepted [OF True] by blast
    then have step: "classify_attempt diag d (Some w, a, b) = Inr (Some (stepped_world w), a + 1, b)"
      by (simp add: classify_attempt_def)
    have "world_valid (stepped_world w)" using Cons.prems by simp
    note ih = Cons.IH [OF this]
    show ?thesis
      using ih [where a = "a + 1" and b = b and k = "Suc k"] True step by (auto split: sum.splits)
  next
    case False
    obtain c g where "fd_world_step (Some w) (Some d) (Some blank_step) (Some fd_diagnostic_init) =
        ((c, g), Some w, Some blank_step)" "c \<noteq> FD_OK" "fd_replay_result_is_auditable c"
      using refused_step [OF False] Cons.prems by metis
    then have step: "classify_attempt diag d (Some w, a, b) =
        (if b = - 1 then Inl (fd_diag_set diag FD_ERR_CAPACITY FD_FIELD_FILE_BYTES 0
           (str ''replay audit count exceeds format bound''), Some w) else Inr (Some w, a, b + 1))"
      by (simp add: classify_attempt_def)
    show ?thesis
    proof (cases "b = - 1")
      case True
      have "unat (- 1 :: u32) = 4294967295" by (simp add: unsigned_minus_1_eq_mask mask_eq_exp_minus_1)
      then show ?thesis using step False True by (simp add: exI [of _ 0])
    next
      case nz: False
      then have "unat (b + 1) = Suc (unat b)" using word_next(1) [of b "- 1"] by (simp add: word_order.not_eq_extremum)
      then show ?thesis
        using Cons.IH [OF Cons.prems, where a = a and b = "b + 1" and k = "Suc k"] False step nz by (auto split: sum.splits)
    qed
  qed
qed (simp add: unat_lt_u32)

lemma classify_cases:
  fixes ctx :: "'u fd_context"
  assumes st: "storable w" and n: "length ds < 2 ^ 64"
  defines "v \<equiv> reloaded (cx_id ctx) w"
  obtains (classified) d ctx' where "fd_replay_classify_attempts ctx (Some w) (Some ds) (of_nat (length ds)) (Some x) (Some y) diag =
      ((FD_OK, d), ctx', Some (of_nat (length (played_records v ds))), Some (of_nat (length (played_audits 0 v ds))))"
      "charged 0 0 ctx ctx'" "length (played_audits 0 v ds) < 2 ^ 32" "length ds \<le> unat (cx_max_file_bytes ctx) div 228"
  | (refused) r ctx' where "fd_replay_classify_attempts ctx (Some w) (Some ds) (of_nat (length ds)) (Some x) (Some y) diag =
      (r, ctx', Some 0, Some 0)" "fst r \<noteq> FD_OK" "charged 0 0 ctx ctx'"
      "\<not> (affords ctx w \<and> 228 * length ds \<le> unat (cx_max_file_bytes ctx) \<and> length (played_audits 0 v ds) < 2 ^ 32)"
proof -
  have un: "unat (of_nat (length ds) :: u64) = length ds" using n by (simp add: unat_of_nat_u64)
  have all: "attempts (Some ds) (of_nat (length ds)) = ds" by (simp add: attempts_def un)
  have val: "world_valid v" using st by (simp add: v_def storable_def)
  let ?k = "of_nat (length ds) :: u64"
  show thesis
  proof (cases "?k > cx_max_file_bytes ctx div 228 \<or> ?k > - 1 div 24")
    case True
    have "\<not> 228 * length ds \<le> unat (cx_max_file_bytes ctx)"
      using True unat_lt_u64 [of "cx_max_file_bytes ctx"] by (auto simp: word_less_nat_alt un unat_div)
    then show thesis using True refused [OF _ _ charged_refl] by (simp add: fd_replay_classify_attempts_def)
  next
    case False
    then have bound: "length ds \<le> unat (cx_max_file_bytes ctx) div 228"
      by (simp add: word_less_nat_alt un unat_div)
    from st show thesis
    proof (cases rule: clone_cases [where ctx = ctx and old = None and diag = diag])
      case (cloned d ctx')
      note scan = classify_scan [OF val, where diag = d and ds = ds and a = 0 and b = 0 and k = 0]
      have kept: "charged 0 0 ctx (dispose ctx' (Some (world_at v m)))" for m
        using cloned(2) by (rule dispose_loaded) (simp add: v_def)
      show thesis
      proof (cases "scan_sum (classify_attempt d) ds (Some v, 0, 0)")
        case (Inl e)
        then obtain r m where "e = (r, Some (world_at v m))" "fst r \<noteq> FD_OK" "\<not> length (played_audits 0 v ds) < 2 ^ 32"
          using scan by (cases e) auto
        then show thesis
          using refused [OF _ _ kept] False cloned(1) Inl
          by (simp add: fd_replay_classify_attempts_def all v_def [symmetric])
      next
        case (Inr s)
        then show thesis
          using classified [OF _ kept _ bound] False cloned(1) scan
          by (cases s) (simp add: fd_replay_classify_attempts_def all v_def [symmetric])
      qed
    next
      case (failed r ctx')
      then show thesis
        using refused [of r ctx'] False by (cases r) (simp add: fd_replay_classify_attempts_def)
    qed
  qed
qed

section \<open>The announced size\<close>

lemma add_fits:
  assumes "unat a + unat b < 2 ^ 64"
  obtains c where "fd_u64_add a b = Some c" "unat c = unat a + unat b"
  using assms fd_u64_add_Some_iff fd_u64_add_unat by blast

lemma mul_fits:
  assumes "unat a * unat b < 2 ^ 64"
  obtains c where "fd_u64_mul a b = Some c" "unat c = unat a * unat b"
  using assms fd_u64_mul_Some_iff fd_u64_mul_unat by blast

lemma replay_total_fits:
  assumes "324 + unat s + 228 * unat r + 328 * unat a + unat c * (16 + unat s) < 2 ^ 64"
  obtains t where "replay_total s r a c = Some t"
proof -
  obtain r1 where r1: "fd_u64_mul r 228 = Some r1" "unat r1 = unat r * 228"
    using assms by (auto intro: mul_fits [of r 228])
  obtain r2 where r2: "fd_u64_add r1 8 = Some r2" "unat r2 = unat r * 228 + 8"
    using assms r1(2) by (auto intro: add_fits [of r1 8])
  obtain a1 where a1: "fd_u64_mul (ucast a) 328 = Some a1" "unat a1 = unat a * 328"
    using assms by (auto intro: mul_fits [of "ucast a" 328])
  obtain a2 where a2: "fd_u64_add a1 4 = Some a2" "unat a2 = unat a * 328 + 4"
    using assms a1(2) by (auto intro: add_fits [of a1 4])
  obtain c0 where c0: "fd_u64_add s 16 = Some c0" "unat c0 = unat s + 16"
    using assms by (auto intro: add_fits [of s 16])
  obtain c1 where c1: "fd_u64_mul c c0 = Some c1" "unat c1 = unat c * (16 + unat s)"
    using assms c0(2) by (auto intro: mul_fits [of c c0] simp: add.commute)
  obtain c2 where c2: "fd_u64_add c1 4 = Some c2" "unat c2 = unat c * (16 + unat s) + 4"
    using assms c1(2) by (auto intro: add_fits [of c1 4])
  obtain p1 where p1: "fd_u64_add 28 s = Some p1" "unat p1 = 28 + unat s"
    using assms by (auto intro: add_fits [of 28 s])
  obtain p2 where p2: "fd_u64_add p1 r2 = Some p2" "unat p2 = 36 + unat s + unat r * 228"
    using assms p1(2) r2(2) by (auto intro: add_fits [of p1 r2])
  obtain p3 where p3: "fd_u64_add p2 a2 = Some p3" "unat p3 = 40 + unat s + unat r * 228 + unat a * 328"
    using assms p2(2) a2(2) by (auto intro: add_fits [of p2 a2])
  obtain p4 where p4: "fd_u64_add p3 c2 = Some p4"
    "unat p4 = 44 + unat s + unat r * 228 + unat a * 328 + unat c * (16 + unat s)"
    using assms p3(2) c2(2) by (auto intro: add_fits [of p3 c2])
  obtain t1 where t1: "fd_u64_add 8 p4 = Some t1" "unat t1 = 8 + unat p4"
    using assms p4(2) by (auto intro: add_fits [of 8 p4])
  obtain t2 where t2: "fd_u64_add t1 240 = Some t2" "unat t2 = 240 + unat t1"
    using assms p4(2) t1(2) by (auto intro: add_fits [of t1 240])
  obtain t where t: "fd_u64_add t2 32 = Some t"
    using assms p4(2) t1(2) t2(2) by (auto intro: add_fits [of t2 32])
  then show thesis
    using that r1(1) r2(1) a1(1) a2(1) c0(1) c1(1) c2(1) p1(1) p2(1) p3(1) p4(1) t1(1) t2(1)
    by (simp add: replay_total_def)
qed

lemma replay_total_unat:
  "replay_total s r a c = Some t \<Longrightarrow>
     unat t = 324 + unat s + 228 * unat r + 328 * unat a + unat c * (16 + unat s)"
  by (auto simp: replay_total_def bind_eq_Some_conv dest!: fd_u64_add_unat fd_u64_mul_unat)

text \<open>The size computation succeeds exactly when the size is a 64-bit number, and gives it.\<close>

lemma replay_total_exact:
  assumes "s < 2 ^ 64" and "r < 2 ^ 64" and "a < 2 ^ 32"
  shows "replay_total (of_nat s) (of_nat r) (of_nat a) (of_nat r div 1024) =
    (if replay_size s r a < 2 ^ 64 then Some (of_nat (replay_size s r a)) else None)"
proof -
  have u: "unat (of_nat s :: u64) = s" "unat (of_nat r :: u64) = r" "unat (of_nat a :: u32) = a"
    "unat (of_nat r div 1024 :: u64) = r div 1024"
    using assms by (simp_all add: unat_of_nat_u64 unat_of_nat_u32 unat_div)
  show ?thesis
  proof (cases "replay_total (of_nat s) (of_nat r) (of_nat a) (of_nat r div 1024)")
    case None
    then have "\<not> replay_size s r a < 2 ^ 64"
      using replay_total_fits [of "of_nat s" "of_nat r" "of_nat a" "of_nat r div 1024"]
      by (auto simp: u replay_size_def)
    then show ?thesis using None by simp
  next
    case (Some t)
    have t: "unat t = replay_size s r a" using replay_total_unat [OF Some] by (simp add: u replay_size_def)
    have "t = of_nat (unat t)" by simp
    then have "t = of_nat (replay_size s r a)" by (simp only: t)
    then show ?thesis using Some t unat_lt_u64 [of t] by simp
  qed
qed

text \<open>What a replay build needs of its context: the save and the whole file within the bound.\<close>

lemma size_internal_exact:
  assumes sh: "world_shape w" and r: "r < 2 ^ 64" and a: "a < 2 ^ 32"
  defines "n \<equiv> replay_size (length (save_file w)) r a"
  shows "case fd_replay_size_internal ctx (Some w) (of_nat r) (of_nat a) (Some x) (Some y) (Some z) of (result, t, s, c) \<Rightarrow>
    if r < 2 ^ 42 \<and> n \<le> unat (cx_max_file_bytes ctx)
    then result = FD_OK \<and> t = Some (of_nat n) \<and> s = Some (of_nat (length (save_file w))) \<and> c = Some (of_nat (r div 1024))
    else result \<noteq> FD_OK \<or> the t > cx_max_file_bytes ctx"
proof -
  let ?s = "length (save_file w)"
  have s: "?s < 2 ^ 63" "?s \<le> n" using save_file_bound [OF sh] by (simp_all add: n_def replay_size_def)
  have us: "unat (of_nat ?s :: u64) = ?s" using s by (simp add: unat_of_nat_u64)
  have total: "replay_total (of_nat ?s) (of_nat r) (of_nat a) (of_nat r div 1024) =
      (if n < 2 ^ 64 then Some (of_nat n) else None)"
    unfolding n_def using s r a by (intro replay_total_exact) simp_all
  have cp: "unat (of_nat r div 1024 :: u64) = r div 1024"
    using r by (simp add: unat_of_nat_u64 unat_div)
  then have small: "(of_nat r div 1024 :: u64) > 4294967295 \<longleftrightarrow> \<not> r < 2 ^ 42" by (simp add: word_less_nat_alt not_less) linarith
  have "(of_nat r div 1024 :: u64) = of_nat (r div 1024)"
    using r cp unat_of_nat_u64 [of "r div 1024"] by (simp add: word_unat_eq_iff)
  then have cu: "(ucast (of_nat r div 1024 :: u64) :: u32) = of_nat (r div 1024)"
    by (simp add: word_unat_eq_iff unsigned_ucast_eq unsigned_of_nat take_bit_nat_def mod_mod_cancel)
  have save: "fd_world_save_size ctx (Some w) (Some 0) None =
      (if of_nat ?s > cx_max_file_bytes ctx then (fd_diag_set None FD_ERR_CAPACITY FD_FIELD_BUFFER_CAPACITY 0
         (str ''canonical save exceeds configured bound'')) else fd_diag_ok None, Some (of_nat ?s))"
    by (simp add: fd_world_save_size_def fd_save_size_exact [OF sh])
  have over: "of_nat m > cx_max_file_bytes ctx \<longleftrightarrow> unat (cx_max_file_bytes ctx) < m" if "m < 2 ^ 64" for m
    using that by (simp add: word_less_nat_alt unat_of_nat_u64)
  have over_s: "of_nat ?s > cx_max_file_bytes ctx \<longleftrightarrow> unat (cx_max_file_bytes ctx) < ?s"
    using s by (intro over) simp
  consider (big) "unat (cx_max_file_bytes ctx) < ?s" | (wide) "?s \<le> unat (cx_max_file_bytes ctx)" "2 ^ 64 \<le> n"
    | (fits) "?s \<le> unat (cx_max_file_bytes ctx)" "n < 2 ^ 64" by linarith
  then show ?thesis
  proof cases
    case big
    then show ?thesis using s by (simp add: fd_replay_size_internal_def small Let_def save over_s)
  next
    case wide
    then show ?thesis
      using unat_lt_u64 [of "cx_max_file_bytes ctx"]
      by (simp add: fd_replay_size_internal_def small Let_def save over_s total split: prod.splits)
  next
    case fits
    then show ?thesis
      by (simp add: fd_replay_size_internal_def small Let_def save over_s total cu over diag_ok_fst split: prod.splits)
  qed
qed

end
