(* ===== verification/FD_Filled.thy ===== *)
theory FD_Filled
  imports FD_Written
begin

text \<open>
  The second loop of the replay builder: it fills three zeroed regions of the buffer, for records,
  audits and checkpoints, each from its front, with the run of the decisions.
\<close>

unbundle bit_operations_syntax

section \<open>Three regions\<close>

text \<open>Fixed parts \<open>X\<close>, \<open>Y\<close>, \<open>Z\<close>, \<open>W\<close> around regions of \<open>nr\<close>, \<open>na\<close> and \<open>nc\<close> bytes.\<close>

record build_frame =
  bf_x :: bytes
  bf_records :: nat
  bf_y :: bytes
  bf_audits :: nat
  bf_z :: bytes
  bf_checkpoints :: nat
  bf_w :: bytes

definition regions :: "build_frame \<Rightarrow> bytes \<Rightarrow> bytes \<Rightarrow> bytes \<Rightarrow> bytes" where
  "regions f rd ad cd = bf_x f @ pad (bf_records f) rd @ bf_y f @ pad (bf_audits f) ad @ bf_z f @
     pad (bf_checkpoints f) cd @ bf_w f"

definition audits_at :: "build_frame \<Rightarrow> nat" where
  "audits_at f = length (bf_x f) + bf_records f + length (bf_y f)"

definition checkpoints_at :: "build_frame \<Rightarrow> nat" where
  "checkpoints_at f = audits_at f + bf_audits f + length (bf_z f)"

definition fits :: "build_frame \<Rightarrow> bytes \<Rightarrow> bytes \<Rightarrow> bytes \<Rightarrow> bool" where
  "fits f rd ad cd \<longleftrightarrow> length rd \<le> bf_records f \<and> length ad \<le> bf_audits f \<and> length cd \<le> bf_checkpoints f"

lemma blit_records:
  "length rd + length s \<le> bf_records f \<Longrightarrow>
     blit (regions f rd ad cd) (length (bf_x f) + length rd) s = regions f (rd @ s) ad cd"
  by (simp add: regions_def blit_pad)

lemma blit_audits:
  "length rd \<le> bf_records f \<Longrightarrow> length ad + length s \<le> bf_audits f \<Longrightarrow>
     blit (regions f rd ad cd) (audits_at f + length ad) s = regions f rd (ad @ s) cd"
  using blit_pad [of ad s "bf_audits f" "audits_at f + length ad" "bf_x f @ pad (bf_records f) rd @ bf_y f"]
  by (simp add: regions_def audits_at_def)

lemma blit_checkpoints:
  "length rd \<le> bf_records f \<Longrightarrow> length ad \<le> bf_audits f \<Longrightarrow> length cd + length s \<le> bf_checkpoints f \<Longrightarrow>
     blit (regions f rd ad cd) (checkpoints_at f + length cd) s = regions f rd ad (cd @ s)"
  using blit_pad [of cd s "bf_checkpoints f" "checkpoints_at f + length cd"
      "bf_x f @ pad (bf_records f) rd @ bf_y f @ pad (bf_audits f) ad @ bf_z f"]
  by (simp add: regions_def audits_at_def checkpoints_at_def)

lemma length_regions:
  "fits f rd ad cd \<Longrightarrow> length (regions f rd ad cd) = checkpoints_at f + bf_checkpoints f + length (bf_w f)"
  by (simp add: fits_def regions_def audits_at_def checkpoints_at_def)

section \<open>One attempt\<close>

definition filling :: "build_frame \<Rightarrow> fd_world \<Rightarrow> nat \<Rightarrow> bytes \<Rightarrow> bytes \<Rightarrow> bytes \<Rightarrow> diag \<Rightarrow> build_state" where
  "filling f v i rd ad cd d =
     \<lparr>bs_work = Some (world_at v i), bs_bytes = regions f rd ad cd,
      bs_record_cursor = length (bf_x f) + length rd, bs_audit_cursor = audits_at f + length ad,
      bs_checkpoint_cursor = checkpoints_at f + length cd, bs_accepted_index = of_nat i, bs_diag = d\<rparr>"

text \<open>A save into the buffer at a place where it fits is a store.\<close>

lemma save_blit:
  assumes "world_shape w" and "length (save_file w) \<le> unat (cx_max_file_bytes ctx)"
    and "p + length (save_file w) \<le> length b"
  obtains d where "fd_world_save ctx (Some w) (Some (drop p b)) (of_nat (length (save_file w))) (Some k) diag =
      ((FD_OK, d), Some (drop p (blit b p (save_file w))), Some (of_nat (length (save_file w))))"
    "take p b @ drop p (blit b p (save_file w)) = blit b p (save_file w)"
proof -
  have "unat (of_nat (length (save_file w)) :: u64) = length (save_file w)"
    using save_file_bound [OF assms(1)] by (simp add: unat_of_nat_u64)
  then have "fd_world_save ctx (Some w) (Some (drop p b)) (of_nat (length (save_file w))) (Some k) diag =
      (fd_diag_ok diag, Some (save_file w @ drop (length (save_file w)) (drop p b)), Some (of_nat (length (save_file w))))"
    using assms by (intro save_into) simp_all
  then show thesis
    using that [of "snd (fd_diag_ok diag)"] assms(3)
    by (simp add: blit_def diag_ok_fst add.commute)
qed

lemma dvd_Suc_div: "1024 dvd Suc i \<Longrightarrow> 1024 * Suc (i div 1024) = Suc i"
proof -
  assume "1024 dvd Suc i"
  then obtain q where q: "Suc i = 1024 * q" ..
  then obtain p where p: "q = Suc p" by (cases q) simp_all
  then have "i = 1024 * p + 1023" using q by simp
  then show ?thesis by simp
qed

lemma checkpoint_fill:
  assumes sh: "world_shape v" and lim: "length (save_file v) \<le> unat (cx_max_file_bytes ctx)"
    and fit: "fits f rd ad (cd @ (if 1024 dvd Suc i then checkpoint_bytes v (i div 1024) else []))"
    and i: "Suc i < 2 ^ 64"
  shows "\<exists>d'. build_checkpoint ctx (of_nat (length (save_file v))) (filling f v (Suc i) rd ad cd d) =
    Inr (filling f v (Suc i) rd ad (cd @ (if 1024 dvd Suc i then checkpoint_bytes v (i div 1024) else [])) d')"
proof -
  let ?s = "length (save_file v)" and ?u = "world_at v (Suc i)"
  have ui: "unat (of_nat (Suc i) :: u64) = Suc i" using i by (intro unat_of_nat_u64) simp
  have m: "(of_nat (Suc i) :: u64) mod 1024 = 0 \<longleftrightarrow> 1024 dvd Suc i"
    using ui by (simp only: word_unat_eq_iff unat_mod) (simp add: dvd_eq_mod_eq_0)
  show ?thesis
  proof (cases "1024 dvd Suc i")
    case False
    then show ?thesis using m by (auto simp: build_checkpoint_def filling_def simp del: of_nat_Suc)
  next
    case True
    then have idx: "1024 * Suc (i div 1024) = Suc i" by (rule dvd_Suc_div)
    let ?h = "fd_store_u64_le (of_nat (Suc i)) @ fd_store_u64_le (of_nat ?s)"
    let ?p = "checkpoints_at f + length cd" and ?b = "regions f rd ad cd"
    have cb: "checkpoint_bytes v (i div 1024) = ?h @ save_file ?u"
      unfolding checkpoint_bytes_def idx by simp
    have su: "world_shape ?u" "length (save_file ?u) = ?s" using world_at_shape [OF sh] by blast+
    have rm: "length rd \<le> bf_records f" "length ad \<le> bf_audits f" "length cd + (16 + ?s) \<le> bf_checkpoints f"
      using fit True by (simp_all add: fits_def cb su(2))
    have len: "length ?b = checkpoints_at f + bf_checkpoints f + length (bf_w f)"
      using rm by (intro length_regions) (simp add: fits_def)
    have b1: "stores [(?p, fd_store_u64_le (of_nat (Suc i))), (?p + 8, fd_store_u64_le (of_nat ?s))] ?b = regions f rd ad (cd @ ?h)"
      using stores_chain [of ?p "fd_store_u64_le (of_nat (Suc i))" ?b "fd_store_u64_le (of_nat ?s)" "[]"] rm len
        blit_checkpoints [of rd f ad cd ?h] by (simp add: stores_def)
    have lim': "length (save_file ?u) \<le> unat (cx_max_file_bytes ctx)" using lim su(2) by simp
    have len1: "?p + 16 + length (save_file ?u) \<le> length (regions f rd ad (cd @ ?h))"
      using rm su(2) length_regions [of f rd ad "cd @ ?h"] by (simp add: fits_def)
    obtain d' where sv: "fd_world_save ctx (Some ?u) (Some (drop (?p + 16) (regions f rd ad (cd @ ?h)))) (of_nat ?s) (Some 0) d =
        ((FD_OK, d'), Some (drop (?p + 16) (blit (regions f rd ad (cd @ ?h)) (?p + 16) (save_file ?u))), Some (of_nat ?s))"
      and join: "take (?p + 16) (regions f rd ad (cd @ ?h)) @ drop (?p + 16) (blit (regions f rd ad (cd @ ?h)) (?p + 16) (save_file ?u))
        = blit (regions f rd ad (cd @ ?h)) (?p + 16) (save_file ?u)"
      using save_blit [OF su(1) lim' len1, of 0 d] unfolding su(2) by blast
    have b2: "blit (regions f rd ad (cd @ ?h)) (?p + 16) (save_file ?u) = regions f rd ad (cd @ checkpoint_bytes v (i div 1024))"
      using blit_checkpoints [of rd f ad "cd @ ?h" "save_file ?u"] rm su(2) by (simp add: cb add.assoc)
    have "unat (of_nat ?s :: u64) = ?s" using save_file_bound [OF sh] by (simp add: unat_of_nat_u64)
    then have "build_checkpoint ctx (of_nat ?s) (filling f v (Suc i) rd ad cd d) =
        Inr (filling f v (Suc i) rd ad (cd @ checkpoint_bytes v (i div 1024)) d')"
      using True m b1 sv join b2
      by (simp add: build_checkpoint_def filling_def length_checkpoint [OF sh] Let_def del: of_nat_Suc)
    then show ?thesis using True by auto
  qed
qed

section \<open>The loop\<close>

definition checkpoints_between :: "fd_world \<Rightarrow> nat \<Rightarrow> nat \<Rightarrow> bytes" where
  "checkpoints_between v i j = concat (map (checkpoint_bytes v) [i div 1024..<j div 1024])"

lemma checkpoints_between_Suc:
  assumes "Suc i \<le> j"
  shows "checkpoints_between v i j =
    (if 1024 dvd Suc i then checkpoint_bytes v (i div 1024) else []) @ checkpoints_between v (Suc i) j"
proof (cases "1024 dvd Suc i")
  case True
  then have s: "Suc i div 1024 = Suc (i div 1024)" using dvd_Suc_div [OF True] by (metis nonzero_mult_div_cancel_left zero_neq_numeral)
  have "Suc i div 1024 \<le> j div 1024" using assms by (rule div_le_mono)
  then show ?thesis using True by (simp add: checkpoints_between_def s upt_conv_Cons)
next
  case False
  then have "Suc i div 1024 = i div 1024" by (metis Suc_times_mod_eq div_Suc dvd_eq_mod_eq_0)
  then show ?thesis using False by (simp add: checkpoints_between_def)
qed

lemma length_checkpoints_between:
  "world_shape v \<Longrightarrow> length (checkpoints_between v i j) = (16 + length (save_file v)) * (j div 1024 - i div 1024)"
  by (simp add: checkpoints_between_def length_checkpoint length_concat_equal [where n = "16 + length (save_file v)"])

lemma build_attempt_accepted:
  fixes rd cd :: bytes
  assumes ok: "accepts (world_at v i) dec" and shape: "decision_shape dec" and sh: "world_shape v"
    and lim: "length (save_file v) \<le> unat (cx_max_file_bytes ctx)" and i: "Suc i < 2 ^ 64"
  defines "cd' \<equiv> cd @ (if 1024 dvd Suc i then checkpoint_bytes v (i div 1024) else [])"
    and "rd' \<equiv> rd @ fd_encode_replay_record (record_of (world_at v i) dec)"
  assumes fit: "fits f rd' ad cd'"
  shows "\<exists>d'. build_attempt ctx (of_nat (length (save_file v))) (k, dec) (filling f v i rd ad cd d) =
    Inr (filling f v (Suc i) rd' ad cd' d')"
proof -
  let ?u = "world_at v i" and ?e = "fd_encode_replay_record (record_of (world_at v i) dec)"
  obtain g where step: "fd_world_step (Some ?u) (Some dec) (Some blank_step) (Some fd_diagnostic_init) =
      ((FD_OK, g), Some (stepped_world ?u), Some (step_report ?u dec))"
    using fd_world_step_accepted [OF ok] by blast
  have e: "length ?e = 228" using record_of_wire [OF shape ok] by (rule replay_record.width_enc)
  have "blit (regions f rd ad cd) (length (bf_x f) + length rd) ?e = regions f rd' ad cd"
    unfolding rd'_def using fit by (intro blit_records) (simp add: fits_def rd'_def)
  then have "build_attempt ctx (of_nat (length (save_file v))) (k, dec) (filling f v i rd ad cd d) =
      build_checkpoint ctx (of_nat (length (save_file v))) (filling f v (Suc i) rd' ad cd d)"
    using step no_staging_mismatch [OF shape, of ?u] e
    by (simp add: build_attempt_def filling_def record_of_def world_at_Suc rd'_def add.assoc
        add.commute [of "1 :: u64"])
  then show ?thesis using checkpoint_fill [OF sh lim fit [unfolded cd'_def] i] by (simp add: cd'_def)
qed

lemma build_attempt_refused:
  fixes ad :: bytes and k :: nat
  assumes no: "\<not> accepts (world_at v i) dec" and shape: "decision_shape dec" and val: "world_valid v"
  defines "ad' \<equiv> ad @ audit_encoding (audit_of k (world_at v i) dec)"
  assumes fit: "fits f rd ad' cd"
  shows "build_attempt ctx s (k, dec) (filling f v i rd ad cd d) = Inr (filling f v i rd ad' cd d)"
proof -
  let ?u = "world_at v i" and ?e = "audit_encoding (audit_of k (world_at v i) dec)"
  obtain c where step: "fd_world_step (Some ?u) (Some dec) (Some blank_step) (Some fd_diagnostic_init) =
      ((c, Some (refusal ?u dec)), Some ?u, Some blank_step)" "c \<noteq> FD_OK" "fd_replay_result_is_auditable c"
    using refused_step [OF no] world_valid_at [OF val] by metis
  have e: "length ?e = 328" using audit_of_wire [OF no shape] by (rule length_audit_encoding)
  have "blit (regions f rd ad cd) (audits_at f + length ad) ?e = regions f rd ad' cd"
    unfolding ad'_def using fit by (intro blit_audits) (simp_all add: fits_def ad'_def)
  then show ?thesis
    using step e by (simp add: build_attempt_def filling_def encode_audit_of ad'_def)
qed

lemma build_loop:
  assumes sh: "world_shape v" and val: "world_valid v"
    and lim: "length (save_file v) \<le> unat (cx_max_file_bytes ctx)"
    and "\<forall>d\<in>set ds. decision_shape d" and "i + length ds < 2 ^ 64"
  defines "rs \<equiv> \<lambda>i k ds. concat (map fd_encode_replay_record (played_records (world_at v i) ds))"
    and "as \<equiv> \<lambda>i k ds. concat (map audit_encoding (played_audits k (world_at v i) ds))"
    and "n \<equiv> \<lambda>i ds. i + length (played_records (world_at v i) ds)"
  assumes "fits f (rd @ rs i k ds) (ad @ as i k ds) (cd @ checkpoints_between v i (n i ds))"
  shows "\<exists>d'. scan_sum (build_attempt ctx (of_nat (length (save_file v)))) (enumerate k ds) (filling f v i rd ad cd d) =
    Inr (filling f v (n i ds) (rd @ rs i k ds) (ad @ as i k ds) (cd @ checkpoints_between v i (n i ds)) d')"
  using assms(4,5,9)
proof (induction ds arbitrary: i k rd ad cd d)
  case Nil
  then show ?case by (simp add: rs_def as_def n_def checkpoints_between_def) blast
next
  case (Cons dec ds)
  have shape: "decision_shape dec" and less: "Suc i < 2 ^ 64" using Cons.prems(1,2) by simp_all
  show ?case
  proof (cases "accepts (world_at v i) dec")
    case True
    let ?r = "fd_encode_replay_record (record_of (world_at v i) dec)"
    let ?c = "if 1024 dvd Suc i then checkpoint_bytes v (i div 1024) else []"
    have eqs: "rs i k (dec # ds) = ?r @ rs (Suc i) (Suc k) ds" "as i k (dec # ds) = as (Suc i) (Suc k) ds"
      "n i (dec # ds) = n (Suc i) ds"
      using True by (simp_all add: rs_def as_def n_def world_at_Suc)
    have cps: "checkpoints_between v i (n (Suc i) ds) = ?c @ checkpoints_between v (Suc i) (n (Suc i) ds)"
      by (rule checkpoints_between_Suc) (simp add: n_def)
    have fit: "fits f ((rd @ ?r) @ rs (Suc i) (Suc k) ds) (ad @ as (Suc i) (Suc k) ds)
        ((cd @ ?c) @ checkpoints_between v (Suc i) (n (Suc i) ds))"
      using Cons.prems(3) unfolding eqs cps by simp
    then have "fits f (rd @ ?r) ad (cd @ ?c)" by (simp add: fits_def)
    then obtain d1 where "build_attempt ctx (of_nat (length (save_file v))) (k, dec) (filling f v i rd ad cd d) =
        Inr (filling f v (Suc i) (rd @ ?r) ad (cd @ ?c) d1)"
      using build_attempt_accepted [OF True shape sh lim less] by blast
    moreover have "\<exists>d'. scan_sum (build_attempt ctx (of_nat (length (save_file v)))) (enumerate (Suc k) ds)
        (filling f v (Suc i) (rd @ ?r) ad (cd @ ?c) d1) =
      Inr (filling f v (n (Suc i) ds) ((rd @ ?r) @ rs (Suc i) (Suc k) ds) (ad @ as (Suc i) (Suc k) ds)
        ((cd @ ?c) @ checkpoints_between v (Suc i) (n (Suc i) ds)) d')"
      using Cons.prems(1,2) by (intro Cons.IH [OF _ _ fit]) simp_all
    ultimately show ?thesis by (simp add: cps eqs)
  next
    case False
    let ?a = "audit_encoding (audit_of k (world_at v i) dec)"
    have eqs: "rs i k (dec # ds) = rs i (Suc k) ds" "as i k (dec # ds) = ?a @ as i (Suc k) ds"
      "n i (dec # ds) = n i ds"
      using False by (simp_all add: rs_def as_def n_def)
    have fit: "fits f (rd @ rs i (Suc k) ds) ((ad @ ?a) @ as i (Suc k) ds) (cd @ checkpoints_between v i (n i ds))"
      using Cons.prems(3) unfolding eqs by simp
    then have "fits f rd (ad @ ?a) cd" by (simp add: fits_def)
    then have "build_attempt ctx (of_nat (length (save_file v))) (k, dec) (filling f v i rd ad cd d) =
        Inr (filling f v i rd (ad @ ?a) cd d)"
      using Cons.prems(1) by (intro build_attempt_refused [OF False _ val]) simp_all
    moreover have "\<exists>d'. scan_sum (build_attempt ctx (of_nat (length (save_file v)))) (enumerate (Suc k) ds)
        (filling f v i rd (ad @ ?a) cd d) =
      Inr (filling f v (n i ds) (rd @ rs i (Suc k) ds) ((ad @ ?a) @ as i (Suc k) ds)
        (cd @ checkpoints_between v i (n i ds)) d')"
      using Cons.prems(1,2) by (intro Cons.IH [OF _ _ fit]) simp_all
    ultimately show ?thesis by (simp add: eqs)
  qed
qed

end
