(* ===== verification/FD_Built.thy ===== *)
theory FD_Built
  imports FD_Filled
begin

text \<open>
  The outcome of building a replay: the canonical file of the run of the decisions, written behind a
  size check and a transactional buffer, or an error that leaves the caller's buffer alone.
\<close>

unbundle bit_operations_syntax

lemma save_file_reloaded [simp]: "save_file (reloaded i w) = save_file w"
  by (simp add: save_file_def save_body_def save_sections_def save_payloads_def payload_defs
      reloaded_def content_payload_def geography_payload_def entities_payload_def)

section \<open>The first two sections\<close>

lemma finish_pad:
  assumes "length xs + length payload + 32 \<le> n" and "p = length xs" and "unat k = length payload"
  shows "fd_replay_finish_section (pad n (xs @ payload) @ Y) p k = pad n (xs @ payload @ sha256 payload) @ Y"
proof -
  have "take (length payload) (drop p (pad n (xs @ payload) @ Y)) = payload"
    using assms(2) by (simp add: pad_def)
  then show ?thesis
    using blit_pad [of "xs @ payload" "sha256 payload" n "p + length payload" "[]" Y] assms
    by (simp add: fd_replay_finish_section_def fd_sha256_Some)
qed

lemma header_pad:
  assumes "length xs + g + 16 \<le> n" and "p = length xs + g"
  shows "fd_replay_write_section_header (pad n xs @ Y) p tag k = pad n (xs @ replicate g 0 @ section_header tag 1 k) @ Y"
proof -
  have "p + 16 \<le> length (pad n xs @ Y)" using assms by simp
  then show ?thesis
    using header_blit [of p "pad n xs @ Y" tag k] blit_pad_gap [of xs g "section_header tag 1 k" n p "[]" Y] assms
    by simp
qed

lemma header_next:
  "length xs + 16 \<le> n \<Longrightarrow> p = length xs \<Longrightarrow>
     fd_replay_write_section_header (pad n xs @ Y) p tag k = pad n (xs @ section_header tag 1 k) @ Y"
  by (subst header_pad [where g = 0]) simp_all

lemma store_pad: "length xs + length s \<le> n \<Longrightarrow> p = length xs \<Longrightarrow> blit (pad n xs @ Y) p s = pad n (xs @ s) @ Y"
  using blit_pad [of xs s n p "[]" Y] by simp

lemma manifest_stores:
  assumes "p + 28 \<le> length b"
  shows "stores (replay_manifest_stores p (of_nat r) (of_nat (r div 1024)) (of_nat a)) b = blit b p (manifest_bytes r a)"
proof -
  have s: "stores ((p, s) # (p + length s, t) # ws) b = stores ((p, s @ t) # ws) b" if "length s \<le> 28" for s t ws
    using assms that by (intro stores_chain) simp
  show ?thesis
    using s [of "fd_store_u16_le 1"] s [of "fd_store_u16_le 1 @ fd_store_u16_le 0"]
      s [of "fd_store_u16_le 1 @ fd_store_u16_le 0 @ fd_store_u16_le 1"]
      s [of "fd_store_u16_le 1 @ fd_store_u16_le 0 @ fd_store_u16_le 1 @ fd_store_u16_le 0"]
      s [of "fd_store_u16_le 1 @ fd_store_u16_le 0 @ fd_store_u16_le 1 @ fd_store_u16_le 0 @ fd_store_u32_le 5"]
      s [of "fd_store_u16_le 1 @ fd_store_u16_le 0 @ fd_store_u16_le 1 @ fd_store_u16_le 0 @ fd_store_u32_le 5 @
          fd_store_u64_le (of_nat r)"]
      s [of "fd_store_u16_le 1 @ fd_store_u16_le 0 @ fd_store_u16_le 1 @ fd_store_u16_le 0 @ fd_store_u32_le 5 @
          fd_store_u64_le (of_nat r) @ fd_store_u32_le (of_nat (r div 1024))"]
    by (simp add: replay_manifest_stores_def manifest_bytes_def) (simp add: stores_def)
qed

text \<open>Magic, manifest and save.\<close>

definition file_head :: "fd_world \<Rightarrow> nat \<Rightarrow> nat \<Rightarrow> bytes" where
  "file_head w r a = fd_replay_magic @ frame 1 (manifest_bytes r a) @ frame 2 (save_file w)"

lemma length_manifest [simp]: "length (manifest_bytes r a) = 28"
  by (simp add: manifest_bytes_def)

lemma length_file_head [simp]: "length (file_head w r a) = 132 + length (save_file w)"
  by (simp add: file_head_def)

lemma head_written:
  fixes r a :: nat
  assumes n: "132 + length (save_file w) \<le> n" and buf: "n \<le> length buf" and sh: "world_shape w"
    and lim: "length (save_file w) \<le> unat (cx_max_file_bytes ctx)"
  defines "b1 \<equiv> fd_replay_write_section_header (stores [(0, replicate n 0), (0, fd_replay_magic)] buf) 8 1 28"
  defines "b2 \<equiv> fd_replay_finish_section
      (stores (replay_manifest_stores 24 (of_nat r) (of_nat (r div 1024)) (of_nat a)) b1) 24 28"
  defines "b3 \<equiv> fd_replay_write_section_header b2 84 2 (of_nat (length (save_file w)))"
  obtains d saved where "fd_world_save ctx (Some w) (Some (drop 100 b3)) (of_nat (length (save_file w))) (Some 0) diag =
      ((FD_OK, d), Some saved, Some (of_nat (length (save_file w))))"
    "fd_replay_finish_section (take 100 b3 @ saved) 100 (of_nat (length (save_file w))) =
      pad n (file_head w r a) @ drop n buf"
proof -
  let ?Y = "drop n buf" and ?s = "length (save_file w)"
  have us: "unat (of_nat ?s :: u64) = ?s" using save_file_bound [OF sh] by (simp add: unat_of_nat_u64)
  have "blit (replicate n 0 @ ?Y) 0 fd_replay_magic = pad n fd_replay_magic @ ?Y"
    using blit_pad [of "[]" fd_replay_magic n 0 "[]" ?Y] n by (simp add: pad_def)
  then have b0: "stores [(0, replicate n 0), (0, fd_replay_magic)] buf = pad n fd_replay_magic @ ?Y"
    using buf by (simp add: stores_def blit_def)
  have e1: "b1 = pad n (fd_replay_magic @ section_header 1 1 28) @ ?Y"
    unfolding b1_def b0 by (rule header_next) (use n in simp_all)
  have m: "blit b1 24 (manifest_bytes r a) = pad n ((fd_replay_magic @ section_header 1 1 28) @ manifest_bytes r a) @ ?Y"
    unfolding e1 by (rule store_pad) (use n in simp_all)
  have "24 + 28 \<le> length b1" unfolding e1 using n by simp
  then have e2: "b2 = pad n (fd_replay_magic @ frame 1 (manifest_bytes r a)) @ ?Y"
    unfolding b2_def by (subst manifest_stores, simp, unfold m, subst finish_pad) (use n in \<open>simp_all add: frame_def\<close>)
  have e3: "b3 = pad n ((fd_replay_magic @ frame 1 (manifest_bytes r a)) @ section_header 2 1 (of_nat ?s)) @ ?Y"
    unfolding b3_def e2 by (rule header_next) (use n in simp_all)
  have room: "100 + ?s \<le> length b3" unfolding e3 using n by simp
  obtain d where sv: "fd_world_save ctx (Some w) (Some (drop 100 b3)) (of_nat ?s) (Some 0) diag =
      ((FD_OK, d), Some (drop 100 (blit b3 100 (save_file w))), Some (of_nat ?s))"
    and join: "take 100 b3 @ drop 100 (blit b3 100 (save_file w)) = blit b3 100 (save_file w)"
    using save_blit [OF sh lim room, of 0 diag] by blast
  have "blit b3 100 (save_file w) = pad n (((fd_replay_magic @ frame 1 (manifest_bytes r a)) @ section_header 2 1 (of_nat ?s)) @ save_file w) @ ?Y"
    unfolding e3 by (rule store_pad) (use n in simp_all)
  then have "fd_replay_finish_section (take 100 b3 @ drop 100 (blit b3 100 (save_file w))) 100 (of_nat ?s) =
      pad n (file_head w r a) @ ?Y"
    unfolding join by (simp only:, subst finish_pad) (use n us in \<open>simp_all add: file_head_def frame_def\<close>)
  with sv show thesis by (rule that)
qed

section \<open>The last three sections\<close>

text \<open>Header and count in front of what the decision loop fills in.\<close>

definition opening3 :: "nat \<Rightarrow> bytes" where
  "opening3 r = section_header 3 1 (of_nat (8 + 228 * r)) @ fd_store_u64_le (of_nat r)"

definition opening4 :: "nat \<Rightarrow> bytes" where
  "opening4 a = section_header 4 1 (of_nat (4 + 328 * a)) @ fd_store_u32_le (of_nat a)"

definition opening5 :: "nat \<Rightarrow> nat \<Rightarrow> bytes" where
  "opening5 s n = section_header 5 1 (of_nat (4 + (16 + s) * n)) @ fd_store_u32_le (of_nat n)"

lemma length_openings [simp]: "length (opening3 r) = 24" "length (opening4 a) = 20" "length (opening5 s n) = 20"
  by (simp_all add: opening3_def opening4_def opening5_def)

definition replay_frame :: "fd_world \<Rightarrow> nat \<Rightarrow> nat \<Rightarrow> bytes \<Rightarrow> build_frame" where
  "replay_frame w r a Y =
     (let s = length (save_file w); n = r div 1024 in
      \<lparr>bf_x = file_head w r a @ opening3 r, bf_records = 228 * r,
       bf_y = replicate 32 0 @ opening4 a, bf_audits = 328 * a,
       bf_z = replicate 32 0 @ opening5 s n, bf_checkpoints = (16 + s) * n,
       bf_w = replicate 32 0 @ replicate 32 0 @ Y\<rparr>)"

lemma frame_places:
  "length (bf_x (replay_frame w r a Y)) = 156 + length (save_file w)"
  "audits_at (replay_frame w r a Y) = 208 + length (save_file w) + 228 * r"
  "checkpoints_at (replay_frame w r a Y) = 260 + length (save_file w) + 228 * r + 328 * a"
  by (simp_all add: audits_at_def checkpoints_at_def replay_frame_def Let_def)

lemma replicate_swap: "replicate i x @ replicate j x = replicate j x @ replicate i x"
  by (simp add: replicate_add [symmetric] add.commute)

lemma openings_written:
  fixes w :: fd_world and r a :: nat and Y :: bytes
  assumes n: "n = replay_size (length (save_file w)) r a"
    and rl: "rl = of_nat (8 + 228 * r)" "unat rl = 8 + 228 * r"
    and al: "al = of_nat (4 + 328 * a)" "unat al = 4 + 328 * a"
    and cl: "cl = of_nat (4 + (16 + length (save_file w)) * (r div 1024))"
  defines "p3 \<equiv> 148 + length (save_file w)"
  defines "p4 \<equiv> p3 + unat rl + 32 + 16"
  defines "p5 \<equiv> p4 + unat al + 32 + 16"
  defines "b3 \<equiv> blit (fd_replay_write_section_header (pad n (file_head w r a) @ Y) (132 + length (save_file w)) 3 rl)
      p3 (fd_store_u64_le (of_nat r))"
  defines "b4 \<equiv> blit (fd_replay_write_section_header b3 (p3 + unat rl + 32) 4 al) p4 (fd_store_u32_le (of_nat a))"
  shows "blit (fd_replay_write_section_header b4 (p4 + unat al + 32) 5 cl) p5 (fd_store_u32_le (of_nat (r div 1024))) =
    regions (replay_frame w r a Y) [] [] []"
proof -
  let ?s = "length (save_file w)" and ?c = "r div 1024"
  have n': "n = 324 + ?s + 228 * r + 328 * a + (16 + ?s) * ?c" by (simp add: n replay_size_def)
  have "b3 = pad n ((file_head w r a @ section_header 3 1 rl) @ fd_store_u64_le (of_nat r)) @ Y"
    unfolding b3_def by (subst header_next, simp add: n', simp, rule store_pad) (simp_all add: n' p3_def)
  then have b3: "b3 = pad n (file_head w r a @ opening3 r) @ Y" by (simp add: opening3_def rl(1))
  have "b4 = pad n (((file_head w r a @ opening3 r) @ replicate (228 * r + 32) 0 @ section_header 4 1 al) @ fd_store_u32_le (of_nat a)) @ Y"
    unfolding b4_def b3
    by (subst header_pad [where g = "228 * r + 32"], simp add: n', simp add: p3_def rl(2), rule store_pad)
      (simp_all add: n' p3_def p4_def rl(2))
  then have b4: "b4 = pad n (file_head w r a @ opening3 r @ replicate (228 * r + 32) 0 @ opening4 a) @ Y"
    by (simp add: opening4_def al(1))
  have "blit (fd_replay_write_section_header b4 (p4 + unat al + 32) 5 cl) p5 (fd_store_u32_le (of_nat ?c)) =
      pad n (((file_head w r a @ opening3 r @ replicate (228 * r + 32) 0 @ opening4 a) @ replicate (328 * a + 32) 0 @
        section_header 5 1 cl) @ fd_store_u32_le (of_nat ?c)) @ Y"
    unfolding b4
    by (subst header_pad [where g = "328 * a + 32"], simp add: n', simp add: p3_def p4_def rl(2) al(2), rule store_pad)
      (simp_all add: n' p3_def p4_def p5_def rl(2) al(2))
  also have "\<dots> = regions (replay_frame w r a Y) [] [] []"
    by (simp add: opening5_def cl regions_def replay_frame_def Let_def pad_def n' replicate_add [symmetric])
      (simp add: replicate_add, rule replicate_swap)
  finally show ?thesis .
qed

lemma sections_finished:
  fixes w :: fd_world and r a :: nat and Y :: bytes
  assumes rs: "length RS = 228 * r" and as: "length AS = 328 * a"
    and cs: "length CS = (16 + length (save_file w)) * (r div 1024)"
    and rl: "unat rl = 8 + 228 * r" and al: "unat al = 4 + 328 * a"
    and cl: "unat cl = 4 + (16 + length (save_file w)) * (r div 1024)"
  defines "p3 \<equiv> 148 + length (save_file w)"
  defines "p4 \<equiv> p3 + unat rl + 32 + 16"
  defines "p5 \<equiv> p4 + unat al + 32 + 16"
  defines "pay3 \<equiv> fd_store_u64_le (of_nat r) @ RS" and "pay4 \<equiv> fd_store_u32_le (of_nat a) @ AS"
    and "pay5 \<equiv> fd_store_u32_le (of_nat (r div 1024)) @ CS"
  shows "fd_replay_finish_section (fd_replay_finish_section (fd_replay_finish_section
      (regions (replay_frame w r a Y) RS AS CS) p3 rl) p4 al) p5 cl =
    file_head w r a @ frame 3 pay3 @ frame 4 pay4 @ frame 5 pay5 @ replicate 32 0 @ Y"
proof -
  let ?s = "length (save_file w)" and ?c = "r div 1024" and ?Z = "replicate 32 0 :: bytes"
  define h3 h4 h5 where "h3 = section_header 3 1 (of_nat (8 + 228 * r))"
    and "h4 = section_header 4 1 (of_nat (4 + 328 * a))" and "h5 = section_header 5 1 (of_nat (4 + (16 + ?s) * ?c))"
  note len = h3_def h4_def h5_def p3_def p4_def p5_def pay3_def pay4_def pay5_def rl al cl rs as cs
  have start: "regions (replay_frame w r a Y) RS AS CS =
      (file_head w r a @ h3) @ pay3 @ ?Z @ (h4 @ pay4 @ ?Z @ h5 @ pay5 @ ?Z @ ?Z @ Y)"
    using rs as cs
    by (simp add: regions_def replay_frame_def Let_def pad_full opening3_def opening4_def opening5_def
        h3_def h4_def h5_def pay3_def pay4_def pay5_def)
  have f3: "frame 3 pay3 = h3 @ pay3 @ sha256 pay3" and f4: "frame 4 pay4 = h4 @ pay4 @ sha256 pay4"
    and f5: "frame 5 pay5 = h5 @ pay5 @ sha256 pay5"
    by (simp_all add: frame_def h3_def h4_def h5_def pay3_def pay4_def pay5_def rs as cs)
  have "fd_replay_finish_section (regions (replay_frame w r a Y) RS AS CS) p3 rl =
      (file_head w r a @ h3) @ pay3 @ sha256 pay3 @ (h4 @ pay4 @ ?Z @ h5 @ pay5 @ ?Z @ ?Z @ Y)"
    unfolding start by (rule finish_section) (simp_all add: len)
  also have "\<dots> = (file_head w r a @ frame 3 pay3 @ h4) @ pay4 @ ?Z @ (h5 @ pay5 @ ?Z @ ?Z @ Y)"
    by (simp add: f3)
  also have "fd_replay_finish_section \<dots> p4 al =
      (file_head w r a @ frame 3 pay3 @ h4) @ pay4 @ sha256 pay4 @ (h5 @ pay5 @ ?Z @ ?Z @ Y)"
    by (rule finish_section) (simp_all add: len)
  also have "\<dots> = (file_head w r a @ frame 3 pay3 @ frame 4 pay4 @ h5) @ pay5 @ ?Z @ (?Z @ Y)"
    by (simp add: f4)
  also have "fd_replay_finish_section \<dots> p5 cl =
      (file_head w r a @ frame 3 pay3 @ frame 4 pay4 @ h5) @ pay5 @ sha256 pay5 @ (?Z @ Y)"
    by (rule finish_section) (simp_all add: len)
  finally show ?thesis by (simp add: f5)
qed

section \<open>The decision loop between them\<close>

lemma word_sum: "a + b * c < 2 ^ 64 \<Longrightarrow> unat (of_nat a + of_nat b * of_nat c :: u64) = a + b * c"
  unfolding of_nat_mult [symmetric] of_nat_add [symmetric] by (rule unat_of_nat_u64) simp

lemma ucast_of_nat: "n < 2 ^ 32 \<Longrightarrow> (ucast (of_nat n :: u32) :: u64) = of_nat n"
  by (simp add: word_unat_eq_iff unat_of_nat_u32 unat_of_nat_u64)

lemma played_wires:
  assumes "\<forall>d\<in>set ds. decision_shape d"
  shows "\<forall>r\<in>set (played_records w ds). record_wire r" and "\<forall>a\<in>set (played_audits k w ds). audit_wire a"
  using assms by (induction ds arbitrary: w k) (auto simp: record_of_wire audit_of_wire)

text \<open>Places and lengths of the last three payloads, as the code computes them.\<close>

definition records_length :: "nat \<Rightarrow> u64" where
  "records_length r = 8 + of_nat r * FD_REPLAY_RECORD_WIRE_SIZE"

definition audits_length :: "nat \<Rightarrow> u64" where
  "audits_length a = 4 + ucast (of_nat a :: u32) * FD_REPLAY_AUDIT_WIRE_SIZE"

definition checkpoints_length :: "nat \<Rightarrow> nat \<Rightarrow> u64" where
  "checkpoints_length s n = 4 + ucast (of_nat n :: u32) * (16 + of_nat s)"

lemma section_lengths:
  assumes "replay_size s r a < 2 ^ 64" and "a < 2 ^ 32" and "r < 2 ^ 42"
  shows "records_length r = of_nat (8 + 228 * r)" "unat (records_length r) = 8 + 228 * r"
    "audits_length a = of_nat (4 + 328 * a)" "unat (audits_length a) = 4 + 328 * a"
    "checkpoints_length s (r div 1024) = of_nat (4 + (16 + s) * (r div 1024))"
    "unat (checkpoints_length s (r div 1024)) = 4 + (16 + s) * (r div 1024)"
  using word_sum [of 8 r 228] word_sum [of 4 a 328] word_sum [of 4 "r div 1024" "16 + s"] assms
  by (simp_all add: records_length_def audits_length_def checkpoints_length_def replay_size_def ucast_of_nat mult.commute)

definition payload3_at :: "nat \<Rightarrow> nat" where "payload3_at s = 132 + s + 16"

definition payload4_at :: "nat \<Rightarrow> nat \<Rightarrow> nat" where
  "payload4_at s r = payload3_at s + unat (records_length r) + 32 + 16"

definition payload5_at :: "nat \<Rightarrow> nat \<Rightarrow> nat \<Rightarrow> nat" where
  "payload5_at s r a = payload4_at s r + unat (audits_length a) + 32 + 16"

definition finished_sections :: "nat \<Rightarrow> nat \<Rightarrow> nat \<Rightarrow> bytes \<Rightarrow> bytes" where
  "finished_sections s r a bytes =
     fd_replay_finish_section (fd_replay_finish_section
       (fd_replay_finish_section bytes (payload3_at s) (records_length r))
       (payload4_at s r) (audits_length a)) (payload5_at s r a) (checkpoints_length s (r div 1024))"

lemma body_layout:
  fixes w :: fd_world and r a :: nat and Y :: bytes
  defines "s \<equiv> length (save_file w)"
  assumes n: "n = replay_size s r a" "n < 2 ^ 64" and a: "a < 2 ^ 32" and r: "r < 2 ^ 42"
  defines "start \<equiv> regions (replay_frame w r a Y) [] [] []"
  shows "build_body ctx w ds (of_nat n) (of_nat s) (of_nat r) (of_nat a) (of_nat (r div 1024)) (132 + s)
      (pad n (file_head w r a) @ Y) diag =
     (case fd_world_clone_via_save ctx (Some w) (Some None) diag of
        ((result, diag), ctx, work) \<Rightarrow>
          if result \<noteq> FD_OK then ((result, diag), ctx, start, 0)
          else case scan_sum (build_attempt ctx (of_nat s)) (enumerate 0 ds)
                 \<lparr>bs_work = the work, bs_bytes = start, bs_record_cursor = payload3_at s + 8,
                  bs_audit_cursor = payload4_at s r + 4, bs_checkpoint_cursor = payload5_at s r a + 4,
                  bs_accepted_index = 0, bs_diag = diag\<rparr> of
            Inl (res, t) \<Rightarrow> (res, dispose ctx (bs_work t), bs_bytes t, 0)
          | Inr t \<Rightarrow>
              if bs_record_cursor t \<noteq> payload3_at s + unat (records_length r) \<or>
                 bs_audit_cursor t \<noteq> payload4_at s r + unat (audits_length a) \<or>
                 bs_checkpoint_cursor t \<noteq> payload5_at s r a + unat (checkpoints_length s (r div 1024))
              then (fd_diag_set (bs_diag t) FD_ERR_INTERNAL FD_FIELD_FILE_BYTES 0
                      (str ''replay record cursor mismatch''), dispose ctx (bs_work t), bs_bytes t, 0)
              else (fd_diag_ok (bs_diag t), dispose ctx (bs_work t),
                    blit (finished_sections s r a (bs_bytes t)) (n - 32)
                      (fd_replay_footer_digest (finished_sections s r a (bs_bytes t)) (n - 32)), of_nat n))"
proof -
  note len = section_lengths [OF n(2) [unfolded n(1)] a r]
  have un: "unat (of_nat n :: u64) = n" using n(2) by (simp add: unat_of_nat_u64)
  have "(32 :: u64) \<le> of_nat n" using n(1) un by (simp add: word_le_nat_alt replay_size_def)
  then have un32: "unat (of_nat n - 32 :: u64) = n - 32" by (simp add: unat_sub un)
  have p3: "148 + s = payload3_at s" by (simp add: payload3_at_def)
  note b5 = openings_written [of n w r a "records_length r" "audits_length a" "checkpoints_length s (r div 1024)" Y,
      folded s_def start_def, OF n(1) len(1-5), unfolded p3, folded payload4_at_def, folded payload5_at_def]
  have total: "payload5_at s r a + unat (checkpoints_length s (r div 1024)) + 32 + 32 = n"
    by (simp add: payload5_at_def payload4_at_def payload3_at_def len(2,4,6) n(1) replay_size_def)
  show ?thesis
    unfolding build_body_def Let_def un un32 records_length_def [symmetric] audits_length_def [symmetric]
      checkpoints_length_def [symmetric] payload3_at_def [symmetric] payload4_at_def [symmetric]
      payload5_at_def [symmetric] b5 finished_sections_def [symmetric]
    by (simp add: total)
qed

lemma body_bytes:
  fixes w' :: fd_world and Y :: bytes
  assumes sh: "world_shape v" and wires: "\<forall>r\<in>set rs. record_wire r" "\<forall>a\<in>set as. audit_wire a"
    and same: "save_file w' = save_file v"
  defines "s \<equiv> length (save_file v)" and "r \<equiv> length rs" and "a \<equiv> length as"
  assumes n: "replay_size s r a < 2 ^ 64" "a < 2 ^ 32" "r < 2 ^ 42"
  shows "finished_sections s r a (regions (replay_frame w' r a Y) (concat (map fd_encode_replay_record rs))
      (concat (map audit_encoding as)) (checkpoints_between v 0 r)) = replay_body v rs as @ replicate 32 0 @ Y"
proof -
  note len = section_lengths [OF n]
  have s: "length (save_file w') = s" by (simp add: s_def same)
  have lens: "length (concat (map fd_encode_replay_record rs)) = 228 * r" "length (concat (map audit_encoding as)) = 328 * a"
    "length (checkpoints_between v 0 r) = (16 + s) * (r div 1024)"
    using payload_lengths [OF sh wires] length_checkpoints_between [OF sh, of 0 r]
    by (simp_all add: records_bytes_def audits_bytes_def r_def a_def s_def)
  have p3: "148 + s = payload3_at s" by (simp add: payload3_at_def)
  show ?thesis
    using sections_finished [where w = w' and Y = Y, unfolded s, OF lens len(2,4,6), unfolded p3, folded payload4_at_def,
        folded payload5_at_def, folded finished_sections_def] same
    by (simp add: replay_body_def replay_sections_def file_head_def records_bytes_def audits_bytes_def
        checkpoints_bytes_def checkpoints_between_def r_def a_def)
qed

lemma body_written:
  fixes ctx :: "'u fd_context" and Y :: bytes
  assumes st: "storable w" and shapes: "\<forall>d\<in>set ds. decision_shape d"
  defines "v \<equiv> reloaded (cx_id ctx) w" and "s \<equiv> length (save_file w)"
  defines "rs \<equiv> played_records v ds" and "as \<equiv> played_audits 0 v ds"
  defines "r \<equiv> length rs" and "a \<equiv> length as"
  assumes n: "n = replay_size s r a" "n < 2 ^ 64" and lim: "s \<le> unat (cx_max_file_bytes ctx)"
    and r: "r < 2 ^ 42" and a: "a < 2 ^ 32" and ds: "length ds < 2 ^ 64"
  obtains (written) d ctx' where "build_body ctx w ds (of_nat n) (of_nat s) (of_nat r) (of_nat a) (of_nat (r div 1024))
      (132 + s) (pad n (file_head w r a) @ Y) diag = ((FD_OK, d), ctx', replay_file v rs as @ Y, of_nat n)"
      "charged 0 0 ctx ctx'"
  | (failed) e ctx' b where "build_body ctx w ds (of_nat n) (of_nat s) (of_nat r) (of_nat a) (of_nat (r div 1024))
      (132 + s) (pad n (file_head w r a) @ Y) diag = (e, ctx', b, 0)" "fst e \<noteq> FD_OK" "charged 0 0 ctx ctx'"
      "\<not> affords ctx w"
proof -
  let ?f = "replay_frame w r a Y"
  note body = body_layout [of n w r a ctx ds Y diag, folded s_def, OF n a r]
  show thesis
    using st
  proof (cases rule: clone_cases [where ctx = ctx and old = None and diag = diag])
    case (failed e ctx')
    then show thesis using that(2) [of e ctx'] body by (cases e) simp
  next
    case (cloned d ctx')
    have sh: "world_shape v" and val: "world_valid v"
      using storable_reloaded [OF st, of "cx_id ctx"] by (simp_all add: v_def storable_def)
    have sv: "length (save_file v) = s" by (simp add: v_def s_def)
    have wires: "\<forall>r\<in>set rs. record_wire r" "\<forall>a\<in>set as. audit_wire a"
      using played_wires [OF shapes] by (simp_all add: rs_def as_def)
    define RS AS CS where "RS = concat (map fd_encode_replay_record rs)" and "AS = concat (map audit_encoding as)"
      and "CS = checkpoints_between v 0 r"
    have lens: "length RS = 228 * r" "length AS = 328 * a" "length CS = (16 + s) * (r div 1024)"
      using payload_lengths [OF sh wires] length_checkpoints_between [OF sh, of 0 r] sv
      by (simp_all add: RS_def AS_def CS_def records_bytes_def audits_bytes_def r_def a_def)
    have "fits ?f RS AS CS" by (simp add: fits_def replay_frame_def Let_def lens s_def)
    moreover have lim': "s \<le> unat (cx_max_file_bytes ctx')" using lim charged_fields(4) [OF cloned(2)] by simp
    ultimately obtain d' where loop: "scan_sum (build_attempt ctx' (of_nat s)) (enumerate 0 ds) (filling ?f v 0 [] [] [] d) =
        Inr (filling ?f v r RS AS CS d')"
      using build_loop [OF sh val _ shapes, where i = 0 and k = 0 and ctx = ctx' and rd = "[]" and ad = "[]" and cd = "[]" and f = ?f and d = d] ds
      by (auto simp: sv RS_def AS_def CS_def rs_def as_def r_def)
    have written: "finished_sections s r a (regions ?f RS AS CS) = replay_body v rs as @ replicate 32 0 @ Y"
      using body_bytes [OF sh wires, where w' = w and Y = Y] n a r by (simp add: s_def RS_def AS_def CS_def r_def a_def v_def)
    have len: "length (replay_body v rs as) = n - 32"
      using length_replay_file [OF sh wires] n(1) by (simp add: sv r_def a_def)
    then have footer: "blit (replay_body v rs as @ replicate 32 0 @ Y) (n - 32)
        (fd_replay_footer_digest (replay_body v rs as @ replicate 32 0 @ Y) (n - 32)) = replay_file v rs as @ Y"
      by (simp add: replay_file_def blit_def fd_replay_footer_digest_def)
    have "charged 0 0 ctx (dispose ctx' (Some (world_at v r)))"
      using cloned(2) by (rule dispose_loaded) (simp add: v_def)
    note places = payload3_at_def payload4_at_def payload5_at_def frame_places
      section_lengths(2,4,6) [OF n(2) [unfolded n(1)] a r] s_def [symmetric]
    have start: "\<lparr>bs_work = Some v, bs_bytes = regions ?f [] [] [], bs_record_cursor = payload3_at s + 8,
        bs_audit_cursor = payload4_at s r + 4, bs_checkpoint_cursor = payload5_at s r a + 4,
        bs_accepted_index = 0, bs_diag = d\<rparr> = filling ?f v 0 [] [] [] d"
      by (simp add: filling_def places)
    have final: "bs_record_cursor (filling ?f v r RS AS CS d') = payload3_at s + unat (records_length r)"
      "bs_audit_cursor (filling ?f v r RS AS CS d') = payload4_at s r + unat (audits_length a)"
      "bs_checkpoint_cursor (filling ?f v r RS AS CS d') = payload5_at s r a + unat (checkpoints_length s (r div 1024))"
      "bs_work (filling ?f v r RS AS CS d') = Some (world_at v r)" "bs_bytes (filling ?f v r RS AS CS d') = regions ?f RS AS CS"
      by (simp_all add: filling_def places lens)
    have "build_body ctx w ds (of_nat n) (of_nat s) (of_nat r) (of_nat a) (of_nat (r div 1024)) (132 + s)
        (pad n (file_head w r a) @ Y) diag =
        (fd_diag_ok (bs_diag (filling ?f v r RS AS CS d')), dispose ctx' (Some (world_at v r)), replay_file v rs as @ Y, of_nat n)"
      by (simp add: body cloned(1) v_def [symmetric] start loop final written footer)
    then show thesis
      using that(1) \<open>charged 0 0 ctx (dispose ctx' (Some (world_at v r)))\<close> by (simp add: diag_ok_fst)
  qed
qed

end
