(* ===== verification/FD_Rebuilt.thy ===== *)
theory FD_Rebuilt
  imports FD_Built
begin

text \<open>
  The three public entry points of the replay builder: the size query, the build into a buffer and
  the transactional build.
\<close>

unbundle bit_operations_syntax

section \<open>What is built\<close>

text \<open>The file of the run of \<open>ds\<close> from the canonical form of \<open>w\<close> in the context of address \<open>i\<close>.\<close>

definition replay_of :: "nat \<Rightarrow> fd_world \<Rightarrow> fd_joint_decision list \<Rightarrow> bytes" where
  "replay_of i w ds = (let v = reloaded i w in replay_file v (played_records v ds) (played_audits 0 v ds))"

text \<open>What a successful build needs: room for a copy of the world, and counts and size in their ranges.\<close>

definition buildable :: "'u fd_context \<Rightarrow> fd_world \<Rightarrow> fd_joint_decision list \<Rightarrow> bool" where
  "buildable ctx w ds \<longleftrightarrow> (let v = reloaded (cx_id ctx) w in
     affords ctx w \<and> length (played_audits 0 v ds) < 2 ^ 32 \<and> length (played_records v ds) < 2 ^ 42 \<and>
     length (replay_of (cx_id ctx) w ds) \<le> unat (cx_max_file_bytes ctx))"

lemma length_replay_of:
  assumes "storable w" and "\<forall>d\<in>set ds. decision_shape d"
  shows "length (replay_of i w ds) = replay_size (length (save_file w))
    (length (played_records (reloaded i w) ds)) (length (played_audits 0 (reloaded i w) ds))"
  using length_replay_file(1) [OF _ played_wires [OF assms(2)], of "reloaded i w"] storable_reloaded [OF assms(1), of i]
  by (simp add: replay_of_def Let_def storable_def)

lemma replay_size_counts: "228 * (r + a) \<le> replay_size s r a" and replay_size_save: "s + 324 \<le> replay_size s r a"
  by (simp_all add: replay_size_def)

lemma classified_size:
  fixes ctx :: "'u fd_context"
  assumes st: "storable w" and shapes: "\<forall>d\<in>set ds. decision_shape d" and ds: "length ds < 2 ^ 64"
  defines "v \<equiv> reloaded (cx_id ctx) w" and "m \<equiv> length (replay_of (cx_id ctx) w ds)"
  obtains (sized) d ctx' where
      "fd_replay_classify_attempts ctx (Some w) (Some ds) (of_nat (length ds)) (Some x) (Some y) diag =
        ((FD_OK, d), ctx', Some (of_nat (length (played_records v ds))), Some (of_nat (length (played_audits 0 v ds))))"
      "charged 0 0 ctx ctx'" "length (played_audits 0 v ds) < 2 ^ 32" "length (played_records v ds) < 2 ^ 42"
      "\<And>x y z. fd_replay_size_internal ctx' (Some w) (of_nat (length (played_records v ds))) (of_nat (length (played_audits 0 v ds)))
         (Some x) (Some y) (Some z) = (FD_OK, Some (of_nat m), Some (of_nat (length (save_file w))),
         Some (of_nat (length (played_records v ds) div 1024)))"
      "m \<le> unat (cx_max_file_bytes ctx)"
  | (wide) d ctx' r a where
      "fd_replay_classify_attempts ctx (Some w) (Some ds) (of_nat (length ds)) (Some x) (Some y) diag =
        ((FD_OK, d), ctx', Some r, Some a)" "charged 0 0 ctx ctx'"
      "\<And>x y z. case fd_replay_size_internal ctx' (Some w) r a (Some x) (Some y) (Some z) of (result, t, _) \<Rightarrow>
         result \<noteq> FD_OK \<or> the t > cx_max_file_bytes ctx'" "\<not> buildable ctx w ds"
  | (refused) r ctx' where "fd_replay_classify_attempts ctx (Some w) (Some ds) (of_nat (length ds)) (Some x) (Some y) diag =
      (r, ctx', Some 0, Some 0)" "fst r \<noteq> FD_OK" "charged 0 0 ctx ctx'" "\<not> buildable ctx w ds"
proof -
  have m: "m = replay_size (length (save_file w)) (length (played_records v ds)) (length (played_audits 0 v ds))"
    using length_replay_of [OF st shapes] by (simp add: m_def v_def)
  have n: "length (played_records v ds) + length (played_audits 0 v ds) = length ds" by (rule played_length)
  have sh: "world_shape w" using st by (simp add: storable_def)
  show thesis
    using st ds
  proof (cases rule: classify_cases [where ctx = ctx and x = x and y = y and diag = diag])
    case (classified d ctx')
    have r: "length (played_records v ds) < 2 ^ 64" using n ds by simp
    note exact = size_internal_exact [OF sh r classified(3) [folded v_def], where ctx = ctx', folded m]
    have mx: "cx_max_file_bytes ctx' = cx_max_file_bytes ctx" using charged_fields(4) [OF classified(2)] .
    show thesis
    proof (cases "length (played_records v ds) < 2 ^ 42 \<and> m \<le> unat (cx_max_file_bytes ctx)")
      case True
      show thesis
      proof (rule sized [OF classified(1-3) [folded v_def]])
        show "fd_replay_size_internal ctx' (Some w) (of_nat (length (played_records v ds))) (of_nat (length (played_audits 0 v ds)))
         (Some x) (Some y) (Some z) = (FD_OK, Some (of_nat m), Some (of_nat (length (save_file w))),
         Some (of_nat (length (played_records v ds) div 1024)))" for x y z
          using exact [where x = x and y = y and z = z] True by (auto simp: mx split: prod.splits)
      qed (use True in simp_all)
    next
      case False
      then have no: "\<not> buildable ctx w ds" by (simp add: buildable_def Let_def v_def m_def)
      show thesis
      proof (rule wide [OF classified(1,2) _ no])
        show "case fd_replay_size_internal ctx' (Some w) (of_nat (length (played_records (reloaded (cx_id ctx) w) ds)))
          (of_nat (length (played_audits 0 (reloaded (cx_id ctx) w) ds))) (Some x) (Some y) (Some z) of (result, t, _) \<Rightarrow>
          result \<noteq> FD_OK \<or> the t > cx_max_file_bytes ctx'" for x y z
          using exact [where x = x and y = y and z = z] False by (auto simp: mx v_def [symmetric] split: prod.splits)
      qed
    qed
  next
    case (refused r ctx')
    have "\<not> buildable ctx w ds"
    proof
      assume b: "buildable ctx w ds"
      then have "228 * length ds \<le> unat (cx_max_file_bytes ctx)"
        using replay_size_counts [of "length (played_records v ds)" "length (played_audits 0 v ds)" "length (save_file w)"] n
        by (simp add: buildable_def Let_def m_def [symmetric] m)
      then show False using b refused(4) by (simp add: buildable_def Let_def v_def)
    qed
    then show thesis using that(3) refused(1-3) by blast
  qed
qed

section \<open>The size query\<close>

lemma build_size_cases:
  fixes ctx :: "'u fd_context"
  assumes st: "storable w" and zero: "w_tick w = 0" and shapes: "\<forall>d\<in>set ds. decision_shape d" and ds: "length ds < 2 ^ 64"
  defines "m \<equiv> length (replay_of (cx_id ctx) w ds)"
  obtains (sized) d ctx' where "fd_replay_build_size ctx (Some w) (Some ds) (of_nat (length ds)) (Some x) diag =
      ((FD_OK, d), ctx', Some (of_nat m))" "charged 0 0 ctx ctx'" "m \<le> unat (cx_max_file_bytes ctx)"
  | (failed) r ctx' y where "fd_replay_build_size ctx (Some w) (Some ds) (of_nat (length ds)) (Some x) diag =
      (r, ctx', y)" "fst r \<noteq> FD_OK" "charged 0 0 ctx ctx'" "\<not> buildable ctx w ds"
  using st shapes ds
proof (cases rule: classified_size [where ctx = ctx and x = 0 and y = 0 and diag = diag])
  case (sized d ctx')
  have "unat (of_nat m :: u64) = m"
    using sized(6) unat_lt_u64 [of "cx_max_file_bytes ctx"] by (simp add: m_def unat_of_nat_u64)
  then have "\<not> of_nat m > cx_max_file_bytes ctx'"
    using sized(6) charged_fields(4) [OF sized(2)] by (simp add: m_def word_less_nat_alt)
  then show thesis
    using that(1) [OF _ sized(2)] sized zero by (simp add: fd_replay_build_size_def m_def diag_ok_fst)
next
  case (wide d ctx' r a)
  obtain result t s c where si: "fd_replay_size_internal ctx' (Some w) r a (Some x) (Some 0) (Some 0) = (result, t, s, c)"
    by (metis prod.exhaust)
  then have "result \<noteq> FD_OK \<or> the t > cx_max_file_bytes ctx'" using wide(3) [where x = x and y = 0 and z = 0] by simp
  then show thesis
    using that(2) [OF _ _ wide(2,4)] wide(1) si zero by (simp add: fd_replay_build_size_def)
next
  case (refused r ctx')
  then show thesis
    using that(2) [OF _ _ refused(3,4)] zero by (cases r) (simp add: fd_replay_build_size_def)
qed

section \<open>Building into a buffer\<close>

lemma build_into_cases:
  fixes ctx :: "'u fd_context"
  assumes st: "storable w" and zero: "w_tick w = 0" and shapes: "\<forall>d\<in>set ds. decision_shape d" and ds: "length ds < 2 ^ 64"
    and buf: "unat capacity \<le> length buf"
  defines "file \<equiv> replay_of (cx_id ctx) w ds"
  obtains (written) d ctx' where
      "fd_replay_build_into ctx (Some w) (Some ds) (of_nat (length ds)) (Some buf) capacity (Some k) diag =
        ((FD_OK, d), ctx', Some (file @ drop (length file) buf), Some (of_nat (length file)))"
      "charged 0 0 ctx ctx'" "length file \<le> unat capacity" "length file \<le> unat (cx_max_file_bytes ctx)"
  | (failed) r ctx' buf' where
      "fd_replay_build_into ctx (Some w) (Some ds) (of_nat (length ds)) (Some buf) capacity (Some k) diag =
        (r, ctx', buf', Some 0)" "fst r \<noteq> FD_OK" "charged 0 0 ctx ctx'"
      "\<not> (buildable ctx w ds \<and> length file \<le> unat capacity)"
  using st shapes ds
proof (cases rule: classified_size [where ctx = ctx and x = 0 and y = 0 and diag = diag])
  case (wide d ctx' r a)
  obtain result t s c where si: "fd_replay_size_internal ctx' (Some w) r a (Some 0) (Some 0) (Some 0) = (result, t, s, c)"
    by (metis prod.exhaust)
  then have "result \<noteq> FD_OK \<or> the t > cx_max_file_bytes ctx'" using wide(3) [where x = 0 and y = 0 and z = 0] by simp
  then show thesis
    using that(2) [OF _ _ wide(2)] wide(1,4) si zero by (simp add: fd_replay_build_into_def)
next
  case (refused r ctx')
  then show thesis
    using that(2) [OF _ _ refused(3)] zero by (cases r) (simp add: fd_replay_build_into_def)
next
  case (sized d ctx')
  let ?v = "reloaded (cx_id ctx) w"
  define r a s where "r = length (played_records ?v ds)" and "a = length (played_audits 0 ?v ds)" and "s = length (save_file w)"
  define n where "n = replay_size s r a"
  note sized' = sized [folded r_def a_def s_def, folded file_def]
  have sh: "world_shape w" using st by (simp add: storable_def)
  have n: "length file = n" using length_replay_of [OF st shapes, of "cx_id ctx"] by (simp add: file_def n_def r_def a_def s_def)
  have n64: "n < 2 ^ 64" using sized'(6) unat_lt_u64 [of "cx_max_file_bytes ctx"] by (simp add: n)
  then have un: "unat (of_nat n :: u64) = n" by (simp add: unat_of_nat_u64)
  have mx: "cx_max_file_bytes ctx' = cx_max_file_bytes ctx" and id: "cx_id ctx' = cx_id ctx"
    using charged_fields [OF sized'(2)] by simp_all
  have over: "\<not> of_nat n > cx_max_file_bytes ctx'" using sized'(6) by (simp add: mx word_less_nat_alt un n)
  show thesis
  proof (cases "n \<le> unat capacity")
    case False
    then have small: "capacity < of_nat n" by (simp add: word_less_nat_alt un)
    show thesis
      using that(2) [OF _ _ sized'(2)] sized'(1,5) zero over small False
      by (simp add: fd_replay_build_into_def n)
  next
    case True
    have ns: "132 + s \<le> n" and s: "s \<le> unat (cx_max_file_bytes ctx')"
      using replay_size_save [of s r a] sized'(6) by (simp_all add: n_def [symmetric] mx n)
    have nb: "n \<le> length buf" using True buf by simp
    define b1 where "b1 = fd_replay_write_section_header (stores [(0, replicate n 0), (0, fd_replay_magic)] buf) 8 1 28"
    define b2 where "b2 = fd_replay_finish_section
      (stores (replay_manifest_stores 24 (of_nat r) (of_nat (r div 1024)) (of_nat a)) b1) 24 28"
    define b3 where "b3 = fd_replay_write_section_header b2 84 2 (of_nat s)"
    obtain d1 saved where save: "fd_world_save ctx' (Some w) (Some (drop 100 b3)) (of_nat s) (Some 0) d =
        ((FD_OK, d1), Some saved, Some (of_nat s))"
      and head: "fd_replay_finish_section (take 100 b3 @ saved) 100 (of_nat s) = pad n (file_head w r a) @ drop n buf"
      unfolding b3_def b2_def b1_def s_def
      by (rule head_written [OF ns [unfolded s_def] nb sh s [unfolded s_def]])
    have us: "unat (of_nat s :: u64) = s" using save_file_bound [OF sh] by (simp add: s_def unat_of_nat_u64)
    have into: "fd_replay_build_into ctx (Some w) (Some ds) (of_nat (length ds)) (Some buf) capacity (Some k) diag =
        (case build_body ctx' w ds (of_nat n) (of_nat s) (of_nat r) (of_nat a) (of_nat (r div 1024))
            (132 + s) (pad n (file_head w r a) @ drop n buf) d1 of (res, ctx, bytes, n) \<Rightarrow> (res, ctx, Some bytes, Some n))"
      using sized'(1,5) zero over True ds save head
      by (simp add: fd_replay_build_into_def Let_def n un us word_less_nat_alt attempts_def unat_of_nat_u64
          b1_def [symmetric] b2_def [symmetric] b3_def [symmetric])
    note body = body_written [where w = w and ds = ds and ctx = ctx' and n = n and Y = "drop n buf" and diag = d1, unfolded id,
        folded r_def a_def s_def, OF st shapes n_def n64 s sized'(4,3) ds]
    show thesis
    proof (rule body, goal_cases)
      case (1 d2 ctx2)
      then show thesis
        using that(1) [OF _ charged_zero_trans [OF sized'(2) 1(2)]] into True sized'(6)
        by (simp add: n) (simp add: file_def replay_of_def Let_def)
    next
      case (2 e ctx2 b)
      have "\<not> buildable ctx w ds"
        using 2(4) affords_charged [OF sized'(2)] by (simp add: buildable_def Let_def)
      then show thesis
        using that(2) [OF _ 2(2) charged_zero_trans [OF sized'(2) 2(3)]] into 2(1) by simp
    qed
  qed
qed

section \<open>The transactional build\<close>

lemma buildable_charged: "charged n h ctx ctx' \<Longrightarrow> buildable ctx' w ds = buildable ctx w ds"
  by (simp add: buildable_def Let_def affords_charged charged_fields)

lemma build_cases:
  fixes ctx :: "'u fd_context"
  assumes st: "storable w" and zero: "w_tick w = 0" and shapes: "\<forall>d\<in>set ds. decision_shape d" and ds: "length ds < 2 ^ 64"
    and buf: "unat capacity \<le> length buf"
  defines "file \<equiv> replay_of (cx_id ctx) w ds"
  obtains (built) d ctx' where
      "fd_replay_build ctx (Some w) (Some ds) (of_nat (length ds)) (Some buf) capacity (Some k) diag =
        ((FD_OK, d), ctx', Some (file @ drop (length file) buf), Some (of_nat (length file)))"
      "charged 0 0 ctx ctx'" "length file \<le> unat capacity" "length file \<le> unat (cx_max_file_bytes ctx)"
  | (failed) r ctx' where
      "fd_replay_build ctx (Some w) (Some ds) (of_nat (length ds)) (Some buf) capacity (Some k) diag =
        (r, ctx', Some buf, Some 0)" "fst r \<noteq> FD_OK" "charged 0 0 ctx ctx'"
      "\<not> (buildable ctx w ds \<and> length file \<le> unat capacity)"
  using st zero shapes ds
proof (cases rule: build_size_cases [where ctx = ctx and x = 0 and diag = diag])
  case (failed r ctx' y)
  then show thesis using that(2) [OF _ failed(2,3)] by (cases r) (simp add: fd_replay_build_def)
next
  case (sized d ctx1)
  let ?n = "of_nat (length file) :: u64"
  note sized' = sized [folded file_def]
  have un: "unat ?n = length file"
    using sized'(3) unat_lt_u64 [of "cx_max_file_bytes ctx"] by (simp add: unat_of_nat_u64)
  have pos: "0 < ?n"
    using un length_replay_of [OF st shapes, of "cx_id ctx"]
    by (simp add: word_less_nat_alt file_def replay_size_def)
  show thesis
  proof (cases "length file \<le> unat capacity")
    case False
    then show thesis
      using that(2) [OF _ _ sized'(2)] sized'(1) by (simp add: fd_replay_build_def word_less_nat_alt un)
  next
    case True
    obtain ok ctx2 where al: "fd_context_alloc ctx1 ?n = (ok, ctx2)" by fastforce
    have c2: "charged (if ok then ?n else 0) 0 ctx ctx2" using charged_zero_trans [OF sized'(2) charged_alloc [OF al]] .
    show thesis
    proof (cases ok)
      case no: False
      have "\<not> willing ctx1" using alloc_willing [OF _ pos, of ctx1] al no by auto
      then have "\<not> buildable ctx w ds"
        using buildable_charged [OF sized'(2), of w ds] by (auto simp: buildable_def affords_def Let_def)
      then show thesis
        using that(2) no True c2 sized'(1) al by (simp add: fd_replay_build_def word_less_nat_alt un)
    next
      case yes: True
      then have c2: "charged ?n 0 ctx ctx2" using c2 by simp
      have id: "cx_id ctx2 = cx_id ctx" using charged_fields(3) [OF c2] .
      have freed: "charged 0 0 ctx (fd_context_free c ?n)" if "charged 0 0 ctx2 c" for c
        using charged_trans [OF charged_trans [OF c2 that] charged_free, of ?n] by simp
      have room: "unat ?n \<le> length (replicate (length file) (0 :: u8))" by (simp add: un)
      show thesis
        using st zero shapes ds room
      proof (cases rule: build_into_cases [where ctx = ctx2 and k = 0 and diag = d])
        case (written d3 c3)
        then show thesis
          using that(1) [OF _ freed [OF written(2)]] True sized'(1,3) al yes
          by (simp add: fd_replay_build_def Let_def word_less_nat_alt un id file_def [symmetric] blit_def)
      next
        case (failed r c3 b)
        then show thesis
          using that(2) [OF _ _ freed [OF failed(3)]] True sized'(1) al yes buildable_charged [OF c2, of w ds]
          by (cases r) (simp add: fd_replay_build_def Let_def word_less_nat_alt un id file_def [symmetric])
      qed
    qed
  qed
qed

text \<open>C13: building a replay of a storable tick-zero world is all or nothing.  Whatever the decisions, the
  allocator and the limits, either the call fails, the buffer is untouched and the count is zero, or the
  buffer begins with the canonical file: magic, manifest, the save of the world, the record of every
  accepted attempt, the audit of every refused one, a checkpoint after every 1024th, digests and
  footer, in exactly the announced number of bytes.  It does succeed when there is memory and the
  bounds admit the file, and the books of the context are as before in every case.\<close>

theorem replay_build_all_or_nothing:
  assumes "storable w" and "w_tick w = 0" and "\<forall>d\<in>set ds. decision_shape d" and "length ds < 2 ^ 64"
    and "unat capacity \<le> length buf"
  shows "let file = replay_of (cx_id ctx) w ds in
    case fd_replay_build ctx (Some w) (Some ds) (of_nat (length ds)) (Some buf) capacity (Some k) diag of
      (r, ctx', buf', n) \<Rightarrow>
        cx_live_bytes ctx' = cx_live_bytes ctx \<and> cx_live_handles ctx' = cx_live_handles ctx \<and>
        (if fst r = FD_OK
         then length file \<le> unat capacity \<and> length file \<le> unat (cx_max_file_bytes ctx) \<and>
           buf' = Some (file @ drop (length file) buf) \<and> n = Some (of_nat (length file))
         else buf' = Some buf \<and> n = Some 0 \<and> \<not> (buildable ctx w ds \<and> length file \<le> unat capacity))"
  by (rule build_cases [OF assms, where ctx = ctx and k = k and diag = diag]) (simp_all add: charged_fields)

text \<open>The size query answers for the build.  It fails or names the length of the file the build would
  write, it does not fail where a build can succeed, and it leaves the books as they were.\<close>

theorem replay_size_announced:
  assumes "storable w" and "w_tick w = 0" and "\<forall>d\<in>set ds. decision_shape d" and "length ds < 2 ^ 64"
  shows "case fd_replay_build_size ctx (Some w) (Some ds) (of_nat (length ds)) (Some x) diag of (r, ctx', n) \<Rightarrow>
    cx_live_bytes ctx' = cx_live_bytes ctx \<and> cx_live_handles ctx' = cx_live_handles ctx \<and>
    (if fst r = FD_OK then n = Some (of_nat (length (replay_of (cx_id ctx) w ds))) else \<not> buildable ctx w ds)"
  by (rule build_size_cases [OF assms, where ctx = ctx and x = x and diag = diag]) (simp_all add: charged_fields)

end
