(* ===== verification/FD_Reopened.thy ===== *)
theory FD_Reopened
  imports FD_Rebuilt
begin

text \<open>
  Opening the canonical file of a run: the framing, the manifest and the counts are accepted and every
  record, audit and checkpoint is read back as it was written.
\<close>

unbundle bit_operations_syntax

section \<open>What was played, attempt by attempt\<close>

lemma played_record_at:
  "i < length (played_records w ds) \<Longrightarrow>
     \<exists>d\<in>set ds. accepts (world_at w i) d \<and> played_records w ds ! i = record_of (world_at w i) d"
proof (induction ds arbitrary: w i)
  case (Cons d ds)
  show ?case
  proof (cases "accepts w d")
    case True
    show ?thesis
    proof (cases i)
      case 0
      then show ?thesis using True by simp
    next
      case (Suc j)
      then have "j < length (played_records (stepped_world w) ds)" using Cons.prems True by simp
      from Cons.IH [OF this] show ?thesis using True Suc by auto
    qed
  next
    case False
    then show ?thesis using Cons by auto
  qed
qed simp

lemma played_audit_at:
  "m < length (played_audits k w ds) \<Longrightarrow> \<exists>j d. d \<in> set ds \<and> k + m \<le> j \<and> j < k + length ds \<and>
     j - k - m \<le> length (played_records w ds) \<and> \<not> accepts (world_at w (j - k - m)) d \<and>
     played_audits k w ds ! m = audit_of j (world_at w (j - k - m)) d"
proof (induction ds arbitrary: w k m)
  case (Cons d ds)
  show ?case
  proof (cases "accepts w d")
    case True
    then have "m < length (played_audits (Suc k) (stepped_world w) ds)" using Cons.prems by simp
    from Cons.IH [OF this] obtain j e where j: "e \<in> set ds" "Suc k + m \<le> j" "j < Suc k + length ds"
      "j - Suc k - m \<le> length (played_records (stepped_world w) ds)" "\<not> accepts (world_at w (Suc (j - Suc k - m))) e"
      "played_audits (Suc k) (stepped_world w) ds ! m = audit_of j (world_at w (Suc (j - Suc k - m))) e" by auto
    have "Suc (j - Suc k - m) = j - k - m" using j(2) by simp
    then show ?thesis using True j by (intro exI [of _ j] exI [of _ e]) auto
  next
    case False
    show ?thesis
    proof (cases m)
      case 0
      then show ?thesis using False by (intro exI [of _ k] exI [of _ d]) simp
    next
      case (Suc n)
      then have "n < length (played_audits (Suc k) w ds)" using Cons.prems False by simp
      from Cons.IH [OF this] obtain j e where j: "e \<in> set ds" "Suc k + n \<le> j" "j < Suc k + length ds"
        "j - Suc k - n \<le> length (played_records w ds)" "\<not> accepts (world_at w (j - Suc k - n)) e"
        "played_audits (Suc k) w ds ! n = audit_of j (world_at w (j - Suc k - n)) e" by blast
      then show ?thesis using False Suc by (intro exI [of _ j] exI [of _ e]) auto
    qed
  qed
qed simp

lemma played_audits_sorted:
  "k + length ds < 2 ^ 64 \<Longrightarrow> sorted_wrt (\<lambda>a b. ra_attempt_index a < ra_attempt_index b) (played_audits k w ds)"
proof (induction ds arbitrary: w k)
  case (Cons d ds)
  have "ra_attempt_index (audit_of k w d) < ra_attempt_index a" if a: "a \<in> set (played_audits (Suc k) w ds)" for a
  proof -
    from played_audit_index [OF a] obtain i where "Suc k \<le> i" "i < Suc k + length ds" "ra_attempt_index a = of_nat i" by blast
    then show ?thesis
      using Cons.prems by (simp add: audit_of_def Let_def word_less_nat_alt unat_of_nat_u64)
  qed
  then show ?case using Cons by simp
qed simp

lemma tick_at: "w_tick (world_at w i) = w_tick w + of_nat i * 24"
  by (induction i) (simp_all add: world_at_Suc stepped_world_eq distrib_right)

lemma region_at [simp]: "w_region (world_at w i) = w_region w"
  by (subst world_at_retick) simp

lemma scan_upt_run:
  "(\<And>i. a \<le> i \<Longrightarrow> i < n \<Longrightarrow> f i (S i) = Inr (S (Suc i))) \<Longrightarrow> a \<le> n \<Longrightarrow> scan_sum f [a..<n] (S a) = Inr (S n)"
proof (induction "n - a" arbitrary: a)
  case (Suc m)
  then show ?case by (simp add: upt_conv_Cons)
qed simp

section \<open>Framing\<close>

definition section_at :: "bytes \<Rightarrow> bytes \<Rightarrow> fd_replay_section" where
  "section_at payload rest = \<lparr>rs_payload = payload @ sha256 payload @ rest, rs_length = of_nat (length payload), rs_present = True\<rparr>"

lemma parse_replay_frame:
  assumes d: "drop position bytes = frame tag payload @ rest"
    and len: "48 + length payload < 2 ^ 64" and tag: "previous < tag" "tag \<le> 5"
    and room: "position + length (frame tag payload) \<le> footer" and n: "n < 64"
  shows "parse_replay_section bytes footer diag (position, previous, n, sections) =
    Inr (position + length (frame tag payload), tag, n + 1, sections[unat tag := section_at payload rest])"
proof -
  have "drop position bytes = section_header tag 1 (of_nat (length payload)) @ payload @ sha256 payload @ rest"
    using d by (simp add: frame_def)
  note h = load_header [OF this]
  have l: "unat (of_nat (length payload) :: u64) = length payload" using len by (intro unat_of_nat_u64) simp
  have "fd_u64_add 48 (of_nat (length payload)) = Some (48 + of_nat (length payload))"
    using len by (simp add: fd_u64_add_Some_iff l)
  moreover have "unat (48 + of_nat (length payload) :: u64) = 48 + length payload"
    using fd_u64_add_unat [OF calculation] by (simp add: l)
  moreover have "\<not> footer - position < 48" "\<not> 48 + length payload > footer - position" using room by simp_all
  moreover have "\<not> n + 1 > 64" using n by (simp add: word_less_nat_alt unat_word_ariths not_less)
  ultimately show ?thesis
    using tag by (simp add: parse_replay_section_def h h(2) [simplified] l fd_sha256_Some Let_def not_le section_at_def)
qed

text \<open>The section array of the five frames.\<close>

definition opened_sections ::
    "fd_world \<Rightarrow> fd_replay_record list \<Rightarrow> fd_replay_audit list \<Rightarrow> bytes \<Rightarrow> fd_replay_section list" where
  "opened_sections w rs as rest =
     (let s = replay_sections w rs as
      in no_replay_section # map (\<lambda>i. section_at (snd (s ! i)) (frames (drop (Suc i) s) @ rest)) [0..<5])"

lemma upt_5: "[0..<5] = [0, 1, 2, 3, 4 :: nat]"
  by (simp add: upt_rec)

lemma opened_section:
  "opened_sections w rs as rest ! 1 = section_at (manifest_bytes (length rs) (length as)) (frames (drop 1 (replay_sections w rs as)) @ rest)"
  "opened_sections w rs as rest ! 2 = section_at (save_file w) (frames (drop 2 (replay_sections w rs as)) @ rest)"
  "opened_sections w rs as rest ! 3 = section_at (records_bytes rs) (frames (drop 3 (replay_sections w rs as)) @ rest)"
  "opened_sections w rs as rest ! 4 = section_at (audits_bytes as) (frames (drop 4 (replay_sections w rs as)) @ rest)"
  "opened_sections w rs as rest ! 5 = section_at (checkpoints_bytes w (length rs div 1024)) (frames (drop 5 (replay_sections w rs as)) @ rest)"
  by (simp_all add: opened_sections_def Let_def upt_5 replay_sections_def)

lemmas opened_section' = opened_section [unfolded One_nat_def]

lemma parse_replay_frames:
  assumes d: "drop p bytes = frames fs @ rest" and "footer = p + length (frames fs)" and "footer < 2 ^ 64"
    and "sorted_wrt (<) (previous # map fst fs)" and "\<forall>(tag, payload)\<in>set fs. tag \<le> 5" and "unat n + length fs \<le> 64"
  shows "replay_parse_loop bytes footer diag (p, previous, n, secs) =
    Inr (footer, last (previous # map fst fs), n + of_nat (length fs),
      fold (\<lambda>i secs. secs[unat (fst (fs ! i)) := section_at (snd (fs ! i)) (frames (drop (Suc i) fs) @ rest)]) [0..<length fs] secs)"
  using assms
proof (induction fs arbitrary: p previous n secs)
  case Nil
  then show ?case by (simp add: replay_parse_loop.simps)
next
  case (Cons f fs)
  obtain tag payload where f: "f = (tag, payload)" by fastforce
  have d: "drop p bytes = frame tag payload @ frames fs @ rest" using Cons.prems(1) by (simp add: f)
  have n: "n < 64" using Cons.prems(6) by (simp add: word_less_nat_alt)
  have tags: "previous < tag" "tag \<le> 5" using Cons.prems(4,5) by (simp_all add: f)
  let ?secs = "secs[unat tag := section_at payload (frames fs @ rest)]"
  have step: "parse_replay_section bytes footer diag (p, previous, n, secs) =
      Inr (p + length (frame tag payload), tag, n + 1, ?secs)"
    using Cons.prems(2,3) by (intro parse_replay_frame [OF d _ tags _ n]) (simp_all add: f)
  have "drop (p + length (frame tag payload)) bytes = frames fs @ rest"
    using d by (metis add.commute append_eq_conv_conj drop_drop)
  moreover have "unat (n + 1) + length fs \<le> 64" using Cons.prems(6) n by (simp add: unat_word_ariths)
  ultimately have "replay_parse_loop bytes footer diag (p + length (frame tag payload), tag, n + 1, ?secs) =
      Inr (footer, last (tag # map fst fs), n + 1 + of_nat (length fs),
        fold (\<lambda>i secs. secs[unat (fst (fs ! i)) := section_at (snd (fs ! i)) (frames (drop (Suc i) fs) @ rest)]) [0..<length fs] ?secs)"
    using Cons.prems(2-5) by (intro Cons.IH) (simp_all add: f)
  moreover have "[0..<length (f # fs)] = 0 # map Suc [0..<length fs]" by (simp add: upt_conv_Cons map_Suc_upt del: upt_Suc)
  moreover have "p < footer" using Cons.prems(2) by (simp add: f)
  ultimately show ?case
    using step by (simp add: replay_parse_loop.simps [of bytes footer diag "(p, previous, n, secs)"] f add.assoc fold_map comp_def del: upt_Suc)
qed

lemma parse_replay_file:
  assumes size: "length (replay_file w rs as) < 2 ^ 64"
  shows "fd_parse_replay_sections (replay_file w rs as @ rest) (length (replay_file w rs as)) diag =
    Inr (opened_sections w rs as (fd_replay_footer_digest (replay_body w rs as) (length (replay_body w rs as)) @ rest), 5)"
proof -
  let ?file = "replay_file w rs as @ rest" and ?footer = "length (replay_body w rs as)" and ?s = "replay_sections w rs as"
  let ?rest = "fd_replay_footer_digest (replay_body w rs as) ?footer @ rest"
  have n: "length (replay_file w rs as) - 32 = ?footer" by (simp add: replay_file_def)
  have d: "drop 8 ?file = frames ?s @ ?rest" by (simp add: replay_file_def replay_body_def)
  have f: "?footer = 8 + length (frames ?s)" by (simp add: replay_body_def)
  have five: "length ?s = 5" "map fst ?s = [1, 2, 3, 4, 5]" by (simp_all add: replay_sections_def)
  have r: "replicate 6 x = [x, x, x, x, x, x]" for x :: fd_replay_section by (simp add: numeral_eq_Suc)
  have secs: "fold (\<lambda>i secs. secs[unat (fst (?s ! i)) := section_at (snd (?s ! i)) (frames (drop (Suc i) ?s) @ ?rest)])
      [0..<length ?s] (replicate 6 no_replay_section) = opened_sections w rs as ?rest"
    unfolding five(1) by (simp add: upt_5 r opened_sections_def Let_def replay_sections_def list_update_numeral)
  have "replay_parse_loop ?file ?footer diag (8, 0, 0, replicate 6 no_replay_section) = Inr (?footer, 5, 5, opened_sections w rs as ?rest)"
    using parse_replay_frames [OF d f, of 0 0 diag "replicate 6 no_replay_section"] size five
    unfolding secs by (simp add: replay_file_def) (simp add: replay_sections_def)
  moreover have "find (\<lambda>tag. \<not> rs_present (opened_sections w rs as ?rest ! tag)) [1..<6] = None"
    by (simp add: upt_rec opened_sections_def Let_def section_at_def)
  ultimately show ?thesis by (simp add: fd_parse_replay_sections_def n)
qed

section \<open>Manifest and counts\<close>

lemma manifest_loads:
  fixes w :: fd_world and rs :: "fd_replay_record list" and as :: "fd_replay_audit list" and rest :: bytes
  defines "secs \<equiv> opened_sections w rs as rest"
  shows "fd_load_u64_le (drop 12 (rs_payload (secs ! 1))) = of_nat (length rs)"
    "fd_load_u32_le (drop 20 (rs_payload (secs ! 1))) = of_nat (length rs div 1024)"
    "fd_load_u32_le (drop 24 (rs_payload (secs ! 1))) = of_nat (length as)" "\<not> replay_manifest_bad secs 5"
  by (simp_all add: secs_def opened_section' section_at_def manifest_bytes_def byte_simps replay_manifest_bad_def)

lemma counts_accepted:
  assumes sh: "world_shape w" and wires: "\<forall>r\<in>set rs. record_wire r" "\<forall>a\<in>set as. audit_wire a"
    and size: "length (replay_file w rs as) < 2 ^ 64" and r: "length rs < 2 ^ 42" and a: "length as < 2 ^ 32"
  shows "replay_counts (opened_sections w rs as rest) (of_nat (length rs)) (of_nat (length rs div 1024)) (of_nat (length as)) =
    Some (of_nat (length rs + length as))"
proof -
  let ?r = "length rs" and ?a = "length as" and ?s = "length (save_file w)"
  have size': "324 + ?s + 228 * ?r + 328 * ?a + (?r div 1024) * (16 + ?s) < 2 ^ 64"
    using size length_replay_file(1) [OF sh wires] by (simp add: replay_size_def)
  have u: "unat (of_nat ?r :: u64) = ?r" "unat (of_nat ?a :: u32) = ?a" "unat (of_nat ?a :: u64) = ?a"
    using r a by (simp_all add: unat_of_nat_u64 unat_of_nat_u32)
  obtain r1 where r1: "fd_u64_mul (of_nat ?r) 228 = Some r1" "unat r1 = 228 * ?r"
    using size' by (auto intro: mul_fits [of "of_nat ?r" 228] simp: u)
  obtain r2 where r2: "fd_u64_add r1 8 = Some r2" "unat r2 = 8 + 228 * ?r"
    using size' r1(2) by (auto intro: add_fits [of r1 8])
  obtain a1 where a1: "fd_u64_mul (ucast (of_nat ?a :: u32)) 328 = Some a1" "unat a1 = 328 * ?a"
    using size' by (auto intro: mul_fits [of "ucast (of_nat ?a :: u32)" 328] simp: u)
  obtain a2 where a2: "fd_u64_add a1 4 = Some a2" "unat a2 = 4 + 328 * ?a"
    using size' a1(2) by (auto intro: add_fits [of a1 4])
  have r2': "of_nat (8 + 228 * ?r) = r2" and a2': "of_nat (4 + 328 * ?a) = a2"
    by (simp_all only: r2(2) [symmetric] a2(2) [symmetric] of_nat_unat ucast_id)
  have total: "fd_u64_add (of_nat ?r) (ucast (of_nat ?a :: u32)) = Some (of_nat (?r + ?a))"
    using size' by (simp add: fd_u64_add_Some_iff u ucast_of_nat [OF a])
  have c: "(of_nat ?r div 1024 :: u64) = of_nat (?r div 1024)"
    using r unat_of_nat_u64 [of "?r div 1024"] by (simp add: word_unat_eq_iff unat_div u)
  have c': "\<not> (of_nat (?r div 1024) :: u64) > 4294967295" using r by (simp add: word_less_nat_alt unat_of_nat_u64)
  have c'': "(ucast (of_nat (?r div 1024) :: u64) :: u32) = of_nat (?r div 1024)"
    by (simp add: word_unat_eq_iff unsigned_ucast_eq unsigned_of_nat take_bit_nat_def mod_mod_cancel)
  have five: "\<not> (of_nat (4 + (16 + ?s) * (?r div 1024)) :: u64) < 4"
    using size' unat_of_nat_u64 [of "4 + (16 + ?s) * (?r div 1024)"] by (simp only: word_less_nat_alt) (simp add: mult.commute)
  note lens = payload_lengths [OF sh wires]
  have loads: "fd_load_u64_le (records_bytes rs @ y) = of_nat ?r" "fd_load_u32_le (audits_bytes as @ y) = of_nat ?a"
    "fd_load_u32_le (checkpoints_bytes w n @ y) = of_nat n" for y n
    by (simp_all add: records_bytes_def audits_bytes_def checkpoints_bytes_def byte_simps)
  show ?thesis
    unfolding replay_counts_def
    by (simp add: r1(1) r2(1) a1(1) a2(1) total opened_section' section_at_def lens r2' a2' c c' c'' five
        loads del: of_nat_add of_nat_mult)
qed

section \<open>Records\<close>

lemma drop_concat_equal:
  assumes "\<And>x. x \<in> set xs \<Longrightarrow> length (f x) = n" and "i < length xs"
  shows "\<exists>r'. drop (i * n) (concat (map f xs) @ r) = f (xs ! i) @ r'"
  using assms
proof (induction xs arbitrary: i)
  case (Cons x xs)
  show ?case
  proof (cases i)
    case (Suc j)
    then have "drop (i * n) (f x @ concat (map f xs) @ r) = drop (j * n) (concat (map f xs) @ r)"
      using Cons.prems(1) [of x] by simp
    then show ?thesis using Cons.IH [of j] Cons.prems Suc by simp
  qed simp
qed simp

lemma record_of_seat:
  assumes "decision_shape d" and "seat < 2"
  shows "sd_actor_id (jd_seats (rr_decision (record_of w d)) ! seat) = sd_actor_id (jd_seats d ! seat)"
    "ac_category (sd_action (jd_seats (rr_decision (record_of w d)) ! seat)) = ac_category (sd_action (jd_seats d ! seat))"
    "ac_parameter_count (sd_action (jd_seats (rr_decision (record_of w d)) ! seat)) = ac_parameter_count (sd_action (jd_seats d ! seat))"
    "ac_parameters (sd_action (jd_seats (rr_decision (record_of w d)) ! seat)) = ac_parameters (sd_action (jd_seats d ! seat))"
  using assms by (simp_all add: record_of_def staged_record_def step_report_def staged_decision_eq decision_shape_def)

lemma record_of_fields:
  "rr_tick_before (record_of w d) = w_tick w" "rr_tick_after (record_of w d) = w_tick (stepped_world w)"
  "rr_pre_hash (record_of w d) = w_state_sha256 w" "rr_post_hash (record_of w d) = w_state_sha256 (stepped_world w)"
  by (simp_all add: record_of_def staged_record_def step_report_def stepped_world_eq)

lemma open_record_played:
  fixes rest :: bytes
  assumes shapes: "\<forall>d\<in>set ds. decision_shape d" and tick: "w_tick v = 0"
  defines "rs \<equiv> played_records v ds"
  assumes i: "i < length rs" and small: "length rs < 2 ^ 42"
  defines "actors \<equiv> [rg_foreign_faction_ids (w_region v) ! 0, rg_foreign_faction_ids (w_region v) ! 1]"
  shows "open_record (opened_sections v rs as rest) (w_state_sha256 v) actors i (take i rs, d) = Inr (take (Suc i) rs, d)"
proof -
  let ?r = "rs ! i" and ?u = "world_at v i"
  obtain dec where dec: "dec \<in> set ds" "accepts ?u dec" "?r = record_of ?u dec"
    using played_record_at [of i v ds] i by (auto simp: rs_def)
  have shape: "decision_shape dec" using shapes dec(1) by blast
  have wires: "\<forall>r\<in>set rs. record_wire r" using played_wires [OF shapes] by (simp add: rs_def)
  obtain r' where r': "drop (i * 228) (concat (map fd_encode_replay_record rs) @ sha256 (records_bytes rs) @
      frames (drop 3 (replay_sections v rs as)) @ rest) = fd_encode_replay_record ?r @ r'"
    using drop_concat_equal [of rs fd_encode_replay_record 228 i] wires replay_record.width_enc i by blast
  have at: "drop (8 + i * 228) (rs_payload (opened_sections v rs as rest ! 3)) = fd_encode_replay_record ?r @ r'"
    using r' by (simp add: opened_section section_at_def records_bytes_def)
  have t: "w_tick ?u = of_nat i * 24" by (simp add: tick_at tick)
  have ut: "unat (of_nat i * 24 :: u64) = i * 24" using i small by (simp add: unat_word_ariths unat_of_nat_u64)
  have "\<not> record_noncanonical i ?r"
    unfolding dec(3)
  proof (rule record_of_canonical [OF dec(2) _ _ shape])
    show "w_tick ?u mod 24 = 0" by (simp add: t word_unat_eq_iff unat_mod ut)
    show "24 \<le> w_tick ?u" if "0 < i" using that by (simp add: t word_le_nat_alt ut)
  qed
  then have decode: "fd_decode_replay_record (drop (8 + i * 228) (rs_payload (opened_sections v rs as rest ! 3))) i d = ((FD_OK, d), ?r)"
    using replay_record.dec_enc [of ?r r'] wires i by (simp add: at fd_decode_replay_record_def)
  have canonical: "canonical_decision ?u dec" using dec(2) by (simp add: step_accepts_def)
  have prev: "rr_tick_after (rs ! (i - 1)) = w_tick ?u" "rr_post_hash (rs ! (i - 1)) = w_state_sha256 ?u" if "0 < i"
  proof -
    have "i - 1 < length rs" "Suc (i - 1) = i" using i that by simp_all
    then obtain e where "rs ! (i - 1) = record_of (world_at v (i - 1)) e"
      using played_record_at [of "i - 1" v ds] by (auto simp: rs_def)
    then show "rr_tick_after (rs ! (i - 1)) = w_tick ?u" "rr_post_hash (rs ! (i - 1)) = w_state_sha256 ?u"
      using \<open>Suc (i - 1) = i\<close> by (simp_all add: record_of_fields world_at_Suc [symmetric])
  qed
  have "\<not> record_discontinuous (w_state_sha256 v) actors (take i rs) i ?r"
    unfolding dec(3) using canonical prev tick
    by (cases "i = 0") (auto simp: record_discontinuous_def Let_def record_of_seat [OF shape] record_of_fields actors_def
        canonical_decision_def pass_action_def)
  moreover have "pass_parameters ?r"
    using canonical
    by (auto simp: pass_parameters_def list_all_iff dec(3) record_of_seat [OF shape] canonical_decision_def pass_action_def)
  ultimately show ?thesis
    using i decode by (simp add: open_record_def take_Suc_conv_app_nth)
qed

lemma open_records_played:
  fixes rest :: bytes
  assumes "\<forall>d\<in>set ds. decision_shape d" and "w_tick v = 0"
  defines "rs \<equiv> played_records v ds"
  assumes small: "length rs < 2 ^ 42"
  defines "actors \<equiv> [rg_foreign_faction_ids (w_region v) ! 0, rg_foreign_faction_ids (w_region v) ! 1]"
  shows "scan_sum (open_record (opened_sections v rs as rest) (w_state_sha256 v) actors) [0..<length rs] ([], d) = Inr (rs, d)"
  using scan_upt_run [where f = "open_record (opened_sections v rs as rest) (w_state_sha256 v) actors" and a = 0 and
      n = "length rs" and S = "\<lambda>i. (take i rs, d)"] open_record_played [OF assms(1,2)] small
  by (simp add: rs_def actors_def)

section \<open>Audits\<close>

lemma message_field_small: "message_field n m \<Longrightarrow> n < 160"
  by (auto simp: message_field_def word_less_nat_alt unat_of_nat_u32)

lemma open_audit_played:
  fixes rest :: bytes
  assumes shapes: "\<forall>d\<in>set ds. decision_shape d" and tick: "w_tick v = 0" and val: "world_valid v"
    and ds: "length ds < 2 ^ 64"
  defines "as \<equiv> played_audits 0 v ds"
  assumes m: "m < length as" and small: "length (played_records v ds) < 2 ^ 42"
  defines "prev \<equiv> \<lambda>m. if m = 0 then - 1 else ra_attempt_index (as ! (m - 1))"
  shows "open_audit (opened_sections v rs as rest) (of_nat (length (played_records v ds))) (of_nat (length ds)) m
      (take m as, prev m, d) = Inr (take (Suc m) as, prev (Suc m), d)"
proof -
  let ?a = "as ! m" and ?r = "length (played_records v ds)"
  obtain j dec where dec: "dec \<in> set ds" and j: "m \<le> j" "j < length ds" "j - m \<le> ?r"
    and no: "\<not> accepts (world_at v (j - m)) dec" and a: "?a = audit_of j (world_at v (j - m)) dec"
    using played_audit_at [of m 0 v ds] m by (auto simp: as_def)
  let ?u = "world_at v (j - m)"
  have wires: "\<forall>a\<in>set as. audit_wire a" using played_wires(2) [OF shapes] by (simp add: as_def)
  obtain r' where r': "drop (m * 328) (concat (map audit_encoding as) @ sha256 (audits_bytes as) @
      frames (drop 4 (replay_sections v rs as)) @ rest) = audit_encoding ?a @ r'"
    using drop_concat_equal [of as audit_encoding 328 m] wires length_audit_encoding m by blast
  have at: "drop (4 + m * 328) (rs_payload (opened_sections v rs as rest ! 4)) = audit_encoding ?a @ r'"
    using r' by (simp add: opened_section section_at_def audits_bytes_def)
  obtain c where c: "reported c (refusal ?u dec)" "fd_replay_result_is_auditable c"
    using refused_step [OF no] world_valid_at [OF val] by metis
  have index: "ra_attempt_index ?a = of_nat j" and ta: "ra_tick ?a = of_nat (j - m) * 24"
    by (simp_all add: a audit_of_def Let_def tick_at tick)
  have uj: "unat (of_nat j :: u64) = j" and um: "unat (of_nat m :: u64) = m" and ud: "unat (of_nat (length ds) :: u64) = length ds"
    using j ds by (simp_all add: unat_of_nat_u64)
  have less: "prev m < ra_attempt_index ?a" if "0 < m"
    using sorted_wrt_nth_less [OF played_audits_sorted [of 0 ds v], of "m - 1" m] that m ds by (simp add: prev_def as_def)
  have ut: "unat (of_nat (j - m) * 24 :: u64) = (j - m) * 24" using j(3) small by (simp add: unat_word_ariths unat_of_nat_u64)
  have "of_nat (j - m) * 24 mod 24 = (0 :: u64)" by (simp add: word_unat_eq_iff unat_mod ut)
  moreover have "ra_message_length ?a < 160" "fd_replay_result_is_auditable (ra_result ?a)" "unat (ra_field_id ?a) \<le> 19"
    using c message_field_small [OF reported_message [OF c(1)]] by (simp_all add: a audit_of_def Let_def reported_def word_le_nat_alt)
  ultimately have can: "\<not> audit_noncanonical (of_nat (length ds)) (prev m) ?a"
    using less j(2) by (auto simp: audit_noncanonical_def index ta word_less_nat_alt uj ud not_le prev_def)
  have decode: "fd_decode_audit (drop (4 + m * 328) (rs_payload (opened_sections v rs as rest ! 4))) (of_nat (length ds)) (prev m) d =
      ((FD_OK, d), ?a)"
    unfolding at using wires m by (intro decode_audit_encoded [OF _ can]) simp
  have sub: "(of_nat j - of_nat m :: u64) = of_nat (j - m)" using j(1) by (simp add: of_nat_diff)
  have "\<not> (of_nat j :: u64) < of_nat m" using j(1) by (simp add: word_less_nat_alt uj um)
  moreover have "\<not> (of_nat (j - m) :: u64) > of_nat ?r" "\<not> (of_nat (j - m) :: u64) > - 1 div 24"
    using j(3) small by (simp_all add: word_less_nat_alt unat_of_nat_u64 unat_div)
  ultimately show ?thesis
    using m decode by (simp add: open_audit_def index ta sub take_Suc_conv_app_nth) (simp add: prev_def index)
qed

lemma open_audits_played:
  fixes rest :: bytes
  assumes "\<forall>d\<in>set ds. decision_shape d" and "w_tick v = 0" and "world_valid v" and "length ds < 2 ^ 64"
  defines "as \<equiv> played_audits 0 v ds"
  assumes small: "length (played_records v ds) < 2 ^ 42"
  shows "\<exists>p. scan_sum (open_audit (opened_sections v rs as rest) (of_nat (length (played_records v ds))) (of_nat (length ds)))
      [0..<length as] ([], - 1, d) = Inr (as, p, d)"
  unfolding as_def
  using scan_upt_run [where a = 0 and n = "length (played_audits 0 v ds)" and
      f = "open_audit (opened_sections v rs (played_audits 0 v ds) rest) (of_nat (length (played_records v ds))) (of_nat (length ds))"
      and S = "\<lambda>m. (take m (played_audits 0 v ds), if m = 0 then - 1 else ra_attempt_index (played_audits 0 v ds ! (m - 1)), d)"]
    open_audit_played [OF assms(1-4) _ small]
  by auto

end
