(* ===== verification/FD_Replayed.thy ===== *)
theory FD_Replayed
  imports FD_Reopened
begin

text \<open>
  A replay file that was built opens again: the run is re-executed without a complaint, the checkpoints
  are the worlds the run goes through, and the handle holds what was recorded.
\<close>

unbundle bit_operations_syntax

section \<open>Re-execution accepts a run\<close>

lemma verify_rejected:
  assumes "audit_true w (audits ! unat j)" and "j < k" and "ra_attempt_index (audits ! unat j) = of_nat i"
  shows "verify_attempt records audits n k diag i (Some w, a, j) = Inr (Some w, a, j + 1)"
proof -
  obtain g where "fd_world_step (Some w) (Some (ra_decision (audits ! unat j))) (Some blank_step) (Some fd_diagnostic_init) =
      ((ra_result (audits ! unat j), Some g), Some w, Some blank_step)"
    and "\<not> audit_mismatch (audits ! unat j) (ra_result (audits ! unat j)) g w w"
    using assms(1) by (auto simp: audit_true_def audit_mismatch_def Let_def)
  then show ?thesis using assms(2,3) by (simp add: verify_attempt_def Let_def)
qed

lemma verify_accepted:
  assumes "record_true w (records ! unat a)" and "a < n"
    and "\<not> (j < k \<and> ra_attempt_index (audits ! unat j) = of_nat i)"
  shows "verify_attempt records audits n k diag i (Some w, a, j) = Inr (Some (stepped_world w), a + 1, j)"
proof -
  have "accepts w (rr_decision (records ! unat a))" using assms(1) by (simp add: record_true_def)
  from fd_world_step_accepted [OF this] obtain g where
    "fd_world_step (Some w) (Some (rr_decision (records ! unat a))) (Some blank_step) (Some fd_diagnostic_init) =
      ((FD_OK, g), Some (stepped_world w), Some (step_report w (rr_decision (records ! unat a))))" by blast
  then show ?thesis
    using assms by (auto simp: verify_attempt_def Let_def record_true_def event_hash_step not_le)
qed

lemma drop_Cons_nth: "drop i xs = y # ys \<Longrightarrow> i < length xs \<and> xs ! i = y \<and> drop (Suc i) xs = ys"
  by (metis drop_all drop_Suc list.sel(3) list.distinct(1) not_le nth_via_drop tl_drop)

lemma verify_run:
  assumes "plays i w rs as v" and "length records = unat n" and "length audits = unat k"
    and "a \<le> n" and "j \<le> k" and "drop (unat a) records = rs" and "drop (unat j) audits = as"
  shows "scan_sum (verify_attempt records audits n k diag) [i..<i + length rs + length as] (Some w, a, j) = Inr (Some v, n, k)"
  using assms(1,4-7)
proof (induction arbitrary: a j rule: plays.induct)
  case (finished i w)
  then have "unat n \<le> unat a" "unat k \<le> unat j" using assms(2,3) by simp_all
  then have "a = n" "j = k" using finished by (simp_all add: word_le_nat_alt word_unat_eq_iff)
  then show ?case by simp
next
  case (accepted w r as i rs v)
  have r: "unat a < length records" "records ! unat a = r" "drop (Suc (unat a)) records = rs"
    using drop_Cons_nth [OF accepted.prems(3)] by simp_all
  then have a: "a < n" using assms(2) by (simp add: word_less_nat_alt)
  have "\<not> (j < k \<and> ra_attempt_index (audits ! unat j) = of_nat i)"
  proof
    assume j: "j < k \<and> ra_attempt_index (audits ! unat j) = of_nat i"
    then have "unat j < length audits" using assms(3) by (simp add: word_less_nat_alt)
    then have "as = audits ! unat j # drop (Suc (unat j)) audits"
      using accepted.prems(4) by (simp add: Cons_nth_drop_Suc)
    then show False using accepted.hyps(2) j by blast
  qed
  then have "verify_attempt records audits n k diag i (Some w, a, j) = Inr (Some (stepped_world w), a + 1, j)"
    using accepted.hyps(1) a r(2) by (intro verify_accepted) simp_all
  moreover have "scan_sum (verify_attempt records audits n k diag) [Suc i..<Suc i + length rs + length as]
      (Some (stepped_world w), a + 1, j) = Inr (Some v, n, k)"
    using accepted.prems(2,4) word_next [OF a] r(3) by (intro accepted.IH) simp_all
  ultimately show ?case by (simp add: upt_conv_Cons del: upt_Suc)
next
  case (rejected w x i rs as v)
  have x: "unat j < length audits" "audits ! unat j = x" "drop (Suc (unat j)) audits = as"
    using drop_Cons_nth [OF rejected.prems(4)] by simp_all
  then have j: "j < k" using assms(3) by (simp add: word_less_nat_alt)
  then have "verify_attempt records audits n k diag i (Some w, a, j) = Inr (Some w, a, j + 1)"
    using rejected.hyps x(2) by (intro verify_rejected) simp_all
  moreover have "scan_sum (verify_attempt records audits n k diag) [Suc i..<Suc i + length rs + length as]
      (Some w, a, j + 1) = Inr (Some v, n, k)"
    using rejected.prems(1,3) word_next [OF j] x(3) by (intro rejected.IH) simp_all
  ultimately show ?case by (simp add: upt_conv_Cons del: upt_Suc)
qed

lemma verify_attempts_run:
  assumes "plays 0 w rs as v" and "length rs = unat n" and "length as = unat k" and "unat t = length rs + length as"
  shows "verify_attempts rs as n k t diag (Some w) = (((FD_OK, diag), 0), Some v)"
  using verify_run [OF assms(1-3), of 0 0 diag] assms(4) by (simp add: verify_attempts_def)

section \<open>Checkpoints\<close>

lemma scan_upt_exists:
  assumes "\<And>i s. a \<le> i \<Longrightarrow> i < N \<Longrightarrow> P i s \<Longrightarrow> \<exists>s'. f i s = Inr s' \<and> P (Suc i) s'" and "P a s" and "a \<le> N"
  shows "\<exists>s'. scan_sum f [a..<N] s = Inr s' \<and> P N s'"
  using assms
proof (induction "N - a" arbitrary: a s)
  case (Suc m)
  then have "a < N" by simp
  then obtain s1 where "f a s = Inr s1" "P (Suc a) s1" using Suc.prems(1) [of a s] Suc.prems(2) by auto
  then show ?case using Suc.hyps(1) [of "Suc a" s1] Suc.hyps(2) Suc.prems(1) \<open>a < N\<close> by (auto simp: upt_conv_Cons)
qed auto

lemma config_at [simp]: "w_config (world_at w i) = w_config w"
  by (subst world_at_retick) simp

lemma affords_at: "storable w \<Longrightarrow> affords ctx (world_at w i) = affords ctx w"
  by (simp add: affords_def storable_def world_at_shape)

lemma storable_at:
  assumes "storable w" and "w_tick w = 0" and "i < 2 ^ 43"
  shows "storable (world_at w i)"
proof -
  have t: "w_tick (world_at w j) \<le> - 25" if "j \<le> i" for j
  proof -
    have "unat (of_nat j * 24 :: u64) = j * 24" using that assms(3) by (simp add: unat_word_ariths unat_of_nat_u64)
    then show ?thesis using that assms(2,3) by (simp add: tick_at word_le_nat_alt)
  qed
  have "sound (world_at w i)" using assms(1) t by (intro run_sound) (simp_all add: storable_sound)
  then show ?thesis using t [of i] by (simp add: storable_sound)
qed

lemma checkpoint_section:
  fixes rest :: bytes
  assumes "world_shape v" and "i < c"
  obtains r where "drop (4 + (16 + length (save_file v)) * i) (checkpoints_bytes v c @ rest) = checkpoint_bytes v i @ r"
proof -
  have "\<exists>r. drop (i * (16 + length (save_file v))) (concat (map (checkpoint_bytes v) [0..<c]) @ rest) = checkpoint_bytes v ([0..<c] ! i) @ r"
    using assms by (intro drop_concat_equal) (simp_all add: length_checkpoint)
  then show thesis using assms(2) that by (auto simp: checkpoints_bytes_def mult.commute)
qed

lemma unat_gap: "m \<le> n \<Longrightarrow> n < 2 ^ 64 \<Longrightarrow> unat (of_nat n - of_nat m :: u64) = n - m"
  unfolding of_nat_diff [symmetric] by (rule unat_of_nat_u64) simp

lemma block_end: "i < n div k \<Longrightarrow> k * Suc i \<le> (n :: nat)"
  by (rule order_trans [OF mult_le_mono2 [OF Suc_leI] times_div_less_eq_dividend])

lemma open_checkpoint_played:
  fixes ctx :: "'u fd_context" and rest :: bytes and ds :: "fd_joint_decision list"
  assumes st: "storable v" and tick: "w_tick v = 0" and canon: "reloaded (cx_id ctx) v = v" and room: "affords ctx v"
  defines "rs \<equiv> played_records v ds" and "s \<equiv> length (save_file v)"
  assumes r: "length rs < 2 ^ 42" and size: "4 + (16 + s) * (length rs div 1024) < 2 ^ 64" and i: "i < length rs div 1024"
  shows "\<exists>ctx' d'. open_checkpoint (opened_sections v rs as rest) rs i (of_nat (4 + (16 + s) * i), ctx, d) =
    Inr (of_nat (4 + (16 + s) * Suc i), ctx', d') \<and> charged 0 0 ctx ctx'"
proof -
  define j pos c where "j = 1024 * Suc i" and "pos = 4 + (16 + s) * i" and "c = length rs div 1024"
  define tot where "tot = 4 + (16 + s) * c"
  let ?u = "world_at v j"
  have sh: "world_shape v" using st by (simp add: storable_def)
  have j: "j \<le> length rs" "0 < j" unfolding j_def using i by (rule block_end) simp
  have "(16 + s) * Suc i \<le> (16 + s) * c" using i by (intro mult_le_mono2) (simp add: c_def)
  then have le: "pos + 16 + s \<le> tot" and small: "tot < 2 ^ 64"
    using size by (simp_all add: pos_def tot_def c_def)
  have su: "storable ?u" using j r by (intro storable_at [OF st tick]) simp
  have len: "length (save_file ?u) = s" using world_at_shape(2) [OF sh] by (simp add: s_def)
  obtain r' where r': "drop pos (checkpoints_bytes v c @ sha256 (checkpoints_bytes v c) @
      frames (drop 5 (replay_sections v rs as)) @ rest) = checkpoint_bytes v i @ r'"
    using checkpoint_section [OF sh, of i c] i unfolding s_def pos_def c_def by blast
  define p where "p = rs_payload (opened_sections v rs as rest ! 5)"
  have p: "drop pos p = fd_store_u64_le (of_nat j) @ fd_store_u64_le (of_nat s) @ save_file ?u @ r'"
    using r' by (simp add: p_def opened_section section_at_def checkpoint_bytes_def s_def j_def c_def)
  have d8: "drop (pos + 8) p = fd_store_u64_le (of_nat s) @ save_file ?u @ r'"
    using arg_cong [OF p, of "drop 8"] by (simp add: add.commute)
  have d16: "drop (pos + 16) p = save_file ?u @ r'"
    using arg_cong [OF p, of "drop 16"] by (simp add: add.commute)
  have total: "rs_length (opened_sections v rs as rest ! 5) = of_nat tot"
    using payload_lengths(4) [OF sh, of "[]" "[]"] by (simp add: opened_section section_at_def s_def tot_def c_def)
  have up: "unat (of_nat pos :: u64) = pos" "unat (of_nat (pos + 16) :: u64) = pos + 16" "unat (of_nat s :: u64) = s"
    using le small by (intro unat_of_nat_u64, simp)+
  have uj: "unat (of_nat j :: u64) = j" using j r by (intro unat_of_nat_u64) simp
  have q: "of_nat pos + 16 = (of_nat (pos + 16) :: u64)" by simp
  have g1: "\<not> of_nat tot - of_nat pos < (16 :: u64)" and g2: "\<not> (of_nat s :: u64) > of_nat tot - of_nat (pos + 16)"
    using le unat_gap [OF _ small, of pos] unat_gap [OF _ small, of "pos + 16"]
    by (simp_all add: word_less_nat_alt up del: of_nat_add)
  have off: "ucast (of_nat i + 1 :: u32) * 1024 = (of_nat j :: u64)"
  proof -
    have "Suc i < 2 ^ 32" using j r by (simp add: j_def)
    from ucast_of_nat [OF this] show ?thesis by (simp add: add.commute j_def)
  qed
  obtain c1 d1 where load: "fd_world_load (Some ctx) (Some (save_file ?u)) (of_nat s) (Some None) d = ((FD_OK, d1), Some c1, Some (Some ?u))"
    using affords_loads [of ctx ?u None d] su room affords_at [OF st] reloaded_world_at [OF canon] len by metis
  have "charged 0 0 ctx (dispose c1 (Some ?u))"
  proof (rule dispose_loaded)
    show "charged (1544 + tile_bytes ?u) 1 ctx c1" by (cases rule: load_cases [OF load]) simp_all
  qed simp
  moreover have "w_tick ?u = of_nat j * 24" by (simp add: tick_at tick)
  moreover have "w_state_sha256 ?u = rr_post_hash (rs ! (j - 1))"
  proof -
    have "j - 1 < length rs" "Suc (j - 1) = j" using j by simp_all
    then obtain e where "rs ! (j - 1) = record_of (world_at v (j - 1)) e"
      using played_record_at [of "j - 1" v ds] by (auto simp: rs_def)
    then show ?thesis using \<open>Suc (j - 1) = j\<close> by (simp add: record_of_fields world_at_Suc [symmetric])
  qed
  moreover have "unat (of_nat j - 1 :: u64) = j - 1"
    using uj j(2) by (subst unat_minus_one) auto
  moreover have "of_nat (pos + 16) + of_nat s = (of_nat (4 + (16 + s) * Suc i) :: u64)" by (simp add: pos_def algebra_simps)
  ultimately show ?thesis
    unfolding pos_def [symmetric] using load g1 g2
    by (simp add: open_checkpoint_def Let_def p_def [symmetric] total up p d8 d16 q off byte_simps len
        del: of_nat_add of_nat_mult of_nat_Suc)
qed

section \<open>Opening\<close>

lemma open_allocate_willing:
  fixes ctx :: "'u fd_context"
  assumes "willing ctx" and "0 < s"
  obtains ctx' where "open_allocate ctx s r a = (ctx', None)"
proof -
  obtain c1 where c1: "fd_context_alloc ctx 128 = (True, c1)" "willing c1" using alloc_willing [OF assms(1), of 128] by auto
  obtain c2 where c2: "fd_context_alloc c1 s = (True, c2)" "willing c2" using alloc_willing [OF c1(2) assms(2)] by auto
  have opt: "\<exists>c'. (if n > 0 then fd_context_alloc c n else (True, c)) = (True, c') \<and> willing c'" if w: "willing c"
    for c :: "'u fd_context" and n
  proof (cases "n > 0")
    case True
    then obtain c' where "fd_context_alloc c n = (True, c')" "willing c'" using alloc_willing [OF w] by blast
    then show ?thesis using True by auto
  qed (use w in auto)
  obtain c3 where c3: "(if r > 0 then fd_context_alloc c2 r else (True, c2)) = (True, c3)" "willing c3" using opt [OF c2(2)] by blast
  obtain c4 where "(if a > 0 then fd_context_alloc c3 a else (True, c3)) = (True, c4)" using opt [OF c3(2)] by blast
  then show thesis using that c1(1) c2(1) c3(1) by (simp add: open_allocate_def)
qed

lemma open_contents_played:
  fixes ctx :: "'u fd_context" and rest :: bytes and ds :: "fd_joint_decision list"
  assumes st: "storable v" and tick: "w_tick v = 0" and canon: "reloaded (cx_id ctx) v = v" and room: "affords ctx v"
    and shapes: "\<forall>d\<in>set ds. decision_shape d" and ds: "length ds < 2 ^ 64"
  defines "rs \<equiv> played_records v ds" and "as \<equiv> played_audits 0 v ds" and "s \<equiv> length (save_file v)"
  assumes r: "length rs < 2 ^ 42" and a: "length as < 2 ^ 32" and size: "4 + (16 + s) * (length rs div 1024) < 2 ^ 64"
    and rp: "rp_tick_zero_hash rp = w_state_sha256 v" "rp_record_count rp = of_nat (length rs)"
      "rp_audit_count rp = of_nat (length as)" "rp_checkpoint_count rp = of_nat (length rs div 1024)"
      "rp_tick_zero_save rp = save_file v" "rp_tick_zero_save_size rp = of_nat s"
  defines "actors \<equiv> [rg_foreign_faction_ids (w_region v) ! 0, rg_foreign_faction_ids (w_region v) ! 1]"
  obtains ctx' d' where "open_contents ctx (opened_sections v rs as rest) rp actors (of_nat (length ds)) d = (ctx', Inr (rs, as, d'))"
    "charged 0 0 ctx ctx'"
proof -
  let ?secs = "opened_sections v rs as rest"
  have sh: "world_shape v" and val: "world_valid v" using st by (simp_all add: storable_def)
  have u: "unat (of_nat (length rs) :: u64) = length rs" "unat (of_nat (length as) :: u32) = length as"
    "unat (of_nat (length rs div 1024) :: u32) = length rs div 1024" "unat (of_nat (length ds) :: u64) = length ds"
    using r a ds by (simp_all add: unat_of_nat_u64 unat_of_nat_u32)
  have records: "scan_sum (open_record ?secs (w_state_sha256 v) actors) [0..<length rs] ([], d) = Inr (rs, d)"
    using open_records_played [OF shapes tick] r by (simp add: rs_def actors_def)
  obtain p where audits: "scan_sum (open_audit ?secs (of_nat (length rs)) (of_nat (length ds))) [0..<length as] ([], - 1, d) = Inr (as, p, d)"
    using open_audits_played [OF shapes tick val ds] r unfolding rs_def as_def by blast
  obtain d1 c1 where load: "fd_world_load (Some ctx) (Some (save_file v)) (of_nat s) (Some None) d = ((FD_OK, d1), Some c1, Some (Some v))"
    using affords_loads [OF room st, of None d] canon by (auto simp: s_def)
  have run: "plays 0 v rs as (world_at v (length rs))"
    using plays_played [of 0 ds v] ds shapes by (simp add: rs_def as_def)
  have "length rs + length as = length ds" by (simp add: rs_def as_def played_length)
  then have verify: "verify_attempts rs as (of_nat (length rs)) (of_nat (length as)) (of_nat (length ds)) d1 (Some v) =
      (((FD_OK, d1), 0), Some (world_at v (length rs)))"
    using u by (intro verify_attempts_run [OF run]) simp_all
  define c2 where "c2 = dispose c1 (Some (world_at v (length rs)))"
  have c2: "charged 0 0 ctx c2"
    unfolding c2_def
  proof (rule dispose_loaded)
    show "charged (1544 + tile_bytes v) 1 ctx c1" by (cases rule: load_cases [OF load]) simp_all
  qed simp
  define P where "P i st \<longleftrightarrow> fst st = of_nat (4 + (16 + s) * i) \<and> charged 0 0 ctx (fst (snd st))"
    for i and st :: "'u checkpoint_state"
  have "\<exists>st. scan_sum (open_checkpoint ?secs rs) [0..<length rs div 1024] (4, c2, d1) = Inr st \<and> P (length rs div 1024) st"
  proof (rule scan_upt_exists)
    show "P 0 (4, c2, d1)" using c2 by (simp add: P_def)
    fix i and st :: "'u checkpoint_state" assume i: "i < length rs div 1024" and st: "P i st"
    obtain pos c e where [simp]: "st = (pos, c, e)" by (metis prod.exhaust)
    from st have pos: "pos = of_nat (4 + (16 + s) * i)" and c: "charged 0 0 ctx c" by (simp_all add: P_def del: of_nat_add)
    have id: "reloaded (cx_id c) v = v" and af: "affords c v"
      using canon room charged_fields(3) [OF c] affords_charged [OF c] by simp_all
    obtain c' e' where "open_checkpoint ?secs rs i (pos, c, e) = Inr (of_nat (4 + (16 + s) * Suc i), c', e')" "charged 0 0 c c'"
      using open_checkpoint_played [OF \<open>storable v\<close> tick id af, where ds = ds and i = i and as = as and rest = rest and d = e] r size i unfolding pos rs_def s_def by blast
    then show "\<exists>st'. open_checkpoint ?secs rs i st = Inr st' \<and> P (Suc i) st'"
      using charged_zero_trans [OF c] by (auto simp: P_def)
  qed simp
  then obtain c3 d3 where cps: "scan_sum (open_checkpoint ?secs rs) [0..<length rs div 1024] (4, c2, d1) =
      Inr (of_nat (4 + (16 + s) * (length rs div 1024)), c3, d3)" and c3: "charged 0 0 ctx c3"
    by (auto simp: P_def)
  have "rs_length (?secs ! 5) = of_nat (4 + (16 + s) * (length rs div 1024))"
    using payload_lengths(4) [OF sh, of "[]" "[]"] by (simp add: opened_section section_at_def s_def)
  then have "open_contents ctx ?secs rp actors (of_nat (length ds)) d = (c3, Inr (rs, as, d3))"
    using records audits load verify cps
    by (simp add: open_contents_def rp u Let_def c2_def [symmetric] del: of_nat_add of_nat_mult)
  then show thesis using that c3 by blast
qed

text \<open>What the handle of an opened run holds.\<close>

definition holds_run :: "fd_replay \<Rightarrow> nat \<Rightarrow> fd_world \<Rightarrow> fd_joint_decision list \<Rightarrow> bool" where
  "holds_run rp owner v ds \<longleftrightarrow> authentic rp v \<and> rp_context rp = owner \<and> rp_cursor rp = 0 \<and>
     replay_records rp = played_records v ds \<and> replay_audits rp = played_audits 0 v ds \<and>
     rp_tick_zero_save rp = save_file v \<and> rp_tick_zero_save_size rp = of_nat (length (save_file v))"

lemma saved_slice:
  assumes "world_shape v"
  shows "section_slice (opened_sections v rs as rest ! 2) = save_file v"
    "rs_length (opened_sections v rs as rest ! 2) = of_nat (length (save_file v))"
proof -
  have "unat (of_nat (length (save_file v)) :: u64) = length (save_file v)"
    using save_file_bound [OF assms] by (simp add: unat_of_nat_u64)
  then show "section_slice (opened_sections v rs as rest ! 2) = save_file v"
    "rs_length (opened_sections v rs as rest ! 2) = of_nat (length (save_file v))"
    by (simp_all add: opened_section section_at_def section_slice_def)
qed

lemma fresh_replay_fields:
  fixes v :: fd_world and rs :: "fd_replay_record list" and as :: "fd_replay_audit list" and rest :: bytes and owner :: nat
  defines "secs \<equiv> opened_sections v rs as rest"
  assumes sh: "world_shape v" and r: "length rs < 2 ^ 42" and a: "length as < 2 ^ 32"
    and rb: "fd_u64_mul (of_nat (length rs)) 256 = Some rb" and ab: "fd_u64_mul (ucast (of_nat (length as) :: u32)) 328 = Some ab"
  defines "rp \<equiv> opened (fresh_replay owner secs v rb ab) rs as"
  shows "replay_records rp = rs" "replay_audits rp = as" "rp_record_count rp = of_nat (length rs)"
    "rp_audit_count rp = of_nat (length as)" "rp_tick_zero_save rp = save_file v"
    "rp_tick_zero_hash rp = w_state_sha256 v" "rp_context rp = owner" "rp_cursor rp = 0"
proof -
  have u: "unat (of_nat (length rs) :: u64) = length rs" "unat (of_nat (length as) :: u32) = length as"
    using r a by (simp_all add: unat_of_nat_u64 unat_of_nat_u32)
  have "0 < rb \<longleftrightarrow> rs \<noteq> []" "0 < ab \<longleftrightarrow> as \<noteq> []"
    using fd_u64_mul_unat [OF rb] fd_u64_mul_unat [OF ab] by (auto simp: word_less_nat_alt u)
  then show "replay_records rp = rs" "replay_audits rp = as"
    by (auto simp: rp_def opened_def fresh_replay_def replay_records_def replay_audits_def)
qed (simp_all add: rp_def opened_def fresh_replay_def secs_def manifest_loads [unfolded One_nat_def] saved_slice [OF sh])

lemma open_sections_played:
  fixes ctx :: "'u fd_context" and rest :: bytes and ds :: "fd_joint_decision list"
  assumes st: "storable v" and tick: "w_tick v = 0" and canon: "reloaded (cx_id ctx) v = v" and room: "affords ctx v"
    and shapes: "\<forall>d\<in>set ds. decision_shape d" and ds: "length ds < 2 ^ 64"
  defines "rs \<equiv> played_records v ds" and "as \<equiv> played_audits 0 v ds"
  assumes r: "length rs < 2 ^ 42" and a: "length as < 2 ^ 32" and size: "length (replay_file v rs as) < 2 ^ 64"
  obtains d ctx' rp where "open_sections ctx (opened_sections v rs as rest) 5 diag = ((FD_OK, d), ctx', Some rp)"
    "holds_run rp (cx_id ctx) v ds"
proof -
  let ?secs = "opened_sections v rs as rest" and ?s = "length (save_file v)"
  have sh: "world_shape v" using st by (simp add: storable_def)
  have wires: "\<forall>r\<in>set rs. record_wire r" "\<forall>a\<in>set as. audit_wire a"
    using played_wires [OF shapes] by (simp_all add: rs_def as_def)
  have n: "length rs + length as = length ds" by (simp add: rs_def as_def played_length)
  note loads = manifest_loads [where w = v and rs = rs and as = as and rest = rest]
  note counts = counts_accepted [OF sh wires size r a, of rest, unfolded n]
  note slice = saved_slice [OF sh, of rs as rest]
  obtain d1 c1 where load: "fd_world_load (Some ctx) (Some (save_file v)) (of_nat ?s) (Some None) diag = ((FD_OK, d1), Some c1, Some (Some v))"
    using affords_loads [OF room st, of None diag] canon by auto
  have c1: "charged (1544 + tile_bytes v) 1 ctx c1" by (cases rule: load_cases [OF load]) simp_all
  have u: "unat (of_nat (length rs) :: u64) = length rs" "unat (of_nat (length as) :: u32) = length as"
    using r a by (simp_all add: unat_of_nat_u64 unat_of_nat_u32)
  have us: "unat (of_nat ?s :: u64) = ?s" using save_file_bound [OF sh] by (simp add: unat_of_nat_u64)
  have small: "length rs * 256 < 2 ^ 64" "length as * 328 < 2 ^ 64" using r a by simp_all
  obtain rb where rb: "fd_u64_mul (of_nat (length rs)) 256 = Some rb"
    using small(1) by (auto intro: mul_fits [of "of_nat (length rs)" 256] simp: u)
  obtain ab where ab: "fd_u64_mul (ucast (of_nat (length as) :: u32)) 328 = Some ab"
    using small(2) by (auto intro: mul_fits [of "ucast (of_nat (length as) :: u32)" 328] simp: u)
  have "willing c1" using affords_charged [OF c1, of v] room by (simp add: affords_def)
  moreover have "0 < (of_nat ?s :: u64)"
    unfolding word_less_nat_alt us by (simp add: length_save_file)
  ultimately obtain c2 where alloc: "open_allocate c1 (of_nat ?s) rb ab = (c2, None)" by (rule open_allocate_willing)
  define c3 where "c3 = dispose c2 (Some v)"
  have c3: "charged (1544 + tile_bytes v + (128 + of_nat ?s + rb + ab) + - (1544 + tile_bytes v)) (1 + 0 + - 1) ctx c3"
    unfolding c3_def
    using charged_trans [OF charged_trans [OF c1 open_allocate_charged [OF alloc]] dispose_charged [of v]] by simp
  have id: "cx_id c2 = cx_id ctx" "reloaded (cx_id c3) v = v" "affords c3 v"
    using open_allocate_id [OF alloc] charged_fields(3) [OF c1] charged_fields(3) [OF c3] affords_charged [OF c3] canon room by simp_all
  define rp where "rp = fresh_replay (cx_id ctx) ?secs v rb ab"
  note fields = fresh_replay_fields [OF sh r a rb ab, where owner = "cx_id ctx" and rest = rest, folded rp_def]
  let ?actors = "[rg_foreign_faction_ids (w_region v) ! 0, rg_foreign_faction_ids (w_region v) ! 1]"
  have cps: "4 + (16 + ?s) * (length rs div 1024) < 2 ^ 64"
    using size length_replay_file(1) [OF sh wires] by (simp add: replay_size_def mult.commute)
  have held: "rp_tick_zero_hash rp = w_state_sha256 v" "rp_record_count rp = of_nat (length rs)"
      "rp_audit_count rp = of_nat (length as)" "rp_checkpoint_count rp = of_nat (length rs div 1024)"
      "rp_tick_zero_save rp = save_file v" "rp_tick_zero_save_size rp = of_nat ?s"
    by (simp_all add: rp_def fresh_replay_def loads [unfolded One_nat_def] slice)
  obtain c4 d2 where contents: "open_contents c3 ?secs rp ?actors (of_nat (length ds)) d1 = (c4, Inr (rs, as, d2))"
    using open_contents_played [OF st tick id(2,3) shapes ds, where d = d1 and rest = rest and rp = rp,
        folded rs_def as_def, OF r a cps held] by blast
  have "open_sections ctx ?secs 5 diag = (fd_diag_ok d2, handle_acquire c4, Some (opened rp rs as))"
    using load alloc contents counts
    by (simp add: open_sections_def loads loads [unfolded One_nat_def] Let_def slice tick rb ab id(1) c3_def [symmetric] rp_def [symmetric])
  moreover have "rp_tick_zero_save_size (opened rp rs as) = of_nat ?s" using held(6) by (simp add: opened_def)
  then have "holds_run (opened rp rs as) (cx_id ctx) v ds"
    using fields st tick canon plays_played [of 0 ds v] shapes ds r a
    by (auto simp: holds_run_def authentic_def unat_of_nat_u64 unat_of_nat_u32 rs_def as_def)
  ultimately show thesis using that by (simp add: diag_ok_fst)
qed

lemma replay_file_opens:
  fixes ctx :: "'u fd_context" and rest :: bytes and ds :: "fd_joint_decision list"
  assumes st: "storable v" and tick: "w_tick v = 0" and canon: "reloaded (cx_id ctx) v = v" and room: "affords ctx v"
    and shapes: "\<forall>d\<in>set ds. decision_shape d" and ds: "length ds < 2 ^ 64"
  defines "rs \<equiv> played_records v ds" and "as \<equiv> played_audits 0 v ds"
  defines "file \<equiv> replay_file v rs as"
  assumes r: "length rs < 2 ^ 42" and a: "length as < 2 ^ 32" and lim: "length file \<le> unat (cx_max_file_bytes ctx)"
  obtains d ctx' rp where "fd_replay_open (Some ctx) (Some (file @ rest)) (of_nat (length file)) (Some old) diag =
      ((FD_OK, d), Some ctx', Some (Some rp))" "holds_run rp (cx_id ctx) v ds"
proof -
  let ?n = "of_nat (length file) :: u64" and ?body = "replay_body v rs as"
  have size: "length (replay_file v rs as) < 2 ^ 64" using lim unat_lt_u64 [of "cx_max_file_bytes ctx"] by (simp add: file_def)
  have un: "unat ?n = length file" using size by (simp add: unat_of_nat_u64 file_def)
  have len: "length file = length ?body + 32" "248 \<le> length ?body"
    by (simp_all add: file_def replay_file_def replay_body_def replay_sections_def)
  have "(32 :: u64) \<le> ?n" by (simp only: word_le_nat_alt un) (simp add: len)
  then have "unat (?n - 32) = unat ?n - unat (32 :: u64)" by (rule unat_sub)
  then have body: "unat (?n - 32) = length ?body" by (simp only: un) (simp add: len)
  have guards: "\<not> ?n > cx_max_file_bytes ctx" "\<not> ?n < 8 + 32 + 48"
    unfolding word_less_nat_alt un using lim len by simp_all
  define F where "F = file @ rest"
  have magic: "take 8 F = fd_replay_magic" by (simp add: F_def file_def replay_file_def replay_body_def)
  have footer: "fd_replay_footer_digest F (length ?body) = take 32 (drop (length ?body) F)"
    by (simp add: F_def file_def replay_file_def fd_replay_footer_digest_def)
  let ?rest = "fd_replay_footer_digest ?body (length ?body) @ rest"
  have parse: "fd_parse_replay_sections F (length file) (snd (fd_diag_ok diag)) = Inr (opened_sections v rs as ?rest, 5)"
    using parse_replay_file [OF size, of rest] by (simp add: F_def file_def)
  obtain d ctx' rp where "open_sections ctx (opened_sections v rs as ?rest) 5 (snd (fd_diag_ok diag)) = ((FD_OK, d), ctx', Some rp)"
    and "holds_run rp (cx_id ctx) v ds"
    using open_sections_played [OF st tick canon room shapes ds, folded rs_def as_def, OF r a size] by blast
  then show thesis
    using that guards magic footer parse by (simp add: fd_replay_open_def F_def [symmetric] body un)
qed

end
