(* ===== verification/FD_Recorded.thy ===== *)
theory FD_Recorded
  imports FD_Replayed FD_Sample
begin

text \<open>
  The properties of replay files that span building, opening and playing back: what is built opens
  again, whatever opens is a run of the model, and playing it back follows that run.  A concrete
  replay of one accepted and one refused attempt shows that the hypotheses can hold.
\<close>

unbundle bit_operations_syntax

section \<open>A concrete replay\<close>

text \<open>The decision a world accepts: both factions pass.\<close>

definition pass_decision :: "fd_world \<Rightarrow> fd_joint_decision" where
  "pass_decision w =
     \<lparr>jd_struct_size = 136, jd_abi_version = 1, jd_seat_count = 2, jd_reserved = 0,
      jd_expected_tick = w_tick w, jd_expected_pre_state_sha256 = w_state_sha256 w,
      jd_seats = map (\<lambda>seat. \<lparr>sd_actor_id = rg_foreign_faction_ids (w_region w) ! seat, sd_action = pass_sample\<rparr>) [0..<2]\<rparr>"

lemma pass_decision_accepted: "accepts w (pass_decision w) \<longleftrightarrow> w_tick w \<le> - 25 \<and> world_valid w"
  by (auto simp: step_accepts_def canonical_decision_def pass_decision_def pass_action_def pass_sample_def
      blank_step_def less_2_cases_iff upt_2 less_Suc_eq numeral_eq_Suc)

lemma pass_decision_stale: "\<not> accepts (stepped_world w) (pass_decision w)"
  using tick_moves [of w] by (simp add: step_accepts_def canonical_decision_def pass_decision_def)

lemma pass_decision_shape: "length (w_state_sha256 w) = 32 \<Longrightarrow> decision_shape (pass_decision w)"
  by (simp add: decision_shape_def pass_decision_def seat_shape_def pass_sample_def)

text \<open>An allocator that never runs out.\<close>

definition roomy_context :: "u64 fd_context" where
  "roomy_context = sample_context\<lparr>cx_allocate := \<lambda>u n. (True, u)\<rparr>"

definition sample_decisions :: "fd_joint_decision list" where
  "sample_decisions = replicate 2 (pass_decision (reloaded 1 sample_world))"

lemma sample_tick: "w_tick sample_world = 0"
proof -
  obtain h where w: "sample_world = sample_ground
     \<lparr>w_configuration_sha256 := fd_hash_config_internal sample_config,
      w_content_sha256 := fd_hash_content_internal (world_manifest sample_ground), w_state_sha256 := h\<rparr>"
    using sample_world_eq by blast
  show ?thesis by (subst w) (simp add: sample_ground_def grid_world_def)
qed

lemma sample_played:
  defines "v \<equiv> reloaded 1 sample_world"
  shows "played_records v sample_decisions = [record_of v (pass_decision v)]"
    "played_audits 0 v sample_decisions = [audit_of 1 (stepped_world v) (pass_decision v)]"
proof -
  have "accepts v (pass_decision v)"
    using sample_storable sample_tick by (simp add: pass_decision_accepted v_def reloaded_fields storable_def)
  then show "played_records v sample_decisions = [record_of v (pass_decision v)]"
    "played_audits 0 v sample_decisions = [audit_of 1 (stepped_world v) (pass_decision v)]"
    using pass_decision_stale [of v] by (simp_all add: sample_decisions_def v_def [symmetric, unfolded One_nat_def] numeral_2_eq_2)
qed

lemma sample_affords: "affords roomy_context sample_world"
proof -
  have "wc_width (w_config sample_world) = 32" "wc_height (w_config sample_world) = 16"
    using sample.width sample.height by (simp_all add: ground_fields)
  then show ?thesis
    by (simp add: affords_def willing_def roomy_context_def sample_context_def sample_file_length world_tile_bytes_def)
qed

lemma sample_shapes: "\<forall>d\<in>set sample_decisions. decision_shape d"
  using sample_storable pass_decision_shape [of "reloaded 1 sample_world"]
  by (simp add: sample_decisions_def reloaded_fields storable_def world_shape_def)

lemma sample_replay_length: "length (replay_of 1 sample_world sample_decisions) = 14380"
  using length_replay_of [OF sample_storable sample_shapes, of 1] sample_played
  by (simp add: sample_file_length replay_size_def)

lemma sample_buildable: "buildable roomy_context sample_world sample_decisions"
proof -
  have "cx_id roomy_context = 1" "unat (cx_max_file_bytes roomy_context) = 67108864"
    by (simp_all add: roomy_context_def sample_context_def)
  then show ?thesis
    using sample_affords sample_played sample_replay_length by (simp add: buildable_def Let_def)
qed

lemma sample_replay_owner: "cx_id roomy_context = 1"
  by (simp add: roomy_context_def sample_context_def)

lemma sample_decision_count: "length sample_decisions = 2"
  by (simp add: sample_decisions_def)

lemma replay_build_all_or_nothing_witness:
  "\<exists>ctx' d. fd_replay_build roomy_context (Some sample_world) (Some sample_decisions) 2 (Some (replicate 20000 0)) 20000
      (Some 0) None =
    ((FD_OK, d), ctx', Some (replay_of 1 sample_world sample_decisions @ replicate 5620 0), Some 14380)"
proof -
  have room: "unat (20000 :: u64) \<le> length (replicate 20000 (0 :: u8))" by simp
  obtain r d ctx' buf n where b: "fd_replay_build roomy_context (Some sample_world) (Some sample_decisions) 2
      (Some (replicate 20000 0)) 20000 (Some 0) None = ((r, d), ctx', buf, n)" by (metis prod.exhaust)
  show ?thesis
    using replay_build_all_or_nothing [OF sample_storable sample_tick sample_shapes _ room, of roomy_context 0 None]
      b sample_buildable sample_replay_length
    by (simp add: sample_decision_count sample_replay_owner [unfolded One_nat_def] Let_def split: if_splits)
qed

lemma replay_size_announced_witness:
  "\<exists>ctx' d. fd_replay_build_size roomy_context (Some sample_world) (Some sample_decisions) 2 (Some 0) None =
    ((FD_OK, d), ctx', Some 14380)"
proof -
  obtain r d ctx' n where b: "fd_replay_build_size roomy_context (Some sample_world) (Some sample_decisions) 2
      (Some 0) None = ((r, d), ctx', n)" by (metis prod.exhaust)
  show ?thesis
    using replay_size_announced [OF sample_storable sample_tick sample_shapes, of roomy_context 0 None]
      b sample_buildable sample_replay_length
    by (simp add: sample_decision_count sample_replay_owner [unfolded One_nat_def] split: if_splits)
qed

section \<open>Building and opening\<close>

lemma reloaded_twice [simp]: "reloaded i (reloaded j w) = reloaded i w"
proof -
  have "world_tile_bytes (c\<lparr>wc_struct_size := 76, wc_abi_version := 1, wc_reserved := replicate 8 0\<rparr>) = world_tile_bytes c" for c
    by (simp add: world_tile_bytes_def)
  then show ?thesis by (simp only: reloaded_def) simp
qed

lemma affords_reloaded [simp]: "affords ctx (reloaded i w) = affords ctx w"
  by (simp add: affords_def) (simp add: reloaded_def world_tile_bytes_def)

lemma built_file_opens:
  fixes ctx :: "'u fd_context"
  assumes st: "storable w" and tick: "w_tick w = 0" and shapes: "\<forall>d\<in>set ds. decision_shape d"
    and ds: "length ds < 2 ^ 64" and b: "buildable ctx w ds"
  defines "file \<equiv> replay_of (cx_id ctx) w ds"
  obtains d ctx' rp where "fd_replay_open (Some ctx) (Some (file @ rest)) (of_nat (length file)) (Some old) diag =
      ((FD_OK, d), Some ctx', Some (Some rp))" "holds_run rp (cx_id ctx) (reloaded (cx_id ctx) w) ds"
proof -
  let ?v = "reloaded (cx_id ctx) w"
  have "storable ?v" "w_tick ?v = 0" "reloaded (cx_id ctx) ?v = ?v" "affords ctx ?v"
    using storable_reloaded [OF st] tick b by (simp_all add: reloaded_fields buildable_def Let_def)
  from replay_file_opens [OF this shapes ds, where rest = rest and old = old and diag = diag] b
  show thesis using that by (auto simp: buildable_def Let_def file_def replay_of_def)
qed

text \<open>C8: what is built opens again.  When a replay of a storable tick-zero world fits its buffer and there
  is memory, building it succeeds, and opening exactly the bytes it wrote, in the context it left
  behind, succeeds too: digests, sections, canonical records, audits, re-execution and checkpoints all
  pass.  The handle then holds the record of every accepted attempt, the audit of every refused one,
  the save of the tick-zero world and the cursor zero.\<close>

theorem replay_build_open_roundtrip:
  assumes "storable w" and "w_tick w = 0" and "\<forall>d\<in>set ds. decision_shape d" and "length ds < 2 ^ 64"
    and "unat capacity \<le> length buf"
    and "buildable ctx w ds" and "length (replay_of (cx_id ctx) w ds) \<le> unat capacity"
  shows "case fd_replay_build ctx (Some w) (Some ds) (of_nat (length ds)) (Some buf) capacity (Some k) diag of
      ((r, d), ctx', written, n) \<Rightarrow> r = FD_OK \<and>
        (case fd_replay_open (Some ctx') written (the n) (Some old) d of ((r', d'), ctx'', out) \<Rightarrow>
           r' = FD_OK \<and> (\<exists>rp. out = Some (Some rp) \<and> holds_run rp (cx_id ctx) (reloaded (cx_id ctx) w) ds))"
proof (rule build_cases [OF assms(1-5), where ctx = ctx and k = k and diag = diag], goal_cases)
  case (1 d ctx')
  have b: "buildable ctx' w ds" and id: "cx_id ctx' = cx_id ctx"
    using buildable_charged [OF 1(2)] charged_fields(3) [OF 1(2)] assms(6) by simp_all
  obtain d2 ctx2 rp where "fd_replay_open (Some ctx') (Some (replay_of (cx_id ctx) w ds @ drop (length (replay_of (cx_id ctx) w ds)) buf))
        (of_nat (length (replay_of (cx_id ctx) w ds))) (Some old) d = ((FD_OK, d2), Some ctx2, Some (Some rp))"
    "holds_run rp (cx_id ctx) (reloaded (cx_id ctx) w) ds"
    by (rule built_file_opens [OF assms(1-4) b, unfolded id])
  then show ?case using 1(1) by simp
qed (use assms(6,7) in simp)

lemma replay_build_open_roundtrip_witness:
  "case fd_replay_build roomy_context (Some sample_world) (Some sample_decisions) 2 (Some (replicate 20000 0)) 20000
      (Some 0) None of
    ((r, d), ctx', written, n) \<Rightarrow> r = FD_OK \<and>
      (case fd_replay_open (Some ctx') written (the n) (Some None) d of ((r', d'), ctx'', out) \<Rightarrow>
         r' = FD_OK \<and> (\<exists>rp. out = Some (Some rp) \<and> holds_run rp 1 (reloaded 1 sample_world) sample_decisions))"
  using replay_build_open_roundtrip [OF sample_storable sample_tick sample_shapes _ _ sample_buildable,
      of 20000 "replicate 20000 0" None 0 None] sample_replay_length
  by (simp add: sample_decisions_def roomy_context_def sample_context_def)

section \<open>Whatever opens\<close>

lemma open_accepted:
  assumes "fd_replay_open (Some ctx) (Some bytes) n (Some old) diag = ((FD_OK, d), ctx', Some (Some rp))"
  obtains secs k c where "fd_parse_replay_sections bytes (unat n) (snd (fd_diag_ok diag)) = Inr (secs, k)"
    "open_sections ctx secs k (snd (fd_diag_ok diag)) = ((FD_OK, d), c, Some rp)" "88 \<le> unat n"
  using assms
  by (auto simp: fd_replay_open_def Let_def word_less_nat_alt not_less split: if_splits sum.splits prod.splits)

text \<open>C9: whatever opens is authentic.  If a buffer of at least the announced length opens, then there is a
  storable tick-zero world from which replaying the handle's records and audits is a run of the
  simulation, with every record and audit reporting exactly what the step function does; the cursor is
  at zero, the handle belongs to the opening context, and that world is the one every successful
  \<open>fd_replay_create_world\<close> in that context hands out.\<close>

theorem replay_open_authentic:
  fixes ctx :: "'u fd_context"
  assumes "fd_replay_open (Some ctx) (Some bytes) n (Some old) diag = ((FD_OK, d), ctx', Some (Some rp))"
    and "unat n \<le> length bytes"
  shows "rp_context rp = cx_id ctx \<and> rp_cursor rp = 0 \<and>
    (\<exists>w. authentic rp w \<and> (\<forall>(c :: 'u fd_context) x g. cx_id c = cx_id ctx \<longrightarrow>
      (case fd_replay_create_world c (Some rp) (Some x) g of (r, c', out) \<Rightarrow> fst r = FD_OK \<longrightarrow> out = Some (Some w))))"
proof -
  obtain secs k c where p: "fd_parse_replay_sections bytes (unat n) (snd (fd_diag_ok diag)) = Inr (secs, k)"
    and o: "open_sections ctx secs k (snd (fd_diag_ok diag)) = ((FD_OK, d), c, Some rp)" and n: "88 \<le> unat n"
    using assms(1) by (rule open_accepted)
  have "length (section_slice (secs ! 2)) = unat (rs_length (secs ! 2))"
    using replay_sections_fit [OF p _ assms(2), of 2] n by simp
  then obtain w d1 d2 c1 and c :: "'u fd_context" where
    w: "authentic rp w" "rp_context rp = cx_id ctx" "rp_cursor rp = 0" and
    load: "fd_world_load (Some c) (Some (rp_tick_zero_save rp)) (rp_tick_zero_save_size rp) (Some None) d1 =
       ((FD_OK, d2), c1, Some (Some w))" and id: "cx_id c = cx_id ctx"
    by (rule open_sections_authentic [OF o])
  have hands: "out = Some (Some w)" if b: "cx_id b = cx_id ctx" and ok: "fst r = FD_OK"
    and create: "fd_replay_create_world b (Some rp) (Some x) g = (r, b', out)" for b b' :: "'u fd_context" and x g r out
  proof -
    obtain ob where l: "fd_world_load (Some b) (Some (rp_tick_zero_save rp)) (rp_tick_zero_save_size rp) (Some None) g = (r, ob, out)"
      using create by (auto simp: fd_replay_create_world_def split: prod.splits)
    then show ?thesis
    proof (cases rule: load_cases)
      case (loaded v b2)
      then have "fd_world_load (Some b) (Some (rp_tick_zero_save rp)) (rp_tick_zero_save_size rp) (Some None) g =
          ((FD_OK, snd r), Some b2, Some (Some v))" using l by (cases r) simp
      from load_same [OF this load] loaded(3) b id show ?thesis by simp
    qed (use ok in simp)
  qed
  have "case fd_replay_create_world b (Some rp) (Some x) g of (r, c', out) \<Rightarrow> fst r = FD_OK \<longrightarrow> out = Some (Some w)"
    if "cx_id b = cx_id ctx" for b :: "'u fd_context" and x g
    using hands [OF that] by (cases "fd_replay_create_world b (Some rp) (Some x) g") simp
  then show ?thesis using w by blast
qed

lemma sample_opened:
  obtains d ctx' rp where "fd_replay_open (Some roomy_context) (Some (replay_of 1 sample_world sample_decisions))
      14380 (Some None) None = ((FD_OK, d), Some ctx', Some (Some rp))"
    "holds_run rp 1 (reloaded 1 sample_world) sample_decisions"
proof -
  have few: "length sample_decisions < 2 ^ 64" by (simp add: sample_decision_count)
  obtain d ctx' rp where "fd_replay_open (Some roomy_context) (Some (replay_of (cx_id roomy_context) sample_world sample_decisions @ []))
      (of_nat (length (replay_of (cx_id roomy_context) sample_world sample_decisions))) (Some None) None = ((FD_OK, d), Some ctx', Some (Some rp))"
    "holds_run rp (cx_id roomy_context) (reloaded (cx_id roomy_context) sample_world) sample_decisions"
    by (rule built_file_opens [where rest = "[]" and old = None and diag = None,
          OF sample_storable sample_tick sample_shapes few sample_buildable])
  then show thesis using that sample_replay_length by (simp add: sample_replay_owner [unfolded One_nat_def])
qed

lemma replay_open_authentic_witness:
  "\<exists>d ctx' rp w. fd_replay_open (Some roomy_context) (Some (replay_of 1 sample_world sample_decisions)) 14380
      (Some None) None = ((FD_OK, d), ctx', Some (Some rp)) \<and> rp_context rp = 1 \<and> rp_cursor rp = 0 \<and> authentic rp w"
proof -
  obtain d ctx' rp where o: "fd_replay_open (Some roomy_context) (Some (replay_of 1 sample_world sample_decisions))
      14380 (Some None) None = ((FD_OK, d), Some ctx', Some (Some rp))"
    by (rule sample_opened)
  have "unat (14380 :: u64) \<le> length (replay_of 1 sample_world sample_decisions)"
    using sample_replay_length by simp
  from replay_open_authentic [OF o this] o show ?thesis
    unfolding sample_replay_owner by blast
qed

section \<open>Playing back\<close>

lemma advance_run:
  assumes "authentic rp w" and "rp_cursor rp \<le> rp_record_count rp" and "cx_id ctx = rp_context rp"
    and "fd_output_struct_valid (Some (rs_struct_size out, rs_abi_version out)) 72"
  shows "let c = unat (rp_cursor rp); n = min k (rp_record_count rp - rp_cursor rp); v = world_at w c;
      rp1 = rp\<lparr>rp_cursor := rp_cursor rp + n\<rparr>; v1 = world_at w (c + unat n);
      clone = fd_world_clone_via_save ctx (Some v) (Some None) diag in
    case fd_replay_advance ctx (Some rp) (Some v) k (Some out) diag of (r, ctx', rp', v', out') \<Rightarrow>
      cx_live_bytes ctx' = cx_live_bytes ctx \<and> cx_live_handles ctx' = cx_live_handles ctx \<and>
      (if n = 0 \<or> fst (fst clone) = FD_OK
       then fst r = FD_OK \<and> rp' = Some rp1 \<and> v' = Some v1 \<and> out' = Some (advance_status rp1 v1 n)
       else fst r = fst (fst clone) \<and> rp' = Some rp \<and> v' = Some v \<and> out' = Some out)"
proof -
  define c where "c = unat (rp_cursor rp)"
  define n where "n = min k (rp_record_count rp - rp_cursor rp)"
  let ?v = "world_at w c" and ?rp1 = "rp\<lparr>rp_cursor := rp_cursor rp + n\<rparr>"
  have own: "w_context ?v = rp_context rp" and same: "reloaded (rp_context rp) ?v = ?v"
    using reloaded_world_at [of "rp_context rp" w c] assms(1) reloaded_context [of "rp_context rp" ?v]
    by (simp_all add: authentic_def)
  have n_def': "(if k < rp_record_count rp - rp_cursor rp then k else rp_record_count rp - rp_cursor rp) = n"
    by (auto simp: n_def min_def)
  have "n \<le> rp_record_count rp - rp_cursor rp" by (simp add: n_def)
  then have le: "c + unat n \<le> unat (rp_record_count rp)"
    using assms(2) by (simp add: word_le_nat_alt unat_sub c_def)
  have at: "(w_tick ?v, w_state_sha256 ?v) = cursor_state rp"
    using cursor_state_run [OF assms(1,2)] by (simp add: c_def)
  show ?thesis
  proof (cases "n = 0")
    case True
    then show ?thesis
      using assms(4) own at
      by (simp add: fd_replay_advance_def n_def' Let_def c_def [symmetric] n_def [symmetric] diag_ok_fst)
  next
    case False
    then have "0 < unat n" by (simp add: unat_gt_0)
    then have st: "storable ?v" using le by (intro authentic_storable [OF assms(1)]) simp
    from st show ?thesis
    proof (cases rule: clone_cases [where w = ?v and ctx = ctx and old = None and diag = diag])
      case (cloned d ctx')
      then have copy: "fd_world_clone_via_save ctx (Some ?v) (Some None) diag = ((FD_OK, d), ctx', Some (Some ?v))"
        using same assms(3) by simp
      obtain d' where run: "scan_sum (advance_step rp) [0..<unat n] (Some ?v, d) = Inr (Some (world_at w (c + unat n)), d')"
        using advance_steps [OF assms(1) c_def le, of 0 d] by auto
      have last: "?v\<lparr>w_tick := w_tick (world_at w (c + unat n)), w_state_sha256 := w_state_sha256 (world_at w (c + unat n))\<rparr>
          = world_at w (c + unat n)"
        using world_at_retick [of ?v "unat n"] by (simp add: world_at_add)
      have "tile_bytes (world_at w (c + unat n)) = tile_bytes ?v"
        by (subst last [symmetric]) (simp add: tile_bytes_def)
      then have "charged 0 0 ctx (dispose ctx' (Some (world_at w (c + unat n))))"
        using dispose_loaded cloned(2) by blast
      then show ?thesis
        using False assms(4) own at copy run last
        by (simp add: fd_replay_advance_def n_def' Let_def c_def [symmetric] n_def [symmetric] diag_ok_fst charged_fields)
    next
      case (failed r ctx')
      then show ?thesis
        using False assms(4) own at
        by (cases r) (simp add: fd_replay_advance_def n_def' Let_def c_def [symmetric] n_def [symmetric] charged_fields)
    qed
  qed
qed

text \<open>C10: advancing a world along an authentic replay.  When the cursor's world is at the cursor's place of
  the run, a call moves cursor and world \<open>n\<close> transitions further (the smaller of what was asked for
  and what is left), lands on exactly the world the run has there and reports it, so a replay that was
  opened can never diverge.  The only other outcome is that the transactional clone could not be made;
  then its code is returned and replay, world and status are unchanged.  Either way the books of the
  context are as before.\<close>

theorem replay_advance_follows_run:
  assumes "authentic rp w" and "rp_cursor rp \<le> rp_record_count rp" and "cx_id ctx = rp_context rp"
    and "fd_output_struct_valid (Some (rs_struct_size out, rs_abi_version out)) 72"
  shows "let c = unat (rp_cursor rp); n = min k (rp_record_count rp - rp_cursor rp); v = world_at w c;
      rp1 = rp\<lparr>rp_cursor := rp_cursor rp + n\<rparr>; v1 = world_at w (c + unat n);
      clone = fd_world_clone_via_save ctx (Some v) (Some None) diag in
    case fd_replay_advance ctx (Some rp) (Some v) k (Some out) diag of (r, ctx', rp', v', out') \<Rightarrow>
      cx_live_bytes ctx' = cx_live_bytes ctx \<and> cx_live_handles ctx' = cx_live_handles ctx \<and>
      (if n = 0 \<or> fst (fst clone) = FD_OK
       then fst r = FD_OK \<and> rp' = Some rp1 \<and> v' = Some v1 \<and> out' = Some (advance_status rp1 v1 n)
       else fst r = fst (fst clone) \<and> rp' = Some rp \<and> v' = Some v \<and> out' = Some out)"
  by (rule advance_run [OF assms])

text \<open>One accepted attempt is played back.\<close>

definition blank_status :: fd_replay_status where
  "blank_status =
     \<lparr>rs_struct_size = 72, rs_abi_version = 1, rs_cursor = 0, rs_total_decisions = 0, rs_decisions_advanced = 0,
      rs_complete = 0, rs_reserved = 0, rs_state_sha256 = replicate 32 0\<rparr>"

lemma holds_run_count: "holds_run rp owner v ds \<Longrightarrow> unat (rp_record_count rp) = length (played_records v ds)"
  by (metis holds_run_def authentic_def)

lemma replay_advance_follows_run_witness:
  "\<exists>rp r ctx'. holds_run rp 1 (reloaded 1 sample_world) sample_decisions \<and>
     fd_replay_advance roomy_context (Some rp) (Some (reloaded 1 sample_world)) 1 (Some blank_status) None =
       (r, ctx', Some (rp\<lparr>rp_cursor := 1\<rparr>), Some (stepped_world (reloaded 1 sample_world)),
        Some (advance_status (rp\<lparr>rp_cursor := 1\<rparr>) (stepped_world (reloaded 1 sample_world)) 1)) \<and> fst r = FD_OK"
proof -
  define v where "v = reloaded 1 sample_world"
  obtain rp where h: "holds_run rp 1 v sample_decisions"
    using sample_opened unfolding v_def by blast
  have "unat (rp_record_count rp) = unat (1 :: u64)"
    using holds_run_count [OF h] sample_played(1) by (simp add: v_def)
  then have n: "rp_record_count rp = 1" by (simp only: word_unat_eq_iff)
  have at: "authentic rp v" "rp_cursor rp \<le> rp_record_count rp" "cx_id roomy_context = rp_context rp" "rp_cursor rp = 0"
    using h by (simp_all add: holds_run_def sample_replay_owner)
  have out: "fd_output_struct_valid (Some (rs_struct_size blank_status, rs_abi_version blank_status)) 72"
    by (simp add: blank_status_def fd_output_struct_valid_def)
  have "fst (fst (fd_world_clone_via_save roomy_context (Some v) (Some None) None)) = FD_OK"
    using storable_reloaded [OF sample_storable, of 1, folded v_def]
  proof (cases rule: clone_cases [where ctx = roomy_context and old = None and diag = None])
    case (failed r ctx')
    then show ?thesis using sample_affords by (simp add: v_def)
  qed simp
  with replay_advance_follows_run [OF at(1-3) out, of 1 None] show ?thesis
    using h n at(4) unfolding v_def [symmetric]
    by (intro exI [of _ rp]) (auto simp: Let_def world_at_Suc [of v 0, simplified] split: prod.splits)
qed

end
