(* ===== verification/FD_Visible.thy ===== *)
theory FD_Visible
  imports FD_Frames FD_Routes FD_Recorded
begin

text \<open>
  Every world the library hands out can be shown: the checks of the validator are exactly what the
  screens of \<^verbatim>\<open>src/terminal/ascii_renderer.cpp\<close> rely on, so none of their error branches is taken.
\<close>

section \<open>What the screens need of a world\<close>

lemma settlement_scan_count:
  "scan_tiles (settlement_tile w) is (n, d) = Some (m, d') \<Longrightarrow>
   m = n + length (filter (\<lambda>i. terrain_at w i = FD_TERRAIN_SETTLEMENT) is)"
proof (induction "is" arbitrary: n d)
  case (Cons i "is")
  have step: "settlement_tile w i (n, d) = None \<or>
      (\<exists>e. settlement_tile w i (n, d) = Some (if terrain_at w i = FD_TERRAIN_SETTLEMENT then n + 1 else n, e))"
    by (simp add: settlement_tile_def Let_def)
  obtain d1 where "scan_tiles (settlement_tile w) is (if terrain_at w i = FD_TERRAIN_SETTLEMENT then n + 1 else n, d1) = Some (m, d')"
    using step Cons.prems by fastforce
  from Cons.IH [OF this] show ?case by simp
qed simp

lemma two_hits:
  assumes "length (filter P [0..<N]) = 2" and "P a" "P b" "a < N" "b < N" "a \<noteq> b" and "P i" "i < N"
  shows "i = a \<or> i = b"
proof -
  let ?S = "set (filter P [0..<N])"
  have "card ?S = 2" using assms(1) distinct_card [of "filter P [0..<N]"] by simp
  moreover have "{a, b} \<subseteq> ?S" "card {a, b} = 2" using assms by simp_all
  ultimately have "{a, b} = ?S" by (intro card_subset_eq) simp_all
  then show ?thesis using assms(7,8) by auto
qed

lemma settlement_terrain_owner:
  assumes v: "fd_validate_settlements w outlet" and n: "unat (w_tile_count w) = grid_width w * unat (wc_height (w_config w))"
    and i: "i < unat (w_tile_count w)" "terrain_at w i = FD_TERRAIN_SETTLEMENT"
  shows "tl_settlement_id (tile_at w i) \<in> {en_id (w_entities w ! 1), en_id (w_entities w ! 2)}"
proof -
  define cell where "cell e = unat (en_y e) * grid_width w + unat (en_x e)" for e :: fd_entity
  let ?c = "w_entities w ! 1" and ?n = "w_entities w ! 2"
  have facts: "en_x ?c < wc_width (w_config w)" "en_y ?c < wc_height (w_config w)"
      "en_x ?n < wc_width (w_config w)" "en_y ?n < wc_height (w_config w)"
      "terrain_at w (cell ?c) = FD_TERRAIN_SETTLEMENT" "tl_settlement_id (tile_at w (cell ?c)) = en_id ?c"
      "terrain_at w (cell ?n) = FD_TERRAIN_SETTLEMENT" "tl_settlement_id (tile_at w (cell ?n)) = en_id ?n"
      "12 \<le> fd_manhattan (unat (en_x ?c)) (unat (en_y ?c)) (unat (en_x ?n)) (unat (en_y ?n))"
    and scan: "\<exists>d. scan_tiles (settlement_tile w) [0..<unat (w_tile_count w)] (0, UINT32_MAX) = Some (2, d)"
    using v by (auto simp: fd_validate_settlements_def Let_def cell_def not_le not_less split: if_splits option.splits)
  have inside: "cell e < unat (w_tile_count w)" "cell e mod grid_width w = unat (en_x e)" "cell e div grid_width w = unat (en_y e)"
    if "en_x e < wc_width (w_config w)" "en_y e < wc_height (w_config w)" for e
  proof -
    have x: "unat (en_x e) < grid_width w" "unat (en_y e) < unat (wc_height (w_config w))"
      using that by (simp_all add: word_less_nat_alt)
    then show "cell e mod grid_width w = unat (en_x e)" "cell e div grid_width w = unat (en_y e)"
      by (simp_all add: cell_def)
    have "(unat (en_y e) + 1) * grid_width w \<le> unat (wc_height (w_config w)) * grid_width w"
      using x(2) by (intro mult_le_mono1) simp
    then show "cell e < unat (w_tile_count w)" using x(1) by (simp add: cell_def n algebra_simps)
  qed
  have "cell ?c \<noteq> cell ?n"
  proof
    assume "cell ?c = cell ?n"
    then have "en_x ?c = en_x ?n" "en_y ?c = en_y ?n"
      using inside(2,3) [OF facts(1,2)] inside(2,3) [OF facts(3,4)] by (simp_all add: word_unat_eq_iff)
    then show False using facts(9) by (simp add: fd_manhattan_def fd_abs_diff_u32_def)
  qed
  moreover have "length (filter (\<lambda>i. terrain_at w i = FD_TERRAIN_SETTLEMENT) [0..<unat (w_tile_count w)]) = 2"
    using scan settlement_scan_count by fastforce
  ultimately have "i = cell ?c \<or> i = cell ?n"
    using two_hits [of _ "unat (w_tile_count w)" "cell ?c" "cell ?n" i] facts(5,7) i
      inside(1) [OF facts(1,2)] inside(1) [OF facts(3,4)] by blast
  then show ?thesis using facts(6,8) by auto
qed

section \<open>Queries of its snapshot\<close>

text \<open>The snapshot that is taken of a world.\<close>

definition snapshot_of :: "fd_world \<Rightarrow> fd_snapshot" where
  "snapshot_of w =
     \<lparr>sn_context = w_context w,
      sn_info = fd_fill_world_info w (blank_info\<lparr>wi_struct_size := 232, wi_abi_version := FD_ABI_VERSION\<rparr>),
      sn_tiles = w_tiles w, sn_entities = w_entities w, sn_region = w_region w,
      sn_tile_allocation_size = ucast (tile_bytes w)\<rparr>"

lemma created_snapshot:
  assumes "fd_snapshot_create ctx (Some w) scope viewer (Some old) diag = ((FD_OK, d), ctx', Some (Some s))"
  shows "s = snapshot_of w"
  using assms by (auto simp: fd_snapshot_create_def snapshot_of_def split: if_splits prod.splits bool.splits)

abbreviation shown :: "fd_world \<Rightarrow> snapshot_wrapper" where
  "shown w \<equiv> snapshot_borrow (Some (snapshot_of w))"

definition tile_view_at :: "fd_world \<Rightarrow> u32 \<Rightarrow> u32 \<Rightarrow> fd_tile_view" where
  "tile_view_at w x y = fill_tile_view (wc_width (w_config w)) (w_tiles w) (w_region w) x y blank_tile_view"

definition entity_views :: "fd_world \<Rightarrow> fd_entity_view list" where
  "entity_views w = map (\<lambda>i. fd_fill_entity_view (w_entities w ! i) blank_entity_view) [0..<6]"

lemma shown_handle [simp]: "native_handle (shown w) = Some (snapshot_of w)" "snapshot_valid (shown w)"
  by (simp_all add: native_handle_def snapshot_borrow_def snapshot_valid_def)

lemma snapshot_fields [simp]:
  "wi_width (sn_info (snapshot_of w)) = wc_width (w_config w)"
  "wi_height (sn_info (snapshot_of w)) = wc_height (w_config w)"
  "wi_entity_count (sn_info (snapshot_of w)) = 6"
  "wi_coastal_settlement_id (sn_info (snapshot_of w)) = en_id (w_entities w ! 1)"
  "wi_inland_settlement_id (sn_info (snapshot_of w)) = en_id (w_entities w ! 2)"
  "sn_tiles (snapshot_of w) = w_tiles w" "sn_entities (snapshot_of w) = w_entities w"
  "sn_region (snapshot_of w) = w_region w"
  by (simp_all add: snapshot_of_def fd_fill_world_info_def)

lemma shown_queries:
  "snapshot_info (shown w) = Inr (sn_info (snapshot_of w))"
  "x < wc_width (w_config w) \<Longrightarrow> y < wc_height (w_config w) \<Longrightarrow> snapshot_tile (shown w) x y = Inr (tile_view_at w x y)"
  "i < 6 \<Longrightarrow> snapshot_entity_by_index (shown w) i = Inr (fd_fill_entity_view (w_entities w ! unat i) blank_entity_view)"
  "snapshot_region (shown w) = Inr (fd_fill_region_view (w_region w) blank_region_view)"
  by (auto simp: snapshot_info_def snapshot_tile_def snapshot_entity_by_index_def snapshot_region_def
      checked_query_def fd_snapshot_get_info_def fd_snapshot_get_tile_def fd_snapshot_get_entity_by_index_def
      fd_snapshot_get_region_def fd_output_struct_valid_def blank_tile_view_def blank_entity_view_def
      blank_region_view_def blank_info_def tile_view_at_def diag_ok_fst not_le not_less split: prod.splits)

lemma shown_entities: "capture_entities (shown w) (sn_info (snapshot_of w)) = Inr (entity_views w)"
  unfolding capture_entities_def entity_views_def snapshot_fields
  by (simp, rule collect_map) (simp add: shown_queries(3) word_less_nat_alt unat_of_nat_u32)

section \<open>No error branch is taken\<close>

lemma collect_succeeds: "(\<And>x. x \<in> set xs \<Longrightarrow> \<exists>y. f x = Inr y) \<Longrightarrow> \<exists>ys. collect f xs = Inr ys"
  by (induction xs) (fastforce simp: on_success_Inr)+

text \<open>The consequences of validity that the screens rest on.\<close>

definition showable :: "fd_world \<Rightarrow> bool" where
  "showable w \<longleftrightarrow> bounds_ok w \<and>
     (\<forall>i<unat (w_tile_count w). terrain_at w i \<in> {1, 2, 3, 4, 5, 6} \<and>
        (terrain_at w i = FD_TERRAIN_SETTLEMENT \<longrightarrow>
           tl_settlement_id (tile_at w i) \<in> {en_id (w_entities w ! 1), en_id (w_entities w ! 2)})) \<and>
     rg_settlement_ids (w_region w) ! 0 = en_id (w_entities w ! 1) \<and>
     rg_settlement_ids (w_region w) ! 1 = en_id (w_entities w ! 2) \<and>
     (\<forall>t\<in>{rg_river_outlet_tile_id (w_region w), rg_road_start_tile_id (w_region w), rg_road_end_tile_id (w_region w)}.
        \<exists>i<unat (w_tile_count w). t = fd_tile_id_from_index (of_nat i))"

lemma bounds_grid:
  assumes "bounds_ok w"
  shows "grid_ok w" "unat (w_tile_count w) = unat (wc_width (w_config w)) * unat (wc_height (w_config w))"
    "unat (w_tile_count w) \<le> 32768" "32 \<le> wc_width (w_config w)" "16 \<le> wc_height (w_config w)"
proof -
  have b: "unat (wc_width (w_config w)) \<le> 256" "unat (wc_height (w_config w)) \<le> 128" "32 \<le> unat (wc_width (w_config w))"
    using assms by (simp_all add: bounds_ok_def word_le_nat_alt)
  have "unat (wc_width (w_config w)) * unat (wc_height (w_config w)) \<le> 256 * 128"
    using b by (intro mult_le_mono) simp_all
  then have "unat (wc_width (w_config w) * wc_height (w_config w)) = unat (wc_width (w_config w)) * unat (wc_height (w_config w))"
    by (simp add: unat_mult_lem [THEN iffD1])
  then show n: "unat (w_tile_count w) = unat (wc_width (w_config w)) * unat (wc_height (w_config w))"
    using assms by (simp add: bounds_ok_def)
  then show "grid_ok w" using b by (simp add: grid_ok_def)
  have "w_tile_count w \<le> 32768" using assms unfolding bounds_ok_def by blast
  then show "unat (w_tile_count w) \<le> 32768" by (simp add: word_le_nat_alt)
  show "32 \<le> wc_width (w_config w)" "16 \<le> wc_height (w_config w)" using assms by (simp_all add: bounds_ok_def)
qed

lemma world_showable:
  assumes "world_valid w"
  shows "showable w"
proof -
  from assms obtain rc outlet n crossings where b: "bounds_ok w"
    and t: "ts_first_failed (validate_tiles w) = UINT32_MAX"
    and r: "fd_validate_river w = Some (rc, outlet)" and s: "fd_validate_settlements w outlet"
    and g: "fd_validate_ownership_graph w rc n outlet" by (auto simp: world_valid_def)
  note grid = bounds_grid [OF b]
  obtain p where "river_course w rc outlet p" using fd_validate_river_course [OF grid(1) r] by blast
  then have "outlet \<in> river_tiles w" by (metis river_course_def hd_in_set length_0_conv not_numeral_le_zero)
  then have outlet: "outlet < unat (w_tile_count w)" using grid(2) by (simp add: overlay_tiles_def)
  define cell where "cell e = unat (en_y e) * unat (wc_width (w_config w)) + unat (en_x e)" for e :: fd_entity
  have inside: "cell e < unat (w_tile_count w)" if "en_x e < wc_width (w_config w)" "en_y e < wc_height (w_config w)" for e
  proof -
    have x: "unat (en_x e) < unat (wc_width (w_config w))" "unat (en_y e) < unat (wc_height (w_config w))"
      using that by (simp_all add: word_less_nat_alt)
    have "(unat (en_y e) + 1) * unat (wc_width (w_config w)) \<le> unat (wc_height (w_config w)) * unat (wc_width (w_config w))"
      using x(2) by (intro mult_le_mono1) simp
    then show ?thesis using x(1) by (simp add: cell_def grid(2) algebra_simps)
  qed
  have graph: "rg_settlement_ids (w_region w) ! 0 = en_id (w_entities w ! 1)"
      "rg_settlement_ids (w_region w) ! 1 = en_id (w_entities w ! 2)"
      "rg_river_outlet_tile_id (w_region w) = fd_tile_id_from_index (of_nat outlet)"
      "rg_road_start_tile_id (w_region w) = fd_tile_id_from_index (of_nat (cell (w_entities w ! 1)))"
      "rg_road_end_tile_id (w_region w) = fd_tile_id_from_index (of_nat (cell (w_entities w ! 2)))"
      "cell (w_entities w ! 1) < unat (w_tile_count w)" "cell (w_entities w ! 2) < unat (w_tile_count w)"
    using g inside by (simp_all add: fd_validate_ownership_graph_def Let_def cell_def not_le split: if_splits)
  have range: "(v :: u32) \<in> {1, 2, 3, 4, 5, 6}" if "1 \<le> v" "v \<le> 6" for v
  proof -
    have "unat v \<in> {1, 2, 3, 4, 5, 6}" using that by (auto simp: word_le_nat_alt)
    then show ?thesis by (auto simp: word_unat_eq_iff)
  qed
  have "terrain_at w i \<in> {1, 2, 3, 4, 5, 6}" if "i < unat (w_tile_count w)" for i
    using validate_tiles_first_failed [OF t that] by (intro range) (simp_all add: tile_ok_def)
  moreover have "tl_settlement_id (tile_at w i) \<in> {en_id (w_entities w ! 1), en_id (w_entities w ! 2)}"
    if "i < unat (w_tile_count w)" "terrain_at w i = FD_TERRAIN_SETTLEMENT" for i
    using settlement_terrain_owner [OF s _ that] grid(2) by simp
  ultimately show ?thesis using b graph outlet unfolding showable_def by blast
qed

lemma view_fields:
  assumes "bounds_ok w" and "x < wc_width (w_config w)" and "y < wc_height (w_config w)"
  defines "i \<equiv> unat y * unat (wc_width (w_config w)) + unat x"
  shows "i < unat (w_tile_count w)" "tv_tile_id (tile_view_at w x y) = fd_tile_id_from_index (of_nat i)"
    "tv_terrain (tile_view_at w x y) = terrain_at w i" "tv_settlement_id (tile_view_at w x y) = tl_settlement_id (tile_at w i)"
proof -
  note grid = bounds_grid [OF assms(1)]
  have lt: "unat x < unat (wc_width (w_config w))" "unat y < unat (wc_height (w_config w))"
    using assms(2,3) by (simp_all add: word_less_nat_alt)
  have "(unat y + 1) * unat (wc_width (w_config w)) \<le> unat (wc_height (w_config w)) * unat (wc_width (w_config w))"
    using lt(2) by (intro mult_le_mono1) simp
  then show i: "i < unat (w_tile_count w)" using lt(1) by (simp add: i_def grid(2) algebra_simps)
  have "y * wc_width (w_config w) + x = of_nat i" by (simp add: i_def)
  moreover have "unat (of_nat i :: u32) = i" using i grid(3) by (intro unat_of_nat_u32) simp
  ultimately show "tv_tile_id (tile_view_at w x y) = fd_tile_id_from_index (of_nat i)"
    "tv_terrain (tile_view_at w x y) = terrain_at w i" "tv_settlement_id (tile_view_at w x y) = tl_settlement_id (tile_at w i)"
    by (simp_all add: tile_view_at_def fill_tile_view_def Let_def terrain_at_def)
qed

lemma glyph_total:
  assumes "tv_terrain t \<in> {1, 2, 3, 4, 5, 6}"
    and "tv_terrain t = FD_TERRAIN_SETTLEMENT \<Longrightarrow>
      tv_settlement_id t = wi_coastal_settlement_id info \<or> tv_settlement_id t = wi_inland_settlement_id info"
  shows "isl (unselected_glyph t info) = False"
  using assms by (simp add: unselected_glyph_def) blast

lemma glyph_succeeds:
  assumes "showable w" and "x < wc_width (w_config w)" and "y < wc_height (w_config w)"
  shows "\<exists>g. unselected_glyph (tile_view_at w x y) (sn_info (snapshot_of w)) = Inr g"
proof -
  have b: "bounds_ok w" using assms(1) by (simp add: showable_def)
  note v = view_fields [OF b assms(2,3)]
  have "terrain_at w i \<in> {1, 2, 3, 4, 5, 6} \<and> (terrain_at w i = FD_TERRAIN_SETTLEMENT \<longrightarrow>
      tl_settlement_id (tile_at w i) \<in> {en_id (w_entities w ! 1), en_id (w_entities w ! 2)})"
    if "i < unat (w_tile_count w)" for i using assms(1) that unfolding showable_def by blast
  note this [OF v(1), folded v(3,4)]
  then have "\<not> isl (unselected_glyph (tile_view_at w x y) (sn_info (snapshot_of w)))"
    by (subst glyph_total) simp_all
  then show ?thesis by (cases "unselected_glyph (tile_view_at w x y) (sn_info (snapshot_of w))") auto
qed

lemma window_inside:
  fixes options :: render_options
  assumes "0 < wi_width info" and "0 < wi_height info"
  defines "m \<equiv> local_window options info"
  shows "mw_selected_x m < wi_width info" "mw_selected_y m < wi_height info"
    "j < unat (mw_width m) \<Longrightarrow> mw_origin_x m + of_nat j < wi_width info"
    "i < unat (mw_height m) \<Longrightarrow> mw_origin_y m + of_nat i < wi_height info"
proof -
  have less: "min a (b - 1) < b" if "0 < b" for a b :: u32
  proof -
    have "b - 1 < b" using that by (simp add: word_less_nat_alt unat_minus_one unat_gt_0 word_neq_0_conv [symmetric])
    then show ?thesis by (rule min.strict_coboundedI2)
  qed
  then show "mw_selected_x m < wi_width info" "mw_selected_y m < wi_height info"
    using assms(1,2) by (simp_all add: m_def local_window_def Let_def)
  have part: "min p (b - min a b) + of_nat j < b" if "j < unat (min a b)" for a b p :: u32 and j
  proof -
    define v where "v = min a b"
    have v: "v \<le> b" "j < unat v" using that by (simp_all add: v_def)
    have d: "unat (b - v) = unat b - unat v" using v(1) by (rule unat_sub)
    have "unat (min p (b - v)) \<le> unat b - unat v" unfolding d [symmetric] by (simp add: word_le_nat_alt [symmetric])
    moreover have "unat (of_nat j :: u32) = j" using v(2) unat_lt_u32 [of v] by (intro unat_of_nat_u32) simp
    moreover have "unat v \<le> unat b" "unat b < 4294967296" using v(1) unat_lt_u32 [of b] by (simp_all add: word_le_nat_alt)
    ultimately have "unat (min p (b - v) + of_nat j) < unat b"
      using v(2) by (subst unat_add_lem [THEN iffD1]) simp_all
    then show ?thesis by (simp add: word_less_nat_alt v_def)
  qed
  show "j < unat (mw_width m) \<Longrightarrow> mw_origin_x m + of_nat j < wi_width info"
    "i < unat (mw_height m) \<Longrightarrow> mw_origin_y m + of_nat i < wi_height info"
    using part by (simp_all add: m_def local_window_def Let_def)
qed

lemma render_local_succeeds:
  assumes "showable w"
  shows "\<exists>t. render_local (shown w) options (sn_info (snapshot_of w)) entities = Inr t"
proof -
  let ?info = "sn_info (snapshot_of w)"
  define m where "m = local_window options ?info"
  have b: "bounds_ok w" using assms by (simp add: showable_def)
  have pos: "0 < wi_width ?info" "0 < wi_height ?info"
    using bounds_grid(4,5) [OF b] by (simp_all add: word_less_nat_alt word_le_nat_alt)
  note inside = window_inside [OF pos, where options = options, folded m_def, unfolded snapshot_fields]
  obtain g where g: "unselected_glyph (tile_view_at w (mw_selected_x m) (mw_selected_y m)) ?info = Inr g"
    using glyph_succeeds [OF assms inside(1,2)] by blast
  have "\<exists>l. map_line (shown w) ?info m inspector left_width (ro_columns options) row = Inr l"
    if "row < unat (mw_height m)" for row inspector left_width
  proof -
    have "\<exists>g. map_glyph (shown w) ?info m (mw_origin_x m + of_nat j) (mw_origin_y m + of_nat row) = Inr g"
      if "j < unat (mw_width m)" for j
      using inside(3) [OF that] inside(4) [OF \<open>row < unat (mw_height m)\<close>] glyph_succeeds [OF assms]
      by (auto simp: map_glyph_def shown_queries(2))
    then have "\<exists>gs. collect (\<lambda>column. map_glyph (shown w) ?info m (mw_origin_x m + of_nat column) (mw_origin_y m + of_nat row))
        [0..<unat (mw_width m)] = Inr gs" by (intro collect_succeeds) simp
    then show ?thesis by (auto simp: map_line_def Let_def)
  qed
  then have rows: "\<exists>ls. collect (map_line (shown w) ?info m inspector left_width (ro_columns options)) [0..<unat (mw_height m)] = Inr ls"
    for inspector left_width by (intro collect_succeeds) simp
  have "wi_width ?info \<noteq> 0" "wi_height ?info \<noteq> 0" using pos by auto
  then show ?thesis
    using rows g inside(1,2)
    by (auto simp: render_local_def Let_def m_def [symmetric] shown_queries(2) on_success_Inr simp del: snapshot_fields)
qed

lemma shown_tiles:
  assumes b: "bounds_ok w"
  obtains tiles where "capture_tiles (shown w) (sn_info (snapshot_of w)) = Inr tiles"
    "\<And>i. i < unat (w_tile_count w) \<Longrightarrow> \<exists>t. find_tile tiles (fd_tile_id_from_index (of_nat i)) = Some t"
proof -
  let ?W = "unat (wc_width (w_config w))" and ?H = "unat (wc_height (w_config w))"
  define cells where "cells = concat (map (\<lambda>y. map (\<lambda>x. (x, y)) [0..<?W]) [0..<?H])"
  define tiles where "tiles = map (\<lambda>(x, y). tile_view_at w (of_nat x) (of_nat y)) cells"
  have small: "(of_nat x :: u32) < wc_width (w_config w)" "(of_nat y :: u32) < wc_height (w_config w)"
      "unat (of_nat x :: u32) = x" "unat (of_nat y :: u32) = y" if "x < ?W" "y < ?H" for x y
    using that unat_lt_u32 [of "wc_width (w_config w)"] unat_lt_u32 [of "wc_height (w_config w)"]
    by (simp_all add: word_less_nat_alt unat_of_nat_u32)
  have "\<not> (ucast (wc_width (w_config w)) * ucast (wc_height (w_config w)) :: u64) > - 1" by (simp add: not_less)
  then have "capture_tiles (shown w) (sn_info (snapshot_of w)) = Inr tiles"
    unfolding capture_tiles_def Let_def snapshot_fields cells_def [symmetric] tiles_def
    by (simp, intro collect_map) (auto simp: cells_def shown_queries(2) small)
  moreover have "\<exists>t. find_tile tiles (fd_tile_id_from_index (of_nat i)) = Some t" if i: "i < unat (w_tile_count w)" for i
  proof -
    define x y where "x = i mod ?W" and "y = i div ?W"
    have n: "i < ?W * ?H" using i bounds_grid(2) [OF b] by simp
    then have "0 < ?W" by (cases "?W = 0") simp_all
    then have xy: "x < ?W" "y < ?H" using n by (simp_all add: x_def y_def less_mult_imp_div_less mult.commute)
    then have "(x, y) \<in> set (map (\<lambda>x. (x, y)) [0..<?W])" by simp
    then have "(x, y) \<in> set cells" using xy(2) by (fastforce simp: cells_def)
    then have "tile_view_at w (of_nat x) (of_nat y) \<in> set tiles" by (force simp: tiles_def)
    moreover have e: "unat (of_nat y :: u32) * ?W + unat (of_nat x :: u32) = i"
      unfolding small(3,4) [OF xy] by (simp add: x_def y_def)
    have "tv_tile_id (tile_view_at w (of_nat x) (of_nat y)) = fd_tile_id_from_index (of_nat i)"
      using view_fields(2) [OF b small(1,2) [OF xy]] unfolding e .
    ultimately have "find_tile tiles (fd_tile_id_from_index (of_nat i)) \<noteq> None"
      unfolding find_tile_def find_None_iff by blast
    then show ?thesis by simp
  qed
  ultimately show thesis by (rule that)
qed

lemma entity_found: "i < 6 \<Longrightarrow> \<exists>e. find_entity (entity_views w) (en_id (w_entities w ! i)) = Some e"
proof -
  assume "i < 6"
  then have "fd_fill_entity_view (w_entities w ! i) blank_entity_view \<in> set (entity_views w)"
    by (simp add: entity_views_def)
  then have "find_entity (entity_views w) (en_id (w_entities w ! i)) \<noteq> None"
    unfolding find_entity_def find_None_iff by (auto simp: fd_fill_entity_view_def)
  then show ?thesis by simp
qed

lemma render_strategic_succeeds:
  assumes "showable w"
  shows "\<exists>t. render_strategic (shown w) options (sn_info (snapshot_of w)) (entity_views w) = Inr t"
proof -
  have b: "bounds_ok w" using assms by (simp add: showable_def)
  define rv where "rv = fd_fill_region_view (w_region w) blank_region_view"
  have rv: "snapshot_region (shown w) = Inr rv" by (simp add: rv_def shown_queries(4))
  have fields: "rv_settlement_count rv = 2" "rv_settlement_ids rv = rg_settlement_ids (w_region w)"
    "rv_river_outlet_tile_id rv = rg_river_outlet_tile_id (w_region w)"
    "rv_road_start_tile_id rv = rg_road_start_tile_id (w_region w)"
    "rv_road_end_tile_id rv = rg_road_end_tile_id (w_region w)"
    by (simp_all add: rv_def fd_fill_region_view_def)
  obtain tiles where tiles: "capture_tiles (shown w) (sn_info (snapshot_of w)) = Inr tiles"
    and found: "\<And>i. i < unat (w_tile_count w) \<Longrightarrow> \<exists>t. find_tile tiles (fd_tile_id_from_index (of_nat i)) = Some t"
    using shown_tiles [OF b] by metis
  obtain outlet road_start road_end where
    refs: "find_tile tiles (rv_river_outlet_tile_id rv) = Some outlet"
      "find_tile tiles (rv_road_start_tile_id rv) = Some road_start"
      "find_tile tiles (rv_road_end_tile_id rv) = Some road_end"
    using assms found unfolding fields showable_def by (metis insertCI)
  have "\<exists>l. settlement_line (ro_columns options) (entity_views w) rv i = Inr l" if "i < 2" for i
  proof -
    have "rv_settlement_ids rv ! i = en_id (w_entities w ! (i + 1))"
      using that assms less_2_cases [OF that] by (auto simp: fields showable_def numeral_2_eq_2)
    then show ?thesis using entity_found [of "i + 1" w] that by (auto simp: settlement_line_def Let_def)
  qed
  then have "\<exists>ls. collect (settlement_line (ro_columns options) (entity_views w) rv) [0..<min (unat (rv_settlement_count rv)) 2] = Inr ls"
    by (intro collect_succeeds) simp
  then show ?thesis
    using rv tiles refs by (auto simp: render_strategic_def Let_def)
qed

text \<open>C15: every world can be looked at.  A snapshot of a valid world renders, as local map and as strategic
  graph, for every terminal of a supported size, every viewport and every selection, and so does the
  state-hash screen: no tile is without a glyph, every settlement, outlet and road end the region
  names is found, and no coordinate leaves the map.\<close>

theorem valid_world_renders:
  assumes "world_valid w" and "80 \<le> ro_columns options" and "ro_columns options \<le> 512"
    and "24 \<le> ro_rows options" and "ro_rows options \<le> 256"
    and "fd_snapshot_create ctx (Some w) scope viewer (Some old) diag = ((FD_OK, d), ctx', Some (Some s))"
  shows "\<exists>text hashes. render_ascii (snapshot_borrow (Some s)) options = Inr text \<and>
    render_debug_hash_ascii (snapshot_borrow (Some s)) options = Inr hashes"
proof -
  have s: "s = snapshot_of w" using assms(6) by (rule created_snapshot)
  have size: "sized_screen options screen = screen" for screen
    using assms(2-5) by (auto simp: sized_screen_def not_less word_less_nat_alt word_le_nat_alt)
  have "\<exists>t. render_local (shown w) options (sn_info (snapshot_of w)) (entity_views w) = Inr t"
    "\<exists>t. render_strategic (shown w) options (sn_info (snapshot_of w)) (entity_views w) = Inr t"
    using render_local_succeeds render_strategic_succeeds world_showable [OF assms(1)] by blast+
  then show ?thesis
    by (cases "ro_mode options")
      (auto simp: s render_ascii_def render_debug_hash_ascii_def size shown_queries(1) shown_entities Let_def)
qed

lemma valid_world_renders_witness:
  "\<exists>d ctx' s text. fd_snapshot_create roomy_context (Some sample_world) 1 0 (Some None) None =
     ((FD_OK, d), ctx', Some (Some s)) \<and> render_ascii (snapshot_borrow (Some s)) default_render_options = Inr text"
proof -
  have w: "willing roomy_context" using sample_affords by (simp add: affords_def)
  have n: "0 < tile_bytes sample_world"
    using sample.tile_count by (simp add: tile_bytes_def ground_fields)
  obtain c1 where c1: "fd_context_alloc roomy_context 912 = (True, c1)" "willing c1"
    using alloc_willing [OF w, of 912] by auto
  obtain c2 where "fd_context_alloc c1 (tile_bytes sample_world) = (True, c2)"
    using alloc_willing [OF c1(2) n] by auto
  then obtain d ctx' s where c: "fd_snapshot_create roomy_context (Some sample_world) 1 0 (Some None) None =
      ((FD_OK, d), ctx', Some (Some s))"
    using c1(1) by (simp add: fd_snapshot_create_def diag_ok_fst)
  have "world_valid sample_world" using sample_storable by (simp add: storable_def)
  from valid_world_renders [OF this _ _ _ _ c, of default_render_options] c show ?thesis
    by (auto simp: default_render_options_def)
qed

end
