(* ===== verification/FD_Control.thy ===== *)
theory FD_Control
  imports FD_Log
begin

text \<open>
  The control model of the terminal client, \<^verbatim>\<open>src/terminal/control_model.hpp\<close>: the commands a line of
  input names, their effect on the state of the user interface, and the loop that renders, reads and
  applies them until the user quits, the input ends or a call fails.
\<close>

section \<open>State and commands\<close>

datatype terminal_view = View_local | View_strategic | View_messages | View_replay_inspector | View_debug_hash | View_help

datatype control_kind =
    Move_up | Move_down | Move_left | Move_right | Cycle_pane | Inspect | Cancel | Toggle_map
  | Scale_down | Scale_up | Page_up | Page_down | Set_filter | Toggle_help | Quit | Pass
  | Show_local | Show_strategic | Show_messages | Show_replay | Show_hash

record control_command =
  cc_kind :: control_kind
  cc_text :: bytes

record control_state =
  cs_render :: render_options
  cs_view :: terminal_view
  cs_before_help :: terminal_view
  cs_world_width :: u32
  cs_world_height :: u32
  cs_pane :: u32
  cs_scale :: u32
  cs_audit_count :: u64
  cs_first_log_record :: u64
  cs_replay_record :: u64
  cs_filter :: bytes
  cs_inspecting :: bool
  cs_running :: bool

definition escape :: "string \<Rightarrow> bytes" where
  "escape s = 0x1b # str s"

definition parse_control :: "bytes \<Rightarrow> control_command cpp_result" where
  "parse_control input =
     (let command = (\<lambda>kind. Inr \<lparr>cc_kind = kind, cc_text = []\<rparr>) in
      if input = str ''up'' \<or> input = str ''k'' \<or> input = escape ''[A'' then command Move_up
      else if input = str ''down'' \<or> input = str ''j'' \<or> input = escape ''[B'' then command Move_down
      else if input = str ''left'' \<or> input = str ''h'' \<or> input = escape ''[D'' then command Move_left
      else if input = str ''right'' \<or> input = str ''l'' \<or> input = escape ''[C'' then command Move_right
      else if input = str ''tab'' \<or> input = [9] then command Cycle_pane
      else if input = [] \<or> input = str ''enter'' then command Inspect
      else if input = str ''esc'' \<or> input = escape '''' then command Cancel
      else if input = str ''m'' then command Toggle_map
      else if input = str ''['' then command Scale_down
      else if input = str '']'' then command Scale_up
      else if input = str ''pgup'' \<or> input = escape ''[5~'' then command Page_up
      else if input = str ''pgdn'' \<or> input = escape ''[6~'' then command Page_down
      else if input = str ''?'' then command Toggle_help
      else if input = str ''q'' then command Quit
      else if input = str ''pass'' then command Pass
      else if input = str ''local'' then command Show_local
      else if input = str ''strategic'' then command Show_strategic
      else if input = str ''messages'' then command Show_messages
      else if input = str ''replay'' then command Show_replay
      else if input = str ''hash'' then command Show_hash
      else if input \<noteq> [] \<and> hd input = of_char CHR ''/'' then Inr \<lparr>cc_kind = Set_filter, cc_text = tl input\<rparr>
      else Inl (wrapper_error FD_ERR_INVALID_ARGUMENT (str ''unknown terminal control token'')))"

section \<open>Applying a command\<close>

text \<open>The size of the map the local screen shows.\<close>

definition map_width :: "render_options \<Rightarrow> u32" where
  "map_width r = (if ro_columns r > 32 then ro_columns r - 32 else 1)"

definition map_height :: "render_options \<Rightarrow> u32" where
  "map_height r = (if ro_rows r > 9 then ro_rows r - 9 else 1)"

definition keep_cursor_visible :: "render_options \<Rightarrow> render_options" where
  "keep_cursor_visible r =
     (let r = (if ro_selected_x r < ro_viewport_x r then r\<lparr>ro_viewport_x := ro_selected_x r\<rparr>
               else if ro_selected_x r - ro_viewport_x r \<ge> map_width r
               then r\<lparr>ro_viewport_x := ro_selected_x r - map_width r + 1\<rparr> else r)
      in if ro_selected_y r < ro_viewport_y r then r\<lparr>ro_viewport_y := ro_selected_y r\<rparr>
         else if ro_selected_y r - ro_viewport_y r \<ge> map_height r
         then r\<lparr>ro_viewport_y := ro_selected_y r - map_height r + 1\<rparr> else r)"

definition clamp_cursor :: "control_state \<Rightarrow> render_options" where
  "clamp_cursor s = (cs_render s)
     \<lparr>ro_selected_x := min (ro_selected_x (cs_render s)) (cs_world_width s - 1),
      ro_selected_y := min (ro_selected_y (cs_render s)) (cs_world_height s - 1)\<rparr>"

definition say :: "string \<Rightarrow> control_state \<Rightarrow> control_state" where
  "say m s = s\<lparr>cs_render := (cs_render s)\<lparr>ro_message := str m\<rparr>\<rparr>"

definition page_up :: "control_state \<Rightarrow> control_state" where
  "page_up s =
     (if cs_view s = View_replay_inspector
      then say ''Replay inspector moved back one attempt.''
             (if cs_replay_record s \<noteq> 0 then s\<lparr>cs_replay_record := cs_replay_record s - 1\<rparr> else s)
      else say ''Message log scrolled up.''
             (s\<lparr>cs_first_log_record := (if cs_first_log_record s > 10 then cs_first_log_record s - 10 else 0)\<rparr>))"

definition page_down :: "control_state \<Rightarrow> control_state" where
  "page_down s =
     (if cs_view s = View_replay_inspector
      then say ''Replay inspector moved forward one attempt.''
             (if cs_audit_count s \<noteq> 0 \<and> cs_replay_record s < cs_audit_count s - 1
              then s\<lparr>cs_replay_record := cs_replay_record s + 1\<rparr> else s)
      else say ''Message log scrolled down.''
             (if cs_audit_count s \<noteq> 0
              then let maximum = cs_audit_count s - 1
                   in s\<lparr>cs_first_log_record :=
                        (if cs_first_log_record s > maximum - min maximum 10 then maximum
                         else cs_first_log_record s + 10)\<rparr>
              else s))"

text \<open>The switch; \<open>None\<close> is the command that must not come here.\<close>

fun apply_kind :: "control_kind \<Rightarrow> bytes \<Rightarrow> control_state \<Rightarrow> control_state option" where
  "apply_kind Move_up _ s = (let r = cs_render s in Some (say ''Cursor moved up.''
     (s\<lparr>cs_render := (if ro_selected_y r \<noteq> 0 then r\<lparr>ro_selected_y := ro_selected_y r - 1\<rparr> else r)\<rparr>)))"
| "apply_kind Move_down _ s = (let r = cs_render s in Some (say ''Cursor moved down.''
     (s\<lparr>cs_render := (if ro_selected_y r + 1 < cs_world_height s then r\<lparr>ro_selected_y := ro_selected_y r + 1\<rparr> else r)\<rparr>)))"
| "apply_kind Move_left _ s = (let r = cs_render s in Some (say ''Cursor moved left.''
     (s\<lparr>cs_render := (if ro_selected_x r \<noteq> 0 then r\<lparr>ro_selected_x := ro_selected_x r - 1\<rparr> else r)\<rparr>)))"
| "apply_kind Move_right _ s = (let r = cs_render s in Some (say ''Cursor moved right.''
     (s\<lparr>cs_render := (if ro_selected_x r + 1 < cs_world_width s then r\<lparr>ro_selected_x := ro_selected_x r + 1\<rparr> else r)\<rparr>)))"
| "apply_kind Cycle_pane _ s = (let pane = (cs_pane s + 1) mod 3 in
     Some (s\<lparr>cs_pane := pane, cs_render := (cs_render s)\<lparr>ro_message :=
       str ''Pane focus: '' @ decimal (uint (pane + 1)) @ str ''/3.''\<rparr>\<rparr>))"
| "apply_kind Inspect _ s = Some (say ''Inspector confirmed at selected coordinate.'' (s\<lparr>cs_inspecting := True\<rparr>))"
| "apply_kind Cancel _ s = Some (say ''Pending UI operation cancelled.''
     (s\<lparr>cs_inspecting := False, cs_filter := [],
        cs_view := (if cs_view s = View_help then cs_before_help s else cs_view s)\<rparr>))"
| "apply_kind Toggle_map _ s = Some (say ''Map scale toggled.''
     (s\<lparr>cs_view := (if cs_view s = View_local then View_strategic else View_local)\<rparr>))"
| "apply_kind Scale_down _ s = Some (say ''U01 exposes one local scale; use m for region/tile modes.'' (s\<lparr>cs_scale := 1\<rparr>))"
| "apply_kind Scale_up _ s = Some (say ''U01 exposes one local scale; use m for region/tile modes.'' (s\<lparr>cs_scale := 1\<rparr>))"
| "apply_kind Page_up _ s = Some (page_up s)"
| "apply_kind Page_down _ s = Some (page_down s)"
| "apply_kind Set_filter t s = Some (s\<lparr>cs_filter := t, cs_render := (cs_render s)\<lparr>ro_message :=
     (if t = [] then str ''Message filter cleared.'' else str ''Message filter: '' @ t)\<rparr>\<rparr>)"
| "apply_kind Toggle_help _ s = Some (say ''Help toggled.''
     (if cs_view s = View_help then s\<lparr>cs_view := cs_before_help s\<rparr>
      else s\<lparr>cs_before_help := cs_view s, cs_view := View_help\<rparr>))"
| "apply_kind Quit _ s = Some (s\<lparr>cs_running := False\<rparr>)"
| "apply_kind Pass _ s = None"
| "apply_kind Show_local _ s = Some (s\<lparr>cs_view := View_local\<rparr>)"
| "apply_kind Show_strategic _ s = Some (s\<lparr>cs_view := View_strategic\<rparr>)"
| "apply_kind Show_messages _ s = Some (s\<lparr>cs_view := View_messages\<rparr>)"
| "apply_kind Show_replay _ s = Some (s\<lparr>cs_view := View_replay_inspector\<rparr>)"
| "apply_kind Show_hash _ s = Some (s\<lparr>cs_view := View_debug_hash\<rparr>)"

definition apply_control :: "control_state \<Rightarrow> control_command \<Rightarrow> control_state \<times> unit cpp_result" where
  "apply_control s command =
     (if cs_world_width s = 0 \<or> cs_world_height s = 0
      then (s, Inl (wrapper_error FD_ERR_STATE (str ''control model requires nonzero world dimensions'')))
      else
        let s = s\<lparr>cs_render := clamp_cursor s\<rparr>
        in case apply_kind (cc_kind command) (cc_text command) s of
          None \<Rightarrow> (s, Inl (wrapper_error FD_ERR_STATE (str ''PASS must be submitted through the C action binding'')))
        | Some s \<Rightarrow> (s\<lparr>cs_render := keep_cursor_visible (cs_render s)\<rparr>, Inr ()))"

section \<open>The help screen\<close>

definition render_control_help :: "control_state \<Rightarrow> bytes" where
  "render_control_help s =
     (let lines =
            [str ''FRONTIER DIRECTORATE | TERMINAL CONTROL HELP | ASCII/NO COLOR'',
             str ''? help/toggle    q quit          arrows or h/j/k/l move cursor'',
             str ''Tab cycle panes  Enter inspect   Esc cancel'',
             str ''m local/strategic map            [ / ] supported scale'',
             str ''PgUp/PgDn message-log scroll     /text filter action audit records'',
             str ''pass submit explicit two-seat PASS through authoritative C API'',
             str ''local strategic messages replay hash select explicit screens'',
             str ''Input is line-oriented; named keys and terminal escape tokens are accepted.''];
          lines = lines @ replicate (unat (ro_rows (cs_render s)) - (length lines + 2)) [];
          lines = lines @ [str ''Message: '' @ ro_message (cs_render s), str ''Help: ?=return q=quit'']
      in concat (map (\<lambda>line. take (unat (ro_columns (cs_render s))) (ascii_text line) @ [10]) lines))"

section \<open>The control loop\<close>

text \<open>
  Input is the list of its lines.  The callbacks work on a user state \<open>'u\<close> and may change the control
  state; \<open>writable\<close> tells whether the output stream is still good after what was written.
\<close>

record 'u control_bindings =
  cb_render :: "('u \<Rightarrow> control_state \<Rightarrow> ('u \<times> control_state) \<times> bytes cpp_result) option"
  cb_pass :: "('u \<Rightarrow> control_state \<Rightarrow> ('u \<times> control_state) \<times> unit cpp_result) option"

fun control_loop ::
    "('u \<Rightarrow> control_state \<Rightarrow> ('u \<times> control_state) \<times> bytes cpp_result)
       \<Rightarrow> ('u \<Rightarrow> control_state \<Rightarrow> ('u \<times> control_state) \<times> unit cpp_result) \<Rightarrow> (bytes \<Rightarrow> bool)
       \<Rightarrow> bytes list \<Rightarrow> bytes \<Rightarrow> 'u \<Rightarrow> control_state \<Rightarrow> (bytes \<times> 'u \<times> control_state) \<times> unit cpp_result" where
  "control_loop render pass writable input output u s =
     (if \<not> cs_running s then ((output, u, s), Inr ())
      else case render u s of
        ((u, s), Inl e) \<Rightarrow> ((output, u, s), Inl e)
      | ((u, s), Inr drawn) \<Rightarrow>
          let output = output @ drawn
          in if \<not> writable output
             then ((output, u, s), Inl (wrapper_error FD_ERR_STATE (str ''interactive output stream failed'')))
             else case input of
               [] \<Rightarrow> ((output, u, s), Inr ())
             | token # input \<Rightarrow>
                 (case parse_control token of
                    Inl e \<Rightarrow> control_loop render pass writable input output u
                              (s\<lparr>cs_render := (cs_render s)\<lparr>ro_message := er_message e\<rparr>\<rparr>)
                  | Inr command \<Rightarrow>
                      if cc_kind command = Pass
                      then (case pass u s of
                              ((u, s), Inl e) \<Rightarrow> ((output, u, s), Inl e)
                            | ((u, s), Inr _) \<Rightarrow> control_loop render pass writable input output u s)
                      else (case apply_control s command of
                              (s, Inl e) \<Rightarrow> ((output, u, s), Inl e)
                            | (s, Inr _) \<Rightarrow> control_loop render pass writable input output u s)))"

declare control_loop.simps [simp del]

definition run_control_loop ::
    "'u control_bindings \<Rightarrow> (bytes \<Rightarrow> bool) \<Rightarrow> bytes list \<Rightarrow> 'u \<Rightarrow> control_state
       \<Rightarrow> (bytes \<times> 'u \<times> control_state) \<times> unit cpp_result" where
  "run_control_loop bindings writable input u s =
     (case (cb_render bindings, cb_pass bindings) of
        (Some render, Some pass) \<Rightarrow> control_loop render pass writable input [] u s
      | _ \<Rightarrow> (([], u, s),
               Inl (wrapper_error FD_ERR_INVALID_ARGUMENT (str ''interactive callbacks are incomplete''))))"

end
