(* ===== verification/FD_Steer.thy ===== *)
theory FD_Steer
  imports FD_Control
begin

text \<open>
  Steering the terminal: whatever the user types, the selected tile stays inside the world and inside the
  part of the map that \<^verbatim>\<open>render_local\<close> shows, and the loop ends properly.
\<close>

section \<open>The cursor\<close>

text \<open>Along one axis: the viewport starts at or before the selection, which is less than a map's size after it.\<close>

definition in_view :: "u32 \<Rightarrow> u32 \<Rightarrow> u32 \<Rightarrow> bool" where
  "in_view origin extent selected \<longleftrightarrow> origin \<le> selected \<and> selected - origin < extent"

lemma in_view_shift: "\<not> selected < origin \<Longrightarrow> selected - origin \<ge> extent \<Longrightarrow> 0 < extent \<Longrightarrow> in_view (selected - extent + 1) extent selected"
  unfolding in_view_def by uint_arith

lemma in_view_start: "0 < extent \<Longrightarrow> in_view selected extent selected"
  by (simp add: in_view_def)

lemma in_view_narrow:
  assumes "in_view origin extent selected" and "selected < world" and "0 < extent"
  shows "in_view (min origin (world - min extent world)) (min extent world) selected"
  using assms unfolding in_view_def min_def by uint_arith

lemma map_size_positive [simp]: "0 < map_width r" "0 < map_height r"
  unfolding map_width_def map_height_def by uint_arith+

definition cursor_visible :: "u32 \<Rightarrow> u32 \<Rightarrow> render_options \<Rightarrow> bool" where
  "cursor_visible width height r \<longleftrightarrow> ro_selected_x r < width \<and> ro_selected_y r < height \<and>
     in_view (ro_viewport_x r) (map_width r) (ro_selected_x r) \<and>
     in_view (ro_viewport_y r) (map_height r) (ro_selected_y r)"

lemma map_size_fields [simp]:
  "map_width (r\<lparr>ro_viewport_x := v\<rparr>) = map_width r" "map_height (r\<lparr>ro_viewport_x := v\<rparr>) = map_height r"
  "map_width (r\<lparr>ro_viewport_y := v\<rparr>) = map_width r" "map_height (r\<lparr>ro_viewport_y := v\<rparr>) = map_height r"
  by (simp_all add: map_width_def map_height_def)

lemma keep_cursor_visible_shows:
  "ro_selected_x r < width \<Longrightarrow> ro_selected_y r < height \<Longrightarrow> cursor_visible width height (keep_cursor_visible r)"
  by (auto simp: cursor_visible_def keep_cursor_visible_def Let_def not_less in_view_start in_view_shift)
    (auto simp: in_view_def not_less)

lemma cursor_steps:
  "x < n \<Longrightarrow> x - 1 < n \<or> x = (0 :: u32)" "x + 1 < n \<Longrightarrow> (x :: u32) + 1 < n"
  by uint_arith+

lemma apply_kind_cursor:
  assumes "apply_kind kind t s = Some s'"
    and "ro_selected_x (cs_render s) < cs_world_width s" "ro_selected_y (cs_render s) < cs_world_height s"
  shows "ro_selected_x (cs_render s') < cs_world_width s \<and> ro_selected_y (cs_render s') < cs_world_height s \<and>
    cs_world_width s' = cs_world_width s \<and> cs_world_height s' = cs_world_height s \<and>
    ro_columns (cs_render s') = ro_columns (cs_render s) \<and> ro_rows (cs_render s') = ro_rows (cs_render s)"
  using assms cursor_steps(1) [of "ro_selected_x (cs_render s)"] cursor_steps(1) [of "ro_selected_y (cs_render s)"]
  by (cases kind) (auto simp: say_def page_up_def page_down_def Let_def)

lemma keep_cursor_fields [simp]:
  "ro_columns (keep_cursor_visible r) = ro_columns r" "ro_rows (keep_cursor_visible r) = ro_rows r"
  by (simp_all add: keep_cursor_visible_def Let_def)

lemma less_pred: "x \<noteq> 0 \<Longrightarrow> x - 1 < (x :: u32)"
  by uint_arith

lemma clamp_cursor_inside:
  assumes "cs_world_width s \<noteq> 0" and "cs_world_height s \<noteq> 0"
  shows "ro_selected_x (clamp_cursor s) < cs_world_width s" "ro_selected_y (clamp_cursor s) < cs_world_height s"
  using assms less_pred by (simp_all add: clamp_cursor_def min_less_iff_disj)

text \<open>C32: whatever command is applied to whatever state, afterwards the selected tile is a tile of the world
  and lies in the viewport, and on a terminal of a supported size it is inside the part of the map that the
  local screen draws.  The size of the world and of the terminal are not touched, and the only commands
  refused are those of a world without tiles and an explicit PASS, which has to reach the simulation.\<close>

theorem control_keeps_cursor_in_view:
  assumes "80 \<le> ro_columns (cs_render s)" and "24 \<le> ro_rows (cs_render s)"
    and "wi_width info = cs_world_width s" and "wi_height info = cs_world_height s"
  shows "case apply_control s command of
      (s', Inl e) \<Rightarrow> er_code e = FD_ERR_STATE \<and>
        (cs_world_width s = 0 \<or> cs_world_height s = 0 \<or> cc_kind command = Pass)
    | (s', Inr _) \<Rightarrow> cursor_visible (cs_world_width s) (cs_world_height s) (cs_render s') \<and>
        cs_world_width s' = cs_world_width s \<and> cs_world_height s' = cs_world_height s \<and>
        ro_columns (cs_render s') = ro_columns (cs_render s) \<and> ro_rows (cs_render s') = ro_rows (cs_render s) \<and>
        (let r = cs_render s'; w = local_window r info
         in mw_selected_x w = ro_selected_x r \<and> in_view (mw_origin_x w) (mw_width w) (ro_selected_x r) \<and>
            mw_selected_y w = ro_selected_y r \<and> in_view (mw_origin_y w) (mw_height w) (ro_selected_y r))"
proof -
  define s1 where "s1 = s\<lparr>cs_render := clamp_cursor s\<rparr>"
  have size: "ro_columns (clamp_cursor s) = ro_columns (cs_render s)" "ro_rows (clamp_cursor s) = ro_rows (cs_render s)"
    by (simp_all add: clamp_cursor_def)
  consider (refused) "cs_world_width s = 0 \<or> cs_world_height s = 0"
    | (pass) "cs_world_width s \<noteq> 0" "cs_world_height s \<noteq> 0" "apply_kind (cc_kind command) (cc_text command) s1 = None"
    | (applied) s2 where "cs_world_width s \<noteq> 0" "cs_world_height s \<noteq> 0"
        "apply_kind (cc_kind command) (cc_text command) s1 = Some s2" by blast
  then show ?thesis
  proof cases
    case refused
    then show ?thesis by (auto simp: apply_control_def wrapper_error_def)
  next
    case pass
    then have "cc_kind command = Pass" by (cases "cc_kind command") (simp_all add: Let_def)
    then show ?thesis using pass by (simp add: apply_control_def wrapper_error_def)
  next
    case applied
    define r where "r = keep_cursor_visible (cs_render s2)"
    have inside: "ro_selected_x (cs_render s2) < cs_world_width s" "ro_selected_y (cs_render s2) < cs_world_height s"
      and kept: "cs_world_width s2 = cs_world_width s" "cs_world_height s2 = cs_world_height s"
        "ro_columns r = ro_columns (cs_render s)" "ro_rows r = ro_rows (cs_render s)"
      using apply_kind_cursor [OF applied(3)] clamp_cursor_inside [OF applied(1,2)] by (simp_all add: s1_def size r_def)
    have visible: "cursor_visible (cs_world_width s) (cs_world_height s) r"
      unfolding r_def using inside by (rule keep_cursor_visible_shows)
    have sizes: "ro_columns r - 32 = map_width r" "ro_rows r - 9 = map_height r"
      using assms(1,2) kept(3,4) unfolding map_width_def map_height_def by (simp_all, uint_arith+)
    have "mw_selected_x (local_window r info) = ro_selected_x r" "mw_selected_y (local_window r info) = ro_selected_y r"
      using visible assms(3,4) unfolding cursor_visible_def local_window_def Let_def by (simp_all add: min_def, uint_arith+)
    moreover have "in_view (mw_origin_x (local_window r info)) (mw_width (local_window r info)) (ro_selected_x r)"
      "in_view (mw_origin_y (local_window r info)) (mw_height (local_window r info)) (ro_selected_y r)"
      using visible in_view_narrow assms(3,4) by (simp_all add: local_window_def Let_def sizes cursor_visible_def)
    ultimately show ?thesis
      using applied visible kept by (simp add: apply_control_def s1_def [symmetric] r_def [symmetric] Let_def)
  qed
qed


definition sample_control :: control_state where
  "sample_control =
     \<lparr>cs_render = default_render_options\<lparr>ro_selected_x := 47, ro_selected_y := 15\<rparr>, cs_view = View_local,
      cs_before_help = View_local, cs_world_width = 64, cs_world_height = 48, cs_pane = 0, cs_scale = 1,
      cs_audit_count = 0, cs_first_log_record = 0, cs_replay_record = 0, cs_filter = [], cs_inspecting = False,
      cs_running = True\<rparr>"

lemma sample_dimensions: "cs_world_width sample_control = 64" "cs_world_height sample_control = 48"
  by (simp_all add: sample_control_def)

lemma control_keeps_cursor_in_view_witness:
  "let s' = fst (apply_control sample_control \<lparr>cc_kind = Move_right, cc_text = []\<rparr>)
   in cursor_visible 64 48 (cs_render s') \<and> ro_selected_x (cs_render s') = 48 \<and> ro_viewport_x (cs_render s') = 1"
proof -
  let ?info = "blank_info\<lparr>wi_width := 64, wi_height := 48\<rparr>"
  have "80 \<le> ro_columns (cs_render sample_control)" "24 \<le> ro_rows (cs_render sample_control)"
    "wi_width ?info = cs_world_width sample_control" "wi_height ?info = cs_world_height sample_control"
    by (simp_all add: sample_control_def default_render_options_def)
  from control_keeps_cursor_in_view [OF this, of "\<lparr>cc_kind = Move_right, cc_text = []\<rparr>"]
  have "cursor_visible 64 48 (cs_render (fst (apply_control sample_control \<lparr>cc_kind = Move_right, cc_text = []\<rparr>)))"
    by (auto simp: sample_dimensions split: prod.splits sum.splits)
  moreover have "ro_selected_x (cs_render (fst (apply_control sample_control \<lparr>cc_kind = Move_right, cc_text = []\<rparr>))) = 48 \<and>
      ro_viewport_x (cs_render (fst (apply_control sample_control \<lparr>cc_kind = Move_right, cc_text = []\<rparr>))) = 1"
    by (simp add: apply_control_def sample_control_def clamp_cursor_def say_def keep_cursor_visible_def map_width_def
        map_height_def default_render_options_def Let_def)
  ultimately show ?thesis by (simp add: Let_def)
qed

section \<open>The message log\<close>

text \<open>
  Paging down a log of at most ten attempts from its start goes past its last attempt: the comparison with
  \<open>maximum - min maximum 10\<close>, which is zero, lets ten more through.  In the client \<^verbatim>\<open>ensure_audit\<close> of
  \<^verbatim>\<open>src/terminal/main.cpp\<close> takes the position back before it is used.
\<close>

lemma page_down_past_the_end:
  assumes "cs_view s \<noteq> View_replay_inspector" and "0 < cs_audit_count s" and "cs_audit_count s \<le> 10"
    and "cs_first_log_record s = 0"
  shows "cs_first_log_record (page_down s) = 10" "cs_audit_count s - 1 < cs_first_log_record (page_down s)"
proof -
  have "cs_audit_count s - 1 \<le> 10" "cs_audit_count s - 1 < 10" using assms(2,3) by uint_arith+
  then show "cs_first_log_record (page_down s) = 10" "cs_audit_count s - 1 < cs_first_log_record (page_down s)"
    using assms by (simp_all add: page_down_def say_def Let_def min_def)
qed

text \<open>A longer log is never left: from a position inside it the next one is inside too.\<close>

lemma page_down_inside:
  assumes "cs_view s \<noteq> View_replay_inspector" and "10 < cs_audit_count s" and "cs_first_log_record s < cs_audit_count s"
  shows "cs_first_log_record (page_down s) < cs_audit_count s"
  using assms by (simp add: page_down_def say_def Let_def min_def) uint_arith

end
