(* ===== verification/FD_Wrapper.thy ===== *)
theory FD_Wrapper
  imports FD_Result FD_Generate FD_Build
begin

text \<open>
  The C++ objects of \<^verbatim>\<open>src/cpp/fd.cpp\<close> that change state: \<^verbatim>\<open>Context\<close>, \<^verbatim>\<open>World\<close> with the history of the
  decisions it accepted, and \<^verbatim>\<open>Replay\<close>.  An empty or moved-from object is \<open>None\<close>.  The context that a
  world or replay shares is threaded; a handle that goes out of scope is destroyed in it.
\<close>

unbundle bit_operations_syntax

section \<open>Contexts and worlds\<close>

text \<open>The shared state of a \<^verbatim>\<open>World\<close>: its handle, the save it started from and the accepted decisions.\<close>

record world_state =
  ws_handle :: "fd_world option"
  ws_initial_save :: bytes
  ws_decisions :: "fd_joint_decision list"

definition wrapper_valid :: "world_state option \<Rightarrow> bool" where
  "wrapper_valid s \<longleftrightarrow> (case s of None \<Rightarrow> False | Some st \<Rightarrow> ws_handle st \<noteq> None)"

definition context_refusal :: bytes where
  "context_refusal = str ''context is empty or moved-from''"

definition world_refusal :: bytes where
  "world_refusal = str ''world is empty or moved-from''"

definition world_deleter :: "'u fd_context \<Rightarrow> fd_world option \<Rightarrow> 'u fd_context" where
  "world_deleter ctx world =
     (case world of None \<Rightarrow> ctx | Some w \<Rightarrow> fst (snd (fd_world_destroy ctx (Some (Some w)) None)))"

definition snapshot_deleter :: "'u fd_context \<Rightarrow> snapshot_wrapper \<Rightarrow> 'u fd_context" where
  "snapshot_deleter ctx s =
     (case sw_state s of None \<Rightarrow> ctx | Some h \<Rightarrow> fst (snd (fd_snapshot_destroy ctx (Some (Some h)) None)))"

definition replay_deleter :: "'u fd_context \<Rightarrow> fd_replay option \<Rightarrow> 'u fd_context" where
  "replay_deleter ctx replay =
     (case replay of None \<Rightarrow> ctx | Some rp \<Rightarrow> fst (snd (fd_replay_destroy ctx (Some (Some rp)) None)))"

definition default_context_config :: "'u \<Rightarrow> 'u fd_context_config \<Rightarrow> 'u fd_context_config cpp_result" where
  "default_context_config null_user zero =
     (case fd_context_config_init null_user (Some zero) of
        (result, config) \<Rightarrow>
          if result \<noteq> FD_OK then Inl (wrapper_error result (str ''fd_context_config_init failed''))
          else Inr (the config))"

definition context_create ::
    "('u \<Rightarrow> u64 \<Rightarrow> bool \<times> 'u) \<Rightarrow> ('u \<Rightarrow> 'u) \<Rightarrow> nat \<Rightarrow> 'u fd_context_config \<Rightarrow> 'u fd_context cpp_result" where
  "context_create malloc free address config =
     (case fd_context_create malloc free address (Some config) (Some None) (Some fd_diagnostic_init) of
        ((result, diag), raw) \<Rightarrow>
          if result \<noteq> FD_OK then Inl (error_from result (the diag))
          else (case the raw of
            None \<Rightarrow> Inl (wrapper_error FD_ERR_INTERNAL (str ''context create succeeded with a null handle''))
          | Some ctx \<Rightarrow> Inr ctx))"

text \<open>What is left of the allocator's state when the context is gone; a context with live handles stays.\<close>

definition context_deleter :: "'u fd_context option \<Rightarrow> 'u option" where
  "context_deleter context =
     (case context of None \<Rightarrow> None | Some ctx \<Rightarrow> snd (snd (fd_context_destroy (Some (Some ctx)) None)))"

definition allocation_stats :: "'u fd_context option \<Rightarrow> fd_allocation_stats cpp_result" where
  "allocation_stats context = checked_query (context \<noteq> None) context_refusal
     (fd_context_get_allocation_stats context
        (Some \<lparr>as_struct_size = 40, as_abi_version = FD_ABI_VERSION, as_allocation_calls = 0,
               as_deallocation_calls = 0, as_live_bytes = 0, as_peak_live_bytes = 0\<rparr>))"

definition default_world_config :: "fd_world_config \<Rightarrow> fd_world_config cpp_result" where
  "default_world_config zero =
     (case fd_world_config_init (Some zero) of
        (result, config) \<Rightarrow>
          if result \<noteq> FD_OK then Inl (wrapper_error result (str ''fd_world_config_init failed''))
          else Inr (the config))"

text \<open>A vector as a buffer: an empty one passes a null pointer.\<close>

definition vector_data :: "bytes \<Rightarrow> bytes option" where
  "vector_data bytes = (if bytes = [] then None else Some bytes)"

definition save_handle :: "'u fd_context \<Rightarrow> fd_world option \<Rightarrow> bytes cpp_result" where
  "save_handle ctx world =
     (case fd_world_save_size ctx world (Some 0) (Some fd_diagnostic_init) of
        ((result, diag), required) \<Rightarrow>
          if result \<noteq> FD_OK then Inl (error_from result (the diag))
          else if the required > - 1
          then Inl (wrapper_error FD_ERR_CAPACITY (str ''save does not fit the C++ address space''))
          else
            let bytes = replicate (unat (the required)) 0
            in case fd_world_save ctx world (vector_data bytes) (the required) (Some 0) (Some fd_diagnostic_init) of
              ((result, diag), bytes, written) \<Rightarrow>
                if result \<noteq> FD_OK then Inl (error_from result (the diag))
                else if the written \<noteq> the required
                then Inl (wrapper_error FD_ERR_INTERNAL (str ''save size changed between measure and write''))
                else Inr (case bytes of None \<Rightarrow> [] | Some b \<Rightarrow> b))"

definition empty_content :: fd_content_manifest where
  "empty_content =
     \<lparr>cm_struct_size = 24, cm_abi_version = FD_ABI_VERSION, cm_pack_count = 0, cm_reserved = 0, cm_packs = None\<rparr>"

definition blank_generation_report :: fd_generation_report where
  "blank_generation_report =
     \<lparr>gr_struct_size = 664, gr_abi_version = FD_ABI_VERSION, gr_accepted_attempt = 0, gr_rejected_count = 0,
      gr_recorded_count = 0, gr_land_tile_count = 0, gr_river_tile_count = 0, gr_road_tile_count = 0,
      gr_river_raised_tile_count = 0, gr_river_min_carve_cm = 0, gr_root_seed_le = replicate 16 0,
      gr_configuration_sha256 = replicate 32 0, gr_content_sha256 = replicate 32 0,
      gr_initial_state_sha256 = replicate 32 0,
      gr_attempts = replicate 64 \<lparr>ga_attempt_index = 0, ga_reason_code = 0\<rparr>\<rparr>"

text \<open>\<open>None\<close> would be a generation that never returns.\<close>

definition context_generate ::
    "'u fd_context option \<Rightarrow> fd_world_config \<Rightarrow> u64 \<Rightarrow> fd_content_manifest option
       \<Rightarrow> ('u fd_context option \<times> world_state cpp_result) option" where
  "context_generate context config seed content =
     (if context = None then Some (context, Inl (wrapper_error FD_ERR_STATE context_refusal))
      else
        let selected_content = (case content of None \<Rightarrow> empty_content | Some m \<Rightarrow> m)
        in case fd_world_generate context (Some config) seed (Some selected_content) (Some None)
                  (Some blank_generation_report) (Some fd_diagnostic_init) of
          None \<Rightarrow> None
        | Some ((result, diag), context, raw, report) \<Rightarrow>
            if result \<noteq> FD_OK then Some (context, Inl (error_from result (the diag)))
            else (case the raw of
              None \<Rightarrow> Some (context, Inl (wrapper_error FD_ERR_INTERNAL
                        (str ''world generation succeeded with a null handle'')))
            | Some w \<Rightarrow>
                (case save_handle (the context) (Some w) of
                   Inl e \<Rightarrow> Some (Some (world_deleter (the context) (Some w)), Inl e)
                 | Inr initial_save \<Rightarrow>
                     Some (context, Inr \<lparr>ws_handle = Some w, ws_initial_save = initial_save, ws_decisions = []\<rparr>))))"

definition context_load ::
    "'u fd_context option \<Rightarrow> bytes \<Rightarrow> 'u fd_context option \<times> world_state cpp_result" where
  "context_load context bytes =
     (if context = None then (context, Inl (wrapper_error FD_ERR_STATE context_refusal))
      else if length bytes > 2 ^ 64 - 1
      then (context, Inl (wrapper_error FD_ERR_CAPACITY (str ''input is too large'')))
      else case fd_world_load context (vector_data bytes) (of_nat (length bytes)) (Some None)
                  (Some fd_diagnostic_init) of
        ((result, diag), context, raw) \<Rightarrow>
          if result \<noteq> FD_OK then (context, Inl (error_from result (the diag)))
          else (case the raw of
            None \<Rightarrow> (context, Inl (wrapper_error FD_ERR_INTERNAL
                      (str ''world load succeeded with a null handle'')))
          | Some w \<Rightarrow> (context, Inr \<lparr>ws_handle = Some w, ws_initial_save = bytes, ws_decisions = []\<rparr>)))"

definition context_open_replay ::
    "'u fd_context option \<Rightarrow> bytes \<Rightarrow> 'u fd_context option \<times> fd_replay cpp_result" where
  "context_open_replay context bytes =
     (if context = None then (context, Inl (wrapper_error FD_ERR_STATE context_refusal))
      else if length bytes > 2 ^ 64 - 1
      then (context, Inl (wrapper_error FD_ERR_CAPACITY (str ''input is too large'')))
      else case fd_replay_open context (vector_data bytes) (of_nat (length bytes)) (Some None)
                  (Some fd_diagnostic_init) of
        ((result, diag), context, raw) \<Rightarrow>
          if result \<noteq> FD_OK then (context, Inl (error_from result (the diag)))
          else (case the raw of
            None \<Rightarrow> (context, Inl (wrapper_error FD_ERR_INTERNAL
                      (str ''replay open succeeded with a null handle'')))
          | Some rp \<Rightarrow> (context, Inr rp)))"

section \<open>Queries of a world\<close>

definition wrapper_handle :: "world_state option \<Rightarrow> fd_world option" where
  "wrapper_handle s = (case s of None \<Rightarrow> None | Some st \<Rightarrow> ws_handle st)"

definition wrapper_info :: "world_state option \<Rightarrow> fd_world_info cpp_result" where
  "wrapper_info s = checked_query (wrapper_valid s) world_refusal
     (fd_world_get_info (wrapper_handle s)
        (Some (blank_info\<lparr>wi_struct_size := 232, wi_abi_version := FD_ABI_VERSION\<rparr>)))"

definition wrapper_state_hash :: "world_state option \<Rightarrow> bytes cpp_result" where
  "wrapper_state_hash s = checked_query (wrapper_valid s) world_refusal
     (fd_world_state_hash (wrapper_handle s) (Some (replicate 32 0)))"

definition wrapper_save :: "'u fd_context \<Rightarrow> world_state option \<Rightarrow> bytes cpp_result" where
  "wrapper_save ctx s =
     (if \<not> wrapper_valid s then Inl (wrapper_error FD_ERR_STATE world_refusal)
      else save_handle ctx (wrapper_handle s))"

definition reference_snapshot ::
    "'u fd_context \<Rightarrow> world_state option \<Rightarrow> 'u fd_context \<times> snapshot_wrapper cpp_result" where
  "reference_snapshot ctx s =
     (if \<not> wrapper_valid s then (ctx, Inl (wrapper_error FD_ERR_STATE world_refusal))
      else case fd_snapshot_create ctx (wrapper_handle s) 1 0 (Some None)
                  (Some fd_diagnostic_init) of
        ((result, diag), ctx, raw) \<Rightarrow>
          if result \<noteq> FD_OK then (ctx, Inl (error_from result (the diag)))
          else (case the raw of
            None \<Rightarrow> (ctx, Inl (wrapper_error FD_ERR_INTERNAL
                      (str ''snapshot create succeeded with a null handle'')))
          | Some snapshot \<Rightarrow> (ctx, Inr \<lparr>sw_state = Some snapshot, sw_borrowed = None\<rparr>)))"


section \<open>An explicit pass of both seats\<close>

text \<open>
  Whether a vector has, or gets, room for a number of elements is a parameter of the model; its capacity, its
  growth and its greatest size are behind it.  \<^verbatim>\<open>Bad_alloc\<close> and \<^verbatim>\<open>Length_error\<close> are the exceptions of
  \<^verbatim>\<open>std::vector::reserve\<close>.\<close>

datatype reservation = Reserved | Bad_alloc | Length_error

definition prepare_decisions :: "(nat \<Rightarrow> reservation) \<Rightarrow> world_state \<Rightarrow> nat \<Rightarrow> bool" where
  "prepare_decisions reserve s additional \<longleftrightarrow> reserve (length (ws_decisions s) + additional) = Reserved"

definition append_decision :: "fd_joint_decision \<Rightarrow> world_state \<Rightarrow> world_state" where
  "append_decision decision s = s\<lparr>ws_decisions := ws_decisions s @ [decision]\<rparr>"

definition explicit_pass :: fd_action where
  "explicit_pass =
     \<lparr>ac_struct_size = 32, ac_abi_version = FD_ABI_VERSION, ac_category = FD_ACTION_PASS, ac_parameter_count = 0,
      ac_parameters = replicate 4 0\<rparr>"

definition blank_prefix :: fd_action_prefix where
  "blank_prefix =
     \<lparr>ap_struct_size = 36, ap_abi_version = FD_ABI_VERSION, ap_depth = 0, ap_category = 0, ap_parameter_count = 0,
      ap_parameters = replicate 4 0\<rparr>"

definition blank_mask :: fd_action_mask where
  "blank_mask =
     \<lparr>am_struct_size = 32, am_abi_version = FD_ABI_VERSION, am_schema_id = 0, am_first_value = 0, am_bit_count = 0,
      am_byte_capacity = 2, am_bits = Some (replicate 2 0)\<rparr>"

definition pass_legal :: "fd_action_mask \<Rightarrow> bool" where
  "pass_legal legal \<longleftrightarrow>
     (let bit = FD_ACTION_PASS - am_first_value legal
      in (FD_ACTION_PASS \<ge> am_first_value legal \<and> bit < am_bit_count legal) \<and>
         (let byte_index = bit div 8; bit_index = bit mod 8
          in byte_index < am_byte_capacity legal \<and>
             the (am_bits legal) ! unat byte_index AND push_bit (unat bit_index) 1 \<noteq> 0))"

definition check_seat :: "fd_world option \<Rightarrow> fd_world_info \<Rightarrow> nat \<Rightarrow> unit cpp_result" where
  "check_seat world info seat =
     (case fd_action_mask_query world (wi_foreign_faction_ids info ! seat) (Some blank_prefix) (Some blank_mask)
             (Some fd_diagnostic_init) of
        ((result, diag), legal) \<Rightarrow>
          if result \<noteq> FD_OK then Inl (error_from result (the diag))
          else if \<not> pass_legal (the legal)
          then Inl (wrapper_error FD_ERR_STATE (str ''the authoritative legal mask did not contain PASS''))
          else (case fd_action_validate world (wi_foreign_faction_ids info ! seat) (Some explicit_pass)
                       (Some fd_diagnostic_init) of
                  (result, diag) \<Rightarrow>
                    if result \<noteq> FD_OK then Inl (error_from result (the diag)) else Inr ()))"

definition explicit_decision :: "fd_world_info \<Rightarrow> fd_joint_decision" where
  "explicit_decision info =
     \<lparr>jd_struct_size = 136, jd_abi_version = FD_ABI_VERSION, jd_seat_count = 2, jd_reserved = 0,
      jd_expected_tick = wi_tick info, jd_expected_pre_state_sha256 = wi_state_sha256 info,
      jd_seats = map (\<lambda>seat. \<lparr>sd_actor_id = wi_foreign_faction_ids info ! seat, sd_action = explicit_pass\<rparr>) [0..<2]\<rparr>"

definition step_explicit_pass ::
    "(nat \<Rightarrow> reservation) \<Rightarrow> world_state option \<Rightarrow> world_state option \<times> fd_step_result cpp_result" where
  "step_explicit_pass reserve s =
     (if \<not> wrapper_valid s then (s, Inl (wrapper_error FD_ERR_STATE world_refusal))
      else if \<not> prepare_decisions reserve (the s) 1
      then (s, Inl (wrapper_error FD_ERR_OUT_OF_MEMORY
              (str ''could not reserve wrapper replay history before stepping'')))
      else case wrapper_info s of
        Inl e \<Rightarrow> (s, Inl e)
      | Inr info \<Rightarrow>
          (case collect (check_seat (wrapper_handle s) info) [0..<2] of
             Inl e \<Rightarrow> (s, Inl e)
           | Inr _ \<Rightarrow>
               let decision = explicit_decision info
               in case fd_world_step (wrapper_handle s) (Some decision) (Some blank_step) (Some fd_diagnostic_init) of
                 ((result, diag), handle, output) \<Rightarrow>
                   let st = (the s)\<lparr>ws_handle := handle\<rparr>
                   in if result \<noteq> FD_OK then (Some st, Inl (error_from result (the diag)))
                      else (Some (append_decision decision st), Inr (the output))))"

section \<open>Building a replay of the history\<close>

definition build_replay_of ::
    "'u fd_context \<Rightarrow> world_state option \<Rightarrow> fd_joint_decision list \<Rightarrow> 'u fd_context \<times> bytes cpp_result" where
  "build_replay_of ctx s decisions =
     (if \<not> wrapper_valid s then (ctx, Inl (wrapper_error FD_ERR_STATE world_refusal))
      else
        let baseline = ws_initial_save (the s)
        in case fd_world_load (Some ctx) (vector_data baseline) (of_nat (length baseline)) (Some None)
                  (Some fd_diagnostic_init) of
          ((result, diag), context, raw) \<Rightarrow>
            if result \<noteq> FD_OK then (the context, Inl (error_from result (the diag)))
            else
              let ctx = the context; tick_zero = the raw;
                  decision_data = (if decisions = [] then None else Some decisions);
                  decision_count = of_nat (length decisions)
              in case fd_replay_build_size ctx tick_zero decision_data decision_count (Some 0)
                        (Some fd_diagnostic_init) of
                ((result, diag), ctx, required) \<Rightarrow>
                  if result \<noteq> FD_OK then (world_deleter ctx tick_zero, Inl (error_from result (the diag)))
                  else if the required > - 1
                  then (world_deleter ctx tick_zero,
                        Inl (wrapper_error FD_ERR_CAPACITY (str ''replay does not fit the C++ address space'')))
                  else
                    let bytes = replicate (unat (the required)) 0
                    in case fd_replay_build ctx tick_zero decision_data decision_count (vector_data bytes)
                              (the required) (Some 0) (Some fd_diagnostic_init) of
                      ((result, diag), ctx, bytes, written) \<Rightarrow>
                        (world_deleter ctx tick_zero,
                         if result \<noteq> FD_OK then Inl (error_from result (the diag))
                         else if the written \<noteq> the required
                         then Inl (wrapper_error FD_ERR_INTERNAL
                                (str ''replay size changed between measure and write''))
                         else Inr (case bytes of None \<Rightarrow> [] | Some b \<Rightarrow> b)))"

definition build_replay :: "'u fd_context \<Rightarrow> world_state option \<Rightarrow> 'u fd_context \<times> bytes cpp_result" where
  "build_replay ctx s =
     (if \<not> wrapper_valid s then (ctx, Inl (wrapper_error FD_ERR_STATE world_refusal))
      else build_replay_of ctx s (ws_decisions (the s)))"

section \<open>Replays that make and advance worlds\<close>

definition create_world ::
    "'u fd_context \<Rightarrow> fd_replay option \<Rightarrow> 'u fd_context \<times> world_state cpp_result" where
  "create_world ctx replay =
     (if replay = None then (ctx, Inl (wrapper_error FD_ERR_STATE replay_refusal))
      else case fd_replay_create_world ctx replay (Some None) (Some fd_diagnostic_init) of
        ((result, diag), ctx, raw) \<Rightarrow>
          if result \<noteq> FD_OK then (ctx, Inl (error_from result (the diag)))
          else (case the raw of
            None \<Rightarrow> (ctx, Inl (wrapper_error FD_ERR_INTERNAL
                      (str ''replay world creation returned a null handle'')))
          | Some w \<Rightarrow>
              (case save_handle ctx (Some w) of
                 Inl e \<Rightarrow> (world_deleter ctx (Some w), Inl e)
               | Inr baseline \<Rightarrow>
                   (ctx, Inr \<lparr>ws_handle = Some w, ws_initial_save = baseline, ws_decisions = []\<rparr>))))"

definition fresh_status :: fd_replay_status where
  "fresh_status =
     \<lparr>rs_struct_size = 72, rs_abi_version = FD_ABI_VERSION, rs_cursor = 0, rs_total_decisions = 0,
      rs_decisions_advanced = 0, rs_complete = 0, rs_reserved = 0, rs_state_sha256 = replicate 32 0\<rparr>"

text \<open>The reservation of the local batch comes first, then that of the world's history.\<close>

definition advance ::
    "(nat \<Rightarrow> reservation) \<Rightarrow> 'u fd_context \<Rightarrow> fd_replay option \<Rightarrow> world_state option \<Rightarrow> u64
       \<Rightarrow> 'u fd_context \<times> fd_replay option \<times> world_state option \<times> fd_replay_status cpp_result" where
  "advance reserve ctx replay s decisions =
     (let unchanged = (\<lambda>e. (ctx, replay, s, Inl e))
      in if replay = None \<or> \<not> wrapper_valid s
         then unchanged (wrapper_error FD_ERR_STATE (str ''replay and world must both be valid''))
         else case replay_info replay of
           Inl e \<Rightarrow> unchanged e
         | Inr info \<Rightarrow>
             if ri_cursor info > ri_decision_count info
             then unchanged (wrapper_error FD_ERR_STATE (str ''replay cursor exceeds its decision count''))
             else
               let remaining = ri_decision_count info - ri_cursor info;
                   requested = min decisions remaining
               in if requested > - 1
                  then unchanged (wrapper_error FD_ERR_CAPACITY
                         (str ''replay batch does not fit C++ history storage''))
                  else if reserve (unat requested) = Bad_alloc
                  then unchanged (wrapper_error FD_ERR_OUT_OF_MEMORY
                         (str ''could not reserve replay batch before advancing''))
                  else if reserve (unat requested) = Length_error
                  then unchanged (wrapper_error FD_ERR_CAPACITY (str ''replay batch exceeds vector bounds''))
                  else (case collect (\<lambda>offset. replay_record replay (ri_cursor info + of_nat offset))
                               [0..<unat requested] of
                    Inl e \<Rightarrow> unchanged e
                  | Inr accepted \<Rightarrow>
                      if \<not> prepare_decisions reserve (the s) (unat requested)
                      then unchanged (wrapper_error FD_ERR_OUT_OF_MEMORY
                             (str ''could not reserve world replay history before advancing''))
                      else case fd_replay_advance ctx replay (wrapper_handle s) decisions (Some fresh_status)
                                  (Some fd_diagnostic_init) of
                        ((result, diag), ctx, replay, handle, output) \<Rightarrow>
                          let st = (the s)\<lparr>ws_handle := handle\<rparr>
                          in if result \<noteq> FD_OK
                             then (ctx, replay, Some st, Inl (error_from result (the diag)))
                             else if rs_decisions_advanced (the output) \<noteq> requested
                             then (ctx, replay, Some st, Inl (wrapper_error FD_ERR_INTERNAL
                                    (str ''C replay advanced a different number of records than reported'')))
                             else (ctx, replay, Some (fold append_decision (map rw_decision accepted) st),
                                   Inr (the output))))"

end
