(* ===== verification/FD_Client.thy ===== *)
theory FD_Client
  imports FD_Wrapper FD_Control
begin

text \<open>
  The terminal program, \<^verbatim>\<open>src/terminal/main.cpp\<close>: its command line, the files it reads and writes, playing
  a replay file back, and the session behind the control loop.
\<close>

section \<open>The command line\<close>

definition is_digit :: "u8 \<Rightarrow> bool" where
  "is_digit c \<longleftrightarrow> 48 \<le> c \<and> c \<le> 57"

definition numeral_value :: "bytes \<Rightarrow> nat" where
  "numeral_value text = foldl (\<lambda>n c. 10 * n + unat (c - 48)) 0 text"

text \<open>\<^verbatim>\<open>std::from_chars\<close> in base ten for an unsigned type below \<open>limit\<close>: the value and how many characters it
  took, or none when there is no digit or the value does not fit.\<close>

definition from_chars :: "nat \<Rightarrow> bytes \<Rightarrow> (nat \<times> nat) option" where
  "from_chars limit text =
     (let digits = takeWhile is_digit text
      in if digits = [] \<or> numeral_value digits \<ge> limit then None
         else Some (numeral_value digits, length digits))"

definition parse_unsigned :: "nat \<Rightarrow> bytes \<Rightarrow> bytes \<Rightarrow> nat cpp_result" where
  "parse_unsigned limit text option =
     (let refused = Inl (wrapper_error FD_ERR_INVALID_ARGUMENT (option @ str '' requires an unsigned decimal integer''))
      in case from_chars limit text of
           None \<Rightarrow> refused
         | Some (value, used) \<Rightarrow> if text = [] \<or> used \<noteq> length text then refused else Inr value)"

datatype cli_view = Cli_local | Cli_strategic | Cli_messages | Cli_replay_inspector | Cli_debug_hash

record cli_options =
  co_seed :: u64
  co_steps :: u64
  co_columns :: u32
  co_rows :: u32
  co_viewport_x :: u32
  co_viewport_y :: u32
  co_selected_x :: u32
  co_selected_y :: u32
  co_view :: cli_view
  co_save_path :: bytes
  co_replay_path :: bytes
  co_verify_replay_path :: bytes
  co_seed_supplied :: bool
  co_steps_supplied :: bool
  co_interactive :: bool
  co_help :: bool

definition default_cli_options :: cli_options where
  "default_cli_options =
     \<lparr>co_seed = 0, co_steps = 0, co_columns = 80, co_rows = 24, co_viewport_x = 0, co_viewport_y = 0,
      co_selected_x = 0, co_selected_y = 0, co_view = Cli_local, co_save_path = [], co_replay_path = [],
      co_verify_replay_path = [], co_seed_supplied = False, co_steps_supplied = False, co_interactive = False,
      co_help = False\<rparr>"

text \<open>The options that stand alone, and those that take a value.\<close>

definition apply_flag :: "bytes \<Rightarrow> cli_options \<Rightarrow> cli_options option" where
  "apply_flag argument options =
     (if argument = str ''--help'' \<or> argument = str ''-h'' then Some (options\<lparr>co_help := True\<rparr>)
      else if argument = str ''--local'' then Some (options\<lparr>co_view := Cli_local\<rparr>)
      else if argument = str ''--strategic'' then Some (options\<lparr>co_view := Cli_strategic\<rparr>)
      else if argument = str ''--messages'' then Some (options\<lparr>co_view := Cli_messages\<rparr>)
      else if argument = str ''--replay-inspector'' then Some (options\<lparr>co_view := Cli_replay_inspector\<rparr>)
      else if argument = str ''--debug-hash'' then Some (options\<lparr>co_view := Cli_debug_hash\<rparr>)
      else if argument = str ''--interactive'' then Some (options\<lparr>co_interactive := True\<rparr>)
      else None)"

definition apply_option :: "bytes \<Rightarrow> bytes \<Rightarrow> cli_options \<Rightarrow> cli_options cpp_result" where
  "apply_option argument value options =
     (let number64 = (\<lambda>set. on_success (parse_unsigned (2 ^ 64) value argument) (\<lambda>n. Inr (set (of_nat n :: u64))));
          number32 = (\<lambda>set. on_success (parse_unsigned (2 ^ 32) value argument) (\<lambda>n. Inr (set (of_nat n :: u32))))
      in if argument = str ''--seed'' then number64 (\<lambda>n. options\<lparr>co_seed := n, co_seed_supplied := True\<rparr>)
         else if argument = str ''--steps'' then number64 (\<lambda>n. options\<lparr>co_steps := n, co_steps_supplied := True\<rparr>)
         else if argument = str ''--columns'' then number32 (\<lambda>n. options\<lparr>co_columns := n\<rparr>)
         else if argument = str ''--rows'' then number32 (\<lambda>n. options\<lparr>co_rows := n\<rparr>)
         else if argument = str ''--viewport-x'' then number32 (\<lambda>n. options\<lparr>co_viewport_x := n\<rparr>)
         else if argument = str ''--viewport-y'' then number32 (\<lambda>n. options\<lparr>co_viewport_y := n\<rparr>)
         else if argument = str ''--select-x'' then number32 (\<lambda>n. options\<lparr>co_selected_x := n\<rparr>)
         else if argument = str ''--select-y'' then number32 (\<lambda>n. options\<lparr>co_selected_y := n\<rparr>)
         else if argument = str ''--save'' \<or> argument = str ''--save-out'' then Inr (options\<lparr>co_save_path := value\<rparr>)
         else if argument = str ''--replay'' \<or> argument = str ''--replay-out'' then Inr (options\<lparr>co_replay_path := value\<rparr>)
         else if argument = str ''--verify-replay'' then Inr (options\<lparr>co_verify_replay_path := value\<rparr>)
         else Inl (wrapper_error FD_ERR_INVALID_ARGUMENT (str ''unknown option: '' @ argument)))"

fun scan_arguments :: "bytes list \<Rightarrow> cli_options \<Rightarrow> cli_options cpp_result" where
  "scan_arguments [] options = Inr options"
| "scan_arguments [argument] options =
     (case apply_flag argument options of
        Some options \<Rightarrow> Inr options
      | None \<Rightarrow> Inl (wrapper_error FD_ERR_INVALID_ARGUMENT (argument @ str '' requires a value'')))"
| "scan_arguments (argument # value # rest) options =
     (case apply_flag argument options of
        Some options \<Rightarrow> scan_arguments (value # rest) options
      | None \<Rightarrow> on_success (apply_option argument value options) (\<lambda>options. scan_arguments rest options))"

text \<open>The arguments after the name of the program.\<close>

definition parse_arguments :: "bytes list \<Rightarrow> cli_options cpp_result" where
  "parse_arguments arguments = on_success (scan_arguments arguments default_cli_options) (\<lambda>options.
     if co_verify_replay_path options \<noteq> [] \<and>
        (co_seed_supplied options \<or> co_steps_supplied options \<or> co_save_path options \<noteq> [] \<or>
         co_replay_path options \<noteq> [])
     then Inl (wrapper_error FD_ERR_INVALID_ARGUMENT
            (str ''--verify-replay cannot be combined with generation, steps, or output''))
     else Inr options)"

section \<open>Files\<close>

text \<open>
  The file system is a map from paths to contents.  What the operating system answers along the way is a
  parameter: whether each step succeeds, how much of a failing write arrives, and the text of its errors.
\<close>

type_synonym file_system = "bytes \<Rightarrow> bytes option"

record system_answers =
  sa_status :: bool
  sa_open :: bool
  sa_size :: bool
  sa_read :: bool
  sa_write :: bool
  sa_written :: nat
  sa_rename :: bool
  sa_remove :: bool
  sa_message :: bytes

definition read_file :: "system_answers \<Rightarrow> file_system \<Rightarrow> bytes \<Rightarrow> bytes cpp_result" where
  "read_file answers files path =
     (case (if sa_open answers then files path else None) of
        None \<Rightarrow> Inl (wrapper_error FD_ERR_FORMAT (str ''could not open '' @ path))
      | Some bytes \<Rightarrow>
          if \<not> sa_size answers then Inl (wrapper_error FD_ERR_FORMAT (str ''could not measure '' @ path))
          else if length bytes > 2 ^ 63 - 1
          then Inl (wrapper_error FD_ERR_CAPACITY (str ''file is too large: '' @ path))
          else if \<not> sa_read answers then Inl (wrapper_error FD_ERR_FORMAT (str ''could not read '' @ path))
          else Inr bytes)"

definition remove_file :: "system_answers \<Rightarrow> bytes \<Rightarrow> file_system \<Rightarrow> file_system" where
  "remove_file answers path files = (if sa_remove answers then files(path := None) else files)"

definition write_atomic ::
    "system_answers \<Rightarrow> bytes \<Rightarrow> bytes \<Rightarrow> file_system \<Rightarrow> file_system \<times> unit cpp_result" where
  "write_atomic answers path bytes files =
     (if path = [] then (files, Inl (wrapper_error FD_ERR_INVALID_ARGUMENT (str ''output path is empty'')))
      else if length bytes > 2 ^ 63 - 1
      then (files, Inl (wrapper_error FD_ERR_CAPACITY (str ''output is too large'')))
      else
        let temporary = path @ str ''.tmp''
        in if sa_status answers \<and> files temporary \<noteq> None
           then (files, Inl (wrapper_error FD_ERR_BUSY (str ''temporary output already exists: '' @ temporary)))
           else if \<not> sa_status answers
           then (files, Inl (wrapper_error FD_ERR_FORMAT (str ''could not inspect output path: '' @ sa_message answers)))
           else if \<not> sa_open answers
           then (files, Inl (wrapper_error FD_ERR_FORMAT (str ''could not create '' @ temporary)))
           else if \<not> sa_write answers
           then (remove_file answers temporary (files(temporary := Some (take (sa_written answers) bytes))),
                 Inl (wrapper_error FD_ERR_FORMAT (str ''could not write '' @ temporary)))
           else
             let files = files(temporary := Some bytes)
             in if \<not> sa_rename answers
                then (remove_file answers temporary files,
                      Inl (wrapper_error FD_ERR_FORMAT (str ''could not install output: '' @ sa_message answers)))
                else (files(path := files temporary, temporary := None), Inr ()))"


section \<open>Playing a replay back\<close>

text \<open>What was opened or made on the way is given back when a later call fails.\<close>

definition world_dropped :: "'u fd_context \<Rightarrow> world_state option \<Rightarrow> 'u fd_context" where
  "world_dropped ctx s = world_deleter ctx (wrapper_handle s)"

definition replay_playback ::
    "(nat \<Rightarrow> reservation) \<Rightarrow> 'u fd_context \<Rightarrow> bytes cpp_result
       \<Rightarrow> 'u fd_context \<times> (fd_replay \<times> world_state) cpp_result" where
  "replay_playback reserve ctx bytes =
     (case bytes of
        Inl e \<Rightarrow> (ctx, Inl e)
      | Inr bytes \<Rightarrow>
          (case context_open_replay (Some ctx) bytes of
             (context, Inl e) \<Rightarrow> (the context, Inl e)
           | (context, Inr rp) \<Rightarrow>
               let ctx = the context
               in case replay_info (Some rp) of
                 Inl e \<Rightarrow> (replay_deleter ctx (Some rp), Inl e)
               | Inr info \<Rightarrow>
                   (case create_world ctx (Some rp) of
                      (ctx, Inl e) \<Rightarrow> (replay_deleter ctx (Some rp), Inl e)
                    | (ctx, Inr s) \<Rightarrow>
                        (case advance reserve ctx (Some rp) (Some s) (ri_decision_count info) of
                           (ctx, replay, s, result) \<Rightarrow>
                             let dropped = replay_deleter (world_dropped ctx s) replay
                             in case result of
                               Inl e \<Rightarrow> (dropped, Inl e)
                             | Inr status \<Rightarrow>
                                 if rs_complete status = 0
                                 then (dropped, Inl (wrapper_error FD_ERR_STATE
                                        (str ''replay did not reach its final verified record'')))
                                 else (ctx, Inr (the replay, the s))))))"

section \<open>The interactive session\<close>

text \<open>
  The session binds the context, the world and the replay of its history when it has been opened.  The
  program always binds all three, so the callbacks' checks for null bindings are left out.
\<close>

record 'u interactive_session =
  is_context :: "'u fd_context"
  is_world :: "world_state option"
  is_replay :: "fd_replay option"

text \<open>The first half of the audit: the replay of the history is opened unless it is open already.\<close>

definition open_audit_replay ::
    "'u interactive_session \<Rightarrow> 'u interactive_session \<times> unit cpp_result" where
  "open_audit_replay session =
     (if is_replay session \<noteq> None then (session, Inr ())
      else case build_replay (is_context session) (is_world session) of
        (ctx, Inl e) \<Rightarrow> (session\<lparr>is_context := ctx\<rparr>, Inl e)
      | (ctx, Inr bytes) \<Rightarrow>
          (case context_open_replay (Some ctx) bytes of
             (context, Inl e) \<Rightarrow> (session\<lparr>is_context := the context\<rparr>, Inl e)
           | (context, Inr rp) \<Rightarrow> (session\<lparr>is_context := the context, is_replay := Some rp\<rparr>, Inr ())))"

definition clamp_audit :: "fd_replay_info \<Rightarrow> control_state \<Rightarrow> control_state" where
  "clamp_audit info state =
     (let n = ri_decision_count info + ucast (ri_audit_count info)
      in if n = 0 then state\<lparr>cs_audit_count := n, cs_replay_record := 0, cs_first_log_record := 0\<rparr>
         else state\<lparr>cs_audit_count := n, cs_replay_record := min (cs_replay_record state) (n - 1),
                    cs_first_log_record := min (cs_first_log_record state) (n - 1)\<rparr>)"

definition ensure_audit ::
    "'u interactive_session \<Rightarrow> control_state
       \<Rightarrow> ('u interactive_session \<times> control_state) \<times> unit cpp_result" where
  "ensure_audit session state =
     (case open_audit_replay session of
        (session, Inl e) \<Rightarrow> ((session, state), Inl e)
      | (session, Inr _) \<Rightarrow>
          (case replay_info (is_replay session) of
             Inl e \<Rightarrow> ((session, state), Inl e)
           | Inr info \<Rightarrow> ((session, clamp_audit info state), Inr ())))"

definition interactive_render ::
    "'u interactive_session \<Rightarrow> control_state
       \<Rightarrow> ('u interactive_session \<times> control_state) \<times> bytes cpp_result" where
  "interactive_render session state =
     (if cs_view state = View_help then ((session, state), Inr (render_control_help state))
      else if cs_view state = View_messages \<or> cs_view state = View_replay_inspector
      then (case ensure_audit session state of
              ((session, state), Inl e) \<Rightarrow> ((session, state), Inl e)
            | ((session, state), Inr _) \<Rightarrow>
                ((session, state),
                 if cs_view state = View_messages
                 then render_message_log_ascii (is_replay session) (cs_first_log_record state) (cs_render state)
                        (cs_filter state)
                 else render_replay_inspector_ascii (is_replay session) (cs_replay_record state) (cs_render state)))
      else case reference_snapshot (is_context session) (is_world session) of
        (ctx, Inl e) \<Rightarrow> ((session\<lparr>is_context := ctx\<rparr>, state), Inl e)
      | (ctx, Inr snapshot) \<Rightarrow>
          let session = session\<lparr>is_context := snapshot_deleter ctx snapshot\<rparr>
          in if cs_view state = View_debug_hash
             then ((session, state), render_debug_hash_ascii snapshot (cs_render state))
             else
               let state = state\<lparr>cs_render := (cs_render state)\<lparr>ro_mode :=
                     (if cs_view state = View_strategic then Strategic else Local)\<rparr>\<rparr>
               in ((session, state), render_ascii snapshot (cs_render state)))"

definition pass_message :: "fd_step_result \<Rightarrow> bytes" where
  "pass_message stepped =
     str ''Explicit PASS accepted: tick '' @ decimal (uint (sr_tick_before stepped)) @ str '' -> '' @
     decimal (uint (sr_tick_after stepped)) @ str ''.''"

definition interactive_pass ::
    "(nat \<Rightarrow> reservation) \<Rightarrow> 'u interactive_session \<Rightarrow> control_state
       \<Rightarrow> ('u interactive_session \<times> control_state) \<times> unit cpp_result" where
  "interactive_pass reserve session state =
     (case step_explicit_pass reserve (is_world session) of
        (s, Inl e) \<Rightarrow> ((session\<lparr>is_world := s\<rparr>, state), Inl e)
      | (s, Inr stepped) \<Rightarrow>
          ensure_audit
            (session\<lparr>is_world := s, is_context := replay_deleter (is_context session) (is_replay session),
                     is_replay := None\<rparr>)
            (state\<lparr>cs_render := (cs_render state)\<lparr>ro_message := pass_message stepped\<rparr>\<rparr>))"

end
