(* ===== verification/FD_Program.thy ===== *)
theory FD_Program
  imports FD_Client
begin

text \<open>
  The terminal program as a whole, \<^verbatim>\<open>main\<close> of \<^verbatim>\<open>src/terminal/main.cpp\<close>: it reads its arguments, makes a
  context, generates a world or plays a replay file back, submits the passes it was asked for, writes save
  and replay, and either runs the control loop or draws one frame.  The handles are not given back at the
  end: the process ends there.
\<close>

section \<open>What it writes to its streams\<close>

definition print_error :: "cpp_error \<Rightarrow> bytes" where
  "print_error e =
     str ''error ['' @ digits (unat (er_code e)) @ str '']'' @
     (if er_message e \<noteq> [] then str '': '' @ er_message e else []) @
     (if er_field_id e \<noteq> 0 \<or> er_item_index e \<noteq> 0
      then str '' (field '' @ digits (unat (er_field_id e)) @ str '', item '' @ digits (unat (er_item_index e)) @ str '')''
      else []) @ [10]"

definition print_help :: bytes where
  "print_help = concat (map (\<lambda>line. line @ [10])
     [str ''Frontier Directorate Update 01 terminal client'',
      str ''Usage: frontier_terminal [options]'',
      str ''  --seed N             generate the deterministic 64-bit seed N'',
      str ''  --local              render the local tile map (default)'',
      str ''  --strategic          render the strategic region graph'',
      str ''  --messages           render accepted/rejected replay action audit'',
      str ''  --replay-inspector   inspect replay decision record zero'',
      str ''  --debug-hash         render the canonical state-hash screen'',
      str ''  --interactive        run the deterministic line-oriented control loop'',
      str ''  --steps N            submit N explicit two-seat PASS decisions'',
      str ''  --columns N --rows N render for a terminal size (minimum 80x24)'',
      str ''  --viewport-x N --viewport-y N  choose local viewport origin'',
      str ''  --select-x N --select-y N      choose inspected tile'',
      str ''  --save FILE          atomically write the canonical save'',
      str ''  --replay FILE        atomically write a verifying replay'',
      str ''  --verify-replay FILE verify all records and render the final state'',
      str ''  --help               show this help''])"

section \<open>The first world\<close>

definition generated_world ::
    "'u fd_context \<Rightarrow> cli_options \<Rightarrow> ('u fd_context \<times> world_state cpp_result) option" where
  "generated_world ctx options =
     (case default_world_config blank_config of
        Inl e \<Rightarrow> Some (ctx, Inl e)
      | Inr config \<Rightarrow>
          map_option (\<lambda>(context, result). (the context, result))
            (context_generate (Some ctx) config (co_seed options) None))"

text \<open>How the system answers the program: room for its histories, its files, and its two streams.\<close>

record surroundings =
  su_reserve :: "nat \<Rightarrow> reservation"
  su_verify :: system_answers
  su_save :: system_answers
  su_replay :: system_answers
  su_input :: "bytes list"
  su_writable :: "bytes \<Rightarrow> bool"

definition first_world ::
    "surroundings \<Rightarrow> file_system \<Rightarrow> 'u fd_context \<Rightarrow> cli_options
       \<Rightarrow> ('u fd_context \<times> (fd_replay option \<times> world_state) cpp_result) option" where
  "first_world su files ctx options =
     (if co_verify_replay_path options = []
      then map_option (\<lambda>(ctx, generated). (ctx, on_success generated (\<lambda>s. Inr (None, s)))) (generated_world ctx options)
      else case replay_playback (su_reserve su) ctx (read_file (su_verify su) files (co_verify_replay_path options)) of
        (ctx, playback) \<Rightarrow> Some (ctx, on_success playback (\<lambda>(rp, s). Inr (Some rp, s))))"

section \<open>Steps and outputs\<close>

primrec submit_passes ::
    "(nat \<Rightarrow> reservation) \<Rightarrow> nat \<Rightarrow> world_state option \<Rightarrow> world_state option \<times> unit cpp_result" where
  "submit_passes reserve 0 s = (s, Inr ())"
| "submit_passes reserve (Suc n) s =
     (case step_explicit_pass reserve s of
        (s, Inl e) \<Rightarrow> (s, Inl e)
      | (s, Inr _) \<Rightarrow> submit_passes reserve n s)"

definition write_save ::
    "surroundings \<Rightarrow> cli_options \<Rightarrow> 'u fd_context \<Rightarrow> world_state option \<Rightarrow> file_system
       \<Rightarrow> file_system \<times> unit cpp_result" where
  "write_save su options ctx s files =
     (if co_save_path options = [] then (files, Inr ())
      else case wrapper_save ctx s of
        Inl e \<Rightarrow> (files, Inl e)
      | Inr bytes \<Rightarrow> write_atomic (su_save su) (co_save_path options) bytes files)"

definition write_replay ::
    "surroundings \<Rightarrow> cli_options \<Rightarrow> 'u fd_context \<Rightarrow> world_state option \<Rightarrow> file_system
       \<Rightarrow> 'u fd_context \<times> file_system \<times> unit cpp_result" where
  "write_replay su options ctx s files =
     (if co_replay_path options = [] then (ctx, files, Inr ())
      else case build_replay ctx s of
        (ctx, Inl e) \<Rightarrow> (ctx, files, Inl e)
      | (ctx, Inr bytes) \<Rightarrow> (ctx, write_atomic (su_replay su) (co_replay_path options) bytes files))"

section \<open>What is shown\<close>

definition first_render_options :: "cli_options \<Rightarrow> render_options" where
  "first_render_options options = default_render_options
     \<lparr>ro_columns := co_columns options, ro_rows := co_rows options, ro_viewport_x := co_viewport_x options,
      ro_viewport_y := co_viewport_y options, ro_selected_x := co_selected_x options,
      ro_selected_y := co_selected_y options,
      ro_message := (if co_verify_replay_path options = []
        then str ''Ready. Explicit PASS decisions accepted: '' @ digits (unat (co_steps options)) @ str ''.''
        else str ''Replay verified through its final record.'')\<rparr>"

definition first_control :: "cli_options \<Rightarrow> render_options \<Rightarrow> fd_world_info \<Rightarrow> control_state" where
  "first_control options render info =
     \<lparr>cs_render = render,
      cs_view = (case co_view options of
          Cli_local \<Rightarrow> View_local | Cli_strategic \<Rightarrow> View_strategic | Cli_messages \<Rightarrow> View_messages
        | Cli_replay_inspector \<Rightarrow> View_replay_inspector | Cli_debug_hash \<Rightarrow> View_debug_hash),
      cs_before_help = View_local, cs_world_width = wi_width info, cs_world_height = wi_height info, cs_pane = 0,
      cs_scale = 1, cs_audit_count = 0, cs_first_log_record = 0, cs_replay_record = 0, cs_filter = [],
      cs_inspecting = False, cs_running = True\<rparr>"

definition run_interactive ::
    "surroundings \<Rightarrow> cli_options \<Rightarrow> render_options \<Rightarrow> 'u interactive_session \<Rightarrow> bytes \<times> unit cpp_result" where
  "run_interactive su options render session =
     (case wrapper_info (is_world session) of
        Inl e \<Rightarrow> ([], Inl e)
      | Inr info \<Rightarrow>
          (case run_control_loop \<lparr>cb_render = Some interactive_render, cb_pass = Some (interactive_pass (su_reserve su))\<rparr>
                  (su_writable su) (su_input su) session (first_control options render info) of
             ((output, _), result) \<Rightarrow> (output, result)))"

definition draw_once ::
    "cli_options \<Rightarrow> render_options \<Rightarrow> 'u interactive_session \<Rightarrow> bytes cpp_result" where
  "draw_once options render session =
     (if co_view options = Cli_messages \<or> co_view options = Cli_replay_inspector
      then (case open_audit_replay session of
              (session, Inl e) \<Rightarrow> Inl e
            | (session, Inr _) \<Rightarrow>
                if co_view options = Cli_messages
                then render_message_log_ascii (is_replay session) 0 render []
                else render_replay_inspector_ascii (is_replay session) 0 render)
      else case reference_snapshot (is_context session) (is_world session) of
        (ctx, Inl e) \<Rightarrow> Inl e
      | (ctx, Inr snapshot) \<Rightarrow>
          if co_view options = Cli_debug_hash then render_debug_hash_ascii snapshot render
          else render_ascii snapshot
                 (render\<lparr>ro_mode := (if co_view options = Cli_strategic then Strategic else Local)\<rparr>))"

section \<open>The program\<close>

record program_run =
  pr_status :: nat
  pr_output :: bytes
  pr_errors :: bytes
  pr_files :: file_system

definition succeed :: "file_system \<Rightarrow> bytes \<Rightarrow> program_run" where
  "succeed files output = \<lparr>pr_status = 0, pr_output = output, pr_errors = [], pr_files = files\<rparr>"

definition fail :: "nat \<Rightarrow> file_system \<Rightarrow> bytes \<Rightarrow> cpp_error \<Rightarrow> program_run" where
  "fail status files output e = \<lparr>pr_status = status, pr_output = output, pr_errors = print_error e, pr_files = files\<rparr>"

text \<open>The rest of the program once it has a context, a world and perhaps the replay it came from.\<close>

definition run_world ::
    "surroundings \<Rightarrow> cli_options \<Rightarrow> file_system \<Rightarrow> 'u fd_context \<Rightarrow> fd_replay option \<Rightarrow> world_state \<Rightarrow> program_run" where
  "run_world su options files ctx audit s =
     (case submit_passes (su_reserve su) (unat (co_steps options)) (Some s) of
        (s, Inl e) \<Rightarrow> fail 1 files [] e
      | (s, Inr _) \<Rightarrow>
          (case write_save su options ctx s files of
             (files, Inl e) \<Rightarrow> fail 1 files [] e
           | (files, Inr _) \<Rightarrow>
               (case write_replay su options ctx s files of
                  (ctx, files, Inl e) \<Rightarrow> fail 1 files [] e
                | (ctx, files, Inr _) \<Rightarrow>
                    let render = first_render_options options;
                        session = \<lparr>is_context = ctx, is_world = s, is_replay = audit\<rparr>
                    in if co_interactive options
                       then (case run_interactive su options render session of
                               (output, Inl e) \<Rightarrow> fail 1 files output e
                             | (output, Inr _) \<Rightarrow> succeed files output)
                       else (case draw_once options render session of
                               Inl e \<Rightarrow> fail 1 files [] e
                             | Inr drawn \<Rightarrow> succeed files drawn))))"

text \<open>The program on the arguments after its name.  \<open>None\<close> would be a generation that never returns.\<close>

definition terminal_program ::
    "('u \<Rightarrow> u64 \<Rightarrow> bool \<times> 'u) \<Rightarrow> ('u \<Rightarrow> 'u) \<Rightarrow> nat \<Rightarrow> 'u \<Rightarrow> 'u fd_context_config \<Rightarrow> surroundings \<Rightarrow> bytes list
       \<Rightarrow> file_system \<Rightarrow> program_run option" where
  "terminal_program malloc free address null_user zero su arguments files =
     (case parse_arguments arguments of
        Inl e \<Rightarrow> Some (fail 2 files [] e)
      | Inr options \<Rightarrow>
          if co_help options then Some (succeed files print_help)
          else case default_context_config null_user zero of
            Inl e \<Rightarrow> Some (fail 1 files [] e)
          | Inr config \<Rightarrow>
              (case context_create malloc free address config of
                 Inl e \<Rightarrow> Some (fail 1 files [] e)
               | Inr ctx \<Rightarrow>
                   map_option (\<lambda>(ctx, first). case first of
                       Inl e \<Rightarrow> fail 1 files [] e
                     | Inr (audit, s) \<Rightarrow> run_world su options files ctx audit s)
                     (first_world su files ctx options)))"

end
