(* ===== verification/FD_Logged.thy ===== *)
theory FD_Logged
  imports FD_Frames FD_Recorded
begin

text \<open>
  What the replay screens show: every attempt of an authentic replay can be inspected, and the message
  log lists the attempts in their order, each accepted one by its record and each refused one by its audit.
\<close>

section \<open>Positions in an increasing list\<close>

definition before :: "nat \<Rightarrow> nat list \<Rightarrow> nat" where
  "before i xs = length (filter (\<lambda>x. x < i) xs)"

lemma before_le [simp]: "before i xs \<le> length xs"
  by (simp add: before_def)

lemma before_split:
  assumes "sorted_wrt (<) xs"
  shows "m < before i xs \<Longrightarrow> xs ! m < i" "before i xs \<le> m \<Longrightarrow> m < length xs \<Longrightarrow> i \<le> xs ! m"
  using assms
proof (induction xs arbitrary: m)
  case (Cons x xs)
  case 1
  show ?case
  proof (cases "x < i")
    case True
    then show ?thesis using 1 Cons.IH(1) [of "m - 1"] by (cases m) (simp_all add: before_def)
  next
    case False
    then have "filter (\<lambda>x. x < i) xs = []" using 1(2) by (auto simp: filter_empty_conv)
    then show ?thesis using 1 False by (simp add: before_def)
  qed
next
  case (Cons x xs)
  case 2
  show ?case
  proof (cases "x < i")
    case True
    then show ?thesis using 2 Cons.IH(2) [of "m - 1"] by (cases m) (simp_all add: before_def)
  next
    case False
    moreover have "x \<le> (x # xs) ! m" using 2(2,3) by (cases m) (auto dest!: nth_mem)
    ultimately show ?thesis by simp
  qed
qed (simp_all add: before_def)

lemma before_at:
  assumes "sorted_wrt (<) xs"
  shows "i \<in> set xs \<longleftrightarrow> before i xs < length xs \<and> xs ! before i xs = i"
proof
  assume "i \<in> set xs"
  then obtain m where m: "m < length xs" "xs ! m = i" by (auto simp: in_set_conv_nth)
  have "before i xs \<le> m" using before_split(1) [OF assms, of m i] m by (cases "m < before i xs") auto
  moreover have "xs ! before i xs \<ge> i" if "before i xs < length xs" using before_split(2) [OF assms order_refl that] .
  ultimately show "before i xs < length xs \<and> xs ! before i xs = i"
    using m sorted_wrt_nth_less [OF assms, of "before i xs" m] by (cases "before i xs = m") auto
qed (metis nth_mem)

lemma before_Suc:
  assumes "sorted_wrt (<) xs"
  shows "before (Suc i) xs = before i xs + (if i \<in> set xs then 1 else 0)"
  using assms by (induction xs) (auto simp: before_def less_Suc_eq)

lemma before_rest:
  assumes "sorted_wrt (<) xs" and "\<forall>x\<in>set xs. x < N" and "i \<le> N"
  shows "before i xs \<le> i" "i < N \<Longrightarrow> i \<notin> set xs \<Longrightarrow> i - before i xs < N - length xs"
proof -
  have d: "distinct xs" using assms(1) strict_sorted_iff by blast
  have b: "before i xs = card (set xs \<inter> {..<i})"
  proof -
    have "set (filter (\<lambda>x. x < i) xs) = set xs \<inter> {..<i}" by auto
    then show ?thesis using distinct_card [of "filter (\<lambda>x. x < i) xs"] d by (simp add: before_def)
  qed
  then show "before i xs \<le> i" using card_mono [of "{..<i}" "set xs \<inter> {..<i}"] by simp
  assume i: "i < N" "i \<notin> set xs"
  have "card ({..<i} - set xs) = i - before i xs" by (simp add: b card_Diff_subset_Int Int_commute)
  moreover have "card ({..<N} - set xs) = N - length xs"
    using assms(2) distinct_card [OF d] by (subst card_Diff_subset) auto
  moreover have "card (insert i ({..<i} - set xs)) \<le> card ({..<N} - set xs)"
    using i by (intro card_mono) auto
  ultimately show "i - before i xs < N - length xs" by simp
qed

section \<open>The attempts of an authentic replay\<close>

definition attempts :: "fd_replay \<Rightarrow> nat" where
  "attempts rp = length (replay_records rp) + length (replay_audits rp)"

definition refused_at :: "fd_replay \<Rightarrow> nat list" where
  "refused_at rp = map (\<lambda>a. unat (ra_attempt_index a)) (replay_audits rp)"

lemma plays_indices:
  assumes "plays i w rs as v" and "i + length rs + length as < 2 ^ 64"
  shows "sorted_wrt (<) (map (\<lambda>a. unat (ra_attempt_index a)) as) \<and>
    (\<forall>a\<in>set as. i \<le> unat (ra_attempt_index a) \<and> unat (ra_attempt_index a) < i + length rs + length as)"
  using assms
proof (induction rule: plays.induct)
  case (accepted w r as i rs v)
  then show ?case by force
next
  case (rejected w a i rs as v)
  have "unat (ra_attempt_index a) = i" using rejected.hyps(2) rejected.prems by (simp add: unat_of_nat_u64)
  then show ?case using rejected.IH rejected.prems by force
qed simp

lemma refused_at_props:
  assumes "authentic rp w" and "attempts rp < 2 ^ 64"
  shows "sorted_wrt (<) (refused_at rp)" "\<forall>x\<in>set (refused_at rp). x < attempts rp"
  using assms plays_indices [of 0 w "replay_records rp" "replay_audits rp"]
  by (auto simp: authentic_def refused_at_def attempts_def)


section \<open>What the replay reports of an attempt\<close>

definition audit_view :: "fd_replay_audit \<Rightarrow> fd_replay_audit_view" where
  "audit_view a = blank_audit_view
     \<lparr>aw_attempt_index := ra_attempt_index a, aw_tick := ra_tick a, aw_decision := ra_decision a,
      aw_result := ra_result a, aw_field_id := ra_field_id a, aw_item_index := ra_item_index a,
      aw_message_length := ra_message_length a,
      aw_message := blit (replicate 160 0) 0 (take (unat (ra_message_length a)) (ra_message a))\<rparr>"

definition record_view :: "nat \<Rightarrow> fd_replay_record \<Rightarrow> fd_replay_record_view" where
  "record_view i r = blank_record_view
     \<lparr>rw_decision_index := of_nat i, rw_tick_before := rr_tick_before r, rw_tick_after := rr_tick_after r,
      rw_decision := rr_decision r, rw_rng_domain_count := rr_rng_domain_count r, rw_reserved := 0,
      rw_pre_state_sha256 := rr_pre_hash r, rw_post_state_sha256 := rr_post_hash r,
      rw_event_sha256 := rr_event_hash r\<rparr>"

lemma audit_view_index [simp]: "aw_attempt_index (audit_view a) = ra_attempt_index a"
  by (simp add: audit_view_def)

lemma reported_audit:
  assumes "authentic rp w" and "j < length (replay_audits rp)"
  shows "replay_audit (Some rp) (of_nat j) = Inr (audit_view (replay_audits rp ! j))"
proof -
  have n: "length (replay_audits rp) = unat (rp_audit_count rp)" using assms(1) by (simp add: authentic_def)
  then have j: "unat (of_nat j :: u32) = j"
    using assms(2) unat_lt_u32 [of "rp_audit_count rp"] by (intro unat_of_nat_u32) simp
  have "rp_audits rp = Some (replay_audits rp)" using assms(2) by (auto simp: replay_audits_def split: option.splits)
  then show ?thesis
    using assms(2) n j by (simp add: replay_audit_def checked_query_def fd_replay_get_audit_def audit_view_def
        fd_output_struct_valid_def blank_audit_view_def word_le_nat_alt Let_def split_beta)
qed

lemma reported_record:
  assumes "authentic rp w" and "i < length (replay_records rp)"
  shows "replay_record (Some rp) (of_nat i) = Inr (record_view i (replay_records rp ! i))"
proof -
  have n: "length (replay_records rp) = unat (rp_record_count rp)" using assms(1) by (simp add: authentic_def)
  then have i: "unat (of_nat i :: u64) = i"
    using assms(2) unat_lt_u64 [of "rp_record_count rp"] by (intro unat_of_nat_u64) simp
  have "rp_records rp = Some (replay_records rp)" using assms(2) by (auto simp: replay_records_def split: option.splits)
  then show ?thesis
    using assms(2) n i by (simp add: replay_record_def checked_query_def fd_replay_get_record_def record_view_def
        fd_output_struct_valid_def blank_record_view_def word_le_nat_alt Let_def split_beta)
qed

text \<open>The attempt with a number: refused when an audit has that number, else the next accepted one.\<close>

abbreviation refused_before :: "fd_replay \<Rightarrow> nat \<Rightarrow> nat" where
  "refused_before rp k \<equiv> before k (refused_at rp)"

definition attempt_audit :: "fd_replay \<Rightarrow> nat \<Rightarrow> fd_replay_audit_view option" where
  "attempt_audit rp k =
     (if k \<in> set (refused_at rp) then Some (audit_view (replay_audits rp ! refused_before rp k)) else None)"

definition attempt_record :: "fd_replay \<Rightarrow> nat \<Rightarrow> fd_replay_record_view" where
  "attempt_record rp k = record_view (k - refused_before rp k) (replay_records rp ! (k - refused_before rp k))"

definition attempt_row :: "fd_replay \<Rightarrow> nat \<Rightarrow> bytes" where
  "attempt_row rp k = (case attempt_audit rp k of
       Some audit \<Rightarrow> reject_line (of_nat k) audit
     | None \<Rightarrow> accept_line (of_nat k) (attempt_record rp k))"


section \<open>The merge of records and audits\<close>

definition upcoming :: "fd_replay \<Rightarrow> nat \<Rightarrow> fd_replay_audit_view option" where
  "upcoming rp j = (if j < length (replay_audits rp) then Some (audit_view (replay_audits rp ! j)) else None)"

definition log_at :: "fd_replay \<Rightarrow> nat \<Rightarrow> bytes list \<Rightarrow> log_state" where
  "log_at rp k ls =
     \<lparr>lg_accepted_index = of_nat (k - refused_before rp k), lg_audit_index = refused_before rp k,
      lg_current = upcoming rp (refused_before rp k), lg_lines = ls\<rparr>"

lemma refused_length [simp]: "length (refused_at rp) = length (replay_audits rp)"
  by (simp add: refused_at_def)

lemma refused_nth: "j < length (replay_audits rp) \<Longrightarrow> refused_at rp ! j = unat (ra_attempt_index (replay_audits rp ! j))"
  by (simp add: refused_at_def)

text \<open>A replay that was opened, of no more attempts than 64 bits can number.\<close>

definition readable :: "fd_replay \<Rightarrow> bool" where
  "readable rp \<longleftrightarrow> (\<exists>w. authentic rp w) \<and> attempts rp < 2 ^ 64"

lemma readable_refused:
  assumes "readable rp"
  shows "sorted_wrt (<) (refused_at rp)" "\<forall>x\<in>set (refused_at rp). x < attempts rp"
  using assms refused_at_props by (auto simp: readable_def)

lemma readable_number: "readable rp \<Longrightarrow> k \<le> attempts rp \<Longrightarrow> unat (of_nat k :: u64) = k"
  by (intro unat_of_nat_u64) (simp add: readable_def)

lemma audit_number:
  assumes "readable rp" and "k \<le> attempts rp" and "j < length (replay_audits rp)"
  shows "ra_attempt_index (replay_audits rp ! j) = of_nat k \<longleftrightarrow> refused_at rp ! j = k"
    "ra_attempt_index (replay_audits rp ! j) < of_nat k \<longleftrightarrow> refused_at rp ! j < k"
    "of_nat k < ra_attempt_index (replay_audits rp ! j) \<longleftrightarrow> k < refused_at rp ! j"
proof -
  have "unat (of_nat k :: u64) = k" using assms(1,2) by (rule readable_number)
  then show "ra_attempt_index (replay_audits rp ! j) = of_nat k \<longleftrightarrow> refused_at rp ! j = k"
    "ra_attempt_index (replay_audits rp ! j) < of_nat k \<longleftrightarrow> refused_at rp ! j < k"
    "of_nat k < ra_attempt_index (replay_audits rp ! j) \<longleftrightarrow> k < refused_at rp ! j"
    using assms(3) by (auto simp: refused_nth word_less_nat_alt word_unat_eq_iff)
qed

lemma fetched: "readable rp \<Longrightarrow> fetch_audit (Some rp) (length (replay_audits rp)) j = Inr (upcoming rp j)"
  by (auto simp: fetch_audit_def upcoming_def readable_def reported_audit)

lemma skipped:
  assumes "readable rp" and "first \<le> attempts rp" and "j \<le> refused_before rp first"
  shows "skip_audits (Some rp) (length (replay_audits rp)) (of_nat first) j (upcoming rp j) =
    Inr (refused_before rp first, upcoming rp (refused_before rp first))"
  using assms(3)
proof (induction "refused_before rp first - j" arbitrary: j)
  case 0
  then have j: "j = refused_before rp first" by simp
  have "\<not> refused_at rp ! j < first" if "j < length (replay_audits rp)"
    using before_split(2) [OF readable_refused(1) [OF assms(1)], of first j] that j by simp
  then show ?case using assms(1,2)
    by (subst skip_audits.simps) (auto simp: upcoming_def j [symmetric] audit_number)
next
  case (Suc m)
  then have j: "j < refused_before rp first" by simp
  then have l: "j < length (replay_audits rp)" using before_le [of first "refused_at rp"] by simp
  have "refused_at rp ! j < first" using before_split(1) [OF readable_refused(1) [OF assms(1)] j] .
  then have "ra_attempt_index (replay_audits rp ! j) < of_nat first" using audit_number(2) [OF assms(1,2) l] by simp
  moreover have "upcoming rp j = Some (audit_view (replay_audits rp ! j))" using l by (simp add: upcoming_def)
  moreover note Suc.hyps(1) [of "Suc j"]
  ultimately show ?case using Suc.hyps(2) j by (subst skip_audits.simps) (simp add: fetched [OF assms(1)])
qed

lemma at_attempt:
  assumes "readable rp" and "k < attempts rp"
  shows "k \<in> set (refused_at rp) \<Longrightarrow> upcoming rp (refused_before rp k) = attempt_audit rp k \<and>
      refused_before rp k < length (replay_audits rp) \<and>
      ra_attempt_index (replay_audits rp ! refused_before rp k) = of_nat k"
    "k \<notin> set (refused_at rp) \<Longrightarrow> refused_before rp k < length (replay_audits rp) \<Longrightarrow>
      of_nat k < ra_attempt_index (replay_audits rp ! refused_before rp k)"
    "k \<notin> set (refused_at rp) \<Longrightarrow> replay_record (Some rp) (of_nat (k - refused_before rp k)) = Inr (attempt_record rp k)"
proof -
  assume "k \<in> set (refused_at rp)"
  then show "upcoming rp (refused_before rp k) = attempt_audit rp k \<and> refused_before rp k < length (replay_audits rp) \<and>
      ra_attempt_index (replay_audits rp ! refused_before rp k) = of_nat k"
    using before_at [OF readable_refused(1) [OF assms(1)], of k] assms by (simp add: upcoming_def attempt_audit_def audit_number)
next
  assume k: "k \<notin> set (refused_at rp)"
  { assume l: "refused_before rp k < length (replay_audits rp)"
    then have "refused_at rp ! refused_before rp k \<noteq> k" "k \<le> refused_at rp ! refused_before rp k"
      using before_at [OF readable_refused(1) [OF assms(1)], of k] before_split(2) [OF readable_refused(1) [OF assms(1)] order_refl, of k] k by simp_all
    then show "of_nat k < ra_attempt_index (replay_audits rp ! refused_before rp k)"
      using audit_number(3) [OF assms(1) _ l, of k] assms by simp }
  have "k - refused_before rp k < attempts rp - length (refused_at rp)"
    using before_rest(2) [OF readable_refused [OF assms(1)], of k] assms k by simp
  then show "replay_record (Some rp) (of_nat (k - refused_before rp k)) = Inr (attempt_record rp k)"
    using assms(1) by (auto simp: attempt_record_def attempts_def readable_def intro: reported_record)
qed


abbreviation matches :: "bytes \<Rightarrow> bytes \<Rightarrow> bool" where
  "matches wanted row \<equiv> wanted = [] \<or> contains wanted row"

lemma before_next: "readable rp \<Longrightarrow> k \<in> set (refused_at rp) \<Longrightarrow> refused_before rp (Suc k) = Suc (refused_before rp k)"
    "readable rp \<Longrightarrow> k \<notin> set (refused_at rp) \<Longrightarrow> refused_before rp (Suc k) = refused_before rp k"
  by (simp_all add: before_Suc readable_refused)

lemma log_step:
  assumes "readable rp" and "k < attempts rp"
  shows "log_attempt (Some rp) (length (replay_audits rp)) wanted (of_nat k) (log_at rp k ls) =
    Inr (log_at rp (Suc k) (ls @ (if matches wanted (attempt_row rp k) then [attempt_row rp k] else [])))"
proof (cases "k \<in> set (refused_at rp)")
  case True
  note here = at_attempt(1) [OF assms True]
  obtain audit where a: "attempt_audit rp k = Some audit" "aw_attempt_index audit = of_nat k"
    using True here by (simp add: attempt_audit_def)
  show ?thesis
    using here a assms(1) by (simp add: log_attempt_def log_at_def attempt_row_def fetched before_next(2) before_next(1) [OF _ True] Let_def)
next
  case False
  note reported = at_attempt(3) [OF assms False]
  have le: "refused_before rp k \<le> k"
    using before_rest(1) [OF readable_refused [OF assms(1)], of k] assms(2) by simp
  then have next_index: "of_nat (k - refused_before rp k) + 1 = (of_nat (Suc k - refused_before rp k) :: u64)"
    by (simp add: Suc_diff_le)
  have "attempt_audit rp k = None" using False by (simp add: attempt_audit_def)
  moreover have "upcoming rp (refused_before rp k) = None \<or>
      (\<exists>audit. upcoming rp (refused_before rp k) = Some audit \<and> of_nat k < aw_attempt_index audit)"
    using at_attempt(2) [OF assms False] by (simp add: upcoming_def)
  ultimately show ?thesis
    using reported next_index
    by (auto simp: log_attempt_def log_at_def attempt_row_def before_next(2) [OF assms(1) False] Let_def)
qed

text \<open>The loop stops when the screen is full.\<close>

lemma log_rows:
  assumes "readable rp" and "k \<le> attempts rp" and "length ls \<le> maximum"
  shows "\<exists>s. log_attempts (Some rp) (length (replay_audits rp)) wanted maximum [k..<attempts rp] (log_at rp k ls) = Inr s \<and>
    lg_lines s = take maximum (ls @ filter (matches wanted) (map (attempt_row rp) [k..<attempts rp]))"
  using assms(2,3)
proof (induction "attempts rp - k" arbitrary: k ls)
  case 0
  then show ?case by (simp add: log_at_def)
next
  case (Suc m)
  then have k: "k < attempts rp" by simp
  show ?case
  proof (cases "length ls < maximum")
    case True
    define ls' where "ls' = ls @ (if matches wanted (attempt_row rp k) then [attempt_row rp k] else [])"
    have "length ls' \<le> maximum" using True by (simp add: ls'_def)
    moreover have "m = attempts rp - Suc k" "Suc k \<le> attempts rp" using Suc.hyps(2) k by simp_all
    ultimately obtain s where
      s: "log_attempts (Some rp) (length (replay_audits rp)) wanted maximum [Suc k..<attempts rp] (log_at rp (Suc k) ls') = Inr s"
        "lg_lines s = take maximum (ls' @ filter (matches wanted) (map (attempt_row rp) [Suc k..<attempts rp]))"
      using Suc.hyps(1) [of "Suc k" ls'] by blast
    moreover have "lg_lines (log_at rp k ls) = ls" by (simp add: log_at_def)
    moreover have "ls' @ filter (matches wanted) (map (attempt_row rp) [Suc k..<attempts rp]) =
        ls @ filter (matches wanted) (map (attempt_row rp) [k..<attempts rp])"
      unfolding upt_conv_Cons [OF k] by (simp add: ls'_def)
    ultimately show ?thesis
      using log_step [OF assms(1) k, of wanted ls, folded ls'_def] True k
      by (intro exI [of _ s]) (simp add: upt_conv_Cons [OF k] del: take_append)
  next
    case False
    then show ?thesis using Suc.prems k by (simp add: upt_conv_Cons log_at_def)
  qed
qed

text \<open>The search of the inspector.\<close>

lemma find_rejected_at:
  assumes "readable rp" and "k < attempts rp" and "j \<le> refused_before rp k"
  shows "find_rejected (Some rp) (of_nat k) [j..<length (replay_audits rp)] (of_nat j) =
    Inr (of_nat (refused_before rp k), attempt_audit rp k)"
  using assms(3)
proof (induction "refused_before rp k - j" arbitrary: j)
  case 0
  then have j: "j = refused_before rp k" by simp
  show ?case
  proof (cases "k \<in> set (refused_at rp)")
    case True
    note here = at_attempt(1) [OF assms(1,2) True]
    have "replay_audit (Some rp) (of_nat j) = Inr (audit_view (replay_audits rp ! j))"
      using assms(1) here j reported_audit by (auto simp: readable_def)
    then show ?thesis using here j True by (simp add: upt_conv_Cons upcoming_def attempt_audit_def)
  next
    case False
    have "replay_audit (Some rp) (of_nat j) = Inr (audit_view (replay_audits rp ! j)) \<and>
        of_nat k < ra_attempt_index (replay_audits rp ! j)" if "j < length (replay_audits rp)"
      using assms(1) at_attempt(2) [OF assms(1,2) False] j that reported_audit by (auto simp: readable_def)
    then show ?thesis using j False
      by (cases "j < length (replay_audits rp)") (auto simp: upt_conv_Cons attempt_audit_def)
  qed
next
  case (Suc m)
  then have j: "j < refused_before rp k" by simp
  then have l: "j < length (replay_audits rp)" using before_le [of k "refused_at rp"] by simp
  have "refused_at rp ! j < k" using before_split(1) [OF readable_refused(1) [OF assms(1)] j] .
  then have "ra_attempt_index (replay_audits rp ! j) < of_nat k"
    using audit_number(2) [OF assms(1) _ l] assms(2) by simp
  then have "\<not> of_nat k < ra_attempt_index (replay_audits rp ! j)" "ra_attempt_index (replay_audits rp ! j) \<noteq> of_nat k"
    by auto
  moreover have "replay_audit (Some rp) (of_nat j) = Inr (audit_view (replay_audits rp ! j))"
    using assms(1) l reported_audit by (auto simp: readable_def)
  moreover have "of_nat j + 1 = (of_nat (Suc j) :: u32)" by simp
  ultimately show ?case using Suc.hyps(1) [of "Suc j"] Suc.hyps(2) j l
    by (simp add: upt_conv_Cons del: of_nat_Suc)
qed


section \<open>The screens of a replay\<close>

text \<open>A screen shows these rows from a line on, each cut to the columns and in printable ASCII.\<close>

definition shows_rows :: "render_options \<Rightarrow> nat \<Rightarrow> bytes list \<Rightarrow> bytes \<Rightarrow> bool" where
  "shows_rows options n rows t \<longleftrightarrow> (\<exists>lines. t = concat (map (\<lambda>line. line @ [10]) lines) \<and>
     length lines = unat (ro_rows options) \<and> n + length rows \<le> length lines \<and>
     take (length rows) (drop n lines) = map (\<lambda>row. fit (ascii_text row) (ro_columns options)) rows)"

lemma shows_rows_finalize:
  assumes "n = length upper" and "n + length rows \<le> unat (ro_rows options)"
  shows "shows_rows options n rows (finalize (upper @ rows @ lower) (ro_columns options) (ro_rows options))"
proof -
  define ls where "ls = take (unat (ro_rows options)) (upper @ rows @ lower)"
  define lines where "lines = map (\<lambda>row. fit (ascii_text row) (ro_columns options)) (ls @ replicate (unat (ro_rows options) - length ls) [])"
  have "take (length rows) (drop n ls) = rows" "n + length rows \<le> length ls"
    using assms by (simp_all add: ls_def take_add drop_take)
  then have "take (length rows) (drop n lines) = map (\<lambda>row. fit (ascii_text row) (ro_columns options)) rows"
    by (simp add: lines_def take_map drop_map flip: map_append)
  moreover have "length lines = unat (ro_rows options)" by (simp add: lines_def ls_def)
  moreover have "finalize (upper @ rows @ lower) (ro_columns options) (ro_rows options) = concat (map (\<lambda>line. line @ [10]) lines)"
    by (simp add: finalize_def lines_def ls_def Let_def comp_def)
  ultimately show ?thesis using assms(2) by (auto simp: shows_rows_def intro!: exI [of _ lines])
qed

definition roomy :: "render_options \<Rightarrow> bool" where
  "roomy options \<longleftrightarrow> 80 \<le> ro_columns options \<and> ro_columns options \<le> 512 \<and>
     24 \<le> ro_rows options \<and> ro_rows options \<le> 256"

lemma sized_roomy: "roomy options \<Longrightarrow> sized_screen options screen = screen"
  by (auto simp: roomy_def sized_screen_def not_less [symmetric])

lemma roomy_rows: "roomy options \<Longrightarrow> 24 \<le> unat (ro_rows options)"
  by (simp add: roomy_def word_le_nat_alt)

lemma replay_reports:
  assumes "readable rp"
  obtains info where "replay_info (Some rp) = Inr info" "unat (total_attempts info) = attempts rp"
    "unat (ri_audit_count info) = length (replay_audits rp)"
proof -
  define info where "info = blank_replay_info\<lparr>ri_decision_count := rp_record_count rp, ri_cursor := rp_cursor rp,
      ri_tick_zero_save_bytes := rp_tick_zero_save_size rp, ri_checkpoint_count := rp_checkpoint_count rp,
      ri_audit_count := rp_audit_count rp, ri_tick_zero_state_sha256 := rp_tick_zero_hash rp\<rparr>"
  have n: "length (replay_records rp) = unat (rp_record_count rp)" "length (replay_audits rp) = unat (rp_audit_count rp)"
    using assms by (auto simp: readable_def authentic_def)
  have "replay_info (Some rp) = Inr info"
    by (simp add: replay_info_def checked_query_def fd_replay_get_info_def info_def fd_output_struct_valid_def
        blank_replay_info_def split_beta)
  moreover have "unat (rp_record_count rp) + unat (ucast (rp_audit_count rp) :: u64) < 2 ^ 64"
    using assms n by (simp add: readable_def attempts_def)
  then have "unat (total_attempts info) = attempts rp"
    using n by (simp add: total_attempts_def info_def attempts_def unat_word_ariths)
  moreover have "unat (ri_audit_count info) = length (replay_audits rp)" using n by (simp add: info_def)
  ultimately show thesis by (rule that)
qed


lemma log_shows_rows:
  assumes "readable rp" and "roomy options" and "first \<le> attempts rp"
  shows "\<exists>t. render_message_log_ascii (Some rp) (of_nat first) options wanted = Inr t \<and>
    shows_rows options 3 (take (unat (ro_rows options) - 7)
      (filter (matches (ascii_text wanted)) (map (attempt_row rp) [first..<attempts rp]))) t"
proof -
  obtain info where info: "replay_info (Some rp) = Inr info" "unat (total_attempts info) = attempts rp"
    "unat (ri_audit_count info) = length (replay_audits rp)"
    using assms(1) by (rule replay_reports)
  have first: "unat (of_nat first :: u64) = first" using assms(1,3) by (rule readable_number)
  have start: "first - refused_before rp first + refused_before rp first = first"
    using before_rest(1) [OF readable_refused [OF assms(1)] assms(3)] by simp
  then have "of_nat first - of_nat (refused_before rp first) = (of_nat (first - refused_before rp first) :: u64)"
    using start by (simp add: of_nat_diff)
  then have state: "\<lparr>lg_accepted_index = of_nat first - of_nat (refused_before rp first), lg_audit_index = refused_before rp first,
      lg_current = upcoming rp (refused_before rp first), lg_lines = []\<rparr> = log_at rp first []"
    by (simp add: log_at_def)
  let ?n = "unat (ro_rows options) - 7"
  obtain s where s: "log_attempts (Some rp) (length (replay_audits rp)) (ascii_text wanted) ?n [first..<attempts rp] (log_at rp first []) = Inr s"
    "lg_lines s = take ?n (filter (matches (ascii_text wanted)) (map (attempt_row rp) [first..<attempts rp]))"
    using log_rows [OF assms(1,3), of "[]" ?n "ascii_text wanted"] by auto
  have "length (lg_lines s) \<le> ?n" using s(2) by simp
  then have room: "3 + length (lg_lines s) \<le> unat (ro_rows options)" using roomy_rows [OF assms(2)] by simp
  have "fetch_audit (Some rp) (length (replay_audits rp)) 0 = Inr (upcoming rp 0)" using assms(1) by (rule fetched)
  moreover have "skip_audits (Some rp) (length (replay_audits rp)) (of_nat first) 0 (upcoming rp 0) =
      Inr (refused_before rp first, upcoming rp (refused_before rp first))"
    using skipped [OF assms(1,3), of 0] by simp
  moreover have "\<not> of_nat first > total_attempts info" using first info(2) assms(3) by (simp add: word_less_nat_alt)
  moreover have "shows_rows options 3 (lg_lines s) (finalize ([a, b, c] @ lg_lines s @ lower) (ro_columns options) (ro_rows options))"
    for a b c lower using room by (intro shows_rows_finalize) simp_all
  ultimately show ?thesis
    using info first state s
    by (simp add: render_message_log_ascii_def sized_roomy [OF assms(2)] Let_def pad_before_footer_def)
qed

lemma lines_length: "length (rejected_lines info t k a) = 10" "length (accepted_lines info t k r) = 12"
  by (simp_all add: rejected_lines_def accepted_lines_def Let_def)

text \<open>C33: every attempt of an opened replay can be inspected: for each attempt number below the count of
  records and audits the inspector draws the audit of a refused attempt, and of an accepted one its record,
  which is the record of the transition that many accepted attempts into the run.  Any other number is refused; of a replay without attempts number 0
  draws a notice.\<close>

theorem every_attempt_can_be_inspected:
  assumes "authentic rp w" and "attempts rp < 2 ^ 64" and "roomy options" and "k < 2 ^ 64"
  shows "case render_replay_inspector_ascii (Some rp) (of_nat k) options of
      Inl e \<Rightarrow> attempts rp \<le> k \<and> er_code e = FD_ERR_OUT_OF_RANGE
    | Inr t \<Rightarrow> \<exists>info. replay_info (Some rp) = Inr info \<and>
        (if attempts rp = 0 then k = 0
         else k < attempts rp \<and> shows_rows options 0
           (case attempt_audit rp k of
              Some audit \<Rightarrow> rejected_lines info (of_nat (attempts rp)) (of_nat k) audit
            | None \<Rightarrow> accepted_lines info (of_nat (attempts rp)) (of_nat k) (attempt_record rp k)) t)"
proof -
  have rd: "readable rp" using assms(1,2) by (auto simp: readable_def)
  obtain info where info: "replay_info (Some rp) = Inr info" "unat (total_attempts info) = attempts rp"
    "unat (ri_audit_count info) = length (replay_audits rp)"
    using rd by (rule replay_reports)
  have total: "total_attempts info = of_nat (attempts rp)" by (simp flip: info(2))
  have k: "unat (of_nat k :: u64) = k" using assms(4) by (intro unat_of_nat_u64) simp
  have zero: "attempts rp = 0 \<longleftrightarrow> total_attempts info = 0" using info(2) by (simp add: unat_eq_0 flip: info(2))
  have ge: "of_nat k \<ge> total_attempts info \<longleftrightarrow> attempts rp \<le> k" using info(2) k by (simp add: word_le_nat_alt)
  show ?thesis
  proof (cases "attempts rp \<le> k")
    case True
    then show ?thesis
      using info(1) zero ge k
      by (auto simp: render_replay_inspector_ascii_def sized_roomy [OF assms(3)] Let_def wrapper_error_def word_unat_eq_iff)
  next
    case False
    then have lt: "k < attempts rp" by simp
    have search: "find_rejected (Some rp) (of_nat k) [0..<length (replay_audits rp)] 0 =
        Inr (of_nat (refused_before rp k), attempt_audit rp k)"
      using find_rejected_at [OF rd lt, of 0] by simp
    have drawn: "shows_rows options 0 ls (finalize (pad_before_footer ls (ro_rows options) 3 @ lower)
        (ro_columns options) (ro_rows options))" if "length ls \<le> 12" for ls lower
      using shows_rows_finalize [of 0 "[]" ls options] that roomy_rows [OF assms(3)]
      by (simp add: pad_before_footer_def)
    show ?thesis
    proof (cases "attempt_audit rp k")
      case None
      then have k': "k \<notin> set (refused_at rp)" by (simp add: attempt_audit_def split: if_splits)
      have small: "refused_before rp k \<le> k" using before_rest(1) [OF readable_refused [OF rd], of k] lt by simp
      have "refused_before rp k \<le> unat (rp_audit_count rp)"
        using before_le [of k "refused_at rp"] assms(1) by (simp add: authentic_def)
      then have u: "ucast (of_nat (refused_before rp k) :: u32) = (of_nat (refused_before rp k) :: u64)"
        using unat_lt_u32 [of "rp_audit_count rp"] by (intro ucast_of_nat) simp
      have "of_nat k - ucast (of_nat (refused_before rp k) :: u32) = (of_nat (k - refused_before rp k) :: u64)"
        using small u by (simp add: of_nat_diff)
      then show ?thesis
        using at_attempt(3) [OF rd lt k'] None False zero ge lt search info drawn
        by (simp add: render_replay_inspector_ascii_def sized_roomy [OF assms(3)] total Let_def lines_length del: of_nat_diff)
    next
      case (Some audit)
      then show ?thesis
        using False zero ge lt search info drawn
        by (simp add: render_replay_inspector_ascii_def sized_roomy [OF assms(3)] total Let_def lines_length)
    qed
  qed
qed


section \<open>The log tells what was played\<close>

text \<open>Playing decisions, telling each one as it goes: attempt \<open>k\<close>, after \<open>i\<close> accepted ones, in world \<open>w\<close>.\<close>

primrec told :: "nat \<Rightarrow> nat \<Rightarrow> fd_world \<Rightarrow> fd_joint_decision list \<Rightarrow> bytes list" where
  "told k i w [] = []"
| "told k i w (d # ds) =
     (if accepts w d
      then accept_line (of_nat k) (record_view i (record_of w d)) # told (Suc k) (Suc i) (stepped_world w) ds
      else reject_line (of_nat k) (audit_view (audit_of k w d)) # told (Suc k) i w ds)"

lemma told_length [simp]: "length (told k i w ds) = length ds"
  by (induction ds arbitrary: k i w) simp_all

abbreviation refused_numbers :: "fd_replay_audit list \<Rightarrow> nat list" where
  "refused_numbers as \<equiv> map (\<lambda>a. unat (ra_attempt_index a)) as"

lemma refused_range:
  assumes "k + length ds < 2 ^ 64"
  shows "\<forall>x\<in>set (refused_numbers (played_audits k w ds)). k \<le> x"
proof (clarsimp)
  fix a assume "a \<in> set (played_audits k w ds)"
  from played_audit_index [OF this] obtain i where "k \<le> i" "i < k + length ds" "ra_attempt_index a = of_nat i" by blast
  then show "k \<le> unat (ra_attempt_index a)" using assms by (simp add: unat_of_nat_u64)
qed

lemma before_none: "\<forall>x\<in>set xs. k \<le> x \<Longrightarrow> before k xs = 0"
  by (simp add: before_def not_less)

lemma before_bound: "\<lbrakk>k + length ds < 2 ^ 64; j \<le> length ds\<rbrakk> \<Longrightarrow> before (k + j) (refused_numbers (played_audits k w ds)) \<le> j"
proof (induction ds arbitrary: k j w)
  case (Cons d ds)
  show ?case
  proof (cases j)
    case 0
    then show ?thesis using before_none [OF refused_range [OF Cons.prems(1)]] by simp
  next
    case (Suc n)
    have "before (Suc k + n) (refused_numbers (played_audits (Suc k) v ds)) \<le> n" for v
      using Cons.IH [of "Suc k" n v] Cons.prems Suc by simp
    then show ?thesis by (simp add: Suc before_def le_SucI)
  qed
qed (simp add: before_def)

lemma told_nth:
  assumes "k + length ds < 2 ^ 64" and "j < length ds"
  shows "told k i w ds ! j =
    (let numbers = refused_numbers (played_audits k w ds); b = before (k + j) numbers
     in if k + j \<in> set numbers then reject_line (of_nat (k + j)) (audit_view (played_audits k w ds ! b))
        else accept_line (of_nat (k + j)) (record_view (i + (j - b)) (played_records w ds ! (j - b))))"
  using assms
proof (induction ds arbitrary: k i j w)
  case (Cons d ds)
  have later: "k \<notin> set (refused_numbers (played_audits (Suc k) v ds))" "before k (refused_numbers (played_audits (Suc k) v ds)) = 0" for v
    using refused_range [of "Suc k" ds v] Cons.prems(1) by (force intro: before_none)+
  have number: "\<not> accepts w d \<Longrightarrow> unat (ra_attempt_index (audit_of k w d)) = k"
    using Cons.prems(1) by (simp add: audit_of_def Let_def unat_of_nat_u64)
  show ?case
  proof (cases j)
    case 0
    then show ?thesis using later number by (auto simp: before_def)
  next
    case (Suc n)
    have n: "Suc k + length ds < 2 ^ 64" "n < length ds" using Cons.prems Suc by simp_all
    have "before (Suc k + n) (refused_numbers (played_audits (Suc k) v ds)) \<le> n" for v
      using before_bound [OF n(1)] n(2) by simp
    then show ?thesis
      using Cons.IH [OF n, of "Suc i" "stepped_world w"] Cons.IH [OF n, of i w] number later
      by (auto simp: Suc before_def Let_def Suc_diff_le)
  qed
qed simp


lemma run_rows:
  assumes "holds_run rp owner w ds" and "length ds < 2 ^ 64"
  shows "readable rp" "attempts rp = length ds" "map (attempt_row rp) [first..<length ds] = drop first (told 0 0 w ds)"
proof -
  have run: "authentic rp w" "replay_records rp = played_records w ds" "replay_audits rp = played_audits 0 w ds"
    using assms(1) by (simp_all add: holds_run_def)
  show n: "attempts rp = length ds" by (simp add: attempts_def run played_length)
  show "readable rp" using run(1) n assms(2) by (auto simp: readable_def)
  show "map (attempt_row rp) [first..<length ds] = drop first (told 0 0 w ds)"
    using assms(2) by (intro nth_equalityI)
      (simp_all add: attempt_row_def attempt_audit_def attempt_record_def refused_at_def run told_nth Let_def)
qed

text \<open>C14: the message log of a replay tells what was played.  Where the handle holds the run of a list of
  decisions from a world, the log from any attempt on shows, in order and as far as the screen reaches, one row
  per decision that matches the filter: the transition of the world for an accepted decision, and for a
  refused one the code, field, item and message of the refusal.\<close>

theorem message_log_tells_the_run:
  assumes "holds_run rp owner w ds" and "length ds < 2 ^ 64" and "roomy options" and "first \<le> length ds"
  shows "\<exists>t. render_message_log_ascii (Some rp) (of_nat first) options wanted = Inr t \<and>
    shows_rows options 3 (take (unat (ro_rows options) - 7)
      (filter (\<lambda>row. wanted = [] \<or> contains (ascii_text wanted) row) (drop first (told 0 0 w ds)))) t"
proof -
  have "ascii_text wanted = [] \<longleftrightarrow> wanted = []" by (simp add: ascii_text_def)
  then show ?thesis
    using log_shows_rows [OF run_rows(1) [OF assms(1,2)] assms(3), of first wanted] assms(4) run_rows [OF assms(1,2)] by simp
qed

lemma sample_terminal: "roomy default_render_options"
  by (simp add: roomy_def default_render_options_def)

lemma message_log_tells_the_run_witness:
  "\<exists>rp t. replay_audits rp \<noteq> [] \<and>
    render_message_log_ascii (Some rp) 0 default_render_options [] = Inr t \<and>
    shows_rows default_render_options 3 (told 0 0 (reloaded 1 sample_world) sample_decisions) t"
proof -
  obtain rp where run: "holds_run rp 1 (reloaded 1 sample_world) sample_decisions" by (rule sample_opened)
  have n: "length sample_decisions < 2 ^ 64" "length (told 0 0 (reloaded 1 sample_world) sample_decisions) = 2"
    by (simp_all add: sample_decision_count)
  have "0 \<le> length sample_decisions" by simp
  from message_log_tells_the_run [OF run n(1) sample_terminal this, of "[]"] n(2)
  obtain t where "render_message_log_ascii (Some rp) 0 default_render_options [] = Inr t"
    "shows_rows default_render_options 3 (told 0 0 (reloaded 1 sample_world) sample_decisions) t"
    by (auto simp: default_render_options_def)
  moreover have "replay_audits rp \<noteq> []" using run sample_played(2) by (simp add: holds_run_def)
  ultimately show ?thesis by blast
qed

lemma every_attempt_can_be_inspected_witness:
  "\<exists>rp t. attempts rp = 2 \<and> render_replay_inspector_ascii (Some rp) 1 default_render_options = Inr t"
proof -
  obtain rp where run: "holds_run rp 1 (reloaded 1 sample_world) sample_decisions" by (rule sample_opened)
  then have real: "authentic rp (reloaded 1 sample_world)" by (simp add: holds_run_def)
  have n: "attempts rp = 2" using run_rows(2) [OF run] by (simp add: sample_decision_count)
  then have "attempts rp < 2 ^ 64" by simp
  from every_attempt_can_be_inspected [OF real this sample_terminal, of 1] n show ?thesis
    by (auto split: sum.splits)
qed

end
