(* ===== verification/FD_History.thy ===== *)
theory FD_History
  imports FD_Client FD_Logged
begin

text \<open>
  The history of a world: every decision the C++ wrapper records was accepted by the simulation, so the
  replay that is built from it opens again, plays back to the current world, and is what the session shows.
\<close>

section \<open>Runs in which everything is accepted\<close>

primrec all_accepted :: "fd_world \<Rightarrow> fd_joint_decision list \<Rightarrow> bool" where
  "all_accepted w [] \<longleftrightarrow> True"
| "all_accepted w (d # ds) \<longleftrightarrow> accepts w d \<and> all_accepted (stepped_world w) ds"

lemma all_accepted_append:
  "all_accepted w (ds @ [d]) \<longleftrightarrow> all_accepted w ds \<and> accepts (world_at w (length ds)) d"
  by (induction ds arbitrary: w) simp_all

lemma all_accepted_played:
  "all_accepted w ds \<Longrightarrow> played_audits k w ds = [] \<and> length (played_records w ds) = length ds"
  by (induction ds arbitrary: k w) simp_all

lemma all_accepted_decisions:
  "all_accepted w ds \<Longrightarrow> \<forall>d\<in>set ds. staged_decision d = d \<Longrightarrow> map rr_decision (played_records w ds) = ds"
proof (induction ds arbitrary: w)
  case (Cons d ds)
  have "rr_decision (record_of w d) = staged_decision d" by (simp add: record_of_def staged_record_def step_report_def)
  then show ?case using Cons by simp
qed simp

lemma all_accepted_ticks: "all_accepted w ds \<Longrightarrow> k < length ds \<Longrightarrow> w_tick (world_at w k) \<le> - 25"
proof (induction ds arbitrary: w k)
  case (Cons d ds)
  then show ?case using Cons.IH [of "stepped_world w" "k - 1"] by (cases k) (auto simp: step_accepts_def)
qed simp

section \<open>A world and its reloaded copy\<close>

lemma stepped_reloaded: "stepped_world (reloaded i w) = reloaded i (stepped_world w)"
proof -
  have "(reloaded i w)\<lparr>w_tick := t\<rparr> = reloaded i (w\<lparr>w_tick := t\<rparr>)" for t by (simp add: reloaded_def)
  then show ?thesis by (simp add: stepped_world_eq reloaded_fields state_hash_reloaded reloaded_retick)
qed

lemma region_reloaded [simp]: "w_region (reloaded i w) = w_region w"
  by (simp add: reloaded_def)

lemma accepts_reloaded: "accepts (reloaded i w) d = accepts w d"
  by (simp add: step_accepts_def canonical_decision_def reloaded_fields pass_action_def)

lemma pass_decision_reloaded: "pass_decision (reloaded i w) = pass_decision w"
  by (simp add: pass_decision_def reloaded_fields)

lemma pass_decision_staged: "staged_decision (pass_decision w) = pass_decision w"
  by (simp add: staged_decision_eq pass_decision_def pass_sample_def)

section \<open>Saving through the wrapper\<close>

lemma save_handle_Inr:
  assumes "world_shape w" and "length (save_file w) \<le> unat (cx_max_file_bytes ctx)"
  shows "save_handle ctx (Some w) = Inr (save_file w)"
proof -
  let ?n = "length (save_file w)"
  have n: "unat (of_nat ?n :: u64) = ?n" using save_file_bound [OF assms(1)] by (intro unat_of_nat_u64) simp
  then have "\<not> of_nat ?n > cx_max_file_bytes ctx" using assms(2) by (simp add: word_less_nat_alt)
  moreover have "?n \<noteq> 0" by (simp add: length_save_file)
  ultimately show ?thesis
    using save_into [OF assms, of "of_nat ?n" "replicate ?n 0" 0 "Some fd_diagnostic_init"] n fd_save_size_exact [OF assms(1), of 0]
    by (simp add: save_handle_def fd_world_save_size_def vector_data_def split_beta)
qed

lemma save_handle_Inl:
  assumes "world_shape w" and "\<not> length (save_file w) \<le> unat (cx_max_file_bytes ctx)"
  shows "\<exists>e. save_handle ctx (Some w) = Inl e"
proof -
  let ?n = "length (save_file w)"
  have n: "unat (of_nat ?n :: u64) = ?n" using save_file_bound [OF assms(1)] by (intro unat_of_nat_u64) simp
  then have "of_nat ?n > cx_max_file_bytes ctx" using assms(2) by (simp add: word_less_nat_alt)
  then show ?thesis using fd_save_size_exact [OF assms(1), of 0]
    by (simp add: save_handle_def fd_world_save_size_def split_beta)
qed

section \<open>The history of a world\<close>

definition history :: "nat \<Rightarrow> fd_world \<Rightarrow> world_state \<Rightarrow> bool" where
  "history i w s \<longleftrightarrow> storable w \<and> w_tick w = 0 \<and> ws_initial_save s = save_file w \<and>
     (\<forall>d\<in>set (ws_decisions s). decision_shape d \<and> staged_decision d = d) \<and>
     all_accepted (reloaded i w) (ws_decisions s) \<and>
     (\<exists>v. ws_handle s = Some v \<and> w_context v = i \<and>
        reloaded i v = world_at (reloaded i w) (length (ws_decisions s)))"

lemma history_world:
  assumes "history i w s" and "ws_handle s = Some v"
  shows "world_valid v" "length (w_state_sha256 v) = 32" "sound (reloaded i v)"
proof -
  let ?n = "length (ws_decisions s)"
  have v: "reloaded i v = world_at (reloaded i w) ?n" and st: "storable (reloaded i w)"
    and ds: "all_accepted (reloaded i w) (ws_decisions s)"
    using assms storable_reloaded by (auto simp: history_def)
  have "sound (reloaded i w)" using st by (simp add: storable_sound)
  from run_sound [OF this] show s: "sound (reloaded i v)" unfolding v using all_accepted_ticks [OF ds] by blast
  then have "world_valid (reloaded i v)" "length (w_state_sha256 (reloaded i v)) = 32"
    by (simp_all add: sound_def world_shape_def)
  then show "world_valid v" "length (w_state_sha256 v) = 32" by (simp_all add: reloaded_fields)
qed

lemma fresh_history:
  assumes "storable w" and "w_tick w = 0" and "w_context w = i"
  shows "history i w \<lparr>ws_handle = Some w, ws_initial_save = save_file w, ws_decisions = []\<rparr>"
  using assms by (simp add: history_def)


section \<open>An explicit pass is recorded\<close>

lemma valid_factions:
  assumes "world_valid v" and "seat < 2"
  shows "[en_id (w_entities v ! 4), en_id (w_entities v ! 5)] ! seat = rg_foreign_faction_ids (w_region v) ! seat"
proof -
  obtain rc n outlet where "fd_validate_ownership_graph v rc n outlet" using assms(1) by (auto simp: world_valid_def)
  then have "rg_foreign_faction_ids (w_region v) ! 0 = en_id (w_entities v ! 4)"
    "rg_foreign_faction_ids (w_region v) ! 1 = en_id (w_entities v ! 5)"
    by (auto simp: fd_validate_ownership_graph_def Let_def split: if_splits)
  then show ?thesis using less_2_cases [OF assms(2)] by auto
qed

lemma explicit_decision_pass:
  assumes "world_valid v"
  shows "explicit_decision (fd_fill_world_info v out) = pass_decision v"
  using valid_factions [OF assms, of 0] valid_factions [OF assms, of 1]
  by (simp add: explicit_decision_def pass_decision_def fd_fill_world_info_def explicit_pass_def pass_sample_def upt_2
      numeral_eq_Suc)

lemma seats_checked:
  assumes "world_valid v" and seat: "seat < 2"
  shows "check_seat (Some v) (fd_fill_world_info v out) seat = Inr ()"
proof -
  let ?actor = "rg_foreign_faction_ids (w_region v) ! seat"
  have a: "fd_is_foreign_actor v ?actor" using seat by (rule foreign_actor_seat)
  have "first_nonzero (replicate 4 0) = None" by (auto simp: first_nonzero_def find_None_iff)
  moreover have "wi_foreign_faction_ids (fd_fill_world_info v out) ! seat = ?actor"
    using valid_factions [OF assms] by (simp add: fd_fill_world_info_def)
  ultimately show ?thesis
    using a by (simp add: check_seat_def fd_action_mask_query_def fd_action_validate_def blank_prefix_def blank_mask_def
        explicit_pass_def fd_input_struct_valid_def fd_output_struct_valid_def pass_legal_def Let_def split_beta)
qed

lemma step_explicit_pass_of:
  assumes "ws_handle s = Some v" and "world_valid v"
  shows "step_explicit_pass reserve (Some s) =
    (if reserve (Suc (length (ws_decisions s))) \<noteq> Reserved
     then (Some s, Inl (wrapper_error FD_ERR_OUT_OF_MEMORY (str ''could not reserve wrapper replay history before stepping'')))
     else case fd_world_step (Some v) (Some (pass_decision v)) (Some blank_step) (Some fd_diagnostic_init) of
       ((result, diag), handle, output) \<Rightarrow>
         if result \<noteq> FD_OK then (Some (s\<lparr>ws_handle := handle\<rparr>), Inl (error_from result (the diag)))
         else (Some (append_decision (pass_decision v) (s\<lparr>ws_handle := handle\<rparr>)), Inr (the output)))"
proof -
  define out where "out = blank_info\<lparr>wi_struct_size := 232, wi_abi_version := FD_ABI_VERSION\<rparr>"
  have "wrapper_info (Some s) = Inr (fd_fill_world_info v out)"
    using assms by (simp add: wrapper_info_def checked_query_def wrapper_valid_def wrapper_handle_def fd_world_get_info_def
        out_def fd_output_struct_valid_def split_beta)
  moreover have "collect (check_seat (Some v) (fd_fill_world_info v out)) [0..<2] = Inr [(), ()]"
    using assms(2) by (simp add: upt_2 seats_checked)
  ultimately show ?thesis
    using assms by (simp add: step_explicit_pass_def wrapper_valid_def wrapper_handle_def prepare_decisions_def
        explicit_decision_pass Let_def)
qed

lemma passed_history:
  assumes "history i w s" and "ws_handle s = Some v" and "accepts v (pass_decision v)"
  shows "history i w (append_decision (pass_decision v) (s\<lparr>ws_handle := Some (stepped_world v)\<rparr>))"
proof -
  have v: "reloaded i v = world_at (reloaded i w) (length (ws_decisions s))" using assms by (simp add: history_def)
  have "accepts (world_at (reloaded i w) (length (ws_decisions s))) (pass_decision v)"
    using assms(3) by (simp add: accepts_reloaded flip: v)
  moreover have "reloaded i (stepped_world v) = world_at (reloaded i w) (Suc (length (ws_decisions s)))"
    by (simp add: world_at_Suc stepped_reloaded flip: v)
  ultimately show ?thesis
    using assms pass_decision_shape [OF history_world(2) [OF assms(1,2)]] pass_decision_staged
    by (auto simp: history_def append_decision_def all_accepted_append stepped_world_eq)
qed

lemma explicit_pass_outcome:
  assumes "history i w s" and "ws_handle s = Some v"
  shows "case step_explicit_pass reserve (Some s) of (s', r) \<Rightarrow> \<exists>t. s' = Some t \<and> history i w t \<and>
    (if reserve (Suc (length (ws_decisions s))) = Reserved \<and> w_tick v \<le> - 25
     then r = Inr (step_report v (pass_decision v)) \<and> ws_handle t = Some (stepped_world v) \<and>
       ws_decisions t = ws_decisions s @ [pass_decision v]
     else t = s \<and> (\<exists>e. r = Inl e))"
proof -
  note world = history_world [OF assms]
  show ?thesis
  proof (cases "reserve (Suc (length (ws_decisions s))) = Reserved \<and> w_tick v \<le> - 25")
    case True
    then have acc: "accepts v (pass_decision v)" using world(1) by (simp add: pass_decision_accepted)
    then obtain d where st: "fd_world_step (Some v) (Some (pass_decision v)) (Some blank_step) (Some fd_diagnostic_init) =
        ((FD_OK, d), Some (stepped_world v), Some (step_report v (pass_decision v)))"
      using fd_world_step_accepted [of v "pass_decision v" blank_step "Some fd_diagnostic_init"] by auto
    define t where "t = append_decision (pass_decision v) (s\<lparr>ws_handle := Some (stepped_world v)\<rparr>)"
    have "history i w t" unfolding t_def by (rule passed_history [OF assms acc])
    then show ?thesis
      using True st assms(2) by (simp add: step_explicit_pass_of world(1) t_def [symmetric]) (simp add: t_def append_decision_def)
  next
    case False
    show ?thesis
    proof (cases "reserve (Suc (length (ws_decisions s))) = Reserved")
      case True
      then have "\<not> accepts v (pass_decision v)" using False by (simp add: pass_decision_accepted)
      then obtain c where "fd_world_step (Some v) (Some (pass_decision v)) (Some blank_step) (Some fd_diagnostic_init) =
          ((c, Some (refusal v (pass_decision v))), Some v, Some blank_step)" "c \<noteq> FD_OK"
        by (rule refused_step)
      moreover have "s\<lparr>ws_handle := Some v\<rparr> = s" using assms(2) by simp
      ultimately show ?thesis
        using False True assms by (simp add: step_explicit_pass_of world(1))
    qed (use assms world(1) in \<open>simp add: step_explicit_pass_of\<close>)
  qed
qed

text \<open>C12: a pass of both seats through the wrapper.  In a world with a history it succeeds exactly when the
  history has room for one more decision and the tick counter for 24 more ticks: the legal masks allow it,
  the validator accepts it and the step does too.  It then advances the world and appends the decision,
  so the history goes on; otherwise world and history are unchanged.\<close>

theorem explicit_pass_extends_history:
  assumes "history i w s" and "ws_handle s = Some v"
  shows "case step_explicit_pass reserve (Some s) of (s', r) \<Rightarrow> \<exists>t. s' = Some t \<and> history i w t \<and>
    (if reserve (Suc (length (ws_decisions s))) = Reserved \<and> w_tick v \<le> - 25
     then r = Inr (step_report v (pass_decision v)) \<and> ws_handle t = Some (stepped_world v) \<and>
       ws_decisions t = ws_decisions s @ [pass_decision v]
     else t = s \<and> (\<exists>e. r = Inl e))"
  by (rule explicit_pass_outcome [OF assms])

text \<open>A world just made: the sample world, loaded into context 1.\<close>

definition sample_state :: world_state where
  "sample_state = (let v = reloaded 1 sample_world in \<lparr>ws_handle = Some v, ws_initial_save = save_file v, ws_decisions = []\<rparr>)"

lemma sample_state_history: "history 1 (reloaded 1 sample_world) sample_state"
  unfolding sample_state_def Let_def
  using storable_reloaded [OF sample_storable, of 1] sample_tick
  by (intro fresh_history) (simp_all add: reloaded_fields reloaded_context)

lemma explicit_pass_extends_history_witness:
  "step_explicit_pass (\<lambda>_. Reserved) (Some sample_state) =
     (let v = reloaded 1 sample_world
      in (Some (sample_state\<lparr>ws_handle := Some (stepped_world v), ws_decisions := [pass_decision v]\<rparr>),
          Inr (step_report v (pass_decision v))))"
proof -
  have "ws_handle sample_state = Some (reloaded 1 sample_world)" by (simp add: sample_state_def Let_def)
  from explicit_pass_extends_history [OF sample_state_history this, of "\<lambda>_. Reserved"]
  show ?thesis
    using sample_tick
    by (auto simp: Let_def sample_state_def reloaded_fields history_def intro!: world_state.equality split: prod.splits)
qed

end
