(* ===== verification/FD_Playable.thy ===== *)
theory FD_Playable
  imports FD_History
begin

text \<open>
  The recorded history of a world plays back: the replay that the wrapper builds from it opens, and playing
  it from its first to its last record gives the world and its history again.
\<close>

section \<open>Contexts of the same client\<close>

definition kin :: "'u fd_context \<Rightarrow> 'u fd_context \<Rightarrow> bool" where
  "kin ctx ctx' \<longleftrightarrow> (\<exists>n h. charged n h ctx ctx')"

lemma kin_charged: "charged n h ctx ctx' \<Longrightarrow> kin ctx ctx'"
  by (auto simp: kin_def)

lemma kin_trans: "kin a b \<Longrightarrow> kin b c \<Longrightarrow> kin a c"
  using charged_trans by (fastforce simp: kin_def)

lemma kin_same:
  assumes "kin ctx ctx'"
  shows "cx_id ctx' = cx_id ctx" "cx_max_file_bytes ctx' = cx_max_file_bytes ctx"
    "affords ctx' w = affords ctx w" "buildable ctx' w ds = buildable ctx w ds"
proof -
  obtain n h where c: "charged n h ctx ctx'" using assms by (auto simp: kin_def)
  show "cx_id ctx' = cx_id ctx" "cx_max_file_bytes ctx' = cx_max_file_bytes ctx"
    using charged_fields [OF c] by simp_all
  show "affords ctx' w = affords ctx w" "buildable ctx' w ds = buildable ctx w ds"
    using affords_charged [OF c] buildable_charged [OF c] by simp_all
qed

lemma world_deleter_dispose: "world_deleter ctx (Some w) = dispose ctx (Some w)"
  by (simp add: world_deleter_def dispose_def)

section \<open>The replay of the history\<close>

lemma vector_data_some: "bs \<noteq> [] \<Longrightarrow> vector_data bs = Some bs"
  by (simp add: vector_data_def)

lemma replay_of_not_empty: "replay_of i w ds \<noteq> []"
proof -
  have "32 \<le> length (replay_of i w ds)" by (simp add: replay_of_def replay_file_def Let_def)
  then show ?thesis by auto
qed

lemma save_file_not_empty: "save_file w \<noteq> []"
  by (metis length_save_file add_is_0 list.size(3) zero_neq_numeral)

lemma replay_of_reloaded [simp]: "replay_of i (reloaded j w) ds = replay_of i w ds"
  by (simp add: replay_of_def)

lemma buildable_reloaded [simp]: "buildable ctx (reloaded i w) ds = buildable ctx w ds"
  by (simp add: buildable_def)

lemma null_decisions:
  "fd_replay_build_size ctx w None 0 x diag = fd_replay_build_size ctx w (Some []) 0 x diag"
  "fd_replay_build ctx w None 0 b c x diag = fd_replay_build ctx w (Some []) 0 b c x diag"
proof -
  have e: "FD_Build.attempts None 0 = FD_Build.attempts (Some []) 0" by (simp add: FD_Build.attempts_def)
  have c: "fd_replay_classify_attempts ctx w None 0 x y diag = fd_replay_classify_attempts ctx w (Some []) 0 x y diag" for ctx x y diag
    unfolding fd_replay_classify_attempts_def e by simp
  show s: "fd_replay_build_size ctx w None 0 x diag = fd_replay_build_size ctx w (Some []) 0 x diag" for ctx x diag
    unfolding fd_replay_build_size_def c by simp
  have t: "fd_replay_build_into ctx w None 0 b n x diag = fd_replay_build_into ctx w (Some []) 0 b n x diag" for ctx b n x diag
    unfolding fd_replay_build_into_def c e by simp
  show "fd_replay_build ctx w None 0 b c x diag = fd_replay_build ctx w (Some []) 0 b c x diag"
    unfolding fd_replay_build_def s t by simp
qed

lemma decision_data:
  "fd_replay_build_size ctx w (if ds = [] then None else Some ds) (of_nat (length ds)) x diag =
     fd_replay_build_size ctx w (Some ds) (of_nat (length ds)) x diag"
  "fd_replay_build ctx w (if ds = [] then None else Some ds) (of_nat (length ds)) b c x diag =
     fd_replay_build ctx w (Some ds) (of_nat (length ds)) b c x diag"
  by (simp_all add: null_decisions)

text \<open>What the wrapper does with the world it has loaded: measure, then build into a buffer of that size.\<close>

lemma measured_and_built:
  fixes ctx :: "'u fd_context"
  assumes st: "storable v" "w_tick v = 0" "\<forall>d\<in>set ds. decision_shape d" "length ds < 2 ^ 64" and b: "buildable ctx v ds"
  defines "whole \<equiv> replay_of (cx_id ctx) v ds"
  obtains d1 c1 d2 c2 where
    "fd_replay_build_size ctx (Some v) (Some ds) (of_nat (length ds)) (Some 0) diag = ((FD_OK, d1), c1, Some (of_nat (length whole)))"
    "fd_replay_build c1 (Some v) (Some ds) (of_nat (length ds)) (Some (replicate (length whole) 0)) (of_nat (length whole)) (Some 0) diag =
       ((FD_OK, d2), c2, Some whole, Some (of_nat (length whole)))"
    "charged 0 0 ctx c2" "unat (of_nat (length whole) :: u64) = length whole"
  using st
proof (cases rule: build_size_cases [where ctx = ctx and x = 0 and diag = diag])
  case (failed r ctx' y)
  then show thesis using b by simp
next
  case (sized d1 c1)
  note sized = sized [folded whole_def]
  have n: "unat (of_nat (length whole) :: u64) = length whole"
    using sized(3) unat_lt_u64 [of "cx_max_file_bytes ctx"] by (simp add: unat_of_nat_u64)
  have c1: "cx_id c1 = cx_id ctx" "buildable c1 v ds"
    using charged_fields(3) [OF sized(2)] buildable_charged [OF sized(2)] b by simp_all
  have room: "unat (of_nat (length whole) :: u64) \<le> length (replicate (length whole) (0 :: u8))" by (simp add: n)
  from st room show thesis
  proof (cases rule: build_cases [where ctx = c1 and k = 0 and diag = diag])
    case (failed r ctx')
    then show thesis using c1 by (simp add: n flip: whole_def)
  next
    case (built d2 c2)
    then have "charged 0 0 ctx c2" using charged_trans [OF sized(2)] by fastforce
    then show thesis using that sized(1) built(1) n by (simp add: c1 flip: whole_def)
  qed
qed

lemma built_history:
  fixes ctx :: "'u fd_context"
  assumes h: "history (cx_id ctx) w s" and n: "length (ws_decisions s) < 2 ^ 64" and b: "buildable ctx w (ws_decisions s)"
  obtains ctx' where "build_replay ctx (Some s) = (ctx', Inr (replay_of (cx_id ctx) w (ws_decisions s)))" "charged 0 0 ctx ctx'"
proof -
  let ?i = "cx_id ctx" and ?ds = "ws_decisions s"
  define v where "v = reloaded ?i w"
  have st: "storable w" and zero: "w_tick w = 0" and save: "ws_initial_save s = save_file w"
    and shapes: "\<forall>d\<in>set ?ds. decision_shape d" and valid: "wrapper_valid (Some s)"
    using h by (auto simp: history_def wrapper_valid_def)
  have v: "storable v" "w_tick v = 0" using storable_reloaded [OF st] zero by (simp_all add: v_def reloaded_fields)
  have "affords ctx w" using b by (simp add: buildable_def Let_def)
  then obtain d c0 where l: "fd_world_load (Some ctx) (Some (save_file w)) (of_nat (length (save_file w))) (Some None)
      (Some fd_diagnostic_init) = ((FD_OK, d), Some c0, Some (Some v))"
    unfolding v_def by (rule affords_loads [OF _ st])
  then have c0: "charged (1544 + tile_bytes v) 1 ctx c0" by (cases rule: load_cases) auto
  have id: "cx_id c0 = ?i" using charged_fields(3) [OF c0] .
  have b0: "buildable c0 v ?ds" using b buildable_charged [OF c0] by (simp add: v_def)
  obtain d1 c1 d2 c2 where m:
    "fd_replay_build_size c0 (Some v) (Some ?ds) (of_nat (length ?ds)) (Some 0) (Some fd_diagnostic_init) =
       ((FD_OK, d1), c1, Some (of_nat (length (replay_of (cx_id c0) v ?ds))))"
    "fd_replay_build c1 (Some v) (Some ?ds) (of_nat (length ?ds)) (Some (replicate (length (replay_of (cx_id c0) v ?ds)) 0))
       (of_nat (length (replay_of (cx_id c0) v ?ds))) (Some 0) (Some fd_diagnostic_init) =
       ((FD_OK, d2), c2, Some (replay_of (cx_id c0) v ?ds), Some (of_nat (length (replay_of (cx_id c0) v ?ds))))"
    "charged 0 0 c0 c2" "unat (of_nat (length (replay_of (cx_id c0) v ?ds)) :: u64) = length (replay_of (cx_id c0) v ?ds)"
    by (rule measured_and_built [OF v shapes n b0])
  have "charged (1544 + tile_bytes v) 1 ctx c2" using charged_trans [OF c0 m(3)] by simp
  then have "charged 0 0 ctx (dispose c2 (Some v))" by (rule dispose_loaded) simp
  moreover have "replay_of (cx_id c0) v ?ds = replay_of ?i w ?ds" by (simp add: v_def id)
  moreover have "vector_data (replicate (length (replay_of ?i w ?ds)) 0) = Some (replicate (length (replay_of ?i w ?ds)) 0)"
    by (simp add: vector_data_def replay_of_not_empty)
  ultimately show thesis
    using that l m valid
    by (simp add: build_replay_def build_replay_of_def save vector_data_some save_file_not_empty decision_data Let_def
        world_deleter_dispose)
qed

section \<open>Playing it back\<close>

lemma opened_history:
  fixes ctx :: "'u fd_context"
  assumes st: "storable w" "w_tick w = 0" "\<forall>d\<in>set ds. decision_shape d" "length ds < 2 ^ 64" and b: "buildable ctx w ds"
  obtains ctx' rp where "context_open_replay (Some ctx) (replay_of (cx_id ctx) w ds) = (Some ctx', Inr rp)" "kin ctx ctx'"
    "holds_run rp (cx_id ctx) (reloaded (cx_id ctx) w) ds"
proof -
  let ?whole = "replay_of (cx_id ctx) w ds"
  obtain d ctx' rp where o: "fd_replay_open (Some ctx) (Some (?whole @ [])) (of_nat (length ?whole)) (Some None)
      (Some fd_diagnostic_init) = ((FD_OK, d), Some ctx', Some (Some rp))" and h: "holds_run rp (cx_id ctx) (reloaded (cx_id ctx) w) ds"
    by (rule built_file_opens [OF st b])
  have "kin ctx ctx'"
    using replay_open_charged [of ctx ?whole "of_nat (length ?whole)" None "Some fd_diagnostic_init"] o
    by (auto intro: kin_charged)
  moreover have "\<not> 2 ^ 64 - 1 < length ?whole"
    using b unat_lt_u64 [of "cx_max_file_bytes ctx"] by (simp add: buildable_def Let_def)
  ultimately show thesis
    using that o h by (simp add: context_open_replay_def vector_data_some replay_of_not_empty)
qed

lemma created_world:
  fixes ctx :: "'u fd_context"
  assumes h: "holds_run rp (cx_id ctx) v ds" and room: "affords ctx v"
  obtains ctx' where "create_world ctx (Some rp) = (ctx', Inr \<lparr>ws_handle = Some v, ws_initial_save = save_file v, ws_decisions = []\<rparr>)"
    "kin ctx ctx'"
proof -
  have a: "storable v" "reloaded (cx_id ctx) v = v" and rp: "rp_context rp = cx_id ctx" "rp_tick_zero_save rp = save_file v"
    "rp_tick_zero_save_size rp = of_nat (length (save_file v))"
    using h by (auto simp: holds_run_def authentic_def)
  obtain d ctx' where l: "fd_world_load (Some ctx) (Some (save_file v)) (of_nat (length (save_file v))) (Some None)
      (Some fd_diagnostic_init) = ((FD_OK, d), Some ctx', Some (Some (reloaded (cx_id ctx) v)))"
    by (rule affords_loads [OF room a(1)])
  then have k: "kin ctx ctx'" by (cases rule: load_cases) (auto intro: kin_charged)
  have "save_handle ctx' (Some v) = Inr (save_file v)"
    using a(1) room kin_same(2) [OF k] by (intro save_handle_Inr) (simp_all add: affords_def storable_def)
  then have "create_world ctx (Some rp) = (ctx', Inr \<lparr>ws_handle = Some v, ws_initial_save = save_file v, ws_decisions = []\<rparr>)"
    using l rp a(2) by (simp add: create_world_def fd_replay_create_world_def)
  then show thesis using k that by blast
qed

lemma info_of_run:
  "replay_info (Some rp) = Inr (blank_replay_info\<lparr>ri_decision_count := rp_record_count rp, ri_cursor := rp_cursor rp,
     ri_tick_zero_save_bytes := rp_tick_zero_save_size rp, ri_checkpoint_count := rp_checkpoint_count rp,
     ri_audit_count := rp_audit_count rp, ri_tick_zero_state_sha256 := rp_tick_zero_hash rp\<rparr>)"
  by (simp add: replay_info_def checked_query_def fd_replay_get_info_def fd_output_struct_valid_def blank_replay_info_def split_beta)

lemma appended: "fold append_decision ds s = s\<lparr>ws_decisions := ws_decisions s @ ds\<rparr>"
  by (induction ds arbitrary: s) (simp_all add: append_decision_def)

lemma advanced_history:
  fixes ctx :: "'u fd_context"
  assumes h: "holds_run rp (cx_id ctx) v ds" and room: "affords ctx v" and acc: "all_accepted v ds"
    and staged: "\<forall>d\<in>set ds. staged_decision d = d" and free: "\<And>n. reserve n = Reserved"
    and s: "ws_handle s = Some v" "ws_decisions s = []"
  obtains ctx' rp' status where
    "advance reserve ctx (Some rp) (Some s) (rp_record_count rp) =
       (ctx', Some rp', Some (s\<lparr>ws_handle := Some (world_at v (length ds)), ws_decisions := ds\<rparr>), Inr status)"
    "rs_complete status = 1"
proof -
  let ?n = "rp_record_count rp"
  have a: "authentic rp v" "storable v" "cx_id ctx = rp_context rp" "rp_cursor rp = 0"
    and rs: "replay_records rp = played_records v ds" "length (replay_records rp) = unat ?n"
    using h by (auto simp: holds_run_def authentic_def)
  have n: "unat ?n = length ds" using rs all_accepted_played [OF acc] by simp
  have records: "collect (\<lambda>offset. replay_record (Some rp) (of_nat offset)) [0..<unat ?n] =
      Inr (map (\<lambda>i. record_view i (replay_records rp ! i)) [0..<unat ?n])"
    using reported_record [OF a(1)] rs(2) by (intro collect_map) simp
  have decisions: "map rw_decision (map (\<lambda>i. record_view i (replay_records rp ! i)) [0..<unat ?n]) = ds"
  proof -
    have "map rw_decision (map (\<lambda>i. record_view i (replay_records rp ! i)) [0..<unat ?n]) = map rr_decision (replay_records rp)"
      using rs(2) by (intro nth_equalityI) (simp_all add: record_view_def)
    then show ?thesis using all_accepted_decisions [OF acc staged] rs(1) by simp
  qed
  have out: "fd_output_struct_valid (Some (rs_struct_size fresh_status, rs_abi_version fresh_status)) 72"
    by (simp add: fresh_status_def fd_output_struct_valid_def)
  have clone: "fst (fst (fd_world_clone_via_save ctx (Some v) (Some None) (Some fd_diagnostic_init))) = FD_OK"
    using a(2)
  proof (cases rule: clone_cases [where ctx = ctx and old = None and diag = "Some fd_diagnostic_init"])
    case (failed r ctx')
    then show ?thesis using room by simp
  qed simp
  have "case fd_replay_advance ctx (Some rp) (Some v) ?n (Some fresh_status) (Some fd_diagnostic_init) of
      (r, ctx', rp', v', out') \<Rightarrow> fst r = FD_OK \<and> rp' = Some (rp\<lparr>rp_cursor := ?n\<rparr>) \<and> v' = Some (world_at v (length ds)) \<and>
        out' = Some (advance_status (rp\<lparr>rp_cursor := ?n\<rparr>) (world_at v (length ds)) ?n)"
    using advance_run [OF a(1) _ a(3) out, of ?n "Some fd_diagnostic_init"] clone a(4) n
    by (auto simp: Let_def split: prod.splits)
  then obtain r ctx' where "fst r = FD_OK" and adv: "fd_replay_advance ctx (Some rp) (Some v) ?n (Some fresh_status) (Some fd_diagnostic_init) =
      (r, ctx', Some (rp\<lparr>rp_cursor := ?n\<rparr>), Some (world_at v (length ds)),
       Some (advance_status (rp\<lparr>rp_cursor := ?n\<rparr>) (world_at v (length ds)) ?n))"
    by (cases "fd_replay_advance ctx (Some rp) (Some v) ?n (Some fresh_status) (Some fd_diagnostic_init)") simp
  then obtain d where ok: "r = (FD_OK, d)" by (cases r) simp
  define status where "status = advance_status (rp\<lparr>rp_cursor := ?n\<rparr>) (world_at v (length ds)) ?n"
  have "rs_complete status = 1" "rs_decisions_advanced status = ?n" by (simp_all add: status_def advance_status_def)
  then show thesis
    using that adv [unfolded ok] records decisions s a(4) free
    by (simp add: advance_def wrapper_valid_def wrapper_handle_def info_of_run Let_def prepare_decisions_def appended
        flip: status_def)
qed

lemma played_back:
  fixes ctx :: "'u fd_context"
  assumes st: "storable w" "w_tick w = 0" and ds: "\<forall>d\<in>set ds. decision_shape d \<and> staged_decision d = d"
    "length ds < 2 ^ 64" "all_accepted (reloaded (cx_id ctx) w) ds" and b: "buildable ctx w ds"
    and free: "\<And>n. reserve n = Reserved"
  defines "v \<equiv> reloaded (cx_id ctx) w"
  obtains ctx' rp where "replay_playback reserve ctx (Inr (replay_of (cx_id ctx) w ds)) =
    (ctx', Inr (rp, \<lparr>ws_handle = Some (world_at v (length ds)), ws_initial_save = save_file w, ws_decisions = ds\<rparr>))"
proof -
  have shapes: "\<forall>d\<in>set ds. decision_shape d" and staged: "\<forall>d\<in>set ds. staged_decision d = d" using ds(1) by simp_all
  obtain c1 rp where o: "context_open_replay (Some ctx) (replay_of (cx_id ctx) w ds) = (Some c1, Inr rp)" "kin ctx c1"
    "holds_run rp (cx_id ctx) v ds"
    unfolding v_def by (rule opened_history [OF st shapes ds(2) b])
  have h: "holds_run rp (cx_id c1) v ds" using o(3) kin_same(1) [OF o(2)] by simp
  have "affords ctx v" using b by (simp add: buildable_def v_def Let_def)
  then have room: "affords c1 v" using kin_same(3) [OF o(2)] by simp
  obtain c2 where c: "create_world c1 (Some rp) =
      (c2, Inr \<lparr>ws_handle = Some v, ws_initial_save = save_file v, ws_decisions = []\<rparr>)" "kin c1 c2"
    by (rule created_world [OF h room])
  let ?s = "\<lparr>ws_handle = Some v, ws_initial_save = save_file v, ws_decisions = []\<rparr>"
  have h2: "holds_run rp (cx_id c2) v ds" using h kin_same(1) [OF c(2)] by simp
  have room2: "affords c2 v" using room kin_same(3) [OF c(2)] by simp
  have acc: "all_accepted v ds" using ds(3) by (simp add: v_def)
  have s: "ws_handle ?s = Some v" "ws_decisions ?s = []" by simp_all
  obtain c3 rp' status where "advance reserve c2 (Some rp) (Some ?s) (rp_record_count rp) =
      (c3, Some rp', Some (?s\<lparr>ws_handle := Some (world_at v (length ds)), ws_decisions := ds\<rparr>), Inr status)"
    "rs_complete status = 1"
    by (rule advanced_history [OF h2 room2 acc staged free s])
  then show thesis
    using that [of c3 rp'] o(1) c(1)
    by (simp add: replay_playback_def info_of_run v_def)
qed

text \<open>C18: what the session records can be played back.  When a world has a history, and memory and limits
  admit its replay, the wrapper builds the replay, the bytes open in the context this leaves behind, a
  tick-zero world is made from it and advanced to the last record.  The world that comes out is the
  current world, rebound to the context, with the same decisions recorded, so it has the same history
  and can be recorded and played again.\<close>

theorem recorded_history_replays:
  fixes ctx :: "'u fd_context"
  assumes "history (cx_id ctx) w s" and "ws_handle s = Some v" and "length (ws_decisions s) < 2 ^ 64"
    and "buildable ctx w (ws_decisions s)" and "\<And>n. reserve n = Reserved"
  shows "case build_replay ctx (Some s) of (ctx1, built) \<Rightarrow>
    \<exists>ctx2 rp t. replay_playback reserve ctx1 built = (ctx2, Inr (rp, t)) \<and> history (cx_id ctx) w t \<and>
      ws_handle t = Some (reloaded (cx_id ctx) v) \<and> ws_decisions t = ws_decisions s \<and> ws_initial_save t = ws_initial_save s"
proof -
  let ?i = "cx_id ctx" and ?ds = "ws_decisions s"
  obtain c1 where built: "build_replay ctx (Some s) = (c1, Inr (replay_of ?i w ?ds))" "charged 0 0 ctx c1"
    by (rule built_history [OF assms(1,3,4)])
  note same = kin_same [OF kin_charged [OF built(2)]]
  have s: "storable w" "w_tick w = 0" "\<forall>d\<in>set ?ds. decision_shape d \<and> staged_decision d = d"
    "all_accepted (reloaded ?i w) ?ds" "reloaded ?i v = world_at (reloaded ?i w) (length ?ds)" "ws_initial_save s = save_file w"
    using assms(1,2) by (auto simp: history_def)
  have b: "buildable c1 w ?ds" "all_accepted (reloaded (cx_id c1) w) ?ds" using assms(4) s(4) same by simp_all
  obtain c2 rp where p: "replay_playback reserve c1 (Inr (replay_of (cx_id c1) w ?ds)) =
      (c2, Inr (rp, \<lparr>ws_handle = Some (world_at (reloaded (cx_id c1) w) (length ?ds)), ws_initial_save = save_file w,
        ws_decisions = ?ds\<rparr>))"
    by (rule played_back [OF s(1-3) assms(3) b(2) b(1) assms(5)])
  have "history ?i w \<lparr>ws_handle = Some (reloaded ?i v), ws_initial_save = save_file w, ws_decisions = ?ds\<rparr>"
    using s(1-4,6) by (simp add: history_def reloaded_context flip: s(5))
  then show ?thesis using built(1) p s(5,6) same(1) by simp
qed

text \<open>A world of one pass.\<close>

definition passed_state :: world_state where
  "passed_state = (let v = reloaded 1 sample_world
     in append_decision (pass_decision v) (sample_state\<lparr>ws_handle := Some (stepped_world v)\<rparr>))"

lemma sample_pass_accepted: "accepts (reloaded 1 sample_world) (pass_decision (reloaded 1 sample_world))"
  using sample_storable sample_tick by (simp add: pass_decision_accepted reloaded_fields storable_def)

lemma passed_state_history: "history 1 (reloaded 1 sample_world) passed_state"
  unfolding passed_state_def Let_def
  by (rule passed_history [OF sample_state_history _ sample_pass_accepted]) (simp add: sample_state_def Let_def)

lemma passed_buildable: "buildable roomy_context (reloaded 1 sample_world) [pass_decision (reloaded 1 sample_world)]"
proof -
  let ?v = "reloaded 1 sample_world"
  have "decision_shape (pass_decision ?v)"
    using sample_storable by (intro pass_decision_shape) (simp add: reloaded_fields storable_def world_shape_def)
  then have "length (replay_of 1 sample_world [pass_decision ?v]) = replay_size (length (save_file sample_world)) 1 0"
    using length_replay_of [OF sample_storable, of "[pass_decision ?v]" 1] sample_pass_accepted by simp
  moreover have "cx_id roomy_context = 1" "unat (cx_max_file_bytes roomy_context) = 67108864"
    by (simp_all add: roomy_context_def sample_context_def)
  ultimately show ?thesis
    using sample_affords sample_pass_accepted
    by (simp add: buildable_def Let_def replay_size_def sample_file_length del: One_nat_def)
qed

lemma recorded_history_replays_witness:
  "\<exists>ctx1 built ctx2 rp t. build_replay roomy_context (Some passed_state) = (ctx1, built) \<and>
     replay_playback (\<lambda>_. Reserved) ctx1 built = (ctx2, Inr (rp, t)) \<and>
     ws_handle t = Some (stepped_world (reloaded 1 sample_world)) \<and>
     ws_decisions t = [pass_decision (reloaded 1 sample_world)]"
proof -
  let ?v = "reloaded 1 sample_world"
  have h: "history (cx_id roomy_context) ?v passed_state" using passed_state_history by (simp add: sample_replay_owner)
  have s: "ws_handle passed_state = Some (stepped_world ?v)" "ws_decisions passed_state = [pass_decision ?v]"
    by (simp_all add: passed_state_def sample_state_def append_decision_def Let_def del: One_nat_def)
  have few: "length (ws_decisions passed_state) < 2 ^ 64" by (simp add: s(2))
  have b: "buildable roomy_context ?v (ws_decisions passed_state)" using passed_buildable by (simp only: s(2))
  have v: "reloaded 1 (stepped_world ?v) = stepped_world ?v" by (simp only: stepped_reloaded [symmetric] reloaded_twice)
  from recorded_history_replays [OF h s(1) few b, of "\<lambda>_. Reserved"] show ?thesis
    by (auto simp: s(2) sample_replay_owner v simp del: One_nat_def split: prod.splits)
qed

end
