(* ===== verification/FD_Launch.thy ===== *)
theory FD_Launch
  imports FD_Program FD_Playable FD_Frames
begin

text \<open>
  What the terminal program guarantees: its files are written whole or not at all, a replay it has written
  plays back to the world it was written for, and every run ends in one of the announced ways.
\<close>

section \<open>Files\<close>

abbreviation beside :: "bytes \<Rightarrow> bytes" where
  "beside path \<equiv> path @ str ''.tmp''"

lemma beside_other: "beside path \<noteq> path" "path \<noteq> beside path"
  by (simp_all add: str_def)

definition write_permitted :: "system_answers \<Rightarrow> bytes \<Rightarrow> bytes \<Rightarrow> file_system \<Rightarrow> bool" where
  "write_permitted a path bytes files \<longleftrightarrow> path \<noteq> [] \<and> length bytes \<le> 2 ^ 63 - 1 \<and> sa_status a \<and>
     files (beside path) = None \<and> sa_open a \<and> sa_write a \<and> sa_rename a"

lemma write_outcome:
  "case write_atomic a path bytes files of (files', r) \<Rightarrow>
     if write_permitted a path bytes files then r = Inr () \<and> files' = files(path \<mapsto> bytes)
     else (\<exists>e. r = Inl e) \<and>
       (if sa_remove a then files' = files else files'(beside path := files (beside path)) = files)"
proof -
  have "files(path := (files(beside path \<mapsto> bytes)) (beside path), beside path := None) = files(path \<mapsto> bytes)"
    if "files (beside path) = None" using that beside_other [of path] by (auto simp: fun_eq_iff)
  moreover have "files(beside path := None) = files" if "files (beside path) = None" using that by (auto simp: fun_eq_iff)
  ultimately show ?thesis
    by (auto simp: write_atomic_def write_permitted_def remove_file_def Let_def)
qed

text \<open>C17: output files are written whole or not at all.  When the path is not empty, the bytes fit a stream,
  no temporary file is in the way and the system carries every step out, the target holds exactly the
  bytes and every other file, the temporary one included, is as before.  In every other case there is
  an error, and no file has changed but perhaps the temporary one: it stays behind when the system
  also refuses to remove it.\<close>

theorem write_all_or_nothing:
  "case write_atomic a path bytes files of (files', r) \<Rightarrow>
     if write_permitted a path bytes files then r = Inr () \<and> files' = files(path \<mapsto> bytes)
     else (\<exists>e. r = Inl e) \<and>
       (if sa_remove a then files' = files else files'(beside path := files (beside path)) = files)"
  by (rule write_outcome)

section \<open>Passing many times\<close>

text \<open>A number of passes stops at the first that is refused; the history goes on for those before it.\<close>

lemma submitted_passes:
  assumes "history i w s" and "ws_handle s = Some v" and "submit_passes reserve n (Some s) = (s', r)"
  obtains t m where "s' = Some t" "history i w t" "ws_handle t = Some (world_at v m)" "m \<le> n"
    "length (ws_decisions t) = length (ws_decisions s) + m" "r = Inr () \<Longrightarrow> m = n"
  using assms
proof (induction n arbitrary: s v s' thesis)
  case 0
  then show ?case by (intro "0.prems"(1) [of s 0]) simp_all
next
  case (Suc n)
  have step: "case step_explicit_pass reserve (Some s) of (s1, r) \<Rightarrow> \<exists>t. s1 = Some t \<and> history i w t \<and>
    (if reserve (Suc (length (ws_decisions s))) = Reserved \<and> w_tick v \<le> - 25
     then r = Inr (step_report v (pass_decision v)) \<and> ws_handle t = Some (stepped_world v) \<and>
       ws_decisions t = ws_decisions s @ [pass_decision v]
     else t = s \<and> (\<exists>e. r = Inl e))"
    by (rule explicit_pass_outcome [OF Suc.prems(2,3)])
  show ?case
  proof (cases "reserve (Suc (length (ws_decisions s))) = Reserved \<and> w_tick v \<le> - 25")
    case True
    then obtain t where t: "step_explicit_pass reserve (Some s) = (Some t, Inr (step_report v (pass_decision v)))"
      "history i w t" "ws_handle t = Some (stepped_world v)" "ws_decisions t = ws_decisions s @ [pass_decision v]"
      using step by (auto split: prod.splits)
    from Suc.prems(4) t(1) have "submit_passes reserve n (Some t) = (s', r)" by simp
    from Suc.IH [OF _ t(2,3) this] obtain t' m where
      "s' = Some t'" "history i w t'" "ws_handle t' = Some (world_at (stepped_world v) m)" "m \<le> n"
      "length (ws_decisions t') = length (ws_decisions t) + m" "r = Inr () \<Longrightarrow> m = n" by blast
    then show ?thesis using t(4) by (intro Suc.prems(1) [of t' "Suc m"]) auto
  next
    case False
    then obtain e where "step_explicit_pass reserve (Some s) = (Some s, Inl e)"
      using step by (auto split: prod.splits)
    then have "s' = Some s" "r = Inl e" using Suc.prems(4) by auto
    then show ?thesis using Suc.prems(2,3) by (intro Suc.prems(1) [of s 0]) simp_all
  qed
qed

section \<open>The replay of a history, whichever context reads it\<close>

lemma record_reloaded: "record_of (reloaded i w) d = record_of w d"
  by (simp add: record_of_def staged_record_def step_report_def stepped_reloaded reloaded_fields)

lemma played_reloaded: "played_records (reloaded i w) ds = played_records w ds"
  by (induction ds arbitrary: w) (simp_all add: accepts_reloaded record_reloaded stepped_reloaded)

lemma all_accepted_reloaded: "all_accepted (reloaded i w) ds = all_accepted w ds"
  by (induction ds arbitrary: w) (simp_all add: accepts_reloaded stepped_reloaded)

lemma world_at_reloaded: "world_at (reloaded i w) n = reloaded i (world_at w n)"
  by (induction n) (simp_all add: world_at_Suc stepped_reloaded)

lemma replay_of_owner:
  assumes "all_accepted w ds"
  shows "replay_of i w ds = replay_of j w ds"
  using assms
  by (simp add: replay_of_def Let_def played_reloaded all_accepted_played all_accepted_reloaded replay_file_def replay_body_def
      replay_sections_def checkpoints_bytes_def checkpoint_bytes_def world_at_reloaded cong: map_cong)

text \<open>Whatever bytes the wrapper hands out for a history are its replay.\<close>

lemma build_replay_bytes:
  fixes ctx :: "'u fd_context"
  assumes h: "history i w s" and i: "cx_id ctx = i" and n: "length (ws_decisions s) < 2 ^ 64"
    and built: "build_replay ctx (Some s) = (ctx', Inr bytes)"
  shows "bytes = replay_of i w (ws_decisions s)" "length bytes \<le> unat (cx_max_file_bytes ctx)"
proof -
  let ?ds = "ws_decisions s"
  define v where "v = reloaded i w"
  have st: "storable w" and zero: "w_tick w = 0" and save: "ws_initial_save s = save_file w"
    and shapes: "\<forall>d\<in>set ?ds. decision_shape d" and valid: "wrapper_valid (Some s)"
    using h by (auto simp: history_def wrapper_valid_def)
  have v: "storable v" "w_tick v = 0" using storable_reloaded [OF st] zero by (simp_all add: v_def reloaded_fields)
  obtain r d octx raw where l: "fd_world_load (Some ctx) (Some (save_file w)) (of_nat (length (save_file w))) (Some None)
      (Some fd_diagnostic_init) = ((r, d), octx, raw)" by (metis prod.exhaust)
  show "bytes = replay_of i w ?ds" "length bytes \<le> unat (cx_max_file_bytes ctx)"
    using l
  proof (atomize (full), cases rule: load_cases)
    case (refused c)
    then show "bytes = replay_of i w ?ds \<and> length bytes \<le> unat (cx_max_file_bytes ctx)"
      using built l valid by (simp add: build_replay_def build_replay_of_def save vector_data_some save_file_not_empty)
  next
    case (loaded v' c0)
    have "v' = v" using reloaded_unique [OF st] l loaded(1-3) i by (auto simp: v_def)
    note c0 = loaded(5) [unfolded this]
    have r: "r = FD_OK" "octx = Some c0" "raw = Some (Some v)" using loaded(1-3) \<open>v' = v\<close> by simp_all
    have id: "cx_id c0 = i" "cx_max_file_bytes c0 = cx_max_file_bytes ctx" using charged_fields [OF c0] i by simp_all
    have file0: "replay_of (cx_id c0) v ?ds = replay_of i w ?ds" by (simp add: v_def id)
    let ?whole = "replay_of i w ?ds"
    note whole = build_replay_def build_replay_of_def save vector_data_some save_file_not_empty decision_data valid l r Let_def
    show "bytes = ?whole \<and> length bytes \<le> unat (cx_max_file_bytes ctx)"
      using v shapes n
    proof (cases rule: build_size_cases [where ctx = c0 and x = 0 and diag = "Some fd_diagnostic_init"])
      case (failed g c y)
      then show ?thesis using built by (cases g) (simp add: whole)
    next
      case (sized d1 c1)
      note sized = sized [unfolded file0]
      have m: "unat (of_nat (length ?whole) :: u64) = length ?whole"
        using sized(3) unat_lt_u64 [of "cx_max_file_bytes c0"] by (simp add: unat_of_nat_u64)
      have file1: "replay_of (cx_id c1) v ?ds = ?whole" using charged_fields(3) [OF sized(2)] file0 by simp
      have data: "vector_data (replicate (length ?whole) 0) = Some (replicate (length ?whole) 0)"
        by (simp add: vector_data_def replay_of_not_empty)
      have room: "unat (of_nat (length ?whole) :: u64) \<le> length (replicate (length ?whole) (0 :: u8))" by (simp add: m)
      from v shapes n room show ?thesis
      proof (cases rule: build_cases [where ctx = c1 and k = 0 and diag = "Some fd_diagnostic_init"])
        case (failed g c)
        then show ?thesis using built sized(1) by (cases g) (simp add: whole m data split: if_splits)
      next
        case made: (built d2 c2)
        then show ?thesis using built sized(1,3) by (simp add: whole m data file1 id(2) split: if_splits)
      qed
    qed
  qed
qed

section \<open>A written replay\<close>

lemma written:
  assumes "write_atomic a path bytes files = (files', Inr ())"
  shows "files' path = Some bytes" "length bytes \<le> 2 ^ 63 - 1"
  using write_outcome [of a path bytes files] assms by (auto simp: write_permitted_def split: if_splits)

text \<open>C11: a replay that the program writes is one that it verifies.  From a world with a history the program
  submits its passes and writes its replay to a file.  Any client that can hold the world and admits
  files that large, whatever its context, then finds in that file a replay that opens, makes a world
  and plays to its last record; the world it shows is the one the first program had after its passes,
  and the decisions are the same.\<close>

theorem written_replay_verifies:
  fixes ctx :: "'u fd_context" and c :: "'v fd_context"
  assumes "history (cx_id ctx) w s0" and "ws_handle s0 = Some v"
    and "submit_passes (su_reserve su) n (Some s0) = (Some s, Inr ())" and "length (ws_decisions s0) + n < 2 ^ 42"
    and "write_replay su options ctx (Some s) files = (ctx', files', Inr ())" and "co_replay_path options \<noteq> []"
    and "co_verify_replay_path options' = co_replay_path options"
    and "sa_open (su_verify su')" and "sa_size (su_verify su')" and "sa_read (su_verify su')"
    and "\<And>k. su_reserve su' k = Reserved"
    and "affords c v" and "cx_max_file_bytes ctx \<le> cx_max_file_bytes c"
  shows "\<exists>c' rp t. first_world su' files' c options' = Some (c', Inr (Some rp, t)) \<and> history (cx_id c) w t \<and>
    ws_handle t = Some (reloaded (cx_id c) (world_at v n)) \<and> ws_decisions t = ws_decisions s"
proof -
  let ?i = "cx_id ctx" and ?j = "cx_id c"
  obtain h: "history ?i w s" and v: "ws_handle s = Some (world_at v n)"
    and count: "length (ws_decisions s) = length (ws_decisions s0) + n"
    using submitted_passes [OF assms(1-3)] by (metis option.inject)
  let ?ds = "ws_decisions s"
  have st: "storable w" "w_tick w = 0" "\<forall>d\<in>set ?ds. decision_shape d \<and> staged_decision d = d"
    and acc: "all_accepted (reloaded ?i w) ?ds" and at: "reloaded ?i (world_at v n) = world_at (reloaded ?i w) (length ?ds)"
    using h v by (auto simp: history_def)
  have at0: "reloaded ?i v = world_at (reloaded ?i w) (length (ws_decisions s0))"
    using assms(1,2) by (auto simp: history_def)
  obtain bytes where b: "build_replay ctx (Some s) = (ctx', Inr bytes)"
    "write_atomic (su_replay su) (co_replay_path options) bytes files = (files', Inr ())"
    using assms(5,6) by (auto simp: write_replay_def split: prod.splits sum.splits)
  have few: "length ?ds < 2 ^ 64" using assms(4) count by simp
  note built = build_replay_bytes [OF h refl few b(1)]
  have acc': "all_accepted w ?ds" using acc by (simp add: all_accepted_reloaded)
  have owner: "replay_of ?i w ?ds = replay_of ?j w ?ds" by (rule replay_of_owner [OF acc'])
  have "affords c (reloaded ?i v) = affords c w"
    unfolding at0 using affords_at [OF storable_reloaded [OF st(1)]] by simp
  then have room: "affords c w" using assms(12) by simp
  have "length (replay_of ?j w ?ds) \<le> unat (cx_max_file_bytes c)"
    using built assms(13) by (simp add: owner word_le_nat_alt)
  then have can: "buildable c w ?ds"
    using room acc' assms(4) count by (simp add: buildable_def Let_def played_reloaded all_accepted_played all_accepted_reloaded)
  have accj: "all_accepted (reloaded ?j w) ?ds" using acc' by (simp add: all_accepted_reloaded)
  obtain c' rp where p: "replay_playback (su_reserve su') c (Inr (replay_of ?j w ?ds)) =
      (c', Inr (rp, \<lparr>ws_handle = Some (world_at (reloaded ?j w) (length ?ds)), ws_initial_save = save_file w, ws_decisions = ?ds\<rparr>))"
    by (rule played_back [where reserve = "su_reserve su'", OF st few accj can assms(11)])
  have shown: "world_at (reloaded ?j w) (length ?ds) = reloaded ?j (world_at v n)"
    using at by (metis reloaded_twice world_at_reloaded)
  have "read_file (su_verify su') files' (co_replay_path options) = Inr (replay_of ?j w ?ds)"
    using written [OF b(2)] assms(8-10) built(1) owner by (simp add: read_file_def)
  moreover have "history ?j w \<lparr>ws_handle = Some (world_at (reloaded ?j w) (length ?ds)), ws_initial_save = save_file w,
      ws_decisions = ?ds\<rparr>"
    unfolding shown using st acc' by (simp add: history_def all_accepted_reloaded shown reloaded_context)
  ultimately show ?thesis
    using p assms(6,7) by (simp add: first_world_def shown)
qed

text \<open>A system that carries everything out, and a run of one pass.\<close>

definition willing_answers :: system_answers where
  "willing_answers =
     \<lparr>sa_status = True, sa_open = True, sa_size = True, sa_read = True, sa_write = True, sa_written = 0,
      sa_rename = True, sa_remove = True, sa_message = []\<rparr>"

definition willing_surroundings :: surroundings where
  "willing_surroundings =
     \<lparr>su_reserve = \<lambda>_. Reserved, su_verify = willing_answers, su_save = willing_answers, su_replay = willing_answers,
      su_input = [], su_writable = \<lambda>_. True\<rparr>"

abbreviation recording :: cli_options where
  "recording \<equiv> default_cli_options\<lparr>co_replay_path := str ''run''\<rparr>"

abbreviation verifying :: cli_options where
  "verifying \<equiv> default_cli_options\<lparr>co_verify_replay_path := str ''run''\<rparr>"

lemma sample_state_passed: "submit_passes (\<lambda>_. Reserved) 1 (Some sample_state) = (Some passed_state, Inr ())"
proof -
  have s: "ws_handle sample_state = Some (reloaded 1 sample_world)" by (simp add: sample_state_def Let_def)
  show ?thesis
    using explicit_pass_outcome [OF sample_state_history s, of "\<lambda>_. Reserved"] sample_tick
    by (auto simp: Let_def sample_state_def passed_state_def append_decision_def reloaded_fields history_def
        intro!: world_state.equality split: prod.splits)
qed

lemma passed_state_written:
  "\<exists>ctx' files'. write_replay willing_surroundings recording roomy_context (Some passed_state) (\<lambda>_. None) = (ctx', files', Inr ())"
proof -
  let ?v = "reloaded 1 sample_world"
  have h: "history (cx_id roomy_context) ?v passed_state" using passed_state_history by (simp add: sample_replay_owner)
  have s: "ws_decisions passed_state = [pass_decision ?v]"
    by (simp add: passed_state_def sample_state_def append_decision_def Let_def)
  have few: "length (ws_decisions passed_state) < 2 ^ 64" by (simp add: s)
  have b: "buildable roomy_context ?v (ws_decisions passed_state)" using passed_buildable by (simp only: s)
  let ?whole = "replay_of (cx_id roomy_context) ?v (ws_decisions passed_state)"
  obtain c where built: "build_replay roomy_context (Some passed_state) = (c, Inr ?whole)"
    by (rule built_history [OF h few b])
  have "length ?whole \<le> 67108864" using b by (simp add: buildable_def Let_def roomy_context_def sample_context_def)
  then have "write_permitted willing_answers (str ''run'') ?whole (\<lambda>_. None)"
    by (simp add: write_permitted_def willing_answers_def str_def)
  then have "\<exists>files'. write_atomic willing_answers (str ''run'') ?whole (\<lambda>_. None) = (files', Inr ())"
    using write_outcome [of willing_answers "str ''run''" ?whole "\<lambda>_. None"] by (auto split: prod.splits)
  then show ?thesis using built by (auto simp: write_replay_def willing_surroundings_def str_def)
qed

lemma written_replay_verifies_witness:
  "\<exists>ctx' files' c' rp t.
     write_replay willing_surroundings recording roomy_context (Some passed_state) (\<lambda>_. None) = (ctx', files', Inr ()) \<and>
     first_world willing_surroundings files' roomy_context verifying = Some (c', Inr (Some rp, t)) \<and>
     ws_handle t = Some (stepped_world (reloaded 1 sample_world))"
proof -
  let ?v = "reloaded 1 sample_world"
  have h: "history (cx_id roomy_context) ?v sample_state" using sample_state_history by (simp add: sample_replay_owner)
  have s: "ws_handle sample_state = Some ?v" "ws_decisions sample_state = []" by (simp_all add: sample_state_def Let_def)
  have p: "submit_passes (su_reserve willing_surroundings) 1 (Some sample_state) = (Some passed_state, Inr ())"
    using sample_state_passed by (simp only: willing_surroundings_def surroundings.simps)
  obtain ctx' files' where w: "write_replay willing_surroundings recording roomy_context (Some passed_state) (\<lambda>_. None) =
      (ctx', files', Inr ())" using passed_state_written by blast
  have v: "reloaded 1 (world_at ?v 1) = stepped_world ?v"
    using world_at_Suc [of ?v 0] by (simp only: One_nat_def world_at_simps stepped_reloaded [symmetric] reloaded_twice)
  have affords: "affords roomy_context ?v" using sample_affords by simp
  have few: "length (ws_decisions sample_state) + 1 < 2 ^ 42" by (simp add: s(2))
  from written_replay_verifies [OF h s(1) p few w, of verifying willing_surroundings roomy_context] affords show ?thesis
    using w by (auto simp: willing_surroundings_def willing_answers_def str_def sample_replay_owner v simp del: One_nat_def)
qed

section \<open>The first world\<close>

lemma generated_cases:
  fixes ctx :: "'u fd_context"
  obtains (refused) ctx' e where "generated_world ctx options = Some (ctx', Inl e)" "charged 0 0 ctx ctx' \<or> books ctx' = books ctx"
  | (made) ctx' w where "generated_world ctx options = Some (ctx', Inr \<lparr>ws_handle = Some w, ws_initial_save = save_file w, ws_decisions = []\<rparr>)"
      "charged (1544 + tile_bytes w) 1 ctx ctx'" "storable w" "w_tick w = 0" "w_context w = cx_id ctx"
      "w_root_seed_le w = fd_store_u64_le (co_seed options) @ replicate 8 0"
proof -
  obtain c where c: "default_world_config blank_config = Inr c" "inputs_shape c empty_content"
    by (simp add: default_world_config_def fd_world_config_init_def inputs_shape_def empty_content_def)
  show thesis
  proof (rule world_generate_cases [OF c(2), of ctx "co_seed options" None "Some blank_generation_report" "Some fd_diagnostic_init"],
      goal_cases declined impossible given_up made)
    case (declined result d' ctx')
    then show ?case
      by (intro refused [of ctx' "error_from result (the d')"]) (simp_all add: generated_world_def c(1) context_generate_def)
  next
    case (impossible d')
    then show ?case
      by (intro refused [of ctx "error_from FD_ERR_GENERATION_EXHAUSTED (the d')"])
        (simp_all add: generated_world_def c(1) context_generate_def)
  next
    case (given_up result d' ctx' final j)
    then show ?case
      by (intro refused [of ctx' "error_from result (the d')"]) (auto simp: generated_world_def c(1) context_generate_def)
  next
    case (made d' ctx' final w j)
    have charge: "charged (1544 + tile_bytes w) 1 ctx ctx'"
      using made(4,5,8) valid_tile_bytes [of w] by (simp add: storable_def world_tile_bytes_def)
    have shape: "world_shape w" using made(5) by (simp add: storable_def)
    show ?case
    proof (cases "length (save_file w) \<le> unat (cx_max_file_bytes ctx')")
      case True
      then show ?thesis
        using made save_handle_Inr [OF shape True]
        by (intro that(2) [OF _ charge]) (simp_all add: generated_world_def c(1) context_generate_def)
    next
      case False
      obtain e where "save_handle ctx' (Some w) = Inl e" using save_handle_Inl [OF shape False] by blast
      then show ?thesis
        using made dispose_loaded [OF charge, of w]
        by (intro refused [of "dispose ctx' (Some w)" e])
          (simp_all add: generated_world_def c(1) context_generate_def world_deleter_dispose)
    qed
  qed
qed

text \<open>A generated world begins a history.  The program's generation always returns.  It either fails and
  leaves the books of the context as they were, or it gives a tick-zero world of the requested seed with
  nothing decided yet, whose recorded save is the save of that very world.\<close>

theorem generated_world_begins_history:
  "case generated_world ctx options of
     None \<Rightarrow> False
   | Some (ctx', r) \<Rightarrow>
       (case r of
          Inl _ \<Rightarrow> cx_live_bytes ctx' = cx_live_bytes ctx \<and> cx_live_handles ctx' = cx_live_handles ctx
        | Inr s \<Rightarrow> \<exists>w. history (cx_id ctx) w s \<and> ws_handle s = Some w \<and> ws_decisions s = [] \<and>
            w_root_seed_le w = fd_store_u64_le (co_seed options) @ replicate 8 0)"
proof (cases rule: generated_cases [of ctx options])
  case (refused ctx' e)
  then show ?thesis by (auto simp: charged_def books_def)
next
  case (made ctx' w)
  then show ?thesis using fresh_history [OF made(3-5)] by simp
qed

section \<open>How a run ends\<close>

definition output_paths :: "cli_options \<Rightarrow> bytes set" where
  "output_paths options =
     (if co_save_path options = [] then {} else {co_save_path options, beside (co_save_path options)}) \<union>
     (if co_replay_path options = [] then {} else {co_replay_path options, beside (co_replay_path options)})"

definition confined :: "bytes set \<Rightarrow> file_system \<Rightarrow> file_system \<Rightarrow> bool" where
  "confined paths files files' \<longleftrightarrow> (\<forall>path. path \<notin> paths \<longrightarrow> files' path = files path)"

lemma confined_refl [simp]: "confined X files files"
  by (simp add: confined_def)

lemma confined_trans: "confined X a b \<Longrightarrow> confined X b c \<Longrightarrow> confined X a c"
  by (simp add: confined_def)

lemma confined_mono: "confined X a b \<Longrightarrow> X \<subseteq> Y \<Longrightarrow> confined Y a b"
  by (auto simp: confined_def)

lemma write_atomic_confined:
  assumes "write_atomic a path bytes files = (files', r)"
  shows "confined {path, beside path} files files'"
proof -
  consider "files' = files(path \<mapsto> bytes)" | "files' = files" | "files'(beside path := files (beside path)) = files"
    using write_outcome [of a path bytes files] assms by (auto split: if_splits)
  then show ?thesis
  proof cases
    case 3
    then have "files p = (files'(beside path := files (beside path))) p" for p by simp
    then show ?thesis by (simp add: confined_def)
  qed (simp_all add: confined_def)
qed

lemma outputs_confined:
  "write_save su options ctx s files = (files1, r1) \<Longrightarrow> confined (output_paths options) files files1"
  "write_replay su options ctx s files = (ctx1, files1, r1) \<Longrightarrow> confined (output_paths options) files files1"
proof -
  let ?save = "co_save_path options" and ?replay = "co_replay_path options"
  show "confined (output_paths options) files files1" if w: "write_save su options ctx s files = (files1, r1)"
  proof (cases "?save = []")
    case False
    then have "{?save, beside ?save} \<subseteq> output_paths options" by (simp add: output_paths_def)
    then show ?thesis
      using w False by (cases "wrapper_save ctx s") (auto simp: write_save_def intro: confined_mono dest!: write_atomic_confined)
  qed (use w in \<open>simp add: write_save_def\<close>)
  show "confined (output_paths options) files files1" if w: "write_replay su options ctx s files = (ctx1, files1, r1)"
  proof (cases "?replay = []")
    case False
    then have sub: "{?replay, beside ?replay} \<subseteq> output_paths options" by (simp add: output_paths_def)
    obtain c b where b: "build_replay ctx s = (c, b)" by fastforce
    show ?thesis
      using w False b sub by (cases b) (auto simp: write_replay_def intro: confined_mono dest!: write_atomic_confined)
  qed (use w in \<open>simp add: write_replay_def\<close>)
qed

lemma print_error_not_empty [simp]: "print_error e \<noteq> []"
  by (simp add: print_error_def)

lemma draw_once_framed: "framed (ro_columns render) (ro_rows render) (draw_once options render session)"
proof -
  let ?mode = "if co_view options = Cli_strategic then Strategic else Local"
  have "framed (ro_columns render) (ro_rows render) (render_ascii snapshot (render\<lparr>ro_mode := ?mode\<rparr>))" for snapshot
    using framed_screens(1) [of "render\<lparr>ro_mode := ?mode\<rparr>" snapshot] by simp
  then show ?thesis
    by (auto simp: draw_once_def framed_screens split: prod.splits sum.splits)
qed

text \<open>How a run that has its arguments may end.\<close>

definition announced :: "cli_options \<Rightarrow> file_system \<Rightarrow> program_run \<Rightarrow> bool" where
  "announced options files ended \<longleftrightarrow>
     pr_status ended = (if pr_errors ended = [] then 0 else 1) \<and> (pr_errors ended = [] \<or> (\<exists>e. pr_errors ended = print_error e)) \<and>
     confined (if co_help options then {} else output_paths options) files (pr_files ended) \<and>
     (if co_help options then pr_output ended = print_help \<and> pr_errors ended = []
      else if co_interactive options then True
      else if pr_errors ended = [] then is_frame (co_columns options) (co_rows options) (pr_output ended)
      else pr_output ended = [])"

lemma announced_fail: "\<not> co_help options \<Longrightarrow> confined (output_paths options) files files' \<Longrightarrow> announced options files (fail (Suc 0) files' [] e)"
  by (auto simp: announced_def fail_def)

lemma run_world_announced:
  assumes "\<not> co_help options"
  shows "announced options files (run_world su options files ctx audit s)"
proof -
  obtain s1 r1 where p: "submit_passes (su_reserve su) (unat (co_steps options)) (Some s) = (s1, r1)" by fastforce
  obtain f2 r2 where sv: "write_save su options ctx s1 files = (f2, r2)" by fastforce
  obtain ctx3 f3 r3 where rp: "write_replay su options ctx s1 f2 = (ctx3, f3, r3)" by (metis prod.exhaust)
  note c2 = outputs_confined(1) [OF sv] and c3 = confined_trans [OF outputs_confined(1) [OF sv] outputs_confined(2) [OF rp]]
  let ?render = "first_render_options options" and ?session = "\<lparr>is_context = ctx3, is_world = s1, is_replay = audit\<rparr>"
  obtain out ri where i: "run_interactive su options ?render ?session = (out, ri)" by fastforce
  have size: "ro_columns ?render = co_columns options" "ro_rows ?render = co_rows options"
    by (simp_all add: first_render_options_def)
  note d = draw_once_framed [of ?render options ?session, unfolded size]
  show ?thesis
  proof (cases r1)
    case r1: (Inr u1)
    show ?thesis
    proof (cases r2)
      case r2: (Inr u2)
      show ?thesis
      proof (cases r3)
        case (Inr u3)
        have "run_world su options files ctx audit s = (if co_interactive options
            then case ri of Inl e \<Rightarrow> fail 1 f3 out e | Inr _ \<Rightarrow> succeed f3 out
            else case draw_once options ?render ?session of Inl e \<Rightarrow> fail 1 f3 [] e | Inr drawn \<Rightarrow> succeed f3 drawn)"
          by (simp add: run_world_def p sv rp r1 r2 Inr Let_def i split: sum.splits)
        then show ?thesis
          using assms c3 d by (auto simp: announced_def fail_def succeed_def framed_def split: sum.splits)
      qed (use assms c3 in \<open>simp add: run_world_def p sv rp r1 r2 announced_fail\<close>)
    qed (use assms c2 in \<open>simp add: run_world_def p sv r1 announced_fail\<close>)
  qed (use assms in \<open>simp add: run_world_def p announced_fail\<close>)
qed

lemma first_world_returns: "\<exists>r. first_world su files ctx options = Some r"
proof (cases "co_verify_replay_path options = []")
  case True
  show ?thesis by (cases rule: generated_cases [of ctx options]) (simp_all add: first_world_def True)
qed (simp add: first_world_def split: prod.splits)


end
