(* ===== verification/Spec2Isabelle.thy ===== *)
theory Spec2Isabelle
  imports FD_Routes FD_Sample FD_Determined FD_Session FD_Visible FD_Steer FD_Launch
begin

text \<open>
  A verification library for Frontier Directorate: the C library under \<^verbatim>\<open>src/src/core\<close> with the public
  interface \<^verbatim>\<open>src/include/frontier_directorate/fd.h\<close>, a deterministic world generator and stepper whose
  worlds are saved to and loaded from canonical, hashed files, and the terminal client over it in
  \<^verbatim>\<open>src/src/cpp\<close> and \<^verbatim>\<open>src/src/terminal\<close>.

  \<^bold>\<open>How the program is put together.\<close>  A client creates a context (\<^verbatim>\<open>fd_context_create\<close>), which carries
  the allocator, the limits and the counters of live bytes and handles.  In it a world is made, either
  by \<^verbatim>\<open>fd_world_generate\<close> from a configuration, a seed and a content manifest, or by \<^verbatim>\<open>fd_world_load\<close>
  from a save file.  \<^verbatim>\<open>fd_world_step\<close> advances it by 24 operational ticks under a joint decision of the
  two foreign factions; \<^verbatim>\<open>fd_world_validate\<close> checks nine invariants; \<^verbatim>\<open>fd_world_save\<close> writes it out;
  queries and snapshots read it.  Everything authoritative is covered by a SHA-256 state hash, and every
  random choice is a Philox draw keyed by a digest of seed, versions, domain, subject and attempt.

  \<^bold>\<open>How the code is translated.\<close>  Structs are records with the fields of the source, in its order;
  machine integers are words, so additions wrap where they do in C; loop counters and grid indices,
  which the bounds of a world keep far below their width, are natural numbers.  Pointers are values: a
  nullable pointer is an option, an output parameter is a result component, the memory behind a handle
  is the record itself.  The client's allocator and \<^verbatim>\<open>malloc\<close>/\<^verbatim>\<open>free\<close> are parameters, functions on a state
  \<open>'u\<close> of their own; every call of the allocator goes through \<open>fd_context_alloc\<close> and \<open>fd_context_free\<close>
  with the size the code passes.  Diagnostics are threaded as values of type \<open>diag\<close>.  Error returns are
  the C result codes; inside long functions they leave a sum type at the point of the early return.

  \<^bold>\<open>The theories\<close> follow the layers of the code; each names its C functions.
  \<^item> \<open>FD_Prelude\<close> (generic lemmas), \<open>FD_Bytes\<close> (little-endian loads and stores, checked arithmetic of
    \<^verbatim>\<open>fd_core.c\<close>), \<open>FD_Diag\<close> (diagnostics, struct headers), \<open>FD_Sha256\<close> and \<open>FD_Digest\<close> (\<^verbatim>\<open>fd_sha256.c\<close>: the
    streaming hash and its one-shot specification), \<open>FD_Rng\<close> (\<^verbatim>\<open>fd_rng.c\<close>: Philox and bounded draws).
  \<^item> \<open>FD_Types\<close> (worlds, tiles, entities), \<open>FD_Validate\<close> (\<^verbatim>\<open>fd_validate.c\<close>), with what its checks mean in
    \<open>FD_Coast\<close> (land is one region), \<open>FD_Path\<close> and \<open>FD_Routes\<close> (river and road are single paths) and
    \<open>FD_Ground\<close> (what the validator does not look at).
  \<^item> \<open>FD_Context\<close> (contexts and accounting), \<open>FD_Hash\<close> (digests of states, configurations, contents),
    \<open>FD_Action\<close> (actions and joint decisions), \<open>FD_Step\<close> (the step), \<open>FD_Query\<close> (queries, snapshots,
    handles), all of \<^verbatim>\<open>fd_core.c\<close>.
  \<^item> \<open>FD_Config\<close> (input validation), \<open>FD_Writer\<close>, \<open>FD_Save\<close> (the writer of \<^verbatim>\<open>fd_serialize.c\<close>), \<open>FD_Parse\<close>,
    \<open>FD_Load\<close> (its loader), \<open>FD_Roundtrip\<close>, \<open>FD_Loaded\<close> (the two directions), \<open>FD_Sample\<close> (a concrete
    storable world that instantiates the hypotheses).
  \<^item> \<open>FD_Draw\<close>, \<open>FD_Heap\<close>, \<open>FD_Search\<close>, \<open>FD_Road\<close>, \<open>FD_River\<close>, \<open>FD_Terrain\<close>, \<open>FD_Naming\<close>, \<open>FD_Candidate\<close>,
    \<open>FD_Generate\<close>, \<open>FD_Determined\<close> (\<^verbatim>\<open>fd_generate.c\<close>: draws, the indexed heap and the shortest-path search
    over it, road, river, elevation, names and entities, one attempt, the series of attempts, and that
    the outcome does not depend on the allocator).
  \<^item> \<open>FD_Wire\<close> (records, audits and framing of replay files), \<open>FD_Build\<close> (building them), \<open>FD_Open\<close> and
    \<open>FD_Playback\<close> (opening, querying and advancing them), all of \<^verbatim>\<open>fd_replay.c\<close>; what is proved of
    them is in \<open>FD_Clone\<close> (clones through the save), \<open>FD_Opened\<close> (the books), \<open>FD_Reject\<close> (refused
    steps), \<open>FD_Authentic\<close> (an opened replay is a run of the model) and \<open>FD_Advance\<close> (playing it back);
    for the way back \<open>FD_Played\<close> (what a list of decisions records), \<open>FD_Layout\<close> (the file as one
    concatenation), \<open>FD_Written\<close>, \<open>FD_Filled\<close>, \<open>FD_Built\<close>, \<open>FD_Rebuilt\<close> (the build writes exactly that
    file), \<open>FD_Reopened\<close>, \<open>FD_Replayed\<close> (that file opens) and \<open>FD_Recorded\<close> (the properties).
  \<^item> \<open>FD_Sound\<close> (what every operation keeps of a world) and \<open>FD_Session\<close> (a client that generates, loads, steps, destroys and snapshots in one context, as a step
    relation, with the invariant of its reachable states); this theory states what follows for clients.
  \<^item> \<open>FD_Result\<close> (\<^verbatim>\<open>cpp/result.hpp\<close>, \<^verbatim>\<open>result.cpp\<close> and the queries of \<^verbatim>\<open>cpp/fd.cpp\<close>), \<open>FD_Text\<close>, \<open>FD_Screen\<close> and
    \<open>FD_Log\<close> (\<^verbatim>\<open>terminal/ascii_renderer.cpp\<close>: text helpers, the screens of a snapshot with the C entry
    points, the screens of a replay), \<open>FD_Control\<close> (\<^verbatim>\<open>terminal/control_model.hpp\<close>); proved of them:
    \<open>FD_Frames\<close> (screens are frames, measuring agrees with rendering), \<open>FD_Visible\<close> (every valid world can
    be shown), \<open>FD_Logged\<close> (what inspector and message log show of a replay) and \<open>FD_Steer\<close> (the cursor).
  \<^item> \<open>FD_Wrapper\<close> (the objects of \<^verbatim>\<open>cpp/fd.cpp\<close> that change state: contexts, worlds with the history of their
    accepted decisions, replays), \<open>FD_Client\<close> and \<open>FD_Program\<close> (\<^verbatim>\<open>terminal/main.cpp\<close>: command line, files,
    playback and session; then the whole program as a function of its arguments and surroundings);
    proved of them: \<open>FD_History\<close> (a world's history is a run in which everything was accepted),
    \<open>FD_Playable\<close> (it can be recorded and played back) and \<open>FD_Launch\<close> (files, written replays, outcomes).

  \<^bold>\<open>What is shown.\<close>  Hashing: streaming SHA-256 equals hashing the padded concatenation, Philox permutes
  its counters, bounded draws are unbiased.  Validation: its verdict is the conjunction of nine
  invariants, and the walks it makes mean what they should (one region of land, one rising river, one
  road).  Stepping: when it succeeds, what it changes, and the closed form of its report.  Files: what
  is saved is loaded back identically, whatever is loaded is storable, refused files leave the books
  balanced.  Generation: it returns on every input, publishes only storable worlds, reports faithfully
  every attempt, and is a function of its inputs; its road is a cheapest corridor, its river rises from
  its outlet, its fields are bounded.  Replays: building one is all or nothing, what is built opens
  again, whatever opens is a run of the stepper, and advancing along it never diverges; the arrays in
  the decisions have the lengths C gives them, and a file is built and opened in contexts with the same
  identity.  Screens: each is a frame of the terminal it is drawn for, a valid world always renders, the
  message log tells the run a replay holds, and the cursor never leaves the part of the map on display.
  Sessions: every world a client can hold is sound, and the counters
  of the context are exactly what it holds.  The terminal program: a pass succeeds and extends the
  history exactly when there is room for it, a recorded history plays back to the same world, also in
  another process that reads the file; files are installed whole or not at all; every run ends in an
  announced way and touches no file it was not asked to write.

  \<^bold>\<open>Limits of the code\<close> that modelling showed: a world stepped to tick \<open>2^64 - 16\<close>, the last the stepper
  reaches, can be saved, but the loader refuses it; so soundness of reachable worlds and storability
  differ at that tick alone.  And paging down a message log of at most ten attempts goes past its end
  (\<open>page_down_past_the_end\<close> in \<open>FD_Steer\<close>); the client takes the position back before it draws.

  \<^bold>\<open>Interfaces.\<close>  The locale \<open>min_queue\<close> (\<open>FD_Heap\<close>) is the contract of the priority queue the road
  search uses; \<open>corridor_search\<close> (\<open>FD_Search\<close>) extends it by a graph with costs and proves Dijkstra's
  invariants once; the indexed binary heap and the road grid interpret them.  \<open>codec\<close> (\<open>FD_Bytes\<close>) is the
  contract of a fixed-width record encoding, interpreted by tiles, packs and regions; \<open>stream_digest\<close>
  (\<open>FD_Digest\<close>) that of a streaming hash; \<open>neighbor_graph\<close> (\<open>FD_Path\<close>) that of a symmetric neighbour
  relation whose trails are walked tile by tile; \<open>same_ground\<close> (\<open>FD_Ground\<close>) relates worlds the validator cannot tell apart.

  \<^bold>\<open>Bounds and fuel.\<close>  Nothing is cut short by fuel.  The walks of the validator and the heap loops are
  total functions with measures; the road search is a \<open>partial_function\<close>, whose value \<open>None\<close> would be a
  search that never returns, and it is proved to return on every grid within the bounds of a world
  (256 by 128 tiles).  The generator tries at most the configured budget of 1 to 64 attempts, and is
  proved to return on every input.

  \<^bold>\<open>Not modelled.\<close>  Concurrent use of a context (the C atomics are read and written by one thread at a
  time), aliasing of output buffers with inputs, addresses, alignment and undefined pointer arguments.
  Of the C++ wrapper the exceptions for exhausted memory that it does not handle on the spot, the growth of
  its vectors, whose room is a parameter, and moves.  Of the terminal program the exceptions nobody
  catches, failures of the standard output outside the control loop, and the handles it gives back when
  the process ends.  The file system is a map from paths to contents: directories, links and other
  processes are left out.  The tests, fuzz targets and benchmarks drive the library
  and have no logic of their own.
\<close>

section \<open>Sessions\<close>

text \<open>C1: in every session a client can bring about, by any sequence of generating, loading, stepping,
  destroying and snapshotting with any arguments and any allocator behaviour, every world it holds is
  valid, hash consistent, canonically configured and owned by the session's context, and is storable
  unless it stands at the very last tick; and the context's counters are exactly the blocks and handles
  of the worlds and snapshots that are held.\<close>

theorem session_invariant:
  assumes "session s"
  shows "(\<forall>w\<in>set (ss_worlds s). sound w \<and> w_context w = cx_id (ss_context s) \<and>
      (storable w \<longleftrightarrow> w_tick w \<noteq> - 16)) \<and>
    cx_live_bytes (ss_context s) = worlds_bytes (ss_worlds s) + snapshots_bytes (ss_snapshots s) \<and>
    cx_live_handles (ss_context s) = of_nat (length (ss_worlds s) + length (ss_snapshots s))"
  using session_ok [OF assms] sound_storable by (auto simp: session_ok_def)

lemma opened_session:
  "session \<lparr>ss_context = sample_context, ss_worlds = [], ss_snapshots = []\<rparr>"
proof -
  define a :: "u64 fd_allocator" where "a = \<lparr>al_struct_size = 32, al_abi_version = 1,
    al_allocate = Some (cx_allocate sample_context), al_deallocate = Some (cx_deallocate sample_context),
    al_user = 10000080\<rparr>"
  have "fd_context_create (\<lambda>u n. (True, u)) (\<lambda>u. u) 1
      (Some ((the (snd (fd_context_config_init 0 (Some undefined))))\<lparr>cc_allocator := a\<rparr>)) (Some None) None =
      ((FD_OK, None), Some (Some sample_context))"
    by (simp add: a_def fd_context_create_def fd_context_config_init_def sample_context_def Let_def
        fd_input_struct_valid_def fd_output_struct_valid_def fd_reserved_zero_def fd_diag_ok_def list_all_iff)
  then show ?thesis by (rule session.opened)
qed

theorem session_invariant_witness:
  "\<exists>s :: u64 session_state. session s \<and> ss_worlds s = [reloaded 1 sample_world] \<and> sound (reloaded 1 sample_world) \<and>
     cx_live_handles (ss_context s) = 1"
proof -
  obtain d ctx' where l: "fd_world_load (Some sample_context) (Some (save_file sample_world)) 13500 (Some None) None =
     ((FD_OK, d), Some ctx', Some (Some (reloaded 1 sample_world)))"
    using sample_loaded by blast
  have n: "unat (13500 :: u64) \<le> length (save_file sample_world)" by (simp add: sample_file_length)
  define s0 where "s0 = \<lparr>ss_context = sample_context, ss_worlds = [], ss_snapshots = []\<rparr>"
  define s where "s = s0\<lparr>ss_context := ctx', ss_worlds := ss_worlds s0 @ held (Some (reloaded 1 sample_world))\<rparr>"
  have start: "ss_context s0 = sample_context" by (simp add: s0_def)
  have "session_step s0 s" unfolding s_def by (rule session_step.load [OF n, of s0, unfolded start, OF l])
  then have s: "session s" by (rule session.steps [OF opened_session [folded s0_def]])
  have "ss_worlds s = [reloaded 1 sample_world]" "ss_snapshots s = []" by (simp_all add: s_def s0_def held_def)
  with session_invariant [OF s] s show ?thesis by (intro exI [of _ s]) simp
qed

text \<open>C2: a context can be destroyed exactly when nothing made in it is still held, and then nothing is
  left on its books: destroying it while handles are live is refused and changes nothing.\<close>

theorem session_closes_when_empty:
  assumes "session s" and "length (ss_worlds s) + length (ss_snapshots s) < 2 ^ 32"
  shows "case fd_context_destroy (Some (Some (ss_context s))) diag of (r, p, u) \<Rightarrow>
    if ss_worlds s = [] \<and> ss_snapshots s = []
    then fst r = FD_OK \<and> p = Some None \<and> cx_live_bytes (ss_context s) = 0
    else fst r = FD_ERR_BUSY \<and> p = Some (Some (ss_context s)) \<and> u = None"
proof -
  define n where "n = length (ss_worlds s) + length (ss_snapshots s)"
  have ok: "session_ok s" by (rule session_ok [OF assms(1)])
  have "(of_nat n :: u32) = 0 \<longleftrightarrow> n = 0"
    using assms(2) unat_of_nat_u32 [of n] unfolding n_def [symmetric] by (simp add: word_unat_eq_iff)
  then have "cx_live_handles (ss_context s) = 0 \<longleftrightarrow> ss_worlds s = [] \<and> ss_snapshots s = []"
    using ok by (simp add: session_ok_def n_def)
  then show ?thesis
    using ok by (auto simp: fd_context_destroy_def session_ok_def worlds_bytes_def snapshots_bytes_def)
qed

theorem session_closes_when_empty_witness:
  "fst (fst (fd_context_destroy (Some (Some sample_context)) None)) = FD_OK \<and> cx_live_bytes sample_context = 0"
  using session_closes_when_empty [OF opened_session, of None] by (simp split: prod.splits)

end
